(* ===== verification/Prelude.thy ===== *)
theory Prelude
  imports Main "HOL-Library.Word"
begin

unbundle bit_operations_syntax

text \<open>
  Shared vocabulary of the development: the machine integer types of the Rust sources, the
  collections of simplification rules the component theories use, byte slices with Rust's
  bounds checks, and the little-endian conversions of the standard library.

  Conventions of the whole development. A Rust function that can panic (an index out of range,
  an \<^verbatim>\<open>unwrap\<close>, an explicit \<^verbatim>\<open>panic!\<close>) returns an \<open>option\<close> and \<open>None\<close> is the panic; one that
  returns \<^verbatim>\<open>Result\<close> returns a sum with the error on the left. A \<^verbatim>\<open>&mut [u8]\<close> argument is a byte
  list that is taken and returned. Integer operators follow the release profile
  (\<^verbatim>\<open>Cargo.toml\<close> sets no \<^verbatim>\<open>overflow-checks\<close>): they wrap. A failed \<^verbatim>\<open>debug_assert!\<close> is \<open>None\<close> too, so that a
  theorem that gives a result also shows the assertion.
\<close>

type_synonym u8 = "8 word"
type_synonym u16 = "16 word"
type_synonym u32 = "32 word"
type_synonym u64 = "64 word"
type_synonym i64 = "64 word" \<comment> \<open>two's complement: read with \<open>sint\<close>\<close>
type_synonym bytes = "u8 list"

named_theorems field_simps_bits "rules that turn masks and shifts into bit-field operations"
named_theorems slice_simps "rules for slices whose length is known"
named_theorems reloc_defs "definitions of the relocation tables and their helpers"

subsection \<open>Shifts and masks\<close>

text \<open>Rust's \<open>(1 << n) - 1\<close> is a mask of \<open>n\<close> ones; masking with it keeps the low \<open>n\<close> bits.\<close>

lemma push_bit_1_minus_1 [field_simps_bits]:
  "push_bit n 1 - 1 = (mask n :: 'a::len word)"
  by (simp add: mask_eq_exp_minus_1 push_bit_eq_mult)

lemma and_push_bit_mask [field_simps_bits]:
  "x AND (push_bit n 1 - 1) = take_bit n (x :: 'a::len word)"
  by (simp add: take_bit_eq_mask flip: push_bit_1_minus_1)

lemma take_bit_word_eq_self_iff: "take_bit n x = x \<longleftrightarrow> unat (x :: 'a::len word) < 2 ^ n"
  by (metis take_bit_nat_eq_self_iff unsigned_take_bit_eq word_unat_eq_iff)

lemma take_bit_add_word:
  fixes a b :: "'a::len word"
  shows "take_bit n (take_bit n a + b) = take_bit n (a + b)"
proof transfer
  fix n :: nat and k l :: int
  let ?m = "min LENGTH('a) n"
  have "take_bit ?m (take_bit ?m k + l) = take_bit ?m (k + l)"
    by (simp add: take_bit_eq_mod mod_simps)
  then show "take_bit LENGTH('a) (take_bit ?m (take_bit ?m k + l)) = take_bit LENGTH('a) (take_bit ?m (k + l))"
    by simp
qed

subsection \<open>Search\<close>

lemma distinct_of_map: "distinct (map f xs) \<Longrightarrow> distinct xs"
  by (simp add: distinct_map)

lemma find_SomeD: "find P xs = Some x \<Longrightarrow> x \<in> set xs \<and> P x"
  by (induction xs) (auto split: if_splits)

subsection \<open>Slices\<close>

text \<open>\<^verbatim>\<open>data.first_chunk::<N>().unwrap()\<close> and \<^verbatim>\<open>&data[a..b]\<close>.\<close>

definition first_chunk :: "nat \<Rightarrow> 'a list \<Rightarrow> 'a list option" where
  "first_chunk n xs = (if n \<le> length xs then Some (take n xs) else None)"

definition slice_range :: "nat \<Rightarrow> nat \<Rightarrow> 'a list \<Rightarrow> 'a list option" where
  "slice_range a b xs = (if a \<le> b \<and> b \<le> length xs then Some (take (b - a) (drop a xs)) else None)"

text \<open>\<^verbatim>\<open>xs[a..b].copy_from_slice(src)\<close>: panics unless the range is in bounds and the lengths agree.\<close>

definition copy_from_slice :: "nat \<Rightarrow> nat \<Rightarrow> 'a list \<Rightarrow> 'a list \<Rightarrow> 'a list option" where
  "copy_from_slice a b src xs =
     (if a \<le> b \<and> b \<le> length xs \<and> length src = b - a
      then Some (take a xs @ src @ drop b xs) else None)"

text \<open>\<^verbatim>\<open>xs[i]\<close> and \<^verbatim>\<open>xs[i] = v\<close>.\<close>

definition get_at :: "'a list \<Rightarrow> nat \<Rightarrow> 'a option" where
  "get_at xs i = (if i < length xs then Some (xs ! i) else None)"

definition set_at :: "nat \<Rightarrow> 'a \<Rightarrow> 'a list \<Rightarrow> 'a list option" where
  "set_at i v xs = (if i < length xs then Some (xs[i := v]) else None)"

lemma length_copy_from_slice:
  "copy_from_slice a b src xs = Some ys \<Longrightarrow> length ys = length xs"
  by (auto simp: copy_from_slice_def split: if_splits)

lemma nth_copy_from_slice:
  assumes "copy_from_slice a b src xs = Some ys" and "i < length xs"
  shows "ys ! i = (if a \<le> i \<and> i < b then src ! (i - a) else xs ! i)"
  using assms by (auto simp: copy_from_slice_def nth_append min_def split: if_splits)

lemma length_set_at: "set_at i v xs = Some ys \<Longrightarrow> length ys = length xs"
  by (auto simp: set_at_def split: if_splits)

lemma nth_set_at:
  "set_at i v xs = Some ys \<Longrightarrow> j < length xs \<Longrightarrow> ys ! j = (if j = i then v else xs ! j)"
  by (auto simp: set_at_def split: if_splits)

subsection \<open>Little-endian bytes\<close>

text \<open>\<^verbatim>\<open>x.to_le_bytes()\<close> for an integer of \<open>n\<close> bytes, and \<^verbatim>\<open>from_le_bytes\<close>.\<close>

fun to_le_bytes :: "nat \<Rightarrow> 'a::len word \<Rightarrow> bytes" where
  "to_le_bytes 0 x = []"
| "to_le_bytes (Suc n) x = ucast x # to_le_bytes n (drop_bit 8 x)"

fun from_le_bytes :: "bytes \<Rightarrow> 'a::len word" where
  "from_le_bytes [] = 0"
| "from_le_bytes (b # bs) = ucast b OR push_bit 8 (from_le_bytes bs)"

lemma length_to_le_bytes [simp]: "length (to_le_bytes n x) = n"
  by (induction n arbitrary: x) simp_all

lemma nth_to_le_bytes: "i < n \<Longrightarrow> to_le_bytes n x ! i = ucast (drop_bit (8 * i) x)"
proof (induction n arbitrary: x i)
  case 0
  then show ?case by simp
next
  case (Suc n)
  then show ?case by (cases i) (simp_all add: drop_bit_drop_bit add.commute)
qed

text \<open>Bit \<open>i\<close> of the word sits in byte \<open>i div 8\<close>.\<close>

lemma bit_from_le_bytes:
  "bit (from_le_bytes bs :: 'a::len word) i \<longleftrightarrow>
     i < LENGTH('a) \<and> i < 8 * length bs \<and> bit (bs ! (i div 8)) (i mod 8)"
proof (induction bs arbitrary: i)
  case Nil
  then show ?case by simp
next
  case (Cons b bs)
  show ?case
  proof (cases "i < 8")
    case True
    then show ?thesis by (auto simp: bit_simps dest: bit_imp_le_length)
  next
    case False
    then obtain k where k: "i = 8 + k" by (metis le_add_diff_inverse not_less)
    have high: "\<not> bit b i" using False bit_imp_le_length [of b i] by auto
    have low: "bit (push_bit 8 (from_le_bytes bs) :: 'a word) i
        \<longleftrightarrow> i < LENGTH('a) \<and> bit (from_le_bytes bs :: 'a word) k"
      using k by (auto simp: bit_push_bit_iff possible_bit_def dest: bit_imp_le_length)
    have "bit (from_le_bytes (b # bs) :: 'a word) i
        \<longleftrightarrow> i < LENGTH('a) \<and> bit (from_le_bytes bs :: 'a word) k"
      using high by (simp add: bit_or_iff bit_unsigned_iff low)
    moreover have "(8 + k) div 8 = Suc (k div 8)" by simp
    ultimately show ?thesis by (auto simp del: from_le_bytes.simps simp add: Cons.IH k)
  qed
qed

lemma bit_to_le_bytes:
  "i < n \<Longrightarrow> bit (to_le_bytes n x ! i) j \<longleftrightarrow> j < 8 \<and> bit x (8 * i + j)"
  by (auto simp: nth_to_le_bytes bit_simps)

lemma from_le_bytes_to_le_bytes:
  "LENGTH('a::len) \<le> 8 * n \<Longrightarrow> from_le_bytes (to_le_bytes n x) = (x :: 'a word)"
  by (rule bit_word_eqI) (simp add: bit_from_le_bytes bit_to_le_bytes div_less_iff_less_mult mult.commute)

lemma from_le_bytes_inject:
  assumes "length bs = length cs" and "8 * length bs \<le> LENGTH('a::len)"
    and "(from_le_bytes bs :: 'a word) = from_le_bytes cs"
  shows "bs = cs"
proof (rule nth_equalityI)
  show "length bs = length cs" by fact
  fix i
  assume i: "i < length bs"
  show "bs ! i = cs ! i"
  proof (rule bit_word_eqI)
    fix j
    assume j: "j < LENGTH(8)"
    have "bit (from_le_bytes bs :: 'a word) (8 * i + j) = bit (from_le_bytes cs :: 'a word) (8 * i + j)"
      using assms by simp
    moreover have "8 * i + j < 8 * length bs" using i j by simp
    moreover have "(8 * i + j) div 8 = i" "(8 * i + j) mod 8 = j" using j by simp_all
    ultimately show "bit (bs ! i) j = bit (cs ! i) j"
      using assms(1,2) by (simp add: bit_from_le_bytes)
  qed
qed

lemma to_le_bytes_from_le_bytes:
  assumes "8 * length bs \<le> LENGTH('a::len)"
  shows "to_le_bytes (length bs) (from_le_bytes bs :: 'a word) = bs"
proof (rule nth_equalityI)
  show "length (to_le_bytes (length bs) (from_le_bytes bs :: 'a word)) = length bs" by simp
  fix i
  assume "i < length (to_le_bytes (length bs) (from_le_bytes bs :: 'a word))"
  then have i: "i < length bs" by simp
  show "to_le_bytes (length bs) (from_le_bytes bs :: 'a word) ! i = bs ! i"
  proof (rule bit_word_eqI)
    fix j
    assume j: "j < LENGTH(8)"
    have "8 * i + j < 8 * length bs" using i j by simp
    moreover have "(8 * i + j) div 8 = i" "(8 * i + j) mod 8 = j" using j by simp_all
    ultimately show "bit (to_le_bytes (length bs) (from_le_bytes bs :: 'a word) ! i) j = bit (bs ! i) j"
      using i j assms by (simp add: bit_to_le_bytes bit_from_le_bytes)
  qed
qed

lemma even_unat_word_iff: "even (unat (v :: 'a::len word)) \<longleftrightarrow> even v"
proof -
  have "bit (unat v) 0 \<longleftrightarrow> bit v 0" by (simp only: bit_unsigned_iff) simp
  then show ?thesis by (simp only: bit_0) simp
qed

end
