(* ===== verification/Std_Num.thy ===== *)
theory Std_Num
  imports Prelude
begin

text \<open>
  Functions of the Rust standard library on machine integers that several components use, and when the
  words of a computation are the numbers they stand for.
\<close>

subsection \<open>Words and numbers\<close>

lemma unat_bound: "unat (x :: 'a::len word) < 2 ^ LENGTH('a)"
  by (rule unsigned_less)

lemma unat_of_nat_small: "n < 2 ^ LENGTH('a) \<Longrightarrow> unat (of_nat n :: 'a::len word) = n"
  by (simp add: unat_of_nat)

lemma unat_add_small: "unat (x :: u64) + k < 2 ^ 64 \<Longrightarrow> unat (x + of_nat k) = unat x + k"
  by (simp add: unat_word_ariths unat_of_nat take_bit_nat_eq_self)

subsection \<open>Powers and multiples\<close>

text \<open>
  The standard library's \<^verbatim>\<open>u64::next_power_of_two\<close>, which wraps to zero above \<open>2 ^ 63\<close>, and
  \<^verbatim>\<open>u64::next_multiple_of\<close>, which panics on zero.
\<close>

fun bit_width :: "nat \<Rightarrow> nat" where
  "bit_width n = (if n = 0 then 0 else Suc (bit_width (n div 2)))"

declare bit_width.simps [simp del]

definition next_power_of_two :: "u64 \<Rightarrow> u64" where
  "next_power_of_two x = (if x = 0 then 1 else of_nat (2 ^ bit_width (unat (x - 1))))"

definition next_multiple_of :: "u64 \<Rightarrow> u64 \<Rightarrow> u64 option" where
  "next_multiple_of x rhs =
     (if rhs = 0 then None
      else let r = x mod rhs in Some (if r = 0 then x else x + (rhs - r)))"

lemma bit_width_0: "bit_width 0 = 0"
  by (subst bit_width.simps) simp

lemma bit_width_pos: "n \<noteq> 0 \<Longrightarrow> bit_width n = Suc (bit_width (n div 2))"
  by (subst bit_width.simps) simp

lemma bit_width_bound: "n < 2 ^ bit_width n"
proof (induction n rule: bit_width.induct)
  case (1 n)
  show ?case
  proof (cases "n = 0")
    case False
    with 1 have "n div 2 < 2 ^ bit_width (n div 2)" by simp
    with False show ?thesis by (subst bit_width.simps) simp
  qed (simp add: bit_width.simps)
qed

lemma bit_width_least: "n \<noteq> 0 \<Longrightarrow> 2 ^ (bit_width n - 1) \<le> n \<and> bit_width n \<noteq> 0"
proof (induction n rule: bit_width.induct)
  case (1 n)
  show ?case
  proof (cases "n div 2 = 0")
    case True
    then have "n = 1" using 1 by simp
    then show ?thesis by (subst (1 2) bit_width.simps) (simp add: bit_width.simps [of 0])
  next
    case False
    with 1 have ih: "2 ^ (bit_width (n div 2) - 1) \<le> n div 2" "bit_width (n div 2) \<noteq> 0" by auto
    then have "(2 :: nat) ^ bit_width (n div 2) = 2 * 2 ^ (bit_width (n div 2) - 1)"
      by (metis power_eq_if)
    with ih have "2 ^ bit_width (n div 2) \<le> n" by simp
    with 1 show ?thesis by (subst (1 2) bit_width.simps) simp
  qed
qed

text \<open>The smallest power of two that is not below the argument.\<close>

lemma next_power_of_two_bounds:
  assumes "x \<noteq> 0" and "unat x \<le> 2 ^ 63"
  shows "unat x \<le> unat (next_power_of_two x)" and "unat (next_power_of_two x) < 2 * unat x"
    and "\<exists>k. unat (next_power_of_two x) = 2 ^ k"
proof -
  let ?n = "unat (x - 1)" and ?k = "bit_width (unat (x - 1))"
  have x: "unat x = Suc ?n" using assms(1) by (simp add: unat_gt_0 unat_minus_one)
  have up: "?n < 2 ^ ?k" by (rule bit_width_bound)
  have low: "2 ^ ?k < 2 * unat x"
  proof (cases "?n = 0")
    case True
    then show ?thesis using x by (simp add: bit_width.simps)
  next
    case False
    then have "2 ^ (?k - 1) \<le> ?n" "?k \<noteq> 0" using bit_width_least by auto
    moreover have "(2 :: nat) ^ ?k = 2 * 2 ^ (?k - 1)" using \<open>?k \<noteq> 0\<close> by (metis power_eq_if)
    ultimately show ?thesis using x by simp
  qed
  then have "(2 :: nat) ^ ?k < 2 ^ 64" using assms(2) by simp
  then have "unat (of_nat (2 ^ ?k) :: u64) = 2 ^ ?k"
    by (simp only: unat_of_nat) (simp add: take_bit_nat_eq_self)
  then have eq: "unat (next_power_of_two x) = 2 ^ ?k"
    using assms(1) by (simp only: next_power_of_two_def if_False)
  show "unat x \<le> unat (next_power_of_two x)" using eq x up by simp
  show "unat (next_power_of_two x) < 2 * unat x" using eq low by simp
  show "\<exists>k. unat (next_power_of_two x) = 2 ^ k" using eq by blast
qed

lemma next_multiple_of_bounds:
  assumes "rhs \<noteq> 0" and "unat x + unat rhs < 2 ^ 64"
  shows "\<exists>d. next_multiple_of x rhs = Some d \<and> unat rhs dvd unat d \<and> unat x \<le> unat d \<and> unat d < unat x + unat rhs"
proof (cases "x mod rhs = 0")
  case True
  then have "unat x mod unat rhs = 0" by (metis unat_0 unat_mod_distrib)
  with True assms(1) show ?thesis
    by (auto simp: next_multiple_of_def Let_def dvd_eq_mod_eq_0 unat_gt_0)
next
  case False
  let ?r = "unat x mod unat rhs"
  have pos: "0 < unat rhs" using assms(1) by (simp add: unat_gt_0)
  have r: "unat (x mod rhs) = ?r" by (rule unat_mod_distrib)
  have r0: "?r \<noteq> 0" using False r by (metis unat_eq_zero)
  have rlt: "?r < unat rhs" using pos by simp
  then have "x mod rhs \<le> rhs" by (simp add: word_le_nat_alt r)
  then have sub: "unat (rhs - x mod rhs) = unat rhs - ?r" by (simp add: unat_sub r)
  then have add: "unat (x + (rhs - x mod rhs)) = unat x + (unat rhs - ?r)"
    using assms(2) by (simp add: unat_word_ariths)
  have "unat x = unat rhs * (unat x div unat rhs) + ?r" by simp
  then have "unat x + (unat rhs - ?r) = unat rhs * (unat x div unat rhs) + unat rhs"
    using rlt by linarith
  then have "unat x + (unat rhs - ?r) = unat rhs * (unat x div unat rhs + 1)" by simp
  then have "unat rhs dvd unat x + (unat rhs - ?r)" by simp
  with False assms(1) add r0 rlt show ?thesis by (auto simp: next_multiple_of_def Let_def)
qed

end
