(* ===== verification/Rust_Text.thy ===== *)
theory Rust_Text
  imports Prelude
begin

text \<open>
  The text operations of the Rust standard library that the sources use, on \<^verbatim>\<open>str\<close> as a list of bytes:
  splitting, lines, decimal numbers. Texts are UTF-8, and all separators are ASCII, so splitting the
  bytes and splitting the characters agree. A \<^verbatim>\<open>Result\<close> whose error is a message is a sum.
\<close>

type_synonym 'a res = "string + 'a"

definition res_bind :: "'e + 'a \<Rightarrow> ('a \<Rightarrow> 'e + 'b) \<Rightarrow> 'e + 'b" where
  "res_bind r f = (case r of Inl e \<Rightarrow> Inl e | Inr x \<Rightarrow> f x)"

lemma res_bind_simps [simp]: "res_bind (Inl e) f = Inl e" "res_bind (Inr x) f = f x"
  by (simp_all add: res_bind_def)

lemma res_bind_Inr_iff: "res_bind r f = Inr y \<longleftrightarrow> (\<exists>x. r = Inr x \<and> f x = Inr y)"
  by (cases r) simp_all

text \<open>\<^verbatim>\<open>.context(m)\<close> on an option.\<close>

definition context_msg :: "string \<Rightarrow> 'a option \<Rightarrow> 'a res" where
  "context_msg m x = (case x of None \<Rightarrow> Inl m | Some y \<Rightarrow> Inr y)"

lemma context_msg_simps [simp]: "context_msg m None = Inl m" "context_msg m (Some x) = Inr x"
  by (simp_all add: context_msg_def)

subsection \<open>Splitting\<close>

fun split_on :: "'a \<Rightarrow> 'a list \<Rightarrow> 'a list list" where
  "split_on c [] = [[]]"
| "split_on c (x # xs) = (if x = c then [] # split_on c xs else (x # hd (split_on c xs)) # tl (split_on c xs))"

fun split_once :: "'a \<Rightarrow> 'a list \<Rightarrow> ('a list \<times> 'a list) option" where
  "split_once c [] = None"
| "split_once c (x # xs) = (if x = c then Some ([], xs) else map_option (\<lambda>(a, b). (x # a, b)) (split_once c xs))"

fun starts_with :: "'a list \<Rightarrow> 'a list \<Rightarrow> bool" where
  "starts_with [] xs = True"
| "starts_with (p # ps) [] = False"
| "starts_with (p # ps) (x # xs) \<longleftrightarrow> p = x \<and> starts_with ps xs"

text \<open>\<^verbatim>\<open>join\<close>, and the tab-separated formats of \<^verbatim>\<open>writeln!\<close>.\<close>

fun join_with :: "'a \<Rightarrow> 'a list list \<Rightarrow> 'a list" where
  "join_with c [] = []"
| "join_with c [x] = x"
| "join_with c (x # y # xs) = x @ c # join_with c (y # xs)"

lemma split_on_not_empty [simp]: "split_on c xs \<noteq> []"
  by (cases xs) simp_all

lemma split_on_none: "c \<notin> set x \<Longrightarrow> split_on c x = [x]"
  by (induction x) auto

lemma split_on_append: "c \<notin> set x \<Longrightarrow> split_on c (x @ c # ys) = x # split_on c ys"
  by (induction x) auto

lemma split_on_join:
  assumes "xs \<noteq> []" and "\<And>x. x \<in> set xs \<Longrightarrow> c \<notin> set x"
  shows "split_on c (join_with c xs) = xs"
  using assms by (induction c xs rule: join_with.induct) (simp_all add: split_on_none split_on_append)

lemma split_once_append: "c \<notin> set x \<Longrightarrow> split_once c (x @ c # ys) = Some (x, ys)"
  by (induction x) auto

lemma set_join: "set (join_with c xs) \<subseteq> insert c (\<Union> (set ` set xs))"
  by (induction c xs rule: join_with.induct) auto

lemma not_in_join: "d \<noteq> c \<Longrightarrow> (\<And>x. x \<in> set xs \<Longrightarrow> d \<notin> set x) \<Longrightarrow> d \<notin> set (join_with c xs)"
  using set_join [of c xs] by auto

lemma starts_with_append [simp]: "starts_with p (p @ xs)"
  by (induction p) simp_all

lemma starts_with_iff: "starts_with p xs \<longleftrightarrow> take (length p) xs = p"
  by (induction p xs rule: starts_with.induct) auto

subsection \<open>Lines\<close>

text \<open>\<^verbatim>\<open>str::lines\<close>: a line feed ends a line, with a carriage return before it; a last line may have neither.\<close>

abbreviation TAB :: char where "TAB \<equiv> CHR 0x09"
abbreviation LF :: char where "LF \<equiv> CHR 0x0A"
abbreviation CR :: char where "CR \<equiv> CHR 0x0D"

definition strip_cr :: "string \<Rightarrow> string" where
  "strip_cr s = (if s \<noteq> [] \<and> last s = CR then butlast s else s)"

definition rust_lines :: "string \<Rightarrow> string list" where
  "rust_lines s =
     (let ps = split_on LF s in map strip_cr (butlast ps) @ (if last ps = [] then [] else [last ps]))"

text \<open>\<^verbatim>\<open>writeln!\<close> of several lines.\<close>

definition write_lines :: "string list \<Rightarrow> string" where
  "write_lines ls = concat (map (\<lambda>l. l @ [LF]) ls)"

lemma write_lines_simps: "write_lines [] = []" "write_lines (l # ls) = l @ LF # write_lines ls"
  "write_lines (ls @ ms) = write_lines ls @ write_lines ms"
  by (simp_all add: write_lines_def)

lemma split_write_lines: "\<forall>l \<in> set ls. LF \<notin> set l \<Longrightarrow> split_on LF (write_lines ls) = ls @ [[]]"
  by (induction ls) (simp_all add: write_lines_simps split_on_append)

lemma rust_lines_write_lines:
  assumes "\<forall>l \<in> set ls. LF \<notin> set l \<and> CR \<notin> set l"
  shows "rust_lines (write_lines ls) = ls"
proof -
  have "strip_cr l = l" if "l \<in> set ls" for l
    using assms that last_in_set [of l] by (auto simp: strip_cr_def simp del: last_in_set)
  then have "map strip_cr ls = ls" by (simp add: map_idI)
  then show ?thesis using assms by (simp add: rust_lines_def Let_def split_write_lines)
qed

subsection \<open>Decimal numbers\<close>

definition digit_char :: "nat \<Rightarrow> char" where
  "digit_char d = char_of (48 + d)"

definition char_digit :: "char \<Rightarrow> nat option" where
  "char_digit c = (let n = of_char c in if 48 \<le> n \<and> n < (58 :: nat) then Some (n - 48) else None)"

fun show_nat :: "nat \<Rightarrow> string" where
  "show_nat n = (if n < 10 then [digit_char n] else show_nat (n div 10) @ [digit_char (n mod 10)])"

declare show_nat.simps [simp del]

definition show_int :: "int \<Rightarrow> string" where
  "show_int i = (if i < 0 then CHR ''-'' # show_nat (nat (- i)) else show_nat (nat i))"

fun digits_value :: "nat \<Rightarrow> string \<Rightarrow> nat option" where
  "digits_value acc [] = Some acc"
| "digits_value acc (c # cs) = (case char_digit c of None \<Rightarrow> None | Some d \<Rightarrow> digits_value (10 * acc + d) cs)"

text \<open>
  \<^verbatim>\<open>str::parse\<close> for an unsigned and a signed type of \<open>w\<close> bits: an optional sign, at least one digit, and
  a value in range.
\<close>

definition parse_unsigned :: "nat \<Rightarrow> string \<Rightarrow> nat option" where
  "parse_unsigned w s =
     (let ds = (case s of [] \<Rightarrow> [] | c # cs \<Rightarrow> if c = CHR ''+'' then cs else s)
      in if ds = [] then None
         else case digits_value 0 ds of None \<Rightarrow> None | Some n \<Rightarrow> if n < 2 ^ w then Some n else None)"

definition parse_signed :: "nat \<Rightarrow> string \<Rightarrow> int option" where
  "parse_signed w s =
     (let (neg, ds) = (case s of [] \<Rightarrow> (False, []) | c # cs \<Rightarrow>
            if c = CHR ''+'' then (False, cs) else if c = CHR ''-'' then (True, cs) else (False, s))
      in if ds = [] then None
         else case digits_value 0 ds of
           None \<Rightarrow> None
         | Some n \<Rightarrow> (let v = (if neg then - int n else int n)
                      in if - (2 ^ (w - 1)) \<le> v \<and> v < 2 ^ (w - 1) then Some v else None))"

lemma of_char_digit: "d < 10 \<Longrightarrow> of_char (digit_char d) = 48 + d"
  by (simp add: digit_char_def of_char_of)

lemma char_digit_digit_char: "d < 10 \<Longrightarrow> char_digit (digit_char d) = Some d"
  by (simp add: char_digit_def of_char_digit Let_def)

lemma digits_value_append:
  "digits_value acc (xs @ ys) = Option.bind (digits_value acc xs) (\<lambda>a. digits_value a ys)"
  by (induction xs arbitrary: acc) (simp_all split: option.split)

lemma digits_value_show_nat: "digits_value 0 (show_nat n) = Some n"
proof (induction n rule: show_nat.induct)
  case (1 n)
  then show ?case
    by (subst show_nat.simps) (auto simp: char_digit_digit_char digits_value_append)
qed

lemma show_nat_chars: "c \<in> set (show_nat n) \<Longrightarrow> \<exists>d < 10. c = digit_char d"
proof (induction n rule: show_nat.induct)
  case (1 n)
  show ?case
  proof (cases "n < 10")
    case True
    then show ?thesis using 1 by (auto simp: show_nat.simps [of n])
  next
    case False
    then have "c \<in> set (show_nat (n div 10)) \<or> c = digit_char (n mod 10)"
      using 1(2) by (auto simp: show_nat.simps [of n])
    then show ?thesis using 1(1) False by (auto intro: exI [of _ "n mod 10"])
  qed
qed

lemma show_nat_not_empty [simp]: "show_nat n \<noteq> []"
  by (simp add: show_nat.simps [of n])

lemma digit_char_neq: "d < 10 \<Longrightarrow> of_char c < (48 :: nat) \<or> 58 \<le> (of_char c :: nat) \<Longrightarrow> digit_char d \<noteq> c"
  using of_char_digit [of d] by auto

lemma show_nat_no: "of_char c < (48 :: nat) \<or> 58 \<le> (of_char c :: nat) \<Longrightarrow> c \<notin> set (show_nat n)"
  using show_nat_chars [of c n] digit_char_neq by blast

lemma parse_show_nat: "n < 2 ^ w \<Longrightarrow> parse_unsigned w (show_nat n) = Some n"
proof -
  assume n: "n < 2 ^ w"
  obtain c cs where c: "show_nat n = c # cs" by (cases "show_nat n") auto
  have "c \<noteq> CHR ''+''" using show_nat_no [of "CHR ''+''" n] c by auto
  then show ?thesis using n digits_value_show_nat [of n] c by (simp add: parse_unsigned_def Let_def)
qed

lemma parse_show_int:
  assumes "- (2 ^ (w - 1)) \<le> i" and "i < 2 ^ (w - 1)"
  shows "parse_signed w (show_int i) = Some i"
proof (cases "i < 0")
  case True
  then show ?thesis
    using assms digits_value_show_nat [of "nat (- i)"] by (simp add: show_int_def parse_signed_def Let_def)
next
  case False
  obtain c cs where c: "show_nat (nat i) = c # cs" by (cases "show_nat (nat i)") auto
  have "c \<noteq> CHR ''+''" "c \<noteq> CHR ''-''"
    using show_nat_no [of "CHR ''+''" "nat i"] show_nat_no [of "CHR ''-''" "nat i"] c by auto
  then show ?thesis
    using assms False digits_value_show_nat [of "nat i"] c by (simp add: show_int_def parse_signed_def Let_def)
qed

lemma show_int_no: "c \<noteq> CHR ''-'' \<Longrightarrow> of_char c < (48 :: nat) \<or> 58 \<le> (of_char c :: nat) \<Longrightarrow> c \<notin> set (show_int i)"
  by (simp add: show_int_def show_nat_no)

lemma show_int_not_empty [simp]: "show_int i \<noteq> []"
  by (simp add: show_int_def)

end
