(* ===== verification/State_Records.thy ===== *)
theory State_Records
  imports Rust_Text "HOL-Library.Monad_Syntax"
begin

text \<open>
  The records that an incremental link keeps of every section, relocation, frame description entry and
  dynamic relocation it wrote, and their text format, from \<^verbatim>\<open>libsld/src/incremental.rs\<close>: rendering
  (\<^verbatim>\<open>write_rendered_records\<close>), parsing (\<^verbatim>\<open>parse_compact_records_block\<close>), and parsing only what
  belongs to some input files. Error texts are those of the code, without the position of the cause.
\<close>

record section_record =
  sr_input_file :: string
  sr_input :: string
  sr_section_index :: u32
  sr_output_offset :: u64
  sr_size :: u64

record relocation_target_record =
  rt_input_file :: string
  rt_input :: string
  rt_section_index :: u32
  rt_section_offset :: u64

record relocation_record =
  rr_target_symbol_id :: u32
  rr_written_value :: "u64 option"
  rr_target_value :: u64
  rr_target_name :: "string option"
  rr_target :: "relocation_target_record option"
  rr_input_file :: string
  rr_input :: string
  rr_section_index :: u32
  rr_relocation_offset :: u64
  rr_output_offset :: u64
  rr_size :: u64
  rr_kind :: u32
  rr_addend :: i64

record fde_record =
  fr_input_file :: string
  fr_input :: string
  fr_section_index :: u32
  fr_eh_frame_section_index :: u32
  fr_input_offset :: u64
  fr_output_offset :: u64
  fr_size :: u64

record dynamic_relocation_record =
  dr_input_file :: string
  dr_input :: string
  dr_section_index :: u32
  dr_relocation_offset :: u64
  dr_output_offset :: u64
  dr_size :: u64
  dr_output_r_offset :: "u64 option"
  dr_output_r_info :: "u64 option"

record compact_records =
  cr_sections :: "section_record list"
  cr_relocations :: "relocation_record list"
  cr_fdes :: "fde_record list"
  cr_dynamic_relocations :: "dynamic_relocation_record list"

definition ABSENT_FIELD :: string where "ABSENT_FIELD = ''-''"

subsection \<open>Numbers in fields\<close>

definition show_word :: "'a::len word \<Rightarrow> string" where
  "show_word x = show_nat (unat x)"

definition parse_word :: "string \<Rightarrow> 'a::len word option" where
  "parse_word s = map_option of_nat (parse_unsigned LENGTH('a) s)"

definition show_sword :: "'a::len word \<Rightarrow> string" where
  "show_sword x = show_int (sint x)"

definition parse_sword :: "string \<Rightarrow> 'a::len word option" where
  "parse_sword s = map_option of_int (parse_signed LENGTH('a) s)"

definition optional_record_field :: "('a \<Rightarrow> string) \<Rightarrow> 'a option \<Rightarrow> string" where
  "optional_record_field f x = (case x of None \<Rightarrow> ABSENT_FIELD | Some y \<Rightarrow> f y)"

subsection \<open>Rendering\<close>

type_synonym section_inputs = "(string \<times> string) list \<times> (string \<times> string \<rightharpoonup> nat)"

definition add_section_input :: "string \<Rightarrow> string \<Rightarrow> section_inputs \<Rightarrow> section_inputs" where
  "add_section_input input_file input st =
     (let key = (input_file, input) in
      case snd st key of
        Some _ \<Rightarrow> st
      | None \<Rightarrow> (fst st @ [key], (snd st)(key \<mapsto> length (fst st))))"

definition collect_section_inputs :: "compact_records \<Rightarrow> section_inputs" where
  "collect_section_inputs cr =
     (let st = fold (\<lambda>s. add_section_input (sr_input_file s) (sr_input s)) (cr_sections cr) ([], Map.empty);
          st = fold (\<lambda>r st.
                 let st = add_section_input (rr_input_file r) (rr_input r) st
                 in case rr_target r of None \<Rightarrow> st | Some t \<Rightarrow> add_section_input (rt_input_file t) (rt_input t) st) (cr_relocations cr) st;
          st = fold (\<lambda>f. add_section_input (fr_input_file f) (fr_input f)) (cr_fdes cr) st
      in fold (\<lambda>r. add_section_input (dr_input_file r) (dr_input r)) (cr_dynamic_relocations cr) st)"

abbreviation tsv :: "string list \<Rightarrow> string" where
  "tsv \<equiv> join_with TAB"

definition section_line :: "(string \<times> string \<rightharpoonup> nat) \<Rightarrow> section_record \<Rightarrow> string option" where
  "section_line ids s =
     do {
       i \<leftarrow> ids (sr_input_file s, sr_input s);
       Some (tsv [''section'', show_nat i, show_word (sr_section_index s), show_word (sr_output_offset s), show_word (sr_size s)])
     }"

definition relocation_line :: "(string \<times> string \<rightharpoonup> nat) \<Rightarrow> relocation_record \<Rightarrow> string option" where
  "relocation_line ids r =
     do {
       i \<leftarrow> ids (rr_input_file r, rr_input r);
       t \<leftarrow> (case rr_target r of
               None \<Rightarrow> Some (None, None, None)
             | Some t \<Rightarrow> do {
                 j \<leftarrow> ids (rt_input_file t, rt_input t);
                 Some (Some j, Some (rt_section_index t), Some (rt_section_offset t))
               });
       Some (tsv [''reloc2'', show_nat i, show_word (rr_section_index r), show_word (rr_target_symbol_id r),
         show_word (rr_relocation_offset r), show_word (rr_output_offset r), show_word (rr_size r), show_word (rr_kind r),
         show_sword (rr_addend r), optional_record_field show_word (rr_written_value r), show_word (rr_target_value r),
         (case rr_target_name r of None \<Rightarrow> ABSENT_FIELD | Some n \<Rightarrow> n), optional_record_field show_nat (fst t),
         optional_record_field show_word (fst (snd t)), optional_record_field show_word (snd (snd t))])
     }"

definition fde_line :: "(string \<times> string \<rightharpoonup> nat) \<Rightarrow> fde_record \<Rightarrow> string option" where
  "fde_line ids f =
     do {
       i \<leftarrow> ids (fr_input_file f, fr_input f);
       Some (tsv [''fde'', show_nat i, show_word (fr_section_index f), show_word (fr_eh_frame_section_index f),
         show_word (fr_input_offset f), show_word (fr_output_offset f), show_word (fr_size f)])
     }"

definition dynamic_relocation_line :: "(string \<times> string \<rightharpoonup> nat) \<Rightarrow> dynamic_relocation_record \<Rightarrow> string option" where
  "dynamic_relocation_line ids r =
     do {
       i \<leftarrow> ids (dr_input_file r, dr_input r);
       Some (tsv ([''dynrel'', show_nat i, show_word (dr_section_index r), show_word (dr_relocation_offset r),
         show_word (dr_output_offset r), show_word (dr_size r)]
         @ (case (dr_output_r_offset r, dr_output_r_info r) of
              (Some output_r_offset, Some output_r_info) \<Rightarrow> [show_word output_r_offset, show_word output_r_info]
            | _ \<Rightarrow> [])))
     }"

definition write_rendered_records :: "compact_records \<Rightarrow> string option" where
  "write_rendered_records cr =
     do {
       let (section_inputs, ids) = collect_section_inputs cr;
       sections \<leftarrow> those (map (section_line ids) (cr_sections cr));
       relocations \<leftarrow> those (map (relocation_line ids) (cr_relocations cr));
       fdes \<leftarrow> those (map (fde_line ids) (cr_fdes cr));
       dynamic_relocations \<leftarrow> those (map (dynamic_relocation_line ids) (cr_dynamic_relocations cr));
       Some (write_lines
         (tsv [''section-inputs'', show_nat (length section_inputs)]
          # map (\<lambda>(input_file, input). tsv [''section-input'', input_file, input]) section_inputs
          @ tsv [''sections'', show_nat (length sections)] # sections
          @ tsv [''relocs'', show_nat (length relocations)] # relocations
          @ tsv [''fdes'', show_nat (length fdes)] # fdes
          @ tsv [''dynrels'', show_nat (length dynamic_relocations)] # dynamic_relocations))
     }"

subsection \<open>Parsing\<close>

definition parse_prefixed_line :: "string option \<Rightarrow> string \<Rightarrow> string res" where
  "parse_prefixed_line line expected_prefix =
     res_bind (context_msg ''Missing incremental state line'' line) (\<lambda>line.
     res_bind (context_msg ''Malformed incremental state line'' (split_once TAB line)) (\<lambda>(prefix, rest).
     if prefix \<noteq> expected_prefix
     then Inl (''Expected incremental state line `'' @ expected_prefix @ ''`, got `'' @ prefix @ ''`'')
     else Inr rest))"

text \<open>\<^verbatim>\<open>parts.next().context(m)?\<close>, and the same with \<^verbatim>\<open>.parse().context(m')?\<close>.\<close>

fun next_part :: "string \<Rightarrow> string list \<Rightarrow> (string \<times> string list) res" where
  "next_part m [] = Inl m"
| "next_part m (p # ps) = Inr (p, ps)"

definition next_number :: "string \<Rightarrow> string \<Rightarrow> (string \<Rightarrow> 'a option) \<Rightarrow> string list \<Rightarrow> ('a \<times> string list) res" where
  "next_number m m' parse parts =
     res_bind (next_part m parts) (\<lambda>(p, parts). res_bind (context_msg m' (parse p)) (\<lambda>v. Inr (v, parts)))"

definition get_number :: "string \<Rightarrow> string \<Rightarrow> (string \<Rightarrow> 'a option) \<Rightarrow> nat \<Rightarrow> string list \<Rightarrow> 'a res" where
  "get_number m m' parse i parts =
     res_bind (context_msg m (get_at parts i)) (\<lambda>p. context_msg m' (parse p))"

abbreviation parse_usize :: "string \<Rightarrow> nat option" where
  "parse_usize \<equiv> parse_unsigned 64"

definition parse_section_input_line :: "string \<Rightarrow> (string \<times> string) res" where
  "parse_section_input_line line =
     res_bind (parse_prefixed_line (Some line) ''section-input'') (\<lambda>rest.
     res_bind (next_part ''Malformed incremental section input file'' (split_on TAB rest)) (\<lambda>(input_file, parts).
     res_bind (next_part ''Malformed incremental section input'' parts) (\<lambda>(input, parts).
     if parts \<noteq> [] then Inl ''Malformed incremental section input record'' else Inr (input_file, input))))"

definition parse_compact_section_line :: "(string \<times> string) list \<Rightarrow> string \<Rightarrow> section_record res" where
  "parse_compact_section_line section_inputs line =
     res_bind (parse_prefixed_line (Some line) ''section'') (\<lambda>rest.
     res_bind (next_number ''Malformed incremental section input index'' ''Invalid incremental section input index''
                 parse_usize (split_on TAB rest)) (\<lambda>(section_input_id, parts).
     res_bind (next_number ''Malformed incremental section index'' ''Invalid incremental section index'' parse_word parts) (\<lambda>(section_index, parts).
     res_bind (next_number ''Malformed incremental section output offset'' ''Invalid incremental section output offset''
                 parse_word parts) (\<lambda>(output_offset, parts).
     res_bind (next_number ''Malformed incremental section size'' ''Invalid incremental section size'' parse_word parts) (\<lambda>(sz, parts).
     if parts \<noteq> [] then Inl ''Malformed incremental section record''
     else
       res_bind (context_msg ''Incremental section input index out of bounds'' (get_at section_inputs section_input_id)) (\<lambda>(input_file, input).
       Inr \<lparr>sr_input_file = input_file, sr_input = input, sr_section_index = section_index,
            sr_output_offset = output_offset, sr_size = sz\<rparr>))))))"

text \<open>\<^verbatim>\<open>(p != ABSENT_FIELD).then(f).transpose()?\<close>\<close>

definition optional_number :: "string \<Rightarrow> (string \<Rightarrow> 'a option) \<Rightarrow> string \<Rightarrow> 'a option res" where
  "optional_number m parse p =
     (if p = ABSENT_FIELD then Inr None else res_bind (context_msg m (parse p)) (\<lambda>v. Inr (Some v)))"

definition optional_text :: "string \<Rightarrow> string option" where
  "optional_text p = (if p = ABSENT_FIELD then None else Some p)"

text \<open>The part of a relocation line after the addend, in the newest format and in the three older ones.\<close>

type_synonym relocation_rest = "u64 option \<times> u64 \<times> string option \<times> relocation_target_record option"

definition parse_compact_target :: "(string \<times> string) list \<Rightarrow> string list \<Rightarrow> relocation_rest res" where
  "parse_compact_target section_inputs parts =
     (if length parts \<noteq> 14 then Inl ''Malformed incremental relocation record''
      else
        res_bind (optional_number ''Invalid incremental written relocation value'' parse_word (parts ! 8)) (\<lambda>written_value.
        res_bind (context_msg ''Invalid incremental relocation target value'' (parse_word (parts ! 9))) (\<lambda>target_value.
        let target_name = optional_text (parts ! 10) in
        if parts ! 11 = ABSENT_FIELD \<and> parts ! 12 = ABSENT_FIELD \<and> parts ! 13 = ABSENT_FIELD
        then Inr (written_value, target_value, target_name, None)
        else
          res_bind (context_msg ''Invalid incremental relocation target input index'' (parse_usize (parts ! 11))) (\<lambda>i.
          res_bind (context_msg ''Incremental relocation target input index out of bounds'' (get_at section_inputs i)) (\<lambda>(input_file, input).
          res_bind (context_msg ''Invalid incremental relocation target section index'' (parse_word (parts ! 12))) (\<lambda>section_index.
          res_bind (context_msg ''Invalid incremental relocation target section offset'' (parse_word (parts ! 13))) (\<lambda>section_offset.
          Inr (written_value, target_value, target_name,
               Some \<lparr>rt_input_file = input_file, rt_input = input, rt_section_index = section_index,
                     rt_section_offset = section_offset\<rparr>))))))))"

definition parse_inline_target :: "nat \<Rightarrow> string list \<Rightarrow> relocation_target_record option res" where
  "parse_inline_target k parts =
     (if parts ! k = ABSENT_FIELD \<and> parts ! (k + 1) = ABSENT_FIELD \<and> parts ! (k + 2) = ABSENT_FIELD \<and> parts ! (k + 3) = ABSENT_FIELD
      then Inr None
      else
        res_bind (context_msg ''Invalid incremental relocation target section index'' (parse_word (parts ! (k + 2)))) (\<lambda>section_index.
        res_bind (context_msg ''Invalid incremental relocation target section offset'' (parse_word (parts ! (k + 3)))) (\<lambda>section_offset.
        Inr (Some \<lparr>rt_input_file = parts ! k, rt_input = parts ! (k + 1), rt_section_index = section_index,
                   rt_section_offset = section_offset\<rparr>))))"

definition parse_old_target :: "string list \<Rightarrow> relocation_rest res" where
  "parse_old_target parts =
     (if length parts = 8 then Inr (None, 0, None, None)
      else if length parts = 10 then
        res_bind (context_msg ''Invalid incremental relocation target value'' (parse_word (parts ! 8))) (\<lambda>target_value.
        Inr (None, target_value, optional_text (parts ! 9), None))
      else if length parts = 14 then
        res_bind (context_msg ''Invalid incremental relocation target value'' (parse_word (parts ! 8))) (\<lambda>target_value.
        res_bind (parse_inline_target 10 parts) (\<lambda>target.
        Inr (None, target_value, optional_text (parts ! 9), target)))
      else if length parts = 15 then
        res_bind (optional_number ''Invalid incremental written relocation value'' parse_word (parts ! 8)) (\<lambda>written_value.
        res_bind (context_msg ''Invalid incremental relocation target value'' (parse_word (parts ! 9))) (\<lambda>target_value.
        res_bind (parse_inline_target 11 parts) (\<lambda>target.
        Inr (written_value, target_value, optional_text (parts ! 10), target))))
      else Inl ''Malformed incremental relocation record'')"

definition parse_compact_relocation_line :: "(string \<times> string) list \<Rightarrow> string \<Rightarrow> relocation_record res" where
  "parse_compact_relocation_line section_inputs line =
     (let is_compact_target = starts_with (''reloc2'' @ [TAB]) line in
      res_bind (if is_compact_target then parse_prefixed_line (Some line) ''reloc2''
                else parse_prefixed_line (Some line) ''reloc'') (\<lambda>rest.
      let parts = split_on TAB rest in
      res_bind (get_number ''Malformed incremental relocation input index'' ''Invalid incremental relocation input index''
                  parse_usize 0 parts) (\<lambda>section_input_id.
      res_bind (get_number ''Malformed incremental relocation section index'' ''Invalid incremental relocation section index''
                  parse_word 1 parts) (\<lambda>section_index.
      res_bind (get_number ''Malformed incremental relocation target symbol'' ''Invalid incremental relocation target symbol''
                  parse_word 2 parts) (\<lambda>target_symbol_id.
      res_bind (get_number ''Malformed incremental relocation input offset'' ''Invalid incremental relocation input offset''
                  parse_word 3 parts) (\<lambda>relocation_offset.
      res_bind (get_number ''Malformed incremental relocation output offset'' ''Invalid incremental relocation output offset''
                  parse_word 4 parts) (\<lambda>output_offset.
      res_bind (get_number ''Malformed incremental relocation size'' ''Invalid incremental relocation size'' parse_word 5 parts) (\<lambda>sz.
      res_bind (get_number ''Malformed incremental relocation kind'' ''Invalid incremental relocation kind'' parse_word 6 parts) (\<lambda>knd.
      res_bind (get_number ''Malformed incremental relocation addend'' ''Invalid incremental relocation addend''
                  parse_sword 7 parts) (\<lambda>addend.
      res_bind (if is_compact_target then parse_compact_target section_inputs parts else parse_old_target parts)
        (\<lambda>(written_value, target_value, target_name, target).
      res_bind (context_msg ''Incremental relocation input index out of bounds'' (get_at section_inputs section_input_id)) (\<lambda>(input_file, input).
      Inr \<lparr>rr_target_symbol_id = target_symbol_id, rr_written_value = written_value, rr_target_value = target_value,
           rr_target_name = target_name, rr_target = target, rr_input_file = input_file, rr_input = input,
           rr_section_index = section_index, rr_relocation_offset = relocation_offset, rr_output_offset = output_offset,
           rr_size = sz, rr_kind = knd, rr_addend = addend\<rparr>))))))))))))"

definition parse_compact_fde_line :: "(string \<times> string) list \<Rightarrow> string \<Rightarrow> fde_record res" where
  "parse_compact_fde_line section_inputs line =
     res_bind (parse_prefixed_line (Some line) ''fde'') (\<lambda>rest.
     res_bind (next_number ''Malformed incremental FDE input index'' ''Invalid incremental FDE input index''
                 parse_usize (split_on TAB rest)) (\<lambda>(section_input_id, parts).
     res_bind (next_number ''Malformed incremental FDE section index'' ''Invalid incremental FDE section index'' parse_word parts) (\<lambda>(section_index, parts).
     res_bind (next_number ''Malformed incremental FDE .eh_frame section index'' ''Invalid incremental FDE .eh_frame section index''
                 parse_word parts) (\<lambda>(eh_frame_section_index, parts).
     res_bind (next_number ''Malformed incremental FDE input offset'' ''Invalid incremental FDE input offset'' parse_word parts) (\<lambda>(input_offset, parts).
     res_bind (next_number ''Malformed incremental FDE output offset'' ''Invalid incremental FDE output offset'' parse_word parts) (\<lambda>(output_offset, parts).
     res_bind (next_number ''Malformed incremental FDE size'' ''Invalid incremental FDE size'' parse_word parts) (\<lambda>(sz, parts).
     if parts \<noteq> [] then Inl ''Malformed incremental FDE record''
     else
       res_bind (context_msg ''Incremental FDE input index out of bounds'' (get_at section_inputs section_input_id)) (\<lambda>(input_file, input).
       Inr \<lparr>fr_input_file = input_file, fr_input = input, fr_section_index = section_index,
            fr_eh_frame_section_index = eh_frame_section_index, fr_input_offset = input_offset,
            fr_output_offset = output_offset, fr_size = sz\<rparr>))))))))"

definition parse_compact_dynamic_relocation_line :: "(string \<times> string) list \<Rightarrow> string \<Rightarrow> dynamic_relocation_record res" where
  "parse_compact_dynamic_relocation_line section_inputs line =
     res_bind (parse_prefixed_line (Some line) ''dynrel'') (\<lambda>rest.
     let parts = split_on TAB rest; n = length parts in
     res_bind (get_number ''Malformed incremental dynamic relocation input index'' ''Invalid incremental dynamic relocation input index''
                 parse_usize 0 parts) (\<lambda>section_input_id.
     res_bind (get_number ''Malformed incremental dynamic relocation section index'' ''Invalid incremental dynamic relocation section index''
                 parse_word 1 parts) (\<lambda>section_index.
     res_bind (if n = 4 then Inr (0, 2, 3, None)
               else if n = 5 \<or> n = 7 then
                 res_bind (context_msg ''Invalid incremental dynamic relocation input offset'' (parse_word (parts ! 2))) (\<lambda>relocation_offset.
                 Inr (relocation_offset, 3, 4, if n = 7 then Some (5, 6) else None))
               else Inl ''Malformed incremental dynamic relocation record'')
       (\<lambda>(relocation_offset, output_offset_index, size_index, output_info_indices).
     res_bind (context_msg ''Invalid incremental dynamic relocation output offset'' (parse_word (parts ! output_offset_index))) (\<lambda>output_offset.
     res_bind (context_msg ''Invalid incremental dynamic relocation size'' (parse_word (parts ! size_index))) (\<lambda>sz.
     res_bind (case output_info_indices of
                 None \<Rightarrow> Inr (None, None)
               | Some (r_offset_index, r_info_index) \<Rightarrow>
                   res_bind (context_msg ''Invalid incremental dynamic relocation output r_offset'' (parse_word (parts ! r_offset_index))) (\<lambda>r_offset.
                   res_bind (context_msg ''Invalid incremental dynamic relocation output r_info'' (parse_word (parts ! r_info_index))) (\<lambda>r_info.
                   Inr (Some r_offset, Some r_info))))
       (\<lambda>(output_r_offset, output_r_info).
     res_bind (context_msg ''Incremental dynamic relocation input index out of bounds'' (get_at section_inputs section_input_id)) (\<lambda>(input_file, input).
     Inr \<lparr>dr_input_file = input_file, dr_input = input, dr_section_index = section_index,
          dr_relocation_offset = relocation_offset, dr_output_offset = output_offset, dr_size = sz,
          dr_output_r_offset = output_r_offset, dr_output_r_info = output_r_info\<rparr>))))))))"

subsection \<open>Blocks\<close>

text \<open>\<open>n\<close> lines, each parsed by \<open>f\<close>; with a test, only the lines that pass it are parsed.\<close>

fun parse_lines :: "nat \<Rightarrow> string \<Rightarrow> (string \<Rightarrow> bool res) \<Rightarrow> (string \<Rightarrow> 'a res) \<Rightarrow> string list \<Rightarrow> ('a list \<times> string list) res" where
  "parse_lines 0 m p f ls = Inr ([], ls)"
| "parse_lines (Suc n) m p f [] = Inl m"
| "parse_lines (Suc n) m p f (l # ls) =
     res_bind (p l) (\<lambda>b.
       if b then res_bind (f l) (\<lambda>x. res_bind (parse_lines n m p f ls) (\<lambda>(xs, ls). Inr (x # xs, ls)))
       else parse_lines n m p f ls)"

abbreviation take_all :: "string \<Rightarrow> bool res" where
  "take_all \<equiv> \<lambda>_. Inr True"

definition next_line :: "string list \<Rightarrow> string option \<times> string list" where
  "next_line ls = (case ls of [] \<Rightarrow> (None, []) | l # ls \<Rightarrow> (Some l, ls))"

text \<open>A counted group: the count line and then the records.\<close>

definition parse_group ::
    "string \<Rightarrow> string \<Rightarrow> string \<Rightarrow> (string \<Rightarrow> bool res) \<Rightarrow> (string \<Rightarrow> 'a res) \<Rightarrow> string list \<Rightarrow> ('a list \<times> string list) res" where
  "parse_group prefix m m' p f ls =
     (let (line, ls) = next_line ls in
      res_bind (parse_prefixed_line line prefix) (\<lambda>rest.
      res_bind (context_msg m (parse_usize rest)) (\<lambda>n. parse_lines n m' p f ls)))"

text \<open>The group is there only when the next line has its prefix; otherwise that line is looked at again.\<close>

definition parse_optional_group ::
    "string \<Rightarrow> string \<Rightarrow> string \<Rightarrow> (string \<Rightarrow> bool res) \<Rightarrow> (string \<Rightarrow> 'a res) \<Rightarrow> string list \<Rightarrow> ('a list \<times> string list) res" where
  "parse_optional_group prefix m m' p f ls =
     (case ls of
        [] \<Rightarrow> Inr ([], [])
      | l # _ \<Rightarrow> if starts_with (prefix @ [TAB]) l then parse_group prefix m m' p f ls else Inr ([], ls))"

definition parse_section_inputs :: "string list \<Rightarrow> ((string \<times> string) list \<times> string list) res" where
  "parse_section_inputs =
     parse_group ''section-inputs'' ''Invalid incremental section input count'' ''Missing incremental section input record''
       take_all parse_section_input_line"

text \<open>
  Both block parsers have this form; they differ in the tests for the lines, which only the second one
  has. An iterator that has ended keeps returning nothing, so the line that was read ahead is put back.
\<close>

definition parse_block ::
    "((string \<times> string) list \<Rightarrow> string \<Rightarrow> string \<Rightarrow> bool res) \<Rightarrow> ((string \<times> string) list \<Rightarrow> string \<Rightarrow> bool res)
     \<Rightarrow> string list \<Rightarrow> compact_records res" where
  "parse_block p pr ls =
     res_bind (parse_section_inputs ls) (\<lambda>(inputs, ls).
     res_bind (parse_group ''sections'' ''Invalid incremental section count'' ''Missing incremental section record''
                 (p inputs ''section'') (parse_compact_section_line inputs) ls) (\<lambda>(sections, ls).
     res_bind (parse_optional_group ''relocs'' ''Invalid incremental relocation count'' ''Missing incremental relocation record''
                 (pr inputs) (parse_compact_relocation_line inputs) ls) (\<lambda>(relocations, ls).
     res_bind (parse_optional_group ''fdes'' ''Invalid incremental FDE count'' ''Missing incremental FDE record''
                 (p inputs ''fde'') (parse_compact_fde_line inputs) ls) (\<lambda>(fdes, ls).
     res_bind (parse_optional_group ''dynrels'' ''Invalid incremental dynamic relocation count''
                 ''Missing incremental dynamic relocation record''
                 (p inputs ''dynrel'') (parse_compact_dynamic_relocation_line inputs) ls) (\<lambda>(dynamic_relocations, ls).
     if ls \<noteq> [] then Inl ''Unexpected trailing incremental section data''
     else Inr \<lparr>cr_sections = sections, cr_relocations = relocations, cr_fdes = fdes,
               cr_dynamic_relocations = dynamic_relocations\<rparr>)))))"

definition parse_compact_records_block :: "string list \<Rightarrow> compact_records res" where
  "parse_compact_records_block = parse_block (\<lambda>_ _. take_all) (\<lambda>_. take_all)"

definition compact_record_section_input_id :: "string \<Rightarrow> string \<Rightarrow> nat res" where
  "compact_record_section_input_id rest prefix =
     res_bind (next_part ''Malformed incremental record input index'' (split_on TAB rest)) (\<lambda>(p, _).
     context_msg (''Invalid incremental '' @ prefix @ '' input index'') (parse_usize p))"

definition compact_record_matches_input :: "string \<Rightarrow> string \<Rightarrow> nat list \<Rightarrow> nat \<Rightarrow> bool res" where
  "compact_record_matches_input line prefix matched section_input_count =
     res_bind (parse_prefixed_line (Some line) prefix) (\<lambda>rest.
     res_bind (compact_record_section_input_id rest prefix) (\<lambda>i.
     if section_input_count \<le> i then Inl (''Incremental '' @ prefix @ '' input index out of bounds'')
     else Inr (i \<in> set matched)))"

fun contains_text :: "string \<Rightarrow> string \<Rightarrow> bool" where
  "contains_text pat [] = (pat = [])"
| "contains_text pat (c # cs) \<longleftrightarrow> starts_with pat (c # cs) \<or> contains_text pat cs"

definition compact_relocation_record_matches_input :: "string \<Rightarrow> nat list \<Rightarrow> string list \<Rightarrow> nat \<Rightarrow> bool res" where
  "compact_relocation_record_matches_input line matched input_files section_input_count =
     (if starts_with (''reloc2'' @ [TAB]) line then
        res_bind (parse_prefixed_line (Some line) ''reloc2'') (\<lambda>rest.
        res_bind (compact_record_matches_input line ''reloc2'' matched section_input_count) (\<lambda>b.
        if b then Inr True
        else
          let parts = split_on TAB rest in
          if length parts \<noteq> 14 \<or> parts ! 11 = ABSENT_FIELD then Inr False
          else
            res_bind (context_msg ''Invalid incremental relocation target input index'' (parse_usize (parts ! 11))) (\<lambda>i.
            if section_input_count \<le> i then Inl ''Incremental relocation target input index out of bounds''
            else Inr (i \<in> set matched))))
      else
        res_bind (compact_record_matches_input line ''reloc'' matched section_input_count) (\<lambda>b.
        if b then Inr True else Inr (list_ex (\<lambda>input_file. contains_text input_file line) input_files)))"

definition matched_section_input_ids :: "string list \<Rightarrow> (string \<times> string) list \<Rightarrow> nat list" where
  "matched_section_input_ids input_files section_inputs =
     filter (\<lambda>i. fst (section_inputs ! i) \<in> set input_files) [0..<length section_inputs]"

definition parse_compact_records_block_for_input_files :: "string list \<Rightarrow> string list \<Rightarrow> compact_records res" where
  "parse_compact_records_block_for_input_files input_files =
     parse_block
       (\<lambda>inputs prefix line. compact_record_matches_input line prefix (matched_section_input_ids input_files inputs) (length inputs))
       (\<lambda>inputs line. compact_relocation_record_matches_input line (matched_section_input_ids input_files inputs) input_files (length inputs))"

subsection \<open>Fields\<close>

text \<open>A text that can be a field: no tab and no line end.\<close>

definition field_text :: "string \<Rightarrow> bool" where
  "field_text s \<longleftrightarrow> TAB \<notin> set s \<and> LF \<notin> set s \<and> CR \<notin> set s"

lemma field_show_nat [simp]: "field_text (show_nat n)"
  by (simp add: field_text_def show_nat_no)

lemma field_show_word [simp]: "field_text (show_word w)"
  by (simp add: show_word_def)

lemma field_show_sword [simp]: "field_text (show_sword w)"
  by (simp add: field_text_def show_sword_def show_int_no)

lemma field_absent [simp]: "field_text ABSENT_FIELD"
  by (simp add: field_text_def ABSENT_FIELD_def)

lemma field_optional [simp]: "(\<And>y. field_text (f y)) \<Longrightarrow> field_text (optional_record_field f x)"
  by (simp add: optional_record_field_def split: option.split)

lemma parse_word_show [simp]: "parse_word (show_word w) = Some w"
proof -
  have "unat w < 2 ^ LENGTH('a)" by (rule unsigned_less)
  then show ?thesis by (simp add: parse_word_def show_word_def parse_show_nat)
qed

lemma parse_sword_show [simp]: "parse_sword (show_sword (w :: 64 word)) = Some w"
  using sint_ge [of w] sint_lt [of w] by (simp add: parse_sword_def show_sword_def parse_show_int)

lemma parse_usize_show [simp]: "n < 2 ^ 64 \<Longrightarrow> parse_usize (show_nat n) = Some n"
  by (rule parse_show_nat)

lemma show_nat_not_absent [simp]: "show_nat n \<noteq> ABSENT_FIELD"
  using show_nat_no [of "CHR ''-''" n] by (auto simp: ABSENT_FIELD_def)

lemma show_word_not_absent [simp]: "show_word w \<noteq> ABSENT_FIELD"
  by (simp add: show_word_def)

lemma optional_number_show [simp]:
  "(\<And>y. f y \<noteq> ABSENT_FIELD) \<Longrightarrow> (\<And>y. x = Some y \<Longrightarrow> parse (f y) = Some y) \<Longrightarrow> optional_number m parse (optional_record_field f x) = Inr x"
  by (cases x) (simp_all add: optional_number_def optional_record_field_def)

lemma next_number_Cons [simp]:
  "parse p = Some v \<Longrightarrow> next_number m m' parse (p # ps) = Inr (v, ps)"
  by (simp add: next_number_def)

lemma get_number_nth [simp]:
  "i < length ps \<Longrightarrow> parse (ps ! i) = Some v \<Longrightarrow> get_number m m' parse i ps = Inr v"
  by (simp add: get_number_def get_at_def)

lemma field_tsv: "(\<And>x. x \<in> set xs \<Longrightarrow> field_text x) \<Longrightarrow> LF \<notin> set (tsv xs) \<and> CR \<notin> set (tsv xs)"
  by (simp add: field_text_def not_in_join)

lemma split_tsv: "xs \<noteq> [] \<Longrightarrow> (\<And>x. x \<in> set xs \<Longrightarrow> field_text x) \<Longrightarrow> split_on TAB (tsv xs) = xs"
  by (simp add: field_text_def split_on_join)

lemma prefixed_tsv: "field_text p \<Longrightarrow> xs \<noteq> [] \<Longrightarrow> parse_prefixed_line (Some (tsv (p # xs))) p = Inr (tsv xs)"
  by (cases xs) (simp_all add: parse_prefixed_line_def field_text_def split_once_append)

lemma starts_with_tsv: "xs \<noteq> [] \<Longrightarrow> starts_with (p @ [TAB]) (tsv (p # xs))"
  by (cases xs) (simp_all add: starts_with_iff)

subsection \<open>Indices of inputs\<close>

text \<open>The map gives the position of a key in the list.\<close>

definition inputs_wf :: "section_inputs \<Rightarrow> bool" where
  "inputs_wf st \<longleftrightarrow> (\<forall>k i. snd st k = Some i \<longrightarrow> i < length (fst st) \<and> fst st ! i = k)"

lemma add_section_input_wf:
  assumes "inputs_wf st"
  shows "inputs_wf (add_section_input a b st)" "snd (add_section_input a b st) (a, b) \<noteq> None"
    "snd st k \<noteq> None \<Longrightarrow> snd (add_section_input a b st) k \<noteq> None"
    "length (fst (add_section_input a b st)) \<le> Suc (length (fst st))"
    "set (fst (add_section_input a b st)) \<subseteq> insert (a, b) (set (fst st))"
  using assms by (auto simp: inputs_wf_def add_section_input_def Let_def nth_append less_Suc_eq split: option.splits)

end
