(* ===== verification/State_Roundtrip.thy ===== *)
theory State_Roundtrip
  imports State_Records
begin

text \<open>
  Rendering and parsing the records of a link: rendering never fails, parsing gives the records back,
  and the parser that reads the records of some inputs only agrees with filtering.
\<close>

definition relocation_keys :: "relocation_record \<Rightarrow> (string \<times> string) list" where
  "relocation_keys r = (rr_input_file r, rr_input r) # (case rr_target r of None \<Rightarrow> [] | Some t \<Rightarrow> [(rt_input_file t, rt_input t)])"

definition input_keys :: "compact_records \<Rightarrow> (string \<times> string) list" where
  "input_keys cr = map (\<lambda>s. (sr_input_file s, sr_input s)) (cr_sections cr) @ concat (map relocation_keys (cr_relocations cr))
     @ map (\<lambda>f. (fr_input_file f, fr_input f)) (cr_fdes cr) @ map (\<lambda>r. (dr_input_file r, dr_input r)) (cr_dynamic_relocations cr)"

lemma collect_section_inputs_fold:
  "collect_section_inputs cr = fold (\<lambda>(a, b). add_section_input a b) (input_keys cr) ([], Map.empty)"
proof -
  have m: "fold (\<lambda>(a, b). add_section_input a b) (map (\<lambda>x. (f x, g x)) xs) = fold (\<lambda>x. add_section_input (f x) (g x)) xs"
    for f g and xs :: "'a list"
    by (induction xs) simp_all
  have "fold (\<lambda>(a, b). add_section_input a b) (concat (map relocation_keys rs)) st =
      fold (\<lambda>r st. let st = add_section_input (rr_input_file r) (rr_input r) st
                   in case rr_target r of None \<Rightarrow> st | Some t \<Rightarrow> add_section_input (rt_input_file t) (rt_input t) st) rs st" for rs st
    by (induction rs arbitrary: st) (simp_all add: relocation_keys_def Let_def split: option.split)
  note r = ext [OF this]
  show ?thesis by (simp add: collect_section_inputs_def Let_def input_keys_def m r)
qed

lemma fold_add_section_input:
  assumes "inputs_wf st"
  shows "inputs_wf (fold (\<lambda>(a, b). add_section_input a b) ks st)
    \<and> (\<forall>k. k \<in> set ks \<or> snd st k \<noteq> None \<longrightarrow> snd (fold (\<lambda>(a, b). add_section_input a b) ks st) k \<noteq> None)
    \<and> length (fst (fold (\<lambda>(a, b). add_section_input a b) ks st)) \<le> length (fst st) + length ks
    \<and> set (fst (fold (\<lambda>(a, b). add_section_input a b) ks st)) \<subseteq> set (fst st) \<union> set ks"
  using assms
proof (induction ks arbitrary: st)
  case (Cons k ks)
  obtain a b where k: "k = (a, b)" by (cases k)
  note wf = add_section_input_wf [OF Cons.prems, where a = a and b = b]
  have present: "snd (add_section_input a b st) k' \<noteq> None" if "k' = (a, b) \<or> snd st k' \<noteq> None" for k'
    using wf(2) wf(3) that by blast
  let ?st = "add_section_input a b st"
  note IH = Cons.IH [OF wf(1)]
  have fold: "fold (\<lambda>(a, b). add_section_input a b) (k # ks) st = fold (\<lambda>(a, b). add_section_input a b) ks ?st"
    by (simp add: k)
  have "\<forall>k'. k' \<in> set (k # ks) \<or> snd st k' \<noteq> None \<longrightarrow> snd (fold (\<lambda>(a, b). add_section_input a b) ks ?st) k' \<noteq> None"
    using IH present unfolding k by (metis set_ConsD)
  moreover have "length (fst (fold (\<lambda>(a, b). add_section_input a b) ks ?st)) \<le> length (fst st) + length (k # ks)"
    using IH wf(4) by (simp only: list.size) linarith
  moreover have "set (fst (fold (\<lambda>(a, b). add_section_input a b) ks ?st)) \<subseteq> set (fst st) \<union> set (k # ks)"
    using IH wf(5) unfolding k by (simp only: list.set) blast
  ultimately show ?case using IH unfolding fold by blast
qed simp

subsection \<open>Every line is read back\<close>

lemma id_at:
  assumes "inputs_wf (inputs, ids)" and "ids k = Some i" and "length inputs < 2 ^ 64"
  shows "get_at inputs i = Some k \<and> i < 2 ^ 64"
proof -
  have "i < length inputs \<and> inputs ! i = k" using assms(1,2) by (cases k) (simp add: inputs_wf_def)
  then show ?thesis using assms(3) by (auto simp: get_at_def intro: less_trans)
qed

lemma section_line_parse:
  assumes "section_line ids s = Some l" and wf: "inputs_wf (inputs, ids)" and n: "length inputs < 2 ^ 64"
  shows "parse_compact_section_line inputs l = Inr s"
proof -
  obtain i where i: "ids (sr_input_file s, sr_input s) = Some i"
    and l: "l = tsv [''section'', show_nat i, show_word (sr_section_index s), show_word (sr_output_offset s), show_word (sr_size s)]"
    using assms(1) by (auto simp: section_line_def split: Option.bind_split_asm)
  have at: "get_at inputs i = Some (sr_input_file s, sr_input s)" "i < 2 ^ 64"
    using id_at [OF wf i n] by simp_all
  have p: "parse_prefixed_line (Some l) ''section'' =
      Inr (tsv [show_nat i, show_word (sr_section_index s), show_word (sr_output_offset s), show_word (sr_size s)])"
    unfolding l by (rule prefixed_tsv) (simp_all add: field_text_def)
  have sp: "split_on TAB (tsv [show_nat i, show_word (sr_section_index s), show_word (sr_output_offset s), show_word (sr_size s)])
      = [show_nat i, show_word (sr_section_index s), show_word (sr_output_offset s), show_word (sr_size s)]"
    by (rule split_tsv) auto
  show ?thesis unfolding parse_compact_section_line_def p res_bind_simps sp using at by simp
qed

lemma fde_line_parse:
  assumes "fde_line ids f = Some l" and wf: "inputs_wf (inputs, ids)" and n: "length inputs < 2 ^ 64"
  shows "parse_compact_fde_line inputs l = Inr f"
proof -
  obtain i where i: "ids (fr_input_file f, fr_input f) = Some i" by (use assms(1) in \<open>auto simp: fde_line_def split: Option.bind_split_asm\<close>)
  let ?fs = "[show_nat i, show_word (fr_section_index f), show_word (fr_eh_frame_section_index f),
         show_word (fr_input_offset f), show_word (fr_output_offset f), show_word (fr_size f)]"
  have l: "l = tsv (''fde'' # ?fs)" using assms(1) i by (simp add: fde_line_def)
  have at: "get_at inputs i = Some (fr_input_file f, fr_input f)" "i < 2 ^ 64"
    using id_at [OF wf i n] by simp_all
  have p: "parse_prefixed_line (Some l) ''fde'' = Inr (tsv ?fs)"
    unfolding l by (rule prefixed_tsv) (simp_all add: field_text_def)
  have sp: "split_on TAB (tsv ?fs) = ?fs" by (rule split_tsv) auto
  show ?thesis unfolding parse_compact_fde_line_def p res_bind_simps sp using at by simp
qed

lemma dynamic_relocation_line_parse:
  assumes "dynamic_relocation_line ids r = Some l" and wf: "inputs_wf (inputs, ids)" and n: "length inputs < 2 ^ 64"
    and both: "dr_output_r_offset r = None \<longleftrightarrow> dr_output_r_info r = None"
  shows "parse_compact_dynamic_relocation_line inputs l = Inr r"
proof -
  obtain i where i: "ids (dr_input_file r, dr_input r) = Some i"
    by (use assms(1) in \<open>auto simp: dynamic_relocation_line_def split: Option.bind_split_asm\<close>)
  let ?fs = "[show_nat i, show_word (dr_section_index r), show_word (dr_relocation_offset r),
         show_word (dr_output_offset r), show_word (dr_size r)]
         @ (case (dr_output_r_offset r, dr_output_r_info r) of
              (Some output_r_offset, Some output_r_info) \<Rightarrow> [show_word output_r_offset, show_word output_r_info]
            | _ \<Rightarrow> [])"
  have l: "l = tsv (''dynrel'' # ?fs)" using assms(1) i by (simp add: dynamic_relocation_line_def)
  have at: "get_at inputs i = Some (dr_input_file r, dr_input r)" "i < 2 ^ 64"
    using id_at [OF wf i n] by simp_all
  have p: "parse_prefixed_line (Some l) ''dynrel'' = Inr (tsv ?fs)"
    unfolding l by (rule prefixed_tsv) (simp_all add: field_text_def)
  have sp: "split_on TAB (tsv ?fs) = ?fs" by (rule split_tsv) (auto split: option.splits)
  show ?thesis
    unfolding parse_compact_dynamic_relocation_line_def p res_bind_simps sp Let_def
    using both at by (cases "dr_output_r_offset r"; cases "dr_output_r_info r") simp_all
qed

lemma section_input_line_parse:
  "field_text a \<Longrightarrow> field_text b \<Longrightarrow> parse_section_input_line (tsv [''section-input'', a, b]) = Inr (a, b)"
  by (simp only: parse_section_input_line_def prefixed_tsv res_bind_simps split_tsv list.simps field_text_def)
     (simp add: prefixed_tsv split_on_append split_on_none field_text_def parse_prefixed_line_def)

definition relocation_fields :: "nat \<Rightarrow> (nat \<times> u32 \<times> u64) option \<Rightarrow> relocation_record \<Rightarrow> string list" where
  "relocation_fields i t r =
     [show_nat i, show_word (rr_section_index r), show_word (rr_target_symbol_id r),
         show_word (rr_relocation_offset r), show_word (rr_output_offset r), show_word (rr_size r), show_word (rr_kind r),
         show_sword (rr_addend r), optional_record_field show_word (rr_written_value r), show_word (rr_target_value r),
         (case rr_target_name r of None \<Rightarrow> ABSENT_FIELD | Some n \<Rightarrow> n), optional_record_field show_nat (map_option fst t),
         optional_record_field show_word (map_option (fst \<circ> snd) t), optional_record_field show_word (map_option (snd \<circ> snd) t)]"

text \<open>A target name is hexadecimal text.\<close>

definition relocation_wf :: "relocation_record \<Rightarrow> bool" where
  "relocation_wf r \<longleftrightarrow> (case rr_target_name r of None \<Rightarrow> True | Some n \<Rightarrow> field_text n \<and> n \<noteq> ABSENT_FIELD)"

lemma relocation_line_form:
  assumes "relocation_line ids r = Some l"
  shows "\<exists>i t. ids (rr_input_file r, rr_input r) = Some i \<and> l = tsv (''reloc2'' # relocation_fields i t r)
    \<and> (case rr_target r of None \<Rightarrow> t = None
       | Some x \<Rightarrow> \<exists>j. ids (rt_input_file x, rt_input x) = Some j \<and> t = Some (j, rt_section_index x, rt_section_offset x))"
proof (cases "rr_target r")
  case None
  then show ?thesis
    using assms by (intro exI [of _ "the (ids (rr_input_file r, rr_input r))"] exI [of _ None])
      (auto simp: relocation_line_def relocation_fields_def split: Option.bind_split_asm)
next
  case (Some x)
  then obtain i j where ij: "ids (rr_input_file r, rr_input r) = Some i" "ids (rt_input_file x, rt_input x) = Some j"
    using assms by (auto simp: relocation_line_def split: Option.bind_split_asm)
  then show ?thesis
    using assms Some
    by (intro exI [of _ i] exI [of _ "Some (j, rt_section_index x, rt_section_offset x)"])
       (simp add: relocation_line_def relocation_fields_def)
qed

lemma relocation_fields_text: "relocation_wf r \<Longrightarrow> f \<in> set (relocation_fields i t r) \<Longrightarrow> field_text f"
  by (auto simp: relocation_fields_def relocation_wf_def split: option.split_asm)

lemma relocation_split:
  assumes "relocation_wf r"
  shows "parse_prefixed_line (Some (tsv (''reloc2'' # relocation_fields i t r))) ''reloc2'' = Inr (tsv (relocation_fields i t r))"
    "split_on TAB (tsv (relocation_fields i t r)) = relocation_fields i t r"
    "starts_with (''reloc2'' @ [TAB]) (tsv (''reloc2'' # relocation_fields i t r))"
proof -
  have ne: "relocation_fields i t r \<noteq> []" by (simp add: relocation_fields_def)
  show "parse_prefixed_line (Some (tsv (''reloc2'' # relocation_fields i t r))) ''reloc2'' = Inr (tsv (relocation_fields i t r))"
    by (rule prefixed_tsv [OF _ ne]) (simp add: field_text_def)
  show "split_on TAB (tsv (relocation_fields i t r)) = relocation_fields i t r"
    by (rule split_tsv [OF ne relocation_fields_text [OF assms]])
  show "starts_with (''reloc2'' @ [TAB]) (tsv (''reloc2'' # relocation_fields i t r))"
    by (rule starts_with_tsv [OF ne])
qed

lemma relocation_line_parse:
  assumes line: "relocation_line ids r = Some l" and wf: "inputs_wf (inputs, ids)" and n: "length inputs < 2 ^ 64"
    and rwf: "relocation_wf r"
  shows "parse_compact_relocation_line inputs l = Inr r"
proof -
  obtain i t where i: "ids (rr_input_file r, rr_input r) = Some i" and l: "l = tsv (''reloc2'' # relocation_fields i t r)"
    and t: "case rr_target r of None \<Rightarrow> t = None
       | Some x \<Rightarrow> \<exists>j. ids (rt_input_file x, rt_input x) = Some j \<and> t = Some (j, rt_section_index x, rt_section_offset x)"
    using relocation_line_form [OF line] by blast
  have at: "get_at inputs i = Some (rr_input_file r, rr_input r)" "i < 2 ^ 64" using id_at [OF wf i n] by simp_all
  let ?p = "relocation_fields i t r"
  have len: "length ?p = 14" by (simp add: relocation_fields_def)
  have nth: "?p ! 0 = show_nat i" "?p ! 1 = show_word (rr_section_index r)" "?p ! 2 = show_word (rr_target_symbol_id r)"
      "?p ! 3 = show_word (rr_relocation_offset r)" "?p ! 4 = show_word (rr_output_offset r)" "?p ! 5 = show_word (rr_size r)"
      "?p ! 6 = show_word (rr_kind r)" "?p ! 7 = show_sword (rr_addend r)"
    by (simp_all add: relocation_fields_def)
  have name: "optional_text (?p ! 10) = rr_target_name r"
    using rwf by (auto simp: relocation_fields_def optional_text_def relocation_wf_def split: option.split)
  have target: "parse_compact_target inputs ?p = Inr (rr_written_value r, rr_target_value r, rr_target_name r, rr_target r)"
  proof (cases "rr_target r")
    case None
    then show ?thesis using t len name
      by (simp add: parse_compact_target_def) (simp add: relocation_fields_def optional_record_field_def [of _ None])
  next
    case (Some x)
    then obtain j where j: "ids (rt_input_file x, rt_input x) = Some j" "t = Some (j, rt_section_index x, rt_section_offset x)"
      using t by auto
    have "get_at inputs j = Some (rt_input_file x, rt_input x)" "j < 2 ^ 64" using id_at [OF wf j(1) n] by simp_all
    then show ?thesis using Some j(2) len name
      by (simp add: parse_compact_target_def) (simp add: relocation_fields_def optional_record_field_def [of _ "Some _"])
  qed
  show ?thesis
    unfolding parse_compact_relocation_line_def l Let_def relocation_split(3) [OF rwf, THEN eqTrueI] if_True relocation_split(1,2) [OF rwf] res_bind_simps target
    using at len nth by simp
qed

subsection \<open>Groups are read back\<close>

lemma parse_lines_append:
  assumes "\<And>i. i < length xs \<Longrightarrow> p (ls ! i) = Inr (P (xs ! i))" and "\<And>i. i < length xs \<Longrightarrow> P (xs ! i) \<Longrightarrow> f (ls ! i) = Inr (xs ! i)"
    and "length ls = length xs"
  shows "parse_lines (length xs) m p f (ls @ rest) = Inr (filter P xs, rest)"
  using assms
proof (induction xs arbitrary: ls)
  case (Cons x xs)
  obtain l ls' where ls: "ls = l # ls'" "length ls' = length xs" using Cons.prems(3) by (cases ls) auto
  have "parse_lines (length xs) m p f (ls' @ rest) = Inr (filter P xs, rest)"
    using Cons.prems(1) [of "Suc _"] Cons.prems(2) [of "Suc _"] ls by (intro Cons.IH) auto
  then show ?case using Cons.prems(1) [of 0] Cons.prems(2) [of 0] ls(1) by auto
qed simp

text \<open>A group of rendered lines: \<open>P\<close> says which records the test lets pass.\<close>

lemma parse_group_append:
  assumes "\<And>i. i < length xs \<Longrightarrow> p (ls ! i) = Inr (P (xs ! i))" and "\<And>i. i < length xs \<Longrightarrow> P (xs ! i) \<Longrightarrow> f (ls ! i) = Inr (xs ! i)"
    and "length ls = length xs" and "length xs < 2 ^ 64" and "field_text prefix"
  shows "parse_group prefix m m' p f (tsv [prefix, show_nat (length ls)] # ls @ rest) = Inr (filter P xs, rest)"
    "parse_optional_group prefix m m' p f (tsv [prefix, show_nat (length ls)] # ls @ rest) = Inr (filter P xs, rest)"
proof -
  have "parse_prefixed_line (Some (tsv [prefix, show_nat (length ls)])) prefix = Inr (tsv [show_nat (length ls)])"
    using assms(5) by (intro prefixed_tsv) simp_all
  then show g: "parse_group prefix m m' p f (tsv [prefix, show_nat (length ls)] # ls @ rest) = Inr (filter P xs, rest)"
    using assms(3,4) parse_lines_append [of xs p ls P f m' rest, OF assms(1-3)] by (simp add: parse_group_def next_line_def)
  show "parse_optional_group prefix m m' p f (tsv [prefix, show_nat (length ls)] # ls @ rest) = Inr (filter P xs, rest)"
    using g starts_with_tsv [of "[show_nat (length ls)]" prefix] by (simp add: parse_optional_group_def del: join_with.simps)
qed

lemma those_map_Some: "those (map f xs) = Some ys \<Longrightarrow> length ys = length xs \<and> (\<forall>i < length xs. f (xs ! i) = Some (ys ! i))"
proof (induction xs arbitrary: ys)
  case (Cons x xs)
  then obtain y ys' where "f x = Some y" "those (map f xs) = Some ys'" "ys = y # ys'"
    by (auto split: option.split_asm)
  then show ?case using Cons.IH by (auto simp: nth_Cons split: nat.split)
qed simp

lemma those_map_total: "(\<And>x. x \<in> set xs \<Longrightarrow> \<exists>y. f x = Some y) \<Longrightarrow> \<exists>ys. those (map f xs) = Some ys"
  by (induction xs) force+

subsection \<open>Blocks are read back\<close>

definition records_wf :: "compact_records \<Rightarrow> bool" where
  "records_wf cr \<longleftrightarrow>
     (\<forall>(a, b) \<in> set (input_keys cr). field_text a \<and> field_text b) \<and> length (input_keys cr) < 2 ^ 64
     \<and> (\<forall>r \<in> set (cr_relocations cr). relocation_wf r)
     \<and> (\<forall>r \<in> set (cr_dynamic_relocations cr). dr_output_r_offset r = None \<longleftrightarrow> dr_output_r_info r = None)"

lemma relocation_keys_length: "length rs \<le> length (concat (map relocation_keys rs))"
  by (induction rs) (auto simp: relocation_keys_def)

lemma records_wf_lengths:
  assumes "records_wf cr"
  shows "length (cr_sections cr) < 2 ^ 64" "length (cr_relocations cr) < 2 ^ 64" "length (cr_fdes cr) < 2 ^ 64"
    "length (cr_dynamic_relocations cr) < 2 ^ 64"
proof -
  have "length (cr_sections cr) + length (cr_relocations cr) + length (cr_fdes cr) + length (cr_dynamic_relocations cr) \<le> length (input_keys cr)"
    using relocation_keys_length [of "cr_relocations cr"] by (simp add: input_keys_def)
  moreover have "length (input_keys cr) < 2 ^ 64" using assms by (simp add: records_wf_def)
  ultimately show "length (cr_sections cr) < 2 ^ 64" "length (cr_relocations cr) < 2 ^ 64" "length (cr_fdes cr) < 2 ^ 64"
    "length (cr_dynamic_relocations cr) < 2 ^ 64" by linarith+
qed

lemma collected_inputs:
  assumes "records_wf cr" and "collect_section_inputs cr = (inputs, ids)"
  shows "inputs_wf (inputs, ids)" "\<And>k. k \<in> set (input_keys cr) \<Longrightarrow> \<exists>i. ids k = Some i" "length inputs < 2 ^ 64"
    "\<And>a b. (a, b) \<in> set inputs \<Longrightarrow> field_text a \<and> field_text b"
proof -
  have "inputs_wf ([], Map.empty)" by (simp add: inputs_wf_def)
  note f = fold_add_section_input [OF this, of "input_keys cr", folded collect_section_inputs_fold, unfolded assms(2)]
  show "inputs_wf (inputs, ids)" "\<And>k. k \<in> set (input_keys cr) \<Longrightarrow> \<exists>i. ids k = Some i" using f by auto
  have "length inputs \<le> length (input_keys cr)" using f by simp
  then show "length inputs < 2 ^ 64" using assms(1) unfolding records_wf_def by (meson le_less_trans)
  show "field_text a \<and> field_text b" if "(a, b) \<in> set inputs" for a b
    using f that assms(1) by (auto simp: records_wf_def)
qed

lemma keys_present:
  "s \<in> set (cr_sections cr) \<Longrightarrow> (sr_input_file s, sr_input s) \<in> set (input_keys cr)"
  "f \<in> set (cr_fdes cr) \<Longrightarrow> (fr_input_file f, fr_input f) \<in> set (input_keys cr)"
  "d \<in> set (cr_dynamic_relocations cr) \<Longrightarrow> (dr_input_file d, dr_input d) \<in> set (input_keys cr)"
  "r \<in> set (cr_relocations cr) \<Longrightarrow> (rr_input_file r, rr_input r) \<in> set (input_keys cr)"
  "r \<in> set (cr_relocations cr) \<Longrightarrow> rr_target r = Some t \<Longrightarrow> (rt_input_file t, rt_input t) \<in> set (input_keys cr)"
proof -
  show "(rt_input_file t, rt_input t) \<in> set (input_keys cr)" if "r \<in> set (cr_relocations cr)" "rr_target r = Some t"
  proof -
    have "(rt_input_file t, rt_input t) \<in> set (relocation_keys r)" using that(2) by (simp add: relocation_keys_def)
    then show ?thesis using that(1) by (auto simp: input_keys_def)
  qed
qed (auto simp: input_keys_def relocation_keys_def)

text \<open>Rendering never looks up a missing input.\<close>

lemma write_rendered_total:
  assumes "records_wf cr"
  shows "\<exists>text. write_rendered_records cr = Some text"
proof -
  obtain inputs ids where c: "collect_section_inputs cr = (inputs, ids)" by (cases "collect_section_inputs cr")
  note k = collected_inputs(2) [OF assms c]
  have "\<exists>ss. those (map (section_line ids) (cr_sections cr)) = Some ss"
    using k [OF keys_present(1)] by (intro those_map_total) (fastforce simp: section_line_def)
  moreover have "\<exists>rs. those (map (relocation_line ids) (cr_relocations cr)) = Some rs"
  proof (intro those_map_total)
    fix r assume r: "r \<in> set (cr_relocations cr)"
    obtain i where "ids (rr_input_file r, rr_input r) = Some i" using k [OF keys_present(4) [OF r]] by blast
    moreover have "\<exists>j. ids (rt_input_file t, rt_input t) = Some j" if "rr_target r = Some t" for t
      using k [OF keys_present(5) [OF r that]] .
    ultimately show "\<exists>y. relocation_line ids r = Some y"
      by (cases "rr_target r") (auto simp: relocation_line_def)
  qed
  moreover have "\<exists>fs. those (map (fde_line ids) (cr_fdes cr)) = Some fs"
    using k [OF keys_present(2)] by (intro those_map_total) (fastforce simp: fde_line_def)
  moreover have "\<exists>ds. those (map (dynamic_relocation_line ids) (cr_dynamic_relocations cr)) = Some ds"
    using k [OF keys_present(3)] by (intro those_map_total) (fastforce simp: dynamic_relocation_line_def)
  ultimately show ?thesis by (auto simp: write_rendered_records_def c)
qed

lemma tsv_line: "\<forall>x \<in> set xs. field_text x \<Longrightarrow> LF \<notin> set (tsv xs)" "\<forall>x \<in> set xs. field_text x \<Longrightarrow> CR \<notin> set (tsv xs)"
  using field_tsv [of xs] by auto

text \<open>The lines of a rendered block have no line ends.\<close>

lemma line_ok:
  "section_line ids s = Some l \<Longrightarrow> LF \<notin> set l \<and> CR \<notin> set l"
  "fde_line ids f = Some l \<Longrightarrow> LF \<notin> set l \<and> CR \<notin> set l"
  "dynamic_relocation_line ids d = Some l \<Longrightarrow> LF \<notin> set l \<and> CR \<notin> set l"
  "relocation_wf r \<Longrightarrow> relocation_line ids r = Some l \<Longrightarrow> LF \<notin> set l \<and> CR \<notin> set l"
proof -
  have ft: "field_text ''section''" "field_text ''fde''" "field_text ''dynrel''" "field_text ''reloc2''" by (simp_all add: field_text_def)
  show "section_line ids s = Some l \<Longrightarrow> LF \<notin> set l \<and> CR \<notin> set l"
    unfolding section_line_def using ft by (auto simp: tsv_line simp del: join_with.simps split: Option.bind_split_asm)
  show "fde_line ids f = Some l \<Longrightarrow> LF \<notin> set l \<and> CR \<notin> set l"
    unfolding fde_line_def using ft by (auto simp: tsv_line simp del: join_with.simps split: Option.bind_split_asm)
  show "dynamic_relocation_line ids d = Some l \<Longrightarrow> LF \<notin> set l \<and> CR \<notin> set l"
    unfolding dynamic_relocation_line_def using ft by (auto simp: tsv_line simp del: join_with.simps split: Option.bind_split_asm option.splits)
  show "relocation_wf r \<Longrightarrow> relocation_line ids r = Some l \<Longrightarrow> LF \<notin> set l \<and> CR \<notin> set l"
    using relocation_line_form [of ids r l] relocation_fields_text [of r] ft by (auto simp: tsv_line simp del: join_with.simps)
qed

text \<open>Both parsers on a rendered block; \<open>Ps\<close>, \<open>Pr\<close>, \<open>Pf\<close>, \<open>Pd\<close> say which records the line tests let pass.\<close>

lemma parse_block_rendered:
  assumes wf: "records_wf cr" and ct: "write_rendered_records cr = Some contents" and c: "collect_section_inputs cr = (inputs, ids)"
    and ps: "\<And>s l. section_line ids s = Some l \<Longrightarrow> s \<in> set (cr_sections cr) \<Longrightarrow> p inputs ''section'' l = Inr (Ps s)"
    and pr: "\<And>r l. relocation_line ids r = Some l \<Longrightarrow> r \<in> set (cr_relocations cr) \<Longrightarrow> q inputs l = Inr (Pr r)"
    and pf: "\<And>f l. fde_line ids f = Some l \<Longrightarrow> f \<in> set (cr_fdes cr) \<Longrightarrow> p inputs ''fde'' l = Inr (Pf f)"
    and pd: "\<And>d l. dynamic_relocation_line ids d = Some l \<Longrightarrow> d \<in> set (cr_dynamic_relocations cr) \<Longrightarrow> p inputs ''dynrel'' l = Inr (Pd d)"
  shows "parse_block p q (rust_lines contents) =
    Inr \<lparr>cr_sections = filter Ps (cr_sections cr), cr_relocations = filter Pr (cr_relocations cr),
         cr_fdes = filter Pf (cr_fdes cr), cr_dynamic_relocations = filter Pd (cr_dynamic_relocations cr)\<rparr>"
proof -
  obtain ss rs fs ds where lines: "those (map (section_line ids) (cr_sections cr)) = Some ss"
      "those (map (relocation_line ids) (cr_relocations cr)) = Some rs" "those (map (fde_line ids) (cr_fdes cr)) = Some fs"
      "those (map (dynamic_relocation_line ids) (cr_dynamic_relocations cr)) = Some ds"
    and t: "contents = write_lines
         (tsv [''section-inputs'', show_nat (length inputs)] # map (\<lambda>(a, b). tsv [''section-input'', a, b]) inputs
          @ tsv [''sections'', show_nat (length ss)] # ss @ tsv [''relocs'', show_nat (length rs)] # rs
          @ tsv [''fdes'', show_nat (length fs)] # fs @ tsv [''dynrels'', show_nat (length ds)] # ds)"
    using ct by (auto simp: write_rendered_records_def c simp del: join_with.simps split: Option.bind_split_asm)
  note in_wf = collected_inputs [OF wf c] and len = records_wf_lengths [OF wf]
  note S = those_map_Some [OF lines(1)] and R = those_map_Some [OF lines(2)] and F = those_map_Some [OF lines(3)] and D = those_map_Some [OF lines(4)]
  have ft: "field_text ''section-inputs''" "field_text ''sections''" "field_text ''relocs''" "field_text ''fdes''" "field_text ''dynrels''"
      "field_text ''section-input''" by (simp_all add: field_text_def)
  have rwf: "relocation_wf r" if "r \<in> set (cr_relocations cr)" for r using wf that by (simp add: records_wf_def)
  have body: "\<forall>l \<in> set ss \<union> set rs \<union> set fs \<union> set ds. LF \<notin> set l \<and> CR \<notin> set l"
    using line_ok(1) [of ids] line_ok(2) [of ids] line_ok(3) [of ids] line_ok(4) [of _ ids] S R F D rwf
    by (metis (no_types, lifting) Un_iff in_set_conv_nth nth_mem)
  have input_lines: "\<forall>l \<in> set (map (\<lambda>(a, b). tsv [''section-input'', a, b]) inputs). LF \<notin> set l \<and> CR \<notin> set l"
    using in_wf(4) ft by (auto simp: tsv_line simp del: join_with.simps)
  have input_line: "parse_section_input_line (case k of (a, b) \<Rightarrow> tsv [''section-input'', a, b]) = Inr k" if "k \<in> set inputs" for k
    using in_wf(4) [of "fst k" "snd k"] section_input_line_parse that by (cases k) (simp del: join_with.simps)
  have "rust_lines contents =
         tsv [''section-inputs'', show_nat (length inputs)] # map (\<lambda>(a, b). tsv [''section-input'', a, b]) inputs
          @ tsv [''sections'', show_nat (length ss)] # ss @ tsv [''relocs'', show_nat (length rs)] # rs
          @ tsv [''fdes'', show_nat (length fs)] # fs @ tsv [''dynrels'', show_nat (length ds)] # ds @ []"
    unfolding t append_Nil2 by (rule rust_lines_write_lines) (use body input_lines ft in \<open>auto simp: tsv_line simp del: join_with.simps\<close>)
  moreover have "parse_section_inputs (tsv [''section-inputs'', show_nat (length inputs)] # map (\<lambda>(a, b). tsv [''section-input'', a, b]) inputs @ rest)
      = Inr (inputs, rest)" for rest
    unfolding parse_section_inputs_def
    using parse_group_append(1) [of inputs take_all "map (\<lambda>(a, b). tsv [''section-input'', a, b]) inputs" "\<lambda>_. True" parse_section_input_line
        "''section-inputs''" "''Invalid incremental section input count''" "''Missing incremental section input record''" rest]
      in_wf(3) ft(1) input_line by (simp del: join_with.simps)
  moreover have "parse_group ''sections'' m m' (p inputs ''section'') (parse_compact_section_line inputs) (tsv [''sections'', show_nat (length ss)] # ss @ rest)
      = Inr (filter Ps (cr_sections cr), rest)" for m m' rest
    using S ps section_line_parse [OF _ in_wf(1,3)] len(1) ft by (intro parse_group_append(1)) auto
  moreover have "parse_optional_group ''relocs'' m m' (q inputs) (parse_compact_relocation_line inputs) (tsv [''relocs'', show_nat (length rs)] # rs @ rest)
      = Inr (filter Pr (cr_relocations cr), rest)" for m m' rest
    using R pr relocation_line_parse [OF _ in_wf(1,3) rwf] len(2) ft by (intro parse_group_append(2)) auto
  moreover have "parse_optional_group ''fdes'' m m' (p inputs ''fde'') (parse_compact_fde_line inputs) (tsv [''fdes'', show_nat (length fs)] # fs @ rest)
      = Inr (filter Pf (cr_fdes cr), rest)" for m m' rest
    using F pf fde_line_parse [OF _ in_wf(1,3)] len(3) ft by (intro parse_group_append(2)) auto
  moreover have "parse_optional_group ''dynrels'' m m' (p inputs ''dynrel'') (parse_compact_dynamic_relocation_line inputs) (tsv [''dynrels'', show_nat (length ds)] # ds @ [])
      = Inr (filter Pd (cr_dynamic_relocations cr), [])" for m m'
    using D pd dynamic_relocation_line_parse [OF _ in_wf(1,3)] wf len(4) ft
    by (intro parse_group_append(2)) (auto simp: records_wf_def)
  ultimately show ?thesis by (simp add: parse_block_def del: join_with.simps append_Nil2)
qed

lemma records_parsed:
  assumes "records_wf cr" and "write_rendered_records cr = Some contents"
  shows "parse_compact_records_block (rust_lines contents) = Inr cr"
proof -
  obtain inputs ids where c: "collect_section_inputs cr = (inputs, ids)" by (cases "collect_section_inputs cr")
  show ?thesis
    using parse_block_rendered [OF assms c, of "\<lambda>_ _. take_all" "\<lambda>_. True" "\<lambda>_. take_all" "\<lambda>_. True" "\<lambda>_. True" "\<lambda>_. True"]
    by (simp add: parse_compact_records_block_def)
qed

text \<open>
  The records of a link survive storing: they are always rendered, and parsing the text gives the
  same records in the same order.
\<close>

lemma records_roundtrip:
  assumes "records_wf cr"
  shows "\<exists>contents. write_rendered_records cr = Some contents \<and> parse_compact_records_block (rust_lines contents) = Inr cr"
  using write_rendered_total [OF assms] records_parsed [OF assms] by blast

subsection \<open>Records of some inputs\<close>

definition records_of :: "string list \<Rightarrow> compact_records \<Rightarrow> compact_records" where
  "records_of files cr =
     \<lparr>cr_sections = filter (\<lambda>s. sr_input_file s \<in> set files) (cr_sections cr),
      cr_relocations = filter (\<lambda>r. rr_input_file r \<in> set files \<or> (\<exists>t. rr_target r = Some t \<and> rt_input_file t \<in> set files)) (cr_relocations cr),
      cr_fdes = filter (\<lambda>f. fr_input_file f \<in> set files) (cr_fdes cr),
      cr_dynamic_relocations = filter (\<lambda>d. dr_input_file d \<in> set files) (cr_dynamic_relocations cr)\<rparr>"

lemma matched_iff: "get_at inputs i = Some k \<Longrightarrow> i \<in> set (matched_section_input_ids files inputs) \<longleftrightarrow> fst k \<in> set files"
  by (auto simp: matched_section_input_ids_def get_at_def split: if_split_asm)

lemma matches_line:
  assumes wf: "inputs_wf (inputs, ids)" and i: "ids k = Some i" and n: "length inputs < 2 ^ 64"
    and ft: "field_text p" "\<And>x. x \<in> set xs \<Longrightarrow> field_text x"
  shows "compact_record_matches_input (tsv (p # show_nat i # xs)) p (matched_section_input_ids files inputs) (length inputs)
    = Inr (fst k \<in> set files)"
proof -
  note at = id_at [OF wf i n]
  have "parse_prefixed_line (Some (tsv (p # show_nat i # xs))) p = Inr (tsv (show_nat i # xs))"
    by (rule prefixed_tsv [OF ft(1)]) simp
  moreover have "split_on TAB (tsv (show_nat i # xs)) = show_nat i # xs"
    by (rule split_tsv) (use ft(2) in auto)
  moreover have "i < length inputs" using at by (auto simp: get_at_def split: if_split_asm)
  ultimately show ?thesis
    using at matched_iff [of inputs i k files]
    by (simp add: compact_record_matches_input_def compact_record_section_input_id_def del: join_with.simps)
qed

lemma relocation_matches_line:
  assumes line: "relocation_line ids r = Some l" and wf: "inputs_wf (inputs, ids)" and n: "length inputs < 2 ^ 64" and rwf: "relocation_wf r"
  shows "compact_relocation_record_matches_input l (matched_section_input_ids files inputs) files (length inputs)
    = Inr (rr_input_file r \<in> set files \<or> (\<exists>t. rr_target r = Some t \<and> rt_input_file t \<in> set files))"
proof -
  obtain i t where i: "ids (rr_input_file r, rr_input r) = Some i" and l: "l = tsv (''reloc2'' # relocation_fields i t r)"
    and t: "case rr_target r of None \<Rightarrow> t = None
       | Some x \<Rightarrow> \<exists>j. ids (rt_input_file x, rt_input x) = Some j \<and> t = Some (j, rt_section_index x, rt_section_offset x)"
    using relocation_line_form [OF line] by blast
  obtain fs where fs: "relocation_fields i t r = show_nat i # fs" by (simp add: relocation_fields_def)
  have own: "compact_record_matches_input l ''reloc2'' (matched_section_input_ids files inputs) (length inputs) = Inr (rr_input_file r \<in> set files)"
    using matches_line [OF wf i n, of "''reloc2''" fs files] relocation_fields_text [OF rwf, of _ i t] fs l by (simp add: field_text_def)
  let ?p = "relocation_fields i t r"
  have "(if length ?p \<noteq> 14 \<or> ?p ! 11 = ABSENT_FIELD then Inr False
          else res_bind (context_msg ''Invalid incremental relocation target input index'' (parse_usize (?p ! 11))) (\<lambda>i.
            if length inputs \<le> i then Inl ''Incremental relocation target input index out of bounds''
            else Inr (i \<in> set (matched_section_input_ids files inputs)))) = Inr (\<exists>t. rr_target r = Some t \<and> rt_input_file t \<in> set files)"
  proof (cases "rr_target r")
    case None
    then show ?thesis using t by (simp add: relocation_fields_def optional_record_field_def)
  next
    case (Some x)
    then obtain j where j: "ids (rt_input_file x, rt_input x) = Some j" "t = Some (j, rt_section_index x, rt_section_offset x)"
      using t by auto
    note at = id_at [OF wf j(1) n]
    have "j < length inputs" using at by (auto simp: get_at_def split: if_split_asm)
    then show ?thesis using Some j(2) at matched_iff [of inputs j _ files]
      by (simp add: relocation_fields_def optional_record_field_def [of _ "Some _"])
  qed
  then show ?thesis
    using own relocation_split [OF rwf, of i t] l
    by (simp add: compact_relocation_record_matches_input_def Let_def del: join_with.simps)
qed

text \<open>
  Reading only the records of some input files gives exactly the records that belong to them, and
  the relocations that point into them: the filtered parser agrees with parsing everything and filtering.
\<close>

lemma filtered_records_correct:
  assumes "records_wf cr" and "write_rendered_records cr = Some contents"
  shows "parse_compact_records_block_for_input_files files (rust_lines contents) = Inr (records_of files cr)"
proof -
  obtain inputs ids where c: "collect_section_inputs cr = (inputs, ids)" by (cases "collect_section_inputs cr")
  note in_wf = collected_inputs [OF assms(1) c]
  let ?m = "matched_section_input_ids files inputs"
  have m: "compact_record_matches_input (tsv (p # show_nat i # xs)) p ?m (length inputs) = Inr (fst k \<in> set files)"
    if "ids k = Some i" "field_text p" "\<forall>x \<in> set xs. field_text x" for p i xs k
    using matches_line [OF in_wf(1) that(1) in_wf(3) that(2)] that(3) by blast
  have ft: "field_text ''section''" "field_text ''fde''" "field_text ''dynrel''" by (simp_all add: field_text_def)
  have s: "compact_record_matches_input l ''section'' ?m (length inputs) = Inr (sr_input_file s \<in> set files)" if "section_line ids s = Some l" for s l
    using that m ft by (auto simp: section_line_def simp del: join_with.simps split: Option.bind_split_asm)
  have f: "compact_record_matches_input l ''fde'' ?m (length inputs) = Inr (fr_input_file s \<in> set files)" if "fde_line ids s = Some l" for s l
    using that m ft by (auto simp: fde_line_def simp del: join_with.simps split: Option.bind_split_asm)
  have d: "compact_record_matches_input l ''dynrel'' ?m (length inputs) = Inr (dr_input_file s \<in> set files)"
    if "dynamic_relocation_line ids s = Some l" for s l
    using that m ft by (auto simp: dynamic_relocation_line_def simp del: join_with.simps split: Option.bind_split_asm option.splits)
  have rwf: "relocation_wf r" if "r \<in> set (cr_relocations cr)" for r using assms(1) that by (simp add: records_wf_def)
  show ?thesis
    unfolding parse_compact_records_block_for_input_files_def records_of_def
    by (rule parse_block_rendered [OF assms c]) (use s f d relocation_matches_line [OF _ in_wf(1,3) rwf] in blast)+
qed

subsection \<open>Examples\<close>

definition sample_records :: compact_records where
  "sample_records =
     \<lparr>cr_sections = [\<lparr>sr_input_file = ''61'', sr_input = ''61'', sr_section_index = 3, sr_output_offset = 4096, sr_size = 16\<rparr>],
      cr_relocations = [\<lparr>rr_target_symbol_id = 7, rr_written_value = Some 12, rr_target_value = 4200, rr_target_name = Some ''666f6f'',
        rr_target = Some \<lparr>rt_input_file = ''62'', rt_input = ''62'', rt_section_index = 1, rt_section_offset = 8\<rparr>,
        rr_input_file = ''61'', rr_input = ''61'', rr_section_index = 3, rr_relocation_offset = 4, rr_output_offset = 4100,
        rr_size = 4, rr_kind = 2, rr_addend = - 4\<rparr>],
      cr_fdes = [], cr_dynamic_relocations = [\<lparr>dr_input_file = ''62'', dr_input = ''62'', dr_section_index = 1,
        dr_relocation_offset = 0, dr_output_offset = 512, dr_size = 24, dr_output_r_offset = None, dr_output_r_info = None\<rparr>]\<rparr>"

lemma sample_records_wf: "records_wf sample_records"
  by (simp add: records_wf_def sample_records_def input_keys_def relocation_keys_def field_text_def relocation_wf_def ABSENT_FIELD_def)

lemma records_roundtrip_witness:
  "\<exists>contents. write_rendered_records sample_records = Some contents \<and> parse_compact_records_block (rust_lines contents) = Inr sample_records"
  by (rule records_roundtrip [OF sample_records_wf])

definition sample_records_text :: string where
  "sample_records_text = the (write_rendered_records sample_records)"

lemma filtered_records_correct_witness:
  "parse_compact_records_block_for_input_files [''62''] (rust_lines sample_records_text)
     = Inr (sample_records\<lparr>cr_sections := []\<rparr>)"
proof -
  have "write_rendered_records sample_records = Some sample_records_text"
    using write_rendered_total [OF sample_records_wf] by (auto simp: sample_records_text_def)
  from filtered_records_correct [OF sample_records_wf this, of "[''62'']"]
  show ?thesis by (simp add: records_of_def sample_records_def)
qed

end
