(* ===== verification/Build_Id_Tree.thy ===== *)
theory Build_Id_Tree
  imports Prelude "HOL-Library.Monad_Syntax"
begin

text \<open>
  The fast build id of an incremental link, from \<^verbatim>\<open>libsld/src/incremental.rs\<close>: the output is hashed with
  BLAKE3, the hashes of all groups of 64 chunks and of the inner nodes above them are kept, and an
  incremental update hashes only the groups it touched. The tree is stored in preorder without its
  root, which has a hash of its own kind.

  The crate \<^verbatim>\<open>blake3\<close> is the parameter \<open>b3\<close>; what the code relies on is \<open>blake3_ok\<close>, after the
  documentation of \<^verbatim>\<open>blake3::hazmat\<close>. Positions and lengths are natural numbers: they index a mapped
  file. A subtraction below zero wraps at 64 bits. The recursions are on lengths that \<open>b3\<close> chooses, so not
  returning is \<open>None\<close>, as is a panic.
\<close>

record blake3 =
  chunk_len :: nat
  out_len :: nat
  left_subtree_len :: "nat \<Rightarrow> nat"
  hash_at :: "nat \<Rightarrow> bytes \<Rightarrow> bytes"  \<comment> \<open>\<^verbatim>\<open>Hasher::new().set_input_offset(o).update(b).finalize_non_root()\<close>\<close>
  merge_non_root :: "bytes \<Rightarrow> bytes \<Rightarrow> bytes"
  merge_root :: "bytes \<Rightarrow> bytes \<Rightarrow> bytes"
  hash_all :: "bytes \<Rightarrow> bytes"  \<comment> \<open>\<^verbatim>\<open>Hasher::new().update(b).finalize()\<close>\<close>
  to_hex :: "bytes \<Rightarrow> string"

definition usize_sub :: "nat \<Rightarrow> nat \<Rightarrow> nat" where
  "usize_sub a b = (if b \<le> a then a - b else 2 ^ 64 + a - b)"

definition BUILD_ID_HASH_GROUP_CHUNKS :: nat where "BUILD_ID_HASH_GROUP_CHUNKS = 64"

definition BUILD_ID_HASH_GROUP_LEN :: "blake3 \<Rightarrow> nat" where
  "BUILD_ID_HASH_GROUP_LEN b3 = chunk_len b3 * BUILD_ID_HASH_GROUP_CHUNKS"

record build_id_hash_state =
  output_len :: nat
  nodes :: nat
  tree_hash :: "string option"

datatype build_id_error =
    OnlyFastBuildIds
  | IncompatibleHashState
  | StateDoesNotMatchLength
  | TreeSizeDoesNotMatch
  | InvalidPatchRange
  | CannotReadTree
  | TreeHashMismatch

subsection \<open>The tree\<close>

definition div_ceil :: "nat \<Rightarrow> nat \<Rightarrow> nat" where
  "div_ceil a b = a div b + (if 0 < a mod b then 1 else 0)"

definition build_id_subtree_node_count :: "blake3 \<Rightarrow> nat \<Rightarrow> nat" where
  "build_id_subtree_node_count b3 len = usize_sub (2 * div_ceil len (BUILD_ID_HASH_GROUP_LEN b3)) 1"

definition build_id_hash_node_count :: "blake3 \<Rightarrow> nat \<Rightarrow> nat option" where
  "build_id_hash_node_count b3 len =
     (if len \<le> BUILD_ID_HASH_GROUP_LEN b3 then None
      else let left_len = left_subtree_len b3 len
           in Some (build_id_subtree_node_count b3 left_len + build_id_subtree_node_count b3 (usize_sub len left_len)))"

definition intersect_ranges :: "nat \<times> nat \<Rightarrow> nat \<times> nat \<Rightarrow> (nat \<times> nat) option" where
  "intersect_ranges left right =
     (let s = max (fst left) (fst right); e = min (snd left) (snd right)
      in if s < e then Some (s, e) else None)"

text \<open>\<^verbatim>\<open>xs[a..b].fill(0)\<close>\<close>

definition fill_zero :: "nat \<Rightarrow> nat \<Rightarrow> bytes \<Rightarrow> bytes option" where
  "fill_zero a b xs = copy_from_slice a b (replicate (b - a) 0) xs"

definition build_id_leaf_hash_bytes :: "blake3 \<Rightarrow> bytes \<Rightarrow> nat \<Rightarrow> bytes" where
  "build_id_leaf_hash_bytes b3 data start = hash_at b3 start data"

definition build_id_leaf_hash :: "blake3 \<Rightarrow> bytes \<Rightarrow> nat \<Rightarrow> nat \<Rightarrow> nat \<times> nat \<Rightarrow> bytes option" where
  "build_id_leaf_hash b3 data start len zero_range =
     do {
       chunk \<leftarrow> slice_range start (start + len) data;
       case intersect_ranges (start, start + len) zero_range of
         Some overlap \<Rightarrow>
           do {
             zeroed \<leftarrow> fill_zero (usize_sub (fst overlap) start) (usize_sub (snd overlap) start) chunk;
             Some (build_id_leaf_hash_bytes b3 zeroed start)
           }
       | None \<Rightarrow> Some (build_id_leaf_hash_bytes b3 chunk start)
     }"

text \<open>The two sides work on disjoint halves of the slice, so running them in parallel or in sequence is the same.\<close>

partial_function (option) build_id_subtree_hash ::
    "blake3 \<Rightarrow> bytes \<Rightarrow> nat \<Rightarrow> nat \<Rightarrow> nat \<times> nat \<Rightarrow> bytes list \<Rightarrow> (bytes \<times> bytes list) option" where
  "build_id_subtree_hash b3 data start len zero_range tree =
     (if length tree \<noteq> build_id_subtree_node_count b3 len then None
      else if len \<le> BUILD_ID_HASH_GROUP_LEN b3 then
        do {
          hash \<leftarrow> build_id_leaf_hash b3 data start len zero_range;
          tree' \<leftarrow> set_at 0 hash tree;
          Some (hash, tree')
        }
      else
        (let left_len = left_subtree_len b3 len;
             left_nodes = build_id_subtree_node_count b3 left_len
         in case tree of
              [] \<Rightarrow> None
            | root # children \<Rightarrow>
                if length children < left_nodes then None
                else do {
                  l \<leftarrow> build_id_subtree_hash b3 data start left_len zero_range (take left_nodes children);
                  r \<leftarrow> build_id_subtree_hash b3 data (start + left_len) (usize_sub len left_len) zero_range (drop left_nodes children);
                  let hash = merge_non_root b3 (fst l) (fst r);
                  Some (hash, hash # snd l @ snd r)
                }))"

declare build_id_subtree_hash.simps [code]

definition build_id_hash_tree :: "blake3 \<Rightarrow> bytes \<Rightarrow> nat \<times> nat \<Rightarrow> bytes list option option" where
  "build_id_hash_tree b3 data zero_range =
     (case build_id_hash_node_count b3 (length data) of
        None \<Rightarrow> Some None
      | Some n \<Rightarrow>
          (let tree = replicate n (replicate (out_len b3) 0);
               left_len = left_subtree_len b3 (length data);
               left_nodes = build_id_subtree_node_count b3 left_len
           in if length tree < left_nodes then None
              else do {
                l \<leftarrow> build_id_subtree_hash b3 data 0 left_len zero_range (take left_nodes tree);
                r \<leftarrow> build_id_subtree_hash b3 data left_len (usize_sub (length data) left_len) zero_range (drop left_nodes tree);
                Some (Some (snd l @ snd r))
              }))"

definition build_id_hash_tree_hash :: "blake3 \<Rightarrow> bytes list \<Rightarrow> string" where
  "build_id_hash_tree_hash b3 tree = to_hex b3 (hash_all b3 (concat tree))"

definition build_id_from_hash_tree ::
    "blake3 \<Rightarrow> build_id_hash_state \<Rightarrow> bytes list \<Rightarrow> (build_id_error + bytes) option" where
  "build_id_from_hash_tree b3 state tree =
     (if Some (nodes state) \<noteq> build_id_hash_node_count b3 (output_len state) then Some (Inl StateDoesNotMatchLength)
      else if length tree \<noteq> nodes state then Some (Inl TreeSizeDoesNotMatch)
      else do {
        let right_index = build_id_subtree_node_count b3 (left_subtree_len b3 (output_len state));
        l \<leftarrow> get_at tree 0;
        r \<leftarrow> get_at tree right_index;
        Some (Inr (merge_root b3 l r))
      })"

subsection \<open>The update\<close>

fun touched_chunks_of :: "blake3 \<Rightarrow> nat \<Rightarrow> (nat \<times> nat) list \<Rightarrow> build_id_error + nat list" where
  "touched_chunks_of b3 len [] = Inr []"
| "touched_chunks_of b3 len ((a, b) # rs) =
     (if a > b \<or> b > len then Inl InvalidPatchRange
      else map_sum (\<lambda>e. e)
             (\<lambda>cs. (if a < b then [a div BUILD_ID_HASH_GROUP_LEN b3 ..< Suc ((b - 1) div BUILD_ID_HASH_GROUP_LEN b3)] else []) @ cs)
             (touched_chunks_of b3 len rs))"

definition touched_build_id_chunks :: "blake3 \<Rightarrow> (nat \<times> nat) list \<Rightarrow> nat \<Rightarrow> build_id_error + nat list" where
  "touched_build_id_chunks b3 ranges len = map_sum (\<lambda>e. e) (\<lambda>cs. remdups_adj (sort cs)) (touched_chunks_of b3 len ranges)"

definition touched_chunks_overlap :: "blake3 \<Rightarrow> nat list \<Rightarrow> nat \<Rightarrow> nat \<Rightarrow> bool" where
  "touched_chunks_overlap b3 chunks start len =
     (if len = 0 then False
      else let first = start div BUILD_ID_HASH_GROUP_LEN b3; last = (start + len - 1) div BUILD_ID_HASH_GROUP_LEN b3
           in list_ex (\<lambda>chunk. first \<le> chunk \<and> chunk \<le> last) chunks)"

partial_function (option) update_build_id_subtree_hash ::
    "blake3 \<Rightarrow> bytes list \<Rightarrow> nat \<Rightarrow> bytes \<Rightarrow> nat \<Rightarrow> nat \<Rightarrow> nat \<times> nat \<Rightarrow> nat list \<Rightarrow> (bool \<times> bytes list) option" where
  "update_build_id_subtree_hash b3 tree index output start len zero_range changed_chunks =
     (if \<not> touched_chunks_overlap b3 changed_chunks start len then Some (False, tree)
      else if len \<le> BUILD_ID_HASH_GROUP_LEN b3 then
        do {
          hash \<leftarrow> build_id_leaf_hash b3 output start len zero_range;
          tree' \<leftarrow> set_at index hash tree;
          Some (True, tree')
        }
      else do {
        let left_len = left_subtree_len b3 len;
        let left_index = index + 1;
        let right_index = left_index + build_id_subtree_node_count b3 left_len;
        l \<leftarrow> update_build_id_subtree_hash b3 tree left_index output start left_len zero_range changed_chunks;
        r \<leftarrow> update_build_id_subtree_hash b3 (snd l) right_index output (start + left_len) (usize_sub len left_len) zero_range changed_chunks;
        let changed = fst l \<or> fst r;
        if changed then do {
          lh \<leftarrow> get_at (snd r) left_index;
          rh \<leftarrow> get_at (snd r) right_index;
          tree' \<leftarrow> set_at index (merge_non_root b3 lh rh) (snd r);
          Some (changed, tree')
        } else Some (changed, snd r)
      })"

declare update_build_id_subtree_hash.simps [code]

text \<open>The two \<^verbatim>\<open>&mut\<close> arguments are returned; \<^verbatim>\<open>false\<close> is \<open>Some None\<close>.\<close>

definition update_build_id_hash_tree ::
    "blake3 \<Rightarrow> build_id_hash_state \<Rightarrow> bytes list \<Rightarrow> bytes \<Rightarrow> nat \<times> nat \<Rightarrow> nat list
     \<Rightarrow> (build_id_hash_state \<times> bytes list) option option" where
  "update_build_id_hash_tree b3 state tree output zero_range changed_chunks =
     (if output_len state \<noteq> length output \<or> Some (nodes state) \<noteq> build_id_hash_node_count b3 (length output)
         \<or> length tree \<noteq> nodes state \<or> length output \<le> BUILD_ID_HASH_GROUP_LEN b3 then Some None
      else do {
        let left_len = left_subtree_len b3 (length output);
        l \<leftarrow> update_build_id_subtree_hash b3 tree 0 output 0 left_len zero_range changed_chunks;
        let right_index = build_id_subtree_node_count b3 left_len;
        r \<leftarrow> update_build_id_subtree_hash b3 (snd l) right_index output left_len (usize_sub (length output) left_len) zero_range changed_chunks;
        Some (Some (state\<lparr>tree_hash := Some (build_id_hash_tree_hash b3 (snd r))\<rparr>, snd r))
      })"

subsection \<open>The note\<close>

definition GNU_NOTE_NAME :: bytes where "GNU_NOTE_NAME = [0x47, 0x4e, 0x55, 0]"

definition validate_fast_build_id_range :: "blake3 \<Rightarrow> nat \<times> nat \<Rightarrow> build_id_error + unit" where
  "validate_fast_build_id_range b3 rng =
     (if usize_sub (snd rng) (fst rng) \<noteq> 12 + length GNU_NOTE_NAME + out_len b3 then Inl OnlyFastBuildIds else Inr ())"

definition write_fast_build_id_note ::
    "(string \<Rightarrow> u32) \<Rightarrow> blake3 \<Rightarrow> bytes \<Rightarrow> nat \<times> nat \<Rightarrow> bytes \<Rightarrow> bytes option" where
  "write_fast_build_id_note elf b3 output rng build_id =
     do {
       note \<leftarrow> slice_range (fst rng) (snd rng) output;
       note \<leftarrow> copy_from_slice 0 4 (to_le_bytes 4 (of_nat (length GNU_NOTE_NAME) :: u32)) note;
       note \<leftarrow> copy_from_slice 4 8 (to_le_bytes 4 (of_nat (out_len b3) :: u32)) note;
       note \<leftarrow> copy_from_slice 8 12 (to_le_bytes 4 (elf ''NT_GNU_BUILD_ID'')) note;
       note \<leftarrow> copy_from_slice 12 16 GNU_NOTE_NAME note;
       note \<leftarrow> copy_from_slice 16 (length note) build_id note;
       copy_from_slice (fst rng) (snd rng) note output
     }"

definition write_fast_build_id_from_state ::
    "(string \<Rightarrow> u32) \<Rightarrow> blake3 \<Rightarrow> bytes \<Rightarrow> nat \<times> nat \<Rightarrow> build_id_hash_state \<Rightarrow> bytes list \<Rightarrow> (nat \<times> nat) list
     \<Rightarrow> (build_id_error + bytes \<times> build_id_hash_state \<times> bytes list) option" where
  "write_fast_build_id_from_state elf b3 output rng state tree changed_ranges =
     (case validate_fast_build_id_range b3 rng of
        Inl e \<Rightarrow> Some (Inl e)
      | Inr _ \<Rightarrow>
          do {
            output \<leftarrow> fill_zero (fst rng) (snd rng) output;
            case touched_build_id_chunks b3 (changed_ranges @ [rng]) (length output) of
              Inl e \<Rightarrow> Some (Inl e)
            | Inr changed_chunks \<Rightarrow>
                do {
                  u \<leftarrow> update_build_id_hash_tree b3 state tree output rng changed_chunks;
                  case u of
                    None \<Rightarrow> Some (Inl IncompatibleHashState)
                  | Some (state, tree) \<Rightarrow>
                      do {
                        b \<leftarrow> build_id_from_hash_tree b3 state tree;
                        case b of
                          Inl e \<Rightarrow> Some (Inl e)
                        | Inr build_id \<Rightarrow>
                            map_option (\<lambda>out. Inr (out, state, tree)) (write_fast_build_id_note elf b3 output rng build_id)
                      }
                }
          })"

text \<open>
  The stored tree: the file \<^verbatim>\<open>build-id-hash\<close> holds the nodes one after the other. \<open>None\<close> is a file that
  cannot be read.
\<close>

fun chunks_exact :: "nat \<Rightarrow> nat \<Rightarrow> 'a list \<Rightarrow> 'a list list" where
  "chunks_exact n 0 xs = []"
| "chunks_exact n (Suc k) xs = take n xs # chunks_exact n k (drop n xs)"

definition read_build_id_hash_tree :: "blake3 \<Rightarrow> build_id_hash_state \<Rightarrow> bytes option \<Rightarrow> build_id_error + bytes list" where
  "read_build_id_hash_tree b3 state file =
     (if Some (nodes state) \<noteq> build_id_hash_node_count b3 (output_len state) then Inl StateDoesNotMatchLength
      else case file of
        None \<Rightarrow> Inl CannotReadTree
      | Some data \<Rightarrow>
          if length data \<noteq> nodes state * out_len b3 then Inl TreeSizeDoesNotMatch
          else
            (let tree = chunks_exact (out_len b3) (length data div out_len b3) data
             in case tree_hash state of
                  Some expected_hash \<Rightarrow> if build_id_hash_tree_hash b3 tree \<noteq> expected_hash then Inl TreeHashMismatch else Inr tree
                | None \<Rightarrow> Inr tree))"

definition write_build_id_hash_tree :: "bytes list option \<Rightarrow> bytes option" where
  "write_build_id_hash_tree tree = map_option concat tree"

text \<open>
  Both branches of \<^verbatim>\<open>compute_hash\<close> for a full link; the note's place, found by the crate \<^verbatim>\<open>object\<close>, is the
  parameter \<open>note_range\<close>.
\<close>

definition compute_fast_build_id_and_prepare_state ::
    "blake3 \<Rightarrow> (nat \<times> nat) option \<Rightarrow> bool \<Rightarrow> bytes
     \<Rightarrow> (build_id_error + (bytes \<times> build_id_hash_state \<times> bytes list) option) option" where
  "compute_fast_build_id_and_prepare_state b3 note_range disabled output =
     (if disabled then Some (Inr None)
      else case note_range of
        None \<Rightarrow> Some (Inr None)
      | Some rng \<Rightarrow>
          (case validate_fast_build_id_range b3 rng of
             Inl e \<Rightarrow> Some (Inl e)
           | Inr _ \<Rightarrow>
               do {
                 t \<leftarrow> build_id_hash_tree b3 output rng;
                 case t of
                   None \<Rightarrow> Some (Inr None)
                 | Some tree \<Rightarrow>
                     do {
                       let state = \<lparr>output_len = length output, nodes = length tree,
                                    tree_hash = Some (build_id_hash_tree_hash b3 tree)\<rparr>;
                       b \<leftarrow> build_id_from_hash_tree b3 state tree;
                       Some (map_sum (\<lambda>e. e) (\<lambda>build_id. Some (build_id, state, tree)) b)
                     }
               }))"

text \<open>The state and tree of an output that is not written by this link.\<close>

definition build_id_hash_state_from_output ::
    "blake3 \<Rightarrow> (nat \<times> nat) option \<Rightarrow> bytes \<Rightarrow> (build_id_error + build_id_hash_state option \<times> bytes list option) option" where
  "build_id_hash_state_from_output b3 note_range bytes =
     (case note_range of
        None \<Rightarrow> Some (Inr (None, None))
      | Some rng \<Rightarrow>
          (case validate_fast_build_id_range b3 rng of
             Inl e \<Rightarrow> Some (Inl e)
           | Inr _ \<Rightarrow>
               map_option (\<lambda>t. Inr (case t of
                   None \<Rightarrow> (None, None)
                 | Some tree \<Rightarrow> (Some \<lparr>output_len = length bytes, nodes = length tree,
                                       tree_hash = Some (build_id_hash_tree_hash b3 tree)\<rparr>, Some tree)))
                 (build_id_hash_tree b3 bytes rng)))"

lemma build_id_hash_state_computed:
  assumes "compute_fast_build_id_and_prepare_state b3 note_range False output = Some (Inr (Some (b, state, tree)))"
  shows "build_id_hash_state_from_output b3 note_range output = Some (Inr (Some state, Some tree))"
  using assms
  by (auto simp: compute_fast_build_id_and_prepare_state_def build_id_hash_state_from_output_def Let_def map_sum_def
      split: option.splits sum.splits Option.bind_split_asm)

definition compute_hash :: "blake3 \<Rightarrow> (nat \<times> nat) option \<Rightarrow> bool \<Rightarrow> bytes \<Rightarrow> (build_id_error + bytes) option" where
  "compute_hash b3 note_range disabled output =
     map_option (map_sum (\<lambda>e. e) (\<lambda>r. case r of Some (build_id, _) \<Rightarrow> build_id | None \<Rightarrow> hash_all b3 output))
       (compute_fast_build_id_and_prepare_state b3 note_range disabled output)"

subsection \<open>What the code relies on\<close>

text \<open>
  After the documentation of \<^verbatim>\<open>blake3::hazmat\<close>: the left part of more than one chunk is the largest power
  of two of chunks below the whole; the hash of an aligned subtree is the merge of the hashes of its
  two parts; the hash of an input is the root merge of the hashes of its two parts.
\<close>

definition blake3_ok :: "blake3 \<Rightarrow> bool" where
  "blake3_ok b3 \<longleftrightarrow>
     0 < chunk_len b3
     \<and> (\<forall>n. chunk_len b3 < n \<longrightarrow>
          (\<exists>k. left_subtree_len b3 n = chunk_len b3 * 2 ^ k \<and> left_subtree_len b3 n < n \<and> n \<le> 2 * left_subtree_len b3 n))
     \<and> (\<forall>k s x y. chunk_len b3 * 2 ^ k dvd s \<longrightarrow> length (x @ y) \<le> chunk_len b3 * 2 ^ k \<longrightarrow> chunk_len b3 < length (x @ y) \<longrightarrow>
          length x = left_subtree_len b3 (length (x @ y)) \<longrightarrow>
          hash_at b3 s (x @ y) = merge_non_root b3 (hash_at b3 s x) (hash_at b3 (s + length x) y))
     \<and> (\<forall>x y. chunk_len b3 < length (x @ y) \<longrightarrow> length x = left_subtree_len b3 (length (x @ y)) \<longrightarrow>
          hash_all b3 (x @ y) = merge_root b3 (hash_at b3 0 x) (hash_at b3 (length x) y))
     \<and> 0 < out_len b3 \<and> (\<forall>x. length (hash_all b3 x) = out_len b3)
     \<and> (\<forall>s x. length (hash_at b3 s x) = out_len b3) \<and> (\<forall>x y. length (merge_non_root b3 x y) = out_len b3)"

lemma group_pos: "blake3_ok b3 \<Longrightarrow> 0 < BUILD_ID_HASH_GROUP_LEN b3"
  by (simp add: blake3_ok_def BUILD_ID_HASH_GROUP_LEN_def BUILD_ID_HASH_GROUP_CHUNKS_def)

lemma group_less_chunk: "BUILD_ID_HASH_GROUP_LEN b3 < n \<Longrightarrow> chunk_len b3 < n"
  by (simp add: BUILD_ID_HASH_GROUP_LEN_def BUILD_ID_HASH_GROUP_CHUNKS_def)

lemma scaled_power_less:
  assumes "c * 2 ^ j < c * (2 :: nat) ^ k"
  shows "j < k"
proof (rule ccontr)
  assume "\<not> j < k"
  then have "(2 :: nat) ^ k \<le> 2 ^ j" by (intro power_increasing) simp_all
  then have "c * 2 ^ k \<le> c * 2 ^ j" by (rule mult_le_mono2)
  then show False using assms by linarith
qed

lemma left_len:
  assumes "blake3_ok b3" and "BUILD_ID_HASH_GROUP_LEN b3 < n"
  shows "left_subtree_len b3 n < n" "n - left_subtree_len b3 n \<le> left_subtree_len b3 n" "0 < left_subtree_len b3 n"
    "BUILD_ID_HASH_GROUP_LEN b3 dvd left_subtree_len b3 n" "\<exists>k. left_subtree_len b3 n = chunk_len b3 * 2 ^ k"
proof -
  let ?l = "left_subtree_len b3 n" and ?c = "chunk_len b3"
  obtain k where k: "?l = ?c * 2 ^ k" and l: "?l < n" "n \<le> 2 * ?l"
    using assms group_less_chunk [OF assms(2)] unfolding blake3_ok_def by blast
  have c: "0 < ?c" using assms(1) by (simp add: blake3_ok_def)
  then show "?l < n" "n - ?l \<le> ?l" "0 < ?l" "\<exists>k. ?l = ?c * 2 ^ k" using k l by auto
  have "?c * 2 ^ 5 * 2 = ?c * 64" by simp
  also have "\<dots> < 2 * (?c * 2 ^ k)"
    using assms(2) l unfolding k BUILD_ID_HASH_GROUP_LEN_def BUILD_ID_HASH_GROUP_CHUNKS_def by linarith
  finally have "?c * 2 ^ 5 < ?c * 2 ^ k" by linarith
  then have "5 < k" by (rule scaled_power_less)
  then have "(2 :: nat) ^ 6 dvd 2 ^ k" by (intro le_imp_power_dvd) simp
  then show "BUILD_ID_HASH_GROUP_LEN b3 dvd ?l"
    unfolding k BUILD_ID_HASH_GROUP_LEN_def BUILD_ID_HASH_GROUP_CHUNKS_def by (intro mult_dvd_mono) simp_all
qed

lemma div_ceil_add: "0 < g \<Longrightarrow> g dvd l \<Longrightarrow> div_ceil (l + m) g = l div g + div_ceil m g"
  by (erule dvdE) (simp add: div_ceil_def del: mod_greater_zero_iff_not_dvd)

lemma div_ceil_pos: "0 < g \<Longrightarrow> 0 < n \<Longrightarrow> 0 < div_ceil n g"
  by (auto simp: div_ceil_def div_greater_zero_iff)

lemma node_count_leaf: "0 < n \<Longrightarrow> n \<le> BUILD_ID_HASH_GROUP_LEN b3 \<Longrightarrow> build_id_subtree_node_count b3 n = 1"
  by (cases "n = BUILD_ID_HASH_GROUP_LEN b3") (auto simp: build_id_subtree_node_count_def usize_sub_def div_ceil_def)

lemma node_count_node:
  assumes "blake3_ok b3" and "BUILD_ID_HASH_GROUP_LEN b3 < n"
  shows "build_id_subtree_node_count b3 n =
    Suc (build_id_subtree_node_count b3 (left_subtree_len b3 n) + build_id_subtree_node_count b3 (n - left_subtree_len b3 n))"
proof -
  let ?l = "left_subtree_len b3 n" and ?g = "BUILD_ID_HASH_GROUP_LEN b3"
  have g: "0 < ?g" using assms by (simp add: group_pos)
  have "div_ceil n ?g = div_ceil ?l ?g + div_ceil (n - ?l) ?g"
    using div_ceil_add [OF g left_len(4) [OF assms], of "n - ?l"] div_ceil_add [OF g left_len(4) [OF assms], of 0] left_len(1) [OF assms]
    by (simp add: div_ceil_def [of 0])
  moreover have "0 < div_ceil ?l ?g" "0 < div_ceil (n - ?l) ?g"
    using div_ceil_pos [OF g] left_len(1,3) [OF assms] by simp_all
  ultimately show ?thesis by (simp add: build_id_subtree_node_count_def usize_sub_def)
qed

subsection \<open>The tree of a given content\<close>

text \<open>The preorder list of the hashes of the subtree of \<open>len\<close> bytes at \<open>start\<close>.\<close>

inductive is_tree :: "blake3 \<Rightarrow> bytes \<Rightarrow> nat \<Rightarrow> nat \<Rightarrow> bytes list \<Rightarrow> bool" for b3 z where
  leaf: "0 < len \<Longrightarrow> len \<le> BUILD_ID_HASH_GROUP_LEN b3 \<Longrightarrow> is_tree b3 z start len [hash_at b3 start (take len (drop start z))]"
| node: "BUILD_ID_HASH_GROUP_LEN b3 < len \<Longrightarrow> is_tree b3 z start (left_subtree_len b3 len) l \<Longrightarrow>
    is_tree b3 z (start + left_subtree_len b3 len) (len - left_subtree_len b3 len) r \<Longrightarrow>
    is_tree b3 z start len (merge_non_root b3 (hd l) (hd r) # l @ r)"

lemma is_tree_det: "is_tree b3 z s n t \<Longrightarrow> is_tree b3 z s n t' \<Longrightarrow> t = t'"
proof (induction arbitrary: t' rule: is_tree.induct)
  case (leaf len start)
  from leaf(3) show ?case using leaf(2) by cases simp_all
next
  case (node len start l r)
  from node(6) show ?case
  proof cases
    case leaf
    then show ?thesis using node(1) by simp
  next
    case (node l' r')
    then show ?thesis using node.IH by blast
  qed
qed

lemma is_tree_length: "is_tree b3 z s n t \<Longrightarrow> blake3_ok b3 \<Longrightarrow> length t = build_id_subtree_node_count b3 n"
  by (induction rule: is_tree.induct) (simp_all add: node_count_leaf node_count_node)

lemma is_tree_not_empty: "is_tree b3 z s n t \<Longrightarrow> t \<noteq> []"
  by (erule is_tree.cases) simp_all

text \<open>Hashing a group with the note zeroed is hashing the group of the zeroed output.\<close>

lemma fill_zero_nth:
  assumes "fill_zero a b xs = Some ys"
  shows "length ys = length xs" "a \<le> b" "b \<le> length xs"
    "i < length xs \<Longrightarrow> ys ! i = (if a \<le> i \<and> i < b then 0 else xs ! i)"
proof -
  have c: "copy_from_slice a b (replicate (b - a) 0) xs = Some ys" using assms by (simp add: fill_zero_def)
  show "length ys = length xs" using length_copy_from_slice [OF c] .
  show "a \<le> b" "b \<le> length xs" using c by (simp_all add: copy_from_slice_def split: if_split_asm)
  show "i < length xs \<Longrightarrow> ys ! i = (if a \<le> i \<and> i < b then 0 else xs ! i)"
    using nth_copy_from_slice [OF c, of i] by (auto split: if_split_asm)
qed

lemma fill_zero_Some: "a \<le> b \<Longrightarrow> b \<le> length xs \<Longrightarrow> \<exists>ys. fill_zero a b xs = Some ys"
  by (simp add: fill_zero_def copy_from_slice_def)

lemma leaf_hash_eq:
  assumes z: "fill_zero (fst zr) (snd zr) data = Some z" and le: "start + len \<le> length data"
  shows "build_id_leaf_hash b3 data start len zr = Some (hash_at b3 start (take len (drop start z)))"
proof (cases "intersect_ranges (start, start + len) zr")
  case None
  have "take len (drop start data) = take len (drop start z)"
    using None le fill_zero_nth [OF z] by (intro nth_equalityI) (auto simp: intersect_ranges_def Let_def split: if_splits)
  then show ?thesis using None le by (simp add: build_id_leaf_hash_def slice_range_def build_id_leaf_hash_bytes_def)
next
  case (Some ov)
  let ?chunk = "take len (drop start data)"
  have ov: "fst ov = max start (fst zr)" "snd ov = min (start + len) (snd zr)" "fst ov < snd ov"
    using Some by (auto simp: intersect_ranges_def Let_def split: if_splits)
  have "fst ov - start \<le> snd ov - start" "snd ov - start \<le> length ?chunk" using ov le by auto
  then obtain y where y: "fill_zero (fst ov - start) (snd ov - start) ?chunk = Some y"
    using fill_zero_Some by blast
  have "y = take len (drop start z)"
    using fill_zero_nth [OF y] fill_zero_nth [OF z] le ov by (intro nth_equalityI) auto
  then show ?thesis
    using Some le ov y by (simp add: build_id_leaf_hash_def slice_range_def build_id_leaf_hash_bytes_def usize_sub_def)
qed

text \<open>Building the tree returns, whatever the buffer held.\<close>

lemma subtree_hash_tree:
  assumes ok: "blake3_ok b3" and z: "fill_zero (fst zr) (snd zr) data = Some z"
  shows "0 < len \<Longrightarrow> start + len \<le> length data \<Longrightarrow> length tree = build_id_subtree_node_count b3 len \<Longrightarrow>
    \<exists>t. build_id_subtree_hash b3 data start len zr tree = Some (hd t, t) \<and> is_tree b3 z start len t"
proof (induction len arbitrary: start tree rule: less_induct)
  case (less len)
  show ?case
  proof (cases "len \<le> BUILD_ID_HASH_GROUP_LEN b3")
    case True
    then obtain x where "tree = [x]" using less.prems node_count_leaf [of len b3] by (auto simp: length_Suc_conv)
    then show ?thesis
      using True less.prems leaf_hash_eq [OF z] is_tree.leaf [of len b3 z start]
      by (auto simp: build_id_subtree_hash.simps set_at_def node_count_leaf)
  next
    case False
    let ?l = "left_subtree_len b3 len"
    have big: "BUILD_ID_HASH_GROUP_LEN b3 < len" using False by simp
    note ll = left_len [OF ok big]
    obtain x ch where ch: "tree = x # ch" "length ch = build_id_subtree_node_count b3 ?l + build_id_subtree_node_count b3 (len - ?l)"
      using less.prems node_count_node [OF ok big] by (auto simp: length_Suc_conv)
    obtain l where l: "build_id_subtree_hash b3 data start ?l zr (take (build_id_subtree_node_count b3 ?l) ch) = Some (hd l, l)" "is_tree b3 z start ?l l"
      using less.IH [of ?l start "take (build_id_subtree_node_count b3 ?l) ch"] ll less.prems ch by auto
    obtain r where r: "build_id_subtree_hash b3 data (start + ?l) (len - ?l) zr (drop (build_id_subtree_node_count b3 ?l) ch) = Some (hd r, r)"
        "is_tree b3 z (start + ?l) (len - ?l) r"
      using less.IH [of "len - ?l" "start + ?l" "drop (build_id_subtree_node_count b3 ?l) ch"] ll less.prems ch by auto
    have "build_id_subtree_hash b3 data start len zr tree = Some (merge_non_root b3 (hd l) (hd r), merge_non_root b3 (hd l) (hd r) # l @ r)"
      using less.prems(3) False ch ll(1) l(1) r(1)
      by (subst build_id_subtree_hash.simps) (simp add: Let_def usize_sub_def)
    then show ?thesis using is_tree.node [OF big l(2) r(2)] by (intro exI [of _ "merge_non_root b3 (hd l) (hd r) # l @ r"]) simp
  qed
qed

text \<open>The first entry is the BLAKE3 hash of the subtree.\<close>

lemma take_split: "n \<le> m \<Longrightarrow> take m xs = take n xs @ take (m - n) (drop n xs)"
  by (metis le_add_diff_inverse take_add)

lemma is_tree_hash:
  "is_tree b3 z s n t \<Longrightarrow> blake3_ok b3 \<Longrightarrow> s + n \<le> length z \<Longrightarrow> chunk_len b3 * 2 ^ k dvd s \<Longrightarrow> n \<le> chunk_len b3 * 2 ^ k \<Longrightarrow>
    hd t = hash_at b3 s (take n (drop s z))"
proof (induction arbitrary: k rule: is_tree.induct)
  case (leaf len start)
  show ?case by simp
next
  case (node len start l r)
  let ?l = "left_subtree_len b3 len"
  note ll = left_len [OF node.prems(1) node.hyps(1)]
  obtain j where j: "?l = chunk_len b3 * 2 ^ j" using ll(5) by blast
  have c: "0 < chunk_len b3" using node.prems(1) by (simp add: blake3_ok_def)
  have "chunk_len b3 * 2 ^ j < chunk_len b3 * 2 ^ k" using j ll(1) node.prems(4) by linarith
  then have "j < k" by (rule scaled_power_less)
  then have "?l dvd chunk_len b3 * 2 ^ k" unfolding j by (simp add: le_imp_power_dvd)
  then have d: "?l dvd start" using node.prems(3) dvd_trans by blast
  have hl: "hd l = hash_at b3 start (take ?l (drop start z))"
    using node.IH(1) [of j] node.prems(1,2) d j ll(1) by simp
  have hr: "hd r = hash_at b3 (start + ?l) (take (len - ?l) (drop ?l (drop start z)))"
    using node.IH(2) [of j] node.prems(1,2) d j ll(1,2) by (simp add: add.commute)
  let ?x = "take ?l (drop start z)" and ?y = "take (len - ?l) (drop ?l (drop start z))"
  have xy: "take len (drop start z) = ?x @ ?y" using ll(1) by (intro take_split) simp
  have len: "length ?x = ?l" "length (?x @ ?y) = len" using node.prems(2) ll(1) by auto
  have "hash_at b3 start (?x @ ?y) = merge_non_root b3 (hash_at b3 start ?x) (hash_at b3 (start + length ?x) ?y)"
    using node.prems(1,3,4) len group_less_chunk [OF node.hyps(1)] unfolding blake3_ok_def by metis
  then show ?case using hl hr xy len(1) by simp
qed

end
