(* ===== verification/Build_Id_Update.thy ===== *)
theory Build_Id_Update
  imports Build_Id_Tree
begin

text \<open>
  The build id of full links and of incremental updates: the updated tree is the one built from
  scratch, its root is the BLAKE3 hash of the output with its note zeroed, and what is stored is read
  back.
\<close>

subsection \<open>Updating\<close>

lemma is_tree_cong:
  assumes "is_tree b3 z s n t" and "blake3_ok b3" and "length z = length z'"
    and "\<And>p. s \<le> p \<Longrightarrow> p < s + n \<Longrightarrow> p < length z \<Longrightarrow> z ! p = z' ! p"
  shows "is_tree b3 z' s n t"
  using assms
proof (induction rule: is_tree.induct)
  case (leaf len start)
  have "take len (drop start z) = take len (drop start z')"
    using leaf.prems(2,3) by (intro nth_equalityI) auto
  then show ?case using is_tree.leaf [OF leaf.hyps, of z' start] by simp
next
  case (node len start l r)
  note ll = left_len(1,2) [OF node.prems(1) node.hyps(1)]
  show ?case
    using node.hyps(1) node.IH node.prems ll by (intro is_tree.node) simp_all
qed

lemma untouched:
  assumes "\<not> touched_chunks_overlap b3 chunks s n" and "s \<le> p" and "p < s + n"
  shows "p div BUILD_ID_HASH_GROUP_LEN b3 \<notin> set chunks"
proof
  assume "p div BUILD_ID_HASH_GROUP_LEN b3 \<in> set chunks"
  moreover have "s div BUILD_ID_HASH_GROUP_LEN b3 \<le> p div BUILD_ID_HASH_GROUP_LEN b3"
      "p div BUILD_ID_HASH_GROUP_LEN b3 \<le> (s + n - 1) div BUILD_ID_HASH_GROUP_LEN b3"
    using assms(2,3) by (intro div_le_mono; simp)+
  ultimately show False
    using assms by (auto simp: touched_chunks_overlap_def Let_def list_ex_iff)
qed

lemma get_mid: "n = length A \<Longrightarrow> t \<noteq> [] \<Longrightarrow> get_at (A @ t @ C) n = Some (hd t)"
  by (cases t) (simp_all add: get_at_def)

lemma set_mid: "n = length A \<Longrightarrow> set_at n v (A @ x # C) = Some (A @ v # C)"
  by (simp add: set_at_def)

lemma update_untouched:
  assumes "is_tree b3 z s n told" and "blake3_ok b3" and "length z = length z'"
    and "\<And>p. p < length z \<Longrightarrow> z ! p \<noteq> z' ! p \<Longrightarrow> p div BUILD_ID_HASH_GROUP_LEN b3 \<in> set chunks"
    and "\<not> touched_chunks_overlap b3 chunks s n"
  shows "\<exists>ch t. update_build_id_subtree_hash b3 (A @ told @ C) (length A) output s n zr chunks = Some (ch, A @ t @ C)
    \<and> is_tree b3 z' s n t \<and> (\<not> ch \<longrightarrow> t = told)"
proof -
  have "is_tree b3 z' s n told"
    using is_tree_cong [OF assms(1-3)] untouched [OF assms(5)] assms(4) by blast
  then show ?thesis
    using assms(5) by (intro exI [of _ False] exI [of _ told]) (simp add: update_build_id_subtree_hash.simps)
qed

lemma update_subtree:
  assumes "is_tree b3 z s n told" and "blake3_ok b3" and "fill_zero (fst zr) (snd zr) output = Some z'"
    and "length z = length z'" and "s + n \<le> length output"
    and "\<And>p. p < length z \<Longrightarrow> z ! p \<noteq> z' ! p \<Longrightarrow> p div BUILD_ID_HASH_GROUP_LEN b3 \<in> set chunks"
  shows "\<exists>ch t. update_build_id_subtree_hash b3 (A @ told @ C) (length A) output s n zr chunks = Some (ch, A @ t @ C)
    \<and> is_tree b3 z' s n t \<and> (\<not> ch \<longrightarrow> t = told)"
proof (cases "touched_chunks_overlap b3 chunks s n")
  case False
  then show ?thesis using update_untouched [OF assms(1,2,4) assms(6)] by blast
next
  case True
  with assms show ?thesis
  proof (induction arbitrary: A C rule: is_tree.induct)
    case (leaf len start)
    then show ?case
      using leaf_hash_eq [OF leaf.prems(2), of start len b3] is_tree.leaf [OF leaf.hyps, of z' start]
      by (intro exI [of _ True] exI [of _ "[hash_at b3 start (take len (drop start z'))]"], subst update_build_id_subtree_hash.simps) (simp add: set_mid [OF refl, of A, simplified])
  next
    case (node len start l r)
    let ?n = "left_subtree_len b3 len" and ?m = "merge_non_root b3 (hd l) (hd r)"
    note ll = left_len(1,2) [OF node.prems(1) node.hyps(1)]
    have any: "\<exists>ch t. update_build_id_subtree_hash b3 (A @ told @ C) (length A) output s k zr chunks = Some (ch, A @ t @ C)
        \<and> is_tree b3 z' s k t \<and> (\<not> ch \<longrightarrow> t = told)"
      if "is_tree b3 z s k told" and "touched_chunks_overlap b3 chunks s k \<Longrightarrow>
           \<exists>ch t. update_build_id_subtree_hash b3 (A @ told @ C) (length A) output s k zr chunks = Some (ch, A @ t @ C)
             \<and> is_tree b3 z' s k t \<and> (\<not> ch \<longrightarrow> t = told)" for A told C s k
    proof (cases "touched_chunks_overlap b3 chunks s k")
      case False
      then show ?thesis using update_untouched [OF that(1) node.prems(1,3) node.prems(5)] by blast
    qed (use that(2) in blast)
    have ls: "start + ?n \<le> length output" "start + ?n + (len - ?n) \<le> length output" using node.prems(4) ll by simp_all
    obtain lc l' where l': "update_build_id_subtree_hash b3 ((A @ [?m]) @ l @ r @ C) (length (A @ [?m])) output start ?n zr chunks
          = Some (lc, (A @ [?m]) @ l' @ r @ C)" "is_tree b3 z' start ?n l'" "\<not> lc \<Longrightarrow> l' = l"
      using any [OF node.hyps(2) node.IH(1) [OF node.prems(1-3) ls(1) node.prems(5)]] by blast
    obtain rc r' where r': "update_build_id_subtree_hash b3 ((A @ [?m] @ l') @ r @ C) (length (A @ [?m] @ l')) output (start + ?n) (len - ?n) zr chunks
          = Some (rc, (A @ [?m] @ l') @ r' @ C)" "is_tree b3 z' (start + ?n) (len - ?n) r'" "\<not> rc \<Longrightarrow> r' = r"
      using any [OF node.hyps(3) node.IH(2) [OF node.prems(1-3) ls(2) node.prems(5)]] by blast
    have ri: "length A + 1 + build_id_subtree_node_count b3 ?n = length (A @ [?m] @ l')"
      using is_tree_length [OF l'(2) node.prems(1)] by simp
    have u1: "update_build_id_subtree_hash b3 (A @ (?m # l @ r) @ C) (length A + 1) output start ?n zr chunks = Some (lc, (A @ [?m] @ l') @ r @ C)"
      using l'(1) by simp
    have u2: "update_build_id_subtree_hash b3 ((A @ [?m] @ l') @ r @ C) (length A + 1 + build_id_subtree_node_count b3 ?n) output (start + ?n) (len - ?n) zr chunks
          = Some (rc, A @ [?m] @ l' @ r' @ C)"
      using r'(1) unfolding ri by simp
    have g1: "get_at (A @ [?m] @ l' @ r' @ C) (length A + 1) = Some (hd l')"
      using get_mid [of "length A + 1" "A @ [?m]" l' "r' @ C"] is_tree_not_empty [OF l'(2)] by simp
    have g2: "get_at (A @ [?m] @ l' @ r' @ C) (length A + 1 + build_id_subtree_node_count b3 ?n) = Some (hd r')"
      unfolding ri using get_mid [of _ "A @ [?m] @ l'" r' C] is_tree_not_empty [OF r'(2)] by simp
    have st: "set_at (length A) x (A @ [?m] @ l' @ r' @ C) = Some (A @ (x # l' @ r') @ C)" for x
      using set_mid [of "length A" A] by simp
    have "update_build_id_subtree_hash b3 (A @ (?m # l @ r) @ C) (length A) output start len zr chunks
        = (if lc \<or> rc then Some (True, A @ (merge_non_root b3 (hd l') (hd r') # l' @ r') @ C) else Some (False, A @ (?m # l' @ r') @ C))"
      using node.prems(6) node.hyps(1) ll(1)
      by (subst update_build_id_subtree_hash.simps)
         (simp add: Let_def usize_sub_def u1 u2 g1 g2 st del: append_Cons append.simps append_assoc One_nat_def add_Suc_right)
    then show ?case
      using is_tree.node [OF node.hyps(1) l'(2) r'(2)] l'(3) r'(3)
      by (cases "lc \<or> rc") auto
  qed
qed

subsection \<open>Touched groups\<close>

lemma touched_chunks_of_ok:
  assumes "\<And>a b. (a, b) \<in> set ranges \<Longrightarrow> a \<le> b \<and> b \<le> n"
  shows "\<exists>cs. touched_chunks_of b3 n ranges = Inr cs
    \<and> (\<forall>(a, b) \<in> set ranges. \<forall>p. a \<le> p \<and> p < b \<longrightarrow> p div BUILD_ID_HASH_GROUP_LEN b3 \<in> set cs)"
  using assms
proof (induction ranges)
  case (Cons r ranges)
  obtain a b where r: "r = (a, b)" by (cases r)
  obtain cs where cs: "touched_chunks_of b3 n ranges = Inr cs"
    "\<forall>(a, b) \<in> set ranges. \<forall>p. a \<le> p \<and> p < b \<longrightarrow> p div BUILD_ID_HASH_GROUP_LEN b3 \<in> set cs"
    using Cons by auto
  have ab: "a \<le> b" "b \<le> n" using Cons.prems [of a b] r by auto
  have "p div BUILD_ID_HASH_GROUP_LEN b3 \<in> {a div BUILD_ID_HASH_GROUP_LEN b3 ..< Suc ((b - 1) div BUILD_ID_HASH_GROUP_LEN b3)}"
    if "a \<le> p" "p < b" for p
    using that div_le_mono [of a p] div_le_mono [of p "b - 1"] by (simp add: less_Suc_eq_le)
  then show ?case using cs ab unfolding r by (auto simp del: upt_Suc)
qed simp

lemma touched_build_id_chunks_ok:
  assumes "\<And>a b. (a, b) \<in> set ranges \<Longrightarrow> a \<le> b \<and> b \<le> n"
  shows "\<exists>cs. touched_build_id_chunks b3 ranges n = Inr cs
    \<and> (\<forall>(a, b) \<in> set ranges. \<forall>p. a \<le> p \<and> p < b \<longrightarrow> p div BUILD_ID_HASH_GROUP_LEN b3 \<in> set cs)"
proof -
  obtain cs where "touched_chunks_of b3 n ranges = Inr cs"
    and "\<forall>(a, b) \<in> set ranges. \<forall>p. a \<le> p \<and> p < b \<longrightarrow> p div BUILD_ID_HASH_GROUP_LEN b3 \<in> set cs"
    using touched_chunks_of_ok [of ranges n b3] assms by blast
  then show ?thesis by (simp add: touched_build_id_chunks_def)
qed

subsection \<open>The build id of a full link\<close>

lemma two_trees_form:
  assumes ok: "blake3_ok b3" and big: "BUILD_ID_HASH_GROUP_LEN b3 < length data"
    and z: "fill_zero (fst zr) (snd zr) data = Some z"
  defines "n \<equiv> left_subtree_len b3 (length data)"
  shows "\<exists>l r. build_id_hash_tree b3 data zr = Some (Some (l @ r)) \<and> is_tree b3 z 0 n l \<and> is_tree b3 z n (length data - n) r
    \<and> length l = build_id_subtree_node_count b3 n \<and> length r = build_id_subtree_node_count b3 (length data - n)"
proof -
  note ll = left_len [OF ok big, folded n_def]
  let ?c = "build_id_subtree_node_count b3 n + build_id_subtree_node_count b3 (length data - n)"
  let ?t = "replicate ?c (replicate (out_len b3) 0)"
  obtain l where l: "build_id_subtree_hash b3 data 0 n zr (take (build_id_subtree_node_count b3 n) ?t) = Some (hd l, l)" "is_tree b3 z 0 n l"
    using subtree_hash_tree [OF ok z, of n 0 "take (build_id_subtree_node_count b3 n) ?t"] ll by auto
  obtain r where r: "build_id_subtree_hash b3 data n (length data - n) zr (drop (build_id_subtree_node_count b3 n) ?t) = Some (hd r, r)"
      "is_tree b3 z n (length data - n) r"
    using subtree_hash_tree [OF ok z, of "length data - n" n "drop (build_id_subtree_node_count b3 n) ?t"] ll by auto
  have "build_id_hash_tree b3 data zr = Some (Some (l @ r))"
    using big ll(1) l(1) r(1) by (simp add: build_id_hash_tree_def build_id_hash_node_count_def Let_def n_def [symmetric] usize_sub_def)
  then show ?thesis using l(2) r(2) is_tree_length [OF _ ok] by blast
qed

lemma root_of_two_trees:
  assumes ok: "blake3_ok b3" and big: "BUILD_ID_HASH_GROUP_LEN b3 < length z"
  defines "n \<equiv> left_subtree_len b3 (length z)"
  assumes l: "is_tree b3 z 0 n l" and r: "is_tree b3 z n (length z - n) r"
    and st: "output_len st = length z" "nodes st = length l + length r"
  shows "build_id_from_hash_tree b3 st (l @ r) = Some (Inr (hash_all b3 z))"
proof -
  note ll = left_len [OF ok big, folded n_def]
  obtain k where k: "n = chunk_len b3 * 2 ^ k" using ll(5) by blast
  have hl: "hd l = hash_at b3 0 (take n z)" using is_tree_hash [OF l ok, of k] ll(1) k by simp
  have hr: "hd r = hash_at b3 n (drop n z)" using is_tree_hash [OF r ok, of k] ll(1,2) k by simp
  have "chunk_len b3 < length (take n z @ drop n z)" "length (take n z) = left_subtree_len b3 (length (take n z @ drop n z))"
    using group_less_chunk [OF big] ll(1) by (simp_all add: n_def)
  then have "hash_all b3 (take n z @ drop n z) = merge_root b3 (hash_at b3 0 (take n z)) (hash_at b3 (length (take n z)) (drop n z))"
    using ok unfolding blake3_ok_def by blast
  then have "hash_all b3 z = merge_root b3 (hd l) (hd r)" using hl hr ll(1) by simp
  then show ?thesis
    using big ll(1) is_tree_length [OF l ok] is_tree_length [OF r ok] st get_mid [of 0 "[]" l r] get_mid [of "length l" l r "[]"]
      is_tree_not_empty [OF l] is_tree_not_empty [OF r]
    by (simp add: build_id_from_hash_tree_def build_id_hash_node_count_def Let_def n_def [symmetric] usize_sub_def)
qed

lemma full_link_form:
  assumes "blake3_ok b3" and "BUILD_ID_HASH_GROUP_LEN b3 < length data"
    and "fill_zero (fst rng) (snd rng) data = Some z" and "validate_fast_build_id_range b3 rng = Inr u"
  shows "\<exists>tree. build_id_hash_tree b3 data rng = Some (Some tree)
    \<and> compute_fast_build_id_and_prepare_state b3 (Some rng) False data =
       Some (Inr (Some (hash_all b3 z, \<lparr>output_len = length data, nodes = length tree, tree_hash = Some (build_id_hash_tree_hash b3 tree)\<rparr>, tree)))"
proof -
  have lz: "length z = length data" using fill_zero_nth(1) [OF assms(3)] .
  obtain l r where t: "build_id_hash_tree b3 data rng = Some (Some (l @ r))"
    and "is_tree b3 z 0 (left_subtree_len b3 (length z)) l"
      "is_tree b3 z (left_subtree_len b3 (length z)) (length z - left_subtree_len b3 (length z)) r"
    using two_trees_form [OF assms(1-3)] lz by auto
  then have "build_id_from_hash_tree b3 st (l @ r) = Some (Inr (hash_all b3 z))"
    if "output_len st = length z" "nodes st = length l + length r" for st
    using root_of_two_trees [OF assms(1), of z l r st] assms(2) lz that by simp
  then show ?thesis
    using t assms(4) lz by (auto simp: compute_fast_build_id_and_prepare_state_def Let_def)
qed

text \<open>
  The build id of a full link is the same with and without incremental linking: the root of the
  group tree is the BLAKE3 hash of the whole output, whose note is still zero at that point.
\<close>

lemma compute_hash_mode_irrelevant:
  assumes "blake3_ok b3"
    and "fill_zero (fst rng) (snd rng) output = Some output" and "validate_fast_build_id_range b3 rng = Inr ()"
  shows "compute_hash b3 (Some rng) False output = Some (Inr (hash_all b3 output))
    \<and> compute_hash b3 (Some rng) True output = Some (Inr (hash_all b3 output))"
proof (cases "BUILD_ID_HASH_GROUP_LEN b3 < length output")
  case True
  then show ?thesis
    using full_link_form [OF assms(1) True assms(2,3)] by (auto simp: compute_hash_def compute_fast_build_id_and_prepare_state_def)
next
  case False
  then have "build_id_hash_tree b3 output rng = Some None"
    by (simp add: build_id_hash_tree_def build_id_hash_node_count_def)
  then show ?thesis
    using assms(3) by (simp add: compute_hash_def compute_fast_build_id_and_prepare_state_def)
qed

subsection \<open>The build id of an incremental update\<close>

text \<open>The bytes of the note.\<close>

definition build_id_note :: "(string \<Rightarrow> u32) \<Rightarrow> blake3 \<Rightarrow> bytes \<Rightarrow> bytes" where
  "build_id_note elf b3 build_id =
     to_le_bytes 4 (4 :: u32) @ to_le_bytes 4 (of_nat (out_len b3) :: u32) @ to_le_bytes 4 (elf ''NT_GNU_BUILD_ID'') @ GNU_NOTE_NAME @ build_id"

lemma write_note_eq:
  assumes "fst rng + (16 + out_len b3) = snd rng" and "snd rng \<le> length output" and "length build_id = out_len b3"
  shows "write_fast_build_id_note elf b3 output rng build_id
    = Some (take (fst rng) output @ build_id_note elf b3 build_id @ drop (snd rng) output)"
proof -
  define nt where "nt = take (16 + out_len b3) (drop (fst rng) output)"
  have len: "length nt = 16 + out_len b3" using assms by (simp add: nt_def)
  have sl: "slice_range (fst rng) (snd rng) output = Some nt"
    using assms by (auto simp: slice_range_def nt_def simp flip: assms(1))
  have w: "copy_from_slice a b x (A @ y) = Some (A @ x @ drop (b - a) y)"
    if "a = length A" "a \<le> b" "b \<le> a + length y" "length x = b - a" for a b and x A y :: bytes
    using that by (simp add: copy_from_slice_def)
  have "copy_from_slice 0 4 x nt = Some (x @ drop 4 nt)" if "length x = 4" for x
    using w [of 0 "[]" 4 nt x] that len by simp
  moreover have "copy_from_slice 4 8 y (x @ drop 4 nt) = Some ((x @ y) @ drop 8 nt)" if "length x = 4" "length y = 4" for x y
    using w [of 4 x 8 "drop 4 nt" y] that len by simp
  moreover have "copy_from_slice 8 12 y (x @ drop 8 nt) = Some ((x @ y) @ drop 12 nt)" if "length x = 8" "length y = 4" for x y
    using w [of 8 x 12 "drop 8 nt" y] that len by simp
  moreover have "copy_from_slice 12 16 y (x @ drop 12 nt) = Some ((x @ y) @ drop 16 nt)" if "length x = 12" "length y = 4" for x y
    using w [of 12 x 16 "drop 12 nt" y] that len by simp
  moreover have "copy_from_slice 16 (length (x @ drop 16 nt)) build_id (x @ drop 16 nt) = Some (x @ build_id)" if "length x = 16" for x
    using w [of 16 x "16 + out_len b3" "drop 16 nt" build_id] that len assms(3) by simp
  ultimately show ?thesis
    using assms
    by (simp add: write_fast_build_id_note_def sl GNU_NOTE_NAME_def build_id_note_def copy_from_slice_def [of "fst rng"]
        del: append_assoc)
qed

lemma validate_iff: "validate_fast_build_id_range b3 rng = Inr u \<longleftrightarrow> usize_sub (snd rng) (fst rng) = 16 + out_len b3"
  by (auto simp: validate_fast_build_id_range_def GNU_NOTE_NAME_def)

lemma fill_zero_idem:
  assumes "fill_zero a b xs = Some z"
  shows "fill_zero a b z = Some z"
proof -
  note zs = fill_zero_nth [OF assms]
  obtain y where y: "fill_zero a b z = Some y" using fill_zero_Some zs(1-3) by metis
  moreover have "y = z" using fill_zero_nth [OF y] zs by (intro nth_equalityI) auto
  ultimately show ?thesis by simp
qed

lemma fill_zero_refill:
  assumes z: "fill_zero a b xs = Some z" and n: "length n = b - a"
  shows "fill_zero a b (take a z @ n @ drop b z) = Some z"
proof -
  let ?out = "take a z @ n @ drop b z"
  note zs = fill_zero_nth [OF z]
  have lo: "length ?out = length z" using n zs(1-3) by simp
  then obtain y where y: "fill_zero a b ?out = Some y" using fill_zero_Some zs(1-3) by metis
  have "y = z" using fill_zero_nth [OF y] zs lo n by (intro nth_equalityI) (auto simp: nth_append)
  with y show ?thesis by simp
qed

text \<open>The tree depends on the zeroed content only, and its roots give the hash.\<close>

lemma tree_of_zeroed:
  assumes "blake3_ok b3" and "BUILD_ID_HASH_GROUP_LEN b3 < length data" and z: "fill_zero (fst zr) (snd zr) data = Some z"
  shows "build_id_hash_tree b3 data zr = build_id_hash_tree b3 z zr"
proof -
  have lz: "length z = length data" using fill_zero_nth(1) [OF z] .
  show ?thesis
    using two_trees_form [OF assms(1,2) z] two_trees_form [OF assms(1) _ fill_zero_idem [OF z], unfolded lz, OF assms(2)] is_tree_det
    by metis
qed

lemma root_of_tree:
  assumes ok: "blake3_ok b3" and t: "build_id_hash_tree b3 z zr = Some (Some tree)" and z: "fill_zero (fst zr) (snd zr) z = Some z"
    and st: "output_len st = length z" "nodes st = length tree"
  shows "build_id_from_hash_tree b3 st tree = Some (Inr (hash_all b3 z))"
proof -
  have big: "BUILD_ID_HASH_GROUP_LEN b3 < length z"
    using t by (auto simp: build_id_hash_tree_def build_id_hash_node_count_def split: if_split_asm)
  show ?thesis using two_trees_form [OF ok big z] root_of_two_trees [OF ok big, of _ _ st] t st by auto
qed

lemma tree_length:
  assumes "blake3_ok b3" and "build_id_hash_tree b3 data zr = Some (Some tree)" and "fill_zero (fst zr) (snd zr) data = Some z"
  shows "build_id_hash_node_count b3 (length data) = Some (length tree)" "BUILD_ID_HASH_GROUP_LEN b3 < length data"
proof -
  show big: "BUILD_ID_HASH_GROUP_LEN b3 < length data"
    using assms(2) by (auto simp: build_id_hash_tree_def build_id_hash_node_count_def split: if_split_asm)
  show "build_id_hash_node_count b3 (length data) = Some (length tree)"
    using two_trees_form [OF assms(1) big assms(3)] assms(2) left_len(1) [OF assms(1) big] big
    by (auto simp: build_id_hash_node_count_def Let_def usize_sub_def)
qed

text \<open>The updated tree is the one built from scratch.\<close>

lemma update_tree_correct:
  assumes ok: "blake3_ok b3" and old: "build_id_hash_tree b3 zo zr = Some (Some tree)" "fill_zero (fst zr) (snd zr) zo = Some zo"
    and z: "fill_zero (fst zr) (snd zr) z = Some z" and len: "length zo = length z"
    and touched: "\<And>p. p < length zo \<Longrightarrow> zo ! p \<noteq> z ! p \<Longrightarrow> p div BUILD_ID_HASH_GROUP_LEN b3 \<in> set cs"
    and st: "output_len st = length z" "nodes st = length tree"
  shows "\<exists>tree'. update_build_id_hash_tree b3 st tree z zr cs = Some (Some (st\<lparr>tree_hash := Some (build_id_hash_tree_hash b3 tree')\<rparr>, tree'))
    \<and> build_id_hash_tree b3 z zr = Some (Some tree')"
proof -
  note count = tree_length [OF ok old]
  let ?n = "left_subtree_len b3 (length z)"
  have big: "BUILD_ID_HASH_GROUP_LEN b3 < length z" using count(2) len by simp
  note ll = left_len(1) [OF ok big]
  obtain l r where lr: "tree = l @ r" "is_tree b3 zo 0 ?n l" "is_tree b3 zo ?n (length z - ?n) r"
    using two_trees_form [OF ok count(2) old(2)] old(1) len by auto
  obtain lc l' where l': "update_build_id_subtree_hash b3 (l @ r) 0 z 0 ?n zr cs = Some (lc, l' @ r)" "is_tree b3 z 0 ?n l'"
    using update_subtree [OF lr(2) ok z len, of cs "[]" r] touched ll by auto
  obtain rc r' where r': "update_build_id_subtree_hash b3 (l' @ r) (length l') z ?n (length z - ?n) zr cs = Some (rc, l' @ r')"
      "is_tree b3 z ?n (length z - ?n) r'"
    using update_subtree [OF lr(3) ok z len, of cs l' "[]"] touched ll by auto
  have "update_build_id_hash_tree b3 st tree z zr cs = Some (Some (st\<lparr>tree_hash := Some (build_id_hash_tree_hash b3 (l' @ r'))\<rparr>, l' @ r'))"
    using big st len lr(1) l'(1) r'(1) ll count(1)
    by (simp add: update_build_id_hash_tree_def Let_def usize_sub_def is_tree_length [OF l'(2) ok, symmetric])
  moreover have "build_id_hash_tree b3 z zr = Some (Some (l' @ r'))"
    using two_trees_form [OF ok big z] is_tree_det [OF l'(2)] is_tree_det [OF r'(2)] by auto
  ultimately show ?thesis by blast
qed

text \<open>The groups that are hashed again contain every changed byte.\<close>

lemma changed_bytes_touched:
  assumes "fill_zero a b old = Some zo" and "fill_zero a b output = Some z" and "length old = length output"
    and ranges: "\<forall>(a, b) \<in> set changed_ranges. a \<le> b \<and> b \<le> length output"
    and only: "\<forall>p \<in> {..<length output}. old ! p \<noteq> output ! p \<longrightarrow> p \<in> {a..<b} \<or> (\<exists>(a, b) \<in> set changed_ranges. a \<le> p \<and> p < b)"
  shows "\<exists>cs. touched_build_id_chunks b3 (changed_ranges @ [(a, b)]) (length z) = Inr cs
    \<and> (\<forall>p < length zo. zo ! p \<noteq> z ! p \<longrightarrow> p div BUILD_ID_HASH_GROUP_LEN b3 \<in> set cs)"
proof -
  note zs = fill_zero_nth [OF assms(2)] and zos = fill_zero_nth [OF assms(1)]
  obtain cs where cs: "touched_build_id_chunks b3 (changed_ranges @ [(a, b)]) (length z) = Inr cs"
    and in_cs: "\<forall>(a, b) \<in> set (changed_ranges @ [(a, b)]). \<forall>p. a \<le> p \<and> p < b \<longrightarrow> p div BUILD_ID_HASH_GROUP_LEN b3 \<in> set cs"
    using touched_build_id_chunks_ok [of "changed_ranges @ [(a, b)]" "length z" b3] ranges zs(1-3) by fastforce
  have "p div BUILD_ID_HASH_GROUP_LEN b3 \<in> set cs" if p: "p < length zo" "zo ! p \<noteq> z ! p" for p
  proof -
    have "p \<notin> {a..<b}" "old ! p \<noteq> output ! p" "p \<in> {..<length output}"
      using p zs(4) [of p] zos(4) [of p] zos(1) assms(3) by (auto split: if_split_asm)
    then obtain c d where "(c, d) \<in> set changed_ranges" "c \<le> p" "p < d" using only by blast
    then show ?thesis using in_cs by auto
  qed
  then show ?thesis using cs by blast
qed

text \<open>
  C5. Incremental patching and the build id: take an output whose group tree is the one of a full
  link, change bytes inside the given ranges only, and let the update run. It returns; the note then
  holds the BLAKE3 hash of the new output with its note zeroed, the bytes outside the note stay, and
  hash, recorded state and tree are those that a full link of the same output would give.
\<close>

theorem incremental_build_id_correct:
  assumes ok: "blake3_ok b3" and val: "a + (16 + out_len b3) = b" and rng: "b \<le> length output"
    and old: "build_id_hash_tree b3 old (a, b) = Some (Some tree)" "length old = length output"
    and st: "output_len state = length old" "nodes state = length tree"
    and ranges: "\<forall>(a, b) \<in> set changed_ranges. a \<le> b \<and> b \<le> length output"
    and only: "\<forall>p \<in> {..<length output}. old ! p \<noteq> output ! p \<longrightarrow> p \<in> {a..<b} \<or> (\<exists>(a, b) \<in> set changed_ranges. a \<le> p \<and> p < b)"
  shows "\<exists>out z state' tree'. write_fast_build_id_from_state elf b3 output (a, b) state tree changed_ranges = Some (Inr (out, state', tree'))
    \<and> fill_zero a b output = Some z \<and> fill_zero a b out = Some z
    \<and> slice_range a b out = Some (build_id_note elf b3 (hash_all b3 z))
    \<and> compute_fast_build_id_and_prepare_state b3 (Some (a, b)) False out = Some (Inr (Some (hash_all b3 z, state', tree')))"
proof -
  have v: "validate_fast_build_id_range b3 (a, b) = Inr ()" using val by (simp add: validate_iff usize_sub_def)
  obtain z where z: "fill_zero a b output = Some z" using fill_zero_Some val rng by (metis le_add1)
  obtain zo where zo: "fill_zero a b old = Some zo" using fill_zero_Some val rng old(2) by (metis le_add1)
  note zs = fill_zero_nth [OF z] and zz = fill_zero_idem [OF z] and lzo = fill_zero_nth(1) [OF zo]
  have big: "BUILD_ID_HASH_GROUP_LEN b3 < length z" using tree_length [OF ok old(1)] zo zs(1) old(2) by simp
  have told: "build_id_hash_tree b3 zo (a, b) = Some (Some tree)"
    using tree_of_zeroed [OF ok, of old "(a, b)" zo] big zs(1) old zo by simp
  obtain cs where cs: "touched_build_id_chunks b3 (changed_ranges @ [(a, b)]) (length z) = Inr cs"
    and touched: "\<And>p. p < length zo \<Longrightarrow> zo ! p \<noteq> z ! p \<Longrightarrow> p div BUILD_ID_HASH_GROUP_LEN b3 \<in> set cs"
    using changed_bytes_touched [OF zo z old(2) ranges only] by blast
  obtain tree' where up: "update_build_id_hash_tree b3 state tree z (a, b) cs
      = Some (Some (state\<lparr>tree_hash := Some (build_id_hash_tree_hash b3 tree')\<rparr>, tree'))"
    and new: "build_id_hash_tree b3 z (a, b) = Some (Some tree')"
    using update_tree_correct [OF ok told, of z cs state] fill_zero_idem [OF zo] zz lzo old(2) zs(1) touched st by auto
  let ?st = "state\<lparr>tree_hash := Some (build_id_hash_tree_hash b3 tree')\<rparr>"
  have "build_id_hash_node_count b3 (length z) = Some (length tree')" "build_id_hash_node_count b3 (length z) = Some (length tree)"
    using tree_length(1) [OF ok new, of z] tree_length(1) [OF ok told, of zo] zz fill_zero_idem [OF zo] lzo zs(1) old(2) by simp_all
  then have st': "?st = \<lparr>output_len = length z, nodes = length tree', tree_hash = Some (build_id_hash_tree_hash b3 tree')\<rparr>"
    using st old(2) zs(1) by simp
  have root: "build_id_from_hash_tree b3 ?st tree' = Some (Inr (hash_all b3 z))"
    using root_of_tree [OF ok new, of ?st] zz st' by simp
  let ?note = "build_id_note elf b3 (hash_all b3 z)"
  let ?out = "take a z @ ?note @ drop b z"
  have hl: "length (hash_all b3 z) = out_len b3" using ok by (simp add: blake3_ok_def)
  then have nl: "length ?note = b - a" using val by (simp add: build_id_note_def GNU_NOTE_NAME_def)
  have run: "write_fast_build_id_from_state elf b3 output (a, b) state tree changed_ranges = Some (Inr (?out, ?st, tree'))"
    using write_note_eq [of "(a, b)" b3 z "hash_all b3 z" elf] val rng zs(1) hl
    by (simp add: write_fast_build_id_from_state_def v z cs [unfolded zs(1)] up root)
  note yz = fill_zero_refill [OF z nl] and lo = fill_zero_nth(1) [OF fill_zero_refill [OF z nl], symmetric]
  have "compute_fast_build_id_and_prepare_state b3 (Some (a, b)) False ?out = Some (Inr (Some (hash_all b3 z, ?st, tree')))"
    using full_link_form [OF ok, of ?out "(a, b)" z] tree_of_zeroed [OF ok, of ?out "(a, b)" z] big lo yz v new st' by auto
  moreover have "slice_range a b ?out = Some ?note" using nl zs(1-3) by (simp add: slice_range_def)
  ultimately show ?thesis using run z yz by blast
qed

subsection \<open>The stored tree\<close>

lemma chunks_exact_concat:
  assumes "\<And>x. x \<in> set xs \<Longrightarrow> length x = n"
  shows "chunks_exact n (length xs) (concat xs) = xs"
  using assms by (induction xs) simp_all

lemma is_tree_node_length:
  "is_tree b3 z s n t \<Longrightarrow> blake3_ok b3 \<Longrightarrow> x \<in> set t \<Longrightarrow> length x = out_len b3"
  by (induction rule: is_tree.induct) (auto simp: blake3_ok_def)

text \<open>
  What a link stores is read back: the tree it wrote passes the checks of the next run, for the
  state it recorded.
\<close>

lemma build_id_store_roundtrip:
  assumes "blake3_ok b3"
    and "compute_fast_build_id_and_prepare_state b3 (Some (a, b)) False output = Some (Inr (Some (build_id, state, tree)))"
    and "a \<le> b" and "b \<le> length output"
  shows "read_build_id_hash_tree b3 state (write_build_id_hash_tree (Some tree)) = Inr tree"
proof -
  obtain z where z: "fill_zero a b output = Some z" using fill_zero_Some assms(3,4) by blast
  have t: "build_id_hash_tree b3 output (a, b) = Some (Some tree)"
    and st: "state = \<lparr>output_len = length output, nodes = length tree, tree_hash = Some (build_id_hash_tree_hash b3 tree)\<rparr>"
    using assms(2)
    by (auto simp: compute_fast_build_id_and_prepare_state_def Let_def map_sum_def
        split: sum.split_asm Option.bind_split_asm option.split_asm)
  note len = tree_length [OF assms(1) t, of z]
  have n: "length x = out_len b3" if "x \<in> set tree" for x
    using two_trees_form [OF assms(1) len(2), of "(a, b)" z] z t that is_tree_node_length [OF _ assms(1)] by auto
  then have lc: "length (concat tree) = length tree * out_len b3"
    by (induction tree) simp_all
  moreover have "0 < out_len b3" using assms(1) by (simp add: blake3_ok_def)
  ultimately show ?thesis
    using len z n by (simp add: read_build_id_hash_tree_def write_build_id_hash_tree_def st chunks_exact_concat)
qed

subsection \<open>Examples\<close>

text \<open>A hash with the laws: the sum of the bytes, in chunks of one byte.\<close>

fun pow2_below :: "nat \<Rightarrow> nat" where
  "pow2_below n = (if n \<le> 2 then 1 else 2 * pow2_below ((n + 1) div 2))"

declare pow2_below.simps [simp del]

lemma pow2_below: "1 < n \<Longrightarrow> (\<exists>k. pow2_below n = 2 ^ k) \<and> pow2_below n < n \<and> n \<le> 2 * pow2_below n"
proof (induction n rule: pow2_below.induct)
  case (1 n)
  show ?case
  proof (cases "n \<le> 2")
    case True
    then show ?thesis using 1(2) by (auto simp: pow2_below.simps [of n] intro: exI [of _ 0])
  next
    case False
    then obtain k where k: "pow2_below ((n + 1) div 2) = 2 ^ k" "2 ^ k < (n + 1) div 2" "(n + 1) div 2 \<le> 2 * 2 ^ k"
      using 1(1) False by (cases "1 < (n + 1) div 2") (auto simp: div_le_mono)
    then have "2 * 2 ^ k < n" "n \<le> 2 * (2 * 2 ^ k)" by linarith+
    moreover have "pow2_below n = 2 ^ Suc k" using False k(1) by (simp add: pow2_below.simps [of n])
    ultimately show ?thesis by (metis power_Suc)
  qed
qed

definition sum_b3 :: blake3 where
  "sum_b3 = \<lparr>chunk_len = 1, out_len = 1, left_subtree_len = pow2_below, hash_at = \<lambda>s x. [sum_list x],
     merge_non_root = \<lambda>x y. [hd x + hd y], merge_root = \<lambda>x y. [hd x + hd y], hash_all = \<lambda>x. [sum_list x], to_hex = \<lambda>x. []\<rparr>"

lemma sum_b3_ok: "blake3_ok sum_b3"
proof -
  have "\<exists>k. left_subtree_len sum_b3 n = chunk_len sum_b3 * 2 ^ k \<and> left_subtree_len sum_b3 n < n \<and> n \<le> 2 * left_subtree_len sum_b3 n"
    if "1 < n" for n
    using pow2_below [OF that] by (auto simp: sum_b3_def)
  then show ?thesis by (simp add: blake3_ok_def sum_b3_def)
qed

definition sample_output :: bytes where
  "sample_output = replicate 10 1 @ replicate 17 0 @ replicate 60 2"

lemma compute_hash_mode_irrelevant_witness:
  "compute_hash sum_b3 (Some (10, 27)) False sample_output = Some (Inr (hash_all sum_b3 sample_output))
   \<and> compute_hash sum_b3 (Some (10, 27)) True sample_output = Some (Inr (hash_all sum_b3 sample_output))"
  by (rule compute_hash_mode_irrelevant [OF sum_b3_ok])
     (simp_all add: sample_output_def fill_zero_def copy_from_slice_def validate_iff usize_sub_def sum_b3_def)

lemma build_id_store_roundtrip_witness:
  "read_build_id_hash_tree sum_b3 \<lparr>output_len = 87, nodes = 2, tree_hash = Some []\<rparr> (write_build_id_hash_tree (Some [[84], [46]])) = Inr [[84], [46]]"
proof -
  have "compute_fast_build_id_and_prepare_state sum_b3 (Some (10, 27)) False sample_output
      = Some (Inr (Some ([130], \<lparr>output_len = 87, nodes = 2, tree_hash = Some []\<rparr>, [[84], [46]])))"
    by code_simp
  from build_id_store_roundtrip [OF sum_b3_ok this] show ?thesis by (simp add: sample_output_def)
qed

lemma sample_tree: "build_id_hash_tree sum_b3 sample_output (10, 27) = Some (Some [[84], [46]])"
  by code_simp

theorem incremental_build_id_correct_witness:
  "\<exists>out z state' tree'. write_fast_build_id_from_state (\<lambda>_. 3) sum_b3 (sample_output[5 := 7]) (10, 27)
       \<lparr>output_len = 87, nodes = 2, tree_hash = None\<rparr> [[84], [46]] [(4, 6)] = Some (Inr (out, state', tree'))
    \<and> fill_zero 10 27 (sample_output[5 := 7]) = Some z \<and> fill_zero 10 27 out = Some z
    \<and> slice_range 10 27 out = Some (build_id_note (\<lambda>_. 3) sum_b3 (hash_all sum_b3 z))
    \<and> compute_fast_build_id_and_prepare_state sum_b3 (Some (10, 27)) False out = Some (Inr (Some (hash_all sum_b3 z, state', tree')))"
proof -
  have "length sample_output = 87" by (simp add: sample_output_def)
  then show ?thesis
    by (intro incremental_build_id_correct [OF sum_b3_ok, where old = sample_output and tree = "[[84], [46]]"])
       (auto simp: sample_tree nth_list_update, simp add: sum_b3_def)
qed

end
