(* ===== verification/State_Index.thy ===== *)
theory State_Index
  imports State_Roundtrip Build_Id_Update
begin

text \<open>
  The index of the state of an incremental link, from \<^verbatim>\<open>libsld/src/incremental.rs\<close>: file identities,
  contents and patch state of the inputs, the whole \<^verbatim>\<open>PersistedState\<close>, and the small metadata update that
  replaces a rewrite of the index. Reading a file is an argument. The crate \<^verbatim>\<open>hex\<close> is the parameter \<open>hex\<close>;
  \<open>hex_ok\<close> is what it documents.
\<close>

record hex_codec =
  hex_encode :: "string \<Rightarrow> string"
  hex_decode :: "string \<Rightarrow> string option"

text \<open>\<^verbatim>\<open>String::from_utf8\<close> accepts well-formed UTF-8.\<close>

definition byte_in :: "nat \<Rightarrow> nat \<Rightarrow> char \<Rightarrow> bool" where
  "byte_in lo hi c \<longleftrightarrow> lo \<le> of_char c \<and> of_char c \<le> hi"

abbreviation cont_byte :: "char \<Rightarrow> bool" where
  "cont_byte \<equiv> byte_in 0x80 0xBF"

text \<open>The length of the well-formed sequence at the start, 0 if there is none.\<close>

definition utf8_step :: "string \<Rightarrow> nat" where
  "utf8_step cs =
     (case cs of
        [] \<Rightarrow> 0
      | a # r \<Rightarrow>
          if byte_in 0 0x7F a then 1
          else (case r of
            [] \<Rightarrow> 0
          | b # r \<Rightarrow>
              if byte_in 0xC2 0xDF a \<and> cont_byte b then 2
              else (case r of
                [] \<Rightarrow> 0
              | c # r \<Rightarrow>
                  if (byte_in 0xE0 0xE0 a \<and> byte_in 0xA0 0xBF b \<or> byte_in 0xE1 0xEC a \<and> cont_byte b
                      \<or> byte_in 0xED 0xED a \<and> byte_in 0x80 0x9F b \<or> byte_in 0xEE 0xEF a \<and> cont_byte b) \<and> cont_byte c then 3
                  else (case r of
                    [] \<Rightarrow> 0
                  | d # r \<Rightarrow>
                      if (byte_in 0xF0 0xF0 a \<and> byte_in 0x90 0xBF b \<or> byte_in 0xF1 0xF3 a \<and> cont_byte b
                          \<or> byte_in 0xF4 0xF4 a \<and> byte_in 0x80 0x8F b) \<and> cont_byte c \<and> cont_byte d then 4
                      else 0))))"

function utf8_valid :: "string \<Rightarrow> bool" where
  "utf8_valid cs = (if cs = [] then True else if utf8_step cs = 0 then False else utf8_valid (drop (utf8_step cs) cs))"
  by pat_completeness auto
termination
  by (relation "measure length") (auto simp: neq_Nil_conv)

declare utf8_valid.simps [simp del]

subsection \<open>File identities\<close>

record file_identity =
  fi_len :: u64
  fi_dev :: u64
  fi_ino :: u64
  fi_modified_sec :: i64
  fi_modified_nsec :: i64
  fi_changed_sec :: i64
  fi_changed_nsec :: i64

definition timestamp_on_or_after :: "i64 \<Rightarrow> i64 \<Rightarrow> i64 \<Rightarrow> i64 \<Rightarrow> bool" where
  "timestamp_on_or_after sec nsec lower_sec lower_nsec \<longleftrightarrow> sint lower_sec \<le> sint sec"

definition modified_on_or_after :: "file_identity \<Rightarrow> file_identity \<Rightarrow> bool" where
  "modified_on_or_after i lower =
     timestamp_on_or_after (fi_modified_sec i) (fi_modified_nsec i) (fi_modified_sec lower) (fi_modified_nsec lower)"

definition may_have_changed_since :: "file_identity \<Rightarrow> file_identity \<Rightarrow> bool" where
  "may_have_changed_since i lower \<longleftrightarrow>
     modified_on_or_after i lower
     \<or> timestamp_on_or_after (fi_changed_sec i) (fi_changed_nsec i) (fi_modified_sec lower) (fi_modified_nsec lower)"

definition identity_render :: "file_identity \<Rightarrow> string" where
  "identity_render i =
     join_with CHR '':'' [show_word (fi_len i), show_word (fi_dev i), show_word (fi_ino i), show_sword (fi_modified_sec i),
       show_sword (fi_modified_nsec i), show_sword (fi_changed_sec i), show_sword (fi_changed_nsec i)]"

abbreviation identity_field :: "string \<Rightarrow> string" where
  "identity_field f \<equiv> ''Malformed incremental file identity `'' @ f @ ''`''"

definition identity_parse :: "string \<Rightarrow> file_identity option res" where
  "identity_parse value =
     (if value = ''-'' then Inr None
      else
        res_bind (next_number (identity_field ''len'') ''Invalid incremental file identity length'' parse_word (split_on CHR '':'' value)) (\<lambda>(len, parts).
        res_bind (next_number (identity_field ''dev'') ''Invalid incremental file identity device'' parse_word parts) (\<lambda>(dev, parts).
        res_bind (next_number (identity_field ''ino'') ''Invalid incremental file identity inode'' parse_word parts) (\<lambda>(ino, parts).
        res_bind (next_number (identity_field ''mtime'') ''Invalid incremental file identity mtime'' parse_sword parts) (\<lambda>(mtime, parts).
        res_bind (next_number (identity_field ''mtime_nsec'') ''Invalid incremental file identity mtime_nsec'' parse_sword parts) (\<lambda>(mtime_nsec, parts).
        res_bind (next_number (identity_field ''ctime'') ''Invalid incremental file identity ctime'' parse_sword parts) (\<lambda>(ctime, parts).
        res_bind (next_number (identity_field ''ctime_nsec'') ''Invalid incremental file identity ctime_nsec'' parse_sword parts) (\<lambda>(ctime_nsec, parts).
        if parts \<noteq> [] then Inl ''Malformed incremental file identity''
        else Inr (Some \<lparr>fi_len = len, fi_dev = dev, fi_ino = ino, fi_modified_sec = mtime, fi_modified_nsec = mtime_nsec,
                        fi_changed_sec = ctime, fi_changed_nsec = ctime_nsec\<rparr>)))))))))"

subsection \<open>File states\<close>

record file_content_state =
  fc_len :: u64
  fc_hash :: string
  fc_identity :: "file_identity option"

text \<open>\<^verbatim>\<open>impl PartialEq for FileContentState\<close>\<close>

definition content_eq :: "file_content_state \<Rightarrow> file_content_state \<Rightarrow> bool" where
  "content_eq a b =
     (if fc_len a \<noteq> fc_len b then False
      else if fc_hash a \<noteq> [] \<and> fc_hash b \<noteq> [] then fc_hash a = fc_hash b
      else fc_identity a \<noteq> None \<and> fc_identity a = fc_identity b)"

definition identity_is_ambiguous_since :: "file_content_state \<Rightarrow> file_identity option \<Rightarrow> bool" where
  "identity_is_ambiguous_since c link_start =
     (case (fc_identity c, link_start) of
        (Some i, Some s) \<Rightarrow> may_have_changed_since i s
      | _ \<Rightarrow> False)"

definition render_optional_identity :: "file_identity option \<Rightarrow> string" where
  "render_optional_identity i = (case i of None \<Rightarrow> ABSENT_FIELD | Some i \<Rightarrow> identity_render i)"

record file_patch_section_state =
  fs_input :: string
  fs_section_index :: u32
  fs_section_name :: "string option"
  fs_input_size :: u64
  fs_output_offset :: u64
  fs_output_size :: u64
  fs_data_hash :: "string option"

record file_patch_state =
  fp_fingerprint :: string
  fp_sections :: "file_patch_section_state list"
  fp_raw_sections :: "string option"

record file_state =
  fst_path :: string
  fst_content :: file_content_state
  fst_snapshot_identity :: "file_identity option"
  fst_patch :: "file_patch_state option"

datatype patch_section_read_mode = Parse | PreserveRaw

definition render_patch_section :: "hex_codec \<Rightarrow> file_patch_section_state \<Rightarrow> string" where
  "render_patch_section hex s =
     join_with CHR '':'' [fs_input s, show_word (fs_section_index s), show_word (fs_input_size s), show_word (fs_output_offset s),
       show_word (fs_output_size s),
       (case fs_section_name s of None \<Rightarrow> ABSENT_FIELD | Some name \<Rightarrow> hex_encode hex name),
       (case fs_data_hash s of None \<Rightarrow> ABSENT_FIELD | Some h \<Rightarrow> h)]"

definition render_patch_sections :: "hex_codec \<Rightarrow> file_patch_state \<Rightarrow> string" where
  "render_patch_sections hex patch =
     (case (fp_sections patch, fp_raw_sections patch) of
        ([], Some raw_sections) \<Rightarrow> raw_sections
      | _ \<Rightarrow> join_with CHR '','' (map (render_patch_section hex) (fp_sections patch)))"

definition parse_patch_section ::
    "hex_codec \<Rightarrow> string \<Rightarrow> string list \<Rightarrow> string option \<Rightarrow> file_patch_section_state res" where
  "parse_patch_section hex input parts data_hash =
     res_bind (case get_at parts 4 of
                 None \<Rightarrow> Inr None
               | Some name \<Rightarrow>
                   if name = ABSENT_FIELD then Inr None
                   else
                     res_bind (context_msg ''Malformed incremental patch section name'' (hex_decode hex name)) (\<lambda>bytes.
                     if utf8_valid bytes then Inr (Some bytes) else Inl ''Invalid incremental patch section name'')) (\<lambda>section_name.
     res_bind (context_msg ''Invalid incremental patch section index'' (parse_word (parts ! 0))) (\<lambda>section_index.
     res_bind (context_msg ''Invalid incremental patch section input size'' (parse_word (parts ! 1))) (\<lambda>input_size.
     res_bind (context_msg ''Invalid incremental patch section output offset'' (parse_word (parts ! 2))) (\<lambda>output_offset.
     res_bind (context_msg ''Invalid incremental patch section output size'' (parse_word (parts ! 3))) (\<lambda>output_size.
     Inr \<lparr>fs_input = input, fs_section_index = section_index, fs_section_name = section_name, fs_input_size = input_size,
          fs_output_offset = output_offset, fs_output_size = output_size, fs_data_hash = data_hash\<rparr>)))))"

text \<open>A section with another number of parts makes the whole list empty, without an error.\<close>

fun parse_patch_section_list ::
    "hex_codec \<Rightarrow> string \<Rightarrow> file_patch_section_state list \<Rightarrow> string list \<Rightarrow> file_patch_section_state list res" where
  "parse_patch_section_list hex default_input parsed [] = Inr parsed"
| "parse_patch_section_list hex default_input parsed (s # ss) =
     (let parts = split_on CHR '':'' s; n = length parts in
      if n < 4 \<or> 7 < n then Inr []
      else
        let (input, ps, data_hash) =
          (if n \<le> 5 then (default_input, parts, None)
           else if n = 6 then (parts ! 0, drop 1 parts, None)
           else (parts ! 0, take 5 (drop 1 parts), if parts ! 6 \<noteq> ABSENT_FIELD then Some (parts ! 6) else None))
        in if length ps \<noteq> 4 \<and> length ps \<noteq> 5 then Inr []
           else res_bind (parse_patch_section hex input ps data_hash) (\<lambda>x.
             parse_patch_section_list hex default_input (parsed @ [x]) ss))"

definition parse_patch_sections :: "hex_codec \<Rightarrow> string \<Rightarrow> string \<Rightarrow> file_patch_section_state list res" where
  "parse_patch_sections hex default_input sections =
     (if sections = [] then Inr [] else parse_patch_section_list hex default_input [] (split_on CHR '','' sections))"

definition render_input_line_rest :: "hex_codec \<Rightarrow> file_state \<Rightarrow> string" where
  "render_input_line_rest hex input =
     tsv [fst_path input, show_word (fc_len (fst_content input)), fc_hash (fst_content input),
       render_optional_identity (fc_identity (fst_content input)),
       (case fst_patch input of None \<Rightarrow> ABSENT_FIELD | Some patch \<Rightarrow> fp_fingerprint patch),
       (case fst_patch input of None \<Rightarrow> ABSENT_FIELD | Some patch \<Rightarrow> render_patch_sections hex patch),
       render_optional_identity (fst_snapshot_identity input)]"

text \<open>\<^verbatim>\<open>parts.next().map(FileIdentity::parse).transpose()?.flatten()\<close>\<close>

definition next_identity :: "string list \<Rightarrow> (file_identity option \<times> string list) res" where
  "next_identity parts =
     (let (p, parts) = next_line parts in
      case p of
        None \<Rightarrow> Inr (None, parts)
      | Some p \<Rightarrow> res_bind (identity_parse p) (\<lambda>i. Inr (i, parts)))"

definition next_optional_text :: "string list \<Rightarrow> string option \<times> string list" where
  "next_optional_text parts = (let (p, parts) = next_line parts in (Option.bind p optional_text, parts))"

definition parse_input_line :: "hex_codec \<Rightarrow> patch_section_read_mode \<Rightarrow> string \<Rightarrow> file_state res" where
  "parse_input_line hex mode line =
     res_bind (parse_prefixed_line (Some line) ''input'') (\<lambda>rest.
     res_bind (next_part ''Malformed incremental input path'' (split_on TAB rest)) (\<lambda>(path, parts).
     res_bind (next_number ''Malformed incremental input length'' ''Invalid incremental input length'' parse_word parts) (\<lambda>(len, parts).
     res_bind (next_part ''Malformed incremental input hash'' parts) (\<lambda>(hash, parts).
     res_bind (next_identity parts) (\<lambda>(identity, parts).
     let (patch_fingerprint, parts) = next_optional_text parts; (patch_sections, parts) = next_optional_text parts in
     res_bind (next_identity parts) (\<lambda>(snapshot_identity, parts).
     res_bind (case (patch_fingerprint, patch_sections) of
                 (Some fingerprint, Some raw_sections) \<Rightarrow>
                   res_bind (case mode of Parse \<Rightarrow> parse_patch_sections hex path raw_sections | PreserveRaw \<Rightarrow> Inr []) (\<lambda>sections.
                   Inr (Some \<lparr>fp_fingerprint = fingerprint, fp_sections = sections,
                              fp_raw_sections = (case mode of Parse \<Rightarrow> None | PreserveRaw \<Rightarrow> Some raw_sections)\<rparr>))
               | _ \<Rightarrow> Inr None) (\<lambda>patch.
     if parts \<noteq> [] then Inl ''Malformed incremental input record''
     else Inr \<lparr>fst_path = path, fst_content = \<lparr>fc_len = len, fc_hash = hash, fc_identity = identity\<rparr>,
               fst_snapshot_identity = snapshot_identity, fst_patch = patch\<rparr>)))))))"

definition parse_content_line :: "string option \<Rightarrow> string \<Rightarrow> file_content_state res" where
  "parse_content_line line expected_prefix =
     res_bind (parse_prefixed_line line expected_prefix) (\<lambda>rest.
     res_bind (next_part ''Malformed incremental content length'' (split_on TAB rest)) (\<lambda>(len, parts).
     res_bind (next_part ''Malformed incremental content hash'' parts) (\<lambda>(hash, parts).
     res_bind (next_identity parts) (\<lambda>(identity, parts).
     if parts \<noteq> [] then Inl ''Malformed incremental content record''
     else
       res_bind (context_msg ''Invalid incremental content length'' (parse_word len)) (\<lambda>len.
       Inr \<lparr>fc_len = len, fc_hash = hash, fc_identity = identity\<rparr>)))))"

definition parse_link_start_line :: "string option \<Rightarrow> file_identity option res" where
  "parse_link_start_line line = res_bind (parse_prefixed_line line ''link-start'') identity_parse"

definition render_build_id_hash_state :: "build_id_hash_state \<Rightarrow> string" where
  "render_build_id_hash_state st =
     tsv [show_nat (output_len st), show_nat (nodes st), (case tree_hash st of None \<Rightarrow> ABSENT_FIELD | Some h \<Rightarrow> h)]"

definition parse_build_id_hash_line :: "string option \<Rightarrow> build_id_hash_state option res" where
  "parse_build_id_hash_line line =
     res_bind (parse_prefixed_line line ''build-id-hash'') (\<lambda>rest.
     if rest = ABSENT_FIELD then Inr None
     else
       res_bind (next_number ''Malformed incremental build ID hash output length'' ''Invalid incremental build ID hash output length''
                   parse_usize (split_on TAB rest)) (\<lambda>(len, parts).
       res_bind (next_number ''Malformed incremental build ID hash node count'' ''Invalid incremental build ID hash node count''
                   parse_usize parts) (\<lambda>(n, parts).
       let (h, parts) = next_optional_text parts in
       if parts \<noteq> [] then Inl ''Malformed incremental build ID hash record''
       else if n = 0 then Inl ''Missing incremental build ID hash nodes''
       else Inr (Some \<lparr>output_len = len, nodes = n, tree_hash = h\<rparr>))))"

subsection \<open>Where the records of an input are\<close>

record patch_record_location =
  pl_input_file :: string
  pl_offset :: u64
  pl_len :: u64
  pl_hash :: string

definition parse_patch_record_location_line :: "string option \<Rightarrow> patch_record_location res" where
  "parse_patch_record_location_line line =
     res_bind (parse_prefixed_line line ''patch-record'') (\<lambda>rest.
     res_bind (next_part ''Malformed incremental patch record input'' (split_on TAB rest)) (\<lambda>(input_file, parts).
     res_bind (next_number ''Malformed incremental patch record offset'' ''Invalid incremental patch record offset'' parse_word parts) (\<lambda>(off, parts).
     res_bind (next_number ''Malformed incremental patch record length'' ''Invalid incremental patch record length'' parse_word parts) (\<lambda>(len, parts).
     res_bind (next_part ''Malformed incremental patch record hash'' parts) (\<lambda>(hash, parts).
     if parts \<noteq> [] then Inl ''Malformed incremental patch record location''
     else Inr \<lparr>pl_input_file = input_file, pl_offset = off, pl_len = len, pl_hash = hash\<rparr>)))))"

text \<open>\<^verbatim>\<open>lines.next()\<close> may be absent for a line, which is then the error of \<^verbatim>\<open>parse_prefixed_line\<close>.\<close>

fun parse_locations_loop :: "nat \<Rightarrow> string list \<Rightarrow> (patch_record_location list \<times> string list) res" where
  "parse_locations_loop 0 ls = Inr ([], ls)"
| "parse_locations_loop (Suc n) ls =
     (let (line, ls) = next_line ls in
      res_bind (parse_patch_record_location_line line) (\<lambda>x.
      res_bind (parse_locations_loop n ls) (\<lambda>(xs, ls). Inr (x # xs, ls))))"

fun raw_lines :: "nat \<Rightarrow> string list \<Rightarrow> (string list \<times> string list) res" where
  "raw_lines 0 ls = Inr ([], ls)"
| "raw_lines (Suc n) [] = Inl ''Missing incremental patch record location''"
| "raw_lines (Suc n) (l # ls) = res_bind (raw_lines n ls) (\<lambda>(xs, ls). Inr (l # xs, ls))"

definition parse_patch_record_location_table ::
    "bool \<Rightarrow> string list \<Rightarrow> ((patch_record_location list \<times> string option) \<times> string list) res" where
  "parse_patch_record_location_table parse_locations ls =
     (let (count_line, ls) = next_line ls in
      res_bind (context_msg ''Missing incremental patch record location count'' count_line) (\<lambda>count_line.
      res_bind (parse_prefixed_line (Some count_line) ''patch-records'') (\<lambda>rest.
      res_bind (context_msg ''Invalid incremental patch record location count'' (parse_usize rest)) (\<lambda>n.
      if parse_locations
      then res_bind (parse_locations_loop n ls) (\<lambda>(locations, ls). Inr ((locations, None), ls))
      else res_bind (raw_lines n ls) (\<lambda>(raw, ls). Inr (([], Some (write_lines (count_line # raw))), ls))))))"

definition location_line :: "patch_record_location \<Rightarrow> string" where
  "location_line l = tsv [''patch-record'', pl_input_file l, show_word (pl_offset l), show_word (pl_len l), pl_hash l]"

definition render_patch_record_location_table :: "patch_record_location list \<Rightarrow> string option \<Rightarrow> string" where
  "render_patch_record_location_table locations raw =
     (case raw of
        Some raw \<Rightarrow> raw
      | None \<Rightarrow> write_lines (tsv [''patch-records'', show_nat (length locations)] # map location_line locations))"

subsection \<open>The index\<close>

record persisted_state =
  ps_args_hash :: string
  ps_link_options_hash :: "string option"
  ps_input_order_hash :: "string option"
  ps_sld_version :: "string option"
  ps_link_start :: "file_identity option"
  ps_output :: file_content_state
  ps_build_id_hashes :: "build_id_hash_state option"
  ps_input_files :: "file_state list"
  ps_records :: compact_records
  ps_sections_file :: "string option"
  ps_patch_records_file :: "string option"
  ps_patch_record_locations :: "patch_record_location list"
  ps_raw_patch_record_locations :: "string option"

definition state_version :: "nat \<Rightarrow> string" where
  "state_version k = ''sld-incremental-state-v'' @ show_nat k"

definition STATE_VERSION :: string where "STATE_VERSION = ''sld-incremental-state-v32''"
definition METADATA_UPDATE_VERSION :: string where "METADATA_UPDATE_VERSION = ''sld-incremental-metadata-update-v1''"
definition SECTIONS_FILE :: string where "SECTIONS_FILE = ''sections''"
definition SECTIONS_FILE_PREFIX :: string where "SECTIONS_FILE_PREFIX = ''sections-''"
definition COMPRESSED_SECTIONS_FILE_PREFIX :: string where "COMPRESSED_SECTIONS_FILE_PREFIX = ''sections-zstd-''"

definition validate_sections_file_name :: "string \<Rightarrow> unit res" where
  "validate_sections_file_name file_name =
     (if file_name = SECTIONS_FILE then Inr ()
      else if \<not> (starts_with SECTIONS_FILE_PREFIX file_name \<or> starts_with COMPRESSED_SECTIONS_FILE_PREFIX file_name)
              \<or> CHR ''/'' \<in> set file_name \<or> CHR 0x5C \<in> set file_name
      then Inl (''Invalid incremental sections sidecar name `'' @ file_name @ ''`'')
      else Inr ())"

definition identity_line :: "file_identity option \<Rightarrow> string" where
  "identity_line i = tsv [''link-start'', render_optional_identity i]"

definition output_line :: "file_content_state \<Rightarrow> string" where
  "output_line c = tsv [''output'', show_word (fc_len c), fc_hash c, render_optional_identity (fc_identity c)]"

definition build_id_line :: "build_id_hash_state option \<Rightarrow> string" where
  "build_id_line b = tsv [''build-id-hash'', (case b of None \<Rightarrow> ABSENT_FIELD | Some b \<Rightarrow> render_build_id_hash_state b)]"

definition optional_line :: "string \<Rightarrow> string option \<Rightarrow> string list" where
  "optional_line prefix x = (case x of None \<Rightarrow> [] | Some v \<Rightarrow> [tsv [prefix, v]])"

definition header_and_inputs :: "hex_codec \<Rightarrow> persisted_state \<Rightarrow> string list" where
  "header_and_inputs hex st =
     [STATE_VERSION, tsv [''args'', ps_args_hash st]]
     @ optional_line ''link-options'' (ps_link_options_hash st)
     @ optional_line ''input-order'' (ps_input_order_hash st)
     @ optional_line ''sld-version'' (ps_sld_version st)
     @ [identity_line (ps_link_start st), output_line (ps_output st), build_id_line (ps_build_id_hashes st),
        tsv [''inputs'', show_nat (length (ps_input_files st))]]
     @ map (\<lambda>input. tsv [''input'', render_input_line_rest hex input]) (ps_input_files st)"

definition render_header_and_inputs :: "hex_codec \<Rightarrow> persisted_state \<Rightarrow> string" where
  "render_header_and_inputs hex st = write_lines (header_and_inputs hex st)"

definition render_index ::
    "hex_codec \<Rightarrow> persisted_state \<Rightarrow> string \<Rightarrow> string option \<Rightarrow> patch_record_location list \<Rightarrow> string option \<Rightarrow> string" where
  "render_index hex st sections_file patch_records_file locations raw =
     render_header_and_inputs hex st
     @ (if patch_records_file = Some sections_file
        then write_lines [tsv [''indexed-sections-file'', sections_file]] @ render_patch_record_location_table locations raw
        else write_lines [tsv [''sections-file'', sections_file]])
     @ (case patch_records_file of
          Some f \<Rightarrow>
            if f \<noteq> sections_file
            then write_lines [tsv [''patch-records-file'', f]] @ render_patch_record_location_table locations raw
            else []
        | None \<Rightarrow> [])"

text \<open>\<^verbatim>\<open>peek\<close>, and the line only if it has the prefix.\<close>

definition optional_prefixed_line :: "string \<Rightarrow> string list \<Rightarrow> (string option \<times> string list) res" where
  "optional_prefixed_line prefix ls =
     (case ls of
        l # ls' \<Rightarrow>
          if starts_with (prefix @ [TAB]) l then res_bind (parse_prefixed_line (Some l) prefix) (\<lambda>v. Inr (Some v, ls'))
          else Inr (None, ls)
      | [] \<Rightarrow> Inr (None, ls))"

definition optional_parsed_line :: "string \<Rightarrow> (string option \<Rightarrow> 'a option res) \<Rightarrow> string list \<Rightarrow> ('a option \<times> string list) res" where
  "optional_parsed_line prefix f ls =
     (case ls of
        l # ls' \<Rightarrow> if starts_with (prefix @ [TAB]) l then res_bind (f (Some l)) (\<lambda>v. Inr (v, ls')) else Inr (None, ls)
      | [] \<Rightarrow> Inr (None, ls))"

definition no_records :: compact_records where
  "no_records = \<lparr>cr_sections = [], cr_relocations = [], cr_fdes = [], cr_dynamic_relocations = []\<rparr>"

record sections_part =
  sp_records :: compact_records
  sp_sections_file :: "string option"
  sp_patch_records_file :: "string option"
  sp_locations :: "patch_record_location list"
  sp_raw :: "string option"

definition parse_sections_v5 ::
    "(string \<Rightarrow> string option res) \<Rightarrow> bool \<Rightarrow> string \<Rightarrow> string list \<Rightarrow> (sections_part \<times> string list) res" where
  "parse_sections_v5 load_sections parse_locations version ls =
     (let (first_line, ls') = next_line ls in
      res_bind (context_msg ''Missing incremental section input count'' first_line) (\<lambda>first_line.
      if starts_with (''indexed-sections-file'' @ [TAB]) first_line then
        if version \<notin> set (map state_version [30..<33])
        then Inl ''Indexed incremental sections require incremental state version `sld-incremental-state-v32`, `sld-incremental-state-v31`, or `sld-incremental-state-v30`''
        else
          res_bind (parse_prefixed_line (Some first_line) ''indexed-sections-file'') (\<lambda>file.
          res_bind (validate_sections_file_name file) (\<lambda>_.
          res_bind (parse_patch_record_location_table parse_locations ls') (\<lambda>((locations, raw), ls).
          Inr (\<lparr>sp_records = no_records, sp_sections_file = Some file, sp_patch_records_file = Some file,
                sp_locations = locations, sp_raw = raw\<rparr>, ls))))
      else if starts_with (''sections-file'' @ [TAB]) first_line then
        res_bind (parse_prefixed_line (Some first_line) ''sections-file'') (\<lambda>file.
        res_bind (validate_sections_file_name file) (\<lambda>_.
        res_bind (load_sections file) (\<lambda>contents.
        res_bind (case contents of None \<Rightarrow> Inr no_records | Some c \<Rightarrow> parse_compact_records_block (rust_lines c)) (\<lambda>records.
        res_bind (optional_prefixed_line ''patch-records-file'' ls') (\<lambda>(pfile, ls).
        case pfile of
          None \<Rightarrow> Inr (\<lparr>sp_records = records, sp_sections_file = Some file, sp_patch_records_file = None,
                        sp_locations = [], sp_raw = None\<rparr>, ls)
        | Some pfile \<Rightarrow>
            res_bind (validate_sections_file_name pfile) (\<lambda>_.
            res_bind (if ls \<noteq> [] \<and> starts_with (''patch-records'' @ [TAB]) (hd ls) then parse_patch_record_location_table parse_locations ls
                      else Inr (([], None), ls)) (\<lambda>((locations, raw), ls).
            Inr (\<lparr>sp_records = records, sp_sections_file = Some file, sp_patch_records_file = Some pfile,
                  sp_locations = locations, sp_raw = raw\<rparr>, ls))))))))
      else
        res_bind (parse_compact_records_block ls) (\<lambda>records.
        Inr (\<lparr>sp_records = records, sp_sections_file = None, sp_patch_records_file = None, sp_locations = [], sp_raw = None\<rparr>, []))))"

definition parse_section_line :: "string \<Rightarrow> section_record res" where
  "parse_section_line line =
     res_bind (parse_prefixed_line (Some line) ''section'') (\<lambda>rest.
     res_bind (next_part ''Malformed incremental section input file'' (split_on TAB rest)) (\<lambda>(input_file, parts).
     res_bind (next_part ''Malformed incremental section input'' parts) (\<lambda>(input, parts).
     res_bind (next_number ''Malformed incremental section index'' ''Invalid incremental section index'' parse_word parts) (\<lambda>(section_index, parts).
     res_bind (next_number ''Malformed incremental section output offset'' ''Invalid incremental section output offset''
                 parse_word parts) (\<lambda>(off, parts).
     res_bind (next_number ''Malformed incremental section size'' ''Invalid incremental section size'' parse_word parts) (\<lambda>(sz, parts).
     if parts \<noteq> [] then Inl ''Malformed incremental section record''
     else Inr \<lparr>sr_input_file = input_file, sr_input = input, sr_section_index = section_index,
               sr_output_offset = off, sr_size = sz\<rparr>))))))"

definition parse_sections_part ::
    "(string \<Rightarrow> string option res) \<Rightarrow> bool \<Rightarrow> string \<Rightarrow> string list \<Rightarrow> (sections_part \<times> string list) res" where
  "parse_sections_part load_sections parse_locations version ls =
     (if version \<in> set (map state_version [5..<33]) then parse_sections_v5 load_sections parse_locations version ls
      else if version \<in> set (map state_version [2..<5]) then
        res_bind (parse_group ''sections'' ''Invalid incremental section count'' ''Missing incremental section record''
                    take_all parse_section_line ls) (\<lambda>(sections, ls).
        Inr (\<lparr>sp_records = no_records\<lparr>cr_sections := sections\<rparr>, sp_sections_file = None, sp_patch_records_file = None,
              sp_locations = [], sp_raw = None\<rparr>, ls))
      else Inr (\<lparr>sp_records = no_records, sp_sections_file = None, sp_patch_records_file = None,
              sp_locations = [], sp_raw = None\<rparr>, ls))"

definition parse_inputs :: "hex_codec \<Rightarrow> patch_section_read_mode \<Rightarrow> string list \<Rightarrow> (file_state list \<times> string list) res" where
  "parse_inputs hex mode =
     parse_group ''inputs'' ''Invalid incremental input count'' ''Missing incremental input record'' take_all (parse_input_line hex mode)"

definition require_newest :: "string \<Rightarrow> 'a option \<Rightarrow> string \<Rightarrow> unit res" where
  "require_newest version x m = (if version = STATE_VERSION \<and> x = None then Inl m else Inr ())"

definition parse_with_section_loader ::
    "hex_codec \<Rightarrow> patch_section_read_mode \<Rightarrow> bool \<Rightarrow> (string \<Rightarrow> string option res) \<Rightarrow> string \<Rightarrow> persisted_state res" where
  "parse_with_section_loader hex mode parse_locations load_sections contents =
     (let (version, ls) = next_line (rust_lines contents) in
      res_bind (context_msg ''Missing incremental state header'' version) (\<lambda>version.
      if version \<notin> set (map state_version [1..<33]) then Inl (''Unsupported incremental state version `'' @ version @ ''`'')
      else
        let (line, ls) = next_line ls in
        res_bind (parse_prefixed_line line ''args'') (\<lambda>args_hash.
        res_bind (optional_prefixed_line ''link-options'' ls) (\<lambda>(link_options_hash, ls).
        res_bind (require_newest version link_options_hash ''Missing incremental link-options hash in incremental state'') (\<lambda>_.
        res_bind (optional_prefixed_line ''input-order'' ls) (\<lambda>(input_order_hash, ls).
        res_bind (require_newest version input_order_hash ''Missing incremental input-order hash in incremental state'') (\<lambda>_.
        res_bind (optional_prefixed_line ''sld-version'' ls) (\<lambda>(sld_version, ls).
        res_bind (require_newest version sld_version ''Missing sld version in incremental state'') (\<lambda>_.
        res_bind (optional_parsed_line ''link-start'' parse_link_start_line ls) (\<lambda>(link_start, ls).
        let (line, ls) = next_line ls in
        res_bind (parse_content_line line ''output'') (\<lambda>output.
        res_bind (optional_parsed_line ''build-id-hash'' parse_build_id_hash_line ls) (\<lambda>(build_id_hashes, ls).
        res_bind (parse_inputs hex mode ls) (\<lambda>(input_files, ls).
        res_bind (parse_sections_part load_sections parse_locations version ls) (\<lambda>(sp, ls).
        if ls \<noteq> [] then Inl ''Unexpected trailing incremental state data''
        else Inr \<lparr>ps_args_hash = args_hash, ps_link_options_hash = link_options_hash, ps_input_order_hash = input_order_hash,
                  ps_sld_version = sld_version, ps_link_start = link_start, ps_output = output,
                  ps_build_id_hashes = build_id_hashes, ps_input_files = input_files, ps_records = sp_records sp,
                  ps_sections_file = sp_sections_file sp, ps_patch_records_file = sp_patch_records_file sp,
                  ps_patch_record_locations = sp_locations sp, ps_raw_patch_record_locations = sp_raw sp\<rparr>))))))))))))))"

subsection \<open>The metadata update\<close>

definition render_metadata_update :: "hex_codec \<Rightarrow> persisted_state \<Rightarrow> nat list \<Rightarrow> string option" where
  "render_metadata_update hex st input_indices =
     (let indices = remdups_adj (sort input_indices) in
      map_option (\<lambda>inputs. write_lines
          ([METADATA_UPDATE_VERSION, identity_line (ps_link_start st), output_line (ps_output st), build_id_line (ps_build_id_hashes st),
            tsv [''inputs'', show_nat (length indices)]] @ inputs))
        (those (map (\<lambda>i. map_option (\<lambda>input. tsv [''input'', show_nat i, render_input_line_rest hex input])
                                  (get_at (ps_input_files st) i)) indices)))"

fun apply_input_updates ::
    "hex_codec \<Rightarrow> patch_section_read_mode \<Rightarrow> nat \<Rightarrow> file_state list \<Rightarrow> string list \<Rightarrow> (file_state list \<times> string list) res" where
  "apply_input_updates hex mode 0 inputs ls = Inr (inputs, ls)"
| "apply_input_updates hex mode (Suc n) inputs ls =
     (let (line, ls) = next_line ls in
      res_bind (parse_prefixed_line line ''input'') (\<lambda>rest.
      res_bind (context_msg ''Malformed incremental metadata update input'' (split_once TAB rest)) (\<lambda>(index, input_line).
      res_bind (context_msg ''Invalid incremental metadata update input index'' (parse_usize index)) (\<lambda>index.
      if length inputs \<le> index then Inl ''Incremental metadata update input index out of bounds''
      else
        res_bind (parse_input_line hex mode (''input'' @ TAB # input_line)) (\<lambda>input.
        apply_input_updates hex mode n (inputs[index := input]) ls)))))"

text \<open>\<open>None\<close> is a file that does not exist. An error leaves the caller without a state.\<close>

definition apply_metadata_update ::
    "hex_codec \<Rightarrow> patch_section_read_mode \<Rightarrow> string option \<Rightarrow> persisted_state \<Rightarrow> persisted_state res" where
  "apply_metadata_update hex mode contents st =
     (case contents of
        None \<Rightarrow> Inr st
      | Some contents \<Rightarrow>
          (let (version, ls) = next_line (rust_lines contents) in
           res_bind (context_msg ''Missing incremental metadata update header'' version) (\<lambda>version.
           if version \<noteq> METADATA_UPDATE_VERSION then Inl (''Unsupported incremental metadata update version `'' @ version @ ''`'')
           else
             let (line, ls) = next_line ls in
             res_bind (parse_link_start_line line) (\<lambda>link_start.
             let (line, ls) = next_line ls in
             res_bind (parse_content_line line ''output'') (\<lambda>output.
             let (line, ls) = next_line ls in
             res_bind (parse_build_id_hash_line line) (\<lambda>build_id_hashes.
             let (line, ls) = next_line ls in
             res_bind (parse_prefixed_line line ''inputs'') (\<lambda>rest.
             res_bind (context_msg ''Invalid incremental metadata update input count'' (parse_usize rest)) (\<lambda>n.
             res_bind (apply_input_updates hex mode n (ps_input_files st) ls) (\<lambda>(input_files, ls).
             if ls \<noteq> [] then Inl ''Unexpected trailing incremental metadata update data''
             else Inr (st\<lparr>ps_link_start := link_start, ps_output := output, ps_build_id_hashes := build_id_hashes,
                          ps_input_files := input_files\<rparr>))))))))))"

subsection \<open>States that can be stored\<close>

definition hex_ok :: "hex_codec \<Rightarrow> bool" where
  "hex_ok hex \<longleftrightarrow> (\<forall>s. hex_decode hex (hex_encode hex s) = Some s \<and> set (hex_encode hex s) \<subseteq> set ''0123456789abcdef'')"

text \<open>A part of a patch section: also no colon and no comma.\<close>

definition part_text :: "string \<Rightarrow> bool" where
  "part_text s \<longleftrightarrow> field_text s \<and> CHR '':'' \<notin> set s \<and> CHR '','' \<notin> set s"

definition optional_ok :: "string option \<Rightarrow> bool" where
  "optional_ok x = (case x of None \<Rightarrow> True | Some s \<Rightarrow> field_text s \<and> s \<noteq> ABSENT_FIELD)"

definition patch_section_wf :: "file_patch_section_state \<Rightarrow> bool" where
  "patch_section_wf s \<longleftrightarrow> part_text (fs_input s)
     \<and> (case fs_section_name s of None \<Rightarrow> True | Some n \<Rightarrow> utf8_valid n)
     \<and> (case fs_data_hash s of None \<Rightarrow> True | Some h \<Rightarrow> part_text h \<and> h \<noteq> ABSENT_FIELD)"

definition patch_wf :: "patch_section_read_mode \<Rightarrow> file_patch_state \<Rightarrow> bool" where
  "patch_wf mode p \<longleftrightarrow> field_text (fp_fingerprint p) \<and> fp_fingerprint p \<noteq> ABSENT_FIELD
     \<and> (case mode of
          Parse \<Rightarrow> fp_raw_sections p = None \<and> list_all patch_section_wf (fp_sections p)
        | PreserveRaw \<Rightarrow> fp_sections p = [] \<and> (\<exists>raw. fp_raw_sections p = Some raw \<and> field_text raw \<and> raw \<noteq> ABSENT_FIELD))"

definition file_state_wf :: "patch_section_read_mode \<Rightarrow> file_state \<Rightarrow> bool" where
  "file_state_wf mode f \<longleftrightarrow> field_text (fst_path f) \<and> field_text (fc_hash (fst_content f))
     \<and> (case fst_patch f of None \<Rightarrow> True | Some p \<Rightarrow> patch_wf mode p)"

definition build_id_wf :: "build_id_hash_state option \<Rightarrow> bool" where
  "build_id_wf b \<longleftrightarrow>
     (case b of None \<Rightarrow> True | Some b \<Rightarrow> output_len b < 2 ^ 64 \<and> 0 < nodes b \<and> nodes b < 2 ^ 64 \<and> optional_ok (tree_hash b))"

definition line_text :: "string \<Rightarrow> bool" where
  "line_text s \<longleftrightarrow> LF \<notin> set s \<and> CR \<notin> set s"

definition required_line_text :: "string option \<Rightarrow> bool" where
  "required_line_text x = (case x of None \<Rightarrow> False | Some s \<Rightarrow> line_text s)"

definition state_wf :: "patch_section_read_mode \<Rightarrow> persisted_state \<Rightarrow> bool" where
  "state_wf mode st \<longleftrightarrow> line_text (ps_args_hash st) \<and> required_line_text (ps_link_options_hash st)
     \<and> required_line_text (ps_input_order_hash st) \<and> required_line_text (ps_sld_version st)
     \<and> field_text (fc_hash (ps_output st)) \<and> build_id_wf (ps_build_id_hashes st)
     \<and> list_all (file_state_wf mode) (ps_input_files st) \<and> length (ps_input_files st) < 2 ^ 64"

definition location_wf :: "patch_record_location \<Rightarrow> bool" where
  "location_wf l \<longleftrightarrow> field_text (pl_input_file l) \<and> field_text (pl_hash l)"

end
