(* ===== verification/Symbol_Hash.thy ===== *)
theory Symbol_Hash
  imports Std_Num State_Index "HOL-Library.List_Lexorder" "HOL-Library.Product_Lexorder"
begin

unbundle bit_operations_syntax

text \<open>
  The hash tables of the dynamic symbols. Writing: \<^verbatim>\<open>create_gnu_hash_layout\<close> and \<^verbatim>\<open>allocate_sysv_hash\<close> of
  \<^verbatim>\<open>libsld/src/elf.rs\<close>, \<^verbatim>\<open>write_gnu_hash_tables\<close> and \<^verbatim>\<open>write_sysv_hash_table\<close> of
  \<^verbatim>\<open>libsld/src/elf_writer.rs\<close>. Reading: \<^verbatim>\<open>lookup_symbol\<close> and \<^verbatim>\<open>check_object\<close> of
  \<^verbatim>\<open>linker-diff/src/gnu_hash.rs\<close> and \<^verbatim>\<open>sysv_hash.rs\<close>. The two hash functions are those of the crate
  \<^verbatim>\<open>object\<close> and parameters, as is its header record: four little-endian \<^verbatim>\<open>u32\<close> in the order of
  \<open>gnu_hash_header\<close>. Buffers are aligned, and the host is little-endian.
\<close>

definition le_words :: "nat \<Rightarrow> 'a::len word list \<Rightarrow> bytes" where
  "le_words n ws = concat (map (to_le_bytes n) ws)"

text \<open>\<^verbatim>\<open>object::slice_from_bytes\<close>: \<open>k\<close> words of \<open>n\<close> bytes and the rest.\<close>

fun read_words :: "nat \<Rightarrow> nat \<Rightarrow> bytes \<Rightarrow> ('a::len word list \<times> bytes) option" where
  "read_words n 0 bs = Some ([], bs)"
| "read_words n (Suc k) bs =
     (if length bs < n then None
      else map_option (\<lambda>(ws, rest). (from_le_bytes (take n bs) # ws, rest)) (read_words n k (drop n bs)))"

datatype hash_error =
    InsufficientAllocation
  | InsufficientBloom
  | InsufficientBuckets
  | InsufficientChains
  | TooManySymbols
  | InvalidChain
  | MissingSection
  | BadAlignment
  | BadHeader
  | BadSymbolBase
  | BadName
  | BloomExcludes
  | BelowSymbolBase
  | SymbolNotFound
  | ChainOutOfRange
  | InvalidSymbolIndex
  | WrongIndex nat nat
  | LookupFailed hash_error

record dynamic_symbol =
  ds_name :: bytes
  ds_hash :: u32

subsection \<open>GNU hash: writing\<close>

record gnu_hash_layout =
  num_defs :: u32
  bucket_count :: u32
  bloom_shift :: u32
  bloom_count :: u32
  symbol_base :: u32

definition bucket_for_hash :: "gnu_hash_layout \<Rightarrow> u32 \<Rightarrow> u32 option" where
  "bucket_for_hash gl hash = (if bucket_count gl = 0 then None else Some (hash mod bucket_count gl))"

text \<open>The second result is the sorted definitions. Names are unique, so that the sort may be unstable.\<close>

definition create_gnu_hash_layout ::
    "bool \<Rightarrow> bool \<Rightarrow> dynamic_symbol list \<Rightarrow> (gnu_hash_layout option \<times> dynamic_symbol list) option" where
  "create_gnu_hash_layout includes_gnu needs_dynamic defs =
     (if \<not> includes_gnu \<or> \<not> needs_dynamic then Some (None, defs)
      else
        let gl = \<lparr>num_defs = of_nat (length defs), bucket_count = ucast (next_power_of_two (of_nat (length defs) div 2)),
                  bloom_shift = 6, bloom_count = 1, symbol_base = 0\<rparr>
        in if bucket_count gl = 0 \<and> defs \<noteq> [] then None
           else Some (Some gl, sort_key (\<lambda>d. (the (bucket_for_hash gl (ds_hash d)), ds_name d)) defs))"

definition gnu_hash_allocate :: "gnu_hash_layout \<Rightarrow> nat" where
  "gnu_hash_allocate gl = 16 + 8 + 4 * unat (bucket_count gl) + 4 * unat (num_defs gl)"

text \<open>The loop over the chains; the result is the bloom filter, the buckets and the chains.\<close>

fun gnu_hash_loop ::
    "gnu_hash_layout \<Rightarrow> nat \<Rightarrow> bool \<Rightarrow> dynamic_symbol list \<Rightarrow> u64 list \<Rightarrow> u32 list \<Rightarrow> (u64 list \<times> u32 list \<times> u32 list) option" where
  "gnu_hash_loop gl i start_of_chain [] bloom buckets = Some (bloom, buckets, [])"
| "gnu_hash_loop gl i start_of_chain (d # ds) bloom buckets =
     (if bloom_count gl = 0 \<or> 32 \<le> bloom_shift gl then None
      else do {
        let hash = ds_hash d;
        let bloom_index = unat ((hash div 64) mod bloom_count gl);
        let bit1 = push_bit (unat (hash mod 64)) 1;
        let bit2 = push_bit (unat (drop_bit (unat (bloom_shift gl)) hash mod 64)) 1;
        old \<leftarrow> get_at bloom bloom_index;
        bloom \<leftarrow> set_at bloom_index (old OR (bit1 OR bit2)) bloom;
        bucket \<leftarrow> bucket_for_hash gl hash;
        buckets \<leftarrow> (if start_of_chain then set_at (unat bucket) (of_nat i + symbol_base gl) buckets else Some buckets);
        let last_in_chain = (case ds of [] \<Rightarrow> True | next # _ \<Rightarrow> bucket_for_hash gl (ds_hash next) \<noteq> Some bucket);
        let chain = (if last_in_chain then (hash AND NOT 1) OR 1 else hash AND NOT 1);
        (bloom, buckets, cvs) \<leftarrow> gnu_hash_loop gl (i + 1) last_in_chain ds bloom buckets;
        Some (bloom, buckets, chain # cvs)
      })"

definition gnu_hash_header_bytes :: "gnu_hash_layout \<Rightarrow> bytes" where
  "gnu_hash_header_bytes gl = le_words 4 [bucket_count gl, symbol_base gl, bloom_count gl, bloom_shift gl]"

definition write_gnu_hash_tables :: "gnu_hash_layout option \<Rightarrow> dynamic_symbol list \<Rightarrow> bytes \<Rightarrow> (hash_error + bytes) option" where
  "write_gnu_hash_tables gl_opt defs buffer =
     (case gl_opt of
        None \<Rightarrow> Some (Inr buffer)
      | Some gl \<Rightarrow>
          (let bloom_len = 8 * unat (bloom_count gl); buckets_len = 4 * unat (bucket_count gl); chains_len = 4 * length defs in
           if length buffer < 16 then Some (Inl InsufficientAllocation)
           else if length buffer < 16 + bloom_len then Some (Inl InsufficientBloom)
           else if length buffer < 16 + bloom_len + buckets_len then Some (Inl InsufficientBuckets)
           else if length buffer < 16 + bloom_len + buckets_len + chains_len then Some (Inl InsufficientChains)
           else if length buffer \<noteq> 16 + bloom_len + buckets_len + chains_len then None
           else do {
             (bloom, buckets, cvs) \<leftarrow> gnu_hash_loop gl 0 True defs
               (replicate (unat (bloom_count gl)) 0) (replicate (unat (bucket_count gl)) 0);
             Some (Inr (gnu_hash_header_bytes gl @ le_words 8 bloom @ le_words 4 buckets @ le_words 4 cvs))
           }))"

text \<open>\<^verbatim>\<open>finalise_layout_epilogue\<close>: the first definition's index in the symbol table.\<close>

definition finalise_gnu_hash :: "u32 \<Rightarrow> gnu_hash_layout \<Rightarrow> gnu_hash_layout" where
  "finalise_gnu_hash dynsym_start_index gl = gl\<lparr>symbol_base := dynsym_start_index\<rparr>"

subsection \<open>GNU hash: reading\<close>

text \<open>A dynamic symbol table entry: its name and whether it is a definition. Entry 0 is the null symbol.\<close>

record dynsym_entry =
  de_name :: bytes
  de_definition :: bool

text \<open>The walk along the chain values from the first symbol of a bucket; past the end is a panic.\<close>

fun gnu_chain_lookup :: "dynsym_entry list \<Rightarrow> bytes \<Rightarrow> u32 \<Rightarrow> nat \<Rightarrow> u32 list \<Rightarrow> (hash_error + nat) option" where
  "gnu_chain_lookup dynsym name hash symbol_index [] = None"
| "gnu_chain_lookup dynsym name hash symbol_index (c # cs) =
     (if c AND NOT 1 = hash AND NOT 1 \<and> map_option de_name (get_at dynsym symbol_index) = Some name then Some (Inr symbol_index)
      else if c AND 1 = 1 then Some (Inl SymbolNotFound)
      else gnu_chain_lookup dynsym name hash (symbol_index + 1) cs)"

definition gnu_lookup_symbol ::
    "(bytes \<Rightarrow> u32) \<Rightarrow> bytes \<Rightarrow> u32 \<Rightarrow> u32 \<Rightarrow> u64 list \<Rightarrow> u32 list \<Rightarrow> u32 list \<Rightarrow> dynsym_entry list \<Rightarrow> (hash_error + nat) option" where
  "gnu_lookup_symbol gnu_hash name base shift bloom buckets cvs dynsym =
     (let hash = gnu_hash name; bloom_count = of_nat (length bloom); bucket_count = of_nat (length buckets) in
      if bloom_count = 0 \<or> 32 \<le> shift then None
      else do {
        bloom_value \<leftarrow> get_at bloom (unat ((hash div 64) mod bloom_count));
        let bloom_mask = push_bit (unat (hash mod 64)) 1 OR push_bit (unat (drop_bit (unat shift) hash mod 64)) 1;
        if bloom_value AND bloom_mask \<noteq> bloom_mask then Some (Inl BloomExcludes)
        else if bucket_count = 0 then None
        else do {
          b \<leftarrow> get_at buckets (unat (hash mod bucket_count));
          if b < base then Some (Inl BelowSymbolBase)
          else gnu_chain_lookup dynsym name hash (unat b) (drop (unat b - unat base) cvs)
        }
      })"

fun check_definitions ::
    "(bytes \<Rightarrow> (hash_error + nat) option) \<Rightarrow> nat \<Rightarrow> dynsym_entry list \<Rightarrow> (hash_error + unit) option" where
  "check_definitions lookup i [] = Some (Inr ())"
| "check_definitions lookup i (s # ss) =
     (if \<not> de_definition s then check_definitions lookup (i + 1) ss
      else if \<not> utf8_valid (map (char_of \<circ> unat) (de_name s)) then Some (Inl BadName)
      else do {
        r \<leftarrow> lookup (de_name s);
        case r of
          Inl e \<Rightarrow> Some (Inl (LookupFailed e))
        | Inr k \<Rightarrow> if k \<noteq> i then Some (Inl (WrongIndex k i)) else check_definitions lookup (i + 1) ss
      })"

text \<open>The section is its alignment and data. The symbols after the null symbol are checked.\<close>

definition gnu_check_object ::
    "(bytes \<Rightarrow> u32) \<Rightarrow> (nat \<times> bytes) option \<Rightarrow> dynsym_entry list \<Rightarrow> (hash_error + unit) option" where
  "gnu_check_object gnu_hash section dynsym =
     (case section of
        None \<Rightarrow> Some (Inl MissingSection)
      | Some (al, data) \<Rightarrow>
          if al \<noteq> 8 then Some (Inl BadAlignment)
          else
            (case read_words 4 4 data of
               None \<Rightarrow> Some (Inl BadHeader)
             | Some (header, rest) \<Rightarrow>
                 (let bucket_count = header ! 0; base = header ! 1; bloom_count = header ! 2; shift = header ! 3 :: u32 in
                  case read_words 8 (unat bloom_count) rest of
                    None \<Rightarrow> Some (Inl InsufficientBloom)
                  | Some (bloom, rest) \<Rightarrow>
                      (case read_words 4 (unat bucket_count) rest of
                         None \<Rightarrow> Some (Inl InsufficientBuckets)
                       | Some (buckets, rest) \<Rightarrow>
                           if max 1 (length dynsym) < unat base then Some (Inl BadSymbolBase)
                           else if buckets = [0] \<and> rest = [] then Some (Inr ())
                           else
                             (case read_words 4 (max 1 (length dynsym) - unat base) rest of
                                None \<Rightarrow> Some (Inl InsufficientChains)
                              | Some (cvs, _) \<Rightarrow>
                                  check_definitions
                                    (\<lambda>name. gnu_lookup_symbol gnu_hash name base shift bloom buckets cvs dynsym) 1 (tl dynsym))))))"

subsection \<open>SysV hash: writing\<close>

record sysv_hash_layout =
  sysv_bucket_count :: u32
  sysv_chain_count :: u32

text \<open>The additions are checked in \<^verbatim>\<open>u64\<close>.\<close>

definition sysv_byte_size :: "sysv_hash_layout \<Rightarrow> hash_error + u64" where
  "sysv_byte_size sl =
     (let words = 2 + unat (sysv_bucket_count sl) + unat (sysv_chain_count sl) in
      if 2 ^ 64 \<le> words then Inl TooManySymbols else Inr (of_nat words * 4))"

text \<open>The arguments are the size of \<^verbatim>\<open>.dynsym\<close> and the number of definitions; the result is the layout
and what is added to the size of \<^verbatim>\<open>.hash\<close>.\<close>

definition allocate_sysv_hash :: "u64 \<Rightarrow> nat \<Rightarrow> hash_error + (sysv_hash_layout \<times> u64) option" where
  "allocate_sysv_hash dynsym_size num =
     (if num = 0 then Inr None
      else
        let bucket_count = ucast (next_power_of_two (of_nat (max (num div 2) 1)));
            num_dynsym = dynsym_size div 24 in
        if 2 ^ 32 \<le> unat num_dynsym then Inl TooManySymbols
        else
          let sl = \<lparr>sysv_bucket_count = bucket_count, sysv_chain_count = ucast num_dynsym\<rparr> in
          map_sum id (\<lambda>sz. Some (sl, sz)) (sysv_byte_size sl))"

definition finalise_sysv_hash :: "u32 \<Rightarrow> nat \<Rightarrow> sysv_hash_layout \<Rightarrow> hash_error + sysv_hash_layout \<times> u64" where
  "finalise_sysv_hash dynsym_start_index num sl =
     (let additional = of_nat num :: u32 in
      if 2 ^ 32 \<le> unat dynsym_start_index + unat additional then Inl TooManySymbols
      else
        let sl = sl\<lparr>sysv_chain_count := dynsym_start_index + additional\<rparr> in
        map_sum id (\<lambda>sz. (sl, sz)) (sysv_byte_size sl))"

text \<open>The loop over the definitions' names; the state is the buckets, the chains and the last sym_index of each bucket.\<close>

fun sysv_hash_loop ::
    "(bytes \<Rightarrow> u32) \<Rightarrow> u32 \<Rightarrow> u32 \<Rightarrow> nat \<Rightarrow> bytes list \<Rightarrow> u32 list \<times> u32 list \<times> nat option list
      \<Rightarrow> (hash_error + u32 list \<times> u32 list \<times> nat option list) option" where
  "sysv_hash_loop elf_hash nbuckets dynsym_start_index i [] st = Some (Inr st)"
| "sysv_hash_loop elf_hash nbuckets dynsym_start_index i (name # names) (buckets, cvs, last_in_bucket) =
     (if 2 ^ 32 \<le> i \<or> 2 ^ 32 \<le> unat dynsym_start_index + i then Some (Inl TooManySymbols)
      else if nbuckets = 0 then None
      else do {
        let sym_index = dynsym_start_index + of_nat i;
        let bucket = unat (elf_hash name mod nbuckets);
        b \<leftarrow> get_at buckets bucket;
        l \<leftarrow> get_at last_in_bucket bucket;
        if b \<noteq> 0 \<and> l = None then Some (Inl InvalidChain)
        else do {
          buckets \<leftarrow> (if b = 0 then set_at bucket sym_index buckets else Some buckets);
          cvs \<leftarrow> (if b = 0 then Some cvs else set_at (the l) sym_index cvs);
          last_in_bucket \<leftarrow> set_at bucket (Some (unat sym_index)) last_in_bucket;
          sysv_hash_loop elf_hash nbuckets dynsym_start_index (i + 1) names (buckets, cvs, last_in_bucket)
        }
      })"

definition write_sysv_hash_table ::
    "(bytes \<Rightarrow> u32) \<Rightarrow> sysv_hash_layout option \<Rightarrow> u32 \<Rightarrow> bytes list \<Rightarrow> bytes \<Rightarrow> (hash_error + bytes) option" where
  "write_sysv_hash_table elf_hash layout_opt dynsym_start_index names buffer =
     (case layout_opt of
        None \<Rightarrow> Some (Inr buffer)
      | Some sl \<Rightarrow>
          (let bucket_count = unat (sysv_bucket_count sl); chain_count = unat (sysv_chain_count sl);
               total_words = 2 + bucket_count + chain_count; required_bytes = total_words * 4 in
           if bucket_count = 0 \<or> chain_count = 0 then Some (Inr buffer)
           else if 2 ^ 64 \<le> required_bytes then Some (Inl InsufficientAllocation)
           else if length buffer < required_bytes then Some (Inl InsufficientAllocation)
           else do {
             r \<leftarrow> sysv_hash_loop elf_hash (sysv_bucket_count sl) dynsym_start_index 0 names
               (replicate bucket_count 0, replicate chain_count 0, replicate bucket_count None);
             Some (map_sum id (\<lambda>(buckets, cvs, _).
               le_words 4 [sysv_bucket_count sl, sysv_chain_count sl] @ le_words 4 buckets @ le_words 4 cvs @ drop required_bytes buffer) r)
           }))"

subsection \<open>SysV hash: reading\<close>

text \<open>The walk along a chain ends in a symbol or an error or does not end, which is \<open>None\<close>.\<close>

partial_function (option) sysv_chain_lookup ::
    "dynsym_entry list \<Rightarrow> bytes \<Rightarrow> u32 list \<Rightarrow> nat \<Rightarrow> (hash_error + nat) option" where
  "sysv_chain_lookup dynsym name cvs sym_index =
     (if length cvs \<le> sym_index then Some (Inl ChainOutOfRange)
      else case get_at dynsym sym_index of
        None \<Rightarrow> Some (Inl InvalidSymbolIndex)
      | Some e \<Rightarrow>
          if de_name e = name then Some (Inr sym_index)
          else if cvs ! sym_index = 0 then Some (Inl SymbolNotFound)
          else sysv_chain_lookup dynsym name cvs (unat (cvs ! sym_index)))"

declare sysv_chain_lookup.simps [code]

definition sysv_lookup_symbol ::
    "(bytes \<Rightarrow> u32) \<Rightarrow> bytes \<Rightarrow> u32 list \<Rightarrow> u32 list \<Rightarrow> dynsym_entry list \<Rightarrow> (hash_error + nat) option" where
  "sysv_lookup_symbol elf_hash name buckets cvs dynsym =
     (if buckets = [] then Some (Inl InsufficientBuckets)
      else if of_nat (length buckets) = (0 :: u32) then None
      else do {
        b \<leftarrow> get_at buckets (unat (elf_hash name mod of_nat (length buckets)));
        if b = 0 then Some (Inl SymbolNotFound) else sysv_chain_lookup dynsym name cvs (unat b)
      })"

text \<open>The section is its alignment and data.\<close>

definition sysv_check_object ::
    "(bytes \<Rightarrow> u32) \<Rightarrow> (nat \<times> bytes) option \<Rightarrow> dynsym_entry list \<Rightarrow> (hash_error + unit) option" where
  "sysv_check_object elf_hash section dynsym =
     (let num_symbols = max 1 (length dynsym) in
      if num_symbols \<le> 1 then Some (Inr ())
      else case section of
        None \<Rightarrow> Some (Inl MissingSection)
      | Some (al, data) \<Rightarrow>
          if al < 4 then Some (Inl BadAlignment)
          else
            (case read_words 4 2 data of
               None \<Rightarrow> Some (Inl BadHeader)
             | Some (header, rest) \<Rightarrow>
                 (let nbucket = header ! 0; nchain = header ! 1 :: u32 in
                  if nbucket = 0 then Some (Inl InsufficientBuckets)
                  else if unat nchain \<noteq> num_symbols then Some (Inl InsufficientChains)
                  else
                    (case read_words 4 (unat nbucket) rest of
                       None \<Rightarrow> Some (Inl InsufficientBuckets)
                     | Some (buckets, rest) \<Rightarrow>
                         (case read_words 4 (unat nchain) rest of
                            None \<Rightarrow> Some (Inl InsufficientChains)
                          | Some (cvs, _) \<Rightarrow>
                              check_definitions (\<lambda>name. sysv_lookup_symbol elf_hash name buckets cvs dynsym) 1 (tl dynsym))))))"

end
