(* ===== verification/Gnu_Hash.thy ===== *)
theory Gnu_Hash
  imports Symbol_Hash "HOL-Library.Multiset"
begin

unbundle bit_operations_syntax

text \<open>
  The GNU hash table: what the writer's loop computes, as functions of the sorted definitions, and what a lookup
  finds in it.
\<close>

subsection \<open>Words in bytes\<close>

lemma le_words_simps: "le_words n [] = []" "le_words n (w # ws) = to_le_bytes n w @ le_words n ws"
  by (simp_all add: le_words_def)

lemma length_le_words [simp]: "length (le_words n ws) = n * length ws"
  by (induction ws) (simp_all add: le_words_simps)

lemma read_le_words:
  assumes "LENGTH('a::len) \<le> 8 * n"
  shows "read_words n (length ws) (le_words n (ws :: 'a word list) @ rest) = Some (ws, rest)"
  using assms by (induction ws) (simp_all add: le_words_simps from_le_bytes_to_le_bytes)

subsection \<open>What the loop writes\<close>

abbreviation bucket_of :: "gnu_hash_layout \<Rightarrow> dynamic_symbol \<Rightarrow> u32" where
  "bucket_of gl d \<equiv> ds_hash d mod bucket_count gl"

definition gnu_layout_ok :: "gnu_hash_layout \<Rightarrow> bool" where
  "gnu_layout_ok gl \<longleftrightarrow> bucket_count gl \<noteq> 0 \<and> bloom_count gl \<noteq> 0 \<and> bloom_shift gl < 32"

definition last_in_chain :: "gnu_hash_layout \<Rightarrow> dynamic_symbol \<Rightarrow> dynamic_symbol list \<Rightarrow> bool" where
  "last_in_chain gl d ds \<longleftrightarrow> (case ds of [] \<Rightarrow> True | next # _ \<Rightarrow> bucket_of gl next \<noteq> bucket_of gl d)"

fun chain_values :: "gnu_hash_layout \<Rightarrow> dynamic_symbol list \<Rightarrow> u32 list" where
  "chain_values gl [] = []"
| "chain_values gl (d # ds) =
     (if last_in_chain gl d ds then (ds_hash d AND NOT 1) OR 1 else ds_hash d AND NOT 1) # chain_values gl ds"

fun bucket_values :: "gnu_hash_layout \<Rightarrow> nat \<Rightarrow> bool \<Rightarrow> dynamic_symbol list \<Rightarrow> u32 list \<Rightarrow> u32 list" where
  "bucket_values gl i fresh [] buckets = buckets"
| "bucket_values gl i fresh (d # ds) buckets =
     bucket_values gl (i + 1) (last_in_chain gl d ds) ds
       (if fresh then buckets[unat (bucket_of gl d) := of_nat i + symbol_base gl] else buckets)"

definition bloom_index :: "gnu_hash_layout \<Rightarrow> u32 \<Rightarrow> nat" where
  "bloom_index gl hash = unat ((hash div 64) mod bloom_count gl)"

definition bloom_mask :: "gnu_hash_layout \<Rightarrow> u32 \<Rightarrow> u64" where
  "bloom_mask gl hash = push_bit (unat (hash mod 64)) 1 OR push_bit (unat (drop_bit (unat (bloom_shift gl)) hash mod 64)) 1"

fun bloom_values :: "gnu_hash_layout \<Rightarrow> dynamic_symbol list \<Rightarrow> u64 list \<Rightarrow> u64 list" where
  "bloom_values gl [] bloom = bloom"
| "bloom_values gl (d # ds) bloom =
     bloom_values gl ds (bloom[bloom_index gl (ds_hash d) := (bloom ! bloom_index gl (ds_hash d)) OR bloom_mask gl (ds_hash d)])"

lemma unat_mod_less: "c \<noteq> 0 \<Longrightarrow> unat (x mod c :: u32) < unat c"
  by (simp add: unat_mod unat_gt_0)

lemma gnu_hash_loop_eq:
  assumes ok: "gnu_layout_ok gl"
  shows "length bloom = unat (bloom_count gl) \<Longrightarrow> length buckets = unat (bucket_count gl) \<Longrightarrow>
    gnu_hash_loop gl i fresh ds bloom buckets = Some (bloom_values gl ds bloom, bucket_values gl i fresh ds buckets, chain_values gl ds)"
proof (induction ds arbitrary: i fresh bloom buckets)
  case (Cons d ds)
  have c: "bucket_count gl \<noteq> 0" "bloom_count gl \<noteq> 0" "\<not> 32 \<le> bloom_shift gl" using ok by (auto simp: gnu_layout_ok_def)
  have i: "bloom_index gl (ds_hash d) < length bloom" "unat (bucket_of gl d) < length buckets"
    using Cons.prems c unat_mod_less by (simp_all add: bloom_index_def)
  have b: "bucket_for_hash gl h = Some (h mod bucket_count gl)" for h using c by (simp add: bucket_for_hash_def)
  have last: "(case ds of [] \<Rightarrow> True | next # _ \<Rightarrow> bucket_for_hash gl (ds_hash next) \<noteq> Some (bucket_of gl d)) = last_in_chain gl d ds"
    by (simp add: last_in_chain_def b split: list.split)
  let ?bloom = "bloom[bloom_index gl (ds_hash d) := (bloom ! bloom_index gl (ds_hash d)) OR bloom_mask gl (ds_hash d)]"
  let ?buckets = "if fresh then buckets[unat (bucket_of gl d) := of_nat i + symbol_base gl] else buckets"
  have IH: "gnu_hash_loop gl (i + 1) (last_in_chain gl d ds) ds ?bloom ?buckets
      = Some (bloom_values gl ds ?bloom, bucket_values gl (i + 1) (last_in_chain gl d ds) ds ?buckets, chain_values gl ds)"
    using Cons.prems by (intro Cons.IH) simp_all
  show ?case
    using c i b last IH
    by (cases fresh; cases "last_in_chain gl d ds")
      (simp_all add: Let_def get_at_def set_at_def bloom_index_def [symmetric] bloom_mask_def)
qed simp

lemma length_chain_values [simp]: "length (chain_values gl ds) = length ds"
  by (induction ds) simp_all

lemma length_bucket_values [simp]: "length (bucket_values gl i fresh ds buckets) = length buckets"
  by (induction ds arbitrary: i fresh buckets) simp_all

lemma length_bloom_values [simp]: "length (bloom_values gl ds bloom) = length bloom"
  by (induction ds arbitrary: bloom) simp_all

lemma drop_chain_values: "drop k (chain_values gl ds) = chain_values gl (drop k ds)"
  by (induction ds arbitrary: k) (auto simp: drop_Cons' )

text \<open>The bloom filter keeps its bits and has those of every symbol.\<close>

lemma bloom_keeps:
  "j < length bloom \<Longrightarrow> bit (bloom ! j) n \<Longrightarrow> bit (bloom_values gl ds bloom ! j) n"
proof (induction ds arbitrary: bloom)
  case (Cons d ds)
  have "bit (bloom[k := (bloom ! k) OR m] ! j) n" for k m using Cons.prems by (cases "j = k") (simp_all add: bit_or_iff)
  then show ?case using Cons.prems(1) by (simp add: Cons.IH)
qed simp

lemma bloom_has:
  assumes ok: "gnu_layout_ok gl"
  shows "length bloom = unat (bloom_count gl) \<Longrightarrow> d \<in> set ds \<Longrightarrow>
    bloom_values gl ds bloom ! bloom_index gl (ds_hash d) AND bloom_mask gl (ds_hash d) = bloom_mask gl (ds_hash d)"
proof (induction ds arbitrary: bloom)
  case (Cons e ds)
  let ?i = "bloom_index gl (ds_hash e)"
  let ?bloom = "bloom[?i := (bloom ! ?i) OR bloom_mask gl (ds_hash e)]"
  show ?case
  proof (cases "d = e")
    case True
    have "?i < length ?bloom" using ok Cons.prems(1) unat_mod_less by (simp add: bloom_index_def gnu_layout_ok_def)
    then have "bit (bloom_values gl ds ?bloom ! ?i) n" if "bit (bloom_mask gl (ds_hash e)) n" for n
      using that by (intro bloom_keeps) (simp_all add: bit_or_iff)
    then show ?thesis using True by (auto intro!: bit_word_eqI simp: bit_and_iff)
  next
    case False
    then show ?thesis using Cons by simp
  qed
qed simp

text \<open>A bucket has the first symbol of its run.\<close>

abbreviation first_of_bucket :: "gnu_hash_layout \<Rightarrow> u32 \<Rightarrow> dynamic_symbol list \<Rightarrow> nat" where
  "first_of_bucket gl b ds \<equiv> length (takeWhile (\<lambda>d. bucket_of gl d \<noteq> b) ds)"

lemma bucket_values_nth:
  assumes ok: "gnu_layout_ok gl"
  shows "sorted (map (bucket_of gl) ds) \<Longrightarrow> unat b < length buckets \<Longrightarrow> length buckets = unat (bucket_count gl) \<Longrightarrow>
    bucket_values gl i fresh ds buckets ! unat b =
      (if (\<exists>d \<in> set ds. bucket_of gl d = b) \<and> (fresh \<or> bucket_of gl (hd ds) \<noteq> b)
       then of_nat (i + first_of_bucket gl b ds) + symbol_base gl else buckets ! unat b)"
proof (induction ds arbitrary: i fresh buckets)
  case (Cons d ds)
  let ?last = "last_in_chain gl d ds"
  let ?buckets = "if fresh then buckets[unat (bucket_of gl d) := of_nat i + symbol_base gl] else buckets"
  have IH: "bucket_values gl (i + 1) ?last ds ?buckets ! unat b =
      (if (\<exists>d \<in> set ds. bucket_of gl d = b) \<and> (?last \<or> bucket_of gl (hd ds) \<noteq> b)
       then of_nat (i + 1 + first_of_bucket gl b ds) + symbol_base gl else ?buckets ! unat b)"
    using Cons.prems by (intro Cons.IH) auto
  have greater: "bucket_of gl d < bucket_of gl e" if ?last "e \<in> set ds" for e
  proof -
    from that(2) have "ds \<noteq> []" by auto
    then obtain f fs where ds: "ds = f # fs" by (cases ds) auto
    then have "bucket_of gl d < bucket_of gl f" using that(1) Cons.prems(1) by (auto simp: last_in_chain_def)
    also have "\<dots> \<le> bucket_of gl e" using that(2) Cons.prems(1) ds by auto
    finally show ?thesis .
  qed
  have same: "bucket_of gl (hd ds) = bucket_of gl d" "ds \<noteq> []" if "\<not> ?last"
    using that by (auto simp: last_in_chain_def split: list.splits)
  show ?case
  proof (cases "bucket_of gl d = b")
    case True
    have "\<not> ((\<exists>d \<in> set ds. bucket_of gl d = b) \<and> (?last \<or> bucket_of gl (hd ds) \<noteq> b))"
      using greater same True by fastforce
    then have "bucket_values gl (i + 1) ?last ds ?buckets ! unat b = ?buckets ! unat b" unfolding IH by (rule if_not_P)
    then show ?thesis using True Cons.prems(2) by simp
  next
    case False
    then have "unat (bucket_of gl d) \<noteq> unat b" by (simp add: word_unat_eq_iff)
    then have old: "?buckets ! unat b = buckets ! unat b" by simp
    have "((\<exists>d \<in> set ds. bucket_of gl d = b) \<and> (?last \<or> bucket_of gl (hd ds) \<noteq> b)) \<longleftrightarrow> (\<exists>d \<in> set ds. bucket_of gl d = b)"
      using same False by auto
    then show ?thesis using IH False old by simp
  qed
qed simp

subsection \<open>Looking a symbol up\<close>

lemma chain_value_hash:
  "((h AND - 2) OR 1) AND - 2 = h AND - (2 :: u32)" "((h AND - 2) OR 1) AND 1 = (1 :: u32)" "(h AND - 2) AND 1 = (0 :: u32)"
proof -
  have one: "bit (1 :: u32) n \<longleftrightarrow> n = 0" for n by (simp add: bit_1_iff)
  have two: "- 2 = NOT (1 :: u32)" by simp
  show "((h AND - 2) OR 1) AND - 2 = h AND - (2 :: u32)" "((h AND - 2) OR 1) AND 1 = (1 :: u32)" "(h AND - 2) AND 1 = (0 :: u32)"
    unfolding two by (rule bit_word_eqI, auto simp: bit_and_iff bit_or_iff bit_not_iff one)+
qed

definition symbols_at :: "dynsym_entry list \<Rightarrow> nat \<Rightarrow> dynamic_symbol list \<Rightarrow> bool" where
  "symbols_at dynsym i ds \<longleftrightarrow> (\<forall>k < length ds. map_option de_name (get_at dynsym (i + k)) = Some (ds_name (ds ! k)))"

lemma symbols_at_Cons: "symbols_at dynsym i (d # ds) \<longleftrightarrow> map_option de_name (get_at dynsym i) = Some (ds_name d) \<and> symbols_at dynsym (i + 1) ds"
  unfolding symbols_at_def by (auto simp: All_less_Suc2 simp del: map_option_eq_Some)

lemma gnu_chain_step:
  assumes "symbols_at dynsym i (d # ds)" and "ds_hash d = gnu_hash (ds_name d)"
  shows "gnu_chain_lookup dynsym name (gnu_hash name) i (chain_values gl (d # ds)) =
    (if ds_name d = name then Some (Inr i)
     else if last_in_chain gl d ds then Some (Inl SymbolNotFound)
     else gnu_chain_lookup dynsym name (gnu_hash name) (i + 1) (chain_values gl ds))"
  using assms by (auto simp: symbols_at_Cons chain_value_hash simp del: map_option_eq_Some)

lemma gnu_chain_found:
  assumes "symbols_at dynsym i ds" and "\<forall>d \<in> set ds. ds_hash d = gnu_hash (ds_name d)" and "k < length ds"
    and "ds_name (ds ! k) = name" and "\<forall>j < k. ds_name (ds ! j) \<noteq> name \<and> bucket_of gl (ds ! Suc j) = bucket_of gl (ds ! j)"
  shows "gnu_chain_lookup dynsym name (gnu_hash name) i (chain_values gl ds) = Some (Inr (i + k))"
  using assms
proof (induction ds arbitrary: i k)
  case (Cons d ds)
  note step = gnu_chain_step [OF Cons.prems(1), of gnu_hash name gl]
  show ?case
  proof (cases k)
    case 0
    then show ?thesis using step Cons.prems by simp
  next
    case (Suc k')
    have "ds_name d \<noteq> name" "bucket_of gl (ds ! 0) = bucket_of gl d" using Cons.prems(5) Suc by (auto dest: spec [of _ 0])
    moreover from this have "\<not> last_in_chain gl d ds"
      using Cons.prems(3) Suc by (auto simp: last_in_chain_def split: list.split)
    moreover have "gnu_chain_lookup dynsym name (gnu_hash name) (i + 1) (chain_values gl ds) = Some (Inr (i + 1 + k'))"
      using Cons.prems Suc by (intro Cons.IH) (auto simp: symbols_at_Cons simp del: map_option_eq_Some dest: spec [of _ "Suc _"])
    ultimately show ?thesis using step Cons.prems(2) Suc by simp
  qed
qed simp

lemma gnu_chain_absent:
  assumes "symbols_at dynsym i ds" and "\<forall>d \<in> set ds. ds_hash d = gnu_hash (ds_name d) \<and> ds_name d \<noteq> name" and "ds \<noteq> []"
  shows "gnu_chain_lookup dynsym name (gnu_hash name) i (chain_values gl ds) = Some (Inl SymbolNotFound)"
  using assms
proof (induction ds arbitrary: i)
  case (Cons d ds)
  have "last_in_chain gl d ds" if "ds = []" using that by (simp add: last_in_chain_def)
  then show ?case
    using gnu_chain_step [OF Cons.prems(1), of gnu_hash name gl] Cons.prems Cons.IH [of "i + 1"]
    by (auto simp: symbols_at_Cons simp del: map_option_eq_Some)
qed simp

text \<open>The symbols of a bucket are consecutive in the sorted definitions.\<close>

lemma sorted_run:
  assumes "sorted (map (bucket_of gl) ds)" and "k < length ds" and "first_of_bucket gl (bucket_of gl (ds ! k)) ds \<le> j" and "j \<le> k"
  shows "bucket_of gl (ds ! j) = bucket_of gl (ds ! k)"
proof -
  let ?b = "bucket_of gl (ds ! k)" and ?f = "first_of_bucket gl (bucket_of gl (ds ! k)) ds"
  have "?f < length ds" using assms(2-4) by simp
  then have "bucket_of gl (ds ! ?f) = ?b" using nth_length_takeWhile [of "\<lambda>d. bucket_of gl d \<noteq> ?b" ds] by simp
  moreover have "bucket_of gl (ds ! ?f) \<le> bucket_of gl (ds ! j)" "bucket_of gl (ds ! j) \<le> ?b"
    using sorted_nth_mono [OF assms(1), of ?f j] sorted_nth_mono [OF assms(1), of j k] assms(2-4) by simp_all
  ultimately show ?thesis by simp
qed

lemma first_of_bucket_le: "k < length ds \<Longrightarrow> first_of_bucket gl (bucket_of gl (ds ! k)) ds \<le> k"
proof -
  assume k: "k < length ds"
  have "\<not> k < length (takeWhile (\<lambda>d. bucket_of gl d \<noteq> bucket_of gl (ds ! k)) ds)"
    using set_takeWhileD [of "ds ! k" "\<lambda>d. bucket_of gl d \<noteq> bucket_of gl (ds ! k)" ds] takeWhile_nth [of k "\<lambda>d. bucket_of gl d \<noteq> bucket_of gl (ds ! k)" ds]
    by (metis nth_mem)
  then show ?thesis by simp
qed

text \<open>What is in the section, and the symbol table with the definitions from the symbol base on.\<close>

definition gnu_table_of ::
    "(bytes \<Rightarrow> u32) \<Rightarrow> gnu_hash_layout \<Rightarrow> dynamic_symbol list \<Rightarrow> dynsym_entry list \<Rightarrow> bool" where
  "gnu_table_of gnu_hash gl ds dynsym \<longleftrightarrow> gnu_layout_ok gl \<and> sorted (map (bucket_of gl) ds) \<and> distinct (map ds_name ds)
     \<and> (\<forall>d \<in> set ds. ds_hash d = gnu_hash (ds_name d)) \<and> symbols_at dynsym (unat (symbol_base gl)) ds
     \<and> 0 < symbol_base gl \<and> unat (symbol_base gl) + length ds < 2 ^ 32"

lemma gnu_lookup_correct:
  assumes t: "gnu_table_of gnu_hash gl ds dynsym"
  defines "look \<equiv> \<lambda>name. gnu_lookup_symbol gnu_hash name (symbol_base gl) (bloom_shift gl) (bloom_values gl ds (replicate (unat (bloom_count gl)) 0))
    (bucket_values gl 0 True ds (replicate (unat (bucket_count gl)) 0)) (chain_values gl ds) dynsym"
  shows "k < length ds \<Longrightarrow> look (ds_name (ds ! k)) = Some (Inr (unat (symbol_base gl) + k))"
    and "name \<notin> ds_name ` set ds \<Longrightarrow> \<exists>e. look name = Some (Inl e)"
proof -
  let ?bloom = "bloom_values gl ds (replicate (unat (bloom_count gl)) 0)"
  let ?base = "unat (symbol_base gl)"
  have ok: "gnu_layout_ok gl" and sorted: "sorted (map (bucket_of gl) ds)" and dist: "distinct (map ds_name ds)"
    and hash: "\<forall>d \<in> set ds. ds_hash d = gnu_hash (ds_name d)" and syms: "symbols_at dynsym ?base ds"
    and base: "0 < symbol_base gl" and bound: "?base + length ds < 2 ^ 32" using t by (simp_all add: gnu_table_of_def)
  have c: "bucket_count gl \<noteq> 0" "bloom_count gl \<noteq> 0" "\<not> 32 \<le> bloom_shift gl" using ok by (auto simp: gnu_layout_ok_def)
  have bucket: "bucket_values gl 0 True ds (replicate (unat (bucket_count gl)) 0) ! unat (gnu_hash n mod bucket_count gl)
      = (if \<exists>d \<in> set ds. bucket_of gl d = gnu_hash n mod bucket_count gl
         then of_nat (first_of_bucket gl (gnu_hash n mod bucket_count gl) ds) + symbol_base gl else 0)" for n
    using bucket_values_nth [OF ok sorted, of "gnu_hash n mod bucket_count gl" "replicate (unat (bucket_count gl)) 0" 0 True] unat_mod_less [OF c(1), of "gnu_hash n"]
    by simp
  have look: "look n = (if ?bloom ! bloom_index gl (gnu_hash n) AND bloom_mask gl (gnu_hash n) \<noteq> bloom_mask gl (gnu_hash n) then Some (Inl BloomExcludes)
      else let b = (if \<exists>d \<in> set ds. bucket_of gl d = gnu_hash n mod bucket_count gl
         then of_nat (first_of_bucket gl (gnu_hash n mod bucket_count gl) ds) + symbol_base gl else 0) in
        if b < symbol_base gl then Some (Inl BelowSymbolBase)
        else gnu_chain_lookup dynsym n (gnu_hash n) (unat b) (drop (unat b - ?base) (chain_values gl ds)))" for n
    using c unat_mod_less [OF c(1), of "gnu_hash n"] unat_mod_less [OF c(2), of "gnu_hash n div 64"] bucket [of n]
    by (simp add: look_def gnu_lookup_symbol_def Let_def get_at_def bloom_index_def bloom_mask_def)
  have at: "unat (of_nat f + symbol_base gl) = ?base + f" "\<not> of_nat f + symbol_base gl < symbol_base gl"
    if "f \<le> length ds" for f
  proof -
    show u: "unat (of_nat f + symbol_base gl) = ?base + f"
      using that bound by (subst unat_add_lem [THEN iffD1]) (simp_all add: unsigned_of_nat take_bit_nat_eq_self)
    show "\<not> of_nat f + symbol_base gl < symbol_base gl" using u by (simp add: word_less_nat_alt)
  qed
  have later: "symbols_at dynsym (?base + f) (drop f ds)" for f
    using syms by (auto simp: symbols_at_def add.assoc simp del: map_option_eq_Some)
  show "look (ds_name (ds ! k)) = Some (Inr (?base + k))" if k: "k < length ds"
  proof -
    let ?d = "ds ! k" and ?f = "first_of_bucket gl (bucket_of gl (ds ! k)) ds"
    have d: "?d \<in> set ds" "ds_hash ?d = gnu_hash (ds_name ?d)" using k hash by simp_all
    have f: "?f \<le> k" by (rule first_of_bucket_le [OF k])
    have "gnu_chain_lookup dynsym (ds_name ?d) (gnu_hash (ds_name ?d)) (?base + ?f) (chain_values gl (drop ?f ds)) = Some (Inr (?base + ?f + (k - ?f)))"
    proof (rule gnu_chain_found [OF later])
      show "\<forall>d \<in> set (drop ?f ds). ds_hash d = gnu_hash (ds_name d)" using hash by (auto dest: in_set_dropD)
      show "k - ?f < length (drop ?f ds)" "ds_name (drop ?f ds ! (k - ?f)) = ds_name ?d" using k f by simp_all
      show "\<forall>j < k - ?f. ds_name (drop ?f ds ! j) \<noteq> ds_name ?d \<and> bucket_of gl (drop ?f ds ! Suc j) = bucket_of gl (drop ?f ds ! j)"
      proof (intro allI impI conjI)
        fix j assume j: "j < k - ?f"
        then show "ds_name (drop ?f ds ! j) \<noteq> ds_name ?d"
          using k f dist nth_eq_iff_index_eq [of "map ds_name ds" "?f + j" k] by simp
        have "bucket_of gl (ds ! (?f + j)) = bucket_of gl ?d" "bucket_of gl (ds ! (?f + Suc j)) = bucket_of gl ?d"
          using j by (intro sorted_run [OF sorted k]; simp)+
        then show "bucket_of gl (drop ?f ds ! Suc j) = bucket_of gl (drop ?f ds ! j)" using j k by simp
      qed
    qed
    moreover have "?bloom ! bloom_index gl (gnu_hash (ds_name ?d)) AND bloom_mask gl (gnu_hash (ds_name ?d)) = bloom_mask gl (gnu_hash (ds_name ?d))"
      using bloom_has [OF ok _ d(1), of "replicate (unat (bloom_count gl)) 0"] d(2) by simp
    moreover have "\<exists>d \<in> set ds. bucket_of gl d = gnu_hash (ds_name ?d) mod bucket_count gl" using d by metis
    ultimately show ?thesis
      using at [of ?f] f k d(2) by (simp add: look Let_def drop_chain_values)
  qed
  show "\<exists>e. look name = Some (Inl e)" if n: "name \<notin> ds_name ` set ds"
  proof (cases "\<exists>d \<in> set ds. bucket_of gl d = gnu_hash name mod bucket_count gl")
    case False
    then show ?thesis using base by (auto simp: look Let_def)
  next
    case True
    let ?f = "first_of_bucket gl (gnu_hash name mod bucket_count gl) ds"
    have "takeWhile (\<lambda>d. bucket_of gl d \<noteq> gnu_hash name mod bucket_count gl) ds \<noteq> ds" using True by (simp add: takeWhile_eq_all_conv)
    then have "?f < length ds"
      using length_takeWhile_le [of "\<lambda>d. bucket_of gl d \<noteq> gnu_hash name mod bucket_count gl" ds] takeWhile_eq_take [of "\<lambda>d. bucket_of gl d \<noteq> gnu_hash name mod bucket_count gl" ds]
      by (metis nat_less_le take_all_iff)
    then have "gnu_chain_lookup dynsym name (gnu_hash name) (?base + ?f) (chain_values gl (drop ?f ds)) = Some (Inl SymbolNotFound)"
      using hash n by (intro gnu_chain_absent [OF later]) (auto dest: in_set_dropD)
    then show ?thesis using True at [of ?f] \<open>?f < length ds\<close> by (auto simp: look Let_def drop_chain_values)
  qed
qed

subsection \<open>From the definitions to the check of the section\<close>

definition definition_entry :: "dynamic_symbol \<Rightarrow> dynsym_entry" where
  "definition_entry d = \<lparr>de_name = ds_name d, de_definition = True\<rparr>"

lemma check_definitions_found:
  assumes "\<forall>k < length ss. de_definition (ss ! k) \<longrightarrow>
    utf8_valid (map (char_of \<circ> unat) (de_name (ss ! k))) \<and> lookup (de_name (ss ! k)) = Some (Inr (i + k))"
  shows "check_definitions lookup i ss = Some (Inr ())"
  using assms
proof (induction ss arbitrary: i)
  case (Cons s ss)
  have "check_definitions lookup (i + 1) ss = Some (Inr ())"
    using Cons.prems by (intro Cons.IH) (auto dest: spec [of _ "Suc _"])
  moreover have "de_definition s \<longrightarrow> utf8_valid (map (char_of \<circ> unat) (de_name s)) \<and> lookup (de_name s) = Some (Inr i)"
    using Cons.prems [rule_format, of 0] by simp
  ultimately show ?case by simp
qed simp

lemma check_definitions_dynsym:
  assumes undefs: "undefs \<noteq> []" "\<forall>u \<in> set undefs. \<not> de_definition u"
    and names: "\<forall>d \<in> set ds. utf8_valid (map (char_of \<circ> unat) (ds_name d))"
    and look: "\<forall>k < length ds. lookup (ds_name (ds ! k)) = Some (Inr (length undefs + k))"
  shows "check_definitions lookup 1 (tl (undefs @ map definition_entry ds)) = Some (Inr ())"
proof (rule check_definitions_found, intro allI impI)
  let ?dynsym = "undefs @ map definition_entry ds"
  fix k assume k: "k < length (tl ?dynsym)" and def: "de_definition (tl ?dynsym ! k)"
  have at: "tl ?dynsym ! k = ?dynsym ! Suc k" using k by (simp add: nth_tl)
  have "\<not> Suc k < length undefs"
  proof
    assume "Suc k < length undefs"
    moreover from this have "undefs ! Suc k \<in> set undefs" by simp
    ultimately show False using def undefs(2) at by (simp add: nth_append)
  qed
  moreover have "Suc k < length undefs + length ds" using k by simp
  ultimately obtain j where j: "Suc k = length undefs + j" "j < length ds"
    by (intro that [of "Suc k - length undefs"]) simp_all
  then have "?dynsym ! Suc k = definition_entry (ds ! j)" by (simp add: nth_append)
  then show "utf8_valid (map (char_of \<circ> unat) (de_name (tl ?dynsym ! k))) \<and> lookup (de_name (tl ?dynsym ! k)) = Some (Inr (1 + k))"
    using look j names by (simp add: at definition_entry_def)
qed

lemma gnu_bucket_count:
  assumes "n < 2 ^ 32"
  shows "(ucast (next_power_of_two (of_nat n div 2)) :: u32) \<noteq> 0"
proof (cases "of_nat n div 2 = (0 :: u64)")
  case True
  then show ?thesis by (simp add: next_power_of_two_def)
next
  case False
  have half: "unat (of_nat n div 2 :: u64) = n div 2" "n div 2 < 2 ^ 31"
    using assms by (simp_all add: unat_div unsigned_of_nat take_bit_nat_eq_self)
  have "unat (next_power_of_two (of_nat n div 2)) < 2 * (n div 2)" "n div 2 \<le> unat (next_power_of_two (of_nat n div 2))"
    using next_power_of_two_bounds [OF False] half by simp_all
  moreover have "0 < n div 2" using False half(1) by (metis gr0I unat_0_iff)
  ultimately have "unat (ucast (next_power_of_two (of_nat n div 2)) :: u32) \<noteq> 0"
    using half(2) by (simp add: unsigned_ucast_eq take_bit_nat_eq_self)
  then show ?thesis by (metis unat_0)
qed

lemma create_gnu_hash_layout_ok:
  assumes "length defs < 2 ^ 32"
  shows "\<exists>gl ds. create_gnu_hash_layout True True defs = Some (Some gl, ds) \<and> mset ds = mset defs \<and> gnu_layout_ok gl
    \<and> sorted (map (bucket_of gl) ds) \<and> num_defs gl = of_nat (length defs) \<and> bloom_count gl = 1 \<and> symbol_base gl = 0
    \<and> (defs = [] \<longrightarrow> bucket_count gl = 1)"
proof -
  obtain gl where gl: "gl = \<lparr>num_defs = of_nat (length defs), bucket_count = ucast (next_power_of_two (of_nat (length defs) div 2)),
                  bloom_shift = 6, bloom_count = 1, symbol_base = 0\<rparr>" by blast
  let ?key = "\<lambda>d. (the (bucket_for_hash gl (ds_hash d)), ds_name d)"
  have count: "bucket_count gl \<noteq> 0" using gnu_bucket_count [OF assms] gl by simp
  have "create_gnu_hash_layout True True defs = Some (Some gl, sort_key ?key defs)"
    using count gl by (simp add: create_gnu_hash_layout_def Let_def)
  moreover have "sorted (map (bucket_of gl) (sort_key ?key defs))"
  proof -
    have "sorted (map fst (map ?key (sort_key ?key defs)))"
      using sorted_sort_key [of ?key defs] by (auto simp: sorted_wrt_map less_eq_prod_def elim!: sorted_wrt_mono_rel [rotated])
    then show ?thesis using count by (simp add: bucket_for_hash_def comp_def)
  qed
  moreover have "mset (sort_key ?key defs) = mset defs" by simp
  moreover have "defs = [] \<longrightarrow> bucket_count gl = 1" "gnu_layout_ok gl" "num_defs gl = of_nat (length defs)" "bloom_count gl = 1" "symbol_base gl = 0"
    using gl count by (simp_all add: next_power_of_two_def gnu_layout_ok_def)
  ultimately show ?thesis by blast
qed

lemma gnu_table_with_base:
  assumes "gnu_layout_ok gl" and "sorted (map (bucket_of gl) ds)" and "distinct (map ds_name ds)"
    and "\<forall>d \<in> set ds. ds_hash d = gnu_hash (ds_name d)" and "0 < base" and "unat base + length ds < 2 ^ 32" and "length undefs = unat base"
  shows "gnu_table_of gnu_hash (gl\<lparr>symbol_base := base\<rparr>) ds (undefs @ map definition_entry ds)"
  using assms by (simp add: gnu_table_of_def gnu_layout_ok_def symbols_at_def get_at_def nth_append definition_entry_def)

lemma write_gnu_hash_tables_ok:
  assumes ok: "gnu_layout_ok gl" and "bloom_count gl = 1" and "num_defs gl = of_nat (length ds)" and "length ds < 2 ^ 32"
    and "length buffer = gnu_hash_allocate gl"
  shows "write_gnu_hash_tables (Some gl) ds buffer = Some (Inr (gnu_hash_header_bytes gl
    @ le_words 8 (bloom_values gl ds (replicate (unat (bloom_count gl)) 0))
    @ le_words 4 (bucket_values gl 0 True ds (replicate (unat (bucket_count gl)) 0)) @ le_words 4 (chain_values gl ds)))"
  using assms gnu_hash_loop_eq [OF ok, of "replicate (unat (bloom_count gl)) 0" "replicate (unat (bucket_count gl)) 0" 0 True ds]
  by (simp add: write_gnu_hash_tables_def gnu_hash_allocate_def Let_def unsigned_of_nat take_bit_nat_eq_self)

lemma read_gnu_header: "read_words 4 4 (gnu_hash_header_bytes gl @ rest) = Some ([bucket_count gl, symbol_base gl, bloom_count gl, bloom_shift gl], rest)"
  using read_le_words [of 4 "[bucket_count gl, symbol_base gl, bloom_count gl, bloom_shift gl]" rest]
  by (simp add: gnu_hash_header_bytes_def numeral_eq_Suc)

text \<open>The check accepts every table of sorted definitions whose names are UTF-8.\<close>

lemma gnu_check_object_table:
  assumes t: "gnu_table_of gnu_hash gl ds dynsym" and dynsym: "dynsym = undefs @ map definition_entry ds"
    and undefs: "length undefs = unat (symbol_base gl)" "\<forall>u \<in> set undefs. \<not> de_definition u"
    and names: "\<forall>d \<in> set ds. utf8_valid (map (char_of \<circ> unat) (ds_name d))" and one: "ds = [] \<longrightarrow> bucket_count gl = 1"
  shows "gnu_check_object gnu_hash (Some (8, gnu_hash_header_bytes gl
    @ le_words 8 (bloom_values gl ds (replicate (unat (bloom_count gl)) 0))
    @ le_words 4 (bucket_values gl 0 True ds (replicate (unat (bucket_count gl)) 0)) @ le_words 4 (chain_values gl ds))) dynsym = Some (Inr ())"
proof -
  let ?bloom = "bloom_values gl ds (replicate (unat (bloom_count gl)) 0)"
  let ?buckets = "bucket_values gl 0 True ds (replicate (unat (bucket_count gl)) 0)"
  let ?look = "\<lambda>name. gnu_lookup_symbol gnu_hash name (symbol_base gl) (bloom_shift gl) ?bloom ?buckets (chain_values gl ds) dynsym"
  have base: "0 < unat (symbol_base gl)" using t by (simp add: gnu_table_of_def unat_gt_0 word_gt_0)
  have len: "max 1 (length dynsym) - unat (symbol_base gl) = length (chain_values gl ds)" "unat (symbol_base gl) \<le> max 1 (length dynsym)"
    using base dynsym undefs by simp_all
  have short: "\<not> max 1 (length dynsym) < unat (symbol_base gl)" using len(2) by linarith
  have fst: "max 1 (length dynsym) - unat (symbol_base gl) = length ds" using len(1) by simp
  have read: "read_words 8 (unat (bloom_count gl)) (le_words 8 ?bloom @ rest) = Some (?bloom, rest)"
    "read_words 4 (unat (bucket_count gl)) (le_words 4 ?buckets @ rest) = Some (?buckets, rest)"
    "read_words 4 (length (chain_values gl ds)) (le_words 4 (chain_values gl ds)) = Some (chain_values gl ds, [])" for rest
    using read_le_words [of 8 ?bloom rest] read_le_words [of 4 ?buckets rest] read_le_words [of 4 "chain_values gl ds" "[]"] by simp_all
  have "undefs \<noteq> []" using base undefs(1) by auto
  then have "check_definitions ?look 1 (tl dynsym) = Some (Inr ())"
    unfolding dynsym using undefs names gnu_lookup_correct(1) [OF t] dynsym by (intro check_definitions_dynsym) simp_all
  then show ?thesis
    using read by (simp add: gnu_check_object_def read_gnu_header short fst Let_def del: read_words.simps max_less_iff_conj One_nat_def)
qed

text \<open>C16. GNU hash tables. For definitions with distinct UTF-8 names and their hashes, the layout can be
created, its sorted definitions are a permutation, and after the symbol base is set, writing into a buffer
of the allocated size succeeds. A lookup in what was written finds each definition at its place in the
symbol table and gives an error for every other name, and the check of the section accepts it.\<close>

theorem gnu_hash_tables_correct:
  assumes "distinct (map ds_name defs)"
    and "\<forall>d \<in> set defs. ds_hash d = gnu_hash (ds_name d) \<and> utf8_valid (map (char_of \<circ> unat) (ds_name d))"
    and "0 < base" and "unat base + length defs < 2 ^ 32"
    and "length undefs = unat base" and "\<forall>u \<in> set undefs. \<not> de_definition u"
  shows "\<exists>gl ds. create_gnu_hash_layout True True defs = Some (Some gl, ds) \<and> mset ds = mset defs \<and>
    (\<forall>buffer. length buffer = gnu_hash_allocate gl \<longrightarrow>
      (\<exists>out bloom buckets cvs. write_gnu_hash_tables (Some (finalise_gnu_hash base gl)) ds buffer = Some (Inr out)
        \<and> out = gnu_hash_header_bytes (finalise_gnu_hash base gl) @ le_words 8 bloom @ le_words 4 buckets @ le_words 4 cvs
        \<and> (let look = \<lambda>name. gnu_lookup_symbol gnu_hash name base (bloom_shift gl) bloom buckets cvs (undefs @ map definition_entry ds) in
             (\<forall>k < length ds. look (ds_name (ds ! k)) = Some (Inr (unat base + k)))
             \<and> (\<forall>name. name \<notin> ds_name ` set ds \<longrightarrow> (\<exists>e. look name = Some (Inl e))))
        \<and> gnu_check_object gnu_hash (Some (8, out)) (undefs @ map definition_entry ds) = Some (Inr ())))"
proof -
  have "length defs < 2 ^ 32" using assms(4) by linarith
  from create_gnu_hash_layout_ok [OF this] obtain gl ds where gl: "create_gnu_hash_layout True True defs = Some (Some gl, ds)"
    "mset ds = mset defs" "gnu_layout_ok gl" "sorted (map (bucket_of gl) ds)" "num_defs gl = of_nat (length defs)"
    "bloom_count gl = 1" "defs = [] \<longrightarrow> bucket_count gl = 1" by blast
  let ?gl = "finalise_gnu_hash base gl" and ?dynsym = "undefs @ map definition_entry ds"
  have same: "set ds = set defs" "length ds = length defs" "distinct (map ds_name ds)"
    using gl(2) assms(1) by (auto dest: mset_eq_setD mset_eq_length simp: distinct_map distinct_count_atmost_1 mset_eq_imp_distinct_iff)
  have table: "gnu_table_of gnu_hash ?gl ds ?dynsym"
    unfolding finalise_gnu_hash_def using gl(3,4) same assms by (intro gnu_table_with_base) auto
  have "write_gnu_hash_tables (Some ?gl) ds buffer = Some (Inr (gnu_hash_header_bytes ?gl
      @ le_words 8 (bloom_values ?gl ds (replicate (unat (bloom_count ?gl)) 0))
      @ le_words 4 (bucket_values ?gl 0 True ds (replicate (unat (bucket_count ?gl)) 0)) @ le_words 4 (chain_values ?gl ds)))"
    if "length buffer = gnu_hash_allocate gl" for buffer
    using gl same that assms(4) by (intro write_gnu_hash_tables_ok) (auto simp: finalise_gnu_hash_def gnu_layout_ok_def gnu_hash_allocate_def)
  moreover have "gnu_check_object gnu_hash (Some (8, gnu_hash_header_bytes ?gl
      @ le_words 8 (bloom_values ?gl ds (replicate (unat (bloom_count ?gl)) 0))
      @ le_words 4 (bucket_values ?gl 0 True ds (replicate (unat (bucket_count ?gl)) 0)) @ le_words 4 (chain_values ?gl ds))) ?dynsym = Some (Inr ())"
    using table same assms gl(7) by (intro gnu_check_object_table [of gnu_hash ?gl ds ?dynsym undefs]) (auto simp: finalise_gnu_hash_def)
  moreover note gnu_lookup_correct [OF table]
  moreover have "symbol_base ?gl = base" "bloom_shift ?gl = bloom_shift gl" by (simp_all add: finalise_gnu_hash_def)
  ultimately show ?thesis using gl(1,2) unfolding Let_def by metis
qed


theorem gnu_hash_tables_correct_witness:
  "\<exists>gl ds. create_gnu_hash_layout True True [\<lparr>ds_name = [97], ds_hash = 5\<rparr>, \<lparr>ds_name = [98], ds_hash = 5\<rparr>] = Some (Some gl, ds) \<and>
    (\<forall>buffer. length buffer = gnu_hash_allocate gl \<longrightarrow> (\<exists>out. write_gnu_hash_tables (Some (finalise_gnu_hash 1 gl)) ds buffer = Some (Inr out)
      \<and> gnu_check_object (\<lambda>_. 5) (Some (8, out)) ([\<lparr>de_name = [], de_definition = False\<rparr>] @ map definition_entry ds) = Some (Inr ())))"
proof -
  let ?defs = "[\<lparr>ds_name = [97], ds_hash = 5\<rparr>, \<lparr>ds_name = [98], ds_hash = 5\<rparr>]"
  have "\<forall>d \<in> set ?defs. ds_hash d = 5 \<and> utf8_valid (map (char_of \<circ> unat) (ds_name d))" by code_simp
  then show ?thesis
    using gnu_hash_tables_correct [of ?defs "\<lambda>_. 5" 1 "[\<lparr>de_name = [], de_definition = False\<rparr>]"]
    by (simp add: Let_def) blast
qed

end
