(* ===== verification/Sysv_Hash.thy ===== *)
theory Sysv_Hash
  imports Gnu_Hash
begin

unbundle bit_operations_syntax

text \<open>
  The SysV hash table: the chains that the writer builds are paths through the chain array, one for each
  bucket, and the reader's walk along such a path ends.
\<close>

subsection \<open>Chains\<close>

text \<open>The symbols of a chain, in order: each entry leads to the next and the last to zero.\<close>

fun chained :: "u32 list \<Rightarrow> nat list \<Rightarrow> bool" where
  "chained cvs [] \<longleftrightarrow> True"
| "chained cvs [x] \<longleftrightarrow> cvs ! x = 0"
| "chained cvs (x # y # xs) \<longleftrightarrow> unat (cvs ! x) = y \<and> chained cvs (y # xs)"

lemma chained_update_other: "l \<notin> set xs \<Longrightarrow> chained (cvs[l := v]) xs \<longleftrightarrow> chained cvs xs"
  by (induction cvs xs rule: chained.induct) auto

lemma chained_append:
  assumes "chained cvs (xs @ [l])" and "distinct (xs @ [l, x])" and "set (xs @ [l]) \<subseteq> {..< length cvs}"
    and "unat v = x" and "cvs ! x = 0"
  shows "chained (cvs[l := v]) (xs @ [l, x])"
  using assms by (induction xs rule: induct_list012) auto

lemma sysv_chain_walk:
  assumes "chained cvs (x # xs)" and "\<forall>y \<in> set (x # xs). y < length cvs \<and> y < length dynsym \<and> y \<noteq> 0"
  shows "sysv_chain_lookup dynsym name cvs x =
    Some (case find (\<lambda>y. de_name (dynsym ! y) = name) (x # xs) of Some y \<Rightarrow> Inr y | None \<Rightarrow> Inl SymbolNotFound)"
  using assms
proof (induction xs arbitrary: x)
  case Nil
  then show ?case by (simp add: sysv_chain_lookup.simps get_at_def)
next
  case (Cons y ys)
  then have "unat (cvs ! x) = y" "y \<noteq> 0" by auto
  moreover from this have "cvs ! x \<noteq> 0" by auto
  moreover have "sysv_chain_lookup dynsym name cvs y =
    Some (case find (\<lambda>y. de_name (dynsym ! y) = name) (y # ys) of Some y \<Rightarrow> Inr y | None \<Rightarrow> Inl SymbolNotFound)"
    using Cons.prems by (intro Cons.IH) auto
  ultimately show ?case
    using Cons.prems by (subst sysv_chain_lookup.simps) (simp add: get_at_def)
qed

subsection \<open>What the loop builds\<close>

text \<open>The symbol indices of the definitions in a bucket.\<close>

definition sysv_members :: "(bytes \<Rightarrow> u32) \<Rightarrow> u32 \<Rightarrow> u32 \<Rightarrow> bytes list \<Rightarrow> nat \<Rightarrow> nat list" where
  "sysv_members elf_hash nbuckets base names b =
     map (\<lambda>k. unat base + k) (filter (\<lambda>k. unat (elf_hash (names ! k) mod nbuckets) = b) [0..<length names])"

lemma sysv_members_snoc:
  "sysv_members elf_hash nbuckets base (names @ [name]) b =
     sysv_members elf_hash nbuckets base names b @ (if unat (elf_hash name mod nbuckets) = b then [unat base + length names] else [])"
proof -
  have "filter (\<lambda>k. unat (elf_hash ((names @ [name]) ! k) mod nbuckets) = b) [0..<length names] =
      filter (\<lambda>k. unat (elf_hash (names ! k) mod nbuckets) = b) [0..<length names]"
    by (rule filter_cong) (simp_all add: nth_append)
  then show ?thesis by (simp add: sysv_members_def)
qed

lemma sysv_members_range: "set (sysv_members elf_hash nbuckets base names b) \<subseteq> {unat base ..< unat base + length names}"
  by (auto simp: sysv_members_def)

lemma distinct_sysv_members: "distinct (sysv_members elf_hash nbuckets base names b)"
  by (simp add: sysv_members_def distinct_map)

lemma sysv_members_bucket:
  "y \<in> set (sysv_members elf_hash nbuckets base names b) \<longleftrightarrow>
     (\<exists>k < length names. y = unat base + k \<and> unat (elf_hash (names ! k) mod nbuckets) = b)"
  by (auto simp: sysv_members_def)

definition sysv_built ::
    "(bytes \<Rightarrow> u32) \<Rightarrow> u32 \<Rightarrow> u32 \<Rightarrow> nat \<Rightarrow> bytes list \<Rightarrow> u32 list \<times> u32 list \<times> nat option list \<Rightarrow> bool" where
  "sysv_built elf_hash nbuckets base tot names st \<longleftrightarrow>
     (case st of (buckets, cvs, last_in_bucket) \<Rightarrow>
        length buckets = unat nbuckets \<and> length last_in_bucket = unat nbuckets \<and> length cvs = tot
        \<and> (\<forall>j < tot. unat base + length names \<le> j \<longrightarrow> cvs ! j = 0)
        \<and> (\<forall>b < unat nbuckets. let xs = sysv_members elf_hash nbuckets base names b in
             unat (buckets ! b) = (if xs = [] then 0 else hd xs)
             \<and> last_in_bucket ! b = (if xs = [] then None else Some (last xs))
             \<and> chained cvs xs))"

lemma sysv_built_start:
  "sysv_built elf_hash nbuckets base tot [] (replicate (unat nbuckets) 0, replicate tot 0, replicate (unat nbuckets) None)"
  by (simp add: sysv_built_def sysv_members_def)

lemma sysv_built_step:
  assumes b: "sysv_built elf_hash nbuckets base tot names (buckets, cvs, lasts)" and nz: "nbuckets \<noteq> 0" "0 < unat base"
    and n: "unat base + length names < tot" "tot < 2 ^ 32"
  shows "\<exists>st. sysv_hash_loop elf_hash nbuckets base (length names) (name # rest) (buckets, cvs, lasts)
       = sysv_hash_loop elf_hash nbuckets base (length names + 1) rest st
    \<and> sysv_built elf_hash nbuckets base tot (names @ [name]) st"
proof -
  let ?b = "unat (elf_hash name mod nbuckets)" and ?x = "unat base + length names"
  let ?v = "base + of_nat (length names) :: u32" and ?xs = "sysv_members elf_hash nbuckets base names"
  have blt: "?b < unat nbuckets" by (rule unat_mod_less [OF nz(1)])
  have v: "unat ?v = ?x" using n by (subst unat_add_lem [THEN iffD1]) (simp_all add: unsigned_of_nat take_bit_nat_eq_self)
  have len: "length buckets = unat nbuckets" "length lasts = unat nbuckets" "length cvs = tot" using b by (simp_all add: sysv_built_def)
  have zero: "\<forall>j < tot. ?x \<le> j \<longrightarrow> cvs ! j = 0" using b by (simp add: sysv_built_def)
  have at: "unat (buckets ! b) = (if ?xs b = [] then 0 else hd (?xs b))" "lasts ! b = (if ?xs b = [] then None else Some (last (?xs b)))"
    "chained cvs (?xs b)" if "b < unat nbuckets" for b using b that by (simp_all add: sysv_built_def Let_def)
  have big: "y \<in> set (?xs b) \<Longrightarrow> unat base \<le> y \<and> y < ?x" for y b
    using sysv_members_range [of elf_hash nbuckets base names b] by auto
  have bucket0: "buckets ! ?b = 0 \<longleftrightarrow> ?xs ?b = []"
  proof (cases "?xs ?b = []")
    case True
    then show ?thesis using at(1) [OF blt] by (simp add: unat_eq_0)
  next
    case False
    then have "0 < hd (?xs ?b)" using big [of "hd (?xs ?b)" ?b] nz(2) by simp
    then have "unat (buckets ! ?b) \<noteq> 0" using at(1) [OF blt] False by simp
    then show ?thesis using False by auto
  qed
  let ?cvs = "if ?xs ?b = [] then cvs else cvs[last (?xs ?b) := ?v]"
  let ?buckets = "if ?xs ?b = [] then buckets[?b := ?v] else buckets"
  let ?st = "(?buckets, ?cvs, lasts[?b := Some ?x])"
  have last_lt: "?xs ?b \<noteq> [] \<Longrightarrow> last (?xs ?b) < tot" using big [of "last (?xs ?b)" ?b] n by auto
  have "sysv_hash_loop elf_hash nbuckets base (length names) (name # rest) (buckets, cvs, lasts)
       = sysv_hash_loop elf_hash nbuckets base (length names + 1) rest ?st"
    using len blt n bucket0 at(2) [OF blt] nz v last_lt by (auto simp: get_at_def set_at_def Let_def)
  moreover have "chained ?cvs (sysv_members elf_hash nbuckets base (names @ [name]) b)" if bl: "b < unat nbuckets" for b
  proof (cases "b = ?b")
    case True
    show ?thesis
    proof (cases "?xs ?b = []")
      case True
      then show ?thesis using \<open>b = ?b\<close> zero n by (simp add: sysv_members_snoc)
    next
      case False
      then obtain ys l where xs: "?xs ?b = ys @ [l]" by (cases "?xs ?b" rule: rev_cases) auto
      have in_xs: "set (ys @ [l]) \<subseteq> {unat base ..< ?x}" using sysv_members_range [of elf_hash nbuckets base names ?b] xs by simp
      have "chained (cvs[l := ?v]) (ys @ [l, ?x])"
      proof (rule chained_append)
        show "chained cvs (ys @ [l])" using at(3) [OF blt] xs by simp
        show "distinct (ys @ [l, ?x])" using distinct_sysv_members [of elf_hash nbuckets base names ?b] in_xs xs by auto
        show "set (ys @ [l]) \<subseteq> {..<length cvs}" using in_xs n len(3) by auto
      qed (use v zero n in simp_all)
      then show ?thesis using xs \<open>b = ?b\<close> by (simp add: sysv_members_snoc)
    qed
  next
    case False
    have "last (?xs ?b) \<notin> set (?xs b)" if "?xs ?b \<noteq> []"
      using False last_in_set [OF that] sysv_members_bucket [of "last (?xs ?b)" elf_hash nbuckets base names] by auto
    then show ?thesis using False at(3) [OF bl] by (auto simp: sysv_members_snoc chained_update_other)
  qed
  moreover have "unat (?buckets ! b) = (if sysv_members elf_hash nbuckets base (names @ [name]) b = [] then 0
      else hd (sysv_members elf_hash nbuckets base (names @ [name]) b))" if bl: "b < unat nbuckets" for b
    using at(1) [OF bl] v len blt by (auto simp: sysv_members_snoc nth_list_update)
  moreover have "lasts[?b := Some ?x] ! b = (if sysv_members elf_hash nbuckets base (names @ [name]) b = [] then None
      else Some (last (sysv_members elf_hash nbuckets base (names @ [name]) b)))" if bl: "b < unat nbuckets" for b
    using at(2) [OF bl] len blt by (auto simp: sysv_members_snoc nth_list_update)
  moreover have "?cvs ! j = 0" if "j < tot" "Suc ?x \<le> j" for j
    using zero that big [of "last (?xs ?b)" ?b] by (auto simp: nth_list_update)
  ultimately show ?thesis using len by (intro exI [of _ ?st]) (simp add: sysv_built_def Let_def)
qed

lemma sysv_hash_loop_built:
  assumes "nbuckets \<noteq> 0" "0 < unat base" "tot < 2 ^ 32"
  shows "sysv_built elf_hash nbuckets base tot pre st \<Longrightarrow> unat base + length pre + length names \<le> tot \<Longrightarrow>
    \<exists>st'. sysv_hash_loop elf_hash nbuckets base (length pre) names st = Some (Inr st') \<and> sysv_built elf_hash nbuckets base tot (pre @ names) st'"
proof (induction names arbitrary: pre st)
  case Nil
  then show ?case by simp
next
  case (Cons name names)
  obtain buckets cvs lasts where st: "st = (buckets, cvs, lasts)" by (cases st)
  have "unat base + length pre < tot" using Cons.prems(2) by simp
  from sysv_built_step [OF Cons.prems(1) [unfolded st] assms(1,2) this assms(3), of name names]
  obtain st1 where st1: "sysv_hash_loop elf_hash nbuckets base (length pre) (name # names) st = sysv_hash_loop elf_hash nbuckets base (length (pre @ [name])) names st1"
    "sysv_built elf_hash nbuckets base tot (pre @ [name]) st1" by (auto simp: st simp del: sysv_hash_loop.simps)
  from Cons.IH [OF st1(2)] Cons.prems(2) st1(1) show ?case by (auto simp del: sysv_hash_loop.simps)
qed

text \<open>A lookup in what the loop has built.\<close>

lemma sysv_lookup_built:
  assumes b: "sysv_built elf_hash nbuckets base (length dynsym) names (buckets, cvs, lasts)" and nz: "nbuckets \<noteq> 0" "0 < unat base"
    and dynsym: "length dynsym = unat base + length names" "\<forall>k < length names. de_name (dynsym ! (unat base + k)) = names ! k"
    and dist: "distinct names"
  shows "k < length names \<Longrightarrow> sysv_lookup_symbol elf_hash (names ! k) buckets cvs dynsym = Some (Inr (unat base + k))"
    and "name \<notin> set names \<Longrightarrow> sysv_lookup_symbol elf_hash name buckets cvs dynsym = Some (Inl SymbolNotFound)"
proof -
  let ?xs = "\<lambda>n. sysv_members elf_hash nbuckets base names (unat (elf_hash n mod nbuckets))"
  have len: "length buckets = unat nbuckets" "length cvs = length dynsym" using b by (simp_all add: sysv_built_def)
  have look: "sysv_lookup_symbol elf_hash n buckets cvs dynsym =
      Some (case find (\<lambda>y. de_name (dynsym ! y) = n) (?xs n) of Some y \<Rightarrow> Inr y | None \<Rightarrow> Inl SymbolNotFound)" for n
  proof -
    have lt: "unat (elf_hash n mod nbuckets) < unat nbuckets" by (rule unat_mod_less [OF nz(1)])
    have at: "unat (buckets ! unat (elf_hash n mod nbuckets)) = (if ?xs n = [] then 0 else hd (?xs n))" "chained cvs (?xs n)"
      using b lt by (simp_all add: sysv_built_def Let_def)
    have range: "\<forall>y \<in> set (?xs n). y < length cvs \<and> y < length dynsym \<and> y \<noteq> 0"
      using sysv_members_range [of elf_hash nbuckets base names] len dynsym(1) nz(2) by fastforce
    have "buckets \<noteq> []" using lt len by auto
    then have eq: "sysv_lookup_symbol elf_hash n buckets cvs dynsym = (if buckets ! unat (elf_hash n mod nbuckets) = 0 then Some (Inl SymbolNotFound)
        else sysv_chain_lookup dynsym n cvs (unat (buckets ! unat (elf_hash n mod nbuckets))))"
      using lt len nz(1) by (simp add: sysv_lookup_symbol_def get_at_def)
    show ?thesis
    proof (cases "?xs n")
      case Nil
      then show ?thesis using eq at(1) by (simp add: unat_eq_0)
    next
      case (Cons x xs)
      then have "buckets ! unat (elf_hash n mod nbuckets) \<noteq> 0" using at(1) range by auto
      then show ?thesis using eq at Cons sysv_chain_walk [of cvs x xs dynsym n] range by simp
    qed
  qed
  have names_at: "de_name (dynsym ! y) = names ! (y - unat base) \<and> y - unat base < length names" if "y \<in> set (?xs n)" for y n
    using that sysv_members_range [of elf_hash nbuckets base names] dynsym(2) [rule_format, of "y - unat base"] by fastforce
  show "sysv_lookup_symbol elf_hash (names ! k) buckets cvs dynsym = Some (Inr (unat base + k))" if k: "k < length names"
  proof (cases "find (\<lambda>y. de_name (dynsym ! y) = names ! k) (?xs (names ! k))")
    case None
    have "unat base + k \<in> set (?xs (names ! k))" using k by (auto simp: sysv_members_bucket)
    then show ?thesis using None dynsym(2) k by (auto simp: find_None_iff)
  next
    case (Some y)
    then have y: "y \<in> set (?xs (names ! k))" "de_name (dynsym ! y) = names ! k" using find_SomeD by fast+
    then have "y - unat base = k" using names_at [OF y(1)] k dist by (simp add: nth_eq_iff_index_eq)
    moreover have "unat base \<le> y" using y(1) sysv_members_range [of elf_hash nbuckets base names] by fastforce
    ultimately show ?thesis using Some look by simp
  qed
  show "sysv_lookup_symbol elf_hash name buckets cvs dynsym = Some (Inl SymbolNotFound)" if "name \<notin> set names"
  proof -
    have "find (\<lambda>y. de_name (dynsym ! y) = name) (?xs name) = None"
    proof (rule ccontr)
      assume "find (\<lambda>y. de_name (dynsym ! y) = name) (?xs name) \<noteq> None"
      then obtain y where "y \<in> set (?xs name)" "de_name (dynsym ! y) = name" using find_SomeD by fast
      then show False using names_at that nth_mem by metis
    qed
    then show ?thesis using look by simp
  qed
qed

lemma sysv_byte_size_exact:
  "\<exists>sz. sysv_byte_size sl = Inr sz \<and> unat sz = (2 + unat (sysv_bucket_count sl) + unat (sysv_chain_count sl)) * 4"
proof -
  let ?w = "2 + unat (sysv_bucket_count sl) + unat (sysv_chain_count sl)"
  have "?w < 2 ^ 34" using unat_bound [of "sysv_bucket_count sl"] unat_bound [of "sysv_chain_count sl"] by simp
  moreover from this have "unat (of_nat ?w :: u64) = ?w" by (intro unat_of_nat_small) simp
  ultimately have "unat (of_nat ?w * 4 :: u64) = ?w * 4"
    by (subst unat_mult_lem [THEN iffD1]) (simp_all del: of_nat_add)
  then show ?thesis using \<open>?w < 2 ^ 34\<close> by (simp add: sysv_byte_size_def Let_def)
qed

lemma sysv_bucket_count_nonzero:
  assumes "n < 2 ^ 32"
  shows "(ucast (next_power_of_two (of_nat (max (n div 2) 1))) :: u32) \<noteq> 0"
proof (cases "n div 2 = 0")
  case True
  then show ?thesis by (simp add: next_power_of_two_def bit_width.simps)
next
  case False
  then have "max (n div 2) 1 = n div 2" by simp
  moreover have "(of_nat (n div 2) :: u64) = of_nat n div 2"
  proof -
    have "unat (of_nat (n div 2) :: u64) = n div 2" "unat (of_nat n :: u64) = n"
      by (rule unat_of_nat_small, use assms in simp)+
    then show ?thesis by (simp add: word_unat_eq_iff unat_div)
  qed
  ultimately show ?thesis using gnu_bucket_count [OF assms] by simp
qed

lemma sysv_layouts:
  assumes "n \<noteq> 0" and "unat base + n < 2 ^ 32" and "dynsym_size = of_nat (24 * (unat base + n))"
  shows "\<exists>sl0 sl sz. allocate_sysv_hash dynsym_size n = Inr (Some (sl0, sz)) \<and> finalise_sysv_hash base n sl0 = Inr (sl, sz)
    \<and> sysv_bucket_count sl \<noteq> 0 \<and> unat (sysv_chain_count sl) = unat base + n
    \<and> unat sz = (2 + unat (sysv_bucket_count sl) + (unat base + n)) * 4"
proof -
  have num: "unat (dynsym_size div 24) = unat base + n"
  proof -
    have "unat (of_nat (24 * (unat base + n)) :: u64) = 24 * (unat base + n)" by (rule unat_of_nat_small, use assms in simp)
    then show ?thesis by (simp only: assms(3) unat_div) simp
  qed
  let ?sl0 = "\<lparr>sysv_bucket_count = ucast (next_power_of_two (of_nat (max (n div 2) 1))), sysv_chain_count = ucast (dynsym_size div 24)\<rparr>"
  have n: "unat (of_nat n :: u32) = n" using assms(2) by (intro unat_of_nat_small) simp
  moreover from this have "unat (base + of_nat n) = unat base + n" using assms(2) by (subst unat_add_lem [THEN iffD1]) simp_all
  ultimately have sum: "unat (base + of_nat n) = unat base + n" "unat (of_nat n :: u32) = n" by simp_all
  have same: "ucast (dynsym_size div 24) = base + (of_nat n :: u32)"
    using num sum assms(2) by (simp add: word_unat_eq_iff unsigned_ucast_eq take_bit_nat_eq_self)
  obtain sz where sz: "sysv_byte_size ?sl0 = Inr sz" "unat sz = (2 + unat (sysv_bucket_count ?sl0) + unat (sysv_chain_count ?sl0)) * 4"
    using sysv_byte_size_exact [of ?sl0] by blast
  have "allocate_sysv_hash dynsym_size n = Inr (Some (?sl0, sz))"
    using assms num sz(1) by (simp add: allocate_sysv_hash_def Let_def del: of_nat_max)
  moreover have "finalise_sysv_hash base n ?sl0 = Inr (?sl0, sz)"
    using assms(2) sum sz(1) same by (simp add: finalise_sysv_hash_def Let_def)
  moreover have "sysv_bucket_count ?sl0 \<noteq> 0" using sysv_bucket_count_nonzero [of n] assms(2) by simp
  moreover have "unat (sysv_chain_count ?sl0) = unat base + n" using same sum by simp
  ultimately show ?thesis using sz(2) by metis
qed


text \<open>C17. SysV hash tables. For a \<^verbatim>\<open>.dynsym\<close> with room for the symbols before the definitions and the definitions,
with distinct UTF-8 names, the layout is allocated, finalising it keeps the allocated size, and writing into a
buffer of that size succeeds. A lookup in what was written ends: it finds each definition at its place in the symbol
table and gives an error for every other name, and the check of the section accepts it.\<close>

theorem sysv_hash_tables_correct:
  assumes "ds \<noteq> []" and "distinct (map ds_name ds)" and "\<forall>d \<in> set ds. utf8_valid (map (char_of \<circ> unat) (ds_name d))"
    and "0 < base" and "unat base + length ds < 2 ^ 32" and "dynsym_size = of_nat (24 * (unat base + length ds))"
    and "length undefs = unat base" and "\<forall>u \<in> set undefs. \<not> de_definition u"
  shows "\<exists>sl0 sl sz. allocate_sysv_hash dynsym_size (length ds) = Inr (Some (sl0, sz))
    \<and> finalise_sysv_hash base (length ds) sl0 = Inr (sl, sz) \<and>
    (\<forall>buffer. length buffer = unat sz \<longrightarrow>
      (\<exists>out buckets cvs. write_sysv_hash_table elf_hash (Some sl) base (map ds_name ds) buffer = Some (Inr out)
        \<and> out = le_words 4 [sysv_bucket_count sl, sysv_chain_count sl] @ le_words 4 buckets @ le_words 4 cvs
        \<and> (let look = \<lambda>name. sysv_lookup_symbol elf_hash name buckets cvs (undefs @ map definition_entry ds) in
             (\<forall>k < length ds. look (ds_name (ds ! k)) = Some (Inr (unat base + k)))
             \<and> (\<forall>name. name \<notin> ds_name ` set ds \<longrightarrow> look name = Some (Inl SymbolNotFound)))
        \<and> sysv_check_object elf_hash (Some (4, out)) (undefs @ map definition_entry ds) = Some (Inr ())))"
proof -
  let ?dynsym = "undefs @ map definition_entry ds" and ?names = "map ds_name ds"
  obtain sl0 sl sz where sl: "allocate_sysv_hash dynsym_size (length ds) = Inr (Some (sl0, sz))" "finalise_sysv_hash base (length ds) sl0 = Inr (sl, sz)"
    "sysv_bucket_count sl \<noteq> 0" "unat (sysv_chain_count sl) = unat base + length ds"
    "unat sz = (2 + unat (sysv_bucket_count sl) + (unat base + length ds)) * 4"
    using sysv_layouts [of "length ds" base dynsym_size] assms(1,5,6) by auto
  have base: "0 < unat base" using assms(4) by (simp add: word_less_nat_alt)
  have dynsym: "length ?dynsym = unat base + length ?names" "\<forall>k < length ?names. de_name (?dynsym ! (unat base + k)) = ?names ! k"
    using assms(7) by (simp_all add: nth_append definition_entry_def)
  have "\<exists>st. sysv_hash_loop elf_hash (sysv_bucket_count sl) base (length ([] :: bytes list)) ?names (replicate (unat (sysv_bucket_count sl)) 0,
      replicate (length ?dynsym) 0, replicate (unat (sysv_bucket_count sl)) None) = Some (Inr st)
      \<and> sysv_built elf_hash (sysv_bucket_count sl) base (length ?dynsym) ([] @ ?names) st"
    by (rule sysv_hash_loop_built [OF sl(3) base _ sysv_built_start]) (use assms(5) dynsym(1) in simp_all)
  then obtain buckets cvs lasts where run: "sysv_hash_loop elf_hash (sysv_bucket_count sl) base 0 ?names (replicate (unat (sysv_bucket_count sl)) 0,
      replicate (length ?dynsym) 0, replicate (unat (sysv_bucket_count sl)) None) = Some (Inr (buckets, cvs, lasts))"
    and built: "sysv_built elf_hash (sysv_bucket_count sl) base (length ?dynsym) ?names (buckets, cvs, lasts)" by auto
  let ?out = "le_words 4 [sysv_bucket_count sl, sysv_chain_count sl] @ le_words 4 buckets @ le_words 4 cvs"
  note look = sysv_lookup_built [OF built sl(3) base dynsym assms(2)]
  have counts: "unat (sysv_bucket_count sl) \<noteq> 0" "unat (sysv_bucket_count sl) < 2 ^ 32"
    using sl(3) unat_bound [of "sysv_bucket_count sl"] by (simp_all add: unat_eq_0)
  have len: "length buckets = unat (sysv_bucket_count sl)" "length cvs = unat base + length ds" using built dynsym(1) by (simp_all add: sysv_built_def)
  have "write_sysv_hash_table elf_hash (Some sl) base ?names buffer = Some (Inr ?out)" if "length buffer = unat sz" for buffer
    using that sl(4,5) base counts assms(5) run dynsym(1) by (simp add: write_sysv_hash_table_def Let_def)
  moreover have "sysv_check_object elf_hash (Some (4, ?out)) ?dynsym = Some (Inr ())"
  proof -
    have read: "read_words 4 2 ?out = Some ([sysv_bucket_count sl, sysv_chain_count sl], le_words 4 buckets @ le_words 4 cvs)"
      "read_words 4 (unat (sysv_bucket_count sl)) (le_words 4 buckets @ le_words 4 cvs) = Some (buckets, le_words 4 cvs)"
      "read_words 4 (unat base + length ds) (le_words 4 cvs) = Some (cvs, [])"
      using read_le_words [of 4 "[sysv_bucket_count sl, sysv_chain_count sl]" "le_words 4 buckets @ le_words 4 cvs"]
        read_le_words [of 4 buckets "le_words 4 cvs"] read_le_words [of 4 cvs "[]"] len by (simp_all add: numeral_2_eq_2 del: read_words.simps)
    have "check_definitions (\<lambda>name. sysv_lookup_symbol elf_hash name buckets cvs ?dynsym) 1 (tl ?dynsym) = Some (Inr ())"
      using base assms(3,7,8) look(1) by (intro check_definitions_dynsym) auto
    moreover have "max 1 (length ?dynsym) = unat base + length ds" "\<not> unat base + length ds \<le> 1"
      using assms(1,7) base by (cases ds; simp)+
    ultimately show ?thesis
      using sl(3,4) by (simp add: sysv_check_object_def Let_def read del: read_words.simps One_nat_def length_append)
  qed
  moreover have "\<forall>k < length ds. sysv_lookup_symbol elf_hash (ds_name (ds ! k)) buckets cvs ?dynsym = Some (Inr (unat base + k))"
    "\<forall>name. name \<notin> ds_name ` set ds \<longrightarrow> sysv_lookup_symbol elf_hash name buckets cvs ?dynsym = Some (Inl SymbolNotFound)"
    using look by simp_all
  ultimately show ?thesis using sl(1,2) unfolding Let_def by blast
qed

theorem sysv_hash_tables_correct_witness:
  "\<exists>sl0 sl sz. allocate_sysv_hash 72 (Suc (Suc 0)) = Inr (Some (sl0, sz)) \<and> finalise_sysv_hash 1 (Suc (Suc 0)) sl0 = Inr (sl, sz) \<and>
    (\<forall>buffer. length buffer = unat sz \<longrightarrow> (\<exists>out. write_sysv_hash_table (\<lambda>_. 5) (Some sl) 1 [[97], [98]] buffer = Some (Inr out)
      \<and> sysv_check_object (\<lambda>_. 5) (Some (4, out)) [\<lparr>de_name = [], de_definition = False\<rparr>,
           \<lparr>de_name = [97], de_definition = True\<rparr>, \<lparr>de_name = [98], de_definition = True\<rparr>] = Some (Inr ())))"
proof -
  let ?ds = "[\<lparr>ds_name = [97], ds_hash = 5\<rparr>, \<lparr>ds_name = [98], ds_hash = 5\<rparr>]"
  have "\<forall>d \<in> set ?ds. utf8_valid (map (char_of \<circ> unat) (ds_name d))" by code_simp
  then obtain sl0 sl sz where "allocate_sysv_hash 72 (Suc (Suc 0)) = Inr (Some (sl0, sz))" "finalise_sysv_hash 1 (Suc (Suc 0)) sl0 = Inr (sl, sz)"
    "\<And>buffer. length buffer = unat sz \<Longrightarrow> \<exists>out. write_sysv_hash_table (\<lambda>_. 5) (Some sl) 1 [[97], [98]] buffer = Some (Inr out)
      \<and> sysv_check_object (\<lambda>_. 5) (Some (4, out)) [\<lparr>de_name = [], de_definition = False\<rparr>,
           \<lparr>de_name = [97], de_definition = True\<rparr>, \<lparr>de_name = [98], de_definition = True\<rparr>] = Some (Inr ())"
    using sysv_hash_tables_correct [of ?ds 1 72 "[\<lparr>de_name = [], de_definition = False\<rparr>]" "\<lambda>_. 5"]
    by (simp add: Let_def definition_entry_def) meson
  then show ?thesis by blast
qed

end
