(* ===== verification/Value_Flags.thy ===== *)
theory Value_Flags
  imports Prelude
begin

unbundle bit_operations_syntax

text \<open>
  \<^verbatim>\<open>libsld/src/value_flags.rs\<close>: the flags of a symbol, their queries, and the atomic updates that the
  threads make while symbols are loaded. \<^verbatim>\<open>resolution_flags\<close> of \<^verbatim>\<open>libsld/src/layout.rs\<close> is with the
  resolutions. All atomic accesses are relaxed and to one cell, so that they are a sequence.
\<close>

type_synonym value_flags = u16

definition ABSOLUTE :: value_flags where "ABSOLUTE = push_bit 0 1"
definition DYNAMIC_VALUE :: value_flags where "DYNAMIC_VALUE = push_bit 1 1"
definition IFUNC :: value_flags where "IFUNC = push_bit 2 1"
definition NON_INTERPOSABLE :: value_flags where "NON_INTERPOSABLE = push_bit 3 1"
definition DOWNGRADE_TO_LOCAL :: value_flags where "DOWNGRADE_TO_LOCAL = push_bit 4 1"
definition FUNCTION :: value_flags where "FUNCTION = push_bit 5 1"
definition DIRECT :: value_flags where "DIRECT = push_bit 6 1"
definition NEEDS_GOT :: value_flags where "NEEDS_GOT = push_bit 7 1"
definition NEEDS_PLT :: value_flags where "NEEDS_PLT = push_bit 8 1"
definition GOT_TLS_MODULE :: value_flags where "GOT_TLS_MODULE = push_bit 9 1"
definition GOT_TLS_OFFSET :: value_flags where "GOT_TLS_OFFSET = push_bit 10 1"
definition GOT_TLS_DESCRIPTOR :: value_flags where "GOT_TLS_DESCRIPTOR = push_bit 11 1"
definition EXPORT_DYNAMIC :: value_flags where "EXPORT_DYNAMIC = push_bit 12 1"
definition COPY_RELOCATION :: value_flags where "COPY_RELOCATION = push_bit 13 1"
definition IFUNC_GOT_FOR_ADDRESS :: value_flags where "IFUNC_GOT_FOR_ADDRESS = push_bit 14 1"
definition HAS_RANGE_LIMITED_REL :: value_flags where "HAS_RANGE_LIMITED_REL = push_bit 15 1"

lemmas value_flag_defs =
  ABSOLUTE_def DYNAMIC_VALUE_def IFUNC_def NON_INTERPOSABLE_def DOWNGRADE_TO_LOCAL_def FUNCTION_def DIRECT_def
  NEEDS_GOT_def NEEDS_PLT_def GOT_TLS_MODULE_def GOT_TLS_OFFSET_def GOT_TLS_DESCRIPTOR_def EXPORT_DYNAMIC_def
  COPY_RELOCATION_def IFUNC_GOT_FOR_ADDRESS_def HAS_RANGE_LIMITED_REL_def

definition vf_contains :: "value_flags \<Rightarrow> value_flags \<Rightarrow> bool" where
  "vf_contains flags other \<longleftrightarrow> flags AND other = other"

definition vf_merge :: "value_flags \<Rightarrow> value_flags \<Rightarrow> value_flags" where
  "vf_merge self other = (if vf_contains other NON_INTERPOSABLE then self OR NON_INTERPOSABLE else self)"

definition RESOLUTION_FLAGS :: value_flags where
  "RESOLUTION_FLAGS = DIRECT OR NEEDS_GOT OR NEEDS_PLT OR GOT_TLS_MODULE OR GOT_TLS_OFFSET OR GOT_TLS_DESCRIPTOR
     OR EXPORT_DYNAMIC OR COPY_RELOCATION OR IFUNC_GOT_FOR_ADDRESS"

definition vf_resolution_flags :: "value_flags \<Rightarrow> value_flags" where
  "vf_resolution_flags flags = flags AND RESOLUTION_FLAGS"

definition has_resolution :: "value_flags \<Rightarrow> bool" where
  "has_resolution flags \<longleftrightarrow> vf_resolution_flags flags \<noteq> 0"

definition is_dynamic :: "value_flags \<Rightarrow> bool" where "is_dynamic flags \<longleftrightarrow> vf_contains flags DYNAMIC_VALUE"
definition is_ifunc :: "value_flags \<Rightarrow> bool" where "is_ifunc flags \<longleftrightarrow> vf_contains flags IFUNC"
definition is_address :: "value_flags \<Rightarrow> bool" where
  "is_address flags \<longleftrightarrow> \<not> vf_contains flags IFUNC \<and> \<not> vf_contains flags DYNAMIC_VALUE \<and> \<not> vf_contains flags ABSOLUTE"
definition is_absolute :: "value_flags \<Rightarrow> bool" where "is_absolute flags \<longleftrightarrow> vf_contains flags ABSOLUTE"
definition is_function :: "value_flags \<Rightarrow> bool" where "is_function flags \<longleftrightarrow> vf_contains flags FUNCTION"
definition is_downgraded_to_local :: "value_flags \<Rightarrow> bool" where
  "is_downgraded_to_local flags \<longleftrightarrow> vf_contains flags DOWNGRADE_TO_LOCAL"
definition is_symtab_local :: "value_flags \<Rightarrow> bool \<Rightarrow> bool" where
  "is_symtab_local flags sym_is_local \<longleftrightarrow> sym_is_local \<or> is_downgraded_to_local flags"
definition vf_is_interposable :: "value_flags \<Rightarrow> bool" where
  "vf_is_interposable flags \<longleftrightarrow> \<not> vf_contains flags NON_INTERPOSABLE"
definition needs_direct :: "value_flags \<Rightarrow> bool" where "needs_direct flags \<longleftrightarrow> vf_contains flags DIRECT"
definition needs_copy_relocation :: "value_flags \<Rightarrow> bool" where
  "needs_copy_relocation flags \<longleftrightarrow> vf_contains flags COPY_RELOCATION"
definition needs_export_dynamic :: "value_flags \<Rightarrow> bool" where
  "needs_export_dynamic flags \<longleftrightarrow> vf_contains flags EXPORT_DYNAMIC"
definition needs_got :: "value_flags \<Rightarrow> bool" where "needs_got flags \<longleftrightarrow> vf_contains flags NEEDS_GOT"
definition needs_plt :: "value_flags \<Rightarrow> bool" where "needs_plt flags \<longleftrightarrow> vf_contains flags NEEDS_PLT"
definition needs_got_tls_offset :: "value_flags \<Rightarrow> bool" where
  "needs_got_tls_offset flags \<longleftrightarrow> vf_contains flags GOT_TLS_OFFSET"
definition needs_got_tls_module :: "value_flags \<Rightarrow> bool" where
  "needs_got_tls_module flags \<longleftrightarrow> vf_contains flags GOT_TLS_MODULE"
definition needs_got_tls_descriptor :: "value_flags \<Rightarrow> bool" where
  "needs_got_tls_descriptor flags \<longleftrightarrow> vf_contains flags GOT_TLS_DESCRIPTOR"
definition needs_ifunc_got_for_address :: "value_flags \<Rightarrow> bool" where
  "needs_ifunc_got_for_address flags \<longleftrightarrow> vf_contains flags IFUNC_GOT_FOR_ADDRESS"
definition vf_is_tls :: "value_flags \<Rightarrow> bool" where
  "vf_is_tls flags \<longleftrightarrow> vf_contains flags GOT_TLS_OFFSET \<or> vf_contains flags GOT_TLS_MODULE \<or> vf_contains flags GOT_TLS_DESCRIPTOR"

lemmas value_flag_queries =
  is_dynamic_def is_ifunc_def is_address_def is_absolute_def is_function_def is_downgraded_to_local_def is_symtab_local_def
  vf_is_interposable_def needs_direct_def needs_copy_relocation_def needs_export_dynamic_def needs_got_def needs_plt_def
  needs_got_tls_offset_def needs_got_tls_module_def needs_got_tls_descriptor_def needs_ifunc_got_for_address_def vf_is_tls_def

subsection \<open>Flags as sets of bits\<close>

lemma contains_push_bit: "n < 16 \<Longrightarrow> vf_contains flags (push_bit n 1) \<longleftrightarrow> bit flags n"
  unfolding vf_contains_def
proof
  assume "n < 16" "flags AND push_bit n 1 = push_bit n 1"
  then have "bit (flags AND push_bit n 1) n" by (simp add: bit_simps)
  then show "bit flags n" by (simp add: bit_and_iff)
next
  assume "n < 16" "bit flags n"
  then show "flags AND push_bit n 1 = push_bit n 1"
    by (intro bit_word_eqI) (auto simp: bit_simps)
qed

lemma bit_push_bit_one: "k < 16 \<Longrightarrow> bit (push_bit k (1 :: value_flags)) n \<longleftrightarrow> n = k"
  by (auto simp: bit_simps)

lemma vf_bits [simp]:
  "vf_contains flags ABSOLUTE \<longleftrightarrow> bit flags 0"
  "vf_contains flags DYNAMIC_VALUE \<longleftrightarrow> bit flags 1"
  "vf_contains flags IFUNC \<longleftrightarrow> bit flags 2"
  "vf_contains flags NON_INTERPOSABLE \<longleftrightarrow> bit flags 3"
  "vf_contains flags DOWNGRADE_TO_LOCAL \<longleftrightarrow> bit flags 4"
  "vf_contains flags FUNCTION \<longleftrightarrow> bit flags 5"
  "vf_contains flags DIRECT \<longleftrightarrow> bit flags 6"
  "vf_contains flags NEEDS_GOT \<longleftrightarrow> bit flags 7"
  "vf_contains flags NEEDS_PLT \<longleftrightarrow> bit flags 8"
  "vf_contains flags GOT_TLS_MODULE \<longleftrightarrow> bit flags 9"
  "vf_contains flags GOT_TLS_OFFSET \<longleftrightarrow> bit flags 10"
  "vf_contains flags GOT_TLS_DESCRIPTOR \<longleftrightarrow> bit flags 11"
  "vf_contains flags EXPORT_DYNAMIC \<longleftrightarrow> bit flags 12"
  "vf_contains flags COPY_RELOCATION \<longleftrightarrow> bit flags 13"
  "vf_contains flags IFUNC_GOT_FOR_ADDRESS \<longleftrightarrow> bit flags 14"
  "vf_contains flags HAS_RANGE_LIMITED_REL \<longleftrightarrow> bit flags 15"
  unfolding value_flag_defs by (rule contains_push_bit, simp)+

lemma vf_const_bits:
  "bit ABSOLUTE n \<longleftrightarrow> n = 0"
  "bit DYNAMIC_VALUE n \<longleftrightarrow> n = 1"
  "bit IFUNC n \<longleftrightarrow> n = 2"
  "bit NON_INTERPOSABLE n \<longleftrightarrow> n = 3"
  "bit DOWNGRADE_TO_LOCAL n \<longleftrightarrow> n = 4"
  "bit FUNCTION n \<longleftrightarrow> n = 5"
  "bit DIRECT n \<longleftrightarrow> n = 6"
  "bit NEEDS_GOT n \<longleftrightarrow> n = 7"
  "bit NEEDS_PLT n \<longleftrightarrow> n = 8"
  "bit GOT_TLS_MODULE n \<longleftrightarrow> n = 9"
  "bit GOT_TLS_OFFSET n \<longleftrightarrow> n = 10"
  "bit GOT_TLS_DESCRIPTOR n \<longleftrightarrow> n = 11"
  "bit EXPORT_DYNAMIC n \<longleftrightarrow> n = 12"
  "bit COPY_RELOCATION n \<longleftrightarrow> n = 13"
  "bit IFUNC_GOT_FOR_ADDRESS n \<longleftrightarrow> n = 14"
  "bit HAS_RANGE_LIMITED_REL n \<longleftrightarrow> n = 15"
  unfolding value_flag_defs by (rule bit_push_bit_one, simp)+

lemma vf_contains_iff: "vf_contains flags other \<longleftrightarrow> (\<forall>n < 16. bit other n \<longrightarrow> bit flags n)"
  unfolding vf_contains_def by (auto simp: bit_eq_iff bit_and_iff)

lemma has_resolution_iff: "has_resolution flags \<longleftrightarrow> (\<exists>n < 16. bit flags n \<and> bit RESOLUTION_FLAGS n)"
  unfolding has_resolution_def vf_resolution_flags_def by (auto simp: bit_eq_iff bit_and_iff)

lemma has_resolution_or: "has_resolution (a OR b) \<longleftrightarrow> has_resolution a \<or> has_resolution b"
  by (auto simp: has_resolution_iff bit_or_iff)

lemma has_resolution_zero [simp]: "\<not> has_resolution 0"
  by (simp add: has_resolution_iff)

subsection \<open>Atomic updates\<close>

text \<open>
  A thread is its remaining calls, whether the first of them is a \<^verbatim>\<open>fetch_or\<close> that has loaded a value in which
  flags are missing, and the calls of \<^verbatim>\<open>fetch_or\<close> that have returned, with the flags they returned.
\<close>

datatype flag_op = FetchOr value_flags | OrAssign value_flags | RemoveFlags value_flags

record flag_thread =
  calls :: "flag_op list"
  loaded :: bool
  returned :: "(value_flags \<times> value_flags) list"

text \<open>One step of a thread: the load of \<^verbatim>\<open>fetch_or\<close> with its early return, or a read-modify-write.\<close>

definition thread_step :: "value_flags \<Rightarrow> flag_thread \<Rightarrow> (value_flags \<times> flag_thread) option" where
  "thread_step current t =
     (case calls t of
        [] \<Rightarrow> None
      | FetchOr flags # rest \<Rightarrow>
          if \<not> loaded t then
            if current AND flags = flags then Some (current, t\<lparr>calls := rest, returned := (flags, current) # returned t\<rparr>)
            else Some (current, t\<lparr>loaded := True\<rparr>)
          else Some (current OR flags, t\<lparr>calls := rest, loaded := False, returned := (flags, current) # returned t\<rparr>)
      | OrAssign flags # rest \<Rightarrow> Some (current OR flags, t\<lparr>calls := rest\<rparr>)
      | RemoveFlags flags # rest \<Rightarrow> Some (current AND NOT flags, t\<lparr>calls := rest\<rparr>))"

inductive flags_step :: "value_flags \<times> flag_thread list \<Rightarrow> value_flags \<times> flag_thread list \<Rightarrow> bool" where
  "i < length ts \<Longrightarrow> thread_step c (ts ! i) = Some (c', t) \<Longrightarrow> flags_step (c, ts) (c', ts[i := t])"

inductive_cases flags_stepE: "flags_step (c, ts) s"

text \<open>The calls that found no resolution flag set and set one: each sends a request to load the symbol.\<close>

definition first_request :: "value_flags \<times> value_flags \<Rightarrow> bool" where
  "first_request r \<longleftrightarrow> has_resolution (fst r) \<and> \<not> has_resolution (snd r)"

definition requests :: "flag_thread list \<Rightarrow> nat" where
  "requests ts = (\<Sum>t \<leftarrow> ts. length (filter first_request (returned t)))"

definition plain_ops :: "flag_thread \<Rightarrow> bool" where
  "plain_ops t \<longleftrightarrow> (\<forall>p \<in> set (calls t). case p of FetchOr f \<Rightarrow> True | OrAssign f \<Rightarrow> \<not> has_resolution f | RemoveFlags f \<Rightarrow> False)
     \<and> (loaded t \<longrightarrow> (\<exists>f rest. calls t = FetchOr f # rest))"

lemma sum_list_update_nat:
  "i < length ts \<Longrightarrow> sum_list (map f (ts[i := t])) + f (ts ! i) = sum_list (map f ts) + (f t :: nat)"
  by (induction ts arbitrary: i) (auto split: nat.split)

lemma thread_step_plain:
  assumes "plain_ops t" and "thread_step c t = Some (c', t')"
  shows "plain_ops t'"
    and "length (filter first_request (returned t')) + (if has_resolution c then 1 else 0)
       = length (filter first_request (returned t)) + (if has_resolution c' then 1 else (0 :: nat))"
  using assms
  by (auto simp: thread_step_def plain_ops_def first_request_def has_resolution_or split: list.splits flag_op.splits if_splits)
     (auto simp: has_resolution_iff vf_contains_iff [unfolded vf_contains_def])


definition flags_reach :: "value_flags \<times> flag_thread list \<Rightarrow> value_flags \<times> flag_thread list \<Rightarrow> bool" where
  "flags_reach = flags_step\<^sup>*\<^sup>*"

definition fresh_thread :: "flag_thread \<Rightarrow> bool" where
  "fresh_thread t \<longleftrightarrow> \<not> loaded t \<and> returned t = []"

definition ops_flags :: "flag_thread \<Rightarrow> value_flags" where
  "ops_flags t = foldr (\<lambda>p a. (case p of FetchOr f \<Rightarrow> f | OrAssign f \<Rightarrow> f | RemoveFlags f \<Rightarrow> 0) OR a) (calls t) 0"

definition all_flags :: "flag_thread list \<Rightarrow> value_flags" where
  "all_flags ts = foldr (\<lambda>t a. ops_flags t OR a) ts 0"

lemma bit_all_flags: "bit (all_flags ts) n \<longleftrightarrow> (\<exists>t \<in> set ts. bit (ops_flags t) n)"
  by (induction ts) (auto simp: all_flags_def bit_or_iff)

text \<open>What the steps keep: the number of requests is what the cell shows, and nothing that is asked for is lost.\<close>

definition flags_inv :: "value_flags \<Rightarrow> flag_thread list \<Rightarrow> value_flags \<times> flag_thread list \<Rightarrow> bool" where
  "flags_inv c0 ts0 s \<longleftrightarrow> (\<forall>t \<in> set (snd s). plain_ops t)
     \<and> requests (snd s) = (if has_resolution (fst s) then 1 else 0)
     \<and> fst s OR all_flags (snd s) = c0 OR all_flags ts0"

lemma thread_step_keeps:
  "plain_ops t \<Longrightarrow> thread_step c t = Some (c', t') \<Longrightarrow> c' OR ops_flags t' = c OR ops_flags t \<and> c AND c' = c"
  by (auto simp: thread_step_def plain_ops_def ops_flags_def bit_eq_iff bit_simps split: list.splits flag_op.splits if_splits)

lemma flags_step_inv:
  assumes "flags_step s s'" and "flags_inv c0 ts0 s"
  shows "flags_inv c0 ts0 s'"
  using assms
proof (cases rule: flags_step.cases)
  case (1 i ts c c' t)
  have plain: "\<forall>t \<in> set ts. plain_ops t" using assms(2) 1(1) by (simp add: flags_inv_def)
  then have pi: "plain_ops (ts ! i)" using 1(3) by simp
  note stepped = thread_step_plain [OF pi 1(4)] and kept = thread_step_keeps [OF pi 1(4)]
  have "requests (ts[i := t]) + length (filter first_request (returned (ts ! i)))
      = requests ts + length (filter first_request (returned t))"
    unfolding requests_def using 1(3) by (rule sum_list_update_nat)
  then have "requests (ts[i := t]) = (if has_resolution c' then 1 else 0)"
    using stepped(2) assms(2) 1(1) by (auto simp: flags_inv_def split: if_splits)
  moreover have "c' OR all_flags (ts[i := t]) = c OR all_flags ts"
  proof (rule bit_word_eqI)
    fix n
    have at: "bit c' n \<or> bit (ops_flags t) n \<longleftrightarrow> bit c n \<or> bit (ops_flags (ts ! i)) n" "bit c n \<Longrightarrow> bit c' n"
      using arg_cong [OF conjunct1 [OF kept], of "\<lambda>w. bit w n"] arg_cong [OF conjunct2 [OF kept], of "\<lambda>w. bit w n"]
      by (simp_all add: bit_or_iff bit_and_iff)
    have any: "(\<exists>u \<in> set us. bit (ops_flags u) n) \<longleftrightarrow> (\<exists>j < length us. bit (ops_flags (us ! j)) n)" for us
      unfolding in_set_conv_nth Bex_def by blast
    have "(\<exists>u \<in> set (ts[i := t]). bit (ops_flags u) n) \<longleftrightarrow> bit (ops_flags t) n \<or> (\<exists>j < length ts. j \<noteq> i \<and> bit (ops_flags (ts ! j)) n)"
      using 1(3) unfolding any by (auto simp: nth_list_update)
    moreover have "(\<exists>u \<in> set ts. bit (ops_flags u) n) \<longleftrightarrow> bit (ops_flags (ts ! i)) n \<or> (\<exists>j < length ts. j \<noteq> i \<and> bit (ops_flags (ts ! j)) n)"
      using 1(3) unfolding any by auto
    ultimately show "bit (c' OR all_flags (ts[i := t])) n = bit (c OR all_flags ts) n"
      using at by (auto simp: bit_or_iff bit_all_flags)
  qed
  moreover have "\<forall>u \<in> set (ts[i := t]). plain_ops u" using plain stepped(1) set_update_subset_insert [of ts i t] by auto
  ultimately show ?thesis using assms(2) 1(1,2) by (simp add: flags_inv_def)
qed

lemma flags_reach_inv: "flags_reach s s' \<Longrightarrow> flags_inv c0 ts0 s \<Longrightarrow> flags_inv c0 ts0 s'"
  unfolding flags_reach_def by (induction rule: rtranclp_induct) (auto intro: flags_step_inv)

lemma flags_inv_start:
  assumes "\<not> has_resolution c0" and "\<forall>t \<in> set ts0. plain_ops t \<and> fresh_thread t"
  shows "flags_inv c0 ts0 (c0, ts0)"
  using assms by (auto simp: flags_inv_def requests_def fresh_thread_def intro!: sum_list_eq_0_iff [THEN iffD2])

subsection \<open>Every call returns\<close>

definition thread_work :: "flag_thread \<Rightarrow> nat" where
  "thread_work t = 2 * length (calls t) - (if loaded t then 1 else 0)"

definition work :: "flag_thread list \<Rightarrow> nat" where
  "work ts = (\<Sum>t \<leftarrow> ts. thread_work t)"

lemma thread_step_work: "thread_step c t = Some (c', t') \<Longrightarrow> thread_work t' < thread_work t"
  by (auto simp: thread_step_def thread_work_def split: list.splits flag_op.splits if_splits)

lemma flags_step_work: "flags_step (c, ts) (c', ts') \<Longrightarrow> work ts' < work ts"
proof (erule flags_stepE)
  fix i c1 t
  assume step: "(c', ts') = (c1, ts[i := t])" "i < length ts" "thread_step c (ts ! i) = Some (c1, t)"
  show "work ts' < work ts"
    using sum_list_update_nat [OF step(2), of thread_work t] thread_step_work [OF step(3)] step(1) by (simp add: work_def)
qed

lemma flags_progress:
  assumes "\<exists>t \<in> set ts. calls t \<noteq> []"
  shows "\<exists>s'. flags_step (c, ts) s'"
proof -
  obtain i where i: "i < length ts" "calls (ts ! i) \<noteq> []" using assms by (auto simp: in_set_conv_nth)
  then have "thread_step c (ts ! i) \<noteq> None" by (auto simp: thread_step_def split: list.split flag_op.split)
  then obtain c' t where "thread_step c (ts ! i) = Some (c', t)" by (cases "thread_step c (ts ! i)") auto
  then show ?thesis using flags_step.intros [OF i(1)] by blast
qed




text \<open>The atomic updates finish. However the threads interleave, no run has more steps than twice the number of
calls, and from every state the steps can go on until all calls have returned.\<close>

lemma flag_updates_finish:
  assumes "flags_reach (c, ts) (c', ts')"
  shows "(flags_step ^^ k) (c', ts') s \<Longrightarrow> k \<le> work ts'" and "work ts' \<le> work ts"
    and "\<exists>s. flags_reach (c', ts') s \<and> (\<forall>t \<in> set (snd s). calls t = [])"
proof -
  show "k \<le> work ts'" if "(flags_step ^^ k) (c', ts') s" for k
    using that
  proof (induction k arbitrary: c' ts')
    case (Suc k)
    then obtain c1 ts1 where "flags_step (c', ts') (c1, ts1)" "(flags_step ^^ k) (c1, ts1) s"
      using relpowp_Suc_D2 [OF Suc.prems] by (metis prod.exhaust)
    then show ?case using Suc.IH [of c1 ts1] flags_step_work [of c' ts' c1 ts1] by simp
  qed simp
  show "work ts' \<le> work ts"
    using assms unfolding flags_reach_def
  proof (induction rule: rtranclp_induct2)
    case (step c1 ts1 c2 ts2)
    then show ?case using flags_step_work [of c1 ts1 c2 ts2] by simp
  qed simp
  show "\<exists>s. flags_reach (c', ts') s \<and> (\<forall>t \<in> set (snd s). calls t = [])"
  proof (induction "work ts'" arbitrary: c' ts' rule: less_induct)
    case less
    show ?case
    proof (cases "\<exists>t \<in> set ts'. calls t \<noteq> []")
      case True
      then obtain c1 ts1 where s: "flags_step (c', ts') (c1, ts1)" using flags_progress by (metis prod.exhaust)
      from less [OF flags_step_work [OF s]] show ?thesis
        using s unfolding flags_reach_def by (meson converse_rtranclp_into_rtranclp)
    qed (auto simp: flags_reach_def)
  qed
qed

lemma flag_updates_finish_witness:
  "\<exists>s. flags_reach (0, [\<lparr>calls = [FetchOr DIRECT], loaded = False, returned = []\<rparr>]) s \<and> (\<forall>t \<in> set (snd s). calls t = [])"
  by (rule flag_updates_finish(3) [of 0 "[\<lparr>calls = [FetchOr DIRECT], loaded = False, returned = []\<rparr>]"]) (simp add: flags_reach_def)

end
