(* ===== verification/Bit_Misc.thy ===== *)
theory Bit_Misc
  imports Prelude
begin

unbundle bit_operations_syntax

text \<open>
  \<^verbatim>\<open>linker-utils/src/bit_misc.rs\<close>: the trait \<^verbatim>\<open>BitExtraction\<close> on \<^verbatim>\<open>u64\<close> and \<^verbatim>\<open>BitRange\<close>. The
  lemmas identify every operation with a truncation or sign extension of the library, which is
  the form the instruction encoders use. Rust shifts by an amount of at least the width panic
  in debug builds and are masked in release builds; the operations return \<open>None\<close> there, so a
  theorem that gets a value shows that no such shift happened.
\<close>

record bit_range =
  start :: nat
  endp :: nat

text \<open>\<^verbatim>\<open>1 << n\<close> on \<^verbatim>\<open>u64\<close>.\<close>

definition shl1 :: "nat \<Rightarrow> u64 option" where
  "shl1 n = (if n < 64 then Some (push_bit n 1) else None)"

definition extract_bit_range :: "u64 \<Rightarrow> nat \<Rightarrow> nat \<Rightarrow> u64 option" where
  "extract_bit_range x s e =
     (if s = 0 \<and> e = 64 then Some x
      else if \<not> s < e then None
      else if \<not> s < 64 then None
      else map_option (\<lambda>m. drop_bit s x AND (m - 1)) (shl1 (e - s)))"

definition extract_bit :: "u64 \<Rightarrow> nat \<Rightarrow> u64 option" where
  "extract_bit x p = extract_bit_range x p (p + 1)"

definition low_bits :: "u64 \<Rightarrow> nat \<Rightarrow> u64 option" where
  "low_bits x n = map_option (\<lambda>m. x AND (m - 1)) (shl1 n)"

definition sign_extend :: "u64 \<Rightarrow> nat \<Rightarrow> u64 option" where
  "sign_extend x b =
     map_option (\<lambda>m. if x AND m \<noteq> 0 then x OR NOT (push_bit b 2 - 1) else x) (shl1 b)"

definition low_bits_signed :: "u64 \<Rightarrow> nat \<Rightarrow> u64 option" where
  "low_bits_signed x n =
     (if n = 0 then None
      else Option.bind (low_bits x n) (\<lambda>y. sign_extend y (n - 1)))"

subsection \<open>Characterisation\<close>

lemma extract_bit_range_eq [field_simps_bits]:
  assumes "s < e" and "e \<le> 64"
  shows "extract_bit_range x s e = Some (take_bit (e - s) (drop_bit s x))"
proof (cases "s = 0 \<and> e = 64")
  case True
  then show ?thesis using take_bit_length_eq [of x] by (simp add: extract_bit_range_def)
next
  case False
  then show ?thesis
    using assms by (auto simp: extract_bit_range_def shl1_def and_push_bit_mask simp del: push_bit_of_1)
qed

lemma take_bit_1_drop_bit: "take_bit 1 (drop_bit p x) = (of_bool (bit x p) :: 'a::len word)"
  by (rule bit_word_eqI) (auto simp: bit_take_bit_iff bit_drop_bit_eq bit_iff_odd_drop_bit [of x p] bit_1_iff)

lemma extract_bit_eq [field_simps_bits]:
  "p < 64 \<Longrightarrow> extract_bit x p = Some (of_bool (bit x p))"
  using take_bit_1_drop_bit [of p x] by (simp add: extract_bit_def extract_bit_range_eq)

lemma low_bits_eq [field_simps_bits]:
  "n < 64 \<Longrightarrow> low_bits x n = Some (take_bit n x)"
  by (simp add: low_bits_def shl1_def and_push_bit_mask del: push_bit_of_1)

lemma push_bit_2_minus_1: "push_bit n 2 - 1 = (mask (Suc n) :: 'a::len word)"
  by (simp add: mask_eq_exp_minus_1 push_bit_eq_mult)

lemma sign_extend_eq [field_simps_bits]:
  assumes "b < 64" and "take_bit (Suc b) x = x"
  shows "sign_extend x b = Some (signed_take_bit b x)"
proof -
  have high: "\<not> bit x i" if "i > b" for i
    using assms(2) that by (metis bit_take_bit_iff not_less_eq)
  have test: "x AND push_bit b 1 \<noteq> 0 \<longleftrightarrow> bit x b"
    by (simp add: and_exp_eq_0_iff_not_bit)
  have "(if bit x b then x OR NOT (mask (Suc b)) else x) = signed_take_bit b x"
  proof (rule bit_word_eqI)
    fix i
    assume "i < LENGTH(64)"
    then show "bit (if bit x b then x OR NOT (mask (Suc b)) else x) i = bit (signed_take_bit b x) i"
      using high [of i] assms(1) by (cases "i \<le> b") (auto simp: bit_simps min_def)
  qed
  then show ?thesis
    using assms(1)
    by (auto simp: sign_extend_def shl1_def test push_bit_2_minus_1 simp del: push_bit_of_1 split: if_splits)
qed

lemma low_bits_signed_eq [field_simps_bits]:
  "0 < n \<Longrightarrow> n < 64 \<Longrightarrow> low_bits_signed x n = Some (signed_take_bit (n - 1) x)"
  by (cases n) (simp_all add: low_bits_signed_def low_bits_eq sign_extend_eq signed_take_bit_take_bit)

subsection \<open>Constant ranges\<close>

text \<open>
  The encoders call these operations with literal ranges that are inside 64 bits, where they
  cannot panic. The total versions are the values of those calls.
\<close>

definition xbits :: "u64 \<Rightarrow> nat \<Rightarrow> nat \<Rightarrow> u64" where
  "xbits x s e = the (extract_bit_range x s e)"

definition xbit :: "u64 \<Rightarrow> nat \<Rightarrow> u64" where
  "xbit x p = the (extract_bit x p)"

definition lbits :: "u64 \<Rightarrow> nat \<Rightarrow> u64" where
  "lbits x n = the (low_bits x n)"

definition lbits_signed :: "u64 \<Rightarrow> nat \<Rightarrow> u64" where
  "lbits_signed x n = the (low_bits_signed x n)"

lemma xbits_eq [field_simps_bits]:
  "s < e \<Longrightarrow> e \<le> 64 \<Longrightarrow> xbits x s e = take_bit (e - s) (drop_bit s x)"
  by (simp add: xbits_def extract_bit_range_eq)

lemma xbit_eq [field_simps_bits]: "p < 64 \<Longrightarrow> xbit x p = take_bit 1 (drop_bit p x)"
  unfolding take_bit_1_drop_bit by (simp add: xbit_def extract_bit_eq)

lemma lbits_eq [field_simps_bits]: "n < 64 \<Longrightarrow> lbits x n = take_bit n x"
  by (simp add: lbits_def low_bits_eq)

lemma lbits_signed_eq [field_simps_bits]:
  "0 < n \<Longrightarrow> n < 64 \<Longrightarrow> lbits_signed x n = signed_take_bit (n - 1) x"
  by (simp add: lbits_signed_def low_bits_signed_eq)

end
