(* ===== verification/Bit_Fields.thy ===== *)
theory Bit_Fields
  imports Bit_Misc
begin

unbundle bit_operations_syntax

text \<open>
  Reasoning library for instruction immediates. Every encoder of \<^verbatim>\<open>linker-utils\<close> distributes a
  value over fields of an instruction word and every decoder collects them again. A field
  \<open>(s, l, d)\<close> moves \<open>l\<close> bits from position \<open>s\<close> of the value to position \<open>d\<close> of the word;
  \<open>scatter\<close> does so for a list of fields and \<open>gather\<close> inverts it. The main result,
  \<open>gather_scatter\<close>, is proved once, in the locale \<open>field_layout\<close>, for every layout whose
  target fields do not overlap; the encoders interpret the locale with their own layouts.
\<close>

type_synonym field = "nat \<times> nat \<times> nat"

fun scatter :: "field list \<Rightarrow> 'a::len word \<Rightarrow> 'a word" where
  "scatter [] v = 0"
| "scatter ((s, l, d) # fs) v = push_bit d (take_bit l (drop_bit s v)) OR scatter fs v"

fun gather :: "field list \<Rightarrow> 'a::len word \<Rightarrow> 'a word" where
  "gather [] w = 0"
| "gather ((s, l, d) # fs) w = push_bit s (take_bit l (drop_bit d w)) OR gather fs w"

text \<open>The bits of the value that a layout reads, and the bits of the word that it writes.\<close>

fun src_mask :: "field list \<Rightarrow> 'a::len word" where
  "src_mask [] = 0"
| "src_mask ((s, l, d) # fs) = push_bit s (mask l) OR src_mask fs"

fun dst_mask :: "field list \<Rightarrow> 'a::len word" where
  "dst_mask [] = 0"
| "dst_mask ((s, l, d) # fs) = push_bit d (mask l) OR dst_mask fs"

fun fields_disjoint :: "field list \<Rightarrow> bool" where
  "fields_disjoint [] = True"
| "fields_disjoint ((s, l, d) # fs) =
     (list_all (\<lambda>(s', l', d'). d + l \<le> d' \<or> d' + l' \<le> d) fs \<and> fields_disjoint fs)"

fun fields_within :: "nat \<Rightarrow> field list \<Rightarrow> bool" where
  "fields_within n [] = True"
| "fields_within n ((s, l, d) # fs) = (s + l \<le> n \<and> d + l \<le> n \<and> fields_within n fs)"

subsection \<open>Bits of the operations\<close>

lemma bit_scatter:
  "bit (scatter fs v :: 'a::len word) j \<longleftrightarrow>
     j < LENGTH('a) \<and> (\<exists>(s, l, d) \<in> set fs. d \<le> j \<and> j < d + l \<and> bit v (s + (j - d)))"
  by (induction fs v rule: scatter.induct) (auto simp: bit_simps)

lemma bit_gather:
  "bit (gather fs w :: 'a::len word) i \<longleftrightarrow>
     i < LENGTH('a) \<and> (\<exists>(s, l, d) \<in> set fs. s \<le> i \<and> i < s + l \<and> bit w (d + (i - s)))"
  by (induction fs w rule: gather.induct) (auto simp: bit_simps)

lemma bit_src_mask:
  "bit (src_mask fs :: 'a::len word) i \<longleftrightarrow>
     i < LENGTH('a) \<and> (\<exists>(s, l, d) \<in> set fs. s \<le> i \<and> i < s + l)"
  by (induction fs rule: src_mask.induct) (auto simp: bit_simps)

lemma bit_dst_mask:
  "bit (dst_mask fs :: 'a::len word) j \<longleftrightarrow>
     j < LENGTH('a) \<and> (\<exists>(s, l, d) \<in> set fs. d \<le> j \<and> j < d + l)"
  by (induction fs rule: dst_mask.induct) (auto simp: bit_simps)

lemma fields_disjoint_unique:
  assumes "fields_disjoint fs" and "(s, l, d) \<in> set fs" and "(s', l', d') \<in> set fs"
    and "d \<le> j" and "j < d + l" and "d' \<le> j" and "j < d' + l'"
  shows "(s, l, d) = (s', l', d')"
  using assms by (induction fs rule: fields_disjoint.induct) (auto simp: list_all_iff)

lemma fields_withinD: "fields_within n fs \<Longrightarrow> (s, l, d) \<in> set fs \<Longrightarrow> s + l \<le> n \<and> d + l \<le> n"
  by (induction n fs rule: fields_within.induct) auto

lemma scatter_in_dst_mask: "scatter fs v AND dst_mask fs = (scatter fs v :: 'a::len word)"
  by (rule bit_word_eqI) (auto simp: bit_and_iff bit_scatter bit_dst_mask)

text \<open>Merging with \<open>OR\<close> into a word whose target fields are zero keeps everything else.\<close>

lemma or_scatter_outside:
  "(x OR scatter fs v) AND NOT (dst_mask fs) = (x AND NOT (dst_mask fs) :: 'a::len word)"
  by (rule bit_word_eqI) (auto simp: bit_simps bit_scatter bit_dst_mask)

subsection \<open>The contract of a layout\<close>

locale field_layout =
  fixes fs :: "field list"
    and w_ty :: "'a::len itself"
  assumes disjoint: "fields_disjoint fs"
    and within: "fields_within LENGTH('a) fs"
begin

lemma gather_or_scatter:
  fixes base v :: "'a word"
  assumes clear: "base AND dst_mask fs = 0"
  shows "gather fs (base OR scatter fs v) = v AND src_mask fs"
proof (rule bit_word_eqI)
  fix i
  assume i: "i < LENGTH('a)"
  have hit: "bit (base OR scatter fs v) (d + (i - s)) \<longleftrightarrow> bit v i"
    if mem: "(s, l, d) \<in> set fs" and si: "s \<le> i" "i < s + l" for s l d
  proof -
    let ?j = "d + (i - s)"
    have j: "?j < LENGTH('a)" "d \<le> ?j" "?j < d + l"
      using fields_withinD [OF within mem] si by auto
    have "bit (dst_mask fs :: 'a word) ?j"
      unfolding bit_dst_mask using j mem by blast
    moreover have "\<not> bit (base AND dst_mask fs) ?j" using clear by simp
    ultimately have base0: "\<not> bit base ?j" by (simp add: bit_and_iff)
    have "bit (scatter fs v) ?j \<longleftrightarrow> bit v (s + (?j - d))"
    proof
      assume "bit (scatter fs v) ?j"
      then obtain s' l' d' where m': "(s', l', d') \<in> set fs"
        and r': "d' \<le> ?j" "?j < d' + l'" and b': "bit v (s' + (?j - d'))"
        by (auto simp: bit_scatter)
      from fields_disjoint_unique [OF disjoint mem m' j(2,3) r'] b'
      show "bit v (s + (?j - d))" by simp
    next
      assume "bit v (s + (?j - d))"
      then show "bit (scatter fs v) ?j"
        using j mem unfolding bit_scatter by blast
    qed
    moreover have "s + (?j - d) = i" using si by simp
    ultimately show ?thesis using base0 by (simp add: bit_or_iff)
  qed
  show "bit (gather fs (base OR scatter fs v)) i = bit (v AND src_mask fs) i"
    unfolding bit_gather bit_and_iff bit_src_mask using i hit by fast
qed

corollary gather_scatter:
  fixes v :: "'a word"
  shows "gather fs (scatter fs v) = v AND src_mask fs"
  using gather_or_scatter [of 0 v] by simp

text \<open>The usual shape of an encoder: clear the fields, then merge.\<close>

corollary gather_write:
  fixes x v :: "'a word"
  shows "gather fs ((x AND NOT (dst_mask fs)) OR scatter fs v) = v AND src_mask fs"
  by (rule gather_or_scatter) (simp add: and.assoc)

text \<open>Only the fields of the layout change.\<close>

lemma write_frame:
  fixes base v :: "'a word"
  assumes "base AND dst_mask fs = 0"
  shows "(base OR scatter fs v) AND NOT (dst_mask fs) = base"
proof -
  have "base AND NOT (dst_mask fs) = base"
  proof (rule bit_word_eqI)
    fix i
    assume "i < LENGTH('a)"
    moreover have "\<not> bit (base AND dst_mask fs) i" using assms by simp
    ultimately show "bit (base AND NOT (dst_mask fs)) i = bit base i" by (auto simp: bit_simps)
  qed
  then show ?thesis by (simp add: or_scatter_outside)
qed

end

subsection \<open>Masks and sign extension\<close>

lemma and_ones [field_simps_bits]:
  "x AND 1 = take_bit 1 (x :: 'a::len word)"
  "x AND 3 = take_bit 2 x"
  "x AND 7 = take_bit 3 x"
  "x AND 0xf = take_bit 4 x"
  "x AND 0x1f = take_bit 5 x"
  "x AND 0x3f = take_bit 6 x"
  "x AND 0x7f = take_bit 7 x"
  "x AND 0xff = take_bit 8 x"
  "x AND 0x1ff = take_bit 9 x"
  "x AND 0x3ff = take_bit 10 x"
  "x AND 0xfff = take_bit 12 x"
  "x AND 0xffff = take_bit 16 x"
  "x AND 0x7ffff = take_bit 19 x"
  "x AND 0xfffff = take_bit 20 x"
  by (simp_all add: take_bit_eq_mask mask_eq_exp_minus_1)

text \<open>Rust's idiom \<^verbatim>\<open>((x as i32) << k) >> k\<close>: an arithmetic shift back sign-extends.\<close>

lemma signed_drop_push [field_simps_bits]:
  fixes x :: "'a::len word"
  assumes "k < LENGTH('a)"
  shows "signed_drop_bit k (push_bit k x) = signed_take_bit (LENGTH('a) - Suc k) x"
proof (rule bit_word_eqI)
  fix i
  assume i: "i < LENGTH('a)"
  show "bit (signed_drop_bit k (push_bit k x)) i = bit (signed_take_bit (LENGTH('a) - Suc k) x) i"
  proof (cases "i + k < LENGTH('a)")
    case True
    then have "min (LENGTH('a) - Suc k) i = i" and "\<not> LENGTH('a) - k \<le> i" by linarith+
    with True i show ?thesis
      by (simp add: bit_signed_drop_bit_iff bit_push_bit_iff bit_signed_take_bit_iff possible_bit_def)
  next
    case False
    then have "min (LENGTH('a) - Suc k) i = LENGTH('a) - Suc k" by linarith
    with False i assms show ?thesis
      by (auto simp: bit_signed_drop_bit_iff bit_push_bit_iff bit_signed_take_bit_iff possible_bit_def)
  qed
qed

lemma scast_signed_take_bit:
  fixes x :: "32 word"
  assumes "n < 32"
  shows "(scast (signed_take_bit n x) :: u64) = signed_take_bit n (ucast x)"
  using assms
  by (intro bit_word_eqI)
     (auto simp: bit_signed_iff bit_signed_take_bit_iff bit_unsigned_iff min_def possible_bit_def)

lemma signed_take_bit_and_mask:
  fixes x :: "'a::len word"
  shows "signed_take_bit n (take_bit (Suc n) x) = signed_take_bit n x"
  by (simp add: signed_take_bit_take_bit)

text \<open>Sign extension of a value that is assembled from a low and a high part.\<close>

lemma signed_take_bit_or_push:
  fixes a b :: "'a::len word"
  assumes "k + n < LENGTH('a)"
  shows "signed_take_bit (k + n) (take_bit k a OR push_bit k b) =
    take_bit k a OR push_bit k (signed_take_bit n b)"
proof (rule bit_word_eqI)
  fix i
  assume i: "i < LENGTH('a)"
  show "bit (signed_take_bit (k + n) (take_bit k a OR push_bit k b)) i =
    bit (take_bit k a OR push_bit k (signed_take_bit n b)) i"
  proof (cases "i < k")
    case True
    with i show ?thesis by (simp add: bit_simps min_def)
  next
    case False
    then have "min (k + n) i = k + min n (i - k)" by auto
    with False i assms show ?thesis by (auto simp: bit_simps possible_bit_def)
  qed
qed

lemma take_bit_drop_bit_fit:
  fixes v :: "'a::len word"
  assumes "take_bit w v = v" and "w \<le> s + n"
  shows "take_bit n (drop_bit s v) = drop_bit s v"
proof -
  have "drop_bit s v = take_bit (w - s) (drop_bit s v)"
    using assms(1) by (metis drop_bit_take_bit)
  moreover have "w - s \<le> n" using assms(2) by simp
  ultimately show ?thesis by (metis min.absorb2 take_bit_take_bit)
qed

lemma ucast_drop_bit_up:
  fixes w :: "'a::len word"
  assumes "LENGTH('a) \<le> LENGTH('b::len)"
  shows "(ucast (drop_bit n w) :: 'b word) = drop_bit n (ucast w)"
  using assms by (intro bit_word_eqI) (auto simp: bit_simps dest: bit_imp_le_length)

lemma ucast_push_bit_take_bit_up:
  fixes w :: "'a::len word"
  assumes "LENGTH('a) \<le> LENGTH('b::len)" and "n + l \<le> LENGTH('a)"
  shows "(ucast (push_bit n (take_bit l w)) :: 'b word) = push_bit n (take_bit l (ucast w))"
  using assms by (intro bit_word_eqI) (auto simp: bit_simps possible_bit_def dest: bit_imp_le_length)

lemma drop_push_fit:
  fixes y :: "'a::len word"
  assumes "take_bit l y = y" and "n + l \<le> LENGTH('a)"
  shows "drop_bit n (push_bit n y) = y"
proof (rule bit_word_eqI)
  fix i
  have "\<not> bit y i" if "l \<le> i"
    using assms(1) that by (metis bit_take_bit_iff not_less)
  moreover assume "i < LENGTH('a)"
  ultimately show "bit (drop_bit n (push_bit n y)) i = bit y i"
    using assms(2) by (cases "n + i < LENGTH('a)") (auto simp: bit_drop_bit_eq bit_push_bit_iff possible_bit_def)
qed

lemma ucast_scatter:
  fixes v :: "'a::len word"
  assumes "fields_within LENGTH('b::len) fs" and "LENGTH('b) \<le> LENGTH('a)"
  shows "(ucast (scatter fs v) :: 'b word) = scatter fs (ucast v)"
proof (rule bit_word_eqI)
  fix j
  assume j: "j < LENGTH('b)"
  have "bit (ucast v :: 'b word) (s + (j - d)) \<longleftrightarrow> bit v (s + (j - d))"
    if "(s, l, d) \<in> set fs" "d \<le> j" "j < d + l" for s l d
    using fields_withinD [OF assms(1) that(1)] that(2,3) by (auto simp: bit_unsigned_iff)
  then show "bit (ucast (scatter fs v) :: 'b word) j = bit (scatter fs (ucast v) :: 'b word) j"
    unfolding bit_unsigned_iff bit_scatter using j assms(2) by fastforce
qed

lemma take_bit_plus_rest: "take_bit n y + (y AND NOT (mask n)) = (y :: u64)"
  by (subst disjunctive_add) (auto simp: bit_simps intro!: bit_word_eqI)

end
