(* ===== verification/Utils.thy ===== *)
theory Utils
  imports Bit_Fields
begin

unbundle bit_operations_syntax

text \<open>
  \<^verbatim>\<open>linker-utils/src/utils.rs\<close>: reading integers and strings from byte slices, and combining a
  mask into a slice with \<open>OR\<close> and \<open>AND\<close>. The lemmas lift the byte-wise operations to the
  instruction word that the bytes encode, so that an encoder is a function on words.
  \<^verbatim>\<open>read_uleb128\<close> calls the crate \<^verbatim>\<open>leb128\<close> and is a parameter where it is used.
\<close>

definition u32_from_slice :: "bytes \<Rightarrow> u32 option" where
  "u32_from_slice data = map_option from_le_bytes (first_chunk 4 data)"

definition u64_from_slice :: "bytes \<Rightarrow> u64 option" where
  "u64_from_slice data = map_option from_le_bytes (first_chunk 8 data)"

text \<open>The loops index \<open>dest\<close> with the mask's indices, so a short \<open>dest\<close> panics.\<close>

fun or_from_slice :: "bytes \<Rightarrow> bytes \<Rightarrow> bytes option" where
  "or_from_slice dest [] = Some dest"
| "or_from_slice [] (v # vs) = None"
| "or_from_slice (d # ds) (v # vs) = map_option ((#) (d OR v)) (or_from_slice ds vs)"

fun and_from_slice :: "bytes \<Rightarrow> bytes \<Rightarrow> bytes option" where
  "and_from_slice dest [] = Some dest"
| "and_from_slice [] (v # vs) = None"
| "and_from_slice (d # ds) (v # vs) = map_option ((#) (d AND v)) (and_from_slice ds vs)"

text \<open>\<^verbatim>\<open>and_from_slice(dest, keep); or_from_slice(dest, mask)\<close>.\<close>

definition and_or :: "bytes \<Rightarrow> bytes \<Rightarrow> bytes \<Rightarrow> bytes option" where
  "and_or dest keep m = Option.bind (and_from_slice dest keep) (\<lambda>d. or_from_slice d m)"

text \<open>
  \<^verbatim>\<open>read_u32\<close> and \<^verbatim>\<open>read_string\<close> advance the slice they are given: the remaining input is part
  of the result. The string is returned as its bytes before the terminator
  (\<^verbatim>\<open>to_string_lossy\<close> keeps valid UTF-8 unchanged).
\<close>

datatype utils_error = NotEnoughBytes | NoNullTerminator

definition read_u32 :: "bytes \<Rightarrow> utils_error + (u32 \<times> bytes)" where
  "read_u32 content =
     (if 4 \<le> length content then Inr (from_le_bytes (take 4 content), drop 4 content)
      else Inl NotEnoughBytes)"

definition read_string :: "bytes \<Rightarrow> utils_error + (bytes \<times> bytes)" where
  "read_string content =
     (if 0 \<in> set content
      then let s = takeWhile (\<lambda>b. b \<noteq> 0) content in Inr (s, drop (length s + 1) content)
      else Inl NoNullTerminator)"

subsection \<open>Slices as words\<close>

lemma or_from_slice_eq:
  "or_from_slice ds vs =
     (if length vs \<le> length ds then Some (map2 (OR) ds vs @ drop (length vs) ds) else None)"
  by (induction ds vs rule: or_from_slice.induct) auto

lemma and_from_slice_eq:
  "and_from_slice ds vs =
     (if length vs \<le> length ds then Some (map2 (AND) ds vs @ drop (length vs) ds) else None)"
  by (induction ds vs rule: and_from_slice.induct) auto

lemma from_le_bytes_map2_or:
  "length ds = length vs \<Longrightarrow>
   (from_le_bytes (map2 (OR) ds vs) :: 'a::len word) = from_le_bytes ds OR from_le_bytes vs"
  by (rule bit_word_eqI) (auto simp: bit_from_le_bytes bit_or_iff div_less_iff_less_mult mult.commute)

lemma from_le_bytes_map2_and:
  "length ds = length vs \<Longrightarrow>
   (from_le_bytes (map2 (AND) ds vs) :: 'a::len word) = from_le_bytes ds AND from_le_bytes vs"
  by (rule bit_word_eqI) (auto simp: bit_from_le_bytes bit_and_iff div_less_iff_less_mult mult.commute)

text \<open>
  A slice that starts with the bytes of an \<open>n\<close>-byte word: masking with the bytes of another
  word of the same size acts on the word and leaves the rest of the slice alone.
\<close>

lemma map2_or_to_le_bytes:
  "map2 (OR) (to_le_bytes n x) (to_le_bytes n m) = to_le_bytes n (x OR m :: 'a::len word)"
  by (induction n arbitrary: x m) (simp_all add: drop_bit_or unsigned_or_eq)

lemma map2_and_to_le_bytes:
  "map2 (AND) (to_le_bytes n x) (to_le_bytes n m) = to_le_bytes n (x AND m :: 'a::len word)"
  by (induction n arbitrary: x m) (simp_all add: drop_bit_and unsigned_and_eq)

lemma or_from_slice_word [slice_simps]:
  "or_from_slice (to_le_bytes n x @ rest) (to_le_bytes n (m :: 'a::len word)) =
     Some (to_le_bytes n (x OR m) @ rest)"
  by (simp add: or_from_slice_eq zip_append1 flip: map2_or_to_le_bytes)

lemma and_from_slice_word [slice_simps]:
  "and_from_slice (to_le_bytes n x @ rest) (to_le_bytes n (m :: 'a::len word)) =
     Some (to_le_bytes n (x AND m) @ rest)"
  by (simp add: and_from_slice_eq zip_append1 flip: map2_and_to_le_bytes)

lemma u32_from_slice_word [slice_simps]:
  "u32_from_slice (to_le_bytes 4 (x :: u32) @ rest) = Some x"
  by (simp add: u32_from_slice_def first_chunk_def from_le_bytes_to_le_bytes)

lemma u64_from_slice_word [slice_simps]:
  "u64_from_slice (to_le_bytes 8 (x :: u64) @ rest) = Some x"
  by (simp add: u64_from_slice_def first_chunk_def from_le_bytes_to_le_bytes)

lemma bytes_as_word:
  assumes "n \<le> length bs" and "8 * n \<le> LENGTH('a::len)"
  obtains x :: "'a::len word" where "bs = to_le_bytes n x @ drop n bs"
proof
  have "to_le_bytes n (from_le_bytes (take n bs) :: 'a word) = take n bs"
    using to_le_bytes_from_le_bytes [of "take n bs", where 'a = 'a] assms by simp
  then show "bs = to_le_bytes n (from_le_bytes (take n bs) :: 'a word) @ drop n bs" by simp
qed

lemma u32_from_slice_SomeD:
  assumes "u32_from_slice dest = Some x"
  shows "dest = to_le_bytes 4 x @ drop 4 dest"
proof -
  have len: "4 \<le> length dest" and x: "x = from_le_bytes (take 4 dest)"
    using assms by (auto simp: u32_from_slice_def first_chunk_def split: if_splits)
  then have "to_le_bytes 4 x = take 4 dest"
    using to_le_bytes_from_le_bytes [of "take 4 dest", where 'a = 32] by simp
  then show ?thesis by simp
qed

lemma and_or_word:
  "and_or (to_le_bytes n x @ rest) (to_le_bytes n k) (to_le_bytes n (m :: 'a::len word)) =
     Some (to_le_bytes n ((x AND k) OR m) @ rest)"
  by (simp add: and_or_def slice_simps)

lemma take_to_le_bytes: "k \<le> n \<Longrightarrow> take k (to_le_bytes n m) = to_le_bytes k m"
proof (induction n arbitrary: k m)
  case (Suc n)
  then show ?case by (cases k) simp_all
qed simp

lemma to_le_bytes_ucast_down:
  fixes m :: "'a::len word"
  assumes "8 * n \<le> LENGTH('b::len)" and "LENGTH('b) \<le> LENGTH('a)"
  shows "to_le_bytes n (ucast m :: 'b word) = to_le_bytes n m"
proof (rule nth_equalityI)
  fix i
  assume "i < length (to_le_bytes n (ucast m :: 'b word))"
  then have i: "i < n" by simp
  show "to_le_bytes n (ucast m :: 'b word) ! i = to_le_bytes n m ! i"
    using i assms
    by (intro bit_word_eqI) (auto simp: bit_to_le_bytes bit_unsigned_iff)
qed simp

subsection \<open>Sign extension by shifting\<close>

text \<open>\<^verbatim>\<open>((imm as i32) << k) >> k\<close> and its conversion to \<^verbatim>\<open>u64\<close>.\<close>

definition sext32 :: "nat \<Rightarrow> u32 \<Rightarrow> u64" where
  "sext32 k imm = scast (signed_drop_bit k (push_bit k imm))"

definition sneg32 :: "nat \<Rightarrow> u32 \<Rightarrow> bool" where
  "sneg32 k imm \<longleftrightarrow> sint (signed_drop_bit k (push_bit k imm)) < 0"

lemma sext32_eq: "k < 32 \<Longrightarrow> sext32 k imm = signed_take_bit (31 - k) (ucast imm)"
  by (simp add: sext32_def signed_drop_push scast_signed_take_bit)

lemma sneg32_eq: "k < 32 \<Longrightarrow> sneg32 k imm \<longleftrightarrow> bit imm (31 - k)"
  by (simp add: sneg32_def signed_drop_push) (simp add: sint_uint bit_uint_iff bit_signed_take_bit_iff min_def)

lemma ucast_and_src_mask:
  fixes v :: u64
  assumes "fields_within LENGTH('b::len) fs" and "LENGTH('b) \<le> 64"
  shows "(ucast ((ucast v :: 'b word) AND src_mask fs) :: u64) = v AND src_mask fs"
proof (rule bit_word_eqI)
  fix i
  assume i: "i < LENGTH(64)"
  have "i < LENGTH('b)" if "(s, l, d) \<in> set fs" "i < s + l" for s l d
    using fields_withinD [OF assms(1) that(1)] that(2) by simp
  then show "bit (ucast ((ucast v :: 'b word) AND src_mask fs) :: u64) i = bit (v AND src_mask fs) i"
    using i by (auto simp: bit_unsigned_iff bit_and_iff bit_src_mask)
qed

lemma bit_signed_fit:
  fixes v :: u64
  assumes "signed_take_bit n v = v" and "n < 64"
  shows "bit v n \<longleftrightarrow> sint v < 0"
proof -
  have "bit (signed_take_bit n v) 63 \<longleftrightarrow> bit v n"
    using assms(2) by (simp add: bit_signed_take_bit_iff min_def possible_bit_def)
  with assms(1) have "bit v n \<longleftrightarrow> bit v (LENGTH(64) - Suc 0)" by simp
  then show ?thesis by (simp only: bit_last_iff)
qed

subsection \<open>Readers\<close>

text \<open>
  A string and its terminator read back, with the rest of the input left for the next reader.
\<close>

lemma read_string_append:
  assumes "0 \<notin> set s"
  shows "read_string (s @ 0 # rest) = Inr (s, rest)"
proof -
  have "takeWhile (\<lambda>b. b \<noteq> 0) (s @ 0 # rest) = s"
    using assms by (subst takeWhile_append2) auto
  then show ?thesis by (simp add: read_string_def)
qed

lemma read_string_consumes:
  assumes "read_string content = Inr (s, rest)"
  shows "content = s @ 0 # rest \<and> 0 \<notin> set s"
proof -
  have mem: "0 \<in> set content"
    using assms by (auto simp: read_string_def split: if_splits)
  then obtain a b where ab: "content = a @ 0 # b" "0 \<notin> set a"
    by (metis split_list_first)
  with assms show ?thesis by (simp add: read_string_append)
qed

lemma read_u32_to_le_bytes: "read_u32 (to_le_bytes 4 (x :: u32) @ rest) = Inr (x, rest)"
  by (simp add: read_u32_def from_le_bytes_to_le_bytes)

end
