(* ===== verification/Elf_Types.thy ===== *)
theory Elf_Types
  imports Utils
begin

unbundle bit_operations_syntax

text \<open>
  The data model of \<^verbatim>\<open>linker-utils/src/elf.rs\<close>: relocation kinds, the instruction formats a
  relocation can write into, allowed ranges and \<^verbatim>\<open>RelocationKindInfo\<close>. Constructors carry a
  prefix (\<open>RK\<close>, \<open>A64\<close>, \<open>RV\<close>, \<open>LA\<close>, \<open>DRK\<close>) because the Rust enums share constructor names.
  \<^verbatim>\<open>usize\<close> sizes and alignments are \<open>nat\<close>; \<^verbatim>\<open>i64\<close> bounds are \<open>int\<close>.
\<close>

datatype sign = Signed | Unsigned

datatype relocation_kind =
    RK_Absolute
  | RK_AbsoluteSet
  | RK_AbsoluteSetWord6
  | RK_AbsoluteAddition
  | RK_AbsoluteAdditionWord6
  | RK_AbsoluteSubtraction
  | RK_AbsoluteSubtractionWord6
  | RK_AbsoluteLowPart
  | RK_PairSubtractionULEB128 u32
  | RK_Relative
  | RK_RelativeLoongArchHigh
  | RK_RelativeRiscVLow12
  | RK_SymRelGotBase
  | RK_GotRelGotBase
  | RK_Got
  | RK_PltRelGotBase
  | RK_PltRelative
  | RK_GotRelative
  | RK_GotRelativeLoongArch64
  | RK_TlsGd
  | RK_TlsGdGot
  | RK_TlsGdGotBase
  | RK_TlsLd
  | RK_TlsLdGot
  | RK_TlsLdGotBase
  | RK_DtpOff
  | RK_GotTpOff
  | RK_GotTpOffLoongArch64
  | RK_GotTpOffGot
  | RK_GotTpOffGotBase
  | RK_TpOff
  | RK_TlsDesc
  | RK_TlsDescLoongArch64
  | RK_TlsDescGot
  | RK_TlsDescGotBase
  | RK_TlsDescCall
  | RK_None
  | RK_Alignment

definition is_tls :: "relocation_kind \<Rightarrow> bool" where
  "is_tls k \<longleftrightarrow>
     k \<in> {RK_DtpOff, RK_GotTpOff, RK_GotTpOffGotBase, RK_TlsDesc, RK_TlsDescCall, RK_TlsDescGot,
          RK_TlsDescGotBase, RK_TlsGd, RK_TlsGdGot, RK_TlsGdGotBase, RK_TlsLd, RK_TlsLdGot,
          RK_TlsLdGotBase, RK_TpOff}"

subsection \<open>Instruction formats\<close>

datatype aarch64_instruction =
    A64_Adr | A64_Movkz | A64_Movnz | A64_Ldr | A64_LdrRegister | A64_Add | A64_LdSt
  | A64_TstBr | A64_Bcond | A64_JumpCall | A64_MachOLow12

datatype riscv_instruction =
    RV_UiType | RV_UType | RV_IType | RV_SType | RV_BType | RV_JType | RV_CbType | RV_CjType
  | RV_CluiType

datatype loongarch64_instruction =
    LA_Shift5 | LA_Shift10 | LA_Branch21 | LA_Branch26 | LA_Call30 | LA_Call36

datatype relocation_instruction =
    AArch64 aarch64_instruction
  | RiscV riscv_instruction
  | LoongArch64 loongarch64_instruction

fun write_windows_size :: "relocation_instruction \<Rightarrow> nat" where
  "write_windows_size (AArch64 i) = 4"
| "write_windows_size (RiscV i) = (if i = RV_UiType then 8 else 4)"
| "write_windows_size (LoongArch64 i) = 4"

record bit_mask =
  instruction :: relocation_instruction
  range :: bit_range

definition BitMask_new :: "relocation_instruction \<Rightarrow> nat \<Rightarrow> nat \<Rightarrow> bit_mask" where
  "BitMask_new i s e = \<lparr>instruction = i, range = \<lparr>start = s, endp = e\<rparr>\<rparr>"

datatype relocation_size = ByteSize nat | BitMasking bit_mask

definition bit_mask_aarch64 :: "nat \<Rightarrow> nat \<Rightarrow> aarch64_instruction \<Rightarrow> relocation_size" where
  "bit_mask_aarch64 s e i = BitMasking (BitMask_new (AArch64 i) s e)"

definition bit_mask_riscv :: "nat \<Rightarrow> nat \<Rightarrow> riscv_instruction \<Rightarrow> relocation_size" where
  "bit_mask_riscv s e i = BitMasking (BitMask_new (RiscV i) s e)"

definition bit_mask_loongarch64 :: "nat \<Rightarrow> nat \<Rightarrow> loongarch64_instruction \<Rightarrow> relocation_size" where
  "bit_mask_loongarch64 s e i = BitMasking (BitMask_new (LoongArch64 i) s e)"

lemmas bit_mask_defs [reloc_defs] =
  BitMask_new_def bit_mask_aarch64_def bit_mask_riscv_def bit_mask_loongarch64_def

subsection \<open>Page masks\<close>

definition SIZE_2KB :: u64 where "SIZE_2KB = push_bit 11 1"
definition SIZE_4KB :: u64 where "SIZE_4KB = push_bit 12 1"
definition SIZE_2GB :: u64 where "SIZE_2GB = push_bit 31 1"
definition SIZE_4GB :: u64 where "SIZE_4GB = push_bit 32 1"
definition PAGE_MASK_4KB :: u64 where "PAGE_MASK_4KB = SIZE_4KB - 1"
definition PAGE_MASK_4GB :: u64 where "PAGE_MASK_4GB = SIZE_4GB - 1"

datatype page_mask =
    SymbolPlusAddendAndPosition u64
  | GotEntryAndPosition u64
  | GotBase u64
  | PM_Position u64

subsection \<open>Allowed ranges\<close>

record allowed_range =
  min_val :: int
  max_val :: int

definition AllowedRange_new :: "int \<Rightarrow> int \<Rightarrow> allowed_range" where
  "AllowedRange_new mn mx = \<lparr>min_val = mn, max_val = mx\<rparr>"

definition no_check :: allowed_range where
  "no_check = AllowedRange_new (- (2 ^ 63)) (2 ^ 63 - 1)"

definition from_bit_size :: "nat \<Rightarrow> sign \<Rightarrow> allowed_range option" where
  "from_bit_size n sign =
     (if n = 0 \<or> n = 64 then Some no_check
      else if n = 63 \<and> sign = Unsigned then None
      else if n < 64 then
        Some (case sign of Unsigned \<Rightarrow> AllowedRange_new 0 (2 ^ n)
                         | Signed \<Rightarrow> AllowedRange_new (- (2 ^ (n - 1))) (2 ^ (n - 1)))
      else None)"

definition from_byte_size :: "nat \<Rightarrow> sign \<Rightarrow> allowed_range option" where
  "from_byte_size n sign = from_bit_size (8 * n) sign"

definition contains :: "allowed_range \<Rightarrow> int \<Rightarrow> bool" where
  "contains r v \<longleftrightarrow> min_val r \<le> v \<and> v < max_val r"

text \<open>\<^verbatim>\<open>overrun\<close> subtracts two \<^verbatim>\<open>i64\<close> values; the result is the wrapped difference.\<close>

definition wrap_i64 :: "int \<Rightarrow> int" where
  "wrap_i64 x = signed_take_bit 63 x"

definition overrun :: "allowed_range \<Rightarrow> int \<Rightarrow> int" where
  "overrun r v =
     (if v < min_val r then wrap_i64 (v - min_val r)
      else if v > max_val r then wrap_i64 (v - max_val r)
      else 0)"

text \<open>
  The tables evaluate these constructors at compile time, where a panic is a build error: the
  range of a row is the value of a successful evaluation.
\<close>

definition const_bit_size :: "nat \<Rightarrow> sign \<Rightarrow> allowed_range" where
  "const_bit_size n sign = the (from_bit_size n sign)"

definition const_byte_size :: "nat \<Rightarrow> sign \<Rightarrow> allowed_range" where
  "const_byte_size n sign = the (from_byte_size n sign)"

record relocation_kind_info =
  kind :: relocation_kind
  size :: relocation_size
  page_mask :: "page_mask option"
  allowed :: allowed_range
  alignment :: nat
  bias :: u64
  thunkable :: bool

subsection \<open>Facts\<close>

text \<open>\<^verbatim>\<open>from_bit_size\<close> fails exactly where its panics say.\<close>

lemma from_bit_size_None_iff:
  "from_bit_size n sign = None \<longleftrightarrow> n > 64 \<or> (n = 63 \<and> sign = Unsigned)"
  by (auto simp: from_bit_size_def)

lemma from_bit_size_contains:
  assumes "0 < n" and "n < 64" and "from_bit_size n sign = Some r"
  shows "contains r v \<longleftrightarrow>
    (case sign of Unsigned \<Rightarrow> 0 \<le> v \<and> v < 2 ^ n | Signed \<Rightarrow> - (2 ^ (n - 1)) \<le> v \<and> v < 2 ^ (n - 1))"
  using assms
  by (auto simp: from_bit_size_def contains_def AllowedRange_new_def split: if_splits sign.splits)

text \<open>
  The signed range of \<open>n\<close> bits holds exactly the values that sign extension from \<open>n\<close> bits
  reproduces, and the unsigned one those that truncation reproduces: no checked value loses
  high bits.
\<close>

lemma const_bit_size_Signed_iff:
  fixes v :: u64
  assumes "0 < n" and "n < 64"
  shows "contains (const_bit_size n Signed) (sint v) \<longleftrightarrow> signed_take_bit (n - 1) v = v"
proof -
  have "signed_take_bit (n - 1) v = v \<longleftrightarrow> signed_take_bit (n - 1) (sint v) = sint v"
  proof -
    have "sint (signed_take_bit (n - 1) v) = signed_take_bit (n - 1) (sint v)"
      using assms
      by (intro bit_eqI) (auto simp: bit_sint_iff bit_signed_take_bit_iff bit_word_of_int_iff min_def
          dest: bit_imp_le_length)
    then show ?thesis by (metis signed_word_eqI)
  qed
  then show ?thesis
    using assms
    by (auto simp: const_bit_size_def from_bit_size_def contains_def AllowedRange_new_def
        signed_take_bit_int_eq_self_iff)
qed

text \<open>Truncating a rounded value to signed \<^verbatim>\<open>n + 1\<close> bits: it is kept or wraps by \<^verbatim>\<open>2 ^ (n + 1)\<close>.\<close>

lemma signed_take_bit_wrap:
  fixes w :: u64
  assumes "n < 62" and "2 ^ n \<le> sint w" and "sint w < 2 ^ n + 2 ^ Suc n"
  shows "signed_take_bit n w = w - 2 ^ Suc n"
proof -
  have "(sint w + 2 ^ n) mod 2 ^ Suc n = (sint w + 2 ^ n - 2 ^ Suc n) mod 2 ^ Suc n"
    by (rule minus_mod_self2 [symmetric])
  also have "\<dots> = sint w + 2 ^ n - 2 ^ Suc n"
    using assms(2,3) by (intro mod_pos_pos_trivial) simp_all
  finally have "signed_take_bit n (sint w) = sint w - 2 ^ Suc n"
    by (simp add: signed_take_bit_eq_take_bit_shift take_bit_eq_mod)
  moreover have "signed_take_bit n w = word_of_int (signed_take_bit n (sint w))"
    using assms(1)
    by (intro bit_word_eqI)
       (auto simp: bit_signed_take_bit_iff bit_word_of_int_iff bit_sint_iff min_def)
  ultimately show ?thesis by (simp del: power_Suc)
qed

lemma signed_take_bit_round:
  fixes v r :: u64
  assumes "n < 62" and "0 \<le> sint r" and "sint r \<le> 2 ^ n"
    and "- (2 ^ n) \<le> sint v" and "sint v < 2 ^ Suc n"
  shows "signed_take_bit n (v + r) = (if sint v < 2 ^ n - sint r then v + r else v + r - 2 ^ Suc n)"
proof -
  have "(2 :: int) ^ n \<le> 2 ^ 61" using assms(1) by (intro power_increasing) simp_all
  then have s: "sint (v + r) = sint v + sint r"
    using assms by (simp add: sint_word_ariths signed_take_bit_int_eq_self)
  show ?thesis
  proof (cases "sint v < 2 ^ n - sint r")
    case True
    then have "contains (const_bit_size (Suc n) Signed) (sint (v + r))"
      using s assms by (simp add: const_bit_size_def from_bit_size_def contains_def AllowedRange_new_def)
    then show ?thesis using const_bit_size_Signed_iff [of "Suc n" "v + r"] assms(1) True by simp
  next
    case False
    with s assms show ?thesis by (subst signed_take_bit_wrap) simp_all
  qed
qed

lemma no_check_contains:
  fixes v :: u64
  shows "contains no_check (sint v) \<longleftrightarrow> sint v \<noteq> 2 ^ 63 - 1"
  using sint_lt [of v] sint_ge [of v] by (auto simp: contains_def no_check_def AllowedRange_new_def)

end
