(* ===== verification/Reloc_Table.thy ===== *)
theory Reloc_Table
  imports Elf_Types
begin

text \<open>
  How the sources turn a raw relocation number into a description: a \<^verbatim>\<open>match\<close> over constants of
  the crate \<^verbatim>\<open>object\<close>. That crate is not part of the repository, so its constants are a parameter
  \<open>elf\<close>, a function from the constant's name to its value. What the code relies on is that
  distinct constants of one architecture have distinct values, the hypothesis
  \<open>inj_on elf names\<close> of the theorems; \<open>numbering\<close> is an instance.

  A table lists the arms of a \<^verbatim>\<open>match\<close> in source order: the alternatives of the pattern and the
  value of the arm, \<open>None\<close> for an arm that is \<^verbatim>\<open>return None\<close>.
\<close>

type_synonym elf_consts = "string \<Rightarrow> u32"
type_synonym 'r match_arms = "(string list \<times> 'r option) list"
type_synonym reloc_row =
  "relocation_kind \<times> relocation_size \<times> page_mask option \<times> allowed_range \<times> nat \<times> u64"

definition match_const :: "elf_consts \<Rightarrow> 'r match_arms \<Rightarrow> u32 \<Rightarrow> 'r option" where
  "match_const elf arms r =
     (case find (\<lambda>(ns, _). list_ex (\<lambda>n. r = elf n) ns) arms of
        None \<Rightarrow> None
      | Some (_, row) \<Rightarrow> row)"

fun row_info :: "bool \<Rightarrow> reloc_row \<Rightarrow> relocation_kind_info" where
  "row_info thunk (k, sz, pm, rng, al, bi) =
     \<lparr>kind = k, size = sz, page_mask = pm, allowed = rng, alignment = al, bias = bi,
      thunkable = thunk\<rparr>"

text \<open>\<^verbatim>\<open>const_name_by_value!\<close>: the first listed constant with the value, as a string.\<close>

definition const_name_by_value :: "elf_consts \<Rightarrow> string list \<Rightarrow> u32 \<Rightarrow> string option" where
  "const_name_by_value elf names r = find (\<lambda>n. r = elf n) names"

definition arm_names :: "'r match_arms \<Rightarrow> string list" where
  "arm_names arms = concat (map fst arms)"

text \<open>An instance of the parameter: number the names by their position in a list.\<close>

fun position :: "'a list \<Rightarrow> 'a \<Rightarrow> nat" where
  "position [] x = 0"
| "position (y # ys) x = (if x = y then 0 else Suc (position ys x))"

definition numbering :: "string list \<Rightarrow> elf_consts" where
  "numbering names n = of_nat (position names n)"

lemma position_less: "x \<in> set xs \<Longrightarrow> position xs x < length xs"
  by (induction xs x rule: position.induct) auto

lemma position_nth: "x \<in> set xs \<Longrightarrow> xs ! position xs x = x"
  by (induction xs x rule: position.induct) auto

lemma inj_on_numbering:
  assumes "length names < 2 ^ 32"
  shows "inj_on (numbering names) (set names)"
proof (rule inj_onI)
  fix x y
  assume x: "x \<in> set names" and y: "y \<in> set names" and eq: "numbering names x = numbering names y"
  have pos: "unat (numbering names z) = position names z" if "z \<in> set names" for z
    using position_less [OF that] assms by (simp add: numbering_def unat_of_nat take_bit_nat_eq_self)
  have "position names x = position names y"
    using pos [OF x] pos [OF y] eq by simp
  then show "x = y" using position_nth [OF x] position_nth [OF y] by metis
qed

lemma arm_namesI: "(ns, row) \<in> set arms \<Longrightarrow> n \<in> set ns \<Longrightarrow> n \<in> set (arm_names arms)"
  by (force simp: arm_names_def)

subsection \<open>Tables without overlapping arms\<close>

locale match_table =
  fixes arms :: "'r match_arms"
  assumes distinct_names: "distinct (arm_names arms)"
begin

lemma arm_unique:
  assumes "(ns, row) \<in> set arms" and "(ns', row') \<in> set arms" and "n \<in> set ns" and "n \<in> set ns'"
  shows "row = row'"
proof -
  have "row = row'" if "distinct (arm_names as)" "(ns, row) \<in> set as" "(ns', row') \<in> set as"
    for as :: "'r match_arms"
    using that assms(3,4)
  proof (induction as)
    case (Cons a as)
    have "n \<notin> set (arm_names as)" if "n \<in> set (fst a)"
      using Cons.prems(1) that by (auto simp: arm_names_def)
    with Cons show ?case by (auto simp: arm_names_def dest: arm_namesI)
  qed simp
  then show ?thesis using distinct_names assms(1,2) by blast
qed

text \<open>Every constant of the table selects its own arm, whatever the order of the arms.\<close>

lemma match_const_arm:
  assumes inj: "inj_on elf (set (arm_names arms))"
    and arm: "(ns, row) \<in> set arms" and n: "n \<in> set ns"
  shows "match_const elf arms (elf n) = row"
proof -
  let ?P = "\<lambda>(ns, _). list_ex (\<lambda>m. elf n = elf m) ns"
  have "\<exists>a \<in> set arms. ?P a" using arm n by (force simp: list_ex_iff)
  then obtain ms row' where f: "find ?P arms = Some (ms, row')"
    by (metis (mono_tags, lifting) find_None_iff not_None_eq prod.exhaust)
  then have mem: "(ms, row') \<in> set arms" and P: "list_ex (\<lambda>m. elf n = elf m) ms"
    by (auto dest: find_SomeD)
  from P obtain m where m: "m \<in> set ms" "elf n = elf m" by (auto simp: list_ex_iff)
  have "m \<in> set (arm_names arms)" and "n \<in> set (arm_names arms)"
    using mem m(1) arm n by (auto intro: arm_namesI)
  with inj m(2) have "n = m" by (auto dest: inj_onD)
  with arm_unique [OF arm mem n] m(1) have "row = row'" by simp
  with f show ?thesis by (simp add: match_const_def)
qed

lemma match_const_other:
  assumes "r \<notin> elf ` set (arm_names arms)"
  shows "match_const elf arms r = None"
proof -
  have "find (\<lambda>(ns, _). list_ex (\<lambda>n. r = elf n) ns) arms = None"
    using assms by (auto simp: find_None_iff list_ex_iff dest: arm_namesI)
  then show ?thesis by (simp add: match_const_def)
qed

end

lemma match_const_SomeD:
  assumes "match_const elf arms r = Some row"
  shows "\<exists>ns n. (ns, Some row) \<in> set arms \<and> n \<in> set ns \<and> r = elf n"
  using assms
  by (auto simp: match_const_def list_ex_iff split: option.splits prod.splits dest!: find_SomeD)

lemma const_name_by_value_Some:
  assumes "inj_on elf (set names)" and "n \<in> set names"
  shows "const_name_by_value elf names (elf n) = Some n"
proof -
  obtain m where m: "find (\<lambda>m. elf n = elf m) names = Some m"
    using assms(2) by (metis (mono_tags, lifting) find_None_iff not_None_eq)
  then have "m \<in> set names" and "elf n = elf m" by (auto dest: find_SomeD)
  with assms have "m = n" by (auto dest: inj_onD)
  with m show ?thesis by (simp add: const_name_by_value_def)
qed

lemma numbering_notin:
  assumes "length names < 2 ^ 32" and "n \<in> set names" and "set ms \<subseteq> set names" and "n \<notin> set ms"
  shows "numbering names n \<notin> numbering names ` set ms"
  using inj_on_numbering [OF assms(1)] assms(2-4) by (auto dest: inj_onD)

end
