(* ===== verification/Alignment.thy ===== *)
theory Alignment
  imports Prelude
begin

unbundle bit_operations_syntax

text \<open>
  \<^verbatim>\<open>libsld/src/alignment.rs\<close>: alignments as exponents of two, rounding of addresses and
  \<^verbatim>\<open>align_modulo\<close>, which moves an offset up until it has the residue of another offset (as the
  ELF loader demands of file offset and address of a segment).
\<close>

record align =
  exponent :: u8

definition MAX_ALIGNMENT_EXPONENT :: u8 where
  "MAX_ALIGNMENT_EXPONENT = 16"

definition NUM_ALIGNMENTS :: nat where
  "NUM_ALIGNMENTS = unat MAX_ALIGNMENT_EXPONENT + 1"

definition MIN_ALIGN :: align where
  "MIN_ALIGN = \<lparr>exponent = 0\<rparr>"

definition MAX_ALIGN :: align where
  "MAX_ALIGN = \<lparr>exponent = MAX_ALIGNMENT_EXPONENT\<rparr>"

text \<open>\<^verbatim>\<open>u64::is_power_of_two\<close> counts the ones, \<^verbatim>\<open>u64::trailing_zeros\<close> the zeros below the lowest one.\<close>

definition is_power_of_two :: "u64 \<Rightarrow> bool" where
  "is_power_of_two x \<longleftrightarrow> length (filter (bit x) [0..<64]) = 1"

definition trailing_zeros :: "u64 \<Rightarrow> nat" where
  "trailing_zeros x = length (takeWhile (\<lambda>i. \<not> bit x i) [0..<64])"

datatype align_error = InvalidAlignment u64 | UnsupportedAlignment u64 | UnsupportedExponent u32

definition Alignment_new :: "u64 \<Rightarrow> align_error + align" where
  "Alignment_new raw =
     (if \<not> is_power_of_two raw then Inl (InvalidAlignment raw)
      else
        let e = trailing_zeros raw in
        if e > unat (exponent MAX_ALIGN) then Inl (UnsupportedAlignment raw)
        else Inr \<lparr>exponent = of_nat e\<rparr>)"

definition from_exponent :: "u32 \<Rightarrow> align_error + align" where
  "from_exponent e =
     (if e > ucast (exponent MAX_ALIGN) then Inl (UnsupportedExponent e)
      else Inr \<lparr>exponent = ucast e\<rparr>)"

text \<open>\<^verbatim>\<open>1 << self.exponent\<close>: in release the shift amount is taken modulo the width.\<close>

definition align_value :: "align \<Rightarrow> u64" where
  "align_value a = push_bit (unat (exponent a) mod 64) 1"

definition align_mask :: "align \<Rightarrow> u64" where
  "align_mask a = align_value a - 1"

text \<open>\<^verbatim>\<open>u64::next_multiple_of\<close>; \<^verbatim>\<open>usize\<close> has 64 bits on the supported hosts.\<close>

definition next_multiple_of :: "u64 \<Rightarrow> u64 \<Rightarrow> u64" where
  "next_multiple_of x m = (let r = x mod m in if r = 0 then x else x + (m - r))"

definition align_up :: "align \<Rightarrow> u64 \<Rightarrow> u64" where
  "align_up a v = next_multiple_of v (align_value a)"

definition align_up_usize :: "align \<Rightarrow> u64 \<Rightarrow> u64" where
  "align_up_usize a v = next_multiple_of v (align_value a)"

definition align_down :: "align \<Rightarrow> u64 \<Rightarrow> u64" where
  "align_down a v = v AND NOT (align_mask a)"

definition align_modulo :: "align \<Rightarrow> u64 \<Rightarrow> u64 \<Rightarrow> u64" where
  "align_modulo a ref_offset offset =
     (let m = align_mask a;
          o1 = align_up a offset
      in if o1 AND m = ref_offset AND m then o1
         else
           let adj = (ref_offset AND m) + align_value a - (o1 AND m)
           in o1 + (if adj > align_value a then adj - align_value a else adj))"

text \<open>The derived order: alignments compare by their exponents.\<close>

definition align_max :: "align \<Rightarrow> align \<Rightarrow> align" where
  "align_max a b = (if exponent a \<le> exponent b then b else a)"

definition align_min :: "align \<Rightarrow> align \<Rightarrow> align" where
  "align_min a b = (if exponent a \<le> exponent b then a else b)"

subsection \<open>Rounding\<close>

text \<open>The invariant of the type: what the constructors produce.\<close>

definition align_ok :: "align \<Rightarrow> bool" where
  "align_ok a \<longleftrightarrow> exponent a \<le> exponent MAX_ALIGN"

abbreviation align_nat :: "align \<Rightarrow> nat" where
  "align_nat a \<equiv> 2 ^ unat (exponent a)"

lemma align_ok_exp: "align_ok a \<Longrightarrow> unat (exponent a) \<le> 16"
  by (simp add: align_ok_def MAX_ALIGN_def MAX_ALIGNMENT_EXPONENT_def word_le_nat_alt)

lemma align_nat_le: "align_ok a \<Longrightarrow> align_nat a \<le> 2 ^ 16"
  by (rule power_increasing) (simp_all add: align_ok_exp)

lemma unat_align_value:
  assumes "align_ok a"
  shows "unat (align_value a) = align_nat a"
proof -
  have e: "unat (exponent a) mod 64 = unat (exponent a)" "unat (exponent a) < 64"
    using align_ok_exp [OF assms] by simp_all
  have "align_value a = 2 ^ unat (exponent a)"
    by (simp add: align_value_def e push_bit_eq_mult)
  moreover have "unat (of_nat (align_nat a) :: u64) = align_nat a"
    unfolding unat_of_nat using power_strict_increasing [OF e(2), of "2 :: nat"] by simp
  ultimately show ?thesis by simp
qed

lemma align_mask_eq: "align_ok a \<Longrightarrow> align_mask a = mask (unat (exponent a))"
  using align_ok_exp [of a] by (simp add: align_mask_def align_value_def mask_eq_exp_minus_1)

lemma and_align_mask:
  assumes "align_ok a"
  shows "unat (v AND align_mask a) = unat v mod align_nat a"
  unfolding align_mask_eq [OF assms] take_bit_eq_mask [symmetric]
  by (simp add: unsigned_take_bit_eq) (simp add: take_bit_eq_mod)

text \<open>Rounding up on natural numbers.\<close>

definition round_up :: "nat \<Rightarrow> nat \<Rightarrow> nat" where
  "round_up m v = (if v mod m = 0 then v else v + (m - v mod m))"

lemma round_up_bounds: "0 < m \<Longrightarrow> v \<le> round_up m v \<and> round_up m v < v + m"
proof -
  assume "0 < m"
  then have "v mod m < m" by simp
  then show ?thesis unfolding round_up_def by (simp del: mod_less_divisor) linarith
qed

lemma round_up_mod [simp]: "0 < m \<Longrightarrow> round_up m v mod m = 0"
proof -
  assume m: "0 < m"
  then have "v mod m < m" by simp
  then have "v + (m - v mod m) = (v div m + 1) * m"
    using div_mult_mod_eq [of v m] unfolding add_mult_distrib mult_1 by linarith
  then show ?thesis by (simp add: round_up_def)
qed

lemma unat_align_up:
  assumes "align_ok a" and "unat v + align_nat a \<le> 2 ^ 64"
  shows "unat (align_up a v) = round_up (align_nat a) (unat v)"
proof -
  let ?m = "align_nat a"
  have mod: "unat (v mod align_value a) = unat v mod ?m"
    by (simp add: unat_mod_distrib unat_align_value [OF assms(1)])
  show ?thesis
  proof (cases "v mod align_value a = 0")
    case True
    then have "unat v mod ?m = 0" using mod by simp
    then show ?thesis using True by (simp add: align_up_def next_multiple_of_def round_up_def)
  next
    case False
    then have ne: "unat v mod ?m \<noteq> 0" using mod by (simp add: unat_eq_zero flip: mod)
    have le: "v mod align_value a \<le> align_value a"
      using mod by (simp add: word_le_nat_alt unat_align_value [OF assms(1)])
    have "unat (align_value a - v mod align_value a) = ?m - unat v mod ?m"
      using mod by (simp add: unat_sub [OF le] unat_align_value [OF assms(1)])
    moreover have "unat v + (?m - unat v mod ?m) < 2 ^ 64"
      using assms(2) ne by (simp add: mod_less_divisor add.commute less_imp_diff_less)
    ultimately have "unat (v + (align_value a - v mod align_value a)) = unat v + (?m - unat v mod ?m)"
      by (subst unat_add_lem [THEN iffD1]) simp_all
    then show ?thesis using False ne by (simp add: align_up_def next_multiple_of_def round_up_def)
  qed
qed


lemma align_up_mod:
  assumes "align_ok a" and "unat v + align_nat a \<le> 2 ^ 64"
  shows "unat (align_up a v) mod align_nat a = 0"
  by (simp add: unat_align_up [OF assms])

text \<open>\<^verbatim>\<open>new\<close> accepts exactly the supported powers of two and inverts \<^verbatim>\<open>value\<close>.\<close>

lemma bit_align_value:
  assumes "align_ok a"
  shows "bit (align_value a) i \<longleftrightarrow> i = unat (exponent a)"
  using align_ok_exp [OF assms] by (auto simp: align_value_def bit_exp_iff possible_bit_def)

lemma filter_upt_single: "k < n \<Longrightarrow> filter (\<lambda>i. i = k) [0..<n] = [k]"
  by (induction n) auto

lemma takeWhile_upt_ne: "k < n \<Longrightarrow> takeWhile (\<lambda>i. i \<noteq> k) [0..<n] = [0..<k]"
proof -
  assume "k < n"
  then have "[0..<n] = [0..<k] @ k # [Suc k..<n]" 
    using upt_add_eq_append [of 0 k "n - k"] upt_conv_Cons [of k n] by (simp only: le_add_diff_inverse less_imp_le_nat)
  moreover have "takeWhile (\<lambda>i. i \<noteq> k) ([0..<k] @ k # [Suc k..<n]) = [0..<k]"
    by (subst takeWhile_append2) auto
  ultimately show ?thesis by simp
qed

lemma power_of_two_value:
  assumes "is_power_of_two raw"
  obtains k where "k < 64" and "\<And>i. bit raw i \<longleftrightarrow> i = k"
proof -
  obtain k where k: "filter (bit raw) [0..<64] = [k]"
    using assms by (auto simp: is_power_of_two_def length_Suc_conv)
  have "i \<in> set (filter (bit raw) [0..<64]) \<longleftrightarrow> bit raw i" for i
    using bit_imp_le_length [of raw i] by auto
  then have "bit raw i \<longleftrightarrow> i = k" for i unfolding k by auto
  moreover have "k \<in> set (filter (bit raw) [0..<64])" unfolding k by simp
  then have "k < 64" by (simp only: set_filter set_upt mem_Collect_eq atLeastLessThan_iff)
  ultimately show ?thesis by (rule that [rotated])
qed

lemma Alignment_new_iff: "Alignment_new raw = Inr a \<longleftrightarrow> align_ok a \<and> raw = align_value a"
proof
  assume new: "Alignment_new raw = Inr a"
  then have "is_power_of_two raw" by (auto simp: Alignment_new_def split: if_splits)
  then obtain k where k: "k < 64" "\<And>i. bit raw i \<longleftrightarrow> i = k" using power_of_two_value by blast
  then have tz: "trailing_zeros raw = k" by (simp add: trailing_zeros_def takeWhile_upt_ne)
  have le: "k \<le> 16" and a: "a = \<lparr>exponent = of_nat k\<rparr>"
    using new tz by (auto simp: Alignment_new_def Let_def MAX_ALIGN_def MAX_ALIGNMENT_EXPONENT_def split: if_splits)
  then have e: "unat (exponent a) = k" by (simp add: unat_of_nat)
  then have ok: "align_ok a" using le by (simp add: align_ok_def MAX_ALIGN_def MAX_ALIGNMENT_EXPONENT_def word_le_nat_alt)
  have "raw = align_value a"
    by (rule bit_word_eqI) (simp add: k(2) bit_align_value [OF ok] e)
  with ok show "align_ok a \<and> raw = align_value a" by simp
next
  assume "align_ok a \<and> raw = align_value a"
  then have ok: "align_ok a" and raw: "raw = align_value a" by simp_all
  have lt: "unat (exponent a) < 64" using align_ok_exp [OF ok] by simp
  have "bit raw = (\<lambda>i. i = unat (exponent a))" using bit_align_value [OF ok] raw by auto
  then have "is_power_of_two raw" and "trailing_zeros raw = unat (exponent a)"
    using lt by (simp_all add: is_power_of_two_def trailing_zeros_def filter_upt_single takeWhile_upt_ne)
  then show "Alignment_new raw = Inr a"
    using align_ok_exp [OF ok] by (simp add: Alignment_new_def MAX_ALIGN_def MAX_ALIGNMENT_EXPONENT_def)
qed

lemma unat_align_modulo:
  assumes ok: "align_ok a" and bound: "unat offset + 2 * align_nat a \<le> 2 ^ 64"
  shows "unat (align_modulo a ref_offset offset) = unat (align_up a offset) + unat ref_offset mod align_nat a"
    and "unat (align_up a offset) + align_nat a \<le> 2 ^ 64"
proof -
  let ?m = "align_nat a" and ?u = "align_up a offset" and ?r = "ref_offset AND align_mask a"
  have m: "0 < ?m" "?m \<le> 2 ^ 16" using align_nat_le [OF ok] by simp_all
  have u: "unat ?u mod ?m = 0" and u_le: "unat ?u + ?m \<le> 2 ^ 64"
    using bound unat_align_up [OF ok, of offset] round_up_bounds [OF m(1), of "unat offset"] m(1)
    by (simp_all add: align_up_mod [OF ok])
  have r: "unat ?r = unat ref_offset mod ?m" by (rule and_align_mask [OF ok])
  have um: "?u AND align_mask a = 0"
    using and_align_mask [OF ok, of ?u] u by (simp add: unat_eq_zero)
  have rlt: "unat ?r < ?m" using r m(1) by simp
  have val: "unat (align_value a) = ?m" by (rule unat_align_value [OF ok])
  have sum: "unat (?r + align_value a) = unat ?r + ?m"
    using rlt val m(2) by (subst unat_add_lem [THEN iffD1]) simp_all
  have eq: "align_modulo a ref_offset offset = ?u + ?r"
    using sum val by (auto simp: align_modulo_def Let_def um word_less_nat_alt unat_eq_zero)
  have "unat (?u + ?r) = unat ?u + unat ?r"
    using u_le rlt by (subst unat_add_lem [THEN iffD1]) simp_all
  then show "unat (align_modulo a ref_offset offset) = unat ?u + unat ref_offset mod ?m"
    unfolding eq r .
  show "unat ?u + ?m \<le> 2 ^ 64" by (rule u_le)
qed

text \<open>
  \<^verbatim>\<open>align_modulo\<close> returns the least offset that is not below \<^verbatim>\<open>align_up(offset)\<close> and has the residue of
  \<^verbatim>\<open>ref_offset\<close>, for every alignment that \<^verbatim>\<open>Alignment::new\<close> accepts and every offset that is not within
  two alignments of the end of the address space.
\<close>

lemma align_modulo_least:
  assumes "Alignment_new raw = Inr a" and "unat offset + 2 * unat raw \<le> 2 ^ 64"
  shows "unat (align_modulo a ref_offset offset) mod unat raw = unat ref_offset mod unat raw
    \<and> align_up a offset \<le> align_modulo a ref_offset offset
    \<and> (\<forall>x. align_up a offset \<le> x \<and> unat x mod unat raw = unat ref_offset mod unat raw
          \<longrightarrow> align_modulo a ref_offset offset \<le> x)"
proof -
  have ok: "align_ok a" and raw: "unat raw = align_nat a"
    using assms(1) by (simp_all add: Alignment_new_iff unat_align_value)
  let ?m = "align_nat a" and ?u = "align_up a offset" and ?a = "align_modulo a ref_offset offset"
  have b: "unat offset + 2 * ?m \<le> 2 ^ 64" using assms(2) unfolding raw .
  note eq = unat_align_modulo(1) [OF ok b, of ref_offset]
  have "unat offset + ?m \<le> 2 ^ 64" using b by linarith
  then have u: "unat ?u mod ?m = 0" by (rule align_up_mod [OF ok])
  have mod: "unat ?a mod ?m = unat ref_offset mod ?m"
    unfolding eq using u by (metis add.left_neutral mod_add_left_eq mod_mod_trivial)
  moreover have "?a \<le> x" if x: "?u \<le> x" "unat x mod ?m = unat ref_offset mod ?m" for x
  proof -
    have "unat x = unat ?u + (unat x - unat ?u)" using x(1) by (simp add: word_le_nat_alt)
    then have "(unat x - unat ?u) mod ?m = unat x mod ?m"
      using u by (metis add.left_neutral mod_add_left_eq)
    then have "unat ref_offset mod ?m \<le> unat x - unat ?u" using x(2) by (metis mod_less_eq_dividend)
    then show ?thesis using x(1) eq by (simp add: word_le_nat_alt)
  qed
  ultimately show ?thesis unfolding raw using eq by (simp add: word_le_nat_alt)
qed

lemma align_modulo_least_witness:
  "unat (align_modulo \<lparr>exponent = 12\<rparr> 0x123456 0x987456) mod unat (0x1000 :: u64) = unat (0x123456 :: u64) mod unat (0x1000 :: u64)
    \<and> align_modulo \<lparr>exponent = 12\<rparr> 0x123456 0x987456 \<le> 0x988456"
proof -
  have new: "Alignment_new 0x1000 = Inr \<lparr>exponent = 12\<rparr>"
    by (simp add: Alignment_new_iff align_ok_def align_value_def MAX_ALIGN_def MAX_ALIGNMENT_EXPONENT_def)
  have up: "align_up \<lparr>exponent = 12\<rparr> 0x987456 \<le> 0x988456"
    by (simp add: align_up_def next_multiple_of_def align_value_def)
  show ?thesis using align_modulo_least [OF new, where offset = "0x987456" and ref_offset = "0x123456"] up by simp
qed

end
