(* ===== verification/Output_Sections.thy ===== *)
theory Output_Sections
  imports Alignment "HOL-Library.Monad_Syntax"
begin

unbundle bit_operations_syntax

text \<open>
  Output sections and their parts: \<^verbatim>\<open>libsld/src/part_id.rs\<close>, \<^verbatim>\<open>output_section_id.rs\<close>,
  \<^verbatim>\<open>output_section_map.rs\<close>, \<^verbatim>\<open>output_section_part_map.rs\<close>, \<^verbatim>\<open>output_kind.rs\<close> and
  \<^verbatim>\<open>program_segments.rs\<close>. A regular section has one part for every alignment, the largest
  alignment first; a generated section is a single part.

  What the code takes from the trait \<^verbatim>\<open>Platform\<close> is the record \<open>platform\<close>, an argument of the
  definitions; \<open>elf_platform\<close> is the instance of \<^verbatim>\<open>libsld/src/elf.rs\<close>. Maps indexed by a section or
  part id are lists; an index out of range panics and is \<open>None\<close>.
\<close>

subsection \<open>Output kinds\<close>

datatype relocation_model = NonRelocatable | RelocatableModel

datatype output_kind =
    StaticExecutable relocation_model
  | DynamicExecutable relocation_model
  | SharedObject
  | Relocatable

text \<open>
  \<^verbatim>\<open>OutputKind::new\<close>; the arguments are what the code reads from the command line
  (\<^verbatim>\<open>relocation_model\<close>, \<^verbatim>\<open>should_output_executable\<close>, \<^verbatim>\<open>should_output_partial_object\<close>,
  \<^verbatim>\<open>dynamic_linker().is_some()\<close>) and whether a dynamic object is an input.
\<close>

definition OutputKind_new :: "relocation_model \<Rightarrow> bool \<Rightarrow> bool \<Rightarrow> bool \<Rightarrow> bool \<Rightarrow> output_kind" where
  "OutputKind_new model output_executable partial_object has_dynamic_linker has_dynamic =
     (if \<not> output_executable then (if partial_object then Relocatable else SharedObject)
      else if has_dynamic_linker \<and> model = RelocatableModel then DynamicExecutable model
      else if has_dynamic then DynamicExecutable model
      else StaticExecutable model)"

fun is_executable :: "output_kind \<Rightarrow> bool" where
  "is_executable SharedObject = False"
| "is_executable Relocatable = False"
| "is_executable _ = True"

fun is_shared_object :: "output_kind \<Rightarrow> bool" where
  "is_shared_object SharedObject = True"
| "is_shared_object _ = False"

fun is_partial_object :: "output_kind \<Rightarrow> bool" where
  "is_partial_object Relocatable = True"
| "is_partial_object _ = False"

fun is_dynamic_executable :: "output_kind \<Rightarrow> bool" where
  "is_dynamic_executable (DynamicExecutable _) = True"
| "is_dynamic_executable _ = False"

fun is_static_executable :: "output_kind \<Rightarrow> bool" where
  "is_static_executable (StaticExecutable _) = True"
| "is_static_executable _ = False"

fun is_relocatable :: "output_kind \<Rightarrow> bool" where
  "is_relocatable (StaticExecutable RelocatableModel) = True"
| "is_relocatable (DynamicExecutable RelocatableModel) = True"
| "is_relocatable SharedObject = True"
| "is_relocatable Relocatable = True"
| "is_relocatable _ = False"

fun needs_dynsym :: "output_kind \<Rightarrow> bool" where
  "needs_dynsym (DynamicExecutable _) = True"
| "needs_dynsym SharedObject = True"
| "needs_dynsym (StaticExecutable RelocatableModel) = True"
| "needs_dynsym _ = False"

fun needs_dynamic :: "output_kind \<Rightarrow> bool" where
  "needs_dynamic (StaticExecutable NonRelocatable) = False"
| "needs_dynamic Relocatable = False"
| "needs_dynamic _ = True"

fun should_output_symbol_versions :: "output_kind \<Rightarrow> bool" where
  "should_output_symbol_versions (DynamicExecutable _) = True"
| "should_output_symbol_versions SharedObject = True"
| "should_output_symbol_versions _ = False"

subsection \<open>Section and part ids\<close>

type_synonym section_id = u32
type_synonym part_id = u32

definition NUM_SINGLE_PART_SECTIONS :: u32 where
  "NUM_SINGLE_PART_SECTIONS = 47"

definition NUM_BUILT_IN_REGULAR_SECTIONS :: nat where
  "NUM_BUILT_IN_REGULAR_SECTIONS = 20"

definition NUM_BUILT_IN_SECTIONS :: nat where
  "NUM_BUILT_IN_SECTIONS = unat NUM_SINGLE_PART_SECTIONS + NUM_BUILT_IN_REGULAR_SECTIONS"

definition output_section_id :: "part_id \<Rightarrow> section_id" where
  "output_section_id p =
     (if p < NUM_SINGLE_PART_SECTIONS then p
      else (p - NUM_SINGLE_PART_SECTIONS) div of_nat NUM_ALIGNMENTS + NUM_SINGLE_PART_SECTIONS)"

definition regular :: "u32 \<Rightarrow> section_id" where
  "regular offset = NUM_SINGLE_PART_SECTIONS + offset"

definition is_regular :: "section_id \<Rightarrow> bool" where
  "is_regular s \<longleftrightarrow> NUM_SINGLE_PART_SECTIONS \<le> s"

definition is_custom :: "section_id \<Rightarrow> bool" where
  "is_custom s \<longleftrightarrow> NUM_BUILT_IN_SECTIONS \<le> unat s"

definition num_parts :: "section_id \<Rightarrow> nat" where
  "num_parts s = (if s < NUM_SINGLE_PART_SECTIONS then 1 else NUM_ALIGNMENTS)"

definition base_part_id :: "section_id \<Rightarrow> part_id" where
  "base_part_id s =
     (if s < NUM_SINGLE_PART_SECTIONS then s
      else NUM_SINGLE_PART_SECTIONS + (s - NUM_SINGLE_PART_SECTIONS) * of_nat NUM_ALIGNMENTS)"

definition part_offset :: "part_id \<Rightarrow> nat \<Rightarrow> part_id" where
  "part_offset p n = p + of_nat n"

definition part_id_range :: "section_id \<Rightarrow> part_id \<times> part_id" where
  "part_id_range s = (let base = base_part_id s in (base, part_offset base (num_parts s)))"

definition part_id_with_alignment :: "section_id \<Rightarrow> align \<Rightarrow> part_id option" where
  "part_id_with_alignment s a =
     (if s < NUM_SINGLE_PART_SECTIONS then None
      else Some (NUM_SINGLE_PART_SECTIONS + (s - NUM_SINGLE_PART_SECTIONS) * of_nat NUM_ALIGNMENTS
                 + of_nat NUM_ALIGNMENTS - 1 - ucast (exponent a)))"

text \<open>The sections that the code treats specially.\<close>

definition FILE_HEADER :: section_id where "FILE_HEADER = 1"
definition EH_FRAME :: section_id where "EH_FRAME = 9"
definition RELRO_PADDING :: section_id where "RELRO_PADDING = 28"
definition INIT :: section_id where "INIT = regular 5"
definition FINI :: section_id where "FINI = regular 6"

definition should_pack :: "part_id \<Rightarrow> bool" where
  "should_pack p = (let s = output_section_id p in s = EH_FRAME \<or> s = INIT \<or> s = FINI)"

subsection \<open>Sections\<close>

datatype section_kind = Primary bytes | Secondary section_id

record 'attr section_output_info =
  info_kind :: section_kind
  section_attributes :: 'attr
  min_alignment :: align
  location :: "u64 option" \<comment> \<open>\<^verbatim>\<open>Location { address }\<close>\<close>
  secondary_order :: "u16 option" \<comment> \<open>\<^verbatim>\<open>SecondaryOrder::InitFini { priority }\<close>\<close>

record 'attr output_sections =
  section_infos :: "'attr section_output_info list"
  base_address :: u64
  custom_by_name :: "bytes \<rightharpoonup> section_id"
  output_section_indexes :: "u32 option list"
  init_fini_by_priority :: "section_id \<times> u16 \<rightharpoonup> section_id"

record ('attr, 'def) platform =
  attr_is_alloc :: "'attr \<Rightarrow> bool"
  has_data_in_file :: "'attr \<Rightarrow> bool"
  attr_default :: 'attr
  def_is_loadable :: "'def \<Rightarrow> bool"
  def_is_writable :: "'def \<Rightarrow> bool"
  def_is_executable :: "'def \<Rightarrow> bool"
  def_is_stack :: "'def \<Rightarrow> bool"
  should_cut_rw_segment_when_ending :: "'def \<Rightarrow> bool"
  should_include_section :: "'def \<Rightarrow> 'attr section_output_info \<Rightarrow> section_id \<Rightarrow> bool"
  program_segment_defs :: "'def list"
  unconditional_segment_defs :: "'def list"
  align_load_segment_start :: "'def \<Rightarrow> align \<Rightarrow> u64 \<times> u64 \<Rightarrow> u64 \<times> u64" \<comment> \<open>file and memory offset\<close>

definition output_info :: "'attr output_sections \<Rightarrow> section_id \<Rightarrow> 'attr section_output_info option" where
  "output_info os s = get_at (section_infos os) (unat s)"

definition num_sections :: "'attr output_sections \<Rightarrow> nat" where
  "num_sections os = length (section_infos os)"

definition sections_num_parts :: "'attr output_sections \<Rightarrow> nat" where
  "sections_num_parts os =
     unat NUM_SINGLE_PART_SECTIONS + (num_sections os - unat NUM_SINGLE_PART_SECTIONS) * NUM_ALIGNMENTS"

definition section_min_alignment :: "'attr output_sections \<Rightarrow> section_id \<Rightarrow> align option" where
  "section_min_alignment os s = map_option min_alignment (output_info os s)"

definition part_alignment :: "'attr output_sections \<Rightarrow> part_id \<Rightarrow> align option" where
  "part_alignment os p =
     (if p < NUM_SINGLE_PART_SECTIONS then section_min_alignment os (output_section_id p)
      else Some \<lparr>exponent = of_nat NUM_ALIGNMENTS - 1
                  - ucast ((p - NUM_SINGLE_PART_SECTIONS) mod of_nat NUM_ALIGNMENTS)\<rparr>)"

definition merge_target :: "'attr output_sections \<Rightarrow> section_id \<Rightarrow> section_id option option" where
  "merge_target os s =
     map_option (\<lambda>info. case info_kind info of Primary _ \<Rightarrow> None | Secondary primary \<Rightarrow> Some primary)
       (output_info os s)"

definition primary_output_section :: "'attr output_sections \<Rightarrow> section_id \<Rightarrow> section_id option" where
  "primary_output_section os s = map_option (\<lambda>t. case t of None \<Rightarrow> s | Some p \<Rightarrow> p) (merge_target os s)"

text \<open>Operations that add sections; the index of the new section is its id.\<close>

definition add_new :: "'a \<Rightarrow> 'a list \<Rightarrow> section_id \<times> 'a list" where
  "add_new v vs = (of_nat (length vs), vs @ [v])"

definition add_named_section ::
    "('attr, 'def) platform \<Rightarrow> bytes \<Rightarrow> align \<Rightarrow> u64 option \<Rightarrow> 'attr output_sections
     \<Rightarrow> section_id \<times> 'attr output_sections" where
  "add_named_section pf name min_align loc os =
     (case custom_by_name os name of
        Some s \<Rightarrow> (s, os)
      | None \<Rightarrow>
          let (s, infos) = add_new \<lparr>info_kind = Primary name, section_attributes = attr_default pf,
                                    min_alignment = min_align, location = loc, secondary_order = None\<rparr>
                             (section_infos os)
          in (s, os\<lparr>section_infos := infos, custom_by_name := (custom_by_name os)(name \<mapsto> s)\<rparr>))"

definition add_secondary_section ::
    "section_id \<Rightarrow> align \<Rightarrow> u16 option \<Rightarrow> 'attr output_sections \<Rightarrow> (section_id \<times> 'attr output_sections) option" where
  "add_secondary_section primary min_align order os =
     do {
       info \<leftarrow> output_info os primary;
       let (s, infos) = add_new \<lparr>info_kind = Secondary primary, section_attributes = section_attributes info,
                                 min_alignment = min_align, location = None, secondary_order = order\<rparr>
                          (section_infos os);
       Some (s, os\<lparr>section_infos := infos\<rparr>)
     }"

definition bump_min_alignment :: "section_id \<Rightarrow> align \<Rightarrow> 'attr output_sections \<Rightarrow> 'attr output_sections option" where
  "bump_min_alignment s a os =
     do {
       info \<leftarrow> output_info os s;
       infos \<leftarrow> set_at (unat s) (info\<lparr>min_alignment := align_max (min_alignment info) a\<rparr>) (section_infos os);
       Some (os\<lparr>section_infos := infos\<rparr>)
     }"

definition get_or_create_init_fini_secondary ::
    "section_id \<Rightarrow> u16 \<Rightarrow> align \<Rightarrow> 'attr output_sections \<Rightarrow> (section_id \<times> 'attr output_sections) option" where
  "get_or_create_init_fini_secondary primary priority min_align os =
     (case init_fini_by_priority os (primary, priority) of
        Some s \<Rightarrow> map_option (\<lambda>os'. (s, os')) (bump_min_alignment s min_align os)
      | None \<Rightarrow>
          do {
            (s, os') \<leftarrow> add_secondary_section primary min_align (Some priority) os;
            Some (s, os'\<lparr>init_fini_by_priority := (init_fini_by_priority os')((primary, priority) \<mapsto> s)\<rparr>)
          })"

subsection \<open>Part maps\<close>

text \<open>A part map is a list indexed by part id. \<^verbatim>\<open>T::default()\<close> is an argument.\<close>

definition part_slice :: "part_id \<times> part_id \<Rightarrow> 'a list \<Rightarrow> 'a list option" where
  "part_slice rng m = slice_range (unat (fst rng)) (unat (snd rng)) m"

definition part_get :: "part_id \<Rightarrow> 'a list \<Rightarrow> 'a option" where
  "part_get p m = get_at m (unat p)"

definition part_increment :: "part_id \<Rightarrow> u64 \<Rightarrow> u64 list \<Rightarrow> u64 list option" where
  "part_increment p n m = Option.bind (part_get p m) (\<lambda>v. set_at (unat p) (v + n) m)"

text \<open>A \<^verbatim>\<open>debug_assert!\<close> rejects an underflow.\<close>

definition part_decrement :: "part_id \<Rightarrow> u64 \<Rightarrow> u64 list \<Rightarrow> u64 list option" where
  "part_decrement p n m =
     Option.bind (part_get p m) (\<lambda>v. if n \<le> v then set_at (unat p) (v - n) m else None)"

definition part_resize :: "'a \<Rightarrow> nat \<Rightarrow> 'a list \<Rightarrow> 'a list" where
  "part_resize d n m = take n m @ replicate (n - length m) d"

definition part_merge :: "u64 list \<Rightarrow> u64 list \<Rightarrow> u64 list" where
  "part_merge m rhs =
     (let m' = (if length m < length rhs then part_resize 0 (length rhs) m else m)
      in map2 (+) m' rhs @ drop (length rhs) m')"

definition max_alignment :: "'a \<Rightarrow> 'attr output_sections \<Rightarrow> part_id \<times> part_id \<Rightarrow> 'a list \<Rightarrow> align option" where
  "max_alignment d os rng m =
     do {
       parts \<leftarrow> part_slice rng m;
       found \<leftarrow> (let o' = length (takeWhile (\<lambda>p. p = d) parts)
                 in if o' < length parts then part_alignment os (part_offset (fst rng) o') else Some MIN_ALIGN);
       least \<leftarrow> section_min_alignment os (output_section_id (fst rng));
       Some (align_max found least)
     }"

text \<open>\<^verbatim>\<open>merge_parts\<close>: the parts of each section are handed to a function, section after section.\<close>

fun merge_parts_loop :: "(section_id \<Rightarrow> 'a list \<Rightarrow> 'b) \<Rightarrow> nat list \<Rightarrow> 'a list \<Rightarrow> 'b list option" where
  "merge_parts_loop cb [] parts = Some []"
| "merge_parts_loop cb (i # is) parts =
     (let s = of_nat i; n = num_parts s
      in if length parts < n then None
         else map_option ((#) (cb s (take n parts))) (merge_parts_loop cb is (drop n parts)))"

definition merge_parts :: "(section_id \<Rightarrow> 'a list \<Rightarrow> 'b) \<Rightarrow> 'a list \<Rightarrow> 'b list option" where
  "merge_parts cb m =
     (if length m < 2 ^ 32
      then merge_parts_loop cb [0..<unat (output_section_id (of_nat (length m)))] m
      else None)"

subsection \<open>Ids\<close>

lemma NUM_ALIGNMENTS_eq: "NUM_ALIGNMENTS = 17"
  by (simp add: NUM_ALIGNMENTS_def MAX_ALIGNMENT_EXPONENT_def)

text \<open>The ids as natural numbers; \<open>section_fits\<close> says that the parts of a section have 32-bit ids.\<close>

definition section_fits :: "section_id \<Rightarrow> bool" where
  "section_fits s \<longleftrightarrow> 47 + (unat s - 47) * 17 + 17 < 2 ^ 32"

lemma less_single: "p < NUM_SINGLE_PART_SECTIONS \<longleftrightarrow> unat p < 47"
  by (simp add: NUM_SINGLE_PART_SECTIONS_def word_less_nat_alt)

lemma unat_minus_47: "47 \<le> unat (p :: u32) \<Longrightarrow> unat (p - 47) = unat p - 47"
  by (subst unat_sub) (simp_all add: word_le_nat_alt)

lemma unat_output_section_id:
  "unat (output_section_id p) = (if unat p < 47 then unat p else (unat p - 47) div 17 + 47)"
proof (cases "unat p < 47")
  case False
  have p: "unat p < 2 ^ 32" using unsigned_less [of p, where 'a = nat] by simp
  have "unat ((p - 47) div 17) = (unat p - 47) div 17"
    using False by (simp add: unat_div_distrib unat_minus_47)
  moreover have "(unat p - 47) div 17 + 47 < 2 ^ 32" using p by simp
  ultimately have "unat ((p - 47) div 17 + 47) = (unat p - 47) div 17 + 47"
    by (subst unat_add_lem [THEN iffD1]) simp_all
  then show ?thesis
    using False by (simp add: output_section_id_def less_single NUM_ALIGNMENTS_eq)
       (simp add: NUM_SINGLE_PART_SECTIONS_def)
qed (simp add: output_section_id_def less_single)

lemma unat_base_part_id:
  assumes "section_fits s"
  shows "unat (base_part_id s) = (if unat s < 47 then unat s else 47 + (unat s - 47) * 17)"
proof (cases "unat s < 47")
  case False
  have lt: "47 + (unat s - 47) * 17 < 2 ^ 32" using assms by (simp add: section_fits_def)
  have "unat ((s - 47) * 17) = (unat s - 47) * 17"
    using lt False by (subst unat_mult_lem [THEN iffD1]) (simp_all add: unat_minus_47)
  then have "unat (47 + (s - 47) * 17) = 47 + (unat s - 47) * 17"
    using lt by (subst unat_add_lem [THEN iffD1]) simp_all
  then show ?thesis
    using False by (simp add: base_part_id_def less_single NUM_ALIGNMENTS_eq)
       (simp add: NUM_SINGLE_PART_SECTIONS_def)
qed (simp add: base_part_id_def less_single)

lemma num_parts_eq: "num_parts s = (if unat s < 47 then 1 else 17)"
  by (simp add: num_parts_def less_single NUM_ALIGNMENTS_eq)

lemma unat_part_offset:
  assumes "section_fits s" and "k \<le> num_parts s"
  shows "unat (part_offset (base_part_id s) k) = unat (base_part_id s) + k"
proof -
  have "unat (base_part_id s) + k < 2 ^ 32"
    using assms unat_base_part_id [OF assms(1)] by (auto simp: section_fits_def num_parts_eq split: if_splits)
  moreover from this have "unat (of_nat k :: u32) = k" by (simp add: unat_of_nat)
  ultimately show ?thesis
    unfolding part_offset_def by (subst unat_add_lem [THEN iffD1]) simp_all
qed

text \<open>The parts of a section are exactly the ids of its range, so ranges of different sections are disjoint.\<close>

lemma part_range_iff:
  assumes "section_fits s"
  shows "unat (base_part_id s) \<le> unat p \<and> unat p < unat (base_part_id s) + num_parts s
    \<longleftrightarrow> output_section_id p = s"
proof -
  have "output_section_id p = s \<longleftrightarrow> unat (output_section_id p) = unat s" by (simp add: word_unat_eq_iff)
  also have "\<dots> \<longleftrightarrow> unat (base_part_id s) \<le> unat p \<and> unat p < unat (base_part_id s) + num_parts s"
    unfolding unat_output_section_id unat_base_part_id [OF assms] num_parts_eq
    by (cases "unat s < 47"; cases "unat p < 47") auto
  finally show ?thesis by simp
qed

lemma unat_part_id_with_alignment:
  assumes "is_regular s" and "section_fits s" and "align_ok a"
  obtains p where "part_id_with_alignment s a = Some p"
    and "unat p = 47 + (unat s - 47) * 17 + (16 - unat (exponent a))"
proof -
  let ?b = "47 + (s - 47) * 17 :: u32" and ?e = "ucast (exponent a) :: u32"
  have s: "47 \<le> unat s" using assms(1) by (simp add: is_regular_def NUM_SINGLE_PART_SECTIONS_def word_le_nat_alt)
  then have b: "unat ?b = 47 + (unat s - 47) * 17"
    using unat_base_part_id [OF assms(2)]
    by (simp add: base_part_id_def less_single NUM_ALIGNMENTS_eq) (simp add: NUM_SINGLE_PART_SECTIONS_def)
  have e: "unat ?e = unat (exponent a)" "unat (exponent a) \<le> 16"
    using align_ok_exp [OF assms(3)] by (simp_all add: unsigned_ucast_eq take_bit_nat_eq_self)
  have "unat (?b + 16) = unat ?b + 16"
    using assms(2) b by (subst unat_add_lem [THEN iffD1]) (simp_all add: section_fits_def)
  then have "unat (?b + 16 - ?e) = unat ?b + (16 - unat (exponent a))"
    using e by (subst unat_sub) (simp_all add: word_le_nat_alt)
  moreover have "part_id_with_alignment s a = Some (?b + 16 - ?e)"
    using s by (simp add: part_id_with_alignment_def less_single NUM_ALIGNMENTS_eq)
       (simp add: NUM_SINGLE_PART_SECTIONS_def)
  ultimately show ?thesis using b by (intro that) simp_all
qed

lemma regular_part_alignment:
  assumes "is_regular p"
  obtains a where "part_alignment os p = Some a" and "align_ok a"
    and "unat (exponent a) = 16 - (unat p - 47) mod 17"
proof -
  have p: "47 \<le> unat p" using assms by (simp add: is_regular_def NUM_SINGLE_PART_SECTIONS_def word_le_nat_alt)
  let ?m = "(p - 47) mod 17"
  have m: "unat ?m = (unat p - 47) mod 17" using p by (simp add: unat_mod_distrib unat_minus_47)
  then have "unat (ucast ?m :: u8) = (unat p - 47) mod 17"
    by (simp add: unsigned_ucast_eq take_bit_eq_mod)
  moreover have "(unat p - 47) mod 17 < 17" by simp
  ultimately have "unat (16 - ucast ?m :: u8) = 16 - (unat p - 47) mod 17"
    by (subst unat_sub) (simp_all add: word_le_nat_alt)
  moreover have "part_alignment os p = Some \<lparr>exponent = 16 - ucast ?m\<rparr>"
    using p by (simp add: part_alignment_def less_single NUM_ALIGNMENTS_eq)
       (simp add: NUM_SINGLE_PART_SECTIONS_def)
  ultimately show ?thesis
    by (intro that [of "\<lparr>exponent = 16 - ucast ?m\<rparr>"])
       (simp_all only: align_ok_def MAX_ALIGN_def MAX_ALIGNMENT_EXPONENT_def word_le_nat_alt align.select_convs, simp_all)
qed

lemma mixed_radix_unique:
  fixes d r t k :: nat
  assumes "r < 17" and "k \<le> 16"
  shows "17 * d + r = 17 * t + (16 - k) \<longleftrightarrow> d = t \<and> 16 - r = k"
proof -
  have q: "(17 * d + r) div 17 = d" "(17 * t + (16 - k)) div 17 = t" using assms(1) by simp_all
  have "d = t" if "17 * d + r = 17 * t + (16 - k)" using q unfolding that by simp
  moreover have "r = 16 - k \<longleftrightarrow> 16 - r = k" using assms by auto
  ultimately show ?thesis by auto
qed

lemma align_eqI: "unat (exponent a) = unat (exponent b) \<Longrightarrow> a = (b :: align)"
  by (simp add: word_unat_eq_iff)

text \<open>
  Part ids, section ids and alignments convert into each other without loss: for a regular
  section and a supported alignment, the computed part id is the one and only part id of a
  regular section that belongs to this section and has this alignment.
\<close>

lemma part_id_roundtrip:
  assumes "is_regular s" and "section_fits s" and "align_ok a"
  shows "part_id_with_alignment s a = Some p \<longleftrightarrow>
    is_regular p \<and> output_section_id p = s \<and> part_alignment os p = Some a"
proof -
  obtain p' where p': "part_id_with_alignment s a = Some p'"
      "unat p' = 47 + (unat s - 47) * 17 + (16 - unat (exponent a))"
    by (rule unat_part_id_with_alignment [OF assms])
  have s: "47 \<le> unat s" using assms(1) by (simp add: is_regular_def NUM_SINGLE_PART_SECTIONS_def word_le_nat_alt)
  have e: "unat (exponent a) \<le> 16" by (rule align_ok_exp [OF assms(3)])
  show ?thesis
  proof (cases "is_regular p")
    case False
    then have "p \<noteq> p'" using p'(2) by (auto simp: is_regular_def NUM_SINGLE_PART_SECTIONS_def word_le_nat_alt)
    then show ?thesis using p'(1) False by simp
  next
    case True
    then have p: "47 \<le> unat p" by (simp add: is_regular_def NUM_SINGLE_PART_SECTIONS_def word_le_nat_alt)
    obtain b where b: "part_alignment os p = Some b" "unat (exponent b) = 16 - (unat p - 47) mod 17"
      by (rule regular_part_alignment [OF True])
    have "output_section_id p = s \<longleftrightarrow> (unat p - 47) div 17 + 47 = unat s"
      using p unat_output_section_id [of p] by (auto simp: word_unat_eq_iff)
    moreover have "b = a \<longleftrightarrow> 16 - (unat p - 47) mod 17 = unat (exponent a)"
      using b(2) align_eqI [of b a] by auto
    moreover have "p' = p \<longleftrightarrow> unat p = 47 + (unat s - 47) * 17 + (16 - unat (exponent a))"
      using p'(2) by (auto simp: word_unat_eq_iff)
    moreover have "unat p = 47 + (unat s - 47) * 17 + (16 - unat (exponent a))
        \<longleftrightarrow> (unat p - 47) div 17 + 47 = unat s \<and> 16 - (unat p - 47) mod 17 = unat (exponent a)"
    proof -
      have "unat p = 47 + (unat s - 47) * 17 + (16 - unat (exponent a))
        \<longleftrightarrow> unat p - 47 = 17 * (unat s - 47) + (16 - unat (exponent a))"
        using p by (intro iffI) linarith+
      moreover have "(unat p - 47) div 17 + 47 = unat s \<longleftrightarrow> (unat p - 47) div 17 = unat s - 47"
        using s by (intro iffI) linarith+
      ultimately show ?thesis
        using mixed_radix_unique [of "(unat p - 47) mod 17" "unat (exponent a)" "(unat p - 47) div 17" "unat s - 47"] e
        by (simp only: mult_div_mod_eq)
    qed
    ultimately show ?thesis using p'(1) b(1) True by simp
  qed
qed

lemma part_id_roundtrip_witness:
  "part_id_with_alignment (regular 4) \<lparr>exponent = 4\<rparr> = Some 127 \<longleftrightarrow>
    is_regular 127 \<and> output_section_id 127 = regular 4
    \<and> part_alignment (undefined :: unit output_sections) 127 = Some \<lparr>exponent = 4\<rparr>"
  by (rule part_id_roundtrip)
     (simp_all add: is_regular_def regular_def section_fits_def align_ok_def NUM_SINGLE_PART_SECTIONS_def
        MAX_ALIGN_def MAX_ALIGNMENT_EXPONENT_def)

end
