(* ===== verification/Output_Order.thy ===== *)
theory Output_Order
  imports Output_Sections
begin

text \<open>
  The order of the output: \<^verbatim>\<open>ProgramSegments\<close> of \<^verbatim>\<open>libsld/src/program_segments.rs\<close> and
  \<^verbatim>\<open>OutputOrderBuilder\<close> of \<^verbatim>\<open>libsld/src/output_section_id.rs\<close>, which turns a sequence of sections into
  events: sections, and starts and ends of the program segments that contain them.

  The bracket structure of the events is the interface to the layout: whatever sections are
  added, every segment is started once, with the next free id, and is ended once after that.
\<close>

type_synonym segment_id = u8

definition ProgramSegmentId_new :: "nat \<Rightarrow> segment_id option" where
  "ProgramSegmentId_new n = (if n < 256 then Some (of_nat n) else None)"

definition add_segment :: "'def \<Rightarrow> 'def list \<Rightarrow> (segment_id \<times> 'def list) option" where
  "add_segment d segs = map_option (\<lambda>sid. (sid, segs @ [d])) (ProgramSegmentId_new (length segs))"

definition segment_def :: "'def list \<Rightarrow> segment_id \<Rightarrow> 'def option" where
  "segment_def segs sid = get_at segs (unat sid)"

definition is_load_segment :: "('attr, 'def) platform \<Rightarrow> 'def list \<Rightarrow> segment_id \<Rightarrow> bool option" where
  "is_load_segment pf segs sid = map_option (def_is_loadable pf) (segment_def segs sid)"

definition is_stack_segment :: "('attr, 'def) platform \<Rightarrow> 'def list \<Rightarrow> segment_id \<Rightarrow> bool option" where
  "is_stack_segment pf segs sid = map_option (def_is_stack pf) (segment_def segs sid)"

datatype order_event =
    SegmentStart segment_id
  | SegmentEnd segment_id
  | Section section_id
  | SetLocation u64

record 'def order_builder =
  events :: "order_event list"
  segments :: "'def list"
  active_segment_kinds :: "segment_id option list"

definition order_builder_new :: "('attr, 'def) platform \<Rightarrow> 'def order_builder" where
  "order_builder_new pf =
     \<lparr>events = [], segments = [], active_segment_kinds = replicate (length (program_segment_defs pf)) None\<rparr>"

definition push_events :: "order_event list \<Rightarrow> 'def order_builder \<Rightarrow> 'def order_builder" where
  "push_events evs b = b\<lparr>events := events b @ evs\<rparr>"

definition should_include_in_segment ::
    "('attr, 'def) platform \<Rightarrow> 'attr output_sections \<Rightarrow> section_id \<Rightarrow> 'def \<Rightarrow> bool option" where
  "should_include_in_segment pf os s d =
     map_option (\<lambda>info. should_include_section pf d info s) (output_info os s)"

definition should_end_current_rw_segment ::
    "('attr, 'def) platform \<Rightarrow> 'attr output_sections \<Rightarrow> section_id \<Rightarrow> 'def order_builder \<Rightarrow> bool option" where
  "should_end_current_rw_segment pf os s b =
     map_option
       (\<lambda>info. list_ex
          (\<lambda>(sid, d). sid \<noteq> None \<and> should_cut_rw_segment_when_ending pf d \<and> \<not> should_include_section pf d info s)
          (zip (active_segment_kinds b) (program_segment_defs pf)))
       (output_info os s)"

definition end_rw_load_segment :: "('attr, 'def) platform \<Rightarrow> 'def order_builder \<Rightarrow> 'def order_builder option" where
  "end_rw_load_segment pf b =
     (let i = length (takeWhile (\<lambda>d. \<not> (def_is_loadable pf d \<and> def_is_writable pf d \<and> \<not> def_is_executable pf d))
                        (program_segment_defs pf))
      in if i < length (program_segment_defs pf) then
           do {
             a \<leftarrow> get_at (active_segment_kinds b) i;
             case a of
               None \<Rightarrow> Some b
             | Some sid \<Rightarrow>
                 Some (push_events [SegmentEnd sid] (b\<lparr>active_segment_kinds := (active_segment_kinds b)[i := None]\<rparr>))
           }
         else Some b)"

text \<open>\<^verbatim>\<open>iter().flatten()\<close>: the ids that are present.\<close>

fun actives :: "segment_id option list \<Rightarrow> segment_id list" where
  "actives [] = []"
| "actives (None # as) = actives as"
| "actives (Some sid # as) = sid # actives as"

text \<open>
  The loop of \<^verbatim>\<open>start_stop_segments_for_section\<close> over the segment definitions and the active ids. The
  result holds the stopped ids, the started ids, the new active ids and the new segments.
\<close>

fun start_stop_loop ::
    "('def \<Rightarrow> bool) \<Rightarrow> 'def list \<Rightarrow> segment_id option list \<Rightarrow> 'def list
     \<Rightarrow> (segment_id list \<times> segment_id list \<times> segment_id option list \<times> 'def list) option" where
  "start_stop_loop wanted (d # ds) (a # as) segs =
     (case a of
        None \<Rightarrow>
          (if wanted d then
             do {
               (sid, segs1) \<leftarrow> add_segment d segs;
               (stop, start, as', segs2) \<leftarrow> start_stop_loop wanted ds as segs1;
               Some (stop, sid # start, Some sid # as', segs2)
             }
           else
             map_option (\<lambda>(stop, start, as', segs'). (stop, start, None # as', segs'))
               (start_stop_loop wanted ds as segs))
      | Some sid \<Rightarrow>
          map_option
            (\<lambda>(stop, start, as', segs').
               if wanted d then (stop, start, Some sid # as', segs') else (sid # stop, start, None # as', segs'))
            (start_stop_loop wanted ds as segs))"
| "start_stop_loop wanted ds as segs = Some ([], [], as, segs)"

definition start_stop_segments_for_section ::
    "('attr, 'def) platform \<Rightarrow> 'attr output_sections \<Rightarrow> output_kind \<Rightarrow> section_id \<Rightarrow> 'def order_builder
     \<Rightarrow> (segment_id list \<times> segment_id list \<times> 'def order_builder) option" where
  "start_stop_segments_for_section pf os knd s b =
     (if is_partial_object knd then Some ([], [], b)
      else
        do {
          target \<leftarrow> merge_target os s;
          info \<leftarrow> output_info os s;
          if target \<noteq> None then Some ([], [], b)
          else
            do {
              let (stop0, active0) =
                (if location info \<noteq> None
                 then (actives (active_segment_kinds b), map (\<lambda>_. None) (active_segment_kinds b))
                 else ([], active_segment_kinds b));
              (stop, start, active, segs) \<leftarrow>
                start_stop_loop (\<lambda>d. should_include_section pf d info s) (program_segment_defs pf) active0 (segments b);
              Some (stop0 @ stop, start, b\<lparr>active_segment_kinds := active, segments := segs\<rparr>)
            }
        })"

text \<open>The secondary sections of a section in the order of their priorities; the sort is stable.\<close>

definition ordered_secondaries ::
    "'attr output_sections \<Rightarrow> section_id list \<Rightarrow> section_id list option" where
  "ordered_secondaries os sids =
     map_option (\<lambda>keyed. map snd (sort_key fst keyed))
       (those (map (\<lambda>s. map_option (\<lambda>info. ((case secondary_order info of Some p \<Rightarrow> p | None \<Rightarrow> - 1), s))
                          (output_info os s)) sids))"

definition location_events :: "('attr, 'def) platform \<Rightarrow> 'attr section_output_info \<Rightarrow> order_event list" where
  "location_events pf info =
     (case location info of
        Some l \<Rightarrow> if attr_is_alloc pf (section_attributes info) then [SetLocation l] else []
      | None \<Rightarrow> [])"

definition add_section ::
    "('attr, 'def) platform \<Rightarrow> 'attr output_sections \<Rightarrow> section_id list list \<Rightarrow> output_kind \<Rightarrow> section_id
     \<Rightarrow> 'def order_builder \<Rightarrow> 'def order_builder option" where
  "add_section pf os secondary knd s b =
     do {
       cut \<leftarrow> should_end_current_rw_segment pf os s b;
       b1 \<leftarrow> (if cut then end_rw_load_segment pf b else Some b);
       (stop, start, b2) \<leftarrow> start_stop_segments_for_section pf os knd s b1;
       info \<leftarrow> output_info os s;
       (case info_kind info of
          Secondary _ \<Rightarrow> None
        | Primary _ \<Rightarrow>
            do {
              sids \<leftarrow> get_at secondary (unat s);
              sorted_sids \<leftarrow> ordered_secondaries os sids;
              Some (push_events (map SegmentEnd stop @ location_events pf info @ map SegmentStart start @ [Section s]
                                 @ map Section sorted_sids) b2)
            })
     }"

fun add_sections ::
    "('attr, 'def) platform \<Rightarrow> 'attr output_sections \<Rightarrow> section_id list list \<Rightarrow> output_kind \<Rightarrow> section_id list
     \<Rightarrow> 'def order_builder \<Rightarrow> 'def order_builder option" where
  "add_sections pf os secondary knd [] b = Some b"
| "add_sections pf os secondary knd (s # ss) b =
     Option.bind (add_section pf os secondary knd s b) (add_sections pf os secondary knd ss)"

fun add_unconditional :: "'def list \<Rightarrow> 'def order_builder \<Rightarrow> 'def order_builder option" where
  "add_unconditional [] b = Some b"
| "add_unconditional (d # ds) b =
     do {
       (sid, segs) \<leftarrow> add_segment d (segments b);
       add_unconditional ds (push_events [SegmentStart sid, SegmentEnd sid] (b\<lparr>segments := segs\<rparr>))
     }"

definition order_build :: "('attr, 'def) platform \<Rightarrow> output_kind \<Rightarrow> 'def order_builder \<Rightarrow> (order_event list \<times> 'def list) option" where
  "order_build pf knd b =
     do {
       let b1 = push_events (map SegmentEnd (actives (active_segment_kinds b))) b;
       b2 \<leftarrow> (if \<not> is_partial_object knd then add_unconditional (unconditional_segment_defs pf) b1 else Some b1);
       Some (events b2, segments b2)
     }"

subsection \<open>Brackets\<close>

text \<open>
  The specification: a reader of events that knows how many segments have been started and which
  are open. It fails on a start that is not the next id and on an end that is not open.
\<close>

fun bracket_step :: "order_event \<Rightarrow> nat \<times> segment_id set \<Rightarrow> (nat \<times> segment_id set) option" where
  "bracket_step (SegmentStart sid) (n, opened) =
     (if unat sid = n then Some (Suc n, insert sid opened) else None)"
| "bracket_step (SegmentEnd sid) (n, opened) =
     (if sid \<in> opened then Some (n, opened - {sid}) else None)"
| "bracket_step (Section _) st = Some st"
| "bracket_step (SetLocation _) st = Some st"

fun brackets :: "order_event list \<Rightarrow> nat \<times> segment_id set \<Rightarrow> (nat \<times> segment_id set) option" where
  "brackets [] st = Some st"
| "brackets (e # es) st = Option.bind (bracket_step e st) (brackets es)"

lemma brackets_append: "brackets (xs @ ys) st = Option.bind (brackets xs st) (brackets ys)"
  by (induction xs arbitrary: st) (simp_all, metis bind_assoc)

lemma brackets_neutral:
  "(\<And>e. e \<in> set es \<Longrightarrow> (\<exists>s. e = Section s) \<or> (\<exists>l. e = SetLocation l)) \<Longrightarrow> brackets es st = Some st"
  by (induction es arbitrary: st) (auto, fastforce+)

lemma brackets_ends:
  "distinct ids \<Longrightarrow> set ids \<subseteq> opened \<Longrightarrow> brackets (map SegmentEnd ids) (n, opened) = Some (n, opened - set ids)"
proof (induction ids arbitrary: opened)
  case (Cons i ids)
  then have "brackets (map SegmentEnd ids) (n, opened - {i}) = Some (n, opened - {i} - set ids)"
    by (intro Cons.IH) auto
  then show ?case using Cons.prems by (simp flip: Diff_insert2)
qed simp

lemma brackets_starts:
  "map unat ids = [n..<n + length ids] \<Longrightarrow>
   brackets (map SegmentStart ids) (n, opened) = Some (n + length ids, opened \<union> set ids)"
proof (induction ids arbitrary: n opened)
  case (Cons i ids)
  then have "unat i = n" and "map unat ids = [Suc n..<Suc n + length ids]"
    using upt_conv_Cons [of n "n + length (i # ids)"] by simp_all
  with Cons.IH [of "Suc n" "insert i opened"] show ?case by simp
qed simp

definition builder_ok :: "'def order_builder \<Rightarrow> bool" where
  "builder_ok b \<longleftrightarrow>
     distinct (actives (active_segment_kinds b))
     \<and> (\<forall>i \<in> set (actives (active_segment_kinds b)). unat i < length (segments b))
     \<and> brackets (events b) (0, {}) = Some (length (segments b), set (actives (active_segment_kinds b)))"

lemma actives_map_None [simp]: "actives (map (\<lambda>_. None) as) = []"
  by (induction as) simp_all

lemma actives_replicate_None [simp]: "actives (replicate n None) = []"
  by (induction n) simp_all

lemma add_segment_SomeD:
  assumes "add_segment d segs = Some (sid, segs')"
  shows "unat sid = length segs" and "length segs' = Suc (length segs)"
  using assms by (auto simp: add_segment_def ProgramSegmentId_new_def unat_of_nat split: if_splits)

text \<open>
  What the loop does to the active ids: the stopped ones are active before, the started ones are
  the next free ids, and the active ones afterwards are the others and the started ones.
\<close>

definition start_stop_ok ::
    "segment_id option list \<Rightarrow> nat \<Rightarrow> segment_id list \<times> segment_id list \<times> segment_id option list \<times> 'def list \<Rightarrow> bool" where
  "start_stop_ok as n r \<longleftrightarrow>
     (case r of (stop, start, as', segs') \<Rightarrow>
        map unat start = [n..<n + length start] \<and> length segs' = n + length start
        \<and> distinct stop \<and> set stop \<subseteq> set (actives as)
        \<and> distinct (actives as') \<and> set (actives as') = set (actives as) - set stop \<union> set start)"

lemma start_fresh: "start_stop_ok as n (stop, start, as', segs') \<Longrightarrow> unat i < n \<Longrightarrow> i \<notin> set start"
proof
  assume ok: "start_stop_ok as n (stop, start, as', segs')" "unat i < n" and "i \<in> set start"
  then have "unat i \<in> set (map unat start)" by simp
  moreover have "map unat start = [n..<n + length start]" using ok(1) by (simp add: start_stop_ok_def)
  ultimately show False using ok(2) by (simp only: set_upt atLeastLessThan_iff) linarith
qed

lemma start_stop_loop_spec:
  assumes "start_stop_loop wanted ds as segs = Some r"
    and "distinct (actives as)" and "\<forall>i \<in> set (actives as). unat i < length segs"
  shows "start_stop_ok as (length segs) r"
  using assms
proof (induction wanted ds as segs arbitrary: r rule: start_stop_loop.induct)
  case (1 wanted d ds a as segs)
  show ?case
  proof (cases a)
    case (Some i)
    obtain stop start as' segs' where l: "start_stop_loop wanted ds as segs = Some (stop, start, as', segs')"
      and r: "r = (if wanted d then (stop, start, Some i # as', segs') else (i # stop, start, None # as', segs'))"
      using 1(4) Some by auto
    have i: "i \<notin> set (actives as)" "unat i < length segs" using 1(5,6) Some by auto
    have ih: "start_stop_ok as (length segs) (stop, start, as', segs')"
      using 1(3) [OF Some l] 1(5,6) Some by simp
    show ?thesis using start_fresh [OF ih i(2)] ih i Some r by (auto simp: start_stop_ok_def)
  next
    case None
    show ?thesis
    proof (cases "wanted d")
      case False
      obtain stop start as' segs' where l: "start_stop_loop wanted ds as segs = Some (stop, start, as', segs')"
        and r: "r = (stop, start, None # as', segs')"
        using 1(4) None False by auto
      then show ?thesis using 1(2) [OF None False l] 1(5,6) None by (simp add: start_stop_ok_def)
    next
      case True
      obtain i segs1 stop start as' segs' where add: "add_segment d segs = Some (i, segs1)"
        and l: "start_stop_loop wanted ds as segs1 = Some (stop, start, as', segs')"
        and r: "r = (stop, i # start, Some i # as', segs')"
        using 1(4) None True by (auto simp: bind_eq_Some_conv)
      note i = add_segment_SomeD [OF add]
      have "\<forall>j \<in> set (actives as). unat j < length segs1" using 1(6) None i(2) by (simp add: less_Suc_eq)
      then have ih: "start_stop_ok as (Suc (length segs)) (stop, start, as', segs')"
        using 1(1) [OF None True add refl l] 1(5) None i(2) by simp
      have "i \<notin> set (actives as)" using 1(6) None i(1) by auto
      moreover have "i \<notin> set start" by (rule start_fresh [OF ih]) (simp add: i(1))
      ultimately show ?thesis
        using ih i(1) None r upt_conv_Cons [of "length segs" "Suc (length segs + length start)"]
        by (auto simp: start_stop_ok_def simp del: upt_Suc)
    qed
  qed
qed (auto simp: start_stop_ok_def)

text \<open>Every operation of the builder keeps \<open>builder_ok\<close>.\<close>

lemma builder_ok_new: "builder_ok (order_builder_new pf)"
  by (simp add: builder_ok_def order_builder_new_def)

lemma actives_update_None:
  assumes "as ! i = Some sid" and "i < length as" and "distinct (actives as)"
  shows "distinct (actives (as[i := None]))" and "set (actives (as[i := None])) = set (actives as) - {sid}"
    and "sid \<in> set (actives as)"
proof -
  have "distinct (actives (as[i := None])) \<and> set (actives (as[i := None])) = set (actives as) - {sid}
      \<and> sid \<in> set (actives as)"
    using assms
  proof (induction as arbitrary: i)
    case (Cons a as)
    then show ?case by (cases i; cases a) auto
  qed simp
  then show "distinct (actives (as[i := None]))" "set (actives (as[i := None])) = set (actives as) - {sid}"
    "sid \<in> set (actives as)" by simp_all
qed

lemma end_rw_load_segment_ok:
  assumes "builder_ok b" and "end_rw_load_segment pf b = Some b'"
  shows "builder_ok b'"
proof (cases "b' = b")
  case False
  then obtain i sid where i: "i < length (active_segment_kinds b)" "active_segment_kinds b ! i = Some sid"
    and b': "b' = push_events [SegmentEnd sid] (b\<lparr>active_segment_kinds := (active_segment_kinds b)[i := None]\<rparr>)"
    using assms(2)
    by (auto simp: end_rw_load_segment_def Let_def get_at_def bind_eq_Some_conv split: if_splits option.splits)
  show ?thesis
    using assms(1) actives_update_None [OF i(2,1)]
    by (auto simp: builder_ok_def b' push_events_def brackets_append)
qed (use assms(1) in simp)

text \<open>One call of \<^verbatim>\<open>start_stop_segments_for_section\<close>, with the events that \<^verbatim>\<open>add_section\<close> emits for it.\<close>

lemma start_stop_events_ok:
  assumes "builder_ok b" and "start_stop_segments_for_section pf os knd s b = Some (stop, start, b2)"
    and neutral: "\<And>e. e \<in> set evs \<or> e \<in> set evs' \<Longrightarrow> (\<exists>s. e = Section s) \<or> (\<exists>l. e = SetLocation l)"
  shows "builder_ok (push_events (map SegmentEnd stop @ evs @ map SegmentStart start @ evs') b2)"
proof -
  let ?as = "active_segment_kinds b" and ?n = "length (segments b)"
  have ok: "distinct (actives ?as)" "\<forall>i \<in> set (actives ?as). unat i < ?n"
      "brackets (events b) (0, {}) = Some (?n, set (actives ?as))"
    using assms(1) by (simp_all add: builder_ok_def)
  have ev: "events b2 = events b"
    using assms(2) by (auto simp: start_stop_segments_for_section_def Let_def bind_eq_Some_conv split: if_splits)
  have "start_stop_ok ?as ?n (stop, start, active_segment_kinds b2, segments b2)"
  proof -
    consider "stop = []" "start = []" "b2 = b"
      | wanted where "start_stop_loop wanted (program_segment_defs pf) ?as (segments b)
          = Some (stop, start, active_segment_kinds b2, segments b2)"
      | wanted stop1 where "start_stop_loop wanted (program_segment_defs pf) (map (\<lambda>_. None) ?as) (segments b)
          = Some (stop1, start, active_segment_kinds b2, segments b2)" "stop = actives ?as @ stop1"
      using assms(2)
      by (auto simp: start_stop_segments_for_section_def Let_def bind_eq_Some_conv split: if_splits)
    then show ?thesis
    proof cases
      case 1
      then show ?thesis using ok by (simp add: start_stop_ok_def)
    next
      case 2
      then show ?thesis using ok by (intro start_stop_loop_spec) 
    next
      case 3
      have "start_stop_ok (map (\<lambda>_. None) ?as) ?n (stop1, start, active_segment_kinds b2, segments b2)"
        using start_stop_loop_spec [OF 3(1)] by simp
      then show ?thesis using ok(1) 3(2) by (auto simp: start_stop_ok_def)
    qed
  qed
  note st = this [unfolded start_stop_ok_def, simplified]
  have "unat i < length (segments b2)" if "i \<in> set (actives (active_segment_kinds b2))" for i
  proof (cases "i \<in> set start")
    case True
    then have "unat i \<in> set (map unat start)" by simp
    then show ?thesis using st by (metis atLeastLessThan_iff set_upt)
  next
    case False
    then show ?thesis using that st ok(2) by auto
  qed
  moreover have "brackets (map SegmentEnd stop @ evs @ map SegmentStart start @ evs') (?n, set (actives ?as))
      = Some (length (segments b2), set (actives (active_segment_kinds b2)))"
    using st brackets_ends [of stop "set (actives ?as)" ?n]
      brackets_starts [of start ?n "set (actives ?as) - set stop"] neutral
    by (simp add: brackets_append brackets_neutral)
  ultimately show ?thesis
    using st ok(3) ev by (simp add: builder_ok_def push_events_def brackets_append)
qed

lemma add_section_ok:
  assumes "builder_ok b" and "add_section pf os secondary knd s b = Some b'"
  shows "builder_ok b'"
proof -
  obtain cut b1 stop start b2 info sids where
      b1: "(if cut then end_rw_load_segment pf b else Some b) = Some b1"
    and ss: "start_stop_segments_for_section pf os knd s b1 = Some (stop, start, b2)"
    and b': "b' = push_events (map SegmentEnd stop @ location_events pf info @ map SegmentStart start
                               @ Section s # map Section sids) b2"
    using assms(2) by (auto simp: add_section_def bind_eq_Some_conv split: section_kind.split_asm) (metis section_kind.exhaust)
  have "builder_ok b1" using assms(1) b1 end_rw_load_segment_ok by (auto split: if_splits)
  moreover have "\<exists>l. e = SetLocation l" if "e \<in> set (location_events pf info)" for e
    using that by (auto simp: location_events_def split: option.splits if_splits)
  ultimately show ?thesis unfolding b' using ss by (intro start_stop_events_ok) auto
qed

lemma add_sections_ok:
  "builder_ok b \<Longrightarrow> add_sections pf os secondary knd ss b = Some b' \<Longrightarrow> builder_ok b'"
  by (induction ss arbitrary: b) (auto simp: bind_eq_Some_conv intro: add_section_ok)

lemma add_unconditional_brackets:
  assumes "add_unconditional ds b = Some b'" and "brackets (events b) (0, {}) = Some (length (segments b), {})"
  shows "brackets (events b') (0, {}) = Some (length (segments b'), {})"
  using assms
proof (induction ds b rule: add_unconditional.induct)
  case (2 d ds b)
  then obtain sid segs where add: "add_segment d (segments b) = Some (sid, segs)"
    and rest: "add_unconditional ds (push_events [SegmentStart sid, SegmentEnd sid] (b\<lparr>segments := segs\<rparr>)) = Some b'"
    by (auto simp: bind_eq_Some_conv)
  show ?case
    by (rule "2.IH" [OF add refl rest])
       (use "2.prems"(2) add_segment_SomeD [OF add] in \<open>simp add: push_events_def brackets_append\<close>)
qed simp

lemma builder_brackets:
  assumes "add_sections pf os secondary knd ss (order_builder_new pf) = Some b"
    and "order_build pf knd b = Some (evs, segs)"
  shows "brackets evs (0, {}) = Some (length segs, {})"
proof -
  have ok: "builder_ok b" using add_sections_ok [OF builder_ok_new assms(1)] .
  let ?b = "push_events (map SegmentEnd (actives (active_segment_kinds b))) b"
  have closed: "brackets (events ?b) (0, {}) = Some (length (segments ?b), {})"
    using ok by (simp add: builder_ok_def push_events_def brackets_append brackets_ends)
  obtain b2 where "(if \<not> is_partial_object knd then add_unconditional (unconditional_segment_defs pf) ?b else Some ?b) = Some b2"
    and "evs = events b2" "segs = segments b2"
    using assms(2) by (auto simp: order_build_def Let_def bind_eq_Some_conv)
  then show ?thesis using closed add_unconditional_brackets by (auto split: if_splits)
qed

text \<open>
  C24. The output order is well bracketed: for any platform, any sections and any order in which they
  are added, the finished events start every program segment exactly once, in the order of the
  segment ids, end it exactly once afterwards, and leave no segment open.
\<close>

theorem output_order_brackets:
  assumes "add_sections pf os secondary knd ss (order_builder_new pf) = Some b"
    and "order_build pf knd b = Some (evs, segs)"
  shows "brackets evs (0, {}) = Some (length segs, {})"
  by (rule builder_brackets [OF assms])

text \<open>A platform with two segment kinds that both contain every section, and one section.\<close>

definition sample_platform :: "(unit, bool) platform" where
  "sample_platform =
     \<lparr>attr_is_alloc = (\<lambda>_. True), has_data_in_file = (\<lambda>_. True), attr_default = (),
      def_is_loadable = (\<lambda>d. d), def_is_writable = (\<lambda>_. True), def_is_executable = (\<lambda>_. False),
      def_is_stack = (\<lambda>_. False), should_cut_rw_segment_when_ending = (\<lambda>_. False),
      should_include_section = (\<lambda>_ _ _. True), program_segment_defs = [True, False],
      unconditional_segment_defs = [False], align_load_segment_start = (\<lambda>_ _ off. off)\<rparr>"

definition sample_sections :: "unit output_sections" where
  "sample_sections =
     \<lparr>section_infos = [\<lparr>info_kind = Primary [], section_attributes = (), min_alignment = MIN_ALIGN,
                        location = Some 0x1000, secondary_order = None\<rparr>],
      base_address = 0, custom_by_name = Map.empty, output_section_indexes = [], init_fini_by_priority = Map.empty\<rparr>"

lemmas sample_simps = sample_platform_def sample_sections_def order_builder_new_def add_section_def
      should_end_current_rw_segment_def start_stop_segments_for_section_def output_info_def get_at_def
      merge_target_def add_segment_def ProgramSegmentId_new_def location_events_def
      ordered_secondaries_def push_events_def numeral_2_eq_2

lemma sample_add_sections: "add_sections sample_platform sample_sections [[]] SharedObject [0] (order_builder_new sample_platform) =
   Some \<lparr>events = [SetLocation 0x1000, SegmentStart 0, SegmentStart 1, Section 0], segments = [True, False], active_segment_kinds = [Some 0, Some 1]\<rparr>"
  by (simp add: sample_simps)

lemma sample_build: "order_build sample_platform SharedObject \<lparr>events = [SetLocation 0x1000, SegmentStart 0, SegmentStart 1, Section 0], segments = [True, False], active_segment_kinds = [Some 0, Some 1]\<rparr>
  = Some ([SetLocation 0x1000, SegmentStart 0, SegmentStart 1, Section 0, SegmentEnd 0, SegmentEnd 1, SegmentStart 2, SegmentEnd 2], [True, False, False])"
  by (simp add: order_build_def sample_simps)

theorem output_order_brackets_witness:
  "brackets [SetLocation 0x1000, SegmentStart 0, SegmentStart 1, Section 0, SegmentEnd 0, SegmentEnd 1, SegmentStart 2, SegmentEnd 2]
     (0, {}) = Some (length [True, False, False], {})"
  by (rule output_order_brackets [OF sample_add_sections sample_build])

end
