(* ===== verification/Elf_Platform.thy ===== *)
theory Elf_Platform
  imports Reloc_Table Output_Order
begin

unbundle bit_operations_syntax

text \<open>
  The ELF instance of the trait \<^verbatim>\<open>Platform\<close>, from \<^verbatim>\<open>libsld/src/elf.rs\<close>: section attributes, the table of
  built-in sections, the segment definitions with the rule that decides which sections a segment
  contains, and the order of sections in an ELF file. The numbers of the ELF constants are those
  of the crate \<^verbatim>\<open>object\<close> and the sizes of its record types come from the crate: \<open>elf\<close> and \<open>size_of\<close> are
  parameters.
\<close>

subsection \<open>Flags\<close>

text \<open>\<^verbatim>\<open>SectionFlags\<close> and \<^verbatim>\<open>SegmentFlags\<close> of \<^verbatim>\<open>linker-utils/src/elf.rs\<close>: \<^verbatim>\<open>contains\<close> tests for a common bit.\<close>

definition flags_contains :: "u32 \<Rightarrow> u32 \<Rightarrow> bool" where
  "flags_contains fs flag \<longleftrightarrow> fs AND flag \<noteq> 0"

definition flags_with :: "u32 \<Rightarrow> u32 \<Rightarrow> u32" where
  "flags_with fs gs = fs OR gs"

definition flags_without :: "u32 \<Rightarrow> u32 \<Rightarrow> u32" where
  "flags_without fs gs = fs AND NOT gs"

record elf_attributes =
  attr_flags :: u32
  attr_ty :: u32
  attr_entsize :: u64

definition attributes_merge :: "elf_attributes \<Rightarrow> elf_attributes \<Rightarrow> elf_attributes" where
  "attributes_merge a rhs =
     \<lparr>attr_flags = attr_flags a OR attr_flags rhs, attr_ty = max (attr_ty a) (attr_ty rhs),
      attr_entsize = (if attr_entsize a \<noteq> attr_entsize rhs then 0 else attr_entsize a)\<rparr>"

definition attributes_apply ::
    "elf_consts \<Rightarrow> elf_attributes \<Rightarrow> section_id \<Rightarrow> elf_attributes output_sections \<Rightarrow> elf_attributes output_sections option" where
  "attributes_apply elf a s os =
     do {
       info \<leftarrow> output_info os s;
       let sa = section_attributes info;
       infos \<leftarrow> set_at (unat s)
                 (info\<lparr>section_attributes :=
                    \<lparr>attr_flags = attr_flags sa OR (attr_flags a AND NOT (elf ''SHF_GROUP'')),
                     attr_ty = max (attr_ty sa) (attr_ty a), attr_entsize = attr_entsize a\<rparr>\<rparr>)
                 (section_infos os);
       Some (os\<lparr>section_infos := infos\<rparr>)
     }"

definition elf_is_alloc :: "elf_consts \<Rightarrow> elf_attributes \<Rightarrow> bool" where
  "elf_is_alloc elf a = flags_contains (attr_flags a) (elf ''SHF_ALLOC'')"
definition elf_is_executable :: "elf_consts \<Rightarrow> elf_attributes \<Rightarrow> bool" where
  "elf_is_executable elf a = flags_contains (attr_flags a) (elf ''SHF_EXECINSTR'')"
definition elf_is_tls :: "elf_consts \<Rightarrow> elf_attributes \<Rightarrow> bool" where
  "elf_is_tls elf a = flags_contains (attr_flags a) (elf ''SHF_TLS'')"
definition elf_is_writable :: "elf_consts \<Rightarrow> elf_attributes \<Rightarrow> bool" where
  "elf_is_writable elf a = flags_contains (attr_flags a) (elf ''SHF_WRITE'')"
definition elf_is_no_bits :: "elf_consts \<Rightarrow> elf_attributes \<Rightarrow> bool" where
  "elf_is_no_bits elf a \<longleftrightarrow> attr_ty a = elf ''SHT_NOBITS''"

text \<open>The default method of the trait \<^verbatim>\<open>Platform\<close>: thread-local zero data takes space in the file.\<close>

definition elf_has_data_in_file :: "elf_consts \<Rightarrow> elf_attributes \<Rightarrow> bool" where
  "elf_has_data_in_file elf a \<longleftrightarrow> \<not> elf_is_no_bits elf a \<or> elf_is_tls elf a"

subsection \<open>Built-in sections\<close>

record built_in_details =
  bi_kind :: section_kind
  bi_flags :: u32
  bi_link :: "section_id list"
  bi_min_alignment :: align
  bi_element_size :: u64
  bi_ty :: u32
  bi_is_relro :: bool
  bi_target :: "u32 option"

definition default_details :: "elf_consts \<Rightarrow> built_in_details" where
  "default_details elf =
     \<lparr>bi_kind = Primary [], bi_flags = 0, bi_link = [], bi_min_alignment = MIN_ALIGN, bi_element_size = 0,
      bi_ty = elf ''SHT_NULL'', bi_is_relro = False, bi_target = None\<rparr>"

definition ascii :: "string \<Rightarrow> bytes" where
  "ascii s = map of_char s"

definition PROGRAM_HEADERS :: section_id where "PROGRAM_HEADERS = 2"
definition SECTION_HEADERS :: section_id where "SECTION_HEADERS = 3"
definition SHSTRTAB :: section_id where "SHSTRTAB = 4"
definition STRTAB :: section_id where "STRTAB = 5"
definition GOT :: section_id where "GOT = 6"
definition RELA_PLT :: section_id where "RELA_PLT = 8"
definition EH_FRAME_HDR :: section_id where "EH_FRAME_HDR = 10"
definition SFRAME :: section_id where "SFRAME = 11"
definition DYNAMIC :: section_id where "DYNAMIC = 12"
definition HASH :: section_id where "HASH = 13"
definition GNU_HASH :: section_id where "GNU_HASH = 14"
definition DYNSYM :: section_id where "DYNSYM = 15"
definition DYNSTR :: section_id where "DYNSTR = 16"
definition INTERP :: section_id where "INTERP = 17"
definition GNU_VERSION :: section_id where "GNU_VERSION = 18"
definition GNU_VERSION_D :: section_id where "GNU_VERSION_D = 19"
definition GNU_VERSION_R :: section_id where "GNU_VERSION_R = 20"
definition PLT_GOT :: section_id where "PLT_GOT = 7"
definition NOTE_GNU_PROPERTY :: section_id where "NOTE_GNU_PROPERTY = 21"
definition NOTE_GNU_BUILD_ID :: section_id where "NOTE_GNU_BUILD_ID = 22"
definition SYMTAB_LOCAL :: section_id where "SYMTAB_LOCAL = 23"
definition SYMTAB_GLOBAL :: section_id where "SYMTAB_GLOBAL = 24"
definition RELA_DYN_RELATIVE :: section_id where "RELA_DYN_RELATIVE = 25"
definition RELA_DYN_GENERAL :: section_id where "RELA_DYN_GENERAL = 26"
definition RELR_DYN :: section_id where "RELR_DYN = 29"
definition RISCV_ATTRIBUTES :: section_id where "RISCV_ATTRIBUTES = 27"
definition SYMTAB_SHNDX_LOCAL :: section_id where "SYMTAB_SHNDX_LOCAL = 30"
definition SYMTAB_SHNDX_GLOBAL :: section_id where "SYMTAB_SHNDX_GLOBAL = 31"
definition RODATA :: section_id where "RODATA = regular 0"
definition INIT_ARRAY :: section_id where "INIT_ARRAY = regular 1"
definition FINI_ARRAY :: section_id where "FINI_ARRAY = regular 2"
definition PREINIT_ARRAY :: section_id where "PREINIT_ARRAY = regular 3"
definition TEXT :: section_id where "TEXT = regular 4"
definition DATA :: section_id where "DATA = regular 7"
definition TDATA :: section_id where "TDATA = regular 8"
definition TBSS :: section_id where "TBSS = regular 9"
definition BSS :: section_id where "BSS = regular 10"
definition COMMENT :: section_id where "COMMENT = regular 11"
definition GCC_EXCEPT_TABLE :: section_id where "GCC_EXCEPT_TABLE = regular 12"
definition NOTE_ABI_TAG :: section_id where "NOTE_ABI_TAG = regular 13"
definition DATA_REL_RO :: section_id where "DATA_REL_RO = regular 14"

lemmas section_id_defs =
  PROGRAM_HEADERS_def SECTION_HEADERS_def SHSTRTAB_def STRTAB_def GOT_def RELA_PLT_def
  EH_FRAME_HDR_def SFRAME_def DYNAMIC_def HASH_def GNU_HASH_def DYNSYM_def DYNSTR_def INTERP_def
  GNU_VERSION_def GNU_VERSION_D_def GNU_VERSION_R_def PLT_GOT_def NOTE_GNU_PROPERTY_def
  NOTE_GNU_BUILD_ID_def SYMTAB_LOCAL_def SYMTAB_GLOBAL_def RELA_DYN_RELATIVE_def RELA_DYN_GENERAL_def
  RELR_DYN_def RISCV_ATTRIBUTES_def SYMTAB_SHNDX_LOCAL_def SYMTAB_SHNDX_GLOBAL_def RODATA_def
  INIT_ARRAY_def FINI_ARRAY_def PREINIT_ARRAY_def TEXT_def DATA_def TDATA_def TBSS_def BSS_def
  COMMENT_def GCC_EXCEPT_TABLE_def NOTE_ABI_TAG_def DATA_REL_RO_def FILE_HEADER_def EH_FRAME_def
  RELRO_PADDING_def INIT_def FINI_def

definition generated_details :: "elf_consts \<Rightarrow> (string \<Rightarrow> u64) \<Rightarrow> (section_id \<times> built_in_details) list" where
  "generated_details elf size_of =
    [(FILE_HEADER, (default_details elf)\<lparr>bi_kind := Primary (ascii ''''), bi_flags := elf ''SHF_ALLOC''\<rparr>),
     (PROGRAM_HEADERS, (default_details elf)\<lparr>bi_kind := Primary (ascii ''.phdr''), bi_flags := elf ''SHF_ALLOC'', bi_min_alignment := \<lparr>exponent = 3\<rparr>, bi_target := Some (elf ''PT_PHDR'')\<rparr>),
     (SECTION_HEADERS, (default_details elf)\<lparr>bi_kind := Primary (ascii ''.shdr''), bi_flags := elf ''SHF_ALLOC''\<rparr>),
     (SHSTRTAB, (default_details elf)\<lparr>bi_kind := Primary (ascii ''.shstrtab''), bi_ty := elf ''SHT_STRTAB''\<rparr>),
     (STRTAB, (default_details elf)\<lparr>bi_kind := Primary (ascii ''.strtab''), bi_ty := elf ''SHT_STRTAB''\<rparr>),
     (GOT, (default_details elf)\<lparr>bi_kind := Primary (ascii ''.got''), bi_ty := elf ''SHT_PROGBITS'', bi_flags := elf ''SHF_WRITE'' OR elf ''SHF_ALLOC'', bi_element_size := 8, bi_min_alignment := \<lparr>exponent = 3\<rparr>, bi_is_relro := True\<rparr>),
     (PLT_GOT, (default_details elf)\<lparr>bi_kind := Primary (ascii ''.plt.got''), bi_ty := elf ''SHT_PROGBITS'', bi_flags := elf ''SHF_ALLOC'' OR elf ''SHF_EXECINSTR'', bi_element_size := 16, bi_min_alignment := \<lparr>exponent = 4\<rparr>\<rparr>),
     (RELA_PLT, (default_details elf)\<lparr>bi_kind := Primary (ascii ''.rela.plt''), bi_ty := elf ''SHT_RELA'', bi_flags := elf ''SHF_ALLOC'' OR elf ''SHF_INFO_LINK'', bi_element_size := size_of ''Rela'', bi_link := [DYNSYM, SYMTAB_LOCAL], bi_min_alignment := \<lparr>exponent = 3\<rparr>\<rparr>),
     (EH_FRAME, (default_details elf)\<lparr>bi_kind := Primary (ascii ''.eh_frame''), bi_ty := elf ''SHT_PROGBITS'', bi_flags := elf ''SHF_ALLOC'', bi_min_alignment := \<lparr>exponent = 3\<rparr>\<rparr>),
     (EH_FRAME_HDR, (default_details elf)\<lparr>bi_kind := Primary (ascii ''.eh_frame_hdr''), bi_ty := elf ''SHT_PROGBITS'', bi_flags := elf ''SHF_ALLOC'', bi_min_alignment := \<lparr>exponent = 2\<rparr>, bi_target := Some (elf ''PT_GNU_EH_FRAME'')\<rparr>),
     (SFRAME, (default_details elf)\<lparr>bi_kind := Primary (ascii ''.sframe''), bi_ty := elf ''SHT_GNU_SFRAME'', bi_flags := elf ''SHF_ALLOC'', bi_min_alignment := \<lparr>exponent = 3\<rparr>, bi_target := Some (elf ''PT_GNU_SFRAME'')\<rparr>),
     (DYNAMIC, (default_details elf)\<lparr>bi_kind := Primary (ascii ''.dynamic''), bi_ty := elf ''SHT_DYNAMIC'', bi_flags := elf ''SHF_ALLOC'' OR elf ''SHF_WRITE'', bi_element_size := size_of ''DynamicEntry'', bi_link := [DYNSTR], bi_min_alignment := \<lparr>exponent = 3\<rparr>, bi_is_relro := True, bi_target := Some (elf ''PT_DYNAMIC'')\<rparr>),
     (HASH, (default_details elf)\<lparr>bi_kind := Primary (ascii ''.hash''), bi_ty := elf ''SHT_HASH'', bi_flags := elf ''SHF_ALLOC'', bi_link := [DYNSYM], bi_min_alignment := \<lparr>exponent = 2\<rparr>\<rparr>),
     (GNU_HASH, (default_details elf)\<lparr>bi_kind := Primary (ascii ''.gnu.hash''), bi_ty := elf ''SHT_GNU_HASH'', bi_flags := elf ''SHF_ALLOC'', bi_link := [DYNSYM], bi_min_alignment := \<lparr>exponent = 3\<rparr>\<rparr>),
     (DYNSYM, (default_details elf)\<lparr>bi_kind := Primary (ascii ''.dynsym''), bi_ty := elf ''SHT_DYNSYM'', bi_flags := elf ''SHF_ALLOC'', bi_element_size := size_of ''SymtabEntry'', bi_link := [DYNSTR], bi_min_alignment := \<lparr>exponent = 3\<rparr>\<rparr>),
     (DYNSTR, (default_details elf)\<lparr>bi_kind := Primary (ascii ''.dynstr''), bi_ty := elf ''SHT_STRTAB'', bi_flags := elf ''SHF_ALLOC'', bi_min_alignment := \<lparr>exponent = 0\<rparr>\<rparr>),
     (INTERP, (default_details elf)\<lparr>bi_kind := Primary (ascii ''.interp''), bi_ty := elf ''SHT_PROGBITS'', bi_flags := elf ''SHF_ALLOC'', bi_target := Some (elf ''PT_INTERP'')\<rparr>),
     (GNU_VERSION, (default_details elf)\<lparr>bi_kind := Primary (ascii ''.gnu.version''), bi_ty := elf ''SHT_GNU_VERSYM'', bi_flags := elf ''SHF_ALLOC'', bi_element_size := size_of ''Versym'', bi_min_alignment := \<lparr>exponent = 1\<rparr>, bi_link := [DYNSYM]\<rparr>)]"

definition generated_details_tail :: "elf_consts \<Rightarrow> (string \<Rightarrow> u64) \<Rightarrow> (section_id \<times> built_in_details) list" where
  "generated_details_tail elf size_of =
    [(GNU_VERSION_D, (default_details elf)\<lparr>bi_kind := Primary (ascii ''.gnu.version_d''), bi_ty := elf ''SHT_GNU_VERDEF'', bi_flags := elf ''SHF_ALLOC'', bi_min_alignment := \<lparr>exponent = 3\<rparr>, bi_link := [DYNSTR]\<rparr>),
     (GNU_VERSION_R, (default_details elf)\<lparr>bi_kind := Primary (ascii ''.gnu.version_r''), bi_ty := elf ''SHT_GNU_VERNEED'', bi_flags := elf ''SHF_ALLOC'', bi_min_alignment := \<lparr>exponent = 3\<rparr>, bi_link := [DYNSTR]\<rparr>),
     (NOTE_GNU_PROPERTY, (default_details elf)\<lparr>bi_kind := Primary (ascii ''.note.gnu.property''), bi_ty := elf ''SHT_NOTE'', bi_flags := elf ''SHF_ALLOC'', bi_min_alignment := \<lparr>exponent = 3\<rparr>, bi_target := Some (elf ''PT_GNU_PROPERTY'')\<rparr>),
     (NOTE_GNU_BUILD_ID, (default_details elf)\<lparr>bi_kind := Primary (ascii ''.note.gnu.build-id''), bi_ty := elf ''SHT_NOTE'', bi_flags := elf ''SHF_ALLOC'', bi_min_alignment := \<lparr>exponent = 2\<rparr>\<rparr>),
     (SYMTAB_LOCAL, (default_details elf)\<lparr>bi_kind := Primary (ascii ''.symtab''), bi_ty := elf ''SHT_SYMTAB'', bi_element_size := size_of ''SymtabEntry'', bi_min_alignment := \<lparr>exponent = 3\<rparr>, bi_link := [STRTAB]\<rparr>),
     (SYMTAB_GLOBAL, (default_details elf)\<lparr>bi_kind := Secondary SYMTAB_LOCAL\<rparr>),
     (RELA_DYN_RELATIVE, (default_details elf)\<lparr>bi_kind := Primary (ascii ''.rela.dyn''), bi_ty := elf ''SHT_RELA'', bi_flags := elf ''SHF_ALLOC'', bi_element_size := size_of ''Rela'', bi_min_alignment := \<lparr>exponent = 3\<rparr>, bi_link := [DYNSYM]\<rparr>),
     (RELA_DYN_GENERAL, (default_details elf)\<lparr>bi_kind := Secondary RELA_DYN_RELATIVE\<rparr>),
     (RELR_DYN, (default_details elf)\<lparr>bi_kind := Primary (ascii ''.relr.dyn''), bi_ty := elf ''SHT_RELR'', bi_flags := elf ''SHF_ALLOC'', bi_element_size := size_of ''Relr'', bi_min_alignment := \<lparr>exponent = 3\<rparr>\<rparr>),
     (RISCV_ATTRIBUTES, (default_details elf)\<lparr>bi_kind := Primary (ascii ''.riscv.attributes''), bi_ty := elf ''SHT_RISCV_ATTRIBUTES'', bi_target := Some (elf ''PT_RISCV_ATTRIBUTES'')\<rparr>),
     (RELRO_PADDING, (default_details elf)\<lparr>bi_kind := Primary (ascii ''.relro_padding''), bi_ty := elf ''SHT_NOBITS'', bi_flags := elf ''SHF_ALLOC'' OR elf ''SHF_WRITE'', bi_is_relro := True\<rparr>),
     (SYMTAB_SHNDX_LOCAL, (default_details elf)\<lparr>bi_kind := Primary (ascii ''.symtab_shndx''), bi_ty := elf ''SHT_SYMTAB_SHNDX'', bi_element_size := size_of ''SymtabShndxEntry'', bi_min_alignment := \<lparr>exponent = 2\<rparr>, bi_link := [SYMTAB_LOCAL]\<rparr>),
     (SYMTAB_SHNDX_GLOBAL, (default_details elf)\<lparr>bi_kind := Secondary SYMTAB_SHNDX_LOCAL\<rparr>)]"

definition regular_details :: "elf_consts \<Rightarrow> (string \<Rightarrow> u64) \<Rightarrow> (section_id \<times> built_in_details) list" where
  "regular_details elf size_of =
    [(RODATA, (default_details elf)\<lparr>bi_kind := Primary (ascii ''.rodata''), bi_ty := elf ''SHT_PROGBITS'', bi_flags := elf ''SHF_ALLOC''\<rparr>),
     (INIT_ARRAY, (default_details elf)\<lparr>bi_kind := Primary (ascii ''.init_array''), bi_ty := elf ''SHT_INIT_ARRAY'', bi_flags := elf ''SHF_ALLOC'' OR elf ''SHF_WRITE'', bi_element_size := 8, bi_min_alignment := \<lparr>exponent = 3\<rparr>, bi_is_relro := True\<rparr>),
     (FINI_ARRAY, (default_details elf)\<lparr>bi_kind := Primary (ascii ''.fini_array''), bi_ty := elf ''SHT_FINI_ARRAY'', bi_flags := elf ''SHF_ALLOC'' OR elf ''SHF_WRITE'', bi_element_size := 8, bi_min_alignment := \<lparr>exponent = 3\<rparr>, bi_is_relro := True\<rparr>),
     (PREINIT_ARRAY, (default_details elf)\<lparr>bi_kind := Primary (ascii ''.preinit_array''), bi_ty := elf ''SHT_PREINIT_ARRAY'', bi_flags := elf ''SHF_ALLOC'' OR elf ''SHF_WRITE'', bi_is_relro := True\<rparr>),
     (TEXT, (default_details elf)\<lparr>bi_kind := Primary (ascii ''.text''), bi_ty := elf ''SHT_PROGBITS'', bi_flags := elf ''SHF_ALLOC'' OR elf ''SHF_EXECINSTR''\<rparr>),
     (INIT, (default_details elf)\<lparr>bi_kind := Primary (ascii ''.init''), bi_ty := elf ''SHT_PROGBITS'', bi_flags := elf ''SHF_ALLOC'' OR elf ''SHF_EXECINSTR''\<rparr>),
     (FINI, (default_details elf)\<lparr>bi_kind := Primary (ascii ''.fini''), bi_ty := elf ''SHT_PROGBITS'', bi_flags := elf ''SHF_ALLOC'' OR elf ''SHF_EXECINSTR''\<rparr>),
     (DATA, (default_details elf)\<lparr>bi_kind := Primary (ascii ''.data''), bi_ty := elf ''SHT_PROGBITS'', bi_flags := elf ''SHF_ALLOC'' OR elf ''SHF_WRITE''\<rparr>),
     (TDATA, (default_details elf)\<lparr>bi_kind := Primary (ascii ''.tdata''), bi_ty := elf ''SHT_PROGBITS'', bi_flags := elf ''SHF_WRITE'' OR elf ''SHF_ALLOC'' OR elf ''SHF_TLS''\<rparr>),
     (TBSS, (default_details elf)\<lparr>bi_kind := Primary (ascii ''.tbss''), bi_ty := elf ''SHT_NOBITS'', bi_flags := elf ''SHF_WRITE'' OR elf ''SHF_ALLOC'' OR elf ''SHF_TLS''\<rparr>),
     (BSS, (default_details elf)\<lparr>bi_kind := Primary (ascii ''.bss''), bi_ty := elf ''SHT_NOBITS'', bi_flags := elf ''SHF_ALLOC'' OR elf ''SHF_WRITE''\<rparr>),
     (COMMENT, (default_details elf)\<lparr>bi_kind := Primary (ascii ''.comment''), bi_ty := elf ''SHT_PROGBITS'', bi_flags := elf ''SHF_STRINGS'' OR elf ''SHF_MERGE'', bi_element_size := 1\<rparr>),
     (GCC_EXCEPT_TABLE, (default_details elf)\<lparr>bi_kind := Primary (ascii ''.gcc_except_table''), bi_ty := elf ''SHT_PROGBITS'', bi_flags := elf ''SHF_ALLOC''\<rparr>),
     (NOTE_ABI_TAG, (default_details elf)\<lparr>bi_kind := Primary (ascii ''.note.ABI-tag''), bi_ty := elf ''SHT_NOTE'', bi_flags := elf ''SHF_ALLOC''\<rparr>),
     (DATA_REL_RO, (default_details elf)\<lparr>bi_kind := Primary (ascii ''.data.rel.ro''), bi_ty := elf ''SHT_PROGBITS'', bi_flags := elf ''SHF_ALLOC'' OR elf ''SHF_WRITE'', bi_is_relro := True\<rparr>)]"

definition section_definitions :: "elf_consts \<Rightarrow> (string \<Rightarrow> u64) \<Rightarrow> built_in_details list" where
  "section_definitions elf size_of =
     fold (\<lambda>(s, d) ds. ds[unat s := d])
       (generated_details elf size_of @ generated_details_tail elf size_of @ regular_details elf size_of)
       (replicate NUM_BUILT_IN_SECTIONS (default_details elf))"

definition built_in_section_infos ::
    "elf_consts \<Rightarrow> (string \<Rightarrow> u64) \<Rightarrow> elf_attributes section_output_info list" where
  "built_in_section_infos elf size_of =
     map (\<lambda>d. \<lparr>info_kind = bi_kind d,
                section_attributes = \<lparr>attr_flags = bi_flags d, attr_ty = bi_ty d, attr_entsize = bi_element_size d\<rparr>,
                min_alignment = bi_min_alignment d, location = None, secondary_order = None\<rparr>)
       (section_definitions elf size_of)"

definition opt_built_in_details ::
    "elf_consts \<Rightarrow> (string \<Rightarrow> u64) \<Rightarrow> section_id \<Rightarrow> built_in_details option" where
  "opt_built_in_details elf size_of s = get_at (section_definitions elf size_of) (unat s)"

definition with_base_address ::
    "elf_consts \<Rightarrow> (string \<Rightarrow> u64) \<Rightarrow> u64 \<Rightarrow> elf_attributes output_sections" where
  "with_base_address elf size_of base =
     \<lparr>section_infos = built_in_section_infos elf size_of, base_address = base, custom_by_name = Map.empty,
      output_section_indexes = [], init_fini_by_priority = Map.empty\<rparr>"

subsection \<open>Segments\<close>

record elf_segment_def =
  segment_type :: u32
  segment_flags :: u32

definition PROGRAM_SEGMENT_DEFS :: "elf_consts \<Rightarrow> elf_segment_def list" where
  "PROGRAM_SEGMENT_DEFS elf =
     (let r = elf ''PF_R''; x = elf ''PF_X''; w = elf ''PF_W''
      in [\<lparr>segment_type = elf ''PT_PHDR'', segment_flags = r\<rparr>,
          \<lparr>segment_type = elf ''PT_INTERP'', segment_flags = r\<rparr>,
          \<lparr>segment_type = elf ''PT_NOTE'', segment_flags = r\<rparr>,
          \<lparr>segment_type = elf ''PT_GNU_PROPERTY'', segment_flags = r\<rparr>,
          \<lparr>segment_type = elf ''PT_LOAD'', segment_flags = r\<rparr>,
          \<lparr>segment_type = elf ''PT_LOAD'', segment_flags = flags_with r x\<rparr>,
          \<lparr>segment_type = elf ''PT_LOAD'', segment_flags = flags_with r w\<rparr>,
          \<lparr>segment_type = elf ''PT_TLS'', segment_flags = r\<rparr>,
          \<lparr>segment_type = elf ''PT_GNU_EH_FRAME'', segment_flags = r\<rparr>,
          \<lparr>segment_type = elf ''PT_GNU_SFRAME'', segment_flags = r\<rparr>,
          \<lparr>segment_type = elf ''PT_DYNAMIC'', segment_flags = flags_with r w\<rparr>,
          \<lparr>segment_type = elf ''PT_GNU_RELRO'', segment_flags = r\<rparr>,
          \<lparr>segment_type = elf ''PT_RISCV_ATTRIBUTES'', segment_flags = r\<rparr>])"

definition STACK_SEGMENT_DEF :: "elf_consts \<Rightarrow> elf_segment_def" where
  "STACK_SEGMENT_DEF elf =
     \<lparr>segment_type = elf ''PT_GNU_STACK'', segment_flags = flags_with (elf ''PF_R'') (elf ''PF_W'')\<rparr>"

definition seg_is_writable :: "elf_consts \<Rightarrow> elf_segment_def \<Rightarrow> bool" where
  "seg_is_writable elf d = flags_contains (segment_flags d) (elf ''PF_W'')"
definition seg_is_executable :: "elf_consts \<Rightarrow> elf_segment_def \<Rightarrow> bool" where
  "seg_is_executable elf d = flags_contains (segment_flags d) (elf ''PF_X'')"
definition seg_is_loadable :: "elf_consts \<Rightarrow> elf_segment_def \<Rightarrow> bool" where
  "seg_is_loadable elf d \<longleftrightarrow> segment_type d = elf ''PT_LOAD''"
definition seg_is_stack :: "elf_consts \<Rightarrow> elf_segment_def \<Rightarrow> bool" where
  "seg_is_stack elf d \<longleftrightarrow> segment_type d = elf ''PT_GNU_STACK''"
definition seg_is_tls :: "elf_consts \<Rightarrow> elf_segment_def \<Rightarrow> bool" where
  "seg_is_tls elf d \<longleftrightarrow> segment_type d = elf ''PT_TLS''"

definition seg_order_key :: "elf_consts \<Rightarrow> elf_segment_def \<Rightarrow> nat" where
  "seg_order_key elf d =
     (let order = [elf ''PT_PHDR'', elf ''PT_INTERP'', elf ''PT_LOAD'', elf ''PT_DYNAMIC''];
          i = length (takeWhile (\<lambda>t. t \<noteq> segment_type d) order)
      in if i < length order then i else length order + unat (segment_type d))"

definition elf_should_include_section ::
    "elf_consts \<Rightarrow> (string \<Rightarrow> u64) \<Rightarrow> elf_segment_def \<Rightarrow> elf_attributes section_output_info \<Rightarrow> section_id \<Rightarrow> bool" where
  "elf_should_include_section elf size_of d info s =
     (let a = section_attributes info; details = opt_built_in_details elf size_of s
      in if segment_type d = elf ''PT_NOTE'' then attr_ty a = elf ''SHT_NOTE''
         else if segment_type d = elf ''PT_TLS'' then elf_is_tls elf a
         else if segment_type d = elf ''PT_LOAD'' then
           elf_is_alloc elf a \<and> elf_is_writable elf a = seg_is_writable elf d
           \<and> elf_is_executable elf a = seg_is_executable elf d
         else if segment_type d = elf ''PT_GNU_RELRO'' then
           elf_is_tls elf a \<or> (case details of Some bd \<Rightarrow> bi_is_relro bd | None \<Rightarrow> False)
         else (case Option.bind details bi_target of Some t \<Rightarrow> t = segment_type d | None \<Rightarrow> False))"

definition elf_align_load_segment_start ::
    "elf_segment_def \<Rightarrow> align \<Rightarrow> u64 \<times> u64 \<Rightarrow> u64 \<times> u64" where
  "elf_align_load_segment_start d a off =
     (case off of (file_offset, mem_offset) \<Rightarrow> (file_offset, align_modulo a file_offset mem_offset))"

definition elf_platform :: "elf_consts \<Rightarrow> (string \<Rightarrow> u64) \<Rightarrow> (elf_attributes, elf_segment_def) platform" where
  "elf_platform elf size_of =
     \<lparr>attr_is_alloc = elf_is_alloc elf, has_data_in_file = elf_has_data_in_file elf,
      attr_default = \<lparr>attr_flags = 0, attr_ty = 0, attr_entsize = 0\<rparr>,
      def_is_loadable = seg_is_loadable elf, def_is_writable = seg_is_writable elf,
      def_is_executable = seg_is_executable elf, def_is_stack = seg_is_stack elf,
      should_cut_rw_segment_when_ending = (\<lambda>d. segment_type d = elf ''PT_GNU_RELRO''),
      should_include_section = elf_should_include_section elf size_of,
      program_segment_defs = PROGRAM_SEGMENT_DEFS elf, unconditional_segment_defs = [STACK_SEGMENT_DEF elf],
      align_load_segment_start = elf_align_load_segment_start\<rparr>"

subsection \<open>Order of an ELF file\<close>

record custom_section_ids =
  ro_ids :: "section_id list"
  exec_ids :: "section_id list"
  data_ids :: "section_id list"
  bss_ids :: "section_id list"
  nonalloc_ids :: "section_id list"
  tdata_ids :: "section_id list"
  tbss_ids :: "section_id list"

definition elf_section_order :: "custom_section_ids \<Rightarrow> section_id list" where
  "elf_section_order custom =
     [FILE_HEADER, PROGRAM_HEADERS, SECTION_HEADERS, NOTE_GNU_PROPERTY, NOTE_GNU_BUILD_ID, INTERP,
      NOTE_ABI_TAG, HASH, GNU_HASH, DYNSYM, DYNSTR, GNU_VERSION, GNU_VERSION_D, GNU_VERSION_R,
      RELA_DYN_RELATIVE, RELR_DYN, RELA_PLT, RODATA, EH_FRAME_HDR, EH_FRAME, SFRAME, GCC_EXCEPT_TABLE]
     @ ro_ids custom
     @ [PLT_GOT, INIT, FINI, TEXT]
     @ exec_ids custom
     @ [TDATA]
     @ tdata_ids custom
     @ [TBSS]
     @ tbss_ids custom
     @ [INIT_ARRAY, FINI_ARRAY, PREINIT_ARRAY, DATA_REL_RO, DYNAMIC, GOT, RELRO_PADDING, DATA]
     @ data_ids custom
     @ [BSS]
     @ bss_ids custom
     @ nonalloc_ids custom
     @ [COMMENT, RISCV_ATTRIBUTES, SHSTRTAB, SYMTAB_LOCAL, SYMTAB_SHNDX_LOCAL, STRTAB]"

definition elf_build_output_order ::
    "elf_consts \<Rightarrow> (string \<Rightarrow> u64) \<Rightarrow> custom_section_ids \<Rightarrow> output_kind \<Rightarrow> elf_attributes output_sections
     \<Rightarrow> section_id list list \<Rightarrow> (order_event list \<times> elf_segment_def list) option" where
  "elf_build_output_order elf size_of custom knd os secondary =
     Option.bind
       (add_sections (elf_platform elf size_of) os secondary knd (elf_section_order custom)
          (order_builder_new (elf_platform elf size_of)))
       (order_build (elf_platform elf size_of) knd)"

text \<open>\<^verbatim>\<open>output_order\<close>: secondary sections are collected under their primary, custom sections by their attributes.\<close>

fun classify_sections ::
    "elf_consts \<Rightarrow> nat \<Rightarrow> elf_attributes section_output_info list \<Rightarrow> custom_section_ids \<times> section_id list list
     \<Rightarrow> (custom_section_ids \<times> section_id list list) option" where
  "classify_sections elf i [] st = Some st"
| "classify_sections elf i (info # infos) (custom, secondary) =
     (let s = of_nat i; a = section_attributes info in
      Option.bind
        (case info_kind info of
           Secondary primary \<Rightarrow>
             do {
               ids \<leftarrow> get_at secondary (unat primary);
               secondary' \<leftarrow> set_at (unat primary) (ids @ [s]) secondary;
               Some (custom, secondary')
             }
         | Primary _ \<Rightarrow>
             Some
               (if i < NUM_BUILT_IN_SECTIONS then custom
                else if elf_is_executable elf a then custom\<lparr>exec_ids := exec_ids custom @ [s]\<rparr>
                else if elf_is_tls elf a then
                  (if elf_is_no_bits elf a then custom\<lparr>tbss_ids := tbss_ids custom @ [s]\<rparr>
                   else custom\<lparr>tdata_ids := tdata_ids custom @ [s]\<rparr>)
                else if \<not> elf_is_writable elf a then
                  (if elf_is_alloc elf a then custom\<lparr>ro_ids := ro_ids custom @ [s]\<rparr>
                   else custom\<lparr>nonalloc_ids := nonalloc_ids custom @ [s]\<rparr>)
                else if elf_is_no_bits elf a then custom\<lparr>bss_ids := bss_ids custom @ [s]\<rparr>
                else custom\<lparr>data_ids := data_ids custom @ [s]\<rparr>,
                secondary))
        (classify_sections elf (Suc i) infos))"

definition output_order ::
    "elf_consts \<Rightarrow> (string \<Rightarrow> u64) \<Rightarrow> output_kind \<Rightarrow> elf_attributes output_sections
     \<Rightarrow> (order_event list \<times> elf_segment_def list) option" where
  "output_order elf size_of knd os =
     do {
       (custom, secondary) \<leftarrow>
         classify_sections elf 0 (section_infos os)
           (\<lparr>ro_ids = [], exec_ids = [], data_ids = [], bss_ids = [], nonalloc_ids = [], tdata_ids = [], tbss_ids = []\<rparr>,
            replicate (num_sections os) []);
       elf_build_output_order elf size_of custom knd os secondary
     }"

text \<open>Constants with the values of the ELF specification, for the tests of this theory.\<close>

definition sample_elf :: elf_consts where
  "sample_elf n =
     (case map_of
        [(''SHF_WRITE'', 1), (''SHF_ALLOC'', 2), (''SHF_EXECINSTR'', 4), (''SHF_MERGE'', 16), (''SHF_STRINGS'', 32),
         (''SHF_INFO_LINK'', 64), (''SHF_GROUP'', 512), (''SHF_TLS'', 1024), (''SHT_PROGBITS'', 1), (''SHT_NOBITS'', 8),
         (''SHT_NOTE'', 7), (''PT_LOAD'', 1), (''PT_DYNAMIC'', 2), (''PT_INTERP'', 3), (''PT_NOTE'', 4), (''PT_PHDR'', 6),
         (''PT_TLS'', 7), (''PT_GNU_EH_FRAME'', 0x6474e550), (''PT_GNU_STACK'', 0x6474e551),
         (''PT_GNU_RELRO'', 0x6474e552), (''PT_GNU_PROPERTY'', 0x6474e553), (''PT_GNU_SFRAME'', 0x6474e554),
         (''PT_RISCV_ATTRIBUTES'', 0x70000003), (''PF_X'', 1), (''PF_W'', 2), (''PF_R'', 4)] n of
        Some v \<Rightarrow> v | None \<Rightarrow> 0)"


subsection \<open>Load segments\<close>

text \<open>What the ELF specification says of the numbers that the load segments depend on.\<close>

definition elf_numbers :: "elf_consts \<Rightarrow> bool" where
  "elf_numbers elf \<longleftrightarrow>
     elf ''PF_W'' \<noteq> 0 \<and> elf ''PF_X'' \<noteq> 0 \<and> elf ''PF_R'' AND elf ''PF_W'' = 0
     \<and> elf ''PF_R'' AND elf ''PF_X'' = 0 \<and> elf ''PF_W'' AND elf ''PF_X'' = 0
     \<and> elf ''PT_LOAD'' \<notin>
         elf ` {''PT_PHDR'', ''PT_INTERP'', ''PT_NOTE'', ''PT_GNU_PROPERTY'', ''PT_TLS'', ''PT_GNU_EH_FRAME'',
                ''PT_GNU_SFRAME'', ''PT_DYNAMIC'', ''PT_GNU_RELRO'', ''PT_RISCV_ATTRIBUTES'', ''PT_GNU_STACK''}"

text \<open>The load segments of the table: read-only, executable, writable.\<close>

lemma load_defs:
  assumes "elf_numbers elf"
  shows "filter (seg_is_loadable elf) (PROGRAM_SEGMENT_DEFS elf) =
    map (\<lambda>f. \<lparr>segment_type = elf ''PT_LOAD'', segment_flags = f\<rparr>)
      [elf ''PF_R'', flags_with (elf ''PF_R'') (elf ''PF_X''), flags_with (elf ''PF_R'') (elf ''PF_W'')]"
  using assms by (auto simp: elf_numbers_def PROGRAM_SEGMENT_DEFS_def seg_is_loadable_def Let_def)

lemma load_def_flags:
  assumes "elf_numbers elf"
  shows "flags_contains (elf ''PF_R'') (elf ''PF_W'') = False" "flags_contains (elf ''PF_R'') (elf ''PF_X'') = False"
    "flags_contains (flags_with (elf ''PF_R'') (elf ''PF_X'')) (elf ''PF_W'') = False"
    "flags_contains (flags_with (elf ''PF_R'') (elf ''PF_X'')) (elf ''PF_X'') = True"
    "flags_contains (flags_with (elf ''PF_R'') (elf ''PF_W'')) (elf ''PF_W'') = True"
    "flags_contains (flags_with (elf ''PF_R'') (elf ''PF_W'')) (elf ''PF_X'') = False"
  using assms and.commute [of "elf ''PF_X''" "elf ''PF_W''"]
  by (simp_all add: elf_numbers_def flags_contains_def flags_with_def bit.conj_disj_distrib2)

text \<open>
  C39. Every allocated ELF section belongs to exactly one load segment, the one with its
  permissions, unless it is both writable and executable: such a section belongs to none.
\<close>

theorem elf_load_segment_unique:
  assumes "elf_numbers elf" and "elf_is_alloc elf (section_attributes info)"
  shows "length (filter (\<lambda>d. seg_is_loadable elf d \<and> elf_should_include_section elf size_of d info s)
           (PROGRAM_SEGMENT_DEFS elf)) =
    (if elf_is_writable elf (section_attributes info) \<and> elf_is_executable elf (section_attributes info) then 0 else 1)"
proof -
  have ne: "elf ''PT_LOAD'' \<noteq> elf ''PT_NOTE''" "elf ''PT_LOAD'' \<noteq> elf ''PT_TLS''"
    using assms(1) by (auto simp: elf_numbers_def)
  have "filter (\<lambda>d. seg_is_loadable elf d \<and> elf_should_include_section elf size_of d info s) (PROGRAM_SEGMENT_DEFS elf)
      = filter (\<lambda>d. elf_should_include_section elf size_of d info s)
          (filter (seg_is_loadable elf) (PROGRAM_SEGMENT_DEFS elf))"
    by (simp add: conj_commute)
  then show ?thesis
    using assms(2) load_def_flags [OF assms(1)] ne
    by (simp add: load_defs [OF assms(1)] elf_should_include_section_def Let_def seg_is_writable_def seg_is_executable_def)
qed

theorem elf_load_segment_unique_witness:
  "length (filter (\<lambda>d. seg_is_loadable sample_elf d \<and> elf_should_include_section sample_elf (\<lambda>_. 8) d
       \<lparr>info_kind = Primary [], section_attributes = \<lparr>attr_flags = 6, attr_ty = 1, attr_entsize = 0\<rparr>,
        min_alignment = MIN_ALIGN, location = None, secondary_order = None\<rparr> TEXT) (PROGRAM_SEGMENT_DEFS sample_elf)) = 1"
  using elf_load_segment_unique [of sample_elf "\<lparr>info_kind = Primary [],
      section_attributes = \<lparr>attr_flags = 6, attr_ty = 1, attr_entsize = 0\<rparr>,
      min_alignment = MIN_ALIGN, location = None, secondary_order = None\<rparr>" "\<lambda>_. 8" TEXT]
  by (simp add: elf_numbers_def sample_elf_def elf_is_alloc_def elf_is_writable_def elf_is_executable_def flags_contains_def)

end
