(* ===== verification/Resolution_Passes.thy ===== *)
theory Resolution_Passes
  imports Value_Flags Elf_Platform Elf_Types
begin

unbundle bit_operations_syntax

text \<open>
  The three passes over the symbols that need GOT or PLT entries: \<^verbatim>\<open>allocate_resolution\<close> and
  \<^verbatim>\<open>create_resolution\<close> of \<^verbatim>\<open>libsld/src/elf.rs\<close>, which give sizes and then addresses, and
  \<^verbatim>\<open>process_resolution\<close> with the \<^verbatim>\<open>TableWriter\<close> of \<^verbatim>\<open>libsld/src/elf_writer.rs\<close>, which fills in the entries and their
  dynamic relocations. \<^verbatim>\<open>resolution_flags\<close> is in \<^verbatim>\<open>libsld/src/layout.rs\<close>.

  A part map is a list indexed by part id, as in \<^verbatim>\<open>Output_Sections\<close>. A buffer of the writer is the number of its unused entries
  and what has been written, in order. What depends on the architecture is \<open>arch_ops\<close>. An error of the writer is on the left;
  the writer's one \<^verbatim>\<open>unwrap\<close> is the error \<open>W_Panic\<close>, and the debug assertions are checked.
\<close>

subsection \<open>What a relocation asks for\<close>

fun resolution_flags :: "relocation_kind \<Rightarrow> value_flags" where
  "resolution_flags k =
     (if k \<in> {RK_PltRelative, RK_PltRelGotBase} then NEEDS_PLT OR NEEDS_GOT
      else if k \<in> {RK_Got, RK_GotRelGotBase, RK_GotRelative, RK_GotRelativeLoongArch64} then NEEDS_GOT
      else if k \<in> {RK_GotTpOff, RK_GotTpOffLoongArch64, RK_GotTpOffGot, RK_GotTpOffGotBase} then GOT_TLS_OFFSET
      else if k \<in> {RK_TlsGd, RK_TlsGdGot, RK_TlsGdGotBase} then GOT_TLS_MODULE
      else if k \<in> {RK_TlsDesc, RK_TlsDescLoongArch64, RK_TlsDescGot, RK_TlsDescGotBase, RK_TlsDescCall} then GOT_TLS_DESCRIPTOR
      else if k \<in> {RK_TlsLd, RK_TlsLdGot, RK_TlsLdGotBase, RK_None, RK_AbsoluteLowPart, RK_Alignment} then 0
      else DIRECT)"

subsection \<open>Sizes\<close>

definition GOT_ENTRY_SIZE :: u64 where "GOT_ENTRY_SIZE = 8"
definition PLT_ENTRY_SIZE :: u64 where "PLT_ENTRY_SIZE = 16"
definition RELA_ENTRY_SIZE :: u64 where "RELA_ENTRY_SIZE = 24"
definition RELR_ENTRY_SIZE :: u64 where "RELR_ENTRY_SIZE = 8"

definition has_dynamic_symbol :: "value_flags \<Rightarrow> bool" where
  "has_dynamic_symbol flags \<longleftrightarrow> is_dynamic flags \<or> (needs_export_dynamic flags \<and> vf_is_interposable flags)"

definition increment_if :: "bool \<Rightarrow> part_id \<Rightarrow> u64 \<Rightarrow> u64 list \<Rightarrow> u64 list option" where
  "increment_if c p n m = (if c then part_increment p n m else Some m)"

text \<open>\<open>relr\<close> is \<^verbatim>\<open>args.is_relr_enabled()\<close>.\<close>

definition allocate_relative :: "bool \<Rightarrow> u64 list \<Rightarrow> u64 list option" where
  "allocate_relative relr m =
     (if relr then part_increment RELR_DYN RELR_ENTRY_SIZE m else part_increment RELA_DYN_RELATIVE RELA_ENTRY_SIZE m)"

definition allocate_plain_got :: "value_flags \<Rightarrow> output_kind \<Rightarrow> bool \<Rightarrow> u64 list \<Rightarrow> u64 list option" where
  "allocate_plain_got flags okind relr m =
     (if needs_got flags \<and> \<not> vf_is_tls flags then do {
        m \<leftarrow> part_increment GOT GOT_ENTRY_SIZE m;
        m \<leftarrow> increment_if (needs_plt flags) PLT_GOT PLT_ENTRY_SIZE m;
        if is_ifunc flags then part_increment RELA_PLT RELA_ENTRY_SIZE m
        else if has_dynamic_symbol flags then part_increment RELA_DYN_GENERAL RELA_ENTRY_SIZE m
        else if is_address flags \<and> is_relocatable okind then allocate_relative relr m
        else Some m
      } else Some m)"

definition allocate_resolution :: "value_flags \<Rightarrow> output_kind \<Rightarrow> bool \<Rightarrow> u64 list \<Rightarrow> u64 list option" where
  "allocate_resolution flags okind relr m =
     do {
       m \<leftarrow> allocate_plain_got flags okind relr m;
       m \<leftarrow> increment_if (needs_ifunc_got_for_address flags) GOT GOT_ENTRY_SIZE m;
       m \<leftarrow> (if needs_ifunc_got_for_address flags \<and> is_relocatable okind then allocate_relative relr m else Some m);
       m \<leftarrow> increment_if (needs_got_tls_offset flags) GOT GOT_ENTRY_SIZE m;
       m \<leftarrow> increment_if (needs_got_tls_offset flags \<and> (vf_is_interposable flags \<or> is_shared_object okind)) RELA_DYN_GENERAL RELA_ENTRY_SIZE m;
       m \<leftarrow> increment_if (needs_got_tls_module flags) GOT (GOT_ENTRY_SIZE * 2) m;
       m \<leftarrow> increment_if (needs_got_tls_module flags \<and> (\<not> is_executable okind \<or> is_dynamic flags)) RELA_DYN_GENERAL RELA_ENTRY_SIZE m;
       m \<leftarrow> increment_if (needs_got_tls_module flags \<and> has_dynamic_symbol flags) RELA_DYN_GENERAL RELA_ENTRY_SIZE m;
       m \<leftarrow> increment_if (needs_got_tls_descriptor flags) GOT (GOT_ENTRY_SIZE * 2) m;
       increment_if (needs_got_tls_descriptor flags) RELA_DYN_GENERAL RELA_ENTRY_SIZE m
     }"

definition compute_allocations :: "value_flags \<Rightarrow> output_kind \<Rightarrow> bool \<Rightarrow> u64 list option" where
  "compute_allocations flags okind relr = allocate_resolution flags okind relr (replicate (unat NUM_SINGLE_PART_SECTIONS) 0)"

subsection \<open>Addresses\<close>

record resolution =
  raw_value :: u64
  dynamic_symbol_index :: "u32 option"
  res_flags :: value_flags
  got_address :: "u64 option"
  plt_address :: "u64 option"

definition allocate_got :: "u64 \<Rightarrow> u64 list \<Rightarrow> (u64 \<times> u64 list) option" where
  "allocate_got num_entries m =
     do {
       a \<leftarrow> part_get GOT m;
       if a = 0 then None else map_option (Pair a) (part_increment GOT (GOT_ENTRY_SIZE * num_entries) m)
     }"

definition allocate_plt :: "u64 list \<Rightarrow> (u64 \<times> u64 list) option" where
  "allocate_plt m =
     do {
       a \<leftarrow> part_get PLT_GOT m;
       if a = 0 then None else map_option (Pair a) (part_increment PLT_GOT PLT_ENTRY_SIZE m)
     }"

definition tls_got_slots :: "value_flags \<Rightarrow> u64" where
  "tls_got_slots flags = (if needs_got_tls_offset flags then 1 else 0) + (if needs_got_tls_module flags then 2 else 0)
     + (if needs_got_tls_descriptor flags then 2 else 0)"

definition create_resolution ::
    "value_flags \<Rightarrow> u64 \<Rightarrow> u32 option \<Rightarrow> u64 list \<Rightarrow> (resolution \<times> u64 list) option" where
  "create_resolution flags raw idx m =
     (let res = \<lparr>raw_value = raw, dynamic_symbol_index = idx, res_flags = flags, got_address = None, plt_address = None\<rparr> in
      if needs_plt flags then do {
        (plt, m) \<leftarrow> allocate_plt m;
        (got, m) \<leftarrow> allocate_got (if needs_ifunc_got_for_address flags then 2 else 1) m;
        Some (res\<lparr>plt_address := Some plt, raw_value := (if is_dynamic flags then plt else raw), got_address := Some got\<rparr>, m)
      } else if vf_is_tls flags then do {
        (got, m) \<leftarrow> (if tls_got_slots flags = 0 then None else allocate_got (tls_got_slots flags) m);
        Some (res\<lparr>got_address := Some got\<rparr>, m)
      } else if needs_got flags then do {
        (got, m) \<leftarrow> allocate_got 1 m;
        Some (res\<lparr>got_address := Some got\<rparr>, m)
      } else Some (res, m))"

end
