(* ===== verification/AArch64_Insn.thy ===== *)
theory AArch64_Insn
  imports Elf_Types
begin

unbundle bit_operations_syntax

text \<open>
  \<^verbatim>\<open>linker-utils/src/aarch64.rs\<close>, \<^verbatim>\<open>impl AArch64Instruction\<close>: writing a relocation value into an
  A64 instruction and reading it back. The encoders merge with \<open>OR\<close> only (except \<^verbatim>\<open>Movnz\<close> and
  \<^verbatim>\<open>MachOLow12\<close>, which clear first), so the round trip needs the immediate field of the input
  instruction to be zero.
\<close>

definition aarch64_write_to_value ::
    "aarch64_instruction \<Rightarrow> u64 \<Rightarrow> bool \<Rightarrow> bytes \<Rightarrow> bytes option" where
  "aarch64_write_to_value i v negative dest =
     Option.bind
       (case i of
          A64_Adr \<Rightarrow>
            Some (dest, push_bit 29 (ucast (xbits v 0 2)) OR push_bit 5 (ucast (xbits v 2 32)))
        | A64_Movkz \<Rightarrow> Some (dest, push_bit 5 (ucast v))
        | A64_Movnz \<Rightarrow>
            map_option
              (\<lambda>d. (d, (if negative then 0x92800000 else 0xd2800000)
                       OR push_bit 5 (ucast (xbits (if negative then NOT v else v) 0 16))))
              (and_from_slice dest (to_le_bytes 4 (0x0060001F :: u32)))
        | A64_Ldr \<Rightarrow> Some (dest, push_bit 5 (ucast v))
        | A64_LdrRegister \<Rightarrow> Some (dest, push_bit 10 (ucast v))
        | A64_Add \<Rightarrow> Some (dest, push_bit 10 (ucast v))
        | A64_LdSt \<Rightarrow> Some (dest, push_bit 10 (ucast v))
        | A64_TstBr \<Rightarrow> Some (dest, push_bit 5 (ucast v))
        | A64_Bcond \<Rightarrow> Some (dest, push_bit 5 (ucast v))
        | A64_JumpCall \<Rightarrow> Some (dest, ucast v)
        | A64_MachOLow12 \<Rightarrow>
            Option.bind (Option.bind (slice_range 0 4 dest) u32_from_slice) (\<lambda>insn.
              let scale =
                (if insn AND 0x3b000000 = 0x39000000 then
                   (let sc = drop_bit 30 insn in
                    if sc = 0 \<and> insn AND 0x04800000 = 0x04800000 then 4 else sc)
                 else 0)
              in map_option
                   (\<lambda>d. (d, push_bit 10 (drop_bit (unat scale) (ucast v))))
                   (and_from_slice dest (to_le_bytes 4 (NOT (push_bit 10 0xfff) :: u32)))))
       (\<lambda>(d, m). or_from_slice d (to_le_bytes 4 (m :: u32)))"

text \<open>\<^verbatim>\<open>todo!()\<close> in the last branch of \<^verbatim>\<open>read_value\<close> panics.\<close>

definition aarch64_read_value :: "aarch64_instruction \<Rightarrow> bytes \<Rightarrow> (u64 \<times> bool) option" where
  "aarch64_read_value i bs =
     Option.bind (u32_from_slice bs) (\<lambda>word.
       let value = (ucast word :: u64) in
       case i of
         A64_Adr \<Rightarrow>
           Some (lbits (drop_bit 29 value) 2 OR push_bit 2 (lbits_signed (drop_bit 5 value) 19), False)
       | A64_Movkz \<Rightarrow> Some (lbits_signed (drop_bit 5 value) 16, False)
       | A64_Movnz \<Rightarrow>
           (let negative = (value AND push_bit 30 1 = 0);
                v = lbits (drop_bit 5 value) 16
            in Some (if negative then NOT v else v, negative))
       | A64_Ldr \<Rightarrow> Some (lbits_signed (drop_bit 5 value) 19, False)
       | A64_LdrRegister \<Rightarrow> Some (lbits (drop_bit 10 value) 12, False)
       | A64_Add \<Rightarrow> Some (lbits (drop_bit 10 value) 12, False)
       | A64_LdSt \<Rightarrow> Some (lbits_signed (drop_bit 10 value) 12, False)
       | A64_TstBr \<Rightarrow> Some (lbits_signed (drop_bit 5 value) 14, False)
       | A64_Bcond \<Rightarrow> Some (lbits_signed (drop_bit 5 value) 19, False)
       | A64_JumpCall \<Rightarrow> Some (lbits_signed value 26, False)
       | A64_MachOLow12 \<Rightarrow> None)"

subsection \<open>Immediate fields\<close>

text \<open>
  The immediate field of each format, as the Arm Architecture Reference Manual sections cited
  in the source give it: which bits of the value go where in the word.
\<close>

fun a64_fields :: "aarch64_instruction \<Rightarrow> field list" where
  "a64_fields A64_Adr = [(0, 2, 29), (2, 19, 5)]"
| "a64_fields A64_Movkz = [(0, 16, 5)]"
| "a64_fields A64_Movnz = [(0, 16, 5)]"
| "a64_fields A64_Ldr = [(0, 19, 5)]"
| "a64_fields A64_LdrRegister = [(0, 12, 10)]"
| "a64_fields A64_Add = [(0, 12, 10)]"
| "a64_fields A64_LdSt = [(0, 12, 10)]"
| "a64_fields A64_TstBr = [(0, 14, 5)]"
| "a64_fields A64_Bcond = [(0, 19, 5)]"
| "a64_fields A64_JumpCall = [(0, 26, 0)]"
| "a64_fields A64_MachOLow12 = [(0, 12, 10)]"

fun a64_width :: "aarch64_instruction \<Rightarrow> nat" where
  "a64_width A64_Adr = 21"
| "a64_width A64_Movkz = 16"
| "a64_width A64_Movnz = 16"
| "a64_width A64_Ldr = 19"
| "a64_width A64_LdrRegister = 12"
| "a64_width A64_Add = 12"
| "a64_width A64_LdSt = 12"
| "a64_width A64_TstBr = 14"
| "a64_width A64_Bcond = 19"
| "a64_width A64_JumpCall = 26"
| "a64_width A64_MachOLow12 = 12"

definition a64_or_only :: "aarch64_instruction \<Rightarrow> bool" where
  "a64_or_only i \<longleftrightarrow> i \<noteq> A64_Movnz \<and> i \<noteq> A64_MachOLow12"

interpretation a64: field_layout "a64_fields i" "TYPE(32)" for i
  by unfold_locales (cases i; simp)+

lemma a64_src_mask: "(src_mask (a64_fields i) :: u32) = mask (a64_width i)"
  by (cases i) (simp_all add: mask_eq_exp_minus_1)

text \<open>On a value that fits the format, a write is an \<open>OR\<close> of the scattered immediate.\<close>

lemma a64_write_or:
  assumes "a64_or_only i" and fit: "take_bit (a64_width i) v = v"
  shows "aarch64_write_to_value i v n (to_le_bytes 4 x @ rest) =
    Some (to_le_bytes 4 (x OR scatter (a64_fields i) (ucast v) :: u32) @ rest)"
proof -
  have trunc: "take_bit (a64_width i) (ucast v :: u32) = ucast v"
    using fit by (metis unsigned_take_bit_eq)
  have adr: "(ucast (take_bit 30 (drop_bit 2 v)) :: u32) = take_bit 19 (drop_bit 2 (ucast v))"
    if "i = A64_Adr"
  proof -
    have "take_bit 30 (drop_bit 2 v) = take_bit 19 (drop_bit 2 v)"
      using fit that by (simp add: take_bit_drop_bit_fit [where w = 21])
    then show ?thesis
      by (simp add: bit_eq_iff bit_simps)
  qed
  show ?thesis
    using assms(1) trunc adr
    by (cases i)
       (simp_all add: a64_or_only_def aarch64_write_to_value_def slice_simps xbits_eq unsigned_take_bit_eq)
qed

subsection \<open>Round trip\<close>

text \<open>
  What \<^verbatim>\<open>read_value\<close> reports of an immediate: zero extended for \<^verbatim>\<open>ADD\<close> and the scaled \<^verbatim>\<open>LDR\<close>,
  sign extended for every other format.
\<close>

definition a64_decoded :: "aarch64_instruction \<Rightarrow> u64 \<Rightarrow> u64" where
  "a64_decoded i v =
     (if i = A64_LdrRegister \<or> i = A64_Add then take_bit (a64_width i) v
      else signed_take_bit (a64_width i - 1) v)"

lemma a64_read_gather:
  assumes "a64_or_only i"
  shows "aarch64_read_value i (to_le_bytes 4 (w :: u32) @ rest) =
    Some (a64_decoded i (ucast (gather (a64_fields i) w)), False)"
proof -
  have "signed_take_bit 20 (take_bit 2 a OR push_bit 2 b)
      = take_bit 2 a OR push_bit 2 (signed_take_bit 18 b)" for a b :: u64
    using signed_take_bit_or_push [of 2 18, where 'a = 64] by simp
  then show ?thesis
    using assms
    by (cases i)
       (simp_all add: a64_or_only_def aarch64_read_value_def a64_decoded_def slice_simps Let_def
         lbits_eq lbits_signed_eq unsigned_or_eq unsigned_take_bit_eq
         ucast_push_bit_take_bit_up ucast_drop_bit_up signed_take_bit_take_bit)
qed

lemma a64_decoded_fit:
  assumes "take_bit (a64_width i) v = v"
  shows "a64_decoded i (ucast (ucast v AND src_mask (a64_fields i) :: u32)) = a64_decoded i v"
proof -
  have w: "a64_width i \<le> 32" and pos: "0 < a64_width i" by (cases i; simp)+
  have "(ucast (ucast v AND src_mask (a64_fields i) :: u32) :: u64) = take_bit (a64_width i) (take_bit 32 v)"
    by (simp add: a64_src_mask unsigned_take_bit_eq unsigned_ucast_eq flip: take_bit_eq_mask)
  also have "\<dots> = v" using assms w by (simp add: take_bit_take_bit min_def)
  finally show ?thesis by simp
qed

text \<open>\<^verbatim>\<open>Movnz\<close> rewrites the opcode: \<^verbatim>\<open>MOVN\<close> of the complement for a negative value.\<close>

definition a64_movnz_word :: "u64 \<Rightarrow> bool \<Rightarrow> u32 \<Rightarrow> u32" where
  "a64_movnz_word v negative x =
     (x AND 0x0060001F) OR (if negative then 0x92800000 else 0xd2800000)
       OR push_bit 5 (ucast (take_bit 16 (if negative then NOT v else v)))"

lemma a64_write_movnz:
  "aarch64_write_to_value A64_Movnz v n (to_le_bytes 4 x @ rest) =
     Some (to_le_bytes 4 (a64_movnz_word v n x) @ rest)"
  by (simp add: aarch64_write_to_value_def slice_simps xbits_eq a64_movnz_word_def or.assoc)

lemma a64_movnz_imm:
  "take_bit 16 (drop_bit 5 (a64_movnz_word v n x)) = ucast (take_bit 16 (if n then NOT v else v))"
proof -
  let ?y = "ucast (take_bit 16 (if n then NOT v else v)) :: u32"
  have y: "take_bit 16 ?y = ?y" by (simp add: unsigned_take_bit_eq)
  have "take_bit 16 (drop_bit 5 (a64_movnz_word v n x)) = take_bit 16 (drop_bit 5 (push_bit 5 ?y))"
    unfolding a64_movnz_word_def drop_bit_or drop_bit_and take_bit_or take_bit_and
    by simp
  then show ?thesis using y by (simp add: drop_push_fit [where l = 16])
qed

lemma a64_movnz_sign: "bit (a64_movnz_word v n x) 30 \<longleftrightarrow> \<not> n"
  by (simp add: a64_movnz_word_def bit_simps)

lemma a64_movnz_kept: "a64_movnz_word v n x AND 0x0060001F = x AND 0x0060001F"
proof -
  let ?y = "ucast (take_bit 16 (if n then NOT v else v)) :: u32"
  have "take_bit 16 ?y AND 0x30000 = 0"
    unfolding take_bit_eq_mask and.assoc by (simp add: mask_eq_exp_minus_1)
  then have "?y AND 0x30000 = 0" by (simp add: unsigned_take_bit_eq)
  then have "push_bit 5 (?y AND 0x30000) = 0" by simp
  then have "push_bit 5 ?y AND push_bit 5 0x30000 = 0" by (simp only: push_bit_and)
  moreover have "push_bit 5 ?y AND 0x1f = 0"
    by (simp only: and_ones(5) take_bit_push_bit) simp
  ultimately have "push_bit 5 ?y AND (0x1f OR push_bit 5 0x30000) = 0"
    by (simp only: bit.conj_disj_distrib) simp
  then have "push_bit 5 ?y AND 0x0060001F = 0" by simp
  then show ?thesis
    unfolding a64_movnz_word_def bit.conj_disj_distrib2 by (simp add: and.assoc)
qed

subsection \<open>The encoder and the decoder agree\<close>

text \<open>
  Writing a value that fits the immediate of an AArch64 instruction whose immediate is
  zero succeeds, reads back as the value (extended as the format says), changes no bit outside
  the immediate and no byte after the instruction.
\<close>

lemma aarch64_insn_roundtrip:
  assumes "a64_or_only i" and "take_bit (a64_width i) v = v"
    and "u32_from_slice dest = Some x" and "x AND dst_mask (a64_fields i) = 0"
  shows "\<exists>out x'. aarch64_write_to_value i v n dest = Some out
    \<and> aarch64_read_value i out = Some (a64_decoded i v, False)
    \<and> u32_from_slice out = Some x' \<and> x' AND NOT (dst_mask (a64_fields i)) = x
    \<and> drop 4 out = drop 4 dest"
proof -
  let ?x' = "x OR scatter (a64_fields i) (ucast v)"
  let ?out = "to_le_bytes 4 ?x' @ drop 4 dest"
  have "aarch64_write_to_value i v n dest = Some ?out"
    using a64_write_or [OF assms(1,2)] u32_from_slice_SomeD [OF assms(3)] by metis
  moreover have "aarch64_read_value i ?out = Some (a64_decoded i v, False)"
    by (simp add: a64_read_gather [OF assms(1)] a64.gather_or_scatter [OF assms(4)]
        a64_decoded_fit [OF assms(2)])
  moreover have "u32_from_slice ?out = Some ?x'" by (simp add: slice_simps)
  moreover have "?x' AND NOT (dst_mask (a64_fields i)) = x" by (rule a64.write_frame [OF assms(4)])
  ultimately show ?thesis by auto
qed

text \<open>
  \<^verbatim>\<open>Movnz\<close> needs no hypothesis on the old immediate: it keeps the register and the shift of
  the instruction, selects \<^verbatim>\<open>MOVN\<close> or \<^verbatim>\<open>MOVZ\<close> by the sign, and reads back the 16 bits of the
  value extended with the sign that was given.
\<close>

lemma aarch64_movnz_roundtrip:
  assumes "u32_from_slice dest = Some x"
  shows "\<exists>out x'. aarch64_write_to_value A64_Movnz v negative dest = Some out
    \<and> aarch64_read_value A64_Movnz out =
        Some (if negative then v OR NOT (mask 16) else take_bit 16 v, negative)
    \<and> u32_from_slice out = Some x' \<and> x' AND 0x0060001F = x AND 0x0060001F
    \<and> drop 4 out = drop 4 dest"
proof -
  let ?w = "a64_movnz_word v negative x"
  let ?out = "to_le_bytes 4 ?w @ drop 4 dest"
  have imm: "take_bit 16 (drop_bit 5 (ucast ?w :: u64)) = take_bit 16 (if negative then NOT v else v)"
  proof -
    have "take_bit 16 (drop_bit 5 (ucast ?w :: u64)) = ucast (take_bit 16 (drop_bit 5 ?w))"
      by (simp add: unsigned_take_bit_eq ucast_drop_bit_up)
    then show ?thesis
      by (simp add: a64_movnz_imm unsigned_take_bit_eq unsigned_ucast_eq take_bit_take_bit)
  qed
  have neg: "(ucast ?w :: u64) AND push_bit 30 1 = 0 \<longleftrightarrow> negative"
    unfolding push_bit_of_1 and_exp_eq_0_iff_not_bit bit_unsigned_iff by (simp add: a64_movnz_sign)
  have ext: "NOT (take_bit 16 (NOT v)) = v OR NOT (mask 16)"
    by (simp add: take_bit_eq_mask bit.de_Morgan_conj)
  have "aarch64_write_to_value A64_Movnz v negative dest = Some ?out"
    using a64_write_movnz u32_from_slice_SomeD [OF assms] by metis
  moreover have "aarch64_read_value A64_Movnz ?out =
      Some (if negative then v OR NOT (mask 16) else take_bit 16 v, negative)"
    using imm neg ext
    by (cases negative) (simp_all add: aarch64_read_value_def slice_simps Let_def lbits_eq del: push_bit_of_1)
  ultimately show ?thesis by (auto simp: slice_simps a64_movnz_kept)
qed

lemma aarch64_movnz_roundtrip_witness:
  "\<exists>out x'. aarch64_write_to_value A64_Movnz (- 5) True [0x03, 0, 0xa0, 0xd2] = Some out
    \<and> aarch64_read_value A64_Movnz out =
        Some (if True then - 5 OR NOT (mask 16) else take_bit 16 (- 5), True)
    \<and> u32_from_slice out = Some x' \<and> x' AND 0x0060001F = 0xd2a00003 AND 0x0060001F
    \<and> drop 4 out = drop 4 [0x03, 0, 0xa0, 0xd2]"
  by (rule aarch64_movnz_roundtrip) (simp add: u32_from_slice_def first_chunk_def)

end
