(* ===== verification/RiscV_Insn.thy ===== *)
theory RiscV_Insn
  imports Elf_Types
begin

unbundle bit_operations_syntax

text \<open>
  \<^verbatim>\<open>linker-utils/src/riscv64.rs\<close>, \<^verbatim>\<open>impl RiscVInstruction\<close>: the RISC-V immediates. All formats
  clear the immediate before they merge the new one, so the round trips hold for any previous
  contents. The theory also relates the \<^verbatim>\<open>HI20\<close>/\<^verbatim>\<open>LO12\<close> split to the address that the
  instruction pair computes at run time.
\<close>

definition RS1_MASK :: u32 where "RS1_MASK = push_bit 15 0x1f"
definition UTYPE_IMMEDIATE_MASK :: u32 where
  "UTYPE_IMMEDIATE_MASK = 0b00000000000000000000111111111111"
definition ITYPE_IMMEDIATE_MASK :: u32 where
  "ITYPE_IMMEDIATE_MASK = 0b00000000000011111111111111111111"
definition STYPE_IMMEDIATE_MASK :: u32 where
  "STYPE_IMMEDIATE_MASK = 0b00000001111111111111000001111111"
definition BTYPE_IMMEDIATE_MASK :: u32 where
  "BTYPE_IMMEDIATE_MASK = 0b00000001111111111111000001111111"
definition JTYPE_IMMEDIATE_MASK :: u32 where
  "JTYPE_IMMEDIATE_MASK = 0b00000000000000000000111111111111"
definition CBTYPE_IMMEDIATE_MASK :: u16 where
  "CBTYPE_IMMEDIATE_MASK = 0b1110001110000011"
definition CJTYPE_IMMEDIATE_MASK :: u16 where
  "CJTYPE_IMMEDIATE_MASK = 0b1110000000000011"
definition CLUITYPE_IMMEDIATE_MASK :: u16 where
  "CLUITYPE_IMMEDIATE_MASK = 0b1110111110000011"

lemmas riscv_masks =
  UTYPE_IMMEDIATE_MASK_def ITYPE_IMMEDIATE_MASK_def STYPE_IMMEDIATE_MASK_def
  BTYPE_IMMEDIATE_MASK_def JTYPE_IMMEDIATE_MASK_def CBTYPE_IMMEDIATE_MASK_def
  CJTYPE_IMMEDIATE_MASK_def CLUITYPE_IMMEDIATE_MASK_def

text \<open>The formats that are a single instruction; \<^verbatim>\<open>UiType\<close> is two of them.\<close>

definition riscv_write_single :: "riscv_instruction \<Rightarrow> u64 \<Rightarrow> bytes \<Rightarrow> bytes option" where
  "riscv_write_single i v dest =
     (case i of
        RV_UiType \<Rightarrow> None
      | RV_UType \<Rightarrow>
          (let m = push_bit 12 (ucast (xbits (v + 0x800) 12 32) :: u32)
           in and_or dest (to_le_bytes 4 UTYPE_IMMEDIATE_MASK) (to_le_bytes 4 m))
      | RV_IType \<Rightarrow>
          (let m = push_bit 20 v
           in and_or dest (to_le_bytes 4 ITYPE_IMMEDIATE_MASK) (to_le_bytes 4 (ucast m :: u32)))
      | RV_SType \<Rightarrow>
          (let m = push_bit 7 (xbits v 0 5) OR push_bit 25 (xbits v 5 12)
           in and_or dest (to_le_bytes 4 STYPE_IMMEDIATE_MASK) (to_le_bytes 4 (ucast m :: u32)))
      | RV_BType \<Rightarrow>
          (let m = push_bit 7 (xbit v 11) OR push_bit 8 (xbits v 1 5)
                OR push_bit 25 (xbits v 5 11) OR push_bit 31 (xbit v 12)
           in and_or dest (to_le_bytes 4 BTYPE_IMMEDIATE_MASK) (to_le_bytes 4 (ucast m :: u32)))
      | RV_JType \<Rightarrow>
          (let m = push_bit 12 (xbits v 12 20) OR push_bit 20 (xbit v 11)
                OR push_bit 21 (xbits v 1 11) OR push_bit 31 (xbit v 20)
           in and_or dest (to_le_bytes 4 JTYPE_IMMEDIATE_MASK) (to_le_bytes 4 (ucast m :: u32)))
      | RV_CbType \<Rightarrow>
          (let m = push_bit 2 (xbit v 5) OR push_bit 3 (xbits v 1 3) OR push_bit 5 (xbits v 6 8)
                OR push_bit 10 (xbits v 3 5) OR push_bit 12 (xbit v 8)
           in and_or dest (to_le_bytes 2 CBTYPE_IMMEDIATE_MASK) (take 2 (to_le_bytes 8 m)))
      | RV_CjType \<Rightarrow>
          (let m = push_bit 2 (xbit v 5) OR push_bit 3 (xbits v 1 4) OR push_bit 6 (xbit v 7)
                OR push_bit 7 (xbit v 6) OR push_bit 8 (xbit v 10) OR push_bit 9 (xbits v 8 10)
                OR push_bit 11 (xbit v 4) OR push_bit 12 (xbit v 11)
           in and_or dest (to_le_bytes 2 CJTYPE_IMMEDIATE_MASK) (take 2 (to_le_bytes 8 m)))
      | RV_CluiType \<Rightarrow>
          (let hi20 = drop_bit 12 (v + 0x800);
               m = push_bit 2 (hi20 AND 0x1f) OR push_bit 12 (drop_bit 5 hi20 AND 1)
           in and_or dest (to_le_bytes 2 CLUITYPE_IMMEDIATE_MASK) (to_le_bytes 2 (ucast m :: u16))))"

definition riscv_write_to_value ::
    "riscv_instruction \<Rightarrow> u64 \<Rightarrow> bool \<Rightarrow> bytes \<Rightarrow> bytes option" where
  "riscv_write_to_value i v negative dest =
     (if i = RV_UiType then
        if length dest < 4 then None
        else Option.bind (riscv_write_single RV_UType v (take 4 dest)) (\<lambda>hi.
               map_option ((@) hi) (riscv_write_single RV_IType v (drop 4 dest)))
      else riscv_write_single i v dest)"

definition u16_from_bytes :: "bytes \<Rightarrow> u16 option" where
  "u16_from_bytes bs = map_option from_le_bytes (first_chunk 2 bs)"

definition riscv_read_single :: "riscv_instruction \<Rightarrow> bytes \<Rightarrow> (u64 \<times> bool) option" where
  "riscv_read_single i bs =
     (case i of
        RV_UiType \<Rightarrow> None
      | RV_UType \<Rightarrow> Option.bind (u32_from_slice bs) (\<lambda>value.
          let imm = drop_bit 12 value AND 0xfffff
          in Some (sext32 12 imm - 0x800, False))
      | RV_IType \<Rightarrow> Option.bind (u32_from_slice bs) (\<lambda>value.
          let imm = drop_bit 20 value AND 0xfff
          in Some (sext32 20 imm, sneg32 20 imm))
      | RV_SType \<Rightarrow> Option.bind (u32_from_slice bs) (\<lambda>value.
          let imm_low = drop_bit 7 value AND 0x1f;
              imm_high = drop_bit 25 value AND 0x7f;
              imm = push_bit 5 imm_high OR imm_low
          in Some (sext32 20 imm, sneg32 20 imm))
      | RV_BType \<Rightarrow> Option.bind (u32_from_slice bs) (\<lambda>value.
          let imm11 = drop_bit 7 value AND 1;
              imm1_4 = drop_bit 8 value AND 0xf;
              imm5_10 = drop_bit 25 value AND 0x3f;
              imm12 = drop_bit 31 value AND 1;
              imm = push_bit 12 imm12 OR push_bit 11 imm11 OR push_bit 5 imm5_10 OR push_bit 1 imm1_4
          in Some (sext32 19 imm, sneg32 19 imm))
      | RV_JType \<Rightarrow> Option.bind (u32_from_slice bs) (\<lambda>value.
          let imm12_19 = drop_bit 12 value AND 0xff;
              imm11 = drop_bit 20 value AND 1;
              imm1_10 = drop_bit 21 value AND 0x3ff;
              imm20 = drop_bit 31 value AND 1;
              imm = push_bit 20 imm20 OR push_bit 12 imm12_19 OR push_bit 11 imm11 OR push_bit 1 imm1_10
          in Some (sext32 11 imm, sneg32 11 imm))
      | RV_CbType \<Rightarrow> Option.bind (u16_from_bytes bs) (\<lambda>value.
          let imm5 = drop_bit 2 value AND 1;
              imm1_2 = drop_bit 3 value AND 3;
              imm6_7 = drop_bit 5 value AND 3;
              imm3_4 = drop_bit 10 value AND 3;
              imm8 = drop_bit 12 value AND 1;
              imm = push_bit 8 imm8 OR push_bit 6 imm6_7 OR push_bit 5 imm5 OR push_bit 3 imm3_4
                 OR push_bit 1 imm1_2
          in Some (sext32 23 (ucast imm), sneg32 23 (ucast imm)))
      | RV_CjType \<Rightarrow> Option.bind (u16_from_bytes bs) (\<lambda>value.
          let imm5 = drop_bit 2 value AND 1;
              imm1_3 = drop_bit 3 value AND 7;
              imm7 = drop_bit 6 value AND 1;
              imm6 = drop_bit 7 value AND 1;
              imm10 = drop_bit 8 value AND 1;
              imm8_9 = drop_bit 9 value AND 3;
              imm4 = drop_bit 11 value AND 1;
              imm11 = drop_bit 12 value AND 1;
              imm = push_bit 11 imm11 OR push_bit 10 imm10 OR push_bit 8 imm8_9 OR push_bit 7 imm7
                 OR push_bit 6 imm6 OR push_bit 5 imm5 OR push_bit 4 imm4 OR push_bit 1 imm1_3
          in Some (sext32 20 (ucast imm), sneg32 20 (ucast imm)))
      | RV_CluiType \<Rightarrow> Option.bind (u16_from_bytes bs) (\<lambda>value.
          let nzimm4_0 = drop_bit 2 value AND 0x1f;
              nzimm5 = drop_bit 12 value AND 1;
              nzimm = push_bit 5 nzimm5 OR nzimm4_0;
              hi20 = sext32 26 (ucast nzimm);
              extracted = push_bit 12 hi20 - 0x800
          in Some (extracted, sint hi20 < 0)))"

definition riscv_read_value :: "riscv_instruction \<Rightarrow> bytes \<Rightarrow> (u64 \<times> bool) option" where
  "riscv_read_value i bs =
     (if i = RV_UiType then
        if length bs < 4 then None
        else Option.bind (riscv_read_single RV_UType (take 4 bs)) (\<lambda>(hi, _).
               Option.bind (riscv_read_single RV_IType (drop 4 bs)) (\<lambda>(lo, _).
                 Some (push_bit 12 hi OR lo, False)))
      else riscv_read_single i bs)"

subsection \<open>Immediate fields\<close>

fun rv_fields :: "riscv_instruction \<Rightarrow> field list" where
  "rv_fields RV_UiType = []"
| "rv_fields RV_UType = [(12, 20, 12)]"
| "rv_fields RV_IType = [(0, 12, 20)]"
| "rv_fields RV_SType = [(0, 5, 7), (5, 7, 25)]"
| "rv_fields RV_BType = [(11, 1, 7), (1, 4, 8), (5, 6, 25), (12, 1, 31)]"
| "rv_fields RV_JType = [(12, 8, 12), (11, 1, 20), (1, 10, 21), (20, 1, 31)]"
| "rv_fields RV_CbType = [(5, 1, 2), (1, 2, 3), (6, 2, 5), (3, 2, 10), (8, 1, 12)]"
| "rv_fields RV_CjType =
     [(5, 1, 2), (1, 3, 3), (7, 1, 6), (6, 1, 7), (10, 1, 8), (8, 2, 9), (4, 1, 11), (11, 1, 12)]"
| "rv_fields RV_CluiType = [(0, 5, 2), (5, 1, 12)]"

definition rv_bytes :: "riscv_instruction \<Rightarrow> nat" where
  "rv_bytes i = (if i = RV_CbType \<or> i = RV_CjType \<or> i = RV_CluiType then 2 else 4)"

text \<open>The value whose bits are distributed: the upper immediates round by \<open>0x800\<close> first.\<close>

definition rv_source :: "riscv_instruction \<Rightarrow> u64 \<Rightarrow> u64" where
  "rv_source i v =
     (if i = RV_UType then v + 0x800
      else if i = RV_CluiType then drop_bit 12 (v + 0x800) else v)"

interpretation rv: field_layout "rv_fields i" "TYPE(32)" for i
  by unfold_locales (cases i; simp)+

lemma ucast_scatter_rv: "(ucast (scatter (rv_fields i) v :: u64) :: u32) = scatter (rv_fields i) (ucast v)"
  by (rule ucast_scatter) (simp_all add: rv.within [simplified])

text \<open>Each mask constant keeps exactly the bits outside the immediate of its format.\<close>

lemma riscv_keep_masks:
  "UTYPE_IMMEDIATE_MASK = NOT (dst_mask (rv_fields RV_UType))"
  "ITYPE_IMMEDIATE_MASK = NOT (dst_mask (rv_fields RV_IType))"
  "STYPE_IMMEDIATE_MASK = NOT (dst_mask (rv_fields RV_SType))"
  "BTYPE_IMMEDIATE_MASK = NOT (dst_mask (rv_fields RV_BType))"
  "JTYPE_IMMEDIATE_MASK = NOT (dst_mask (rv_fields RV_JType))"
  "CBTYPE_IMMEDIATE_MASK = NOT (dst_mask (rv_fields RV_CbType))"
  "CJTYPE_IMMEDIATE_MASK = NOT (dst_mask (rv_fields RV_CjType))"
  "CLUITYPE_IMMEDIATE_MASK = NOT (dst_mask (rv_fields RV_CluiType))"
  by (simp_all add: riscv_masks mask_eq_exp_minus_1)

lemma rv_write32:
  assumes "i \<in> {RV_UType, RV_IType, RV_SType, RV_BType, RV_JType}"
  shows "riscv_write_single i v (to_le_bytes 4 x @ rest) =
    Some (to_le_bytes 4 ((x AND NOT (dst_mask (rv_fields i)))
                         OR scatter (rv_fields i) (ucast (rv_source i v)) :: u32) @ rest)"
proof -
  have u: "push_bit 12 (ucast (take_bit 20 (drop_bit 12 y)) :: u32) = push_bit 12 (take_bit 20 (drop_bit 12 (ucast y)))"
    for y :: u64
    by (rule bit_word_eqI) (auto simp: bit_push_bit_iff bit_unsigned_iff bit_take_bit_iff bit_drop_bit_eq)
  have im: "(ucast (push_bit 20 v) :: u32) = push_bit 20 (take_bit 12 (ucast v))"
    by (rule bit_word_eqI) (auto simp: bit_push_bit_iff bit_unsigned_iff bit_take_bit_iff)
  show ?thesis
    using assms ucast_scatter_rv [of i v, symmetric]
    by (elim insertE emptyE)
       (simp_all add: riscv_write_single_def Let_def and_or_word riscv_keep_masks rv_source_def u im
          xbits_eq xbit_eq or.assoc del: dst_mask.simps)
qed

definition rvc_fields :: "riscv_instruction \<Rightarrow> field list" where
  "rvc_fields i = (if rv_bytes i = 2 then rv_fields i else [])"

interpretation rvc: field_layout "rvc_fields i" "TYPE(16)" for i
  by unfold_locales (cases i; simp add: rvc_fields_def rv_bytes_def)+

lemma rvc_fields_simps:
  "rvc_fields RV_CbType = rv_fields RV_CbType"
  "rvc_fields RV_CjType = rv_fields RV_CjType"
  "rvc_fields RV_CluiType = rv_fields RV_CluiType"
  by (simp_all add: rvc_fields_def rv_bytes_def)

lemma ucast_scatter_rvc: "(ucast (scatter (rvc_fields i) v :: u64) :: u16) = scatter (rvc_fields i) (ucast v)"
  by (rule ucast_scatter) (simp_all add: rvc.within [simplified])

lemma rv_write16:
  assumes "i \<in> {RV_CbType, RV_CjType, RV_CluiType}"
  shows "riscv_write_single i v (to_le_bytes 2 x @ rest) =
    Some (to_le_bytes 2 ((x AND NOT (dst_mask (rvc_fields i)))
                         OR scatter (rvc_fields i) (ucast (rv_source i v)) :: u16) @ rest)"
proof -
  have down: "take 2 (to_le_bytes 8 m) = to_le_bytes 2 (ucast m :: u16)" for m :: u64
    by (simp add: take_to_le_bytes to_le_bytes_ucast_down)
  show ?thesis
    using assms ucast_scatter_rvc [of i "rv_source i v", symmetric]
    by (elim insertE emptyE)
       (simp_all add: riscv_write_single_def Let_def and_or_word riscv_keep_masks rv_source_def
          rvc_fields_simps down xbits_eq xbit_eq and_ones or.assoc del: dst_mask.simps)
qed

subsection \<open>What the decoders read\<close>

text \<open>The width of the immediate, counting the implicit zero bit of jumps and branches.\<close>

fun rv_imm_bits :: "riscv_instruction \<Rightarrow> nat" where
  "rv_imm_bits RV_BType = 13"
| "rv_imm_bits RV_JType = 21"
| "rv_imm_bits RV_CbType = 9"
| "rv_imm_bits RV_CjType = 12"
| "rv_imm_bits RV_CluiType = 6"
| "rv_imm_bits RV_UType = 32"
| "rv_imm_bits _ = 12"

definition rv_branch :: "riscv_instruction \<Rightarrow> bool" where
  "rv_branch i \<longleftrightarrow> i \<in> {RV_BType, RV_JType, RV_CbType, RV_CjType}"

lemma rv_read32:
  assumes "i \<in> {RV_IType, RV_SType, RV_BType, RV_JType}"
  shows "riscv_read_single i (to_le_bytes 4 w @ rest) =
    Some (signed_take_bit (rv_imm_bits i - 1) (ucast (gather (rv_fields i) (w :: u32))),
          bit (gather (rv_fields i) w) (rv_imm_bits i - 1))"
  using assms
  by (elim insertE emptyE)
     (simp_all add: riscv_read_single_def Let_def slice_simps and_ones sext32_eq sneg32_eq
        or.assoc or.commute or.left_commute)

lemma u16_from_bytes_word: "u16_from_bytes (to_le_bytes 2 (x :: u16) @ rest) = Some x"
  by (simp add: u16_from_bytes_def first_chunk_def from_le_bytes_to_le_bytes)

lemma rv_read16:
  assumes "i \<in> {RV_CbType, RV_CjType}"
  shows "riscv_read_single i (to_le_bytes 2 w @ rest) =
    Some (signed_take_bit (rv_imm_bits i - 1) (ucast (gather (rvc_fields i) (w :: u16))),
          bit (gather (rvc_fields i) w) (rv_imm_bits i - 1))"
  using assms
  by (elim insertE emptyE)
     (simp_all add: riscv_read_single_def Let_def u16_from_bytes_word rvc_fields_simps and_ones
        sext32_eq sneg32_eq unsigned_ucast_eq bit_unsigned_iff signed_take_bit_take_bit or.assoc or.commute or.left_commute)

lemma rv_src_mask:
  assumes "rv_branch i \<or> i = RV_IType \<or> i = RV_SType"
  shows "(src_mask (rv_fields i) :: u64) =
    (if rv_branch i then mask (rv_imm_bits i) AND NOT 1 else mask (rv_imm_bits i))"
  using assms by (cases i) (simp_all add: rv_branch_def mask_eq_exp_minus_1)

lemma rv_fit_masked:
  fixes v :: u64
  assumes i: "rv_branch i \<or> i = RV_IType \<or> i = RV_SType"
    and fit: "signed_take_bit (rv_imm_bits i - 1) v = v" and even: "rv_branch i \<longrightarrow> even v"
  shows "signed_take_bit (rv_imm_bits i - 1) (v AND src_mask (rv_fields i)) = v"
proof -
  have pos: "Suc (rv_imm_bits i - 1) = rv_imm_bits i" by (cases i) simp_all
  have "v AND src_mask (rv_fields i) = take_bit (rv_imm_bits i) v"
  proof (cases "rv_branch i")
    case True
    have "v AND NOT 1 = v"
    proof (rule bit_word_eqI)
      fix k
      assume "k < LENGTH(64)"
      moreover have "\<not> bit v 0" using True even by (simp add: bit_0)
      ultimately show "bit (v AND NOT 1) k = bit v k"
        by (cases k) (simp_all only: bit_and_iff bit_not_iff bit_1_iff, simp_all)
    qed
    moreover have "v AND (mask (rv_imm_bits i) AND NOT 1) = (v AND NOT 1) AND mask (rv_imm_bits i)"
      by (simp only: and.assoc and.commute and.left_commute)
    ultimately show ?thesis
      using True i by (simp only: rv_src_mask if_True take_bit_eq_mask)
  next
    case False
    with i show ?thesis by (simp add: rv_src_mask take_bit_eq_mask)
  qed
  then show ?thesis using fit pos by (metis signed_take_bit_and_mask)
qed

subsection \<open>The encoder and the decoder agree\<close>

lemma bit_and_src_mask_top:
  fixes v :: u64
  assumes "rv_branch i \<or> i = RV_IType \<or> i = RV_SType"
  shows "bit (src_mask (rv_fields i) :: u64) (rv_imm_bits i - 1)"
  using assms by (cases i) (simp_all add: rv_branch_def rv_src_mask bit_simps)

lemma riscv_roundtrip_single:
  assumes i: "rv_branch i \<or> i = RV_IType \<or> i = RV_SType" and len: "rv_bytes i \<le> length dest"
  shows "\<exists>out. riscv_write_single i v dest = Some out
    \<and> riscv_read_single i out = Some (signed_take_bit (rv_imm_bits i - 1) (v AND src_mask (rv_fields i)),
                                     bit v (rv_imm_bits i - 1))
    \<and> drop (rv_bytes i) out = drop (rv_bytes i) dest"
proof (cases "rv_bytes i = 2")
  case False
  then have four: "rv_bytes i = 4" by (simp add: rv_bytes_def split: if_splits)
  have i': "i \<in> {RV_IType, RV_SType, RV_BType, RV_JType}"
    using i False by (auto simp: rv_branch_def rv_bytes_def)
  then have src: "rv_source i v = v" by (auto simp: rv_source_def)
  obtain x :: u32 where x: "dest = to_le_bytes 4 x @ drop 4 dest"
    using bytes_as_word [of 4 dest, where 'a = 32] len four by auto
  let ?w = "(x AND NOT (dst_mask (rv_fields i))) OR scatter (rv_fields i) (ucast v)"
  let ?out = "to_le_bytes 4 ?w @ drop 4 dest"
  have "riscv_write_single i v dest = Some ?out"
    using rv_write32 [of i v x "drop 4 dest"] i' src x by auto
  moreover have "(ucast (gather (rv_fields i) ?w) :: u64) = v AND src_mask (rv_fields i)"
    by (simp only: rv.gather_write) (rule ucast_and_src_mask; simp add: rv.within [simplified])
  moreover have "bit (gather (rv_fields i) ?w) (rv_imm_bits i - 1) \<longleftrightarrow> bit v (rv_imm_bits i - 1)"
    using i' by (elim insertE emptyE) (simp_all only: rv.gather_write, simp_all add: bit_simps)
  ultimately show ?thesis using rv_read32 [OF i', of ?w "drop 4 dest"] four by auto
next
  case True
  have i': "i \<in> {RV_CbType, RV_CjType}"
    using i True by (auto simp: rv_branch_def rv_bytes_def split: if_splits)
  then have src: "rv_source i v = v" and flds: "rvc_fields i = rv_fields i"
    by (auto simp: rv_source_def rvc_fields_def rv_bytes_def)
  obtain x :: u16 where x: "dest = to_le_bytes 2 x @ drop 2 dest"
    using bytes_as_word [of 2 dest, where 'a = 16] len True by auto
  let ?w = "(x AND NOT (dst_mask (rvc_fields i))) OR scatter (rvc_fields i) (ucast v)"
  let ?out = "to_le_bytes 2 ?w @ drop 2 dest"
  have "riscv_write_single i v dest = Some ?out"
    using rv_write16 [of i v x "drop 2 dest"] i' src x by auto
  moreover have "(ucast (gather (rvc_fields i) ?w) :: u64) = v AND src_mask (rv_fields i)"
    by (simp only: rvc.gather_write flds [symmetric])
       (rule ucast_and_src_mask; simp add: rvc.within [simplified])
  moreover have "bit (gather (rvc_fields i) ?w) (rv_imm_bits i - 1) \<longleftrightarrow> bit v (rv_imm_bits i - 1)"
    using i' by (elim insertE emptyE) (simp_all only: rvc.gather_write, simp_all add: rvc_fields_simps bit_simps)
  ultimately show ?thesis using rv_read16 [OF i', of ?w "drop 2 dest"] True by auto
qed

lemma rv_take_bit_src_mask:
  fixes v :: u64
  assumes "rv_branch i \<or> i = RV_IType \<or> i = RV_SType" and "rv_imm_bits i \<le> k"
  shows "take_bit k v AND src_mask (rv_fields i) = v AND src_mask (rv_fields i)"
  unfolding rv_src_mask [OF assms(1)]
  by (rule bit_word_eqI) (use assms(2) in \<open>auto simp: bit_and_iff bit_take_bit_iff bit_mask_iff\<close>)

text \<open>
  A branch, jump, load or store offset that is representable (in the signed range of the
  immediate, and even for branches and jumps) is written into any instruction and read back
  unchanged, with its sign; bytes after the instruction are untouched.
\<close>

lemma riscv_insn_roundtrip:
  assumes "rv_branch i \<or> i = RV_IType \<or> i = RV_SType" and "rv_bytes i \<le> length dest"
    and "signed_take_bit (rv_imm_bits i - 1) v = v" and "rv_branch i \<longrightarrow> even v" and "rv_imm_bits i \<le> k"
  shows "\<exists>out. riscv_write_to_value i (take_bit k v) negative dest = Some out
    \<and> riscv_read_value i out = Some (v, sint v < 0)
    \<and> drop (rv_bytes i) out = drop (rv_bytes i) dest"
proof -
  have nu: "i \<noteq> RV_UiType" and small: "rv_imm_bits i - 1 < 64" and pos: "0 < rv_imm_bits i"
    using assms(1) by (auto simp: rv_branch_def)
  have "bit (take_bit k v) (rv_imm_bits i - 1) \<longleftrightarrow> sint v < 0"
    using bit_signed_fit [OF assms(3) small] assms(5) pos by (auto simp: bit_take_bit_iff)
  with riscv_roundtrip_single [OF assms(1,2), of "take_bit k v"] rv_fit_masked [OF assms(1,3,4)] nu
    rv_take_bit_src_mask [OF assms(1,5), of v]
  show ?thesis by (auto simp: riscv_write_to_value_def riscv_read_value_def)
qed

subsection \<open>Upper and lower parts\<close>

text \<open>
  What a pair of an upper-immediate instruction (\<^verbatim>\<open>auipc\<close>, \<^verbatim>\<open>lui\<close>) and a following \<^verbatim>\<open>jalr\<close> or
  load computes on RV64: the sign-extended upper immediate plus the sign-extended 12-bit lower
  immediate.
\<close>

definition rv_pair_offset :: "bytes \<Rightarrow> u64 option" where
  "rv_pair_offset bs =
     Option.bind (u32_from_slice bs) (\<lambda>hi.
     Option.bind (u32_from_slice (drop 4 bs)) (\<lambda>lo.
       Some (scast (hi AND NOT (mask 12)) + signed_take_bit 11 (ucast (drop_bit 20 lo)))))"

lemma signed_take_bit_shift:
  fixes v :: u64
  shows "signed_take_bit 11 v = take_bit 12 (v + 0x800) - 0x800"
proof -
  have "take_bit 64 (signed_take_bit 11 (take_bit 64 k)) = take_bit 64 (take_bit 12 (k + 0x800) - 0x800)"
    for k :: int
    using signed_take_bit_eq_take_bit_shift [of 11 k] by (simp add: signed_take_bit_take_bit)
  then show ?thesis by transfer simp
qed

lemma hi_part_sext:
  fixes y :: u64
  assumes "signed_take_bit 31 y = y"
  shows "(scast ((ucast y :: u32) AND NOT (mask 12)) :: u64) = y AND NOT (mask 12)"
proof (rule bit_word_eqI)
  fix i
  assume i: "i < LENGTH(64)"
  have "bit y i \<longleftrightarrow> bit y (min 31 i)"
    using assms i by (metis bit_signed_take_bit_iff possible_bit_word)
  then show "bit (scast ((ucast y :: u32) AND NOT (mask 12)) :: u64) i = bit (y AND NOT (mask 12)) i"
    using i by (cases "i < 31") (auto simp: bit_signed_iff bit_and_iff bit_not_iff bit_mask_iff
        bit_unsigned_iff min_def)
qed

lemma hi_part_signed:
  fixes y :: u64
  shows "(scast ((ucast y :: u32) AND NOT (mask 12)) :: u64) = signed_take_bit 31 y AND NOT (mask 12)"
proof -
  have "(ucast (signed_take_bit 31 y) :: u32) = ucast y"
    by (rule bit_word_eqI) (simp add: bit_unsigned_iff bit_signed_take_bit_iff)
  then show ?thesis using hi_part_sext [of "signed_take_bit 31 y"] by simp
qed

lemma rv_pair_sum:
  fixes v :: u64
  assumes "- (2 ^ 31) \<le> sint v" and "sint v < 2 ^ 32"
  shows "scast ((ucast (v + 0x800) :: u32) AND NOT (mask 12)) + signed_take_bit 11 v
    = (if sint v < 2 ^ 31 - 0x800 then v else v - 2 ^ 32)"
proof -
  let ?y = "signed_take_bit 31 (v + 0x800)"
  have y: "?y = (if sint v < 2 ^ 31 - 0x800 then v + 0x800 else v + 0x800 - 2 ^ 32)"
    using signed_take_bit_round [of 31 "0x800" v] assms by simp
  have "take_bit 12 ?y = take_bit 12 (v + 0x800)"
    by (rule take_bit_signed_take_bit) simp
  then have "scast ((ucast (v + 0x800) :: u32) AND NOT (mask 12)) + signed_take_bit 11 v = ?y - 0x800"
    using take_bit_plus_rest [of 12 ?y] unfolding hi_part_signed
    by (simp add: signed_take_bit_shift algebra_simps)
  then show ?thesis by (simp add: y)
qed

lemma riscv_ui_write:
  "riscv_write_to_value RV_UiType v n (to_le_bytes 4 x @ to_le_bytes 4 (y :: u32) @ rest) =
     Some (to_le_bytes 4 ((x AND NOT (dst_mask (rv_fields RV_UType)))
                          OR scatter (rv_fields RV_UType) (ucast (v + 0x800)) :: u32)
        @ to_le_bytes 4 ((y AND NOT (dst_mask (rv_fields RV_IType)))
                          OR scatter (rv_fields RV_IType) (ucast v)) @ rest)"
  using rv_write32 [of RV_UType v x "[]"] rv_write32 [of RV_IType v y rest]
  by (simp add: riscv_write_to_value_def rv_source_def del: rv_fields.simps)

lemma utype_imm:
  fixes x z :: u32
  shows "((x AND NOT (dst_mask (rv_fields RV_UType))) OR scatter (rv_fields RV_UType) z) AND NOT (mask 12)
    = z AND NOT (mask 12)"
  by (rule bit_word_eqI) (auto simp: bit_simps)

lemma itype_imm:
  fixes y z :: u32
  shows "drop_bit 20 ((y AND NOT (dst_mask (rv_fields RV_IType))) OR scatter (rv_fields RV_IType) z)
    = take_bit 12 z"
  by (rule bit_word_eqI) (auto simp: bit_simps)

lemma riscv_ui_pair_offset:
  assumes "8 \<le> length dest"
  shows "\<exists>out. riscv_write_to_value RV_UiType v n dest = Some out
    \<and> rv_pair_offset out =
        Some (scast ((ucast (v + 0x800) :: u32) AND NOT (mask 12)) + signed_take_bit 11 v)
    \<and> drop 8 out = drop 8 dest"
proof -
  obtain x :: u32 where x: "dest = to_le_bytes 4 x @ drop 4 dest"
    using bytes_as_word [of 4 dest, where 'a = 32] assms by auto
  obtain y :: u32 where y: "drop 4 dest = to_le_bytes 4 y @ drop 4 (drop 4 dest)"
    by (rule bytes_as_word [of 4 "drop 4 dest", where 'a = 32]) (use assms in auto)
  have dest: "dest = to_le_bytes 4 x @ to_le_bytes 4 y @ drop 8 dest"
    using x y by simp
  have "(ucast (take_bit 12 (ucast v :: u32)) :: u64) = take_bit 12 v"
    by (simp add: unsigned_take_bit_eq unsigned_ucast_eq take_bit_take_bit)
  then show ?thesis
    using riscv_ui_write [of v n x y "drop 8 dest"] dest
    by (auto simp: rv_pair_offset_def slice_simps utype_imm itype_imm signed_take_bit_and_mask [where n = 11, simplified]
        simp del: rv_fields.simps drop_bit_or drop_bit_and)
qed

text \<open>
  The pair written for \<^verbatim>\<open>R_RISCV_CALL\<close> and \<^verbatim>\<open>R_RISCV_CALL_PLT\<close> computes the relocation value
  when an \<^verbatim>\<open>auipc\<close> pair can reach it; above that it wraps by \<^verbatim>\<open>2 ^ 32\<close>.
\<close>

lemma riscv_call_pair_value:
  assumes "8 \<le> length dest" and "- (2 ^ 31) \<le> sint v" and "sint v < 2 ^ 32"
  shows "\<exists>out. riscv_write_to_value RV_UiType v negative dest = Some out
    \<and> rv_pair_offset out = Some (if sint v < 2 ^ 31 - 0x800 then v else v - 2 ^ 32)
    \<and> drop 8 out = drop 8 dest"
  using riscv_ui_pair_offset [OF assms(1), of v negative] unfolding rv_pair_sum [OF assms(2,3)] .

lemma riscv_call_pair_correct:
  assumes "8 \<le> length dest" and "- (2 ^ 31) \<le> sint v" and "sint v < 2 ^ 31 - 0x800"
  shows "\<exists>out. riscv_write_to_value RV_UiType v negative dest = Some out
    \<and> rv_pair_offset out = Some v \<and> drop 8 out = drop 8 dest"
  using riscv_call_pair_value [OF assms(1,2)] assms(3) by simp

end
