(* ===== verification/LoongArch64_Insn.thy ===== *)
theory LoongArch64_Insn
  imports Elf_Types
begin

unbundle bit_operations_syntax

text \<open>
  \<^verbatim>\<open>linker-utils/src/loongarch64.rs\<close>, \<^verbatim>\<open>impl LoongArch64Instruction\<close> and
  \<^verbatim>\<open>highest_relocation_with_bias\<close>. The single-instruction formats round trip; the two-instruction
  call is related to the displacement that \<^verbatim>\<open>pcaddu18i\<close> and \<^verbatim>\<open>jirl\<close> compute.
\<close>

definition CALL30_CLEAR :: u64 where
  "CALL30_CLEAR = push_bit 32 0xFFF803FF OR 0xFE00001F"

definition CALL36_CLEAR :: u64 where
  "CALL36_CLEAR = push_bit 32 0xFC0003FF OR 0xFE00001F"

definition loongarch64_write_to_value ::
    "loongarch64_instruction \<Rightarrow> u64 \<Rightarrow> bool \<Rightarrow> bytes \<Rightarrow> bytes option" where
  "loongarch64_write_to_value i v negative dest =
     (case i of
        LA_Shift5 \<Rightarrow>
          and_or dest (to_le_bytes 4 (0xFE00001F :: u32)) (to_le_bytes 4 (ucast (push_bit 5 v) :: u32))
      | LA_Shift10 \<Rightarrow>
          and_or dest (to_le_bytes 4 (0xFFC003FF :: u32)) (to_le_bytes 4 (ucast (push_bit 10 v) :: u32))
      | LA_Branch26 \<Rightarrow>
          (let low_part = push_bit 10 (v AND 0xffff);
               high_part = drop_bit 16 v
           in and_or dest (to_le_bytes 4 (0xFC000000 :: u32))
                          (to_le_bytes 4 (ucast (low_part OR high_part) :: u32)))
      | LA_Branch21 \<Rightarrow>
          (let low_part = push_bit 10 (v AND 0xffff);
               high_part = drop_bit 16 v
           in and_or dest (to_le_bytes 4 (0xFC0003E0 :: u32))
                          (to_le_bytes 4 (ucast (low_part OR high_part) :: u32)))
      | LA_Call30 \<Rightarrow>
          (let low_part = push_bit (32 + 10) (v AND 0x1ff);
               high_part = push_bit 5 (v AND NOT 0x1ff)
           in and_or dest (to_le_bytes 8 CALL30_CLEAR) (to_le_bytes 8 (low_part OR high_part)))
      | LA_Call36 \<Rightarrow>
          (let low_part = push_bit (32 + 10) (v AND 0xffff);
               high_part = push_bit 5 (drop_bit 16 (v + 0x8000))
           in and_or dest (to_le_bytes 8 CALL36_CLEAR) (to_le_bytes 8 (low_part OR high_part))))"

definition loongarch64_read_value :: "loongarch64_instruction \<Rightarrow> bytes \<Rightarrow> (u64 \<times> bool) option" where
  "loongarch64_read_value i bs =
     (case i of
        LA_Shift5 \<Rightarrow> Option.bind (u32_from_slice bs) (\<lambda>value.
          Some (ucast (drop_bit 5 value AND 0xfffff), False))
      | LA_Shift10 \<Rightarrow> Option.bind (u32_from_slice bs) (\<lambda>value.
          Some (ucast (drop_bit 10 value AND 0xfff), False))
      | LA_Branch26 \<Rightarrow> Option.bind (u32_from_slice bs) (\<lambda>value.
          let low_part = drop_bit 10 value AND 0xffff;
              high_part = value AND 0x3ff;
              imm = push_bit 16 high_part OR low_part
          in Some (sext32 6 imm, sneg32 6 imm))
      | LA_Branch21 \<Rightarrow> Option.bind (u32_from_slice bs) (\<lambda>value.
          let low_part = drop_bit 10 value AND 0xffff;
              high_part = value AND 0x1f;
              imm = push_bit 16 high_part OR low_part
          in Some (sext32 11 imm, sneg32 11 imm))
      | LA_Call30 \<Rightarrow> Option.bind (u64_from_slice bs) (\<lambda>value.
          let insn1 = (ucast (drop_bit 32 value) :: u32);
              insn2 = (ucast value :: u32);
              high_part = push_bit 9 (drop_bit 5 insn1 AND 0x7ffff);
              low_part = drop_bit 10 insn2 AND 0x1ff
          in Some (ucast (high_part OR low_part), False))
      | LA_Call36 \<Rightarrow> Option.bind (u64_from_slice bs) (\<lambda>value.
          let insn1 = (ucast value :: u32);
              insn2 = (ucast (drop_bit 32 value) :: u32);
              high_part = (ucast (drop_bit 5 insn1 AND 0xfffff) :: u64);
              low_part = (ucast (drop_bit 10 insn2 AND 0xffff) :: u64)
          in Some (((push_bit 16 high_part - 0x8000) AND 0xffffffff) OR low_part, False)))"

definition highest_relocation_with_bias :: "u64 \<Rightarrow> u64 \<Rightarrow> u64" where
  "highest_relocation_with_bias symbol_with_addend pc =
     ((symbol_with_addend + SIZE_2GB
         + (if symbol_with_addend AND SIZE_2KB \<noteq> 0 then SIZE_4KB - SIZE_4GB else 0))
       AND NOT PAGE_MASK_4KB)
     - ((pc - 8) AND NOT PAGE_MASK_4KB)"

subsection \<open>Immediate fields\<close>

fun la_fields :: "loongarch64_instruction \<Rightarrow> field list" where
  "la_fields LA_Shift5 = [(0, 20, 5)]"
| "la_fields LA_Shift10 = [(0, 12, 10)]"
| "la_fields LA_Branch26 = [(0, 16, 10), (16, 10, 0)]"
| "la_fields LA_Branch21 = [(0, 16, 10), (16, 5, 0)]"
| "la_fields LA_Call30 = []"
| "la_fields LA_Call36 = []"

fun la_width :: "loongarch64_instruction \<Rightarrow> nat" where
  "la_width LA_Shift5 = 20"
| "la_width LA_Shift10 = 12"
| "la_width LA_Branch26 = 26"
| "la_width LA_Branch21 = 21"
| "la_width LA_Call30 = 30"
| "la_width LA_Call36 = 36"

definition la_single :: "loongarch64_instruction \<Rightarrow> bool" where
  "la_single i \<longleftrightarrow> i \<noteq> LA_Call30 \<and> i \<noteq> LA_Call36"

interpretation la: field_layout "la_fields i" "TYPE(32)" for i
  by unfold_locales (cases i; simp)+

lemma la_keep_masks:
  "(0xFE00001F :: u32) = NOT (dst_mask (la_fields LA_Shift5))"
  "(0xFFC003FF :: u32) = NOT (dst_mask (la_fields LA_Shift10))"
  "(0xFC000000 :: u32) = NOT (dst_mask (la_fields LA_Branch26))"
  "(0xFC0003E0 :: u32) = NOT (dst_mask (la_fields LA_Branch21))"
  by (simp_all add: mask_eq_exp_minus_1)

lemma la_src_mask: "la_single i \<Longrightarrow> src_mask (la_fields i) = (mask (la_width i) :: u64)"
  by (cases i) (simp_all add: la_single_def mask_eq_exp_minus_1)

lemma la_write:
  assumes "la_single i" and fit: "take_bit (la_width i) v = v"
  shows "loongarch64_write_to_value i v n (to_le_bytes 4 x @ rest) =
    Some (to_le_bytes 4 ((x AND NOT (dst_mask (la_fields i)))
                         OR scatter (la_fields i) (ucast v) :: u32) @ rest)"
proof -
  have push: "(ucast (push_bit k v) :: u32) = push_bit k (ucast v)" for k
    by (rule bit_word_eqI) (auto simp: bit_push_bit_iff bit_unsigned_iff)
  have trunc: "take_bit (la_width i) (ucast v :: u32) = ucast v"
    using fit by (metis unsigned_take_bit_eq)
  have sc: "(ucast (scatter (la_fields i) v :: u64) :: u32) = scatter (la_fields i) (ucast v)"
    by (rule ucast_scatter) (simp_all add: la.within [simplified])
  have hi: "take_bit (la_width i - 16) (drop_bit 16 v) = drop_bit 16 v" if "16 \<le> la_width i"
    using take_bit_drop_bit_fit [OF fit] that by simp
  show ?thesis
    using assms(1) trunc sc hi
    by (cases i)
       (simp_all add: la_single_def loongarch64_write_to_value_def Let_def and_or_word push and_ones
          flip: la_keep_masks [simplified])
qed

definition la_decoded :: "loongarch64_instruction \<Rightarrow> u64 \<Rightarrow> u64 \<times> bool" where
  "la_decoded i v =
     (if i = LA_Branch26 \<or> i = LA_Branch21
      then (signed_take_bit (la_width i - 1) v, bit v (la_width i - 1))
      else (take_bit (la_width i) v, False))"

lemma la_read:
  assumes "la_single i"
  shows "loongarch64_read_value i (to_le_bytes 4 (w :: u32) @ rest) =
    Some (la_decoded i (ucast (gather (la_fields i) w)))"
  using assms
  by (cases i)
     (simp_all add: la_single_def loongarch64_read_value_def la_decoded_def Let_def slice_simps
        and_ones sext32_eq sneg32_eq unsigned_take_bit_eq bit_unsigned_iff or.commute)

text \<open>
  A value that fits the immediate of a single LoongArch64 instruction is written into any
  instruction and read back (sign extended for branches); the rest of the instruction and of
  the section is kept.
\<close>

lemma loongarch64_insn_roundtrip:
  assumes "la_single i" and "take_bit (la_width i) v = v" and "u32_from_slice dest = Some x"
  shows "\<exists>out x'. loongarch64_write_to_value i v negative dest = Some out
    \<and> loongarch64_read_value i out = Some (la_decoded i v)
    \<and> u32_from_slice out = Some x'
    \<and> x' AND NOT (dst_mask (la_fields i)) = x AND NOT (dst_mask (la_fields i))
    \<and> drop 4 out = drop 4 dest"
proof -
  let ?w = "(x AND NOT (dst_mask (la_fields i))) OR scatter (la_fields i) (ucast v)"
  let ?out = "to_le_bytes 4 ?w @ drop 4 dest"
  have "loongarch64_write_to_value i v negative dest = Some ?out"
    using la_write [OF assms(1,2)] u32_from_slice_SomeD [OF assms(3)] by metis
  moreover have "(ucast (gather (la_fields i) ?w) :: u64) = v AND src_mask (la_fields i)"
    by (simp only: la.gather_write) (rule ucast_and_src_mask; simp add: la.within [simplified])
  then have "(ucast (gather (la_fields i) ?w) :: u64) = v"
    using assms(1,2) by (simp add: la_src_mask flip: take_bit_eq_mask)
  then have "loongarch64_read_value i ?out = Some (la_decoded i v)"
    using la_read [OF assms(1), of ?w] by simp
  moreover have "?w AND NOT (dst_mask (la_fields i)) = x AND NOT (dst_mask (la_fields i))"
    by (rule la.write_frame) (simp add: and.assoc)
  ultimately show ?thesis by (auto simp: slice_simps)
qed

subsection \<open>The two-instruction call\<close>

text \<open>
  The displacement that \<^verbatim>\<open>pcaddu18i\<close> (20-bit immediate, shifted by 18 and sign extended) and
  \<^verbatim>\<open>jirl\<close> (16-bit immediate, shifted by 2 and sign extended) add up to.
\<close>

definition la_call_offset :: "bytes \<Rightarrow> u64 option" where
  "la_call_offset bs =
     Option.bind (u64_from_slice bs) (\<lambda>w.
       Some (signed_take_bit 37 (push_bit 18 (take_bit 20 (drop_bit 5 w)))
             + signed_take_bit 17 (push_bit 2 (take_bit 16 (drop_bit 42 w)))))"

lemma call36_fields:
  fixes x e :: u64
  assumes e: "take_bit 36 e = e"
  defines "w \<equiv> (x AND CALL36_CLEAR) OR (push_bit 42 (take_bit 16 e) OR push_bit 5 (drop_bit 16 (e + 0x8000)))"
  shows "take_bit 20 (drop_bit 5 w) = take_bit 20 (drop_bit 16 (e + 0x8000))"
    and "take_bit 16 (drop_bit 42 w) = take_bit 16 e"
proof -
  have clear1: "take_bit 20 (drop_bit 5 CALL36_CLEAR) = 0"
    and clear2: "take_bit 16 (drop_bit 42 CALL36_CLEAR) = 0"
    by (simp_all add: CALL36_CLEAR_def)
  have "unat e < 2 ^ 36" using e by (simp add: take_bit_word_eq_self_iff)
  then have "unat (e + 0x8000) < 2 ^ 37" by (simp add: unat_word_ariths)
  then have high: "\<not> bit (e + 0x8000) k" if "37 \<le> k" for k
    using that by (metis bit_take_bit_iff not_less take_bit_word_eq_self_iff)
  show "take_bit 20 (drop_bit 5 w) = take_bit 20 (drop_bit 16 (e + 0x8000))"
  proof (rule bit_word_eqI)
    fix i
    have "\<not> bit (take_bit 20 (drop_bit 5 CALL36_CLEAR)) i" by (simp only: clear1 bit_0_eq) simp
    then show "bit (take_bit 20 (drop_bit 5 w)) i = bit (take_bit 20 (drop_bit 16 (e + 0x8000))) i"
      by (auto simp: w_def bit_take_bit_iff bit_drop_bit_eq bit_or_iff bit_and_iff bit_push_bit_iff)
  qed
  show "take_bit 16 (drop_bit 42 w) = take_bit 16 e"
  proof (rule bit_word_eqI)
    fix i
    have "\<not> bit (take_bit 16 (drop_bit 42 CALL36_CLEAR)) i" by (simp only: clear2 bit_0_eq) simp
    then show "bit (take_bit 16 (drop_bit 42 w)) i = bit (take_bit 16 e) i"
      using high by (auto simp: w_def bit_take_bit_iff bit_drop_bit_eq bit_or_iff bit_and_iff bit_push_bit_iff)
  qed
qed

lemma signed_take_bit_17_shift:
  fixes v :: u64
  shows "signed_take_bit 17 v = take_bit 18 (v + 0x20000) - 0x20000"
proof -
  have "take_bit 64 (signed_take_bit 17 (take_bit 64 k)) = take_bit 64 (take_bit 18 (k + 0x20000) - 0x20000)"
    for k :: int
    using signed_take_bit_eq_take_bit_shift [of 17 k] by (simp add: signed_take_bit_take_bit)
  then show ?thesis by transfer simp
qed

lemma push_take_drop_aligned:
  fixes V :: u64
  assumes "take_bit 2 V = 0" and "n + 2 \<le> 64"
  shows "push_bit 2 (take_bit n (drop_bit 2 V)) = take_bit (n + 2) V"
proof (rule bit_word_eqI)
  fix i
  have "\<not> bit (take_bit 2 V) i" using assms by simp
  then have low: "i < 2 \<Longrightarrow> \<not> bit V i" by (simp add: bit_take_bit_iff)
  show "bit (push_bit 2 (take_bit n (drop_bit 2 V))) i = bit (take_bit (n + 2) V) i"
  proof (cases "i < 2")
    case True
    with low show ?thesis by (simp add: bit_push_bit_iff bit_take_bit_iff)
  next
    case False
    then obtain j where "i = 2 + j" by (metis le_Suc_ex not_less)
    with assms(2) show ?thesis
      by (auto simp: bit_push_bit_iff bit_take_bit_iff bit_drop_bit_eq)
  qed
qed

lemma call36_high:
  fixes V :: u64
  assumes "take_bit 2 V = 0"
  shows "push_bit 18 (take_bit 20 (drop_bit 16 (take_bit 36 (drop_bit 2 V) + 0x8000)))
    = take_bit 38 (V + 0x20000) AND NOT (mask 18)"
proof -
  let ?e = "take_bit 36 (drop_bit 2 V)"
  have four: "push_bit 2 ?e = take_bit 38 V"
    using push_take_drop_aligned [OF assms, of 36] by simp
  have "unat ?e < 2 ^ 36" by (subst take_bit_word_eq_self_iff [symmetric]) simp
  then have fit: "take_bit 62 (?e + 0x8000) = ?e + 0x8000"
    by (simp add: take_bit_word_eq_self_iff unat_word_ariths)
  have "push_bit 2 (?e + 0x8000) = take_bit 38 V + 0x20000"
    using four by (simp add: push_bit_add)
  then have "drop_bit 2 (take_bit 38 V + 0x20000) = ?e + 0x8000"
    using drop_push_fit [OF fit, of 2] by simp
  then have "drop_bit 16 (?e + 0x8000) = drop_bit 16 (drop_bit 2 (take_bit 38 V + 0x20000))" by (simp only:)
  then have "drop_bit 16 (?e + 0x8000) = drop_bit 18 (take_bit 38 V + 0x20000)"
    by (simp only: drop_bit_drop_bit) simp
  moreover have "take_bit 38 (take_bit 38 V + 0x20000) = take_bit 38 (V + 0x20000)"
    by (rule take_bit_add_word)
  moreover have "push_bit 18 (take_bit 20 (drop_bit 18 y)) = take_bit 38 y AND NOT (mask 18)" for y :: u64
    by (rule bit_word_eqI)
       (auto simp: bit_push_bit_iff bit_take_bit_iff bit_drop_bit_eq bit_and_iff bit_not_iff bit_mask_iff)
  ultimately show ?thesis by (simp only:)
qed

lemma signed_take_bit_high_part:
  fixes y :: u64
  assumes "signed_take_bit n y = y" and "k \<le> n" and "n < 63"
  shows "signed_take_bit n (take_bit (Suc n) y AND NOT (mask k)) = y AND NOT (mask k)"
proof (rule bit_word_eqI)
  fix i
  assume i: "i < LENGTH(64)"
  have "bit y i \<longleftrightarrow> bit y (min n i)"
    using assms(1) i by (metis bit_signed_take_bit_iff possible_bit_word)
  then show "bit (signed_take_bit n (take_bit (Suc n) y AND NOT (mask k))) i = bit (y AND NOT (mask k)) i"
    using i assms(2,3)
    by (cases "i \<le> n")
       (simp_all add: bit_signed_take_bit_iff bit_take_bit_iff bit_and_iff bit_not_iff bit_mask_iff not_le)
qed

lemma call36_sum:
  fixes V :: u64
  assumes "take_bit 2 V = 0" and "- (2 ^ 37) \<le> sint V" and "sint V < 2 ^ 37"
  defines "e \<equiv> take_bit 36 (drop_bit 2 V)"
  shows "signed_take_bit 37 (push_bit 18 (take_bit 20 (drop_bit 16 (e + 0x8000))))
    + signed_take_bit 17 (push_bit 2 (take_bit 16 e)) = (if sint V < 2 ^ 37 - 0x20000 then V else V - 2 ^ 38)"
proof -
  let ?y = "signed_take_bit 37 (V + 0x20000)"
  have y: "?y = (if sint V < 2 ^ 37 - 0x20000 then V + 0x20000 else V + 0x20000 - 2 ^ 38)"
    using signed_take_bit_round [of 37 "0x20000" V] assms by simp
  have yy: "signed_take_bit 37 ?y = ?y" "take_bit 38 ?y = take_bit 38 (V + 0x20000)"
      "take_bit 18 ?y = take_bit 18 (V + 0x20000)"
    by (simp_all add: take_bit_signed_take_bit)
  have hi: "signed_take_bit 37 (take_bit 38 (V + 0x20000) AND NOT (mask 18)) = ?y AND NOT (mask 18)"
    using signed_take_bit_high_part [OF yy(1), of 18] yy(2) by simp
  have "push_bit 2 (take_bit 16 e) = take_bit 18 V"
    using push_take_drop_aligned [OF assms(1), of 16] by (simp add: e_def)
  then have lo: "signed_take_bit 17 (push_bit 2 (take_bit 16 e)) = take_bit 18 (V + 0x20000) - 0x20000"
    using signed_take_bit_and_mask [of 17 V] by (simp add: signed_take_bit_17_shift)
  have total: "(?y AND NOT (mask 18)) + (take_bit 18 (V + 0x20000) - 0x20000) = ?y - 0x20000"
    using take_bit_plus_rest [of 18 ?y] yy(3) by (simp add: algebra_simps)
  show ?thesis
    unfolding e_def call36_high [OF assms(1)] hi lo [unfolded e_def] total by (simp add: y)
qed

text \<open>
  \<^verbatim>\<open>R_LARCH_CALL36\<close>: writing bits 2 to 37 of a 4-aligned displacement into the pair makes the
  pair compute exactly that displacement when the pair can reach it; the highest \<^verbatim>\<open>0x20000\<close> of the
  signed 38-bit range wrap by \<^verbatim>\<open>2 ^ 38\<close>.
\<close>

lemma loongarch64_call36_correct:
  assumes "8 \<le> length dest" and "take_bit 2 V = 0"
    and "- (2 ^ 37) \<le> sint V" and "sint V < 2 ^ 37"
  shows "\<exists>out. loongarch64_write_to_value LA_Call36 (xbits V 2 38) negative dest = Some out
    \<and> la_call_offset out = Some (if sint V < 2 ^ 37 - 0x20000 then V else V - 2 ^ 38)
    \<and> drop 8 out = drop 8 dest"
proof -
  obtain x :: u64 where x: "dest = to_le_bytes 8 x @ drop 8 dest"
    using bytes_as_word [of 8 dest, where 'a = 64] assms(1) by auto
  let ?e = "take_bit 36 (drop_bit 2 V)"
  let ?w = "(x AND CALL36_CLEAR) OR (push_bit 42 (take_bit 16 ?e) OR push_bit 5 (drop_bit 16 (?e + 0x8000)))"
  let ?out = "to_le_bytes 8 ?w @ drop 8 dest"
  have "loongarch64_write_to_value LA_Call36 (xbits V 2 38) negative (to_le_bytes 8 x @ drop 8 dest) = Some ?out"
    by (simp add: loongarch64_write_to_value_def Let_def xbits_eq and_or_word and_ones)
  then have "loongarch64_write_to_value LA_Call36 (xbits V 2 38) negative dest = Some ?out"
    using x by simp
  moreover have "la_call_offset ?out = Some (if sint V < 2 ^ 37 - 0x20000 then V else V - 2 ^ 38)"
  proof -
    have e: "take_bit 36 ?e = ?e" by simp
    show ?thesis
      by (simp only: la_call_offset_def u64_from_slice_word bind.bind_lunit call36_fields [OF e]
          call36_sum [OF assms(2-4)])
  qed
  ultimately show ?thesis by auto
qed

end
