(* ===== verification/Plt_Entries.thy ===== *)
theory Plt_Entries
  imports AArch64_Insn RiscV_Insn LoongArch64_Insn "HOL-Library.Signed_Division" "HOL-Library.Monad_Syntax" "HOL-Library.Multiset"
begin

unbundle bit_operations_syntax

text \<open>
  What the architectures contribute to the tables of the output: the types of dynamic relocations
  (\<^verbatim>\<open>DynamicRelocationKind\<close> of \<^verbatim>\<open>linker-utils/src/elf.rs\<close>), the PLT entries and the thunk (\<^verbatim>\<open>libsld/src/elf_x86_64.rs\<close>,
  \<^verbatim>\<open>elf_aarch64.rs\<close>, \<^verbatim>\<open>elf_riscv64.rs\<close>, \<^verbatim>\<open>elf_loongarch64.rs\<close>). The argument \<open>elf\<close> is the table of constants of
  the crate \<^verbatim>\<open>object\<close>. For each entry, a definition states which address the instructions load from or branch to, as
  the architecture manuals give it; the entries are proved to reach the address they were written for.
\<close>

subsection \<open>Dynamic relocations\<close>

datatype dynamic_relocation_kind =
    DR_Copy | DR_Irelative | DR_DtpMod | DR_DtpOff | DR_TlsDesc | DR_TpOff | DR_Relative | DR_Absolute | DR_GotEntry | DR_JumpSlot

definition all_dynamic_relocations :: "dynamic_relocation_kind list" where
  "all_dynamic_relocations =
     [DR_Copy, DR_Irelative, DR_DtpMod, DR_DtpOff, DR_TlsDesc, DR_TpOff, DR_Relative, DR_Absolute, DR_GotEntry, DR_JumpSlot]"

fun x86_64_r_type :: "(string \<Rightarrow> u32) \<Rightarrow> dynamic_relocation_kind \<Rightarrow> u32" where
  "x86_64_r_type elf DR_Copy = elf ''R_X86_64_COPY''"
| "x86_64_r_type elf DR_Irelative = elf ''R_X86_64_IRELATIVE''"
| "x86_64_r_type elf DR_DtpMod = elf ''R_X86_64_DTPMOD64''"
| "x86_64_r_type elf DR_DtpOff = elf ''R_X86_64_DTPOFF64''"
| "x86_64_r_type elf DR_TpOff = elf ''R_X86_64_TPOFF64''"
| "x86_64_r_type elf DR_Relative = elf ''R_X86_64_RELATIVE''"
| "x86_64_r_type elf DR_Absolute = elf ''R_X86_64_64''"
| "x86_64_r_type elf DR_GotEntry = elf ''R_X86_64_GLOB_DAT''"
| "x86_64_r_type elf DR_TlsDesc = elf ''R_X86_64_TLSDESC''"
| "x86_64_r_type elf DR_JumpSlot = elf ''R_X86_64_JUMP_SLOT''"

definition from_x86_64_r_type :: "(string \<Rightarrow> u32) \<Rightarrow> u32 \<Rightarrow> dynamic_relocation_kind option" where
  "from_x86_64_r_type elf r_type =
     map_of [(elf ''R_X86_64_COPY'', DR_Copy),
       (elf ''R_X86_64_IRELATIVE'', DR_Irelative),
       (elf ''R_X86_64_DTPMOD64'', DR_DtpMod),
       (elf ''R_X86_64_DTPOFF64'', DR_DtpOff),
       (elf ''R_X86_64_TPOFF64'', DR_TpOff),
       (elf ''R_X86_64_RELATIVE'', DR_Relative),
       (elf ''R_X86_64_GLOB_DAT'', DR_GotEntry),
       (elf ''R_X86_64_64'', DR_Absolute),
       (elf ''R_X86_64_TLSDESC'', DR_TlsDesc),
       (elf ''R_X86_64_JUMP_SLOT'', DR_JumpSlot)] r_type"

fun aarch64_r_type :: "(string \<Rightarrow> u32) \<Rightarrow> dynamic_relocation_kind \<Rightarrow> u32" where
  "aarch64_r_type elf DR_Copy = elf ''R_AARCH64_COPY''"
| "aarch64_r_type elf DR_Irelative = elf ''R_AARCH64_IRELATIVE''"
| "aarch64_r_type elf DR_DtpMod = elf ''R_AARCH64_TLS_DTPMOD''"
| "aarch64_r_type elf DR_DtpOff = elf ''R_AARCH64_TLS_DTPREL''"
| "aarch64_r_type elf DR_TpOff = elf ''R_AARCH64_TLS_TPREL''"
| "aarch64_r_type elf DR_Relative = elf ''R_AARCH64_RELATIVE''"
| "aarch64_r_type elf DR_Absolute = elf ''R_AARCH64_ABS64''"
| "aarch64_r_type elf DR_GotEntry = elf ''R_AARCH64_GLOB_DAT''"
| "aarch64_r_type elf DR_TlsDesc = elf ''R_AARCH64_TLSDESC''"
| "aarch64_r_type elf DR_JumpSlot = elf ''R_AARCH64_JUMP_SLOT''"

definition from_aarch64_r_type :: "(string \<Rightarrow> u32) \<Rightarrow> u32 \<Rightarrow> dynamic_relocation_kind option" where
  "from_aarch64_r_type elf r_type =
     map_of [(elf ''R_AARCH64_COPY'', DR_Copy),
       (elf ''R_AARCH64_IRELATIVE'', DR_Irelative),
       (elf ''R_AARCH64_TLS_DTPMOD'', DR_DtpMod),
       (elf ''R_AARCH64_TLS_DTPREL'', DR_DtpOff),
       (elf ''R_AARCH64_TLS_TPREL'', DR_TpOff),
       (elf ''R_AARCH64_RELATIVE'', DR_Relative),
       (elf ''R_AARCH64_ABS64'', DR_Absolute),
       (elf ''R_AARCH64_GLOB_DAT'', DR_GotEntry),
       (elf ''R_AARCH64_TLSDESC'', DR_TlsDesc),
       (elf ''R_AARCH64_JUMP_SLOT'', DR_JumpSlot)] r_type"

fun riscv64_r_type :: "(string \<Rightarrow> u32) \<Rightarrow> dynamic_relocation_kind \<Rightarrow> u32" where
  "riscv64_r_type elf DR_Copy = elf ''R_RISCV_COPY''"
| "riscv64_r_type elf DR_Irelative = elf ''R_RISCV_IRELATIVE''"
| "riscv64_r_type elf DR_DtpMod = elf ''R_RISCV_TLS_DTPMOD64''"
| "riscv64_r_type elf DR_DtpOff = elf ''R_RISCV_TLS_DTPREL64''"
| "riscv64_r_type elf DR_TpOff = elf ''R_RISCV_TLS_TPREL64''"
| "riscv64_r_type elf DR_Relative = elf ''R_RISCV_RELATIVE''"
| "riscv64_r_type elf DR_Absolute = elf ''R_RISCV_64''"
| "riscv64_r_type elf DR_GotEntry = elf ''R_RISCV_64''"
| "riscv64_r_type elf DR_TlsDesc = elf ''R_RISCV_TLSDESC''"
| "riscv64_r_type elf DR_JumpSlot = elf ''R_RISCV_JUMP_SLOT''"

definition from_riscv64_r_type :: "(string \<Rightarrow> u32) \<Rightarrow> u32 \<Rightarrow> dynamic_relocation_kind option" where
  "from_riscv64_r_type elf r_type =
     map_of [(elf ''R_RISCV_COPY'', DR_Copy),
       (elf ''R_RISCV_IRELATIVE'', DR_Irelative),
       (elf ''R_RISCV_TLS_DTPMOD64'', DR_DtpMod),
       (elf ''R_RISCV_TLS_DTPREL64'', DR_DtpOff),
       (elf ''R_RISCV_TLS_TPREL64'', DR_TpOff),
       (elf ''R_RISCV_RELATIVE'', DR_Relative),
       (elf ''R_RISCV_64'', DR_Absolute),
       (elf ''R_RISCV_TLSDESC'', DR_TlsDesc),
       (elf ''R_RISCV_JUMP_SLOT'', DR_JumpSlot)] r_type"

fun loongarch64_r_type :: "(string \<Rightarrow> u32) \<Rightarrow> dynamic_relocation_kind \<Rightarrow> u32" where
  "loongarch64_r_type elf DR_Copy = elf ''R_LARCH_COPY''"
| "loongarch64_r_type elf DR_Irelative = elf ''R_LARCH_IRELATIVE''"
| "loongarch64_r_type elf DR_DtpMod = elf ''R_LARCH_TLS_DTPMOD64''"
| "loongarch64_r_type elf DR_DtpOff = elf ''R_LARCH_TLS_DTPREL64''"
| "loongarch64_r_type elf DR_TpOff = elf ''R_LARCH_TLS_TPREL64''"
| "loongarch64_r_type elf DR_Relative = elf ''R_LARCH_RELATIVE''"
| "loongarch64_r_type elf DR_Absolute = elf ''R_LARCH_64''"
| "loongarch64_r_type elf DR_GotEntry = elf ''R_LARCH_64''"
| "loongarch64_r_type elf DR_TlsDesc = elf ''R_LARCH_TLS_DESC64''"
| "loongarch64_r_type elf DR_JumpSlot = elf ''R_LARCH_JUMP_SLOT''"

definition from_loongarch64_r_type :: "(string \<Rightarrow> u32) \<Rightarrow> u32 \<Rightarrow> dynamic_relocation_kind option" where
  "from_loongarch64_r_type elf r_type =
     map_of [(elf ''R_LARCH_COPY'', DR_Copy),
       (elf ''R_LARCH_IRELATIVE'', DR_Irelative),
       (elf ''R_LARCH_TLS_DTPMOD64'', DR_DtpMod),
       (elf ''R_LARCH_TLS_DTPREL64'', DR_DtpOff),
       (elf ''R_LARCH_TLS_TPREL64'', DR_TpOff),
       (elf ''R_LARCH_RELATIVE'', DR_Relative),
       (elf ''R_LARCH_64'', DR_Absolute),
       (elf ''R_LARCH_TLS_DESC64'', DR_TlsDesc),
       (elf ''R_LARCH_JUMP_SLOT'', DR_JumpSlot)] r_type"

lemma in_all_dynamic_relocations: "k \<in> set all_dynamic_relocations"
  by (cases k) (simp_all add: all_dynamic_relocations_def)

text \<open>Looking a type up in the table of the types of some kinds.\<close>

lemma map_of_roundtrip: "distinct (map f ks) \<Longrightarrow> k \<in> set ks \<Longrightarrow> map_of (map (\<lambda>k. (f k, k)) ks) (f k) = Some k"
  by (intro map_of_is_SomeI) (simp_all add: comp_def)

lemma from_r_type_tables:
  "from_x86_64_r_type elf = map_of (map (\<lambda>k. (x86_64_r_type elf k, k))
     [DR_Copy, DR_Irelative, DR_DtpMod, DR_DtpOff, DR_TpOff, DR_Relative, DR_GotEntry, DR_Absolute, DR_TlsDesc, DR_JumpSlot])"
  "from_aarch64_r_type elf = map_of (map (\<lambda>k. (aarch64_r_type elf k, k))
     [DR_Copy, DR_Irelative, DR_DtpMod, DR_DtpOff, DR_TpOff, DR_Relative, DR_Absolute, DR_GotEntry, DR_TlsDesc, DR_JumpSlot])"
  "from_riscv64_r_type elf = map_of (map (\<lambda>k. (riscv64_r_type elf k, k))
     [DR_Copy, DR_Irelative, DR_DtpMod, DR_DtpOff, DR_TpOff, DR_Relative, DR_Absolute, DR_TlsDesc, DR_JumpSlot])"
  "from_loongarch64_r_type elf = map_of (map (\<lambda>k. (loongarch64_r_type elf k, k))
     [DR_Copy, DR_Irelative, DR_DtpMod, DR_DtpOff, DR_TpOff, DR_Relative, DR_Absolute, DR_TlsDesc, DR_JumpSlot])"
  by (intro ext, simp only: from_x86_64_r_type_def from_aarch64_r_type_def from_riscv64_r_type_def from_loongarch64_r_type_def
      list.map x86_64_r_type.simps aarch64_r_type.simps riscv64_r_type.simps loongarch64_r_type.simps)+

subsection \<open>PLT entries\<close>

text \<open>An error of \<^verbatim>\<open>write_plt_entry\<close>, and a failed debug assertion or an index out of bounds.\<close>

datatype plt_error = PltTooFar | PltPanic

definition or_panic :: "'a option \<Rightarrow> plt_error + 'a" where
  "or_panic x = (case x of None \<Rightarrow> Inl PltPanic | Some y \<Rightarrow> Inr y)"

text \<open>A function applied to \<^verbatim>\<open>&mut bytes[a..b]\<close>.\<close>

definition in_slice :: "nat \<Rightarrow> nat \<Rightarrow> (bytes \<Rightarrow> bytes option) \<Rightarrow> bytes \<Rightarrow> bytes option" where
  "in_slice a b f bs = do { s \<leftarrow> slice_range a b bs; s \<leftarrow> f s; copy_from_slice a b s bs }"

definition X86_64_PLT_TEMPLATE :: bytes where
  "X86_64_PLT_TEMPLATE = [0xf3, 0x0f, 0x1e, 0xfa, 0xf2, 0xff, 0x25, 0, 0, 0, 0, 0x0f, 0x1f, 0x44, 0, 0]"

definition AARCH64_PLT_TEMPLATE :: bytes where
  "AARCH64_PLT_TEMPLATE = [0x10, 0x00, 0x00, 0x90, 0x11, 0x02, 0x40, 0xf9, 0x20, 0x02, 0x1f, 0xd6, 0x1f, 0x20, 0x03, 0xd5]"

definition RISCV64_PLT_TEMPLATE :: bytes where
  "RISCV64_PLT_TEMPLATE = [0x17, 0x0e, 0, 0, 0x03, 0x3e, 0x0e, 0, 0x67, 0x03, 0x0e, 0, 0x73, 0, 0x10, 0]"

definition LOONGARCH64_PLT_TEMPLATE :: bytes where
  "LOONGARCH64_PLT_TEMPLATE = [0x0f, 0, 0, 0x1a, 0xef, 0x1, 0xc0, 0x28, 0xed, 0x1, 0, 0x4c, 0, 0, 0x2a, 0]"

definition x86_64_write_plt_entry :: "u64 \<Rightarrow> u64 \<Rightarrow> plt_error + bytes" where
  "x86_64_write_plt_entry got plt =
     (let d = got - (plt + 0xb) in
      if \<not> (- (2 ^ 31) \<le> sint d \<and> sint d < 2 ^ 31) then Inl PltTooFar
      else or_panic (copy_from_slice 7 11 (to_le_bytes 4 (ucast d :: u32)) X86_64_PLT_TEMPLATE))"

definition aarch64_write_plt_entry :: "u64 \<Rightarrow> u64 \<Rightarrow> plt_error + bytes" where
  "aarch64_write_plt_entry got plt =
     (if \<not> plt < got then Inl PltPanic
      else let plt_page_address = plt AND NOT PAGE_MASK_4KB; d = got - plt_page_address in
        if \<not> d < push_bit 32 1 then Inl PltTooFar
        else or_panic (do {
          bs \<leftarrow> in_slice 0 4 (aarch64_write_to_value A64_Adr (d div SIZE_4KB) False) AARCH64_PLT_TEMPLATE;
          in_slice 4 8 (aarch64_write_to_value A64_LdrRegister ((d AND PAGE_MASK_4KB) div 8) False) bs
        }))"

definition riscv64_write_plt_entry :: "u64 \<Rightarrow> u64 \<Rightarrow> plt_error + bytes" where
  "riscv64_write_plt_entry got plt =
     (if \<not> plt < got then Inl PltPanic
      else or_panic (in_slice 0 8 (riscv_write_to_value RV_UiType (got - plt) False) RISCV64_PLT_TEMPLATE))"

definition loongarch64_write_plt_entry :: "u64 \<Rightarrow> u64 \<Rightarrow> plt_error + bytes" where
  "loongarch64_write_plt_entry got plt =
     (if \<not> plt < got then Inl PltPanic
      else
        let hi20 = push_bit 5 (drop_bit 12 (((got + SIZE_2KB) AND NOT PAGE_MASK_4KB) - (plt AND NOT PAGE_MASK_4KB)));
            lo12 = push_bit 10 (got AND 0xfff)
        in or_panic (do {
          bs \<leftarrow> in_slice 0 4 (\<lambda>s. or_from_slice s (to_le_bytes 4 (ucast hi20 :: u32))) LOONGARCH64_PLT_TEMPLATE;
          in_slice 4 8 (\<lambda>s. or_from_slice s (to_le_bytes 4 (ucast lo12 :: u32))) bs
        }))"

definition RISCV_TLS_DTV_OFFSET :: u64 where "RISCV_TLS_DTV_OFFSET = 0x800"

subsection \<open>What the instructions do\<close>

text \<open>\<^verbatim>\<open>endbr64; bnd jmp *disp32(%rip)\<close>.\<close>

definition x86_64_plt_slot :: "u64 \<Rightarrow> bytes \<Rightarrow> u64 option" where
  "x86_64_plt_slot plt bs =
     (if take 7 bs = [0xf3, 0x0f, 0x1e, 0xfa, 0xf2, 0xff, 0x25]
      then map_option (\<lambda>d. plt + 11 + scast d) (u32_from_slice (drop 7 bs)) else None)"

text \<open>The address that \<^verbatim>\<open>ADRP x16\<close> leaves in its register, when the word is that instruction.\<close>

definition a64_adrp_x16 :: "u64 \<Rightarrow> u32 \<Rightarrow> u64 option" where
  "a64_adrp_x16 pc insn =
     (if insn AND 0x9f00001f = 0x90000010
      then Some ((pc AND NOT (mask 12)) + push_bit 12 (signed_take_bit 20
        (ucast (take_bit 2 (drop_bit 29 insn) OR push_bit 2 (take_bit 19 (drop_bit 5 insn)))))) else None)"

text \<open>\<^verbatim>\<open>ADRP x16; LDR x17, [x16, #imm]; BR x17\<close>.\<close>

definition aarch64_plt_slot :: "u64 \<Rightarrow> bytes \<Rightarrow> u64 option" where
  "aarch64_plt_slot plt bs =
     do {
       adrp \<leftarrow> u32_from_slice bs; ldr \<leftarrow> u32_from_slice (drop 4 bs); br \<leftarrow> u32_from_slice (drop 8 bs);
       page \<leftarrow> a64_adrp_x16 plt adrp;
       if ldr AND 0xffc003ff = 0xf9400211 \<and> br = 0xd61f0220
       then Some (page + push_bit 3 (ucast (take_bit 12 (drop_bit 10 ldr)))) else None
     }"

text \<open>\<^verbatim>\<open>auipc t3; ld t3, lo(t3); jalr t1, t3\<close>.\<close>

definition riscv64_plt_slot :: "u64 \<Rightarrow> bytes \<Rightarrow> u64 option" where
  "riscv64_plt_slot plt bs =
     do {
       auipc \<leftarrow> u32_from_slice bs; ld \<leftarrow> u32_from_slice (drop 4 bs); jalr \<leftarrow> u32_from_slice (drop 8 bs);
       d \<leftarrow> rv_pair_offset bs;
       if auipc AND 0xfff = 0xe17 \<and> ld AND 0xfffff = 0xe3e03 \<and> jalr = 0x000e0367 then Some (plt + d) else None
     }"

text \<open>\<^verbatim>\<open>pcalau12i $t3; ld.d $t3, $t3, lo; jirl $t1, $t3, 0\<close>.\<close>

definition loongarch64_plt_slot :: "u64 \<Rightarrow> bytes \<Rightarrow> u64 option" where
  "loongarch64_plt_slot plt bs =
     do {
       hi \<leftarrow> u32_from_slice bs; ld \<leftarrow> u32_from_slice (drop 4 bs); jirl \<leftarrow> u32_from_slice (drop 8 bs);
       if hi AND 0xfe00001f = 0x1a00000f \<and> ld AND 0xffc003ff = 0x28c001ef \<and> jirl = 0x4c0001ed
       then Some (((plt + push_bit 12 (signed_take_bit 19 (ucast (take_bit 20 (drop_bit 5 hi))))) AND NOT (mask 12))
         + signed_take_bit 11 (ucast (take_bit 12 (drop_bit 10 ld)))) else None
     }"

subsection \<open>Thunks\<close>

definition AARCH64_THUNK_TEMPLATE :: bytes where
  "AARCH64_THUNK_TEMPLATE = [0x10, 0x00, 0x00, 0x90, 0x10, 0x02, 0x00, 0x91, 0x00, 0x02, 0x1f, 0xd6]"

definition aarch64_write_thunk :: "u64 \<Rightarrow> u64 \<Rightarrow> bytes option" where
  "aarch64_write_thunk thunk_address target_address =
     (let thunk_page = thunk_address AND NOT PAGE_MASK_4KB;
          target_page = target_address AND NOT PAGE_MASK_4KB;
          page_diff = target_page - thunk_page;
          page_count = word_of_int (sint page_diff sdiv sint SIZE_4KB) AND 0x1fffff
      in do {
        bs \<leftarrow> in_slice 0 4 (aarch64_write_to_value A64_Adr page_count False) AARCH64_THUNK_TEMPLATE;
        in_slice 4 8 (aarch64_write_to_value A64_Add (target_address AND PAGE_MASK_4KB) False) bs
      })"

text \<open>\<^verbatim>\<open>ADRP x16; ADD x16, x16, #imm; BR x16\<close>.\<close>

definition aarch64_thunk_target :: "u64 \<Rightarrow> bytes \<Rightarrow> u64 option" where
  "aarch64_thunk_target thunk_address bs =
     do {
       adrp \<leftarrow> u32_from_slice bs; add \<leftarrow> u32_from_slice (drop 4 bs); br \<leftarrow> u32_from_slice (drop 8 bs);
       page \<leftarrow> a64_adrp_x16 thunk_address adrp;
       if add AND 0xffc003ff = 0x91000210 \<and> br = 0xd61f0200
       then Some (page + ucast (take_bit 12 (drop_bit 10 add))) else None
     }"

subsection \<open>Architectures\<close>

datatype architecture = Arch_X86_64 | Arch_AArch64 | Arch_RISCV64 | Arch_LoongArch64

fun arch_write_plt_entry :: "architecture \<Rightarrow> u64 \<Rightarrow> u64 \<Rightarrow> plt_error + bytes" where
  "arch_write_plt_entry Arch_X86_64 = x86_64_write_plt_entry"
| "arch_write_plt_entry Arch_AArch64 = aarch64_write_plt_entry"
| "arch_write_plt_entry Arch_RISCV64 = riscv64_write_plt_entry"
| "arch_write_plt_entry Arch_LoongArch64 = loongarch64_write_plt_entry"

fun arch_r_type :: "architecture \<Rightarrow> (string \<Rightarrow> u32) \<Rightarrow> dynamic_relocation_kind \<Rightarrow> u32" where
  "arch_r_type Arch_X86_64 = x86_64_r_type"
| "arch_r_type Arch_AArch64 = aarch64_r_type"
| "arch_r_type Arch_RISCV64 = riscv64_r_type"
| "arch_r_type Arch_LoongArch64 = loongarch64_r_type"

definition get_dtv_offset :: "architecture \<Rightarrow> u64" where
  "get_dtv_offset arch = (if arch = Arch_RISCV64 then RISCV_TLS_DTV_OFFSET else 0)"

fun plt_slot :: "architecture \<Rightarrow> u64 \<Rightarrow> bytes \<Rightarrow> u64 option" where
  "plt_slot Arch_X86_64 = x86_64_plt_slot"
| "plt_slot Arch_AArch64 = aarch64_plt_slot"
| "plt_slot Arch_RISCV64 = riscv64_plt_slot"
| "plt_slot Arch_LoongArch64 = loongarch64_plt_slot"

text \<open>The pairs of addresses of a GOT and a PLT entry that an architecture can connect.\<close>

fun plt_reach :: "architecture \<Rightarrow> u64 \<Rightarrow> u64 \<Rightarrow> bool" where
  "plt_reach Arch_X86_64 got plt \<longleftrightarrow> - (2 ^ 31) \<le> sint (got - (plt + 0xb)) \<and> sint (got - (plt + 0xb)) < 2 ^ 31"
| "plt_reach Arch_AArch64 got plt \<longleftrightarrow> plt < got \<and> got - (plt AND NOT PAGE_MASK_4KB) < 2 ^ 32 \<and> take_bit 3 got = 0"
| "plt_reach Arch_RISCV64 got plt \<longleftrightarrow> plt < got \<and> got - plt < 2 ^ 31 - 0x800"
| "plt_reach Arch_LoongArch64 got plt \<longleftrightarrow> plt < got \<and> got - plt < 2 ^ 31 - 0x2000"

subsection \<open>Writing into a template\<close>

lemma in_slice_first:
  "f (to_le_bytes 4 x) = Some (to_le_bytes 4 (y :: u32)) \<Longrightarrow> in_slice 0 4 f (to_le_bytes 4 (x :: u32) @ rest) = Some (to_le_bytes 4 y @ rest)"
  by (simp add: in_slice_def slice_range_def copy_from_slice_def)

lemma in_slice_second:
  "f (to_le_bytes 4 x) = Some (to_le_bytes 4 (y :: u32)) \<Longrightarrow>
    in_slice 4 8 f (to_le_bytes 4 (w :: u32) @ to_le_bytes 4 (x :: u32) @ rest) = Some (to_le_bytes 4 w @ to_le_bytes 4 y @ rest)"
  by (simp add: in_slice_def slice_range_def copy_from_slice_def)

lemma to_le_bytes_4: "to_le_bytes 4 (x :: u32) = [ucast x, ucast (drop_bit 8 x), ucast (drop_bit 16 x), ucast (drop_bit 24 x)]"
proof -
  have "to_le_bytes (Suc (Suc (Suc (Suc 0)))) x = [ucast x, ucast (drop_bit 8 x), ucast (drop_bit 16 x), ucast (drop_bit 24 x)]" by simp
  then show ?thesis by (simp only: eval_nat_numeral BitM.simps)
qed

lemma aarch64_template_words:
  "AARCH64_PLT_TEMPLATE = to_le_bytes 4 (0x90000010 :: u32) @ to_le_bytes 4 (0xf9400211 :: u32) @ to_le_bytes 4 (0xd61f0220 :: u32) @ to_le_bytes 4 (0xd503201f :: u32)"
  by (simp add: AARCH64_PLT_TEMPLATE_def to_le_bytes_4)

lemma riscv64_template_words:
  "RISCV64_PLT_TEMPLATE = to_le_bytes 4 (0xe17 :: u32) @ to_le_bytes 4 (0xe3e03 :: u32) @ to_le_bytes 4 (0xe0367 :: u32) @ to_le_bytes 4 (0x100073 :: u32)"
  by (simp add: RISCV64_PLT_TEMPLATE_def to_le_bytes_4)

lemma loongarch64_template_words:
  "LOONGARCH64_PLT_TEMPLATE = to_le_bytes 4 (0x1a00000f :: u32) @ to_le_bytes 4 (0x28c001ef :: u32) @ to_le_bytes 4 (0x4c0001ed :: u32) @ to_le_bytes 4 (0x2a0000 :: u32)"
  by (simp add: LOONGARCH64_PLT_TEMPLATE_def to_le_bytes_4)

lemma words_of_slice:
  "u32_from_slice (to_le_bytes 4 (a :: u32) @ rest) = Some a"
  "u32_from_slice (drop 4 (to_le_bytes 4 (a :: u32) @ to_le_bytes 4 (b :: u32) @ rest)) = Some b"
  "u32_from_slice (drop 8 (to_le_bytes 4 (a :: u32) @ to_le_bytes 4 (b :: u32) @ to_le_bytes 4 (c :: u32) @ rest)) = Some c"
  by (simp_all add: slice_simps)

subsection \<open>Pages\<close>

lemma take_bit_sub_aligned: "take_bit n b = 0 \<Longrightarrow> take_bit n (a - b) = take_bit n (a :: u64)"
  using take_bit_add_word [of n b "a - b"] by simp

lemma page_take_bit: "n \<le> 12 \<Longrightarrow> take_bit n (x AND NOT (mask 12)) = (0 :: u64)"
  by (rule bit_word_eqI) (auto simp: bit_simps)

lemma PAGE_MASK_4KB_mask: "PAGE_MASK_4KB = mask 12"
  by (simp add: PAGE_MASK_4KB_def SIZE_4KB_def mask_eq_decr_exp)

lemma page_plus_rest:
  assumes "take_bit 3 d = 0"
  shows "push_bit 12 (drop_bit 12 d) + push_bit 3 (drop_bit 3 (take_bit 12 d)) = (d :: u64)"
proof -
  have low: "push_bit 3 (drop_bit 3 (take_bit 12 d)) = take_bit 12 d"
  proof (rule bit_word_eqI)
    fix n assume "n < LENGTH(64)"
    have "\<not> bit (take_bit 3 d) n" by (simp add: assms)
    then show "bit (push_bit 3 (drop_bit 3 (take_bit 12 d))) n = bit (take_bit 12 d) n"
      using \<open>n < LENGTH(64)\<close> by (auto simp: bit_simps)
  qed
  have "push_bit 12 (drop_bit 12 d) = d AND NOT (mask 12)" by (rule bit_word_eqI) (auto simp: bit_simps)
  then show ?thesis unfolding low using take_bit_plus_rest [of 12 d] by (simp add: add.commute)
qed

lemma sign_extend_small: "unat v < 2 ^ n \<Longrightarrow> n < 63 \<Longrightarrow> signed_take_bit n v = (v :: u64)"
proof -
  assume v: "unat v < 2 ^ n" "n < 63"
  then have t: "take_bit n v = v" by (simp add: take_bit_word_eq_self_iff)
  have "\<not> bit v i" if "n \<le> i" for i
    using that t by (metis bit_take_bit_iff not_le)
  then show ?thesis by (intro bit_word_eqI) (auto simp: bit_simps min_def)
qed

lemma scast_ucast_32: "(scast (ucast d :: u32) :: u64) = signed_take_bit 31 d"
  by (rule bit_word_eqI) (auto simp: bit_simps min_def)

lemma sint_eq_uint: "uint (d :: u64) < 2 ^ 63 \<Longrightarrow> sint d = uint d"
  unfolding sint_uint by (rule signed_take_bit_int_eq_self) (rule order_trans [of _ 0], simp_all)

lemma uint_less_unat: "uint x < 2 ^ n \<Longrightarrow> unat x < 2 ^ n"
  by (metis of_nat_less_iff of_nat_numeral of_nat_power of_nat_unat)

lemma sint_lower: "uint (d :: u64) < 2 ^ 63 \<Longrightarrow> - (2 ^ 31) \<le> sint d"
  unfolding sint_eq_uint by (rule order_trans [of _ 0]) simp_all

subsection \<open>The entries\<close>

lemma adrp_word:
  assumes "take_bit 21 v = v"
  shows "a64_adrp_x16 pc (0x90000010 OR scatter (a64_fields A64_Adr) (ucast v)) = Some ((pc AND NOT (mask 12)) + push_bit 12 (signed_take_bit 20 v))"
proof -
  let ?w = "0x90000010 OR scatter (a64_fields A64_Adr) (ucast v) :: u32"
  have "?w AND NOT (dst_mask (a64_fields A64_Adr)) = 0x90000010" by (rule a64.write_frame) (simp add: mask_eq_exp_minus_1)
  moreover have "NOT (dst_mask (a64_fields A64_Adr)) = (0x9f00001f :: u32)" by (simp add: mask_eq_exp_minus_1)
  ultimately have op: "?w AND 0x9f00001f = 0x90000010" by metis
  have "gather (a64_fields A64_Adr) ?w = ucast v AND src_mask (a64_fields A64_Adr)" by (rule a64.gather_or_scatter) (simp add: mask_eq_exp_minus_1)
  then have "ucast (gather (a64_fields A64_Adr) ?w) = (ucast (ucast v AND src_mask (a64_fields A64_Adr) :: u32) :: u64)" by metis
  also have "signed_take_bit 20 \<dots> = signed_take_bit 20 v"
    using a64_decoded_fit [of A64_Adr v] assms by (simp add: a64_decoded_def del: a64_fields.simps)
  finally have "signed_take_bit 20 (ucast (gather (a64_fields A64_Adr) ?w) :: u64) = signed_take_bit 20 v" .
  then show ?thesis unfolding a64_adrp_x16_def using op by (simp add: or.commute)
qed

text \<open>Merging into an instruction with a clear immediate field.\<close>

lemma a64_merge:
  assumes "a64_or_only i" and "take_bit (a64_width i) v = v"
  shows "aarch64_write_to_value i v n (to_le_bytes 4 x) = Some (to_le_bytes 4 (x OR scatter (a64_fields i) (ucast v) :: u32))"
  using a64_write_or [OF assms, of n x "[]"] by simp

lemma imm12_word:
  fixes v :: u64
  assumes i: "i = A64_LdrRegister \<or> i = A64_Add" and "unat v < 2 ^ 12" and clear: "base AND dst_mask (a64_fields i) = (0 :: u32)"
  shows "(base OR scatter (a64_fields i) (ucast v)) AND 0xffc003ff = base"
    and "ucast (take_bit 12 (drop_bit 10 (base OR scatter (a64_fields i) (ucast v) :: u32))) = v"
proof -
  let ?w = "base OR scatter (a64_fields i) (ucast v)"
  have "NOT (dst_mask (a64_fields i)) = (0xffc003ff :: u32)" using i by (auto simp: mask_eq_exp_minus_1)
  then show "?w AND 0xffc003ff = base" using a64.write_frame [OF clear] by metis
  have "ucast (gather (a64_fields i) ?w) = (ucast (ucast v AND src_mask (a64_fields i) :: u32) :: u64)"
    using a64.gather_or_scatter [OF clear] by metis
  moreover have "a64_decoded i (ucast (ucast v AND src_mask (a64_fields i) :: u32)) = a64_decoded i v"
    by (rule a64_decoded_fit) (use i assms(2) in \<open>auto simp: take_bit_word_eq_self_iff\<close>)
  moreover have "a64_decoded i v = v" using i assms(2) by (auto simp: a64_decoded_def take_bit_word_eq_self_iff)
  moreover have "take_bit 12 (ucast (take_bit 12 x :: u32)) = (ucast (take_bit 12 x) :: u64)" for x :: u32
    by (simp add: unsigned_take_bit_eq)
  from this [of "ucast v"] have "take_bit 12 (ucast (ucast v AND mask 12 :: u32)) = (ucast (ucast v AND mask 12 :: u32) :: u64)"
    by (simp only: take_bit_eq_mask [of 12 "ucast v :: u32"])
  moreover have "gather (a64_fields i) ?w = take_bit 12 (drop_bit 10 ?w)" "src_mask (a64_fields i) = (mask 12 :: u32)" using i by auto
  ultimately show "ucast (take_bit 12 (drop_bit 10 ?w)) = v" using i by (auto simp: a64_decoded_def)
qed

lemma aarch64_plt_entry:
  assumes "plt < got" and "got - (plt AND NOT PAGE_MASK_4KB) < 2 ^ 32" and "take_bit 3 got = 0"
  shows "\<exists>bs. aarch64_write_plt_entry got plt = Inr bs \<and> length bs = 16 \<and> aarch64_plt_slot plt bs = Some got"
proof -
  define page where "page = (plt AND NOT PAGE_MASK_4KB)"
  define d where "d = got - page"
  have d: "unat d < 2 ^ 32" using assms(2) by (simp add: d_def page_def word_less_nat_alt)
  let ?hi = "d div SIZE_4KB" and ?lo = "(d AND PAGE_MASK_4KB) div 8"
  have hi: "?hi = drop_bit 12 d" by (simp add: SIZE_4KB_def drop_bit_eq_div)
  have lo: "?lo = drop_bit 3 (take_bit 12 d)" by (simp add: PAGE_MASK_4KB_mask drop_bit_eq_div flip: take_bit_eq_mask)
  have hi_small: "unat ?hi < 2 ^ 20" unfolding hi using d by (simp add: unat_drop_bit_eq drop_bit_eq_div [where 'a = nat])
  have "unat (take_bit 12 d) < 2 ^ 12" using take_bit_nat_less_exp [of 12 "unat d"] by (simp add: unsigned_take_bit_eq)
  then have lo_small: "unat ?lo < 2 ^ 12" unfolding lo by (simp add: unat_drop_bit_eq drop_bit_eq_div [where 'a = nat])
  let ?w0 = "0x90000010 OR scatter (a64_fields A64_Adr) (ucast ?hi) :: u32" and ?w1 = "0xf9400211 OR scatter (a64_fields A64_LdrRegister) (ucast ?lo) :: u32"
  let ?bs = "to_le_bytes 4 ?w0 @ to_le_bytes 4 ?w1 @ to_le_bytes 4 (0xd61f0220 :: u32) @ to_le_bytes 4 (0xd503201f :: u32)"
  have "in_slice 0 4 (aarch64_write_to_value A64_Adr ?hi False) AARCH64_PLT_TEMPLATE =
      Some (to_le_bytes 4 ?w0 @ to_le_bytes 4 (0xf9400211 :: u32) @ to_le_bytes 4 (0xd61f0220 :: u32) @ to_le_bytes 4 (0xd503201f :: u32))"
    unfolding aarch64_template_words
    by (rule in_slice_first, rule a64_merge) (use hi_small in \<open>simp_all add: a64_or_only_def take_bit_word_eq_self_iff\<close>)
  moreover have "in_slice 4 8 (aarch64_write_to_value A64_LdrRegister ?lo False)
      (to_le_bytes 4 ?w0 @ to_le_bytes 4 (0xf9400211 :: u32) @ to_le_bytes 4 (0xd61f0220 :: u32) @ to_le_bytes 4 (0xd503201f :: u32)) = Some ?bs"
    by (rule in_slice_second, rule a64_merge) (use lo_small in \<open>simp_all add: a64_or_only_def take_bit_word_eq_self_iff\<close>)
  ultimately have w: "aarch64_write_plt_entry got plt = Inr ?bs"
    using assms(1,2) by (simp add: aarch64_write_plt_entry_def or_panic_def Let_def del: a64_fields.simps flip: d_def page_def)
  have "take_bit 3 d = 0" unfolding d_def page_def PAGE_MASK_4KB_mask using take_bit_sub_aligned page_take_bit [of 3 plt] assms(3) by simp
  from page_plus_rest [OF this] have "page + push_bit 12 ?hi + push_bit 3 ?lo = got"
    unfolding hi lo by (simp add: d_def algebra_simps)
  moreover have clear: "(0xf9400211 :: u32) AND dst_mask (a64_fields A64_LdrRegister) = 0" by (simp add: mask_eq_exp_minus_1)
  ultimately have "aarch64_plt_slot plt ?bs = Some got"
    unfolding aarch64_plt_slot_def words_of_slice
    using adrp_word [of ?hi plt] hi_small sign_extend_small [OF hi_small] imm12_word [OF disjI1 [OF refl] lo_small clear]
    by (simp add: page_def PAGE_MASK_4KB_mask take_bit_word_eq_self_iff del: a64_fields.simps)
  then show ?thesis using w by simp
qed

lemma x86_64_plt_entry:
  assumes "- (2 ^ 31) \<le> sint (got - (plt + 0xb))" and "sint (got - (plt + 0xb)) < 2 ^ 31"
  shows "\<exists>bs. x86_64_write_plt_entry got plt = Inr bs \<and> length bs = 16 \<and> x86_64_plt_slot plt bs = Some got"
proof -
  define d where "d = got - (plt + 0xb)"
  have "signed_take_bit 31 d = d"
    using const_bit_size_Signed_iff [of 32 d] assms by (simp add: const_bit_size_def from_bit_size_def contains_def AllowedRange_new_def d_def)
  then have sc: "scast (ucast d :: u32) = d"
    by (simp add: scast_ucast_32)
  let ?bs = "take 7 X86_64_PLT_TEMPLATE @ to_le_bytes 4 (ucast d :: u32) @ drop 11 X86_64_PLT_TEMPLATE"
  have "x86_64_write_plt_entry got plt = Inr ?bs"
    using assms by (simp add: x86_64_write_plt_entry_def copy_from_slice_def or_panic_def X86_64_PLT_TEMPLATE_def Let_def flip: d_def)
  moreover have "drop 7 ?bs = to_le_bytes 4 (ucast d :: u32) @ drop 11 X86_64_PLT_TEMPLATE" by (simp add: X86_64_PLT_TEMPLATE_def)
  then have "u32_from_slice (drop 7 ?bs) = Some (ucast d)" using slice_simps by simp
  moreover have "take 7 ?bs = [0xf3, 0x0f, 0x1e, 0xfa, 0xf2, 0xff, 0x25]" "length ?bs = 16" by (simp_all add: X86_64_PLT_TEMPLATE_def)
  ultimately show ?thesis using sc by (simp add: x86_64_plt_slot_def d_def)
qed

lemma riscv64_plt_entry:
  assumes "plt < got" and "got - plt < 2 ^ 31 - 0x800"
  shows "\<exists>bs. riscv64_write_plt_entry got plt = Inr bs \<and> length bs = 16 \<and> riscv64_plt_slot plt bs = Some got"
proof -
  define d where "d = got - plt"
  let ?t = "to_le_bytes 4 (0xe0367 :: u32) @ to_le_bytes 4 (0x100073 :: u32)"
  let ?w0 = "(0xe17 AND NOT (dst_mask (rv_fields RV_UType))) OR scatter (rv_fields RV_UType) (ucast (d + 0x800)) :: u32"
  let ?w1 = "(0xe3e03 AND NOT (dst_mask (rv_fields RV_IType))) OR scatter (rv_fields RV_IType) (ucast d) :: u32"
  let ?bs = "to_le_bytes 4 ?w0 @ to_le_bytes 4 ?w1 @ ?t"
  have "uint d < 2 ^ 31 - 0x800" using assms(2) by (simp add: d_def word_less_def)
  then have u: "uint d < 2 ^ 31 - 0x800" "uint d < 2 ^ 63" by simp_all
  have s: "- (2 ^ 31) \<le> sint d" "sint d < 2 ^ 31 - 0x800" by (rule sint_lower [OF u(2)], simp only: sint_eq_uint [OF u(2)] u(1))
  let ?x = "to_le_bytes 4 (0xe17 :: u32) @ to_le_bytes 4 (0xe3e03 :: u32)"
  have ui: "riscv_write_to_value RV_UiType d False ?x = Some (to_le_bytes 4 ?w0 @ to_le_bytes 4 ?w1)"
    using riscv_ui_write [of d False "0xe17" "0xe3e03" "[]"] by (simp del: rv_fields.simps)
  have "in_slice 0 8 (riscv_write_to_value RV_UiType d False) RISCV64_PLT_TEMPLATE = Some ?bs"
    unfolding riscv64_template_words using ui by (simp add: in_slice_def slice_range_def copy_from_slice_def del: rv_fields.simps)
  then have w: "riscv64_write_plt_entry got plt = Inr ?bs"
    using assms(1) by (simp add: riscv64_write_plt_entry_def or_panic_def del: rv_fields.simps flip: d_def)
  have "rv_pair_offset (to_le_bytes 4 ?w0 @ to_le_bytes 4 ?w1) = Some d"
    using riscv_call_pair_correct [of ?x d False] s ui by (auto simp del: rv_fields.simps)
  then have pair: "rv_pair_offset ?bs = Some d"
    using u32_from_slice_word [of ?w1 "[]"] by (simp add: rv_pair_offset_def slice_simps del: rv_fields.simps drop_bit_or drop_bit_and)
  have masks: "NOT (dst_mask (rv_fields RV_UType)) = (0xfff :: u32)" "NOT (dst_mask (rv_fields RV_IType)) = (0xfffff :: u32)"
    by (simp_all add: mask_eq_exp_minus_1)
  have op: "?w0 AND 0xfff = 0xe17" "?w1 AND 0xfffff = 0xe3e03"
    using or_scatter_outside [of "0xe17 AND NOT (dst_mask (rv_fields RV_UType))" "rv_fields RV_UType" "ucast (d + 0x800) :: u32"]
      or_scatter_outside [of "0xe3e03 AND NOT (dst_mask (rv_fields RV_IType))" "rv_fields RV_IType" "ucast d :: u32"]
    unfolding masks by simp_all
  have "riscv64_plt_slot plt ?bs = Some (plt + d)"
    unfolding riscv64_plt_slot_def words_of_slice using pair op by (simp del: rv_fields.simps)
  then show ?thesis using w by (simp add: d_def)
qed

text \<open>An instruction of LoongArch with a merged 20-bit or 12-bit immediate.\<close>

lemma la_field_word:
  fixes v :: u64
  assumes "i = LA_Shift5 \<or> i = LA_Shift10" and "take_bit (la_width i) v = v" and "base AND dst_mask (la_fields i) = 0"
  shows "(base OR scatter (la_fields i) (ucast v)) AND NOT (dst_mask (la_fields i)) = (base :: u32)"
    and "ucast (gather (la_fields i) (base OR scatter (la_fields i) (ucast v) :: u32)) = v"
proof -
  show "(base OR scatter (la_fields i) (ucast v)) AND NOT (dst_mask (la_fields i)) = base"
    by (rule la.write_frame [OF assms(3)])
  have "(src_mask (la_fields i) :: u32) = mask (la_width i)" using assms(1) by auto
  then have "gather (la_fields i) (base OR scatter (la_fields i) (ucast v) :: u32) = take_bit (la_width i) (ucast v)"
    using la.gather_or_scatter [OF assms(3), of "ucast v"] by (simp only: take_bit_eq_mask)
  also have "(ucast (take_bit (la_width i) (ucast v :: u32)) :: u64) = take_bit (la_width i) (take_bit 32 v)"
    by (simp add: unsigned_take_bit_eq unsigned_ucast_eq)
  also have "\<dots> = v" using assms(1,2) by (auto simp: take_bit_take_bit)
  finally show "ucast (gather (la_fields i) (base OR scatter (la_fields i) (ucast v) :: u32)) = v" .
qed

lemma la_scatter:
  fixes v :: u64
  shows "take_bit 20 v = v \<Longrightarrow> (ucast (push_bit 5 v) :: u32) = scatter (la_fields LA_Shift5) (ucast v)"
    and "take_bit 12 v = v \<Longrightarrow> (ucast (push_bit 10 v) :: u32) = scatter (la_fields LA_Shift10) (ucast v)"
proof -
  have push: "(ucast (push_bit k v) :: u32) = push_bit k (ucast v)" for k
    by (rule bit_word_eqI) (auto simp: bit_simps)
  have trunc: "take_bit n (ucast v :: u32) = ucast v" if "take_bit n v = v" for n
    using that by (metis unsigned_take_bit_eq)
  show "take_bit 20 v = v \<Longrightarrow> (ucast (push_bit 5 v) :: u32) = scatter (la_fields LA_Shift5) (ucast v)"
    and "take_bit 12 v = v \<Longrightarrow> (ucast (push_bit 10 v) :: u32) = scatter (la_fields LA_Shift10) (ucast v)"
    using trunc by (simp_all add: push)
qed

text \<open>The pages of two addresses less than 2 GiB apart, the page of the higher one rounded to nearest.\<close>

lemma page_plus_low:
  assumes "take_bit 12 a = 0" and "take_bit 12 r = r"
  shows "(a + r) AND NOT (mask 12) = (a :: u64)"
proof -
  have "take_bit 12 (a + r) = r" using take_bit_add_word [of 12 a r] assms by simp
  then show ?thesis using take_bit_plus_rest [of 12 "a + r"] by (simp add: algebra_simps)
qed

lemma rounded_page_difference:
  fixes got plt :: u64
  assumes "0 < got - plt" and "got - plt < 2 ^ 31 - 0x2000"
  defines "a \<equiv> (got + 0x800) AND NOT (mask 12)" and "b \<equiv> plt AND NOT (mask 12)"
  shows "uint (a - b) < 2 ^ 31" and "push_bit 12 (drop_bit 12 (a - b)) = a - b"
    and "(plt + (a - b)) AND NOT (mask 12) = a" and "a + signed_take_bit 11 (take_bit 12 got) = got"
proof -
  define r1 where "r1 = take_bit 12 (got + 0x800)"
  define r2 where "r2 = take_bit 12 plt"
  have eqs: "r1 + a = got + 0x800" "r2 + b = plt" by (simp_all only: r1_def r2_def a_def b_def take_bit_plus_rest)
  have al: "take_bit 12 a = 0" "take_bit 12 b = 0" unfolding a_def b_def by (rule page_take_bit, simp)+
  then have al': "take_bit 12 (a - b) = 0" by (simp add: take_bit_sub_aligned)
  have small: "uint r1 < 4096" "uint r2 < 4096"
    using take_bit_int_less_exp [of 12 "uint (got + 0x800)"] take_bit_int_less_exp [of 12 "uint plt"] by (simp_all add: r1_def r2_def unsigned_take_bit_eq)
  define z where "z = uint (got - plt) + 2048 + uint r2 - uint r1"
  have "a = got + 0x800 - r1" "b = plt - r2" using eqs by (simp_all add: algebra_simps)
  then have "a - b = (got - plt) + 0x800 + r2 - r1" by simp
  also have "\<dots> = word_of_int z" unfolding z_def by (simp only: wi_hom_syms word_of_int_uint word_of_int_numeral)
  finally have d: "a - b = word_of_int z" .
  have "0 \<le> uint r1" "0 \<le> uint r2" by (rule uint_ge_0)+
  moreover have "0 < uint (got - plt)" "uint (got - plt) < 2 ^ 31 - 0x2000" using assms(1,2) by (simp_all add: word_less_def)
  ultimately have z: "- 4096 < z" "z < 2 ^ 31" using small unfolding z_def by linarith+
  have "take_bit 12 (uint (a - b)) = 0" using al' by (metis unsigned_0 unsigned_take_bit_eq)
  then have "take_bit 12 z = 0" by (simp add: d take_bit_take_bit uint_word_of_int_eq)
  then have "z mod 4096 = 0" by (simp add: take_bit_eq_mod)
  then obtain k where k: "z = 4096 * k" by (metis mod_eq_0_iff_dvd dvd_def)
  then have "0 \<le> k" using z(1) by linarith
  then have "0 \<le> z" using k by simp
  then have "uint (a - b) = z" using z(2) by (simp add: d uint_word_of_int_eq take_bit_int_eq_self)
  then show "uint (a - b) < 2 ^ 31" using z(2) by simp
  have "push_bit 12 (drop_bit 12 (a - b)) = (a - b) AND NOT (mask 12)" by (rule bit_word_eqI) (auto simp: bit_simps)
  also have "\<dots> = a - b" using take_bit_plus_rest [of 12 "a - b"] al' by simp
  finally show "push_bit 12 (drop_bit 12 (a - b)) = a - b" .
  have "plt + (a - b) = a + r2" using eqs(2) by (simp add: algebra_simps)
  moreover have "take_bit 12 r2 = r2" by (simp add: r2_def)
  from page_plus_low [OF al(1) this] have "(a + r2) AND NOT (mask 12) = a" .
  ultimately show "(plt + (a - b)) AND NOT (mask 12) = a" by (simp only:)
  have "take_bit 12 (take_bit 12 got + 0x800) = r1" by (simp add: r1_def take_bit_add_word)
  then show "a + signed_take_bit 11 (take_bit 12 got) = got"
    using eqs(1) by (simp add: signed_take_bit_shift algebra_simps)
qed

lemma loongarch64_plt_entry:
  assumes "plt < got" and "got - plt < 2 ^ 31 - 0x2000"
  shows "\<exists>bs. loongarch64_write_plt_entry got plt = Inr bs \<and> length bs = 16 \<and> loongarch64_plt_slot plt bs = Some got"
proof -
  define hi where "hi = drop_bit 12 (((got + SIZE_2KB) AND NOT PAGE_MASK_4KB) - (plt AND NOT PAGE_MASK_4KB))"
  define lo where "lo = got AND 0xfff"
  let ?t = "to_le_bytes 4 (0x4c0001ed :: u32) @ to_le_bytes 4 (0x2a0000 :: u32)"
  let ?w0 = "0x1a00000f OR scatter (la_fields LA_Shift5) (ucast hi) :: u32" and ?w1 = "0x28c001ef OR scatter (la_fields LA_Shift10) (ucast lo) :: u32"
  let ?bs = "to_le_bytes 4 ?w0 @ to_le_bytes 4 ?w1 @ ?t"
  have lo: "lo = take_bit 12 got" "take_bit 12 lo = lo" by (simp_all add: lo_def take_bit_eq_mask mask_eq_exp_minus_1)
  have "got - plt \<noteq> 0" using assms(1) by auto
  then have page: "0 < got - plt" unfolding word_greater_zero_iff .
  note near = rounded_page_difference [OF this assms(2)]
  have hi_eq: "hi = drop_bit 12 (((got + 0x800) AND NOT (mask 12)) - (plt AND NOT (mask 12)))"
    by (simp add: hi_def SIZE_2KB_def PAGE_MASK_4KB_mask)
  have "unat (((got + 0x800) AND NOT (mask 12)) - (plt AND NOT (mask 12))) < 2 ^ 31" by (rule uint_less_unat [OF near(1)])
  then have hi: "unat hi < 2 ^ 19" by (simp add: hi_eq unat_drop_bit_eq drop_bit_eq_div [where 'a = nat])
  then have hi20: "take_bit 20 hi = hi" by (simp add: take_bit_word_eq_self_iff)
  have merge: "or_from_slice (to_le_bytes 4 x) (to_le_bytes 4 (y :: u32)) = Some (to_le_bytes 4 (x OR y))" for x y
    using or_from_slice_word [of 4 x "[]" y] by simp
  have w: "loongarch64_write_plt_entry got plt = Inr ?bs"
    unfolding loongarch64_write_plt_entry_def Let_def loongarch64_template_words
    using assms(1) la_scatter(1) [OF hi20] la_scatter(2) [OF lo(2)]
    by (simp add: in_slice_first in_slice_second merge or_panic_def del: la_fields.simps flip: hi_def lo_def)
  have clear: "(0x1a00000f :: u32) AND dst_mask (la_fields LA_Shift5) = 0" "(0x28c001ef :: u32) AND dst_mask (la_fields LA_Shift10) = 0"
    by (simp_all add: mask_eq_exp_minus_1)
  have w0: "?w0 AND NOT (dst_mask (la_fields LA_Shift5)) = 0x1a00000f" "ucast (gather (la_fields LA_Shift5) ?w0) = hi"
    by (rule la_field_word [OF _ _ clear(1)], simp, simp add: hi20)+
  have w1: "?w1 AND NOT (dst_mask (la_fields LA_Shift10)) = 0x28c001ef" "ucast (gather (la_fields LA_Shift10) ?w1) = lo"
    by (rule la_field_word [OF _ _ clear(2)], simp, simp add: lo(2))+
  have "gather (la_fields LA_Shift5) x = take_bit 20 (drop_bit 5 x)" "gather (la_fields LA_Shift10) x = take_bit 12 (drop_bit 10 x)" for x :: u32
    by simp_all
  then have fields: "ucast (take_bit 20 (drop_bit 5 ?w0)) = hi" "ucast (take_bit 12 (drop_bit 10 ?w1)) = lo" using w0(2) w1(2) by metis+
  have op: "?w0 AND 0xfe00001f = 0x1a00000f" "?w1 AND 0xffc003ff = 0x28c001ef"
    using w0(1) w1(1) by (simp_all only: la_keep_masks)
  have "((plt + push_bit 12 (signed_take_bit 19 hi)) AND NOT (mask 12)) + signed_take_bit 11 lo = got"
    unfolding sign_extend_small [OF hi, simplified] lo(1) unfolding hi_eq near(2,3) by (rule near(4))
  then have "loongarch64_plt_slot plt ?bs = Some got"
    unfolding loongarch64_plt_slot_def words_of_slice using fields op by (simp del: la_fields.simps)
  then show ?thesis using w by simp
qed

subsection \<open>The contract of an architecture\<close>

text \<open>What the writer of the tables relies on: an entry that can be written has 16 bytes and jumps through its GOT entry.\<close>

locale plt_writer =
  fixes write_plt :: "u64 \<Rightarrow> u64 \<Rightarrow> plt_error + bytes"
    and slot :: "u64 \<Rightarrow> bytes \<Rightarrow> u64 option"
    and reach :: "u64 \<Rightarrow> u64 \<Rightarrow> bool"
  assumes writes: "reach got plt \<Longrightarrow> \<exists>bs. write_plt got plt = Inr bs \<and> length bs = 16 \<and> slot plt bs = Some got"

interpretation plt_x86_64: plt_writer "arch_write_plt_entry Arch_X86_64" "plt_slot Arch_X86_64" "plt_reach Arch_X86_64"
  by unfold_locales (simp add: x86_64_plt_entry del: One_nat_def)

interpretation plt_aarch64: plt_writer "arch_write_plt_entry Arch_AArch64" "plt_slot Arch_AArch64" "plt_reach Arch_AArch64"
  by unfold_locales (simp add: aarch64_plt_entry)

interpretation plt_riscv64: plt_writer "arch_write_plt_entry Arch_RISCV64" "plt_slot Arch_RISCV64" "plt_reach Arch_RISCV64"
  by unfold_locales (simp add: riscv64_plt_entry)

interpretation plt_loongarch64: plt_writer "arch_write_plt_entry Arch_LoongArch64" "plt_slot Arch_LoongArch64" "plt_reach Arch_LoongArch64"
  by unfold_locales (simp add: loongarch64_plt_entry)

interpretation plt_arch: plt_writer "arch_write_plt_entry arch" "plt_slot arch" "plt_reach arch" for arch
  by (cases arch) (simp_all only: plt_x86_64.plt_writer_axioms plt_aarch64.plt_writer_axioms plt_riscv64.plt_writer_axioms plt_loongarch64.plt_writer_axioms)



subsection \<open>Thunks\<close>

lemma page_count_shift:
  assumes "take_bit 12 d = 0" and "- (2 ^ 32) \<le> sint d" and "sint d < 2 ^ 32"
  shows "push_bit 12 (signed_take_bit 20 (take_bit 21 (word_of_int (sint d sdiv 4096)))) = (d :: u64)"
proof -
  have "take_bit 12 (uint d) = 0" using assms(1) by (metis unsigned_0 unsigned_take_bit_eq)
  then have "take_bit 12 (sint d) = 0" by (simp add: sint_uint take_bit_signed_take_bit)
  then have "sint d mod 4096 = 0" by (simp add: take_bit_eq_mod)
  then obtain k where k: "sint d = 4096 * k" by (metis mod_eq_0_iff_dvd dvd_def)
  then have "sint d sdiv 4096 = k" by (simp add: signed_divide_int_def abs_mult sgn_mult mult_sgn_abs)
  moreover have "- (2 ^ 20) \<le> k" "k < 2 ^ 20" using assms(2,3) k by simp_all
  then have "signed_take_bit 20 k = k" by (intro signed_take_bit_int_eq_self) simp_all
  moreover have "signed_take_bit 20 (word_of_int k :: u64) = word_of_int (signed_take_bit 20 k)"
    by (rule bit_word_eqI) (simp add: bit_simps min_def)
  moreover have "push_bit 12 (word_of_int k :: u64) = word_of_int (4096 * k)" by (simp add: push_bit_eq_mult)
  moreover have "signed_take_bit 20 (take_bit 21 (word_of_int k :: u64)) = signed_take_bit 20 (word_of_int k)"
    by (simp add: signed_take_bit_take_bit)
  moreover have "word_of_int (4096 * k) = d" unfolding k [symmetric] by transfer simp
  ultimately show ?thesis by metis
qed

lemma aarch64_thunk_words:
  "AARCH64_THUNK_TEMPLATE = to_le_bytes 4 (0x90000010 :: u32) @ to_le_bytes 4 (0x91000210 :: u32) @ to_le_bytes 4 (0xd61f0200 :: u32)"
  by (simp add: AARCH64_THUNK_TEMPLATE_def to_le_bytes_4)

text \<open>C32. A thunk of AArch64 is 12 bytes, and branches to its target, whenever the page of the target is within 4 GiB of the page of the thunk,
  in both directions and across the ends of the address space.\<close>

theorem aarch64_thunk_reaches:
  assumes "- (2 ^ 32) \<le> sint ((target AND NOT PAGE_MASK_4KB) - (thunk AND NOT PAGE_MASK_4KB))"
    and "sint ((target AND NOT PAGE_MASK_4KB) - (thunk AND NOT PAGE_MASK_4KB)) < 2 ^ 32"
  shows "\<exists>bs. aarch64_write_thunk thunk target = Some bs \<and> length bs = 12 \<and> aarch64_thunk_target thunk bs = Some target"
proof -
  define d where "d = (target AND NOT PAGE_MASK_4KB) - (thunk AND NOT PAGE_MASK_4KB)"
  define v where "v = take_bit 21 (word_of_int (sint d sdiv 4096) :: u64)"
  define lo where "lo = target AND PAGE_MASK_4KB"
  have v21: "take_bit 21 v = v" by (simp add: v_def)
  have "take_bit 12 d = 0" unfolding d_def PAGE_MASK_4KB_mask by (simp only: take_bit_sub_aligned page_take_bit le_refl)
  from page_count_shift [OF this] have page: "push_bit 12 (signed_take_bit 20 v) = d" using assms by (simp add: v_def d_def)
  have lo_eq: "lo = take_bit 12 target" by (simp add: lo_def PAGE_MASK_4KB_mask take_bit_eq_mask)
  then have lo_small: "unat lo < 2 ^ 12" using take_bit_nat_less_exp [of 12 "unat target"] by (simp add: unsigned_take_bit_eq)
  have v_eq: "word_of_int (sint d sdiv sint SIZE_4KB) AND 0x1fffff = v"
    by (simp add: v_def take_bit_eq_mask SIZE_4KB_def mask_eq_exp_minus_1)
  let ?w0 = "0x90000010 OR scatter (a64_fields A64_Adr) (ucast v) :: u32" and ?w1 = "0x91000210 OR scatter (a64_fields A64_Add) (ucast lo) :: u32"
  let ?bs = "to_le_bytes 4 ?w0 @ to_le_bytes 4 ?w1 @ to_le_bytes 4 (0xd61f0200 :: u32)"
  have "in_slice 0 4 (aarch64_write_to_value A64_Adr v False) AARCH64_THUNK_TEMPLATE =
      Some (to_le_bytes 4 ?w0 @ to_le_bytes 4 (0x91000210 :: u32) @ to_le_bytes 4 (0xd61f0200 :: u32))"
    unfolding aarch64_thunk_words
    by (rule in_slice_first, rule a64_merge) (simp_all add: a64_or_only_def v21)
  moreover have "in_slice 4 8 (aarch64_write_to_value A64_Add lo False)
      (to_le_bytes 4 ?w0 @ to_le_bytes 4 (0x91000210 :: u32) @ to_le_bytes 4 (0xd61f0200 :: u32)) = Some ?bs"
    by (rule in_slice_second, rule a64_merge) (use lo_small in \<open>simp_all add: a64_or_only_def take_bit_word_eq_self_iff\<close>)
  ultimately have w: "aarch64_write_thunk thunk target = Some ?bs"
    unfolding aarch64_write_thunk_def Let_def d_def [symmetric] v_eq lo_def [symmetric] by (simp del: a64_fields.simps)
  have "(thunk AND NOT (mask 12)) + d + lo = target"
    using take_bit_plus_rest [of 12 target] by (simp add: d_def lo_eq PAGE_MASK_4KB_mask algebra_simps)
  moreover have clear: "(0x91000210 :: u32) AND dst_mask (a64_fields A64_Add) = 0" by (simp add: mask_eq_exp_minus_1)
  ultimately have "aarch64_thunk_target thunk ?bs = Some target"
    unfolding aarch64_thunk_target_def using u32_from_slice_word [of "0xd61f0200" "[]"]
    using adrp_word [OF v21, of thunk] imm12_word [OF disjI2 [OF refl] lo_small clear]
    by (simp add: page PAGE_MASK_4KB_mask words_of_slice(1) slice_simps del: a64_fields.simps)
  then show ?thesis using w by simp
qed

theorem aarch64_thunk_reaches_witness:
  "\<exists>bs. aarch64_write_thunk 0x8000000 0x401234 = Some bs \<and> length bs = 12 \<and> aarch64_thunk_target 0x8000000 bs = Some 0x401234"
  by (rule aarch64_thunk_reaches) (simp_all add: PAGE_MASK_4KB_def SIZE_4KB_def)

subsection \<open>Kinds from types\<close>

text \<open>Looking up the type of a kind gives the kind back, but on RISC-V and LoongArch a GOT entry has the type of an absolute address.\<close>

fun arch_from_r_type :: "architecture \<Rightarrow> (string \<Rightarrow> u32) \<Rightarrow> u32 \<Rightarrow> dynamic_relocation_kind option" where
  "arch_from_r_type Arch_X86_64 = from_x86_64_r_type"
| "arch_from_r_type Arch_AArch64 = from_aarch64_r_type"
| "arch_from_r_type Arch_RISCV64 = from_riscv64_r_type"
| "arch_from_r_type Arch_LoongArch64 = from_loongarch64_r_type"

definition shares_got_type :: "architecture \<Rightarrow> bool" where
  "shares_got_type arch \<longleftrightarrow> arch = Arch_RISCV64 \<or> arch = Arch_LoongArch64"

text \<open>On each architecture the kind of a dynamic relocation is read back from its type, if the type numbers of the ELF headers are distinct;
  on RISC-V and LoongArch, where a GOT entry is relocated like an absolute address, a GOT entry is read back as an absolute address.\<close>

lemma dynamic_relocation_roundtrip:
  assumes "distinct (map (arch_r_type arch elf) (if shares_got_type arch then remove1 DR_GotEntry all_dynamic_relocations else all_dynamic_relocations))"
  shows "arch_from_r_type arch elf (arch_r_type arch elf k) = Some (if shares_got_type arch \<and> k = DR_GotEntry then DR_Absolute else k)"
proof -
  have order: "map_of (map (\<lambda>k. (f k, k)) ks) (f k) = Some k"
    if "mset ks = mset ls" "distinct (map f ls)" "k \<in> set ls" for f :: "dynamic_relocation_kind \<Rightarrow> u32" and ks ls k
    using that by (intro map_of_roundtrip) (metis mset_eq_imp_distinct_iff mset_map, metis mset_eq_setD)
  show ?thesis
  proof (cases arch)
    case Arch_X86_64
    then have d: "distinct (map (x86_64_r_type elf) all_dynamic_relocations)"
      using assms by (simp only: shares_got_type_def arch_r_type.simps simp_thms if_False architecture.distinct)
    have "from_x86_64_r_type elf (x86_64_r_type elf k) = Some k"
      unfolding from_r_type_tables(1)
      by (rule order [OF _ d in_all_dynamic_relocations]) (simp add: all_dynamic_relocations_def)
    then show ?thesis using Arch_X86_64 by (simp add: shares_got_type_def)
  next
    case Arch_AArch64
    then have d: "distinct (map (aarch64_r_type elf) all_dynamic_relocations)"
      using assms by (simp only: shares_got_type_def arch_r_type.simps simp_thms if_False architecture.distinct)
    have "from_aarch64_r_type elf (aarch64_r_type elf k) = Some k"
      unfolding from_r_type_tables(2)
      by (rule order [OF _ d in_all_dynamic_relocations]) (simp add: all_dynamic_relocations_def)
    then show ?thesis using Arch_AArch64 by (simp add: shares_got_type_def)
  next
    case Arch_RISCV64
    then have d: "distinct (map (riscv64_r_type elf) (remove1 DR_GotEntry all_dynamic_relocations))"
      using assms by (simp only: shares_got_type_def arch_r_type.simps simp_thms if_True)
    let ?k = "if k = DR_GotEntry then DR_Absolute else k"
    have m: "?k \<in> set (remove1 DR_GotEntry all_dynamic_relocations)" by (cases k) (simp_all add: all_dynamic_relocations_def)
    have "from_riscv64_r_type elf (riscv64_r_type elf ?k) = Some ?k"
      unfolding from_r_type_tables(3) by (rule order [OF _ d m]) (simp add: all_dynamic_relocations_def)
    moreover have "riscv64_r_type elf k = riscv64_r_type elf ?k" by simp
    ultimately show ?thesis using Arch_RISCV64 by (simp add: shares_got_type_def)
  next
    case Arch_LoongArch64
    then have d: "distinct (map (loongarch64_r_type elf) (remove1 DR_GotEntry all_dynamic_relocations))"
      using assms by (simp only: shares_got_type_def arch_r_type.simps simp_thms if_True)
    let ?k = "if k = DR_GotEntry then DR_Absolute else k"
    have m: "?k \<in> set (remove1 DR_GotEntry all_dynamic_relocations)" by (cases k) (simp_all add: all_dynamic_relocations_def)
    have "from_loongarch64_r_type elf (loongarch64_r_type elf ?k) = Some ?k"
      unfolding from_r_type_tables(4) by (rule order [OF _ d m]) (simp add: all_dynamic_relocations_def)
    moreover have "loongarch64_r_type elf k = loongarch64_r_type elf ?k" by simp
    ultimately show ?thesis using Arch_LoongArch64 by (simp add: shares_got_type_def)
  qed
qed

lemma dynamic_relocation_roundtrip_witness:
  "let elf = (\<lambda>s. if s = ''R_RISCV_COPY'' then 4
      else if s = ''R_RISCV_IRELATIVE'' then 58
      else if s = ''R_RISCV_TLS_DTPMOD64'' then 7
      else if s = ''R_RISCV_TLS_DTPREL64'' then 9
      else if s = ''R_RISCV_TLS_TPREL64'' then 11
      else if s = ''R_RISCV_RELATIVE'' then 3
      else if s = ''R_RISCV_64'' then 2
      else if s = ''R_RISCV_TLSDESC'' then 12
      else if s = ''R_RISCV_JUMP_SLOT'' then 5 else 0)
   in arch_from_r_type Arch_RISCV64 elf (arch_r_type Arch_RISCV64 elf DR_GotEntry) = Some DR_Absolute
    \<and> arch_from_r_type Arch_RISCV64 elf (arch_r_type Arch_RISCV64 elf DR_TpOff) = Some DR_TpOff"
proof -
  let ?elf = "\<lambda>s. if s = ''R_RISCV_COPY'' then 4
      else if s = ''R_RISCV_IRELATIVE'' then 58
      else if s = ''R_RISCV_TLS_DTPMOD64'' then 7
      else if s = ''R_RISCV_TLS_DTPREL64'' then 9
      else if s = ''R_RISCV_TLS_TPREL64'' then 11
      else if s = ''R_RISCV_RELATIVE'' then 3
      else if s = ''R_RISCV_64'' then 2
      else if s = ''R_RISCV_TLSDESC'' then 12
      else if s = ''R_RISCV_JUMP_SLOT'' then 5 else 0"
  have "distinct (map (arch_r_type Arch_RISCV64 ?elf) (if shares_got_type Arch_RISCV64 then remove1 DR_GotEntry all_dynamic_relocations else all_dynamic_relocations))"
    by (simp add: shares_got_type_def all_dynamic_relocations_def)
  from dynamic_relocation_roundtrip [OF this, of DR_GotEntry] dynamic_relocation_roundtrip [OF this, of DR_TpOff]
  show ?thesis unfolding Let_def by (simp add: shares_got_type_def)
qed

end
