(* ===== verification/Table_Writer.thy ===== *)
theory Table_Writer
  imports Resolution_Passes Plt_Entries
begin

unbundle bit_operations_syntax

text \<open>
  The \<^verbatim>\<open>TableWriter\<close> of \<^verbatim>\<open>libsld/src/elf_writer.rs\<close>, as far as it serves resolutions: taking entries of the GOT,
  the PLT and the relocation sections, \<^verbatim>\<open>process_resolution\<close> and \<^verbatim>\<open>validate_empty\<close>.
\<close>

datatype write_error =
    W_Insufficient string
  | W_Excessive string
  | W_MissingLayout
  | W_NotInTlsSegment u64
  | W_NotAddress
  | W_MissingDynamicIndex
  | W_MissingPlt
  | W_MissingGot
  | W_StaticTlsDesc
  | W_PltEntry
  | W_DebugAssert
  | W_Panic

definition and_then :: "('e + 'a) \<Rightarrow> ('a \<Rightarrow> 'e + 'b) \<Rightarrow> 'e + 'b" where
  "and_then x f = (case x of Inl e \<Rightarrow> Inl e | Inr a \<Rightarrow> f a)"

lemma and_then_simps [simp]: "and_then (Inl e) f = Inl e" "and_then (Inr a) f = f a"
  by (simp_all add: and_then_def)

definition ensure_that :: "bool \<Rightarrow> write_error \<Rightarrow> 's \<Rightarrow> write_error + 's" where
  "ensure_that c e s = (if c then Inr s else Inl e)"

text \<open>What \<^verbatim>\<open>trait Arch\<close> provides for the tables, and the four architectures.\<close>

record arch_ops =
  dynamic_relocation_type :: "dynamic_relocation_kind \<Rightarrow> u32"
  write_plt_bytes :: "u64 \<Rightarrow> u64 \<Rightarrow> plt_error + bytes"
  dtv_offset :: u64

definition arch_ops_of :: "architecture \<Rightarrow> (string \<Rightarrow> u32) \<Rightarrow> arch_ops" where
  "arch_ops_of arch elf = \<lparr>dynamic_relocation_type = arch_r_type arch elf, write_plt_bytes = arch_write_plt_entry arch,
     dtv_offset = get_dtv_offset arch\<rparr>"

record rela =
  rela_offset :: u64
  rela_symbol :: u32
  rela_type :: u32
  rela_addend :: i64

record table_writer =
  tw_kind :: output_kind
  tw_relr_enabled :: bool
  tw_tls :: "u64 \<times> u64"
  got_left :: nat
  got_out :: "u64 list"
  plt_left :: nat
  plt_out :: bytes
  rela_plt_left :: nat
  rela_plt_out :: "rela list"
  relative_left :: nat
  relative_out :: "rela list"
  general_left :: nat
  general_out :: "rela list"
  relr_left :: "nat option"
  relr_out :: "u64 list"

text \<open>\<^verbatim>\<open>TableWriter::new\<close>: the buffers have the sizes of a part map.\<close>

definition table_writer_new :: "output_kind \<Rightarrow> u64 \<times> u64 \<Rightarrow> bool \<Rightarrow> u64 list \<Rightarrow> table_writer option" where
  "table_writer_new okind tls relr sizes =
     do {
       got \<leftarrow> part_get GOT sizes;
       plt \<leftarrow> part_get PLT_GOT sizes;
       rela_plt \<leftarrow> part_get RELA_PLT sizes;
       relative \<leftarrow> part_get RELA_DYN_RELATIVE sizes;
       general \<leftarrow> part_get RELA_DYN_GENERAL sizes;
       packed \<leftarrow> part_get RELR_DYN sizes;
       if got mod 8 \<noteq> 0 then None
       else Some \<lparr>tw_kind = okind, tw_relr_enabled = relr, tw_tls = tls, got_left = unat got div 8, got_out = [],
         plt_left = unat plt, plt_out = [], rela_plt_left = unat rela_plt div 24, rela_plt_out = [],
         relative_left = unat relative div 24, relative_out = [], general_left = unat general div 24, general_out = [],
         relr_left = (if relr \<and> unat packed div 8 \<noteq> 0 then Some (unat packed div 8) else None), relr_out = []\<rparr>
     }"

subsection \<open>Taking entries\<close>

text \<open>\<^verbatim>\<open>*self.take_next_got_entry()? = v\<close>.\<close>

definition write_got :: "u64 \<Rightarrow> table_writer \<Rightarrow> write_error + table_writer" where
  "write_got v w = (if got_left w = 0 then Inl (W_Insufficient ''.got'')
     else Inr (w\<lparr>got_left := got_left w - 1, got_out := got_out w @ [v]\<rparr>))"

definition write_plt_entry :: "arch_ops \<Rightarrow> u64 \<Rightarrow> u64 \<Rightarrow> table_writer \<Rightarrow> write_error + table_writer" where
  "write_plt_entry arch got plt w =
     (if plt_left w < 16 then Inl (W_Insufficient ''.plt.got'')
      else case write_plt_bytes arch got plt of
        Inl PltTooFar \<Rightarrow> Inl W_PltEntry
      | Inl PltPanic \<Rightarrow> Inl W_Panic
      | Inr bs \<Rightarrow> Inr (w\<lparr>plt_left := plt_left w - 16, plt_out := plt_out w @ bs\<rparr>))"

definition write_ifunc_relocation :: "arch_ops \<Rightarrow> resolution \<Rightarrow> table_writer \<Rightarrow> write_error + table_writer" where
  "write_ifunc_relocation arch res w =
     (if rela_plt_left w = 0 then Inl W_Panic
      else case got_address res of
        None \<Rightarrow> Inl W_MissingGot
      | Some got \<Rightarrow> Inr (w\<lparr>rela_plt_left := rela_plt_left w - 1, rela_plt_out := rela_plt_out w @
          [\<lparr>rela_offset = got, rela_symbol = 0, rela_type = dynamic_relocation_type arch DR_Irelative, rela_addend = raw_value res\<rparr>]\<rparr>))"

definition write_rela_dyn_general :: "u64 \<Rightarrow> u32 \<Rightarrow> u32 \<Rightarrow> i64 \<Rightarrow> table_writer \<Rightarrow> write_error + table_writer" where
  "write_rela_dyn_general place idx r_type addend w =
     (if \<not> needs_dynsym (tw_kind w) then Inl W_DebugAssert
      else if general_left w = 0 then Inl (W_Insufficient ''.rela.dyn (non-relative)'')
      else Inr (w\<lparr>general_left := general_left w - 1, general_out := general_out w @
        [\<lparr>rela_offset = place, rela_symbol = idx, rela_type = r_type, rela_addend = addend\<rparr>]\<rparr>))"

text \<open>The result has the value that goes to the place.\<close>

definition write_address_relocation :: "arch_ops \<Rightarrow> u64 \<Rightarrow> u64 \<Rightarrow> table_writer \<Rightarrow> write_error + (u64 \<times> table_writer)" where
  "write_address_relocation arch place relative_address w =
     (if \<not> is_relocatable (tw_kind w) then Inl W_DebugAssert
      else if relr_left w \<noteq> None \<and> even place then
        (if relr_left w = Some 0 then Inl (W_Insufficient ''.relr.dyn'')
         else Inr (relative_address, w\<lparr>relr_left := map_option (\<lambda>n. n - 1) (relr_left w), relr_out := relr_out w @ [place]\<rparr>))
      else if relative_left w = 0 then Inl (W_Insufficient ''.rela.dyn (relative)'')
      else Inr (0, w\<lparr>relative_left := relative_left w - 1, relative_out := relative_out w @
        [\<lparr>rela_offset = place, rela_symbol = 0, rela_type = dynamic_relocation_type arch DR_Relative, rela_addend = relative_address\<rparr>]\<rparr>))"

definition debug_assert_general :: "resolution \<Rightarrow> table_writer \<Rightarrow> write_error + table_writer" where
  "debug_assert_general res w =
     (case compute_allocations (res_flags res) (tw_kind w) (tw_relr_enabled w) of
        None \<Rightarrow> Inl W_Panic
      | Some sizes \<Rightarrow> ensure_that (\<exists>n \<in> set_option (part_get RELA_DYN_GENERAL sizes). 0 < n) W_DebugAssert w)"

subsection \<open>Resolutions\<close>

definition process_got_tls_offset :: "arch_ops \<Rightarrow> resolution \<Rightarrow> u64 \<Rightarrow> u64 \<Rightarrow> table_writer \<Rightarrow> write_error + table_writer" where
  "process_got_tls_offset arch res tp_offset_start got w =
     (let address = raw_value res; (tls_start, tls_end) = tw_tls w;
          tpoff = dynamic_relocation_type arch DR_TpOff in
      if got_left w = 0 then Inl (W_Insufficient ''.got'')
      else if has_dynamic_symbol (res_flags res) then
        (case dynamic_symbol_index res of
           None \<Rightarrow> Inl W_MissingDynamicIndex
         | Some idx \<Rightarrow> and_then (write_got 0 w) (write_rela_dyn_general got idx tpoff 0))
      else if address = 0 then write_got 0 w
      else if \<not> (tls_start \<le> address \<and> address \<le> tls_end) then Inl (W_NotInTlsSegment address)
      else if is_executable (tw_kind w) then write_got (address - tp_offset_start) w
      else
        and_then (debug_assert_general res w) (\<lambda>w.
        and_then (write_got 0 w)
          (write_rela_dyn_general got 0 tpoff (address - tls_start))))"

definition process_got_tls_mod_and_offset :: "arch_ops \<Rightarrow> resolution \<Rightarrow> u64 \<Rightarrow> table_writer \<Rightarrow> write_error + table_writer" where
  "process_got_tls_mod_and_offset arch res got w =
     (let flags = res_flags res in
      and_then
        (if is_executable (tw_kind w) \<and> \<not> is_dynamic flags then write_got 1 w
         else
           and_then (write_got 0 w) (\<lambda>w.
           and_then (debug_assert_general res w)
             (write_rela_dyn_general got (case dynamic_symbol_index res of None \<Rightarrow> 0 | Some i \<Rightarrow> i) (dynamic_relocation_type arch DR_DtpMod) 0)))
        (\<lambda>w. if got_left w = 0 then Inl (W_Insufficient ''.got'')
          else case dynamic_symbol_index res of
            Some idx \<Rightarrow>
              and_then (write_got 0 w) (\<lambda>w.
                if vf_is_interposable flags then write_rela_dyn_general (got + 8) idx (dynamic_relocation_type arch DR_DtpOff) 0 w
                else Inr w)
          | None \<Rightarrow>
              if \<not> is_address flags then Inl W_NotAddress
              else write_got (raw_value res - fst (tw_tls w) - dtv_offset arch) w))"

definition process_got_tls_descriptor :: "arch_ops \<Rightarrow> resolution \<Rightarrow> u64 \<Rightarrow> table_writer \<Rightarrow> write_error + table_writer" where
  "process_got_tls_descriptor arch res got w =
     and_then (write_got 0 w) (\<lambda>w.
     and_then (write_got 0 w) (\<lambda>w.
     and_then (ensure_that (\<not> is_static_executable (tw_kind w)) W_StaticTlsDesc w) (\<lambda>w.
     and_then (debug_assert_general res w)
       (write_rela_dyn_general got (case dynamic_symbol_index res of None \<Rightarrow> 0 | Some i \<Rightarrow> i)
          (dynamic_relocation_type arch DR_TlsDesc)
          (if dynamic_symbol_index res = None then raw_value res - fst (tw_tls w) else 0)))))"

text \<open>The branch for thread-local symbols; the argument \<open>layout\<close> is the start of thread pointer offsets when there is a layout.\<close>

definition process_tls :: "arch_ops \<Rightarrow> u64 option \<Rightarrow> resolution \<Rightarrow> u64 \<Rightarrow> table_writer \<Rightarrow> write_error + table_writer" where
  "process_tls arch layout res got w =
     (let flags = res_flags res;
          got2 = (if needs_got_tls_offset flags then got + GOT_ENTRY_SIZE else got);
          got3 = (if needs_got_tls_module flags then got2 + 2 * GOT_ENTRY_SIZE else got2) in
      and_then
        (if needs_got_tls_offset flags then
           (case layout of None \<Rightarrow> Inl W_MissingLayout | Some tp \<Rightarrow> process_got_tls_offset arch res tp got w)
         else Inr w) (\<lambda>w.
      and_then (if needs_got_tls_module flags then process_got_tls_mod_and_offset arch res got2 w else Inr w) (\<lambda>w.
        if needs_got_tls_descriptor flags then process_got_tls_descriptor arch res got3 w else Inr w)))"

text \<open>The entry of the GOT of a symbol that is not thread-local.\<close>

definition process_got_entry :: "arch_ops \<Rightarrow> resolution \<Rightarrow> u64 \<Rightarrow> table_writer \<Rightarrow> write_error + table_writer" where
  "process_got_entry arch res got w =
     (let flags = res_flags res in
      if got_left w = 0 then Inl (W_Insufficient ''.got'')
      else if is_dynamic flags \<or> (needs_export_dynamic flags \<and> vf_is_interposable flags) \<and> \<not> is_ifunc flags then
        and_then (debug_assert_general res w) (\<lambda>w.
          case dynamic_symbol_index res of
            None \<Rightarrow> Inl W_MissingDynamicIndex
          | Some idx \<Rightarrow> and_then (write_got 0 w) (write_rela_dyn_general got idx (dynamic_relocation_type arch DR_GotEntry) 0))
      else if is_ifunc flags then and_then (write_got 0 w) (write_ifunc_relocation arch res)
      else if is_address flags \<and> is_relocatable (tw_kind w) then
        and_then (write_address_relocation arch got (raw_value res) w) (\<lambda>(v, w). write_got v w)
      else write_got (raw_value res) w)"

definition process_ifunc_address :: "arch_ops \<Rightarrow> resolution \<Rightarrow> u64 \<Rightarrow> table_writer \<Rightarrow> write_error + table_writer" where
  "process_ifunc_address arch res got w =
     (if got_left w = 0 then Inl (W_Insufficient ''.got'')
      else case plt_address res of
        None \<Rightarrow> Inl W_MissingPlt
      | Some plt \<Rightarrow>
          if is_relocatable (tw_kind w) then
            and_then (write_address_relocation arch (got + GOT_ENTRY_SIZE) plt w) (\<lambda>(v, w). write_got v w)
          else write_got plt w)"

definition process_resolution :: "arch_ops \<Rightarrow> u64 option \<Rightarrow> resolution \<Rightarrow> table_writer \<Rightarrow> write_error + table_writer" where
  "process_resolution arch layout res w =
     (case got_address res of
        None \<Rightarrow> Inr w
      | Some got \<Rightarrow>
          if vf_is_tls (res_flags res) then process_tls arch layout res got w
          else
            and_then (process_got_entry arch res got w) (\<lambda>w.
            and_then (case plt_address res of None \<Rightarrow> Inr w | Some plt \<Rightarrow> write_plt_entry arch got plt w) (\<lambda>w.
              if needs_ifunc_got_for_address (res_flags res) then process_ifunc_address arch res got w else Inr w)))"

text \<open>\<^verbatim>\<open>validate_empty\<close> for these buffers; what is left of the general relocations is cleared.\<close>

definition null_rela :: rela where
  "null_rela = \<lparr>rela_offset = 0, rela_symbol = 0, rela_type = 0, rela_addend = 0\<rparr>"

definition validate_empty :: "u64 \<Rightarrow> table_writer \<Rightarrow> write_error + table_writer" where
  "validate_empty general_padding w =
     (if got_left w \<noteq> 0 then Inl (W_Excessive ''.got'')
      else if relative_left w \<noteq> 0 then Inl (W_Excessive ''.rela.dyn (relative)'')
      else if unat general_padding < general_left w * 24 then Inl (W_Excessive ''.rela.dyn (general)'')
      else if \<exists>n \<in> set_option (relr_left w). n \<noteq> 0 then Inl (W_Excessive ''.relr.dyn'')
      else Inr (w\<lparr>general_left := 0, general_out := general_out w @ replicate (general_left w) null_rela\<rparr>))"

end
