(* ===== verification/Resolution_Sizes.thy ===== *)
theory Resolution_Sizes
  imports Table_Writer
begin

unbundle bit_operations_syntax

text \<open>
  What one symbol adds to the sizes of the parts, and what creating its resolution adds to the offsets: sums over a part map.
\<close>

subsection \<open>Increments as sums\<close>

definition pm_add :: "(nat \<Rightarrow> u64) \<Rightarrow> u64 list \<Rightarrow> u64 list" where
  "pm_add c m = map (\<lambda>i. m ! i + c i) [0..<length m]"

definition single :: "part_id \<Rightarrow> u64 \<Rightarrow> nat \<Rightarrow> u64" where
  "single p n i = (if i = unat p then n else 0)"

lemma length_pm_add [simp]: "length (pm_add c m) = length m"
  by (simp add: pm_add_def)

lemma nth_pm_add [simp]: "i < length m \<Longrightarrow> pm_add c m ! i = m ! i + c i"
  by (simp add: pm_add_def)

lemma pm_add_pm_add: "pm_add c (pm_add d m) = pm_add (\<lambda>i. d i + c i) m"
  by (rule nth_equalityI) (simp_all add: add.assoc)

lemma pm_add_zero: "pm_add (\<lambda>i. 0) m = m"
  by (rule nth_equalityI) simp_all

text \<open>A function on part maps that adds to the parts.\<close>

definition adds :: "(u64 list \<Rightarrow> u64 list option) \<Rightarrow> (nat \<Rightarrow> u64) \<Rightarrow> bool" where
  "adds f c \<longleftrightarrow> (\<forall>m. 30 \<le> length m \<longrightarrow> f m = Some (pm_add c m))"

lemma adds_increment: "unat p < 30 \<Longrightarrow> adds (part_increment p n) (single p n)"
  by (auto simp: adds_def part_increment_def part_get_def get_at_def set_at_def single_def nth_list_update intro!: nth_equalityI)

lemma adds_Some: "adds Some (\<lambda>i. 0)"
  by (simp add: adds_def pm_add_zero)

lemma adds_if: "adds f c \<Longrightarrow> adds g d \<Longrightarrow> adds (\<lambda>m. if b then f m else g m) (\<lambda>i. if b then c i else d i)"
  by (simp add: adds_def)

lemma adds_bind: "adds f c \<Longrightarrow> adds g d \<Longrightarrow> adds (\<lambda>m. f m \<bind> g) (\<lambda>i. c i + d i)"
  by (simp add: adds_def pm_add_pm_add)

lemma adds_increment_if: "unat p < 30 \<Longrightarrow> adds (increment_if b p n) (\<lambda>i. if b then single p n i else 0)"
  unfolding increment_if_def by (intro adds_if adds_increment adds_Some)

lemma adds_eq: "adds f c \<Longrightarrow> (\<And>i. c i = d i) \<Longrightarrow> adds f d"
  by (simp add: adds_def pm_add_def)

lemmas part_numbers = GOT_def PLT_GOT_def RELA_PLT_def RELA_DYN_RELATIVE_def RELA_DYN_GENERAL_def RELR_DYN_def

lemma adds_parts:
  "adds (part_increment GOT n) (single GOT n)" "adds (part_increment PLT_GOT n) (single PLT_GOT n)"
  "adds (part_increment RELA_PLT n) (single RELA_PLT n)" "adds (part_increment RELA_DYN_RELATIVE n) (single RELA_DYN_RELATIVE n)"
  "adds (part_increment RELA_DYN_GENERAL n) (single RELA_DYN_GENERAL n)" "adds (part_increment RELR_DYN n) (single RELR_DYN n)"
  by (simp_all add: adds_increment part_numbers)

lemma adds_parts_if:
  "adds (increment_if b GOT n) (\<lambda>i. if b then single GOT n i else 0)"
  "adds (increment_if b PLT_GOT n) (\<lambda>i. if b then single PLT_GOT n i else 0)"
  "adds (increment_if b RELA_DYN_GENERAL n) (\<lambda>i. if b then single RELA_DYN_GENERAL n i else 0)"
  by (rule adds_increment_if, simp add: part_numbers)+

lemmas adds_rules = adds_parts adds_parts_if adds_Some adds_bind adds_if

subsection \<open>How many entries a symbol takes\<close>

definition plain_got :: "value_flags \<Rightarrow> bool" where
  "plain_got flags \<longleftrightarrow> needs_got flags \<and> \<not> vf_is_tls flags"

definition num_got :: "value_flags \<Rightarrow> nat" where
  "num_got flags = of_bool (plain_got flags) + of_bool (needs_ifunc_got_for_address flags) + of_bool (needs_got_tls_offset flags)
     + 2 * of_bool (needs_got_tls_module flags) + 2 * of_bool (needs_got_tls_descriptor flags)"

definition num_plt :: "value_flags \<Rightarrow> nat" where
  "num_plt flags = of_bool (plain_got flags \<and> needs_plt flags)"

definition num_rela_plt :: "value_flags \<Rightarrow> nat" where
  "num_rela_plt flags = of_bool (plain_got flags \<and> is_ifunc flags)"

definition num_relative :: "output_kind \<Rightarrow> value_flags \<Rightarrow> nat" where
  "num_relative okind flags =
     of_bool (plain_got flags \<and> \<not> is_ifunc flags \<and> \<not> has_dynamic_symbol flags \<and> is_address flags \<and> is_relocatable okind)
     + of_bool (needs_ifunc_got_for_address flags \<and> is_relocatable okind)"

definition num_general :: "output_kind \<Rightarrow> value_flags \<Rightarrow> nat" where
  "num_general okind flags =
     of_bool (plain_got flags \<and> \<not> is_ifunc flags \<and> has_dynamic_symbol flags)
     + of_bool (needs_got_tls_offset flags \<and> (vf_is_interposable flags \<or> is_shared_object okind))
     + of_bool (needs_got_tls_module flags \<and> (\<not> is_executable okind \<or> is_dynamic flags))
     + of_bool (needs_got_tls_module flags \<and> has_dynamic_symbol flags)
     + of_bool (needs_got_tls_descriptor flags)"

definition res_cost :: "output_kind \<Rightarrow> bool \<Rightarrow> value_flags \<Rightarrow> nat \<Rightarrow> nat" where
  "res_cost okind relr flags i =
     (if i = 6 then 8 * num_got flags
      else if i = 7 then 16 * num_plt flags
      else if i = 8 then 24 * num_rela_plt flags
      else if i = 25 then (if relr then 0 else 24 * num_relative okind flags)
      else if i = 26 then 24 * num_general okind flags
      else if i = 29 then (if relr then 8 * num_relative okind flags else 0)
      else 0)"

lemma adds_relative: "adds (allocate_relative relr) (\<lambda>i. if relr then single RELR_DYN RELR_ENTRY_SIZE i else single RELA_DYN_RELATIVE RELA_ENTRY_SIZE i)"
  unfolding allocate_relative_def by (rule adds_if adds_parts)+

lemma adds_plain_got:
  "adds (allocate_plain_got flags okind relr)
     (\<lambda>i. of_nat (if plain_got flags then
        (if i = 6 then 8 else if i = 7 then 16 * num_plt flags else if i = 8 then 24 * num_rela_plt flags
         else if i = 26 then 24 * of_bool (\<not> is_ifunc flags \<and> has_dynamic_symbol flags)
         else if i = (if relr then 29 else 25) then (if relr then 8 else 24) *
           of_bool (\<not> is_ifunc flags \<and> \<not> has_dynamic_symbol flags \<and> is_address flags \<and> is_relocatable okind) else 0) else 0))"
  unfolding allocate_plain_got_def
  by (rule adds_eq, (rule adds_relative adds_rules)+)
     (auto simp: part_numbers single_def plain_got_def num_plt_def num_rela_plt_def
        GOT_ENTRY_SIZE_def PLT_ENTRY_SIZE_def RELA_ENTRY_SIZE_def RELR_ENTRY_SIZE_def)

lemma allocate_resolution_cost:
  "adds (allocate_resolution flags okind relr) (\<lambda>i. of_nat (res_cost okind relr flags i))"
  unfolding allocate_resolution_def
  by (rule adds_eq, (rule adds_plain_got adds_relative adds_rules)+)
     (auto simp: part_numbers single_def res_cost_def num_got_def num_relative_def num_general_def num_plt_def num_rela_plt_def
        GOT_ENTRY_SIZE_def PLT_ENTRY_SIZE_def RELA_ENTRY_SIZE_def RELR_ENTRY_SIZE_def)

subsection \<open>Addresses\<close>

text \<open>A PLT entry goes with a GOT entry of a symbol that is not thread-local, and an address entry of an ifunc with a PLT entry.\<close>

definition flags_ok :: "value_flags \<Rightarrow> bool" where
  "flags_ok flags \<longleftrightarrow> (needs_plt flags \<longrightarrow> needs_got flags \<and> \<not> vf_is_tls flags)
     \<and> (needs_ifunc_got_for_address flags \<longrightarrow> needs_plt flags)"

lemma part_get_nth: "unat p < length m \<Longrightarrow> part_get p m = Some (m ! unat p)"
  by (simp add: part_get_def get_at_def)

lemma allocate_got_eq:
  "30 \<le> length m \<Longrightarrow> m ! 6 \<noteq> 0 \<Longrightarrow> allocate_got n m = Some (m ! 6, pm_add (single GOT (8 * n)) m)"
  using adds_parts(1) [of "8 * n"] by (simp add: allocate_got_def part_get_nth adds_def GOT_ENTRY_SIZE_def part_numbers)

lemma allocate_plt_eq:
  "30 \<le> length m \<Longrightarrow> m ! 7 \<noteq> 0 \<Longrightarrow> allocate_plt m = Some (m ! 7, pm_add (single PLT_GOT 16) m)"
  using adds_parts(2) [of 16] by (simp add: allocate_plt_def part_get_nth adds_def PLT_ENTRY_SIZE_def part_numbers)

definition offsets_after :: "value_flags \<Rightarrow> u64 list \<Rightarrow> u64 list" where
  "offsets_after flags m = pm_add (\<lambda>i. of_nat (if i = 6 then 8 * num_got flags else if i = 7 then 16 * num_plt flags else 0)) m"

definition created :: "value_flags \<Rightarrow> u64 \<Rightarrow> u32 option \<Rightarrow> u64 list \<Rightarrow> resolution" where
  "created flags raw idx m = \<lparr>raw_value = (if needs_plt flags \<and> is_dynamic flags then m ! 7 else raw), dynamic_symbol_index = idx, res_flags = flags,
     got_address = (if num_got flags = 0 then None else Some (m ! 6)), plt_address = (if num_plt flags = 0 then None else Some (m ! 7))\<rparr>"

lemma tls_got_slots_num:
  "flags_ok flags \<Longrightarrow> vf_is_tls flags \<Longrightarrow> tls_got_slots flags = of_nat (num_got flags) \<and> 0 < num_got flags \<and> num_got flags \<le> 5"
  by (auto simp: flags_ok_def tls_got_slots_def num_got_def plain_got_def value_flag_queries)

lemma create_resolution_eq:
  assumes "flags_ok flags" and "30 \<le> length m" and "m ! 6 \<noteq> 0" and "m ! 7 \<noteq> 0"
  shows "create_resolution flags raw idx m = Some (created flags raw idx m, offsets_after flags m)"
proof (cases "needs_plt flags")
  case True
  then have f: "needs_got flags" "\<not> vf_is_tls flags" using assms(1) by (auto simp: flags_ok_def)
  moreover from f have "num_got flags = (if needs_ifunc_got_for_address flags then 2 else 1)" "num_plt flags = 1"
    using True by (auto simp: num_got_def num_plt_def plain_got_def value_flag_queries)
  moreover have "pm_add (single PLT_GOT 16) m ! 6 = m ! 6" using assms(2) by (simp add: single_def part_numbers)
  moreover have "pm_add (single GOT n) (pm_add (single PLT_GOT 16) m) = pm_add (\<lambda>i. if i = 6 then n else if i = 7 then 16 else 0) m" for n
    by (simp add: pm_add_pm_add single_def part_numbers pm_add_def)
  ultimately show ?thesis
    using True assms by (auto simp: create_resolution_def created_def offsets_after_def allocate_plt_eq allocate_got_eq Let_def intro!: nth_equalityI)
next
  case False
  then have plt: "num_plt flags = 0" "\<not> needs_ifunc_got_for_address flags" using assms(1) by (auto simp: num_plt_def flags_ok_def)
  show ?thesis
  proof (cases "vf_is_tls flags")
    case True
    note slots = tls_got_slots_num [OF assms(1) True]
    then have "tls_got_slots flags \<noteq> 0" by (auto simp: word_of_nat_eq_0_iff dest!: dvd_imp_le)
    then show ?thesis
      using False True plt slots assms by (auto simp: create_resolution_def created_def offsets_after_def allocate_got_eq Let_def single_def part_numbers intro!: nth_equalityI)
  next
    case tls: False
    then have "num_got flags = of_bool (needs_got flags)" using plt by (auto simp: num_got_def plain_got_def value_flag_queries)
    then show ?thesis
      using False tls plt assms
      by (auto simp: create_resolution_def created_def offsets_after_def allocate_got_eq Let_def single_def part_numbers intro!: nth_equalityI)
  qed
qed

end
