(* ===== verification/Resolution_Writes.thy ===== *)
theory Resolution_Writes
  imports Resolution_Sizes
begin

unbundle bit_operations_syntax

text \<open>
  What one symbol takes from the buffers of the writer: steps of the writer that succeed and take a number of entries, and
  their composition.
\<close>

subsection \<open>Writing one symbol\<close>

text \<open>When the entries of a symbol can be written: what layout and symbol resolution establish for it.\<close>

definition passes_ok :: "output_kind \<Rightarrow> u64 \<times> u64 \<Rightarrow> u64 option \<Rightarrow> value_flags \<Rightarrow> u64 \<Rightarrow> u32 option \<Rightarrow> bool" where
  "passes_ok okind tls layout flags raw idx \<longleftrightarrow> flags_ok flags \<and> (is_dynamic flags \<longrightarrow> \<not> is_ifunc flags)
     \<and> (has_dynamic_symbol flags \<longrightarrow> idx \<noteq> None \<and> needs_dynsym okind)
     \<and> (needs_got_tls_offset flags \<longrightarrow> layout \<noteq> None
          \<and> (if has_dynamic_symbol flags then vf_is_interposable flags \<or> is_shared_object okind
             else (raw \<noteq> 0 \<longrightarrow> fst tls \<le> raw \<and> raw \<le> snd tls)
               \<and> (if is_executable okind then \<not> vf_is_interposable flags else raw \<noteq> 0 \<and> is_shared_object okind)))
     \<and> (needs_got_tls_module flags \<longrightarrow> (has_dynamic_symbol flags \<longleftrightarrow> idx \<noteq> None \<and> vf_is_interposable flags)
          \<and> (is_executable okind \<or> needs_dynsym okind) \<and> (idx = None \<longrightarrow> is_address flags))
     \<and> (needs_got_tls_descriptor flags \<longrightarrow> \<not> is_static_executable okind \<and> needs_dynsym okind)"

definition arch_ok :: "arch_ops \<Rightarrow> u64 \<Rightarrow> u64 \<Rightarrow> bool" where
  "arch_ok arch got plt \<longleftrightarrow> (\<exists>bs. write_plt_bytes arch got plt = Inr bs \<and> length bs = 16)"

text \<open>What a step of the writer takes: entries of the GOT, the PLT, and of each relocation section.\<close>

definition takes :: "nat \<Rightarrow> nat \<Rightarrow> nat \<Rightarrow> nat \<Rightarrow> nat \<Rightarrow> table_writer \<Rightarrow> table_writer \<Rightarrow> bool" where
  "takes g p i r d w w' \<longleftrightarrow> tw_kind w' = tw_kind w \<and> tw_relr_enabled w' = tw_relr_enabled w \<and> tw_tls w' = tw_tls w
     \<and> got_left w = got_left w' + g \<and> length (got_out w') = length (got_out w) + g
     \<and> plt_left w = plt_left w' + 16 * p \<and> length (plt_out w') = length (plt_out w) + 16 * p
     \<and> rela_plt_left w = rela_plt_left w' + i
     \<and> general_left w = general_left w' + d
     \<and> (if relr_left w = None then relative_left w = relative_left w' + r \<and> relr_left w' = None
        else relative_left w' = relative_left w \<and> map_option (\<lambda>n. n + r) (relr_left w') = relr_left w)"

definition room :: "nat \<Rightarrow> nat \<Rightarrow> nat \<Rightarrow> nat \<Rightarrow> nat \<Rightarrow> table_writer \<Rightarrow> bool" where
  "room g p i r d w \<longleftrightarrow> g \<le> got_left w \<and> 16 * p \<le> plt_left w \<and> i \<le> rela_plt_left w \<and> d \<le> general_left w
     \<and> (case relr_left w of None \<Rightarrow> r \<le> relative_left w | Some n \<Rightarrow> r \<le> n)"

lemma write_got_takes: "room 1 0 0 0 0 w \<Longrightarrow> \<exists>w'. write_got v w = Inr w' \<and> takes 1 0 0 0 0 w w'"
  by (auto simp: room_def write_got_def takes_def split: option.splits)

lemma write_general_takes:
  "room 0 0 0 0 1 w \<Longrightarrow> needs_dynsym (tw_kind w) \<Longrightarrow> \<exists>w'. write_rela_dyn_general place idx ty a w = Inr w' \<and> takes 0 0 0 0 1 w w'"
  by (auto simp: room_def write_rela_dyn_general_def takes_def split: option.splits)

lemma write_address_takes:
  "room 0 0 0 1 0 w \<Longrightarrow> is_relocatable (tw_kind w) \<Longrightarrow> even place \<Longrightarrow>
    \<exists>v w'. write_address_relocation arch place a w = Inr (v, w') \<and> takes 0 0 0 1 0 w w'"
  by (cases "relr_left w") (auto simp: room_def write_address_relocation_def takes_def)

lemma takes_trans: "takes g p i r d w w' \<Longrightarrow> takes g' p' i' r' d' w' w'' \<Longrightarrow> takes (g + g') (p + p') (i + i') (r + r') (d + d') w w''"
  by (cases "relr_left w"; cases "relr_left w'"; cases "relr_left w''") (auto simp: takes_def)

lemma takes_zero: "takes 0 0 0 0 0 w w"
  by (cases "relr_left w") (auto simp: takes_def)

lemma room_after: "takes g p i r d w w' \<Longrightarrow> room (g + g') (p + p') (i + i') (r + r') (d + d') w \<Longrightarrow> room g' p' i' r' d' w'"
  by (cases "relr_left w"; cases "relr_left w'") (auto simp: takes_def room_def)

lemma room_less: "room g p i r d w \<Longrightarrow> g' \<le> g \<Longrightarrow> p' \<le> p \<Longrightarrow> i' \<le> i \<Longrightarrow> r' \<le> r \<Longrightarrow> d' \<le> d \<Longrightarrow> room g' p' i' r' d' w"
  by (auto simp: room_def split: option.splits)

lemma takes_same: "takes g p i r d w w' \<Longrightarrow> tw_kind w' = tw_kind w \<and> tw_relr_enabled w' = tw_relr_enabled w \<and> tw_tls w' = tw_tls w"
  by (simp add: takes_def)

text \<open>A step of the writer succeeds and takes what it should.\<close>

definition does :: "(table_writer \<Rightarrow> write_error + table_writer) \<Rightarrow> output_kind \<Rightarrow> bool \<Rightarrow> u64 \<times> u64 \<Rightarrow> nat \<Rightarrow> nat \<Rightarrow> nat \<Rightarrow> nat \<Rightarrow> nat \<Rightarrow> bool" where
  "does f okind relr tls g p i r d \<longleftrightarrow> (\<forall>w. room g p i r d w \<longrightarrow> tw_kind w = okind \<longrightarrow> tw_relr_enabled w = relr \<longrightarrow> tw_tls w = tls \<longrightarrow>
     (\<exists>w'. f w = Inr w' \<and> takes g p i r d w w'))"

lemma does_then:
  assumes "does f okind relr tls g p i r d" and "does h okind relr tls g' p' i' r' d'"
  shows "does (\<lambda>w. and_then (f w) h) okind relr tls (g + g') (p + p') (i + i') (r + r') (d + d')"
  unfolding does_def
proof (intro allI impI)
  fix w assume w: "room (g + g') (p + p') (i + i') (r + r') (d + d') w" "tw_kind w = okind" "tw_relr_enabled w = relr" "tw_tls w = tls"
  have "room g p i r d w" by (rule room_less [OF w(1)]) simp_all
  then obtain w1 where w1: "f w = Inr w1" "takes g p i r d w w1" using assms(1) w by (auto simp: does_def)
  note s = takes_same [OF w1(2)]
  obtain w2 where "h w1 = Inr w2" "takes g' p' i' r' d' w1 w2"
    using assms(2) room_after [OF w1(2) w(1)] w s by (auto simp: does_def)
  then show "\<exists>w'. and_then (f w) h = Inr w' \<and> takes (g + g') (p + p') (i + i') (r + r') (d + d') w w'"
    using w1 takes_trans by auto
qed

lemma does_skip: "does Inr okind relr tls 0 0 0 0 0"
  by (auto simp: does_def takes_zero)

lemma does_got: "does (write_got v) okind relr tls 1 0 0 0 0"
  using write_got_takes unfolding does_def by blast

lemma does_general: "needs_dynsym okind \<Longrightarrow> does (write_rela_dyn_general place idx ty a) okind relr tls 0 0 0 0 1"
  using write_general_takes unfolding does_def by blast

lemma does_address_got:
  assumes "is_relocatable okind" "even place"
  shows "does (\<lambda>w. and_then (write_address_relocation arch place a w) (\<lambda>(v, w). write_got v w)) okind relr tls 1 0 0 1 0"
  unfolding does_def
proof (intro allI impI)
  fix w assume w: "room 1 0 0 1 0 w" "tw_kind w = okind"
  have "room 0 0 0 1 0 w" by (rule room_less [OF w(1)]) simp_all
  then obtain v w1 where w1: "write_address_relocation arch place a w = Inr (v, w1)" "takes 0 0 0 1 0 w w1"
    using write_address_takes assms w(2) by blast
  have "room 1 0 0 0 0 w1" using room_after [OF w1(2), of 1 0 0 0 0] w(1) by simp
  then obtain w2 where "write_got v w1 = Inr w2" "takes 1 0 0 0 0 w1 w2" using write_got_takes by blast
  then show "\<exists>w'. and_then (write_address_relocation arch place a w) (\<lambda>(v, w). write_got v w) = Inr w' \<and> takes 1 0 0 1 0 w w'"
    using w1 takes_trans by fastforce
qed

lemma does_plt: "arch_ok arch got plt \<Longrightarrow> does (write_plt_entry arch got plt) okind relr tls 0 1 0 0 0"
  by (auto simp: does_def arch_ok_def write_plt_entry_def room_def takes_def split: option.splits)

lemma does_ifunc: "got_address res \<noteq> None \<Longrightarrow> does (write_ifunc_relocation arch res) okind relr tls 0 0 1 0 0"
  by (auto simp: does_def write_ifunc_relocation_def room_def takes_def split: option.splits)

lemma does_cong:
  assumes "does h okind relr tls g p i r d"
    and "\<And>w. tw_kind w = okind \<Longrightarrow> tw_tls w = tls \<Longrightarrow> 0 < g \<Longrightarrow> got_left w \<noteq> 0 \<Longrightarrow> f w = h w" and "g \<noteq> 0"
  shows "does f okind relr tls g p i r d"
  using assms by (auto simp: does_def room_def)

lemma does_eq: "does f okind relr tls g p i r d \<Longrightarrow> g = g' \<Longrightarrow> p = p' \<Longrightarrow> i = i' \<Longrightarrow> r = r' \<Longrightarrow> d = d' \<Longrightarrow> does f okind relr tls g' p' i' r' d'"
  by simp

lemma compute_allocations_general:
  "\<exists>sizes n. compute_allocations flags okind relr = Some sizes \<and> part_get RELA_DYN_GENERAL sizes = Some n \<and> unat n = 24 * num_general okind flags"
proof -
  let ?z = "replicate (unat NUM_SINGLE_PART_SECTIONS) (0 :: u64)"
  have len: "30 \<le> length ?z" by (simp add: NUM_SINGLE_PART_SECTIONS_def)
  then have "compute_allocations flags okind relr = Some (pm_add (\<lambda>i. of_nat (res_cost okind relr flags i)) ?z)"
    using allocate_resolution_cost [of flags okind relr] by (simp add: compute_allocations_def adds_def)
  moreover have "num_general okind flags \<le> 5" by (simp add: num_general_def of_bool_def)
  then have "unat (of_nat (24 * num_general okind flags) :: u64) = 24 * num_general okind flags"
    by (simp only: unat_of_nat) simp
  ultimately show ?thesis using len by (simp add: part_get_nth part_numbers res_cost_def)
qed

lemma does_debug_assert: "0 < num_general okind (res_flags res) \<Longrightarrow> does (debug_assert_general res) okind relr tls 0 0 0 0 0"
  using compute_allocations_general [of "res_flags res" okind relr]
  by (auto simp: does_def debug_assert_general_def ensure_that_def takes_zero word_less_nat_alt)

lemma does_got_general:
  "needs_dynsym okind \<Longrightarrow> does (\<lambda>w. and_then (write_got v w) (write_rela_dyn_general place idx ty a)) okind relr tls 1 0 0 0 1"
  by (rule does_eq [OF does_then [OF does_got does_general]]) simp_all

lemma shared_not_executable: "is_shared_object okind \<Longrightarrow> \<not> is_executable okind \<and> needs_dynsym okind \<and> is_relocatable okind"
  by (cases okind) auto

lemma does_tls_offset:
  assumes ok: "passes_ok okind tls layout (res_flags res) (raw_value res) (dynamic_symbol_index res)"
    and off: "needs_got_tls_offset (res_flags res)"
  shows "does (process_got_tls_offset arch res tp got) okind relr tls 1 0 0 0 (of_bool (vf_is_interposable (res_flags res) \<or> is_shared_object okind))"
proof (cases "has_dynamic_symbol (res_flags res)")
  case True
  then obtain idx where "dynamic_symbol_index res = Some idx" "needs_dynsym okind" "vf_is_interposable (res_flags res) \<or> is_shared_object okind"
    using ok off by (auto simp: passes_ok_def)
  then show ?thesis
    using True by (intro does_cong [OF does_eq [OF does_got_general [of okind 0 got idx "dynamic_relocation_type arch DR_TpOff" 0]]])
      (auto simp: process_got_tls_offset_def Let_def split: prod.split)
next
  case dyn: False
  note offs = ok [unfolded passes_ok_def] off dyn
  show ?thesis
  proof (cases "is_executable okind")
    case True
    then have no: "\<not> vf_is_interposable (res_flags res)" "\<not> is_shared_object okind" using offs shared_not_executable by auto
    show ?thesis
    proof (cases "raw_value res = 0")
      case True
      then show ?thesis
        using dyn no by (intro does_cong [OF does_eq [OF does_got [of 0]]]) (auto simp: process_got_tls_offset_def Let_def split: prod.split)
    next
      case False
      then show ?thesis
        using dyn no offs \<open>is_executable okind\<close>
        by (intro does_cong [OF does_eq [OF does_got [of "raw_value res - tp"]]]) (auto simp: process_got_tls_offset_def Let_def split: prod.split)
    qed
  next
    case False
    then have s: "raw_value res \<noteq> 0" "is_shared_object okind" "fst tls \<le> raw_value res" "raw_value res \<le> snd tls" using offs by auto
    have "0 < num_general okind (res_flags res)" using off s(2) by (simp add: num_general_def)
    then have d: "does (\<lambda>w. and_then (debug_assert_general res w) (\<lambda>w. and_then (write_got 0 w)
        (write_rela_dyn_general got 0 (dynamic_relocation_type arch DR_TpOff) (raw_value res - fst tls)))) okind relr tls 1 0 0 0 1"
      using shared_not_executable [OF s(2)]
      by (intro does_eq [OF does_then [OF does_debug_assert does_got_general]]) simp_all
    then show ?thesis
      using dyn s False by (intro does_cong [OF does_eq [OF d]]) (auto simp: process_got_tls_offset_def Let_def split: prod.split)
  qed
qed

lemma does_tls_mod:
  assumes ok: "passes_ok okind tls layout (res_flags res) (raw_value res) (dynamic_symbol_index res)"
    and m: "needs_got_tls_module (res_flags res)"
  shows "does (process_got_tls_mod_and_offset arch res got) okind relr tls 2 0 0 0
    (of_bool (\<not> is_executable okind \<or> is_dynamic (res_flags res)) + of_bool (has_dynamic_symbol (res_flags res)))"
proof -
  let ?f = "res_flags res"
  let ?first = "\<lambda>w. if is_executable okind \<and> \<not> is_dynamic ?f then write_got 1 w
         else and_then (write_got 0 w) (\<lambda>w. and_then (debug_assert_general res w)
             (write_rela_dyn_general got (case dynamic_symbol_index res of None \<Rightarrow> 0 | Some i \<Rightarrow> i) (dynamic_relocation_type arch DR_DtpMod) 0))"
  let ?second = "\<lambda>w. case dynamic_symbol_index res of
            Some idx \<Rightarrow> and_then (write_got 0 w) (\<lambda>w.
                if vf_is_interposable ?f then write_rela_dyn_general (got + 8) idx (dynamic_relocation_type arch DR_DtpOff) 0 w else Inr w)
          | None \<Rightarrow> write_got (raw_value res - fst tls - dtv_offset arch) w"
  have k: "has_dynamic_symbol ?f \<longleftrightarrow> dynamic_symbol_index res \<noteq> None \<and> vf_is_interposable ?f" "is_executable okind \<or> needs_dynsym okind"
    "dynamic_symbol_index res = None \<longrightarrow> is_address ?f" "has_dynamic_symbol ?f \<longrightarrow> needs_dynsym okind" "is_dynamic ?f \<longrightarrow> has_dynamic_symbol ?f"
    using ok m by (auto simp: passes_ok_def has_dynamic_symbol_def)
  have first: "does ?first okind relr tls 1 0 0 0 (of_bool (\<not> is_executable okind \<or> is_dynamic ?f))"
  proof (cases "is_executable okind \<and> \<not> is_dynamic ?f")
    case True
    then show ?thesis using does_got [of 1] by simp
  next
    case False
    then have n: "needs_dynsym okind" using k by auto
    have "0 < num_general okind ?f" using m False by (auto simp: num_general_def)
    then have "does (\<lambda>w. and_then (write_got 0 w) (\<lambda>w. and_then (debug_assert_general res w)
             (write_rela_dyn_general got (case dynamic_symbol_index res of None \<Rightarrow> 0 | Some i \<Rightarrow> i) (dynamic_relocation_type arch DR_DtpMod) 0))) okind relr tls 1 0 0 0 1"
      by (intro does_eq [OF does_then [OF does_got does_then [OF does_debug_assert does_general [OF n]]]]) simp_all
    moreover have eq: "?first = (\<lambda>w. and_then (write_got 0 w) (\<lambda>w. and_then (debug_assert_general res w)
             (write_rela_dyn_general got (case dynamic_symbol_index res of None \<Rightarrow> 0 | Some i \<Rightarrow> i) (dynamic_relocation_type arch DR_DtpMod) 0)))" using False by auto
    ultimately show ?thesis unfolding eq using False by simp
  qed
  have second: "does ?second okind relr tls 1 0 0 0 (of_bool (has_dynamic_symbol ?f))"
  proof (cases "dynamic_symbol_index res")
    case None
    then show ?thesis using k(1) does_got by simp
  next
    case (Some idx)
    show ?thesis
    proof (cases "vf_is_interposable ?f")
      case True
      then show ?thesis using Some k does_got_general [of okind 0 "got + 8" idx "dynamic_relocation_type arch DR_DtpOff" 0] by simp
    next
      case False
      then show ?thesis using Some k(1) does_then [OF does_got does_skip] by simp
    qed
  qed
  have second': "does (\<lambda>w. if got_left w = 0 then Inl (W_Insufficient ''.got'') else case dynamic_symbol_index res of
            Some idx \<Rightarrow> and_then (write_got 0 w) (\<lambda>w.
                if vf_is_interposable ?f then write_rela_dyn_general (got + 8) idx (dynamic_relocation_type arch DR_DtpOff) 0 w else Inr w)
          | None \<Rightarrow> if \<not> is_address ?f then Inl W_NotAddress else write_got (raw_value res - fst (tw_tls w) - dtv_offset arch) w)
      okind relr tls 1 0 0 0 (of_bool (has_dynamic_symbol ?f))"
    using k(3) by (intro does_cong [OF second]) (auto split: option.split)
  show ?thesis
    by (rule does_cong [OF does_eq [OF does_then [OF first second']]]) (simp_all add: process_got_tls_mod_and_offset_def Let_def)
qed

lemma does_reads: "(\<And>w. tw_tls w = tls \<Longrightarrow> f w = h w) \<Longrightarrow> does h okind relr tls g p i r d \<Longrightarrow> does f okind relr tls g p i r d"
  by (auto simp: does_def)

lemma does_tls_descriptor:
  assumes "passes_ok okind tls layout (res_flags res) (raw_value res) (dynamic_symbol_index res)"
    and "needs_got_tls_descriptor (res_flags res)"
  shows "does (process_got_tls_descriptor arch res got) okind relr tls 2 0 0 0 1"
proof -
  have n: "\<not> is_static_executable okind" "needs_dynsym okind" using assms by (auto simp: passes_ok_def)
  have g: "0 < num_general okind (res_flags res)" using assms(2) by (simp add: num_general_def)
  let ?idx = "case dynamic_symbol_index res of None \<Rightarrow> 0 | Some i \<Rightarrow> i" and ?type = "dynamic_relocation_type arch DR_TlsDesc"
  let ?addend = "\<lambda>tls :: u64 \<times> u64. if dynamic_symbol_index res = None then raw_value res - fst tls else 0"
  have ensure: "does (\<lambda>w. ensure_that (\<not> is_static_executable (tw_kind w)) W_StaticTlsDesc w) okind relr tls 0 0 0 0 0"
    using n(1) by (auto simp: does_def ensure_that_def takes_zero)
  have rela: "does (\<lambda>w. and_then (debug_assert_general res w) (write_rela_dyn_general got ?idx ?type (?addend (tw_tls w)))) okind relr tls 0 0 0 0 1"
    by (rule does_reads [OF _ does_eq [OF does_then [OF does_debug_assert [OF g] does_general [OF n(2), where place = got and idx = ?idx and ty = ?type and a = "?addend tls"]]]])
       simp_all
  have "does (\<lambda>w. and_then (write_got 0 w) (\<lambda>w. and_then (write_got 0 w) (\<lambda>w.
      and_then (ensure_that (\<not> is_static_executable (tw_kind w)) W_StaticTlsDesc w) (\<lambda>w.
        and_then (debug_assert_general res w) (write_rela_dyn_general got ?idx ?type (?addend (tw_tls w))))))) okind relr tls 2 0 0 0 1"
    by (rule does_eq [OF does_then [OF does_got does_then [OF does_got does_then [OF ensure rela]]]]) simp_all
  moreover have "process_got_tls_descriptor arch res got = (\<lambda>w. and_then (write_got 0 w) (\<lambda>w. and_then (write_got 0 w) (\<lambda>w.
      and_then (ensure_that (\<not> is_static_executable (tw_kind w)) W_StaticTlsDesc w) (\<lambda>w.
        and_then (debug_assert_general res w) (write_rela_dyn_general got ?idx ?type (?addend (tw_tls w)))))))"
    by (rule ext) (simp only: process_got_tls_descriptor_def)
  ultimately show ?thesis by simp
qed

lemma does_process_tls:
  assumes ok: "passes_ok okind tls layout (res_flags res) (raw_value res) (dynamic_symbol_index res)" and t: "vf_is_tls (res_flags res)"
  shows "does (process_tls arch layout res got) okind relr tls (num_got (res_flags res)) (num_plt (res_flags res)) (num_rela_plt (res_flags res))
    (num_relative okind (res_flags res)) (num_general okind (res_flags res))"
proof -
  let ?f = "res_flags res"
  let ?got2 = "if needs_got_tls_offset ?f then got + GOT_ENTRY_SIZE else got"
  let ?got3 = "if needs_got_tls_module ?f then ?got2 + 2 * GOT_ENTRY_SIZE else ?got2"
  have "does (\<lambda>w. if needs_got_tls_offset ?f then (case layout of None \<Rightarrow> Inl W_MissingLayout | Some tp \<Rightarrow> process_got_tls_offset arch res tp got w) else Inr w)
    okind relr tls (of_bool (needs_got_tls_offset ?f)) 0 0 0 (of_bool (needs_got_tls_offset ?f \<and> (vf_is_interposable ?f \<or> is_shared_object okind)))"
    using does_tls_offset [OF ok] ok does_skip by (auto simp: passes_ok_def)
  moreover have "does (\<lambda>w. if needs_got_tls_module ?f then process_got_tls_mod_and_offset arch res ?got2 w else Inr w)
    okind relr tls (2 * of_bool (needs_got_tls_module ?f)) 0 0 0 (of_bool (needs_got_tls_module ?f \<and> (\<not> is_executable okind \<or> is_dynamic ?f))
      + of_bool (needs_got_tls_module ?f \<and> has_dynamic_symbol ?f))"
    using does_tls_mod [OF ok, of arch ?got2] does_skip by (cases "needs_got_tls_module ?f") simp_all
  moreover have "does (\<lambda>w. if needs_got_tls_descriptor ?f then process_got_tls_descriptor arch res ?got3 w else Inr w)
    okind relr tls (2 * of_bool (needs_got_tls_descriptor ?f)) 0 0 0 (of_bool (needs_got_tls_descriptor ?f))"
    using does_tls_descriptor [OF ok, of arch ?got3] does_skip by (cases "needs_got_tls_descriptor ?f") simp_all
  moreover have "\<not> plain_got ?f" "\<not> needs_ifunc_got_for_address ?f"
    using t ok by (auto simp: plain_got_def passes_ok_def flags_ok_def)
  ultimately show ?thesis
    unfolding process_tls_def Let_def
    by (intro does_eq [OF does_then [OF _ does_then]])
      (assumption | simp add: num_got_def num_plt_def num_rela_plt_def num_relative_def num_general_def)+
qed

lemma does_got_entry:
  assumes ok: "passes_ok okind tls layout (res_flags res) raw (dynamic_symbol_index res)" and p: "plain_got (res_flags res)"
    and "got_address res \<noteq> None" and "even got"
  shows "does (process_got_entry arch res got) okind relr tls 1 0 (of_bool (is_ifunc (res_flags res)))
    (of_bool (\<not> is_ifunc (res_flags res) \<and> \<not> has_dynamic_symbol (res_flags res) \<and> is_address (res_flags res) \<and> is_relocatable okind))
    (of_bool (\<not> is_ifunc (res_flags res) \<and> has_dynamic_symbol (res_flags res)))"
proof -
  let ?f = "res_flags res"
  consider (ifunc) "is_ifunc ?f" | (dyn) "\<not> is_ifunc ?f" "has_dynamic_symbol ?f"
    | (address) "\<not> is_ifunc ?f" "\<not> has_dynamic_symbol ?f" "is_address ?f \<and> is_relocatable okind"
    | (plain) "\<not> is_ifunc ?f" "\<not> has_dynamic_symbol ?f" "\<not> (is_address ?f \<and> is_relocatable okind)" by blast
  then show ?thesis
  proof cases
    case ifunc
    have d: "does (\<lambda>w. and_then (write_got 0 w) (write_ifunc_relocation arch res)) okind relr tls 1 0 1 0 0"
      by (rule does_eq [OF does_then [OF does_got does_ifunc [OF assms(3)]]]) simp_all
    have "\<not> is_dynamic ?f" using ifunc ok by (auto simp: passes_ok_def)
    then show ?thesis using ifunc by (intro does_cong [OF does_eq [OF d]]) (simp_all add: process_got_entry_def)
  next
    case dyn
    then obtain idx where idx: "dynamic_symbol_index res = Some idx" "needs_dynsym okind" using ok by (auto simp: passes_ok_def)
    have "0 < num_general okind ?f" using dyn p by (simp add: num_general_def)
    then have d: "does (\<lambda>w. and_then (debug_assert_general res w) (\<lambda>w. and_then (write_got 0 w)
        (write_rela_dyn_general got idx (dynamic_relocation_type arch DR_GotEntry) 0))) okind relr tls 1 0 0 0 1"
      by (intro does_eq [OF does_then [OF does_debug_assert does_got_general [OF idx(2)]]]) simp_all
    show ?thesis using dyn idx
      by (intro does_cong [OF does_eq [OF d]]) (auto simp: process_got_entry_def has_dynamic_symbol_def)
  next
    case address
    then have "is_relocatable okind" by simp
    note d = does_address_got [OF this assms(4), of arch "raw_value res" relr tls]
    show ?thesis using address by (intro does_cong [OF does_eq [OF d]]) (auto simp: process_got_entry_def has_dynamic_symbol_def)
  next
    case plain
    then show ?thesis
      by (intro does_cong [OF does_eq [OF does_got [of "raw_value res"]]]) (auto simp: process_got_entry_def has_dynamic_symbol_def)
  qed
qed

lemma does_process_resolution:
  assumes ok: "passes_ok okind tls layout flags raw idx" and "num_plt flags \<noteq> 0 \<longrightarrow> arch_ok arch (m ! 6) (m ! 7)" and "even (m ! 6)"
    and res: "res = created flags raw idx m"
  shows "does (process_resolution arch layout res) okind relr tls (num_got flags) (num_plt flags) (num_rela_plt flags)
    (num_relative okind flags) (num_general okind flags)"
proof -
  have f: "res_flags res = flags" "dynamic_symbol_index res = idx" using res by (simp_all add: created_def)
  have fl: "flags_ok flags" using ok by (simp add: passes_ok_def)
  consider (none) "num_got flags = 0" | (tls) "vf_is_tls flags" "num_got flags \<noteq> 0" | (plain) "\<not> vf_is_tls flags" "num_got flags \<noteq> 0" by blast
  then show ?thesis
  proof cases
    case none
    then have "got_address res = None" using res by (simp add: created_def)
    moreover have "num_plt flags = 0" "num_rela_plt flags = 0" "num_relative okind flags = 0" "num_general okind flags = 0"
      using none by (auto simp: num_got_def num_plt_def num_rela_plt_def num_relative_def num_general_def)
    moreover from \<open>got_address res = None\<close> have "process_resolution arch layout res = Inr" by (intro ext) (simp add: process_resolution_def)
    ultimately show ?thesis using none does_skip by simp
  next
    case tls
    then have "raw_value res = raw" "got_address res = Some (m ! 6)" using res fl by (auto simp: created_def flags_ok_def)
    moreover from this have "process_resolution arch layout res = process_tls arch layout res (m ! 6)"
      using tls(1) f by (intro ext) (simp add: process_resolution_def)
    ultimately show ?thesis using does_process_tls [of okind tls layout res arch "m ! 6" relr] ok tls f by simp
  next
    case plain
    then have got: "got_address res = Some (m ! 6)" "plain_got flags"
      using res fl by (auto simp: created_def flags_ok_def num_got_def plain_got_def value_flag_queries)
    have plt: "plt_address res = (if needs_plt flags then Some (m ! 7) else None)" using res got(2) by (simp add: created_def num_plt_def)
    have no: "\<not> needs_got_tls_offset flags" "\<not> needs_got_tls_module flags" "\<not> needs_got_tls_descriptor flags"
      using plain(1) by (auto simp: value_flag_queries)
    have "does (process_got_entry arch res (m ! 6)) okind relr tls 1 0 (of_bool (is_ifunc flags))
      (of_bool (\<not> is_ifunc flags \<and> \<not> has_dynamic_symbol flags \<and> is_address flags \<and> is_relocatable okind))
      (of_bool (\<not> is_ifunc flags \<and> has_dynamic_symbol flags))"
      using does_got_entry [of okind tls layout res raw "m ! 6" arch relr] ok got f assms(3) by simp
    moreover have "does (\<lambda>w. case plt_address res of None \<Rightarrow> Inr w | Some plt \<Rightarrow> write_plt_entry arch (m ! 6) plt w) okind relr tls 0 (num_plt flags) 0 0 0"
      using plt assms(2) does_plt [of arch "m ! 6" "m ! 7"] does_skip got(2) by (simp add: num_plt_def)
    moreover have "does (\<lambda>w. if needs_ifunc_got_for_address flags then process_ifunc_address arch res (m ! 6) w else Inr w) okind relr tls
      (of_bool (needs_ifunc_got_for_address flags)) 0 0 (of_bool (needs_ifunc_got_for_address flags \<and> is_relocatable okind)) 0"
    proof (cases "needs_ifunc_got_for_address flags")
      case True
      then have p: "plt_address res = Some (m ! 7)" using plt fl by (simp add: flags_ok_def)
      have "does (process_ifunc_address arch res (m ! 6)) okind relr tls 1 0 0 (of_bool (is_relocatable okind)) 0"
      proof (cases "is_relocatable okind")
        case True
        have "even (m ! 6 + GOT_ENTRY_SIZE)" using assms(3) by (simp add: GOT_ENTRY_SIZE_def)
        note d = does_address_got [OF True this, of arch "m ! 7" relr tls]
        show ?thesis using True p by (intro does_cong [OF does_eq [OF d]]) (simp_all add: process_ifunc_address_def)
      next
        case False
        then show ?thesis using p by (intro does_cong [OF does_eq [OF does_got [of "m ! 7"]]]) (simp_all add: process_ifunc_address_def)
      qed
      then show ?thesis using True by simp
    qed (simp add: does_skip)
    ultimately have "does (\<lambda>w. and_then (process_got_entry arch res (m ! 6) w) (\<lambda>w. and_then
        (case plt_address res of None \<Rightarrow> Inr w | Some plt \<Rightarrow> write_plt_entry arch (m ! 6) plt w)
        (\<lambda>w. if needs_ifunc_got_for_address flags then process_ifunc_address arch res (m ! 6) w else Inr w))) okind relr tls
      (num_got flags) (num_plt flags) (num_rela_plt flags) (num_relative okind flags) (num_general okind flags)"
      using got(2) no
      by (intro does_eq [OF does_then [OF _ does_then]])
        (assumption | simp add: num_got_def num_rela_plt_def num_relative_def num_general_def)+
    moreover have "process_resolution arch layout res = (\<lambda>w. and_then (process_got_entry arch res (m ! 6) w) (\<lambda>w. and_then
        (case plt_address res of None \<Rightarrow> Inr w | Some plt \<Rightarrow> write_plt_entry arch (m ! 6) plt w)
        (\<lambda>w. if needs_ifunc_got_for_address flags then process_ifunc_address arch res (m ! 6) w else Inr w)))"
      using plain(1) got(1) f by (intro ext) (simp add: process_resolution_def)
    ultimately show ?thesis by simp
  qed
qed

end
