(* ===== verification/Resolution_Agree.thy ===== *)
theory Resolution_Agree
  imports Resolution_Writes Std_Num
begin

unbundle bit_operations_syntax

text \<open>
  All the symbols of a group: sizes, addresses and entries agree, and the PLT that is written jumps through the GOT that is written.
\<close>

subsection \<open>All the symbols of a group\<close>

text \<open>A symbol: its flags, its value, and its index among the dynamic symbols.\<close>

type_synonym symbol_request = "value_flags \<times> u64 \<times> u32 option"

fun finalise_symbol_sizes :: "output_kind \<Rightarrow> bool \<Rightarrow> symbol_request list \<Rightarrow> u64 list \<Rightarrow> u64 list option" where
  "finalise_symbol_sizes okind relr [] m = Some m"
| "finalise_symbol_sizes okind relr ((flags, raw, idx) # syms) m =
     allocate_resolution flags okind relr m \<bind> finalise_symbol_sizes okind relr syms"

definition create_symbol_resolution :: "symbol_request \<Rightarrow> u64 list \<Rightarrow> (resolution option \<times> u64 list) option" where
  "create_symbol_resolution req m =
     (case req of (flags, raw, idx) \<Rightarrow>
        if \<not> has_resolution flags then Some (None, m)
        else do { (res, m) \<leftarrow> create_resolution flags raw idx m; Some (Some res, m) })"

fun finalise_layout_symbols :: "symbol_request list \<Rightarrow> u64 list \<Rightarrow> (resolution option list \<times> u64 list) option" where
  "finalise_layout_symbols [] m = Some ([], m)"
| "finalise_layout_symbols (req # syms) m =
     do {
       (res, m) \<leftarrow> create_symbol_resolution req m;
       (rest, m) \<leftarrow> finalise_layout_symbols syms m;
       Some (res # rest, m)
     }"

fun write_symbol_resolutions :: "arch_ops \<Rightarrow> u64 option \<Rightarrow> resolution option list \<Rightarrow> table_writer \<Rightarrow> write_error + table_writer" where
  "write_symbol_resolutions arch layout [] w = Inr w"
| "write_symbol_resolutions arch layout (res # rest) w =
     and_then (case res of None \<Rightarrow> Inr w | Some r \<Rightarrow> process_resolution arch layout r w) (write_symbol_resolutions arch layout rest)"

definition total_of :: "(value_flags \<Rightarrow> nat) \<Rightarrow> symbol_request list \<Rightarrow> nat" where
  "total_of f syms = (\<Sum>s\<leftarrow>syms. f (fst s))"

lemma total_of_simps [simp]: "total_of f [] = 0" "total_of f (s # syms) = f (fst s) + total_of f syms" "total_of f (xs @ ys) = total_of f xs + total_of f ys"
  by (simp_all add: total_of_def)

lemma total_of_le: "(\<And>flags. f flags \<le> b) \<Longrightarrow> total_of f syms \<le> b * length syms"
  by (induction syms) (simp_all add: add_mono)

lemma finalise_symbol_sizes_adds:
  "adds (finalise_symbol_sizes okind relr syms) (\<lambda>i. of_nat (total_of (\<lambda>flags. res_cost okind relr flags i) syms))"
proof (induction syms)
  case Nil
  have "finalise_symbol_sizes okind relr [] = Some" by (intro ext) simp
  then show ?case using adds_Some by simp
next
  case (Cons req syms)
  obtain flags raw idx where req: "req = (flags, raw, idx)" using prod_cases3 by blast
  have "finalise_symbol_sizes okind relr (req # syms) = (\<lambda>m. allocate_resolution flags okind relr m \<bind> finalise_symbol_sizes okind relr syms)"
    by (intro ext) (simp add: req)
  then show ?case
    using adds_eq [OF adds_bind [OF allocate_resolution_cost Cons.IH]] by (simp add: req)
qed

subsection \<open>Addresses of all the symbols\<close>

fun offsets_after_all :: "symbol_request list \<Rightarrow> u64 list \<Rightarrow> u64 list" where
  "offsets_after_all [] m = m"
| "offsets_after_all (req # syms) m = offsets_after_all syms (offsets_after (fst req) m)"

fun created_all :: "symbol_request list \<Rightarrow> u64 list \<Rightarrow> resolution option list" where
  "created_all [] m = []"
| "created_all (req # syms) m =
     (case req of (flags, raw, idx) \<Rightarrow> if has_resolution flags then Some (created flags raw idx m) else None)
       # created_all syms (offsets_after (fst req) m)"

lemma length_offsets_after [simp]: "length (offsets_after flags m) = length m"
  by (simp add: offsets_after_def)

lemma length_offsets_after_all [simp]: "length (offsets_after_all syms m) = length m"
  by (induction syms arbitrary: m) simp_all

lemma length_created_all [simp]: "length (created_all syms m) = length syms"
  by (induction syms arbitrary: m) simp_all

lemma offsets_after_parts:
  "30 \<le> length m \<Longrightarrow> offsets_after flags m ! 6 = m ! 6 + of_nat (8 * num_got flags)"
  "30 \<le> length m \<Longrightarrow> offsets_after flags m ! 7 = m ! 7 + of_nat (16 * num_plt flags)"
  by (simp_all add: offsets_after_def)

lemma offsets_after_all_parts:
  "30 \<le> length m \<Longrightarrow> offsets_after_all syms m ! 6 = m ! 6 + of_nat (8 * total_of num_got syms)"
  "30 \<le> length m \<Longrightarrow> offsets_after_all syms m ! 7 = m ! 7 + of_nat (16 * total_of num_plt syms)"
  by (induction syms arbitrary: m) (simp_all add: offsets_after_parts algebra_simps)

lemma created_all_append: "created_all (xs @ ys) m = created_all xs m @ created_all ys (offsets_after_all xs m)"
  by (induction xs arbitrary: m) simp_all

lemma no_resolution_none:
  "\<not> has_resolution flags \<Longrightarrow> num_got flags = 0 \<and> num_plt flags = 0 \<and> num_rela_plt flags = 0 \<and> num_relative okind flags = 0 \<and> num_general okind flags = 0"
proof -
  assume "\<not> has_resolution flags"
  then have "\<not> bit flags n" if "n < 16" "bit RESOLUTION_FLAGS n" for n
    using that by (metis has_resolution_iff)
  from this [of 7] this [of 8] this [of 9] this [of 10] this [of 11] this [of 14]
  have "\<not> needs_got flags" "\<not> needs_plt flags" "\<not> vf_is_tls flags" "\<not> needs_got_tls_offset flags" "\<not> needs_got_tls_module flags"
    "\<not> needs_got_tls_descriptor flags" "\<not> needs_ifunc_got_for_address flags"
    by (simp_all add: value_flag_queries RESOLUTION_FLAGS_def bit_or_iff vf_const_bits)
  then show ?thesis by (simp add: num_got_def num_plt_def num_rela_plt_def num_relative_def num_general_def plain_got_def)
qed

lemma finalise_layout_symbols_eq:
  assumes "\<forall>(flags, raw, idx) \<in> set syms. flags_ok flags" and "30 \<le> length m" and "m ! 6 \<noteq> 0" and "m ! 7 \<noteq> 0"
    and "unat (m ! 6) + 8 * total_of num_got syms < 2 ^ 64" and "unat (m ! 7) + 16 * total_of num_plt syms < 2 ^ 64"
  shows "finalise_layout_symbols syms m = Some (created_all syms m, offsets_after_all syms m)"
  using assms
proof (induction syms arbitrary: m)
  case (Cons req syms)
  obtain flags raw idx where req: "req = (flags, raw, idx)" using prod_cases3 by blast
  let ?m = "offsets_after flags m"
  have u: "unat (?m ! 6) = unat (m ! 6) + 8 * num_got flags" "unat (?m ! 7) = unat (m ! 7) + 16 * num_plt flags"
    using Cons.prems by (simp_all only: offsets_after_parts) (rule unat_add_small, simp add: req)+
  moreover from this have "?m ! 6 \<noteq> 0" "?m ! 7 \<noteq> 0" using Cons.prems(3,4) by (auto simp: unat_eq_zero simp flip: unat_eq_zero)
  ultimately have IH: "finalise_layout_symbols syms ?m = Some (created_all syms ?m, offsets_after_all syms ?m)"
    using Cons.prems by (intro Cons.IH) (simp_all add: req)
  have "create_symbol_resolution req m = Some (if has_resolution flags then Some (created flags raw idx m) else None, ?m)"
  proof (cases "has_resolution flags")
    case True
    then show ?thesis using Cons.prems create_resolution_eq [of flags m raw idx] by (simp add: create_symbol_resolution_def req)
  next
    case False
    then have "?m = m" using no_resolution_none [OF False] by (simp add: offsets_after_def pm_add_zero cong: if_cong)
    then show ?thesis using False by (simp add: create_symbol_resolution_def req)
  qed
  then show ?case using IH by (simp add: req)
qed simp

text \<open>Every PLT entry of the group can be written for every GOT entry of the group.\<close>

definition plts_ok :: "arch_ops \<Rightarrow> symbol_request list \<Rightarrow> u64 list \<Rightarrow> bool" where
  "plts_ok arch syms m \<longleftrightarrow> (\<forall>i < total_of num_got syms. \<forall>j < total_of num_plt syms.
     arch_ok arch (m ! 6 + of_nat (8 * i)) (m ! 7 + of_nat (16 * j)))"

lemma plts_ok_Cons:
  assumes "plts_ok arch ((flags, raw, idx) # syms) m" and "30 \<le> length m"
  shows "num_plt flags \<noteq> 0 \<longrightarrow> arch_ok arch (m ! 6) (m ! 7)" and "plts_ok arch syms (offsets_after flags m)"
proof
  assume "num_plt flags \<noteq> 0"
  moreover from this have "0 < num_got flags" by (auto simp: num_plt_def num_got_def split: if_splits)
  ultimately show "arch_ok arch (m ! 6) (m ! 7)"
    using assms(1) [unfolded plts_ok_def, rule_format, of 0 0] by simp
next
  show "plts_ok arch syms (offsets_after flags m)"
    unfolding plts_ok_def
  proof (intro allI impI)
    fix i j assume "i < total_of num_got syms" "j < total_of num_plt syms"
    then show "arch_ok arch (offsets_after flags m ! 6 + of_nat (8 * i)) (offsets_after flags m ! 7 + of_nat (16 * j))"
      using assms(1) [unfolded plts_ok_def, rule_format, of "num_got flags + i" "num_plt flags + j"] assms(2)
      by (simp add: offsets_after_parts algebra_simps)
  qed
qed

lemma plts_ok_take: "plts_ok arch syms m \<Longrightarrow> plts_ok arch (take n syms) m"
  unfolding plts_ok_def using total_of_simps(3) [of _ "take n syms" "drop n syms"] by (metis append_take_drop_id trans_less_add1)

lemma does_write_symbol_resolutions:
  assumes "\<forall>(flags, raw, idx) \<in> set syms. passes_ok okind tls layout flags raw idx" and "plts_ok arch syms m" and "even (m ! 6)" and "30 \<le> length m"
  shows "does (write_symbol_resolutions arch layout (created_all syms m)) okind relr tls (total_of num_got syms) (total_of num_plt syms)
    (total_of num_rela_plt syms) (total_of (num_relative okind) syms) (total_of (num_general okind) syms)"
  using assms
proof (induction syms arbitrary: m)
  case Nil
  have "write_symbol_resolutions arch layout [] = Inr" by (intro ext) simp
  then show ?case using does_skip by simp
next
  case (Cons req syms)
  obtain flags raw idx where req: "req = (flags, raw, idx)" using prod_cases3 by blast
  let ?r = "if has_resolution flags then Some (created flags raw idx m) else None"
  have "even (offsets_after flags m ! 6)" using Cons.prems by (simp add: offsets_after_parts)
  then have IH: "does (write_symbol_resolutions arch layout (created_all syms (offsets_after flags m))) okind relr tls (total_of num_got syms)
      (total_of num_plt syms) (total_of num_rela_plt syms) (total_of (num_relative okind) syms) (total_of (num_general okind) syms)"
    using Cons.prems plts_ok_Cons [OF Cons.prems(2) [unfolded req] Cons.prems(4)] by (intro Cons.IH) (simp_all add: req)
  have one: "does (\<lambda>w. case ?r of None \<Rightarrow> Inr w | Some r \<Rightarrow> process_resolution arch layout r w) okind relr tls
      (num_got flags) (num_plt flags) (num_rela_plt flags) (num_relative okind flags) (num_general okind flags)"
  proof (cases "has_resolution flags")
    case True
    then show ?thesis using does_process_resolution [of okind tls layout flags raw idx arch m "created flags raw idx m" relr] Cons.prems
        plts_ok_Cons [OF Cons.prems(2) [unfolded req] Cons.prems(4)] by (simp add: req)
  next
    case False
    then show ?thesis using no_resolution_none [OF False] does_skip by simp
  qed
  have "write_symbol_resolutions arch layout (created_all (req # syms) m)
    = (\<lambda>w. and_then (case ?r of None \<Rightarrow> Inr w | Some r \<Rightarrow> process_resolution arch layout r w)
        (write_symbol_resolutions arch layout (created_all syms (offsets_after flags m))))"
    by (intro ext) (simp add: req)
  then show ?case using does_then [OF one IH] by (simp add: req)
qed

lemma does_prefix:
  assumes "\<forall>(flags, raw, idx) \<in> set syms. passes_ok okind tls layout flags raw idx" and "plts_ok arch syms m" and "even (m ! 6)" and "30 \<le> length m"
    and w: "room (total_of num_got syms) (total_of num_plt syms) (total_of num_rela_plt syms) (total_of (num_relative okind) syms)
      (total_of (num_general okind) syms) w" "tw_kind w = okind" "tw_tls w = tls" and "n \<le> length syms"
  shows "\<exists>w'. write_symbol_resolutions arch layout (take n (created_all syms m)) w = Inr w'
    \<and> takes (total_of num_got (take n syms)) (total_of num_plt (take n syms)) (total_of num_rela_plt (take n syms))
      (total_of (num_relative okind) (take n syms)) (total_of (num_general okind) (take n syms)) w w'"
proof -
  have split: "total_of f syms = total_of f (take n syms) + total_of f (drop n syms)" for f
    by (metis append_take_drop_id total_of_simps(3))
  have "take n (created_all syms m) = created_all (take n syms) m"
    using created_all_append [of "take n syms" "drop n syms" m] \<open>n \<le> length syms\<close> by simp
  moreover have "\<forall>(flags, raw, idx) \<in> set (take n syms). passes_ok okind tls layout flags raw idx"
    using assms(1) by (auto dest: in_set_takeD)
  note does_write_symbol_resolutions [OF this plts_ok_take [OF assms(2)] assms(3,4), of "tw_relr_enabled w"]
  moreover have "room (total_of num_got (take n syms)) (total_of num_plt (take n syms)) (total_of num_rela_plt (take n syms))
      (total_of (num_relative okind) (take n syms)) (total_of (num_general okind) (take n syms)) w"
    by (rule room_less [OF w(1)]) (simp_all add: split)
  ultimately show ?thesis using w by (simp add: does_def)
qed

lemma nth_middle: "xs = ys @ y # zs \<Longrightarrow> length ys = k \<Longrightarrow> xs ! k = y"
  by auto

subsection \<open>The writer for the sizes\<close>

lemma num_bounds:
  "num_got flags \<le> 7" "num_plt flags \<le> 7" "num_rela_plt flags \<le> 7" "num_relative okind flags \<le> 7" "num_general okind flags \<le> 7"
  by (simp_all add: num_got_def num_plt_def num_rela_plt_def num_relative_def num_general_def of_bool_def)

lemma total_scaled: "total_of (\<lambda>flags. k * f flags) syms = k * total_of f syms"
  by (induction syms) (simp_all add: algebra_simps)

lemma total_of_zero: "total_of (\<lambda>flags. 0) syms = 0"
  by (induction syms) simp_all

lemma sizes_new_writer:
  assumes "finalise_symbol_sizes okind relr syms (replicate (unat NUM_SINGLE_PART_SECTIONS) 0) = Some sizes" and n: "length syms < 2 ^ 56"
  shows "\<exists>w. table_writer_new okind tls relr sizes = Some w \<and> tw_kind w = okind \<and> tw_tls w = tls \<and> got_out w = [] \<and> plt_out w = []
    \<and> sizes ! 6 = of_nat (8 * total_of num_got syms) \<and> sizes ! 7 = of_nat (16 * total_of num_plt syms)
    \<and> got_left w = total_of num_got syms \<and> plt_left w = 16 * total_of num_plt syms \<and> rela_plt_left w = total_of num_rela_plt syms
    \<and> general_left w = total_of (num_general okind) syms
    \<and> (if relr_left w = None then relative_left w = total_of (num_relative okind) syms
       else relative_left w = 0 \<and> relr_left w = Some (total_of (num_relative okind) syms))"
proof -
  let ?t = "\<lambda>f. total_of f syms"
  have len: "30 \<le> length sizes" and
    nth: "i < 30 \<Longrightarrow> sizes ! i = of_nat (total_of (\<lambda>flags. res_cost okind relr flags i) syms)" for i
    using finalise_symbol_sizes_adds [of okind relr syms] assms(1) by (auto simp: adds_def NUM_SINGLE_PART_SECTIONS_def)
  have fits: "?t f * 24 < 2 ^ 64" if "\<And>flags. f flags \<le> 7" for f
    using total_of_le [of f 7 syms] that n by simp
  note fits = fits [of num_got, OF num_bounds(1)] fits [of num_plt, OF num_bounds(2)] fits [of num_rela_plt, OF num_bounds(3)]
    fits [of "num_relative okind", OF num_bounds(4)] fits [of "num_general okind", OF num_bounds(5)]
  have parts: "sizes ! 6 = of_nat (8 * ?t num_got)" "sizes ! 7 = of_nat (16 * ?t num_plt)" "sizes ! 8 = of_nat (24 * ?t num_rela_plt)"
    "sizes ! 25 = of_nat (if relr then 0 else 24 * ?t (num_relative okind))" "sizes ! 26 = of_nat (24 * ?t (num_general okind))"
    "sizes ! 29 = of_nat (if relr then 8 * ?t (num_relative okind) else 0)"
    by (simp_all add: nth res_cost_def total_scaled total_of_zero)
  have small: "unat (of_nat k :: u64) = k" if "k < 2 ^ 64" for k using that by (simp add: unat_of_nat take_bit_nat_eq_self)
  have u: "unat (sizes ! 6) = 8 * ?t num_got" "unat (sizes ! 7) = 16 * ?t num_plt" "unat (sizes ! 8) = 24 * ?t num_rela_plt"
    "unat (sizes ! 25) = (if relr then 0 else 24 * ?t (num_relative okind))" "unat (sizes ! 26) = 24 * ?t (num_general okind)"
    "unat (sizes ! 29) = (if relr then 8 * ?t (num_relative okind) else 0)"
    unfolding parts by (rule small, use fits in simp)+
  have "sizes ! 6 mod 8 = 0" by (rule unat_eq_zero [THEN iffD1]) (simp add: unat_mod u)
  then have "\<exists>w. table_writer_new okind tls relr sizes = Some w \<and> tw_kind w = okind \<and> tw_tls w = tls \<and> got_out w = [] \<and> plt_out w = []
    \<and> got_left w = ?t num_got \<and> plt_left w = 16 * ?t num_plt \<and> rela_plt_left w = ?t num_rela_plt \<and> general_left w = ?t (num_general okind)
    \<and> (if relr_left w = None then relative_left w = ?t (num_relative okind)
       else relative_left w = 0 \<and> relr_left w = Some (?t (num_relative okind)))"
    using len by (auto simp: table_writer_new_def part_get_nth part_numbers u)
  then show ?thesis using parts(1,2) by blast
qed

subsection \<open>The three passes agree\<close>

lemma passes_agree:
  assumes "\<forall>(flags, raw, idx) \<in> set syms. passes_ok okind tls layout flags raw idx" and "plts_ok arch syms m" and "length syms < 2 ^ 56"
    and "30 \<le> length m" "0 < m ! 6" "m ! 6 < 2 ^ 63" "even (m ! 6)" "0 < m ! 7" "m ! 7 < 2 ^ 63"
  shows "\<exists>sizes rs m' w w'.
    finalise_symbol_sizes okind relr syms (replicate (unat NUM_SINGLE_PART_SECTIONS) 0) = Some sizes
    \<and> finalise_layout_symbols syms m = Some (rs, m') \<and> m' ! 6 = m ! 6 + sizes ! 6 \<and> m' ! 7 = m ! 7 + sizes ! 7
    \<and> table_writer_new okind tls relr sizes = Some w \<and> write_symbol_resolutions arch layout rs w = Inr w'
    \<and> validate_empty 0 w' = Inr w' \<and> plt_left w' = 0 \<and> rela_plt_left w' = 0 \<and> general_left w' = 0
    \<and> length rs = length syms
    \<and> (\<forall>k < length syms. \<exists>wk. write_symbol_resolutions arch layout (take k rs) w = Inr wk
        \<and> (\<forall>r a. rs ! k = Some r \<longrightarrow> got_address r = Some a \<longrightarrow> a = m ! 6 + 8 * of_nat (length (got_out wk)))
        \<and> (\<forall>r a. rs ! k = Some r \<longrightarrow> plt_address r = Some a \<longrightarrow> a = m ! 7 + of_nat (length (plt_out wk)))
        \<and> (\<forall>r a. rs ! k = Some r \<longrightarrow> plt_address r = Some a \<longrightarrow> \<not> vf_is_tls (res_flags r)
          \<and> (\<exists>i < total_of num_got syms. \<exists>j < total_of num_plt syms. got_address r = Some (m ! 6 + of_nat (8 * i)) \<and> a = m ! 7 + of_nat (16 * j))))"
proof -
  obtain sizes where sizes: "finalise_symbol_sizes okind relr syms (replicate (unat NUM_SINGLE_PART_SECTIONS) 0) = Some sizes"
    using finalise_symbol_sizes_adds [of okind relr syms] by (auto simp: adds_def NUM_SINGLE_PART_SECTIONS_def)
  obtain w where w: "table_writer_new okind tls relr sizes = Some w" "tw_kind w = okind" "tw_tls w = tls" "got_out w = []" "plt_out w = []"
      "sizes ! 6 = of_nat (8 * total_of num_got syms)" "sizes ! 7 = of_nat (16 * total_of num_plt syms)"
      "got_left w = total_of num_got syms" "plt_left w = 16 * total_of num_plt syms" "rela_plt_left w = total_of num_rela_plt syms"
      "general_left w = total_of (num_general okind) syms"
      "if relr_left w = None then relative_left w = total_of (num_relative okind) syms
       else relative_left w = 0 \<and> relr_left w = Some (total_of (num_relative okind) syms)"
    using sizes_new_writer [OF sizes assms(3)] by blast
  have room: "room (total_of num_got syms) (total_of num_plt syms) (total_of num_rela_plt syms) (total_of (num_relative okind) syms)
      (total_of (num_general okind) syms) w"
    using w(8-12) by (simp add: room_def split: if_splits option.splits)
  let ?rs = "created_all syms m" and ?m = "offsets_after_all syms m"
  have "unat (m ! 6) < 2 ^ 63" "unat (m ! 7) < 2 ^ 63" using assms(6,9) by (simp_all add: word_less_nat_alt)
  moreover have "total_of num_got syms \<le> 7 * 2 ^ 56" "total_of num_plt syms \<le> 7 * 2 ^ 56"
    using total_of_le [of num_got 7 syms] total_of_le [of num_plt 7 syms] num_bounds assms(3) by force+
  moreover have "\<forall>(flags, raw, idx) \<in> set syms. flags_ok flags" using assms(1) by (auto simp: passes_ok_def)
  ultimately have created: "finalise_layout_symbols syms m = Some (?rs, ?m)"
    using assms by (intro finalise_layout_symbols_eq) auto
  note prefix = does_prefix [OF assms(1,2,7,4) room w(2,3)]
  obtain w' where w': "write_symbol_resolutions arch layout ?rs w = Inr w'" "takes (total_of num_got syms) (total_of num_plt syms)
      (total_of num_rela_plt syms) (total_of (num_relative okind) syms) (total_of (num_general okind) syms) w w'"
    using prefix [of "length syms"] by auto
  have "validate_empty 0 w' = Inr w' \<and> plt_left w' = 0 \<and> rela_plt_left w' = 0 \<and> general_left w' = 0"
    using w'(2) w(8-12) by (cases "relr_left w"; cases "relr_left w'") (auto simp: takes_def validate_empty_def)
  moreover have "\<exists>wk. write_symbol_resolutions arch layout (take k ?rs) w = Inr wk
        \<and> (\<forall>r a. ?rs ! k = Some r \<longrightarrow> got_address r = Some a \<longrightarrow> a = m ! 6 + 8 * of_nat (length (got_out wk)))
        \<and> (\<forall>r a. ?rs ! k = Some r \<longrightarrow> plt_address r = Some a \<longrightarrow> a = m ! 7 + of_nat (length (plt_out wk)))
        \<and> (\<forall>r a. ?rs ! k = Some r \<longrightarrow> plt_address r = Some a \<longrightarrow> \<not> vf_is_tls (res_flags r)
          \<and> (\<exists>i < total_of num_got syms. \<exists>j < total_of num_plt syms. got_address r = Some (m ! 6 + of_nat (8 * i)) \<and> a = m ! 7 + of_nat (16 * j)))"
    if k: "k < length syms" for k
  proof -
    obtain wk where wk: "write_symbol_resolutions arch layout (take k ?rs) w = Inr wk"
        "length (got_out wk) = total_of num_got (take k syms)" "length (plt_out wk) = 16 * total_of num_plt (take k syms)"
      using prefix [of k] k w(4,5) by (auto simp: takes_def)
    obtain flags raw idx where "syms ! k = (flags, raw, idx)" using prod_cases3 by blast
    then have at_k: "take k syms @ (flags, raw, idx) # drop (Suc k) syms = syms" using id_take_nth_drop [OF k] by simp
    have "?rs = created_all (take k syms) m @ (if has_resolution flags then Some (created flags raw idx (offsets_after_all (take k syms) m)) else None)
        # created_all (drop (Suc k) syms) (offsets_after flags (offsets_after_all (take k syms) m))"
      using created_all_append [of "take k syms" "(flags, raw, idx) # drop (Suc k) syms" m] by (simp add: at_k)
    from nth_middle [OF this]
    have "?rs ! k = (if has_resolution flags then Some (created flags raw idx (offsets_after_all (take k syms) m)) else None)" using k by simp
    moreover have "\<exists>i < total_of num_got syms. \<exists>j < total_of num_plt syms.
        m ! 6 + of_nat (8 * total_of num_got (take k syms)) = m ! 6 + (of_nat (8 * i) :: u64) \<and> m ! 7 + of_nat (16 * total_of num_plt (take k syms)) = m ! 7 + (of_nat (16 * j) :: u64)"
      if "num_plt flags \<noteq> 0"
    proof -
      have "0 < num_got flags" using that by (auto simp: num_plt_def num_got_def split: if_splits)
      moreover have "total_of f syms = total_of f (take k syms) + f flags + total_of f (drop (Suc k) syms)" for f
        using arg_cong [OF at_k, of "total_of f"] by simp
      ultimately show ?thesis using that by (intro exI [of _ "total_of num_got (take k syms)"] exI [of _ "total_of num_plt (take k syms)"] conjI) simp_all
    qed
    moreover have "\<not> vf_is_tls flags" if "num_plt flags \<noteq> 0" using that by (auto simp: num_plt_def plain_got_def)
    moreover have "num_got flags \<noteq> 0" if "num_plt flags \<noteq> 0" using that by (auto simp: num_plt_def num_got_def split: if_splits)
    ultimately show ?thesis
      using wk assms(4) by (auto simp: created_def offsets_after_all_parts split: if_splits)
  qed
  moreover have "?m ! 6 = m ! 6 + sizes ! 6" "?m ! 7 = m ! 7 + sizes ! 7"
    unfolding w(6,7) by (rule offsets_after_all_parts [OF assms(4)])+
  ultimately show ?thesis
    using sizes created w(1) w'(1)
    by (intro exI [of _ sizes] exI [of _ ?rs] exI [of _ ?m] exI [of _ w] exI [of _ w']) (simp add: split_paired_all del: One_nat_def)
qed

subsection \<open>What goes to the PLT\<close>

lemma and_then_Inr: "and_then x f = Inr b \<longleftrightarrow> (\<exists>a. x = Inr a \<and> f a = Inr b)"
  by (cases x) simp_all

lemma if_Inr: "(if c then Inl e else x) = Inr y \<longleftrightarrow> \<not> c \<and> x = Inr y"
  by simp

lemma plt_kept_basic:
  "write_got v w = Inr w' \<Longrightarrow> plt_out w' = plt_out w"
  "write_ifunc_relocation arch res w = Inr w' \<Longrightarrow> plt_out w' = plt_out w"
  "write_rela_dyn_general place idx ty a w = Inr w' \<Longrightarrow> plt_out w' = plt_out w"
  "write_address_relocation arch place a w = Inr (v', w') \<Longrightarrow> plt_out w' = plt_out w"
  "debug_assert_general res w = Inr w' \<Longrightarrow> plt_out w' = plt_out w"
  "ensure_that c e w = Inr w' \<Longrightarrow> plt_out w' = plt_out w"
  by (auto simp: write_got_def write_ifunc_relocation_def write_rela_dyn_general_def write_address_relocation_def
      debug_assert_general_def ensure_that_def split: if_splits option.splits)

lemma plt_kept_tls:
  "process_got_tls_offset arch res tp got w = Inr w' \<Longrightarrow> plt_out w' = plt_out w"
  "process_got_tls_mod_and_offset arch res got w = Inr w' \<Longrightarrow> plt_out w' = plt_out w"
  "process_got_tls_descriptor arch res got w = Inr w' \<Longrightarrow> plt_out w' = plt_out w"
  by (auto simp: process_got_tls_offset_def process_got_tls_mod_and_offset_def process_got_tls_descriptor_def Let_def and_then_Inr
      split: if_splits option.splits prod.splits dest!: plt_kept_basic)

lemma plt_kept_process_tls: "process_tls arch layout res got w = Inr w' \<Longrightarrow> plt_out w' = plt_out w"
  by (auto simp: process_tls_def Let_def and_then_Inr split: if_splits option.splits dest!: plt_kept_tls)

lemma plt_kept_entries:
  "process_got_entry arch res got w = Inr w' \<Longrightarrow> plt_out w' = plt_out w"
  "process_ifunc_address arch res got w = Inr w' \<Longrightarrow> plt_out w' = plt_out w"
  by (auto simp: process_got_entry_def process_ifunc_address_def Let_def and_then_Inr
      split: if_splits option.splits prod.splits dest!: plt_kept_basic)

lemma write_plt_entry_out:
  "write_plt_entry arch got plt w = Inr w' \<Longrightarrow> \<exists>bs. write_plt_bytes arch got plt = Inr bs \<and> plt_out w' = plt_out w @ bs"
  by (auto simp: write_plt_entry_def split: if_splits sum.splits plt_error.splits)

lemma process_resolution_plt:
  assumes "process_resolution arch layout res w = Inr w'"
  shows "\<exists>bs. plt_out w' = plt_out w @ bs \<and> (\<forall>got plt. got_address res = Some got \<longrightarrow> plt_address res = Some plt \<longrightarrow> \<not> vf_is_tls (res_flags res)
    \<longrightarrow> write_plt_bytes arch got plt = Inr bs)"
  using assms
  by (auto simp: process_resolution_def and_then_Inr split: option.splits if_splits
      dest!: plt_kept_process_tls plt_kept_entries write_plt_entry_out)

lemma write_symbol_resolutions_plt:
  "write_symbol_resolutions arch layout rs w = Inr w' \<Longrightarrow> \<exists>bs. plt_out w' = plt_out w @ bs"
proof (induction rs arbitrary: w)
  case (Cons r rs)
  then obtain w1 where w1: "(case r of None \<Rightarrow> Inr w | Some r \<Rightarrow> process_resolution arch layout r w) = Inr w1"
      "write_symbol_resolutions arch layout rs w1 = Inr w'" by (auto simp: and_then_Inr)
  from w1(1) have "\<exists>bs. plt_out w1 = plt_out w @ bs"
    by (cases r) (auto dest: process_resolution_plt)
  then show ?case using Cons.IH [OF w1(2)] by auto
qed simp

lemma write_symbol_resolutions_append:
  "write_symbol_resolutions arch layout (xs @ ys) w = and_then (write_symbol_resolutions arch layout xs w) (write_symbol_resolutions arch layout ys)"
proof (induction xs arbitrary: w)
  case (Cons x xs)
  show ?case
    by (cases "case x of None \<Rightarrow> Inr w | Some r \<Rightarrow> process_resolution arch layout r w") (simp_all add: Cons.IH)
qed simp

context plt_writer
begin

text \<open>The entry of each symbol of the group, in the finished PLT.\<close>

lemma plt_entry_at:
  assumes ops: "write_plt_bytes ops = write_plt" and w: "write_symbol_resolutions ops layout rs w = Inr w'"
    and k: "k < length rs" "rs ! k = Some r" "got_address r = Some got" "plt_address r = Some plt" "\<not> vf_is_tls (res_flags r)"
    and wk: "write_symbol_resolutions ops layout (take k rs) w = Inr wk" and r: "reach got plt"
  shows "slot plt (take 16 (drop (length (plt_out wk)) (plt_out w'))) = Some got"
proof -
  have "write_symbol_resolutions ops layout (take k rs @ Some r # drop (Suc k) rs) w = Inr w'"
    using w id_take_nth_drop [OF k(1)] k(2) by simp
  then obtain w1 where w1: "process_resolution ops layout r wk = Inr w1" "write_symbol_resolutions ops layout (drop (Suc k) rs) w1 = Inr w'"
    unfolding write_symbol_resolutions_append using wk by (auto simp: and_then_Inr)
  obtain bs where "plt_out w1 = plt_out wk @ bs" "write_plt got plt = Inr bs"
    using process_resolution_plt [OF w1(1)] k(3-5) ops by auto
  moreover obtain rest where "plt_out w' = plt_out w1 @ rest" using write_symbol_resolutions_plt [OF w1(2)] by blast
  ultimately show ?thesis using writes [OF r] by auto
qed

end

subsection \<open>The three passes agree\<close>


definition sample_syms :: "symbol_request list" where
  "sample_syms = [(NON_INTERPOSABLE OR NEEDS_GOT OR NEEDS_PLT, 0x401230, None), (DYNAMIC_VALUE OR NEEDS_GOT OR NEEDS_PLT, 0, Some 1),
     (NON_INTERPOSABLE OR GOT_TLS_OFFSET, 0x405010, None), (NON_INTERPOSABLE OR IFUNC OR NEEDS_GOT OR NEEDS_PLT OR IFUNC_GOT_FOR_ADDRESS, 0x401300, None),
     (NON_INTERPOSABLE OR DIRECT, 0x401400, None)]"

definition sample_offsets :: "u64 list" where
  "sample_offsets = (replicate 47 0)[6 := 0x403000, 7 := 0x401000]"

lemma sample_flags:
  "\<forall>(flags, raw, idx) \<in> set sample_syms. passes_ok (DynamicExecutable RelocatableModel) (0x405000, 0x405100) (Some 0x405100) flags raw idx"
  by (simp add: sample_syms_def passes_ok_def flags_ok_def has_dynamic_symbol_def value_flag_queries bit_or_iff vf_const_bits)

lemma sample_totals: "total_of num_got sample_syms = 5" "total_of num_plt sample_syms = 3"
  by (simp_all add: sample_syms_def num_got_def num_plt_def plain_got_def value_flag_queries bit_or_iff vf_const_bits)

lemma sample_reach:
  "\<forall>i < total_of num_got sample_syms. \<forall>j < total_of num_plt sample_syms.
     plt_reach Arch_X86_64 (sample_offsets ! 6 + of_nat (8 * i)) (sample_offsets ! 7 + of_nat (16 * j))"
proof -
  have "(\<forall>i < 5. P i) \<longleftrightarrow> P 0 \<and> P 1 \<and> P 2 \<and> P 3 \<and> P 4" "(\<forall>i < 3. P i) \<longleftrightarrow> P 0 \<and> P 1 \<and> P 2" for P :: "nat \<Rightarrow> bool"
    by (auto simp: less_Suc_eq numeral_eq_Suc)
  then show ?thesis unfolding sample_totals by (simp add: sample_offsets_def)
qed


end
