(* ===== verification/Relax_Common.thy ===== *)
theory Relax_Common
  imports Elf_Types
begin

unbundle bit_operations_syntax

text \<open>
  What the relaxation code of all architectures shares: \<^verbatim>\<open>RelocationModifier\<close> of
  \<^verbatim>\<open>linker-utils/src/relaxation.rs\<close>, and byte updates at an offset that is computed by
  subtraction. A \<^verbatim>\<open>usize\<close> subtraction below zero wraps to an index that no slice has, so it ends
  in the same panic as an index out of range: \<open>None\<close>.
\<close>

datatype relocation_modifier = Normal | SkipNextRelocation

text \<open>The arguments that \<^verbatim>\<open>apply\<close> mutates: section bytes, offset in the section, addend.\<close>

type_synonym relax_state = "bytes \<times> u64 \<times> i64"

definition get_back :: "bytes \<Rightarrow> nat \<Rightarrow> nat \<Rightarrow> u8 option" where
  "get_back bs off k = (if k \<le> off then get_at bs (off - k) else None)"

definition set_back :: "nat \<Rightarrow> nat \<Rightarrow> u8 \<Rightarrow> bytes \<Rightarrow> bytes option" where
  "set_back off k v bs = (if k \<le> off then set_at (off - k) v bs else None)"

text \<open>\<^verbatim>\<open>bytes[offset - k..offset + e].copy_from_slice(src)\<close>\<close>

definition copy_back :: "nat \<Rightarrow> nat \<Rightarrow> nat \<Rightarrow> bytes \<Rightarrow> bytes \<Rightarrow> bytes option" where
  "copy_back off k e src bs = (if k \<le> off then copy_from_slice (off - k) (off + e) src bs else None)"

text \<open>
  The frame of a byte-level edit: the length is kept and bytes outside the window
  \<open>[lo, hi)\<close> are unchanged.
\<close>

definition edits_within :: "nat \<Rightarrow> nat \<Rightarrow> bytes \<Rightarrow> bytes \<Rightarrow> bool" where
  "edits_within lo hi bs bs' \<longleftrightarrow>
     length bs' = length bs \<and> (\<forall>i < length bs. i < lo \<or> hi \<le> i \<longrightarrow> bs' ! i = bs ! i)"

lemma edits_within_refl [simp, intro]: "edits_within lo hi bs bs"
  by (simp add: edits_within_def)

lemma edits_within_trans:
  "edits_within lo hi bs cs \<Longrightarrow> edits_within lo hi cs ds \<Longrightarrow> edits_within lo hi bs ds"
  by (auto simp: edits_within_def)

lemma edits_within_mono:
  "edits_within lo hi bs cs \<Longrightarrow> lo' \<le> lo \<Longrightarrow> hi \<le> hi' \<Longrightarrow> edits_within lo' hi' bs cs"
  by (auto simp: edits_within_def)

lemma set_back_edits:
  assumes "set_back off k v bs = Some cs"
  shows "edits_within (off - k) (off - k + 1) bs cs"
  using assms
  by (auto simp: set_back_def edits_within_def dest: length_set_at nth_set_at split: if_splits)

lemma copy_back_edits:
  assumes "copy_back off k e src bs = Some cs"
  shows "edits_within (off - k) (off + e) bs cs"
  using assms
  by (auto simp: copy_back_def edits_within_def dest: length_copy_from_slice nth_copy_from_slice split: if_splits)

end
