(* ===== verification/X86_64.thy ===== *)
theory X86_64
  imports Relax_Common Reloc_Table
begin

unbundle bit_operations_syntax

text \<open>
  \<^verbatim>\<open>linker-utils/src/x86_64.rs\<close>: the relaxations, which rewrite instruction bytes around a
  relocation and may move the relocation and change its addend, and the x86-64 relocation table.
\<close>

datatype x86_64_relaxation_kind =
    MovIndirectToLea
  | MovIndirectToAbsolute
  | RexMovIndirectToAbsolute u8
  | RexAddIndirectToAbsolute u8
  | RexSubIndirectToAbsolute u8
  | RexCmpIndirectToAbsolute u8
  | CallIndirectToRelative
  | JmpIndirectToRelative
  | X86_NoOp
  | TlsGdToLocalExec
  | TlsGdToLocalExecLarge
  | TlsLdToLocalExec
  | TlsLdToLocalExecNoPlt
  | TlsLdToLocalExec64
  | TlsGdToInitialExec
  | TlsDescToLocalExec u8
  | TlsDescToInitialExec
  | SkipTlsDescCall

text \<open>\<^verbatim>\<open>*mod_rm = (*mod_rm >> 3) & 0x7 | base\<close>\<close>

definition set_mod_rm :: "nat \<Rightarrow> u8 \<Rightarrow> bytes \<Rightarrow> bytes option" where
  "set_mod_rm off base bs =
     Option.bind (get_back bs off 1) (\<lambda>m. set_back off 1 ((drop_bit 3 m AND 7) OR base) bs)"

definition move_rex_r :: "u8 \<Rightarrow> u8" where
  "move_rex_r rex = (rex AND NOT 4) OR drop_bit 2 (rex AND 4)"

definition move_rex2_r :: "u8 \<Rightarrow> u8" where
  "move_rex2_r rex = (rex AND NOT 0x44) OR drop_bit 2 (rex AND 0x44)"

text \<open>The REX or REX2 prefix update that the four absolute forms share.\<close>

definition update_rex :: "u8 \<Rightarrow> nat \<Rightarrow> bytes \<Rightarrow> bytes option" where
  "update_rex inst_offset off bs =
     Option.bind (get_back bs off 3) (\<lambda>rex.
       if inst_offset = 3 then set_back off 3 (move_rex_r rex) bs
       else if inst_offset = 4 then set_back off 3 (move_rex2_r rex) bs
       else Some bs)"

definition evex_l5 :: "u8 \<Rightarrow> u8" where
  "evex_l5 l5 =
     (let a = (if l5 AND push_bit 7 1 = 0 then (l5 OR push_bit 7 1) AND NOT (push_bit 5 1) else l5)
      in if a AND push_bit 4 1 = 0 then a OR push_bit 4 1 OR push_bit 3 1 else a)"

definition x86_apply :: "x86_64_relaxation_kind \<Rightarrow> relax_state \<Rightarrow> relax_state option" where
  "x86_apply k st =
     (case st of (bs, offset_in_section, addend) \<Rightarrow>
      let off = unat offset_in_section in
      case k of
        MovIndirectToLea \<Rightarrow>
          map_option (\<lambda>b. (b, offset_in_section, addend)) (set_back off 2 0x8d bs)
      | MovIndirectToAbsolute \<Rightarrow>
          map_option (\<lambda>b. (b, offset_in_section, 0))
            (Option.bind (set_back off 2 0xc7 bs) (set_mod_rm off 0xc0))
      | RexMovIndirectToAbsolute inst_offset \<Rightarrow>
          map_option (\<lambda>b. (b, offset_in_section, 0))
            (Option.bind (update_rex inst_offset off bs) (\<lambda>b.
             Option.bind (set_back off 2 0xc7 b) (set_mod_rm off 0xc0)))
      | RexAddIndirectToAbsolute inst_offset \<Rightarrow>
          map_option (\<lambda>b. (b, offset_in_section, 0))
            (Option.bind
               (if inst_offset = 3 \<or> inst_offset = 4 then update_rex inst_offset off bs
                else if inst_offset = 6 then
                  Option.bind (get_back bs off 5) (\<lambda>l5. set_back off 5 (evex_l5 l5) bs)
                else Some bs) (\<lambda>b.
             Option.bind (set_back off 2 0x81 b) (set_mod_rm off 0xc0)))
      | RexSubIndirectToAbsolute inst_offset \<Rightarrow>
          map_option (\<lambda>b. (b, offset_in_section, 0))
            (Option.bind (update_rex inst_offset off bs) (\<lambda>b.
             Option.bind (set_back off 2 0x81 b) (set_mod_rm off 0xe8)))
      | RexCmpIndirectToAbsolute inst_offset \<Rightarrow>
          map_option (\<lambda>b. (b, offset_in_section, 0))
            (Option.bind (update_rex inst_offset off bs) (\<lambda>b.
             Option.bind (set_back off 2 0x81 b) (set_mod_rm off 0xf8)))
      | CallIndirectToRelative \<Rightarrow>
          map_option (\<lambda>b. (b, offset_in_section, addend)) (copy_back off 2 0 [0x67, 0xe8] bs)
      | JmpIndirectToRelative \<Rightarrow>
          map_option (\<lambda>b. (b, offset_in_section - 1, addend))
            (copy_back off 2 4 [0xe9, 0, 0, 0, 0, 0x90] bs)
      | TlsGdToLocalExec \<Rightarrow>
          map_option (\<lambda>b. (b, offset_in_section + 8, 0))
            (copy_back off 4 8 [0x64, 0x48, 0x8b, 0x04, 0x25, 0, 0, 0, 0, 0x48, 0x8d, 0x80] bs)
      | TlsGdToLocalExecLarge \<Rightarrow>
          map_option (\<lambda>b. (b, offset_in_section + 9, 0))
            (copy_back off 3 19 [0x64, 0x48, 0x8b, 0x04, 0x25, 0, 0, 0, 0, 0x48, 0x8d, 0x80, 0, 0, 0, 0,
                                 0x66, 0x0f, 0x1f, 0x44, 0, 0] bs)
      | TlsGdToInitialExec \<Rightarrow>
          map_option (\<lambda>b. (b, offset_in_section + 8, addend))
            (copy_back off 4 8 [0x64, 0x48, 0x8b, 0x04, 0x25, 0, 0, 0, 0, 0x48, 0x03, 0x05] bs)
      | TlsLdToLocalExec \<Rightarrow>
          map_option (\<lambda>b. (b, offset_in_section + 5, addend))
            (copy_back off 3 9 [0x66, 0x66, 0x66, 0x64, 0x48, 0x8b, 0x04, 0x25, 0, 0, 0, 0] bs)
      | TlsLdToLocalExecNoPlt \<Rightarrow>
          map_option (\<lambda>b. (b, offset_in_section + 5, addend))
            (copy_back off 3 10 [0x66, 0x66, 0x66, 0x66, 0x64, 0x48, 0x8b, 0x04, 0x25, 0, 0, 0, 0] bs)
      | TlsLdToLocalExec64 \<Rightarrow>
          map_option (\<lambda>b. (b, offset_in_section + 15, addend))
            (copy_back off 3 19 [0x66, 0x66, 0x66, 0x66, 0x2e, 0x0f, 0x1f, 0x84, 0, 0, 0, 0, 0,
                                 0x64, 0x48, 0x8b, 0x04, 0x25, 0, 0, 0, 0] bs)
      | TlsDescToLocalExec inst_offset \<Rightarrow>
          Option.bind (get_back bs off 3) (\<lambda>rex.
          Option.bind (get_back bs off 1) (\<lambda>modrm.
            let rex_r = drop_bit 2 rex AND 1;
                reg = drop_bit 3 modrm AND 7
            in if inst_offset = 3 \<or> inst_offset = 4 then
                 let rex' = (if inst_offset = 3 then (if rex_r = 0 then 0x48 else 0x49)
                             else (if rex_r = 0 then 0x18 else 0x19))
                 in map_option (\<lambda>b. (b, offset_in_section, 0))
                      (copy_back off 3 4 [rex', 0xc7, 0xc0 OR reg, 0, 0, 0, 0] bs)
               else Some (bs, offset_in_section, addend)))
      | TlsDescToInitialExec \<Rightarrow>
          Option.bind (get_back bs off 3) (\<lambda>rex.
          Option.bind (get_back bs off 1) (\<lambda>modrm.
            let rex_r = drop_bit 2 rex AND 1;
                reg = drop_bit 3 modrm AND 7;
                rex' = (if rex_r = 0 then 0x48 else 0x4c)
            in map_option (\<lambda>b. (b, offset_in_section, addend))
                 (copy_back off 3 4 [rex', 0x8b, 0x05 OR push_bit 3 reg, 0, 0, 0, 0] bs)))
      | SkipTlsDescCall \<Rightarrow>
          map_option (\<lambda>b. (b, offset_in_section, addend))
            (copy_from_slice off (off + 2) [0x66, 0x90] bs)
      | X86_NoOp \<Rightarrow> Some (bs, offset_in_section, addend))"

fun x86_next_modifier :: "x86_64_relaxation_kind \<Rightarrow> relocation_modifier" where
  "x86_next_modifier TlsGdToInitialExec = SkipNextRelocation"
| "x86_next_modifier TlsGdToLocalExec = SkipNextRelocation"
| "x86_next_modifier TlsGdToLocalExecLarge = SkipNextRelocation"
| "x86_next_modifier TlsLdToLocalExec = SkipNextRelocation"
| "x86_next_modifier TlsLdToLocalExecNoPlt = SkipNextRelocation"
| "x86_next_modifier TlsLdToLocalExec64 = SkipNextRelocation"
| "x86_next_modifier _ = Normal"

subsection \<open>Relocation table\<close>

type_synonym reloc_size_and_range = "relocation_size \<times> allowed_range"

definition RELOC_8_BYTE_UNSIGNED :: reloc_size_and_range where
  "RELOC_8_BYTE_UNSIGNED = (ByteSize 8, const_byte_size 8 Unsigned)"
definition RELOC_8_BYTE_SIGNED :: reloc_size_and_range where
  "RELOC_8_BYTE_SIGNED = (ByteSize 8, const_byte_size 8 Signed)"
definition RELOC_4_BYTE_UNSIGNED :: reloc_size_and_range where
  "RELOC_4_BYTE_UNSIGNED = (ByteSize 4, const_byte_size 4 Unsigned)"
definition RELOC_4_BYTE_SIGNED :: reloc_size_and_range where
  "RELOC_4_BYTE_SIGNED = (ByteSize 4, const_byte_size 4 Signed)"
definition RELOC_2_BYTE_SIGNED :: reloc_size_and_range where
  "RELOC_2_BYTE_SIGNED = (ByteSize 2, const_byte_size 2 Signed)"
definition RELOC_1_BYTE_SIGNED :: reloc_size_and_range where
  "RELOC_1_BYTE_SIGNED = (ByteSize 1, const_byte_size 1 Signed)"
definition RELOC_NONE :: reloc_size_and_range where
  "RELOC_NONE = (ByteSize 0, no_check)"

definition x86_64_arms :: "(relocation_kind \<times> reloc_size_and_range) match_arms" where
  "x86_64_arms =
    [([''R_X86_64_64''],
      Some (RK_Absolute, RELOC_8_BYTE_UNSIGNED)),
     ([''R_X86_64_PC32''],
      Some (RK_Relative, RELOC_4_BYTE_SIGNED)),
     ([''R_X86_64_PC64''],
      Some (RK_Relative, RELOC_8_BYTE_SIGNED)),
     ([''R_X86_64_GOT32''],
      Some (RK_GotRelGotBase, RELOC_4_BYTE_UNSIGNED)),
     ([''R_X86_64_GOT64''],
      Some (RK_GotRelGotBase, RELOC_8_BYTE_UNSIGNED)),
     ([''R_X86_64_GOTOFF64''],
      Some (RK_SymRelGotBase, RELOC_8_BYTE_SIGNED)),
     ([''R_X86_64_PLT32''],
      Some (RK_PltRelative, RELOC_4_BYTE_SIGNED)),
     ([''R_X86_64_PLTOFF64''],
      Some (RK_PltRelGotBase, RELOC_8_BYTE_SIGNED)),
     ([''R_X86_64_GOTPCREL''],
      Some (RK_GotRelative, RELOC_4_BYTE_SIGNED)),
     ([''R_X86_64_GOTPC64''],
      Some (RK_Relative, RELOC_8_BYTE_SIGNED)),
     ([''R_X86_64_GOTPC32''],
      Some (RK_Relative, RELOC_4_BYTE_SIGNED)),
     ([''R_X86_64_32''],
      Some (RK_Absolute, RELOC_4_BYTE_UNSIGNED)),
     ([''R_X86_64_32S''],
      Some (RK_Absolute, RELOC_4_BYTE_SIGNED)),
     ([''R_X86_64_16''],
      Some (RK_Absolute, RELOC_2_BYTE_SIGNED)),
     ([''R_X86_64_PC16''],
      Some (RK_Relative, RELOC_2_BYTE_SIGNED)),
     ([''R_X86_64_8''],
      Some (RK_Absolute, RELOC_1_BYTE_SIGNED)),
     ([''R_X86_64_PC8''],
      Some (RK_Relative, RELOC_1_BYTE_SIGNED)),
     ([''R_X86_64_TLSGD''],
      Some (RK_TlsGd, RELOC_4_BYTE_SIGNED)),
     ([''R_X86_64_TLSLD''],
      Some (RK_TlsLd, RELOC_4_BYTE_SIGNED)),
     ([''R_X86_64_DTPOFF32''],
      Some (RK_DtpOff, RELOC_4_BYTE_SIGNED)),
     ([''R_X86_64_DTPOFF64''],
      Some (RK_DtpOff, RELOC_8_BYTE_SIGNED)),
     ([''R_X86_64_GOTTPOFF'', ''R_X86_64_CODE_4_GOTTPOFF'', ''R_X86_64_CODE_5_GOTTPOFF'', ''R_X86_64_CODE_6_GOTTPOFF''],
      Some (RK_GotTpOff, RELOC_4_BYTE_SIGNED)),
     ([''R_X86_64_GOTPCRELX'', ''R_X86_64_REX_GOTPCRELX'', ''R_X86_64_CODE_4_GOTPCRELX'', ''R_X86_64_CODE_5_GOTPCRELX'', ''R_X86_64_CODE_6_GOTPCRELX''],
      Some (RK_GotRelative, RELOC_4_BYTE_SIGNED)),
     ([''R_X86_64_TPOFF32''],
      Some (RK_TpOff, RELOC_4_BYTE_SIGNED)),
     ([''R_X86_64_GOTPC32_TLSDESC'', ''R_X86_64_CODE_4_GOTPC32_TLSDESC'', ''R_X86_64_CODE_5_GOTPC32_TLSDESC'', ''R_X86_64_CODE_6_GOTPC32_TLSDESC''],
      Some (RK_TlsDesc, RELOC_4_BYTE_SIGNED)),
     ([''R_X86_64_TLSDESC_CALL''],
      Some (RK_TlsDescCall, RELOC_NONE)),
     ([''R_X86_64_NONE''],
      Some (RK_None, RELOC_NONE))]"

definition x86_64_relocation_from_raw :: "elf_consts \<Rightarrow> u32 \<Rightarrow> relocation_kind_info option" where
  "x86_64_relocation_from_raw elf r_type =
     map_option
       (\<lambda>(k, sz, rng). \<lparr>kind = k, size = sz, page_mask = None, allowed = rng, alignment = 1, bias = 0,
                        thunkable = False\<rparr>)
       (match_const elf x86_64_arms r_type)"

lemmas x86_64_arms_defs [reloc_defs] =
  x86_64_arms_def RELOC_8_BYTE_UNSIGNED_def RELOC_8_BYTE_SIGNED_def RELOC_4_BYTE_UNSIGNED_def
  RELOC_4_BYTE_SIGNED_def RELOC_2_BYTE_SIGNED_def RELOC_1_BYTE_SIGNED_def RELOC_NONE_def

interpretation x86_64_table: match_table x86_64_arms
  by unfold_locales (simp add: arm_names_def x86_64_arms_def)

subsection \<open>Relaxations keep the register\<close>

text \<open>
  A register operand as the processor reads it: three bits of the ModRM byte and the extension
  bits of the prefix byte just before the opcode, which is absent, a REX prefix or the second
  byte of a REX2 prefix. The \<open>reg\<close> operand takes bits 3 to 5 of ModRM, REX.R (bit 2) and R4 (bit 6
  of REX2); the \<open>rm\<close> operand with \<open>mod = 3\<close>, a register, takes bits 0 to 2, REX.B (bit 0) and B4
  (bit 4 of REX2).
\<close>

datatype insn_prefix = NoPrefix | Rex | Rex2

fun prefix_bit :: "insn_prefix \<Rightarrow> nat \<Rightarrow> u8 \<Rightarrow> bool \<times> bool" where
  "prefix_bit NoPrefix n rex = (False, False)"
| "prefix_bit Rex n rex = (False, bit rex n)"
| "prefix_bit Rex2 n rex = (bit rex (n + 4), bit rex n)"

type_synonym register = "(bool \<times> bool) \<times> u8"

definition reg_operand :: "insn_prefix \<Rightarrow> u8 \<Rightarrow> u8 \<Rightarrow> register" where
  "reg_operand p rex modrm = (prefix_bit p 2 rex, drop_bit 3 modrm AND 7)"

definition rm_register :: "insn_prefix \<Rightarrow> u8 \<Rightarrow> u8 \<Rightarrow> register option" where
  "rm_register p rex modrm = (if drop_bit 6 modrm = 3 then Some (prefix_bit p 0 rex, modrm AND 7) else None)"

text \<open>
  The prefix, the opcode and the opcode digit (the \<open>reg\<close> field) of the immediate form that
  replaces \<^verbatim>\<open>op reg, [rip + got]\<close>: \<^verbatim>\<open>C7 /0\<close> is mov, \<^verbatim>\<open>81 /0\<close> add, \<^verbatim>\<open>81 /5\<close> sub and \<^verbatim>\<open>81 /7\<close> cmp. The
  number that a relaxation carries is 3 for a REX prefix and 4 for REX2.
\<close>

definition prefix_of :: "u8 \<Rightarrow> insn_prefix option" where
  "prefix_of i = (if i = 3 then Some Rex else if i = 4 then Some Rex2 else None)"

fun immediate_form :: "x86_64_relaxation_kind \<Rightarrow> (insn_prefix \<times> u8 \<times> u8) option" where
  "immediate_form MovIndirectToAbsolute = Some (NoPrefix, 0xc7, 0)"
| "immediate_form (RexMovIndirectToAbsolute i) = map_option (\<lambda>p. (p, 0xc7, 0)) (prefix_of i)"
| "immediate_form (RexAddIndirectToAbsolute i) = map_option (\<lambda>p. (p, 0x81, 0)) (prefix_of i)"
| "immediate_form (RexSubIndirectToAbsolute i) = map_option (\<lambda>p. (p, 0x81, 5)) (prefix_of i)"
| "immediate_form (RexCmpIndirectToAbsolute i) = map_option (\<lambda>p. (p, 0x81, 7)) (prefix_of i)"
| "immediate_form (TlsDescToLocalExec i) = map_option (\<lambda>p. (p, 0xc7, 0)) (prefix_of i)"
| "immediate_form _ = None"

text \<open>
  What the rewrites need of the prefix: the absolute forms merge the moved bits with OR, so the
  bits they move to must be clear; the REX2 form of the TLS descriptor writes a constant prefix
  with B4 set, so the register must be one of the upper sixteen.
\<close>

fun prefix_ok :: "x86_64_relaxation_kind \<Rightarrow> u8 \<Rightarrow> bool" where
  "prefix_ok MovIndirectToAbsolute rex = True"
| "prefix_ok (TlsDescToLocalExec i) rex = (i = 4 \<longrightarrow> bit rex 6)"
| "prefix_ok (RexMovIndirectToAbsolute i) rex = (\<not> bit rex 0 \<and> (i = 4 \<longrightarrow> \<not> bit rex 4))"
| "prefix_ok (RexAddIndirectToAbsolute i) rex = (\<not> bit rex 0 \<and> (i = 4 \<longrightarrow> \<not> bit rex 4))"
| "prefix_ok (RexSubIndirectToAbsolute i) rex = (\<not> bit rex 0 \<and> (i = 4 \<longrightarrow> \<not> bit rex 4))"
| "prefix_ok (RexCmpIndirectToAbsolute i) rex = (\<not> bit rex 0 \<and> (i = 4 \<longrightarrow> \<not> bit rex 4))"
| "prefix_ok _ rex = True"

lemma reg_or_base:
  fixes m :: u8
  shows "((drop_bit 3 m AND 7) OR 0xc0) AND 7 = drop_bit 3 m AND 7"
    "((drop_bit 3 m AND 7) OR 0xe8) AND 7 = drop_bit 3 m AND 7"
    "((drop_bit 3 m AND 7) OR 0xf8) AND 7 = drop_bit 3 m AND 7"
    "drop_bit 3 ((drop_bit 3 m AND 7) OR 0xc0) = 24"
    "drop_bit 3 ((drop_bit 3 m AND 7) OR 0xe8) = 29"
    "drop_bit 3 ((drop_bit 3 m AND 7) OR 0xf8) = 31"
    "drop_bit 6 ((drop_bit 3 m AND 7) OR 0xc0) = 3"
    "drop_bit 6 ((drop_bit 3 m AND 7) OR 0xe8) = 3"
    "drop_bit 6 ((drop_bit 3 m AND 7) OR 0xf8) = 3"
  by (simp_all only: drop_bit_or drop_bit_and drop_bit_drop_bit and.assoc bit.conj_disj_distrib2)
     simp_all

text \<open>The prefix byte that an absolute form leaves.\<close>

fun moved_prefix :: "insn_prefix \<Rightarrow> u8 \<Rightarrow> u8" where
  "moved_prefix NoPrefix rex = rex"
| "moved_prefix Rex rex = move_rex_r rex"
| "moved_prefix Rex2 rex = move_rex2_r rex"

lemma moved_prefix_bit:
  assumes "p \<noteq> NoPrefix \<longrightarrow> \<not> bit rex 0" and "p = Rex2 \<longrightarrow> \<not> bit rex 4"
  shows "prefix_bit p 0 (moved_prefix p rex) = prefix_bit p 2 rex"
  using assms
  by (cases p) (simp_all add: move_rex_r_def move_rex2_r_def bit_or_iff bit_and_iff bit_drop_bit_eq bit_not_iff)

lemma update_rex_eq:
  "prefix_of i = Some p \<Longrightarrow> 3 \<le> off \<Longrightarrow> off \<le> length bs \<Longrightarrow>
   update_rex i off bs = Some (bs[off - 3 := moved_prefix p (bs ! (off - 3))])"
  by (auto simp: prefix_of_def update_rex_def get_back_def set_back_def get_at_def set_at_def split: if_splits)

lemma set_mod_rm_eq:
  "1 \<le> off \<Longrightarrow> off \<le> length bs \<Longrightarrow>
   set_mod_rm off base bs = Some (bs[off - 1 := (drop_bit 3 (bs ! (off - 1)) AND 7) OR base])"
  by (simp add: set_mod_rm_def get_back_def set_back_def get_at_def set_at_def)

lemma set_back_eq: "k \<le> off \<Longrightarrow> 1 \<le> k \<Longrightarrow> off \<le> length bs \<Longrightarrow> set_back off k v bs = Some (bs[off - k := v])"
  by (simp add: set_back_def set_at_def)

lemma absolute_form_eq:
  assumes "prefix_of i = Some p" and "3 \<le> off" "off \<le> length bs"
  shows "Option.bind (update_rex i off bs) (\<lambda>b. Option.bind (set_back off 2 opc b) (set_mod_rm off base)) =
    Some (bs[off - 3 := moved_prefix p (bs ! (off - 3)), off - 2 := opc,
             off - 1 := (drop_bit 3 (bs ! (off - 1)) AND 7) OR base])"
  using assms by (simp add: update_rex_eq set_mod_rm_eq set_back_eq)

text \<open>What the property says of the three bytes before the field.\<close>

definition immediate_insn :: "insn_prefix \<Rightarrow> u8 \<Rightarrow> u8 \<Rightarrow> register \<Rightarrow> nat \<Rightarrow> bytes \<Rightarrow> bool" where
  "immediate_insn p opcode digit r off bs \<longleftrightarrow>
     bs ! (off - 2) = opcode \<and> drop_bit 3 (bs ! (off - 1)) AND 7 = digit \<and>
     rm_register p (bs ! (off - 3)) (bs ! (off - 1)) = Some r"

lemma immediate_insn_absolute:
  assumes "3 \<le> off" "off \<le> length bs"
    and "p \<noteq> NoPrefix \<longrightarrow> \<not> bit (bs ! (off - 3)) 0" and "p = Rex2 \<longrightarrow> \<not> bit (bs ! (off - 3)) 4"
    and "(base, digit) \<in> {(0xc0, 0), (0xe8, 5), (0xf8, 7)}"
  shows "immediate_insn p opc digit (reg_operand p (bs ! (off - 3)) (bs ! (off - 1))) off
    (bs[off - 3 := moved_prefix p (bs ! (off - 3)), off - 2 := opc,
        off - 1 := (drop_bit 3 (bs ! (off - 1)) AND 7) OR base])"
  using assms(1,2,5) moved_prefix_bit [OF assms(3,4)]
  by (auto simp: immediate_insn_def rm_register_def reg_operand_def reg_or_base)

lemma tls_desc_local_exec_eq:
  assumes "prefix_of i = Some p" and "3 \<le> unat offset" "unat offset + 4 \<le> length bs"
  defines "off \<equiv> unat offset"
  shows "x86_apply (TlsDescToLocalExec i) (bs, offset, addend) =
    Some (take (off - 3) bs @ [(if p = Rex then 0x48 else 0x18) + of_bool (bit (bs ! (off - 3)) 2), 0xc7,
       0xc0 OR (drop_bit 3 (bs ! (off - 1)) AND 7), 0, 0, 0, 0] @ drop (off + 4) bs, offset, 0)"
proof -
  have "drop_bit 2 r AND 1 = of_bool (bit r 2)" for r :: u8
    by (simp only: and_one_eq mod_2_eq_odd bit_iff_odd_drop_bit)
  then show ?thesis
    using assms
    by (auto simp: x86_apply_def Let_def get_back_def get_at_def copy_back_def copy_from_slice_def prefix_of_def
        split: if_splits)
qed

lemma tls_desc_immediate_insn:
  assumes "prefix_of i = Some p" and "3 \<le> unat offset" "unat offset + 4 \<le> length bs"
    and "p = Rex2 \<longrightarrow> bit (bs ! (unat offset - 3)) 6"
  shows "\<exists>bs'. x86_apply (TlsDescToLocalExec i) (bs, offset, addend) = Some (bs', offset, 0) \<and>
    immediate_insn p 0xc7 0 (reg_operand p (bs ! (unat offset - 3)) (bs ! (unat offset - 1))) (unat offset) bs' \<and>
    edits_within (unat offset - 3) (unat offset + 4) bs bs'"
proof -
  have "p = Rex \<or> p = Rex2" using assms(1) by (auto simp: prefix_of_def split: if_splits)
  with assms(2-4) show ?thesis
    unfolding tls_desc_local_exec_eq [OF assms(1-3)]
    by (auto simp: immediate_insn_def rm_register_def reg_operand_def edits_within_def
        reg_or_base or.commute [of "0xc0"] nth_append min_def)
qed

lemma absolute_edits:
  "edits_within (off - 3) (off + 4) bs (bs[off - 3 := a, off - 2 := b, off - 1 := c])"
  by (auto simp: edits_within_def nth_list_update)



text \<open>
  With REX.B already set in the prefix, the rewritten instruction names register 15 although the
  original one named register 7: the code merges the moved bit with OR.
\<close>

lemma x86_absolute_rex_b:
  "map_option (\<lambda>(bs', _, _). (rm_register Rex (bs' ! 0) (bs' ! 2), reg_operand Rex 0x49 0x3d))
     (x86_apply (RexMovIndirectToAbsolute 3) ([0x49, 0x8b, 0x3d, 0, 0, 0, 0], 3, - 4)) =
   Some (Some ((False, True), 7), ((False, False), 7))"
  by (simp add: x86_apply_def update_rex_def move_rex_r_def set_mod_rm_def get_back_def set_back_def
      get_at_def set_at_def rm_register_def reg_operand_def)

text \<open>The TLS form with REX2 turns register 7 into register 23: it never reads R4.\<close>

lemma x86_tls_desc_rex2:
  "map_option (\<lambda>(bs', _, _). (rm_register Rex2 (bs' ! 0) (bs' ! 2), reg_operand Rex2 0x08 0x3d))
     (x86_apply (TlsDescToLocalExec 4) ([0x08, 0x8d, 0x3d, 0, 0, 0, 0], 3, 0)) =
   Some (Some ((True, False), 7), ((False, False), 7))"
  by (simp add: x86_apply_def get_back_def get_at_def copy_back_def copy_from_slice_def rm_register_def
      reg_operand_def)

end
