(* ===== verification/Reloc_Write.thy ===== *)
theory Reloc_Write
  imports AArch64_Insn RiscV_Insn LoongArch64_Insn X86_64
begin

unbundle bit_operations_syntax

text \<open>
  \<^verbatim>\<open>linker-utils/src/elf.rs\<close>, \<^verbatim>\<open>impl RelocationInstruction\<close> and \<^verbatim>\<open>impl RelocationKindInfo\<close>:
  checking a relocation value and writing it to the output. The theorems join the relocation
  tables with the instruction encoders: what a value looks like in the output when the write
  succeeds, and which values are refused.

  The ULEB128 encoder is the crate \<^verbatim>\<open>leb128\<close> and is the parameter \<open>uleb\<close>. A panic is \<open>None\<close>, an
  error \<open>Some (Inl e)\<close>.
\<close>

datatype write_error = NotAligned | OutOfBounds | UlebDoesNotFit | OutsideSection

definition insn_write_to_value :: "relocation_instruction \<Rightarrow> u64 \<Rightarrow> bool \<Rightarrow> bytes \<Rightarrow> bytes option" where
  "insn_write_to_value insn extracted_value negative dest =
     (case insn of
        AArch64 i \<Rightarrow> aarch64_write_to_value i extracted_value negative dest
      | RiscV i \<Rightarrow> riscv_write_to_value i extracted_value negative dest
      | LoongArch64 i \<Rightarrow> loongarch64_write_to_value i extracted_value negative dest)"

definition insn_read_value :: "relocation_instruction \<Rightarrow> bytes \<Rightarrow> (u64 \<times> bool) option" where
  "insn_read_value insn bs =
     (case insn of
        AArch64 i \<Rightarrow> aarch64_read_value i bs
      | RiscV i \<Rightarrow> riscv_read_value i bs
      | LoongArch64 i \<Rightarrow> loongarch64_read_value i bs)"

definition insn_bit_mask :: "relocation_instruction \<Rightarrow> bit_range \<Rightarrow> bytes option" where
  "insn_bit_mask insn r =
     (if start r \<le> endp r then
        Option.bind (shl1 (endp r - start r)) (\<lambda>one.
          map_option (map NOT) (insn_write_to_value insn (one - 1) False [0, 0, 0, 0]))
      else None)"

definition verify :: "relocation_kind_info \<Rightarrow> i64 \<Rightarrow> write_error + unit" where
  "verify info value =
     (if unat value mod alignment info \<noteq> 0 then Inl NotAligned
      else if \<not> contains (allowed info) (sint value) then Inl OutOfBounds
      else Inr ())"

fun is_uleb :: "relocation_kind \<Rightarrow> bool" where
  "is_uleb (RK_PairSubtractionULEB128 _) = True"
| "is_uleb _ = False"

definition write_to_buffer ::
    "(u64 \<Rightarrow> bytes) \<Rightarrow> relocation_kind_info \<Rightarrow> u64 \<Rightarrow> bytes \<Rightarrow> (write_error + bytes) option" where
  "write_to_buffer uleb info value output =
     (case verify info value of
        Inl e \<Rightarrow> Some (Inl e)
      | Inr _ \<Rightarrow>
          if is_uleb (kind info) then
            (let enc = uleb value; n = length enc in
             if n \<le> length output then map_option Inr (copy_from_slice 0 n enc output)
             else Some (Inl UlebDoesNotFit))
          else
            (case size info of
               ByteSize byte_size \<Rightarrow>
                 if byte_size \<le> length output then
                   Option.bind (slice_range 0 byte_size (to_le_bytes 8 value)) (\<lambda>value_bytes.
                     map_option Inr (copy_from_slice 0 byte_size value_bytes output))
                 else Some (Inl OutsideSection)
             | BitMasking bm \<Rightarrow>
                 Option.bind (extract_bit_range value (start (range bm)) (endp (range bm))) (\<lambda>extracted_value.
                   map_option Inr
                     (insn_write_to_value (instruction bm) extracted_value (sint value < 0) output))))"

lemma verify_ok_iff:
  "verify info v = Inr u \<longleftrightarrow> alignment info dvd unat v \<and> contains (allowed info) (sint v)"
  by (auto simp: verify_def dvd_eq_mod_eq_0)

subsection \<open>Plain data\<close>

lemma write_byte_size:
  assumes "verify info v = Inr u" and "\<not> is_uleb (kind info)" and "size info = ByteSize n"
    and "n \<le> 8" and "n \<le> length out"
  shows "write_to_buffer uleb info v out = Some (Inr (to_le_bytes n v @ drop n out))"
  using assms
  by (simp add: write_to_buffer_def slice_range_def copy_from_slice_def take_to_le_bytes)

lemma from_le_bytes_prefix:
  assumes "8 * n \<le> 64"
  shows "from_le_bytes (to_le_bytes n (v :: u64)) = take_bit (8 * n) v"
  by (rule bit_word_eqI)
     (use assms in \<open>auto simp: bit_from_le_bytes bit_to_le_bytes bit_take_bit_iff less_mult_imp_div_less\<close>)

lemma unsigned_range_fits:
  fixes v :: u64
  assumes "0 \<le> sint v" and "sint v < 2 ^ n"
  shows "take_bit n v = v"
proof -
  have "take_bit 64 (sint v) = sint v"
    using assms(1) sint_lt [of v] by (simp add: take_bit_int_eq_self)
  then have "uint v = sint v" using uint_sint [of v] by simp
  then have "unat v < 2 ^ n"
    using assms by (simp add: unat_eq_nat_uint nat_less_iff)
  then show ?thesis by (simp add: take_bit_word_eq_self_iff)
qed

lemma const_bit_size_Unsigned_fits:
  fixes v :: u64
  assumes "0 < n" and "n < 63" and "contains (const_bit_size n Unsigned) (sint v)"
  shows "take_bit n v = v"
  using assms
  by (intro unsigned_range_fits)
     (auto simp: const_bit_size_def from_bit_size_def contains_def AllowedRange_new_def)

lemma const_byte_size_exact:
  fixes v :: u64
  assumes "0 < n" and "n \<le> 8"
  shows "contains (const_byte_size n Unsigned) (sint v) \<Longrightarrow> take_bit (8 * n) v = v"
    and "contains (const_byte_size n Signed) (sint v) \<Longrightarrow> signed_take_bit (8 * n - 1) (take_bit (8 * n) v) = v"
proof -
  have "min 63 i = i" if "i < 64" for i :: nat using that by (simp add: min_def)
  then have full: "take_bit 64 v = v" "signed_take_bit 63 v = v"
    using take_bit_length_eq [of v] by (simp, intro bit_word_eqI) (simp add: bit_signed_take_bit_iff)
  have conv: "const_byte_size n s = const_bit_size (8 * n) s" for s
    by (simp add: const_byte_size_def const_bit_size_def from_byte_size_def)
  {
    assume "contains (const_byte_size n Unsigned) (sint v)"
    then show "take_bit (8 * n) v = v"
      using assms full const_bit_size_Unsigned_fits [of "8 * n" v] by (cases "n = 8") (auto simp: conv)
  }
  {
    assume "contains (const_byte_size n Signed) (sint v)"
    then have "signed_take_bit (8 * n - 1) v = v"
      using assms full const_bit_size_Signed_iff [of "8 * n" v] by (cases "n = 8") (auto simp: conv)
    then show "signed_take_bit (8 * n - 1) (take_bit (8 * n) v) = v"
      using assms by (simp add: signed_take_bit_take_bit) linarith
  }
qed

text \<open>
  C8. A relocation that \<^verbatim>\<open>x86_64\<close> accepts is never truncated: when the write of a value succeeds,
  the bytes of the field, zero extended (or sign extended, as the table says for the relocation
  type), are the value, and the bytes after the field are unchanged.
\<close>

theorem x86_64_write_exact:
  assumes "x86_64_relocation_from_raw elf r = Some info"
    and "write_to_buffer uleb info v out = Some (Inr out')"
  shows "\<exists>n. size info = ByteSize n \<and> n \<le> 8 \<and> drop n out' = drop n out \<and>
    (0 < n \<longrightarrow>
      (allowed info = const_byte_size n Unsigned \<and> from_le_bytes (take n out') = v) \<or>
      (allowed info = const_byte_size n Signed \<and>
        signed_take_bit (8 * n - 1) (from_le_bytes (take n out')) = v))"
proof -
  obtain ns k sz rng where arm: "(ns, Some (k, sz, rng)) \<in> set x86_64_arms"
    and info: "info = \<lparr>kind = k, size = sz, page_mask = None, allowed = rng, alignment = 1, bias = 0,
                        thunkable = False\<rparr>"
    using assms(1) by (auto simp: x86_64_relocation_from_raw_def dest!: match_const_SomeD)
  obtain n where sz: "sz = ByteSize n" and u: "\<not> is_uleb k" and n: "n \<le> 8"
    and rng: "0 < n \<longrightarrow> rng \<in> {const_byte_size n Unsigned, const_byte_size n Signed}"
    using arm unfolding x86_64_arms_defs by auto
  have ver: "verify info v = Inr ()" and len: "n \<le> length out"
    using assms(2) sz u info
    by (auto simp: write_to_buffer_def split: sum.splits if_splits)
  then have out: "out' = to_le_bytes n v @ drop n out"
    using write_byte_size [OF ver, where n = n] sz u info n assms(2) by simp
  have "contains rng (sint v)" using ver info by (simp add: verify_ok_iff)
  then show ?thesis
    using rng n sz info out const_byte_size_exact [of n v] by (auto simp: from_le_bytes_prefix)
qed

theorem x86_64_write_exact_witness:
  "\<exists>n. relocation_kind_info.size \<lparr>kind = RK_Relative, size = ByteSize 4, page_mask = None,
       allowed = const_byte_size 4 Signed, alignment = 1, bias = 0, thunkable = False\<rparr> = ByteSize n \<and> n \<le> 8 \<and>
    drop n (to_le_bytes 4 (- 4 :: u64) @ [0x90]) = drop n [0, 0, 0, 0, 0x90] \<and>
    (0 < n \<longrightarrow>
      (const_byte_size 4 Signed = const_byte_size n Unsigned \<and>
        from_le_bytes (take n (to_le_bytes 4 (- 4 :: u64) @ [0x90])) = (- 4 :: u64)) \<or>
      (const_byte_size 4 Signed = const_byte_size n Signed \<and>
        signed_take_bit (8 * n - 1) (from_le_bytes (take n (to_le_bytes 4 (- 4 :: u64) @ [0x90]))) = (- 4 :: u64)))"
proof -
  let ?info = "\<lparr>kind = RK_Relative, size = ByteSize 4, page_mask = None,
       allowed = const_byte_size 4 Signed, alignment = 1, bias = 0, thunkable = False\<rparr>"
  have "match_const (numbering (arm_names x86_64_arms)) x86_64_arms (numbering (arm_names x86_64_arms) ''R_X86_64_PC32'') = Some (RK_Relative, RELOC_4_BYTE_SIGNED)"
    by (rule x86_64_table.match_const_arm [of _ "[''R_X86_64_PC32'']"])
       (rule inj_on_numbering, simp_all add: x86_64_arms_def arm_names_def)
  then have 1: "x86_64_relocation_from_raw (numbering (arm_names x86_64_arms))
      (numbering (arm_names x86_64_arms) ''R_X86_64_PC32'') = Some ?info"
    by (simp add: x86_64_relocation_from_raw_def RELOC_4_BYTE_SIGNED_def)
  have 2: "write_to_buffer (\<lambda>_. []) ?info (- 4) [0, 0, 0, 0, 0x90] = Some (Inr (to_le_bytes 4 (- 4 :: u64) @ [0x90]))"
    by (subst write_byte_size [where n = 4])
       (simp_all add: verify_def const_byte_size_def from_byte_size_def from_bit_size_def
          contains_def AllowedRange_new_def)
  show ?thesis using x86_64_write_exact [OF 1 2] by simp
qed

subsection \<open>Instruction fields\<close>

lemma write_bit_masking:
  assumes "verify info v = Inr u" and "\<not> is_uleb (kind info)" and "size info = BitMasking bm"
    and "start (range bm) < endp (range bm)" and "endp (range bm) \<le> 64"
  shows "write_to_buffer uleb info v out =
    map_option Inr (insn_write_to_value (instruction bm) (xbits v (start (range bm)) (endp (range bm)))
                      (sint v < 0) out)"
  using assms by (simp add: write_to_buffer_def extract_bit_range_eq xbits_eq)

lemma shifted_signed_field:
  fixes v :: u64
  assumes "signed_take_bit (e - 1) v = v" and "take_bit s v = 0" and "s < e" and "e \<le> 64"
  shows "push_bit s (signed_take_bit (e - s - 1) (xbits v s e)) = v"
proof (rule bit_word_eqI)
  fix i
  assume i: "i < LENGTH(64)"
  have hi: "bit v i \<longleftrightarrow> bit v (min (e - 1) i)"
    using assms(1) i by (metis bit_signed_take_bit_iff possible_bit_word)
  have lo: "\<not> bit v i" if "i < s"
    using assms(2) that by (metis bit_0_eq bit_take_bit_iff bot_apply bot_bool_def)
  show "bit (push_bit s (signed_take_bit (e - s - 1) (xbits v s e))) i = bit v i"
  proof (cases "i < s")
    case True
    with lo show ?thesis by (simp add: bit_push_bit_iff)
  next
    case False
    then have "s + min (e - s - 1) (i - s) = min (e - 1) i" using assms(3) by (simp add: min_def) linarith
    moreover have "min (e - s - 1) (i - s) < e - s" using assms(3) by (simp add: min_def) linarith
    moreover have "i - s < 64" using i by simp
    ultimately show ?thesis
      using False i hi assms(3,4)
      by (simp add: bit_push_bit_iff bit_signed_take_bit_iff xbits_eq bit_take_bit_iff bit_drop_bit_eq)
  qed
qed

end
