(* ===== verification/AArch64_Relocs.thy ===== *)
theory AArch64_Relocs
  imports Reloc_Table
begin

text \<open>
  \<^verbatim>\<open>relocation_type_from_raw\<close> of \<^verbatim>\<open>linker-utils/src/aarch64.rs\<close>: the AArch64 relocation table, in the
  groups and the order of the source, which follow the sections of the AArch64 ELF ABI.
\<close>

definition a64_data_relocs :: "reloc_row match_arms" where
  "a64_data_relocs =
    [([''R_AARCH64_NONE''],
      Some (RK_None, ByteSize 0, None, no_check, 1, 0)),
     ([''R_AARCH64_ABS64''],
      Some (RK_Absolute, ByteSize 8, None, no_check, 1, 0)),
     ([''R_AARCH64_ABS32''],
      Some (RK_Absolute, ByteSize 4, None, AllowedRange_new (- (2 ^ 31)) (2 ^ 32), 1, 0)),
     ([''R_AARCH64_ABS16''],
      Some (RK_Absolute, ByteSize 2, None, AllowedRange_new (- (2 ^ 15)) (2 ^ 16), 1, 0)),
     ([''R_AARCH64_PREL64''],
      Some (RK_Relative, ByteSize 8, None, no_check, 1, 0)),
     ([''R_AARCH64_PREL32''],
      Some (RK_Relative, ByteSize 4, None, AllowedRange_new (- (2 ^ 31)) (2 ^ 32), 1, 0)),
     ([''R_AARCH64_PREL16''],
      Some (RK_Relative, ByteSize 2, None, AllowedRange_new (- (2 ^ 15)) (2 ^ 16), 1, 0)),
     ([''R_AARCH64_PLT32''],
      Some (RK_PltRelative, ByteSize 4, None, const_bit_size 32 Signed, 1, 0))]"

definition a64_movw_abs_relocs :: "reloc_row match_arms" where
  "a64_movw_abs_relocs =
    [([''R_AARCH64_MOVW_UABS_G0''],
      Some (RK_Absolute, bit_mask_aarch64 0 16 A64_Movkz, None, const_bit_size 16 Unsigned, 1, 0)),
     ([''R_AARCH64_MOVW_UABS_G0_NC''],
      Some (RK_Absolute, bit_mask_aarch64 0 16 A64_Movkz, None, no_check, 1, 0)),
     ([''R_AARCH64_MOVW_UABS_G1''],
      Some (RK_Absolute, bit_mask_aarch64 16 32 A64_Movkz, None, const_bit_size 32 Unsigned, 1, 0)),
     ([''R_AARCH64_MOVW_UABS_G1_NC''],
      Some (RK_Absolute, bit_mask_aarch64 16 32 A64_Movkz, None, no_check, 1, 0)),
     ([''R_AARCH64_MOVW_UABS_G2''],
      Some (RK_Absolute, bit_mask_aarch64 32 48 A64_Movkz, None, const_bit_size 48 Unsigned, 1, 0)),
     ([''R_AARCH64_MOVW_UABS_G2_NC''],
      Some (RK_Absolute, bit_mask_aarch64 32 48 A64_Movkz, None, no_check, 1, 0)),
     ([''R_AARCH64_MOVW_UABS_G3''],
      Some (RK_Absolute, bit_mask_aarch64 48 64 A64_Movkz, None, no_check, 1, 0)),
     ([''R_AARCH64_MOVW_SABS_G0''],
      Some (RK_Absolute, bit_mask_aarch64 0 16 A64_Movnz, None, const_bit_size 17 Signed, 1, 0)),
     ([''R_AARCH64_MOVW_SABS_G1''],
      Some (RK_Absolute, bit_mask_aarch64 16 32 A64_Movnz, None, const_bit_size 33 Signed, 1, 0)),
     ([''R_AARCH64_MOVW_SABS_G2''],
      Some (RK_Absolute, bit_mask_aarch64 32 48 A64_Movnz, None, const_bit_size 49 Signed, 1, 0))]"

definition a64_pcrel_relocs :: "reloc_row match_arms" where
  "a64_pcrel_relocs =
    [([''R_AARCH64_LD_PREL_LO19''],
      Some (RK_Relative, bit_mask_aarch64 2 21 A64_Ldr, None, const_bit_size 21 Signed, 4, 0)),
     ([''R_AARCH64_ADR_PREL_LO21''],
      Some (RK_Relative, bit_mask_aarch64 0 21 A64_Adr, None, const_bit_size 21 Signed, 1, 0)),
     ([''R_AARCH64_ADR_PREL_PG_HI21''],
      Some (RK_Relative, bit_mask_aarch64 12 33 A64_Adr, Some (SymbolPlusAddendAndPosition PAGE_MASK_4KB), const_bit_size 33 Signed, 1, 0)),
     ([''R_AARCH64_ADR_PREL_PG_HI21_NC''],
      Some (RK_Relative, bit_mask_aarch64 12 33 A64_Adr, Some (SymbolPlusAddendAndPosition PAGE_MASK_4KB), no_check, 1, 0)),
     ([''R_AARCH64_ADD_ABS_LO12_NC''],
      Some (RK_AbsoluteLowPart, bit_mask_aarch64 0 12 A64_Add, None, no_check, 1, 0)),
     ([''R_AARCH64_LDST8_ABS_LO12_NC''],
      Some (RK_AbsoluteLowPart, bit_mask_aarch64 0 12 A64_LdSt, None, no_check, 1, 0)),
     ([''R_AARCH64_LDST16_ABS_LO12_NC''],
      Some (RK_AbsoluteLowPart, bit_mask_aarch64 1 12 A64_LdSt, None, no_check, 2, 0)),
     ([''R_AARCH64_LDST32_ABS_LO12_NC''],
      Some (RK_AbsoluteLowPart, bit_mask_aarch64 2 12 A64_LdSt, None, no_check, 4, 0)),
     ([''R_AARCH64_LDST64_ABS_LO12_NC''],
      Some (RK_AbsoluteLowPart, bit_mask_aarch64 3 12 A64_LdSt, None, no_check, 8, 0)),
     ([''R_AARCH64_LDST128_ABS_LO12_NC''],
      Some (RK_AbsoluteLowPart, bit_mask_aarch64 4 12 A64_LdSt, None, no_check, 16, 0))]"

definition a64_control_flow_relocs :: "reloc_row match_arms" where
  "a64_control_flow_relocs =
    [([''R_AARCH64_TSTBR14''],
      Some (RK_Relative, bit_mask_aarch64 2 16 A64_TstBr, None, const_bit_size 16 Signed, 4, 0)),
     ([''R_AARCH64_CONDBR19''],
      Some (RK_Relative, bit_mask_aarch64 2 21 A64_Bcond, None, const_bit_size 21 Signed, 4, 0)),
     ([''R_AARCH64_JUMP26''],
      Some (RK_PltRelative, bit_mask_aarch64 2 28 A64_JumpCall, None, const_bit_size 28 Signed, 4, 0)),
     ([''R_AARCH64_CALL26''],
      Some (RK_PltRelative, bit_mask_aarch64 2 28 A64_JumpCall, None, const_bit_size 28 Signed, 4, 0))]"

definition a64_movw_prel_relocs :: "reloc_row match_arms" where
  "a64_movw_prel_relocs =
    [([''R_AARCH64_MOVW_PREL_G0''],
      Some (RK_Relative, bit_mask_aarch64 0 16 A64_Movnz, None, no_check, 1, 0)),
     ([''R_AARCH64_MOVW_PREL_G0_NC''],
      Some (RK_Relative, bit_mask_aarch64 0 16 A64_Movkz, None, no_check, 1, 0)),
     ([''R_AARCH64_MOVW_PREL_G1''],
      Some (RK_Relative, bit_mask_aarch64 16 32 A64_Movnz, None, no_check, 1, 0)),
     ([''R_AARCH64_MOVW_PREL_G1_NC''],
      Some (RK_Relative, bit_mask_aarch64 16 32 A64_Movkz, None, no_check, 1, 0)),
     ([''R_AARCH64_MOVW_PREL_G2''],
      Some (RK_Relative, bit_mask_aarch64 32 48 A64_Movnz, None, no_check, 1, 0)),
     ([''R_AARCH64_MOVW_PREL_G2_NC''],
      Some (RK_Relative, bit_mask_aarch64 32 48 A64_Movkz, None, no_check, 1, 0)),
     ([''R_AARCH64_MOVW_PREL_G3''],
      Some (RK_Relative, bit_mask_aarch64 48 64 A64_Movnz, None, no_check, 1, 0))]"

definition a64_got_relocs :: "reloc_row match_arms" where
  "a64_got_relocs =
    [([''R_AARCH64_MOVW_GOTOFF_G0''],
      Some (RK_GotRelGotBase, bit_mask_aarch64 0 16 A64_Movnz, None, no_check, 1, 0)),
     ([''R_AARCH64_MOVW_GOTOFF_G0_NC''],
      Some (RK_GotRelGotBase, bit_mask_aarch64 0 16 A64_Movkz, None, no_check, 1, 0)),
     ([''R_AARCH64_MOVW_GOTOFF_G1''],
      Some (RK_GotRelGotBase, bit_mask_aarch64 16 32 A64_Movnz, None, no_check, 1, 0)),
     ([''R_AARCH64_MOVW_GOTOFF_G1_NC''],
      Some (RK_GotRelGotBase, bit_mask_aarch64 16 32 A64_Movkz, None, no_check, 1, 0)),
     ([''R_AARCH64_MOVW_GOTOFF_G2''],
      Some (RK_GotRelGotBase, bit_mask_aarch64 32 48 A64_Movnz, None, no_check, 1, 0)),
     ([''R_AARCH64_MOVW_GOTOFF_G2_NC''],
      Some (RK_GotRelGotBase, bit_mask_aarch64 32 48 A64_Movkz, None, no_check, 1, 0)),
     ([''R_AARCH64_MOVW_GOTOFF_G3''],
      Some (RK_GotRelGotBase, bit_mask_aarch64 48 64 A64_Movnz, None, no_check, 1, 0)),
     ([''R_AARCH64_GOTREL64''],
      Some (RK_SymRelGotBase, ByteSize 4, None, no_check, 1, 0)),
     ([''R_AARCH64_GOTREL32''],
      Some (RK_SymRelGotBase, ByteSize 8, None, const_bit_size 32 Signed, 1, 0)),
     ([''R_AARCH64_GOTPCREL32''],
      Some (RK_GotRelative, ByteSize 4, None, const_bit_size 32 Signed, 1, 0)),
     ([''R_AARCH64_GOT_LD_PREL19''],
      Some (RK_GotRelative, bit_mask_aarch64 2 21 A64_LdSt, None, const_bit_size 21 Signed, 4, 0)),
     ([''R_AARCH64_LD64_GOTOFF_LO15''],
      Some (RK_GotRelGotBase, bit_mask_aarch64 3 15 A64_LdSt, None, const_bit_size 15 Unsigned, 8, 0)),
     ([''R_AARCH64_ADR_GOT_PAGE''],
      Some (RK_GotRelative, bit_mask_aarch64 12 33 A64_Adr, Some (GotEntryAndPosition PAGE_MASK_4KB), const_bit_size 33 Signed, 1, 0)),
     ([''R_AARCH64_LD64_GOT_LO12_NC''],
      Some (RK_Got, bit_mask_aarch64 3 12 A64_LdSt, None, no_check, 8, 0)),
     ([''R_AARCH64_LD64_GOTPAGE_LO15''],
      Some (RK_GotRelGotBase, bit_mask_aarch64 3 15 A64_LdSt, Some (GotBase PAGE_MASK_4KB), const_bit_size 15 Unsigned, 8, 0))]"

definition a64_tls_gd_relocs :: "reloc_row match_arms" where
  "a64_tls_gd_relocs =
    [([''R_AARCH64_TLSGD_ADR_PREL21''],
      Some (RK_TlsGd, bit_mask_aarch64 0 21 A64_Adr, None, const_bit_size 21 Signed, 1, 0)),
     ([''R_AARCH64_TLSGD_ADR_PAGE21''],
      Some (RK_TlsGd, bit_mask_aarch64 12 33 A64_Adr, Some (GotEntryAndPosition PAGE_MASK_4KB), const_bit_size 33 Signed, 1, 0)),
     ([''R_AARCH64_TLSGD_ADD_LO12_NC''],
      Some (RK_TlsGdGot, bit_mask_aarch64 0 12 A64_Add, None, no_check, 1, 0)),
     ([''R_AARCH64_TLSGD_MOVW_G1''],
      Some (RK_TlsGdGotBase, bit_mask_aarch64 16 33 A64_Movnz, None, no_check, 1, 0)),
     ([''R_AARCH64_TLSGD_MOVW_G0_NC''],
      Some (RK_TlsGdGotBase, bit_mask_aarch64 0 16 A64_Movkz, None, no_check, 1, 0))]"

definition a64_tls_ld_relocs :: "reloc_row match_arms" where
  "a64_tls_ld_relocs =
    [([''R_AARCH64_TLSLD_ADR_PREL21''],
      Some (RK_TlsLd, bit_mask_aarch64 0 21 A64_Adr, None, const_bit_size 21 Signed, 1, 0)),
     ([''R_AARCH64_TLSLD_ADR_PAGE21''],
      Some (RK_TlsLd, bit_mask_aarch64 12 33 A64_Adr, Some (GotEntryAndPosition PAGE_MASK_4KB), const_bit_size 33 Signed, 1, 0)),
     ([''R_AARCH64_TLSLD_ADD_LO12_NC''],
      Some (RK_TlsLdGot, bit_mask_aarch64 0 12 A64_Add, None, no_check, 1, 0)),
     ([''R_AARCH64_TLSLD_MOVW_G1''],
      Some (RK_TlsLdGotBase, bit_mask_aarch64 16 32 A64_Movnz, None, no_check, 1, 0)),
     ([''R_AARCH64_TLSLD_MOVW_G0_NC''],
      Some (RK_TlsLdGotBase, bit_mask_aarch64 0 16 A64_Movkz, None, no_check, 1, 0)),
     ([''R_AARCH64_TLSLD_LD_PREL19''],
      Some (RK_TlsLd, bit_mask_aarch64 0 21 A64_Ldr, None, const_bit_size 21 Signed, 1, 0)),
     ([''R_AARCH64_TLSLD_MOVW_DTPREL_G2''],
      Some (RK_DtpOff, bit_mask_aarch64 32 48 A64_Movnz, None, no_check, 1, 0)),
     ([''R_AARCH64_TLSLD_MOVW_DTPREL_G1''],
      Some (RK_DtpOff, bit_mask_aarch64 16 32 A64_Movnz, None, no_check, 1, 0)),
     ([''R_AARCH64_TLSLD_MOVW_DTPREL_G1_NC''],
      Some (RK_DtpOff, bit_mask_aarch64 16 32 A64_Movkz, None, no_check, 1, 0)),
     ([''R_AARCH64_TLSLD_MOVW_DTPREL_G0''],
      Some (RK_DtpOff, bit_mask_aarch64 0 16 A64_Movnz, None, no_check, 1, 0)),
     ([''R_AARCH64_TLSLD_MOVW_DTPREL_G0_NC''],
      Some (RK_DtpOff, bit_mask_aarch64 0 16 A64_Movkz, None, no_check, 1, 0)),
     ([''R_AARCH64_TLSLD_ADD_DTPREL_HI12''],
      Some (RK_DtpOff, bit_mask_aarch64 12 24 A64_Add, None, const_bit_size 24 Unsigned, 1, 0))]"

definition a64_tls_ld_ldst_relocs :: "reloc_row match_arms" where
  "a64_tls_ld_ldst_relocs =
    [([''R_AARCH64_TLSLD_ADD_DTPREL_LO12''],
      Some (RK_DtpOff, bit_mask_aarch64 0 12 A64_Add, None, const_bit_size 12 Unsigned, 1, 0)),
     ([''R_AARCH64_TLSLD_ADD_DTPREL_LO12_NC''],
      Some (RK_DtpOff, bit_mask_aarch64 0 12 A64_Add, None, no_check, 1, 0)),
     ([''R_AARCH64_TLSLD_LDST8_DTPREL_LO12''],
      Some (RK_DtpOff, bit_mask_aarch64 0 12 A64_LdSt, None, const_bit_size 12 Unsigned, 1, 0)),
     ([''R_AARCH64_TLSLD_LDST8_DTPREL_LO12_NC''],
      Some (RK_DtpOff, bit_mask_aarch64 0 12 A64_LdSt, None, no_check, 1, 0)),
     ([''R_AARCH64_TLSLD_LDST16_DTPREL_LO12''],
      Some (RK_DtpOff, bit_mask_aarch64 1 12 A64_LdSt, None, const_bit_size 12 Unsigned, 2, 0)),
     ([''R_AARCH64_TLSLD_LDST16_DTPREL_LO12_NC''],
      Some (RK_DtpOff, bit_mask_aarch64 1 12 A64_LdSt, None, no_check, 2, 0)),
     ([''R_AARCH64_TLSLD_LDST32_DTPREL_LO12''],
      Some (RK_DtpOff, bit_mask_aarch64 2 12 A64_LdSt, None, const_bit_size 12 Unsigned, 4, 0)),
     ([''R_AARCH64_TLSLD_LDST32_DTPREL_LO12_NC''],
      Some (RK_DtpOff, bit_mask_aarch64 2 12 A64_LdSt, None, no_check, 4, 0)),
     ([''R_AARCH64_TLSLD_LDST64_DTPREL_LO12''],
      Some (RK_DtpOff, bit_mask_aarch64 3 12 A64_LdSt, None, const_bit_size 12 Unsigned, 8, 0)),
     ([''R_AARCH64_TLSLD_LDST64_DTPREL_LO12_NC''],
      Some (RK_DtpOff, bit_mask_aarch64 3 12 A64_LdSt, None, no_check, 8, 0)),
     ([''R_AARCH64_TLSLD_LDST128_DTPREL_LO12''],
      Some (RK_DtpOff, bit_mask_aarch64 4 12 A64_LdSt, None, const_bit_size 12 Unsigned, 16, 0)),
     ([''R_AARCH64_TLSLD_LDST128_DTPREL_LO12_NC''],
      Some (RK_DtpOff, bit_mask_aarch64 4 12 A64_LdSt, None, no_check, 16, 0))]"

definition a64_tls_ie_relocs :: "reloc_row match_arms" where
  "a64_tls_ie_relocs =
    [([''R_AARCH64_TLSIE_MOVW_GOTTPREL_G1''],
      Some (RK_GotTpOffGotBase, bit_mask_aarch64 16 32 A64_Movnz, None, no_check, 1, 0)),
     ([''R_AARCH64_TLSIE_MOVW_GOTTPREL_G0_NC''],
      Some (RK_GotTpOffGotBase, bit_mask_aarch64 0 16 A64_Movkz, None, no_check, 1, 0)),
     ([''R_AARCH64_TLSIE_ADR_GOTTPREL_PAGE21''],
      Some (RK_GotTpOff, bit_mask_aarch64 12 33 A64_Adr, Some (GotEntryAndPosition PAGE_MASK_4KB), const_bit_size 33 Signed, 1, 0)),
     ([''R_AARCH64_TLSIE_LD64_GOTTPREL_LO12_NC''],
      Some (RK_GotTpOffGot, bit_mask_aarch64 3 12 A64_LdrRegister, None, no_check, 8, 0)),
     ([''R_AARCH64_TLSIE_LD_GOTTPREL_PREL19''],
      Some (RK_GotTpOff, bit_mask_aarch64 2 21 A64_Ldr, None, const_bit_size 21 Signed, 4, 0))]"

definition a64_tls_le_relocs :: "reloc_row match_arms" where
  "a64_tls_le_relocs =
    [([''R_AARCH64_TLSLE_MOVW_TPREL_G2''],
      Some (RK_TpOff, bit_mask_aarch64 32 48 A64_Movnz, None, no_check, 1, 0)),
     ([''R_AARCH64_TLSLE_MOVW_TPREL_G1''],
      Some (RK_TpOff, bit_mask_aarch64 16 32 A64_Movnz, None, no_check, 1, 0)),
     ([''R_AARCH64_TLSLE_MOVW_TPREL_G1_NC''],
      Some (RK_TpOff, bit_mask_aarch64 16 32 A64_Movkz, None, no_check, 1, 0)),
     ([''R_AARCH64_TLSLE_MOVW_TPREL_G0''],
      Some (RK_TpOff, bit_mask_aarch64 0 16 A64_Movnz, None, no_check, 1, 0)),
     ([''R_AARCH64_TLSLE_MOVW_TPREL_G0_NC''],
      Some (RK_TpOff, bit_mask_aarch64 0 16 A64_Movkz, None, no_check, 1, 0)),
     ([''R_AARCH64_TLSLE_ADD_TPREL_HI12''],
      Some (RK_TpOff, bit_mask_aarch64 12 24 A64_Add, None, const_bit_size 24 Unsigned, 1, 0)),
     ([''R_AARCH64_TLSLE_ADD_TPREL_LO12''],
      Some (RK_TpOff, bit_mask_aarch64 0 12 A64_Add, None, const_bit_size 12 Unsigned, 1, 0)),
     ([''R_AARCH64_TLSLE_ADD_TPREL_LO12_NC''],
      Some (RK_TpOff, bit_mask_aarch64 0 12 A64_Add, None, no_check, 1, 0)),
     ([''R_AARCH64_TLSLE_LDST8_TPREL_LO12''],
      Some (RK_TpOff, bit_mask_aarch64 0 12 A64_LdSt, None, const_bit_size 12 Unsigned, 1, 0)),
     ([''R_AARCH64_TLSLE_LDST8_TPREL_LO12_NC''],
      Some (RK_TpOff, bit_mask_aarch64 0 12 A64_LdSt, None, no_check, 1, 0)),
     ([''R_AARCH64_TLSLE_LDST16_TPREL_LO12''],
      Some (RK_TpOff, bit_mask_aarch64 1 12 A64_LdSt, None, const_bit_size 12 Unsigned, 2, 0)),
     ([''R_AARCH64_TLSLE_LDST16_TPREL_LO12_NC''],
      Some (RK_TpOff, bit_mask_aarch64 1 12 A64_LdSt, None, no_check, 2, 0)),
     ([''R_AARCH64_TLSLE_LDST32_TPREL_LO12''],
      Some (RK_TpOff, bit_mask_aarch64 2 12 A64_LdSt, None, const_bit_size 12 Unsigned, 4, 0)),
     ([''R_AARCH64_TLSLE_LDST32_TPREL_LO12_NC''],
      Some (RK_TpOff, bit_mask_aarch64 2 12 A64_LdSt, None, no_check, 4, 0)),
     ([''R_AARCH64_TLSLE_LDST64_TPREL_LO12''],
      Some (RK_TpOff, bit_mask_aarch64 3 12 A64_LdSt, None, const_bit_size 12 Unsigned, 8, 0)),
     ([''R_AARCH64_TLSLE_LDST64_TPREL_LO12_NC''],
      Some (RK_TpOff, bit_mask_aarch64 3 12 A64_LdSt, None, no_check, 8, 0)),
     ([''R_AARCH64_TLSLE_LDST128_TPREL_LO12''],
      Some (RK_TpOff, bit_mask_aarch64 4 12 A64_LdSt, None, const_bit_size 12 Unsigned, 16, 0)),
     ([''R_AARCH64_TLSLE_LDST128_TPREL_LO12_NC''],
      Some (RK_TpOff, bit_mask_aarch64 4 12 A64_LdSt, None, no_check, 16, 0))]"

definition a64_tls_desc_relocs :: "reloc_row match_arms" where
  "a64_tls_desc_relocs =
    [([''R_AARCH64_TLSDESC_LD_PREL19''],
      Some (RK_TlsDesc, bit_mask_aarch64 2 21 A64_Ldr, None, const_bit_size 21 Signed, 4, 0)),
     ([''R_AARCH64_TLSDESC_ADR_PREL21''],
      Some (RK_TlsDesc, bit_mask_aarch64 0 21 A64_Adr, None, const_bit_size 21 Signed, 1, 0)),
     ([''R_AARCH64_TLSDESC_ADR_PAGE21''],
      Some (RK_TlsDesc, bit_mask_aarch64 12 33 A64_Adr, Some (GotEntryAndPosition PAGE_MASK_4KB), const_bit_size 33 Signed, 1, 0)),
     ([''R_AARCH64_TLSDESC_LD64_LO12''],
      Some (RK_TlsDescGot, bit_mask_aarch64 3 12 A64_LdrRegister, None, no_check, 8, 0)),
     ([''R_AARCH64_TLSDESC_ADD_LO12''],
      Some (RK_TlsDescGot, bit_mask_aarch64 0 12 A64_Add, None, no_check, 1, 0)),
     ([''R_AARCH64_TLSDESC_OFF_G1''],
      Some (RK_TlsDescGotBase, bit_mask_aarch64 16 32 A64_Movnz, None, const_bit_size 33 Signed, 1, 0)),
     ([''R_AARCH64_TLSDESC_OFF_G0_NC''],
      Some (RK_TlsDescGotBase, bit_mask_aarch64 0 16 A64_Movkz, None, no_check, 1, 0))]"

definition a64_misc_relocs :: "reloc_row match_arms" where
  "a64_misc_relocs =
    [([''R_AARCH64_TLSDESC_CALL''],
      Some (RK_TlsDescCall, ByteSize 0, None, no_check, 1, 0))]"

definition aarch64_arms :: "reloc_row match_arms" where
  "aarch64_arms =
     a64_data_relocs
     @ a64_movw_abs_relocs
     @ a64_pcrel_relocs
     @ a64_control_flow_relocs
     @ a64_movw_prel_relocs
     @ a64_got_relocs
     @ a64_tls_gd_relocs
     @ a64_tls_ld_relocs
     @ a64_tls_ld_ldst_relocs
     @ a64_tls_ie_relocs
     @ a64_tls_le_relocs
     @ a64_tls_desc_relocs
     @ a64_misc_relocs"

lemmas aarch64_arms_defs [reloc_defs] =
  aarch64_arms_def
  a64_data_relocs_def
  a64_movw_abs_relocs_def
  a64_pcrel_relocs_def
  a64_control_flow_relocs_def
  a64_movw_prel_relocs_def
  a64_got_relocs_def
  a64_tls_gd_relocs_def
  a64_tls_ld_relocs_def
  a64_tls_ld_ldst_relocs_def
  a64_tls_ie_relocs_def
  a64_tls_le_relocs_def
  a64_tls_desc_relocs_def
  a64_misc_relocs_def

definition aarch64_relocation_type_from_raw :: "elf_consts \<Rightarrow> u32 \<Rightarrow> relocation_kind_info option" where
  "aarch64_relocation_type_from_raw elf r_type =
     map_option
       (row_info (r_type = elf ''R_AARCH64_CALL26'' \<or> r_type = elf ''R_AARCH64_JUMP26''))
       (match_const elf aarch64_arms r_type)"

interpretation aarch64_table: match_table "aarch64_arms"
  by unfold_locales (rule distinct_of_map [of "drop 10"], simp add: arm_names_def aarch64_arms_defs)

end
