(* ===== verification/AArch64_Write.thy ===== *)
theory AArch64_Write
  imports Reloc_Write AArch64_Relocs
begin

unbundle bit_operations_syntax

text \<open>
  The AArch64 relocation table and encoders together: what \<^verbatim>\<open>write_to_buffer\<close> does for the
  relocations of \<^verbatim>\<open>linker-utils/src/aarch64.rs\<close>.
\<close>

text \<open>An arm whose bit range is at most as wide as the immediate of its instruction.\<close>

fun a64_arm_fits :: "string list \<times> reloc_row option \<Rightarrow> bool" where
  "a64_arm_fits (ns, Some (k, BitMasking bm, pm, rng, al, bi)) \<longleftrightarrow>
     (case instruction bm of
        AArch64 i \<Rightarrow> start (range bm) < endp (range bm) \<and> endp (range bm) \<le> 64 \<and>
                     endp (range bm) - start (range bm) \<le> a64_width i \<and> \<not> is_uleb k
      | _ \<Rightarrow> False)"
| "a64_arm_fits _ \<longleftrightarrow> True"

text \<open>
  Exactly three arms of the AArch64 table name a bit range wider than the immediate of the
  instruction format they use.
\<close>

definition a64_misfits :: "string list" where
  "a64_misfits = [''R_AARCH64_GOT_LD_PREL19'', ''R_AARCH64_TLSGD_MOVW_G1'', ''R_AARCH64_TLSLD_LD_PREL19'']"

lemma aarch64_misfit_arms:
  "map fst (filter (\<lambda>arm. \<not> a64_arm_fits arm) aarch64_arms) = map (\<lambda>n. [n]) a64_misfits"
  by (simp add: aarch64_arms_defs bit_mask_defs a64_misfits_def)

lemma aarch64_arm_fits:
  assumes "(ns, row) \<in> set aarch64_arms" and "n \<in> set ns" and "n \<notin> set a64_misfits"
  shows "a64_arm_fits (ns, row)"
proof (rule ccontr)
  assume "\<not> a64_arm_fits (ns, row)"
  with assms(1) have "ns \<in> set (map fst (filter (\<lambda>arm. \<not> a64_arm_fits arm) aarch64_arms))" by force
  then have "ns \<in> set (map (\<lambda>n. [n]) a64_misfits)" by (simp only: aarch64_misfit_arms)
  with assms(2,3) show False by auto
qed

lemma aarch64_info_fits:
  assumes "aarch64_relocation_type_from_raw elf r = Some info" and "r \<notin> elf ` set a64_misfits"
    and "size info = BitMasking bm" and "instruction bm = AArch64 i"
  shows "start (range bm) < endp (range bm)" and "endp (range bm) \<le> 64"
    and "endp (range bm) - start (range bm) \<le> a64_width i" and "\<not> is_uleb (kind info)"
proof -
  obtain ns n k sz pm rng al bi where arm: "(ns, Some (k, sz, pm, rng, al, bi)) \<in> set aarch64_arms"
    and n: "n \<in> set ns" "r = elf n" and info: "kind info = k" "size info = sz"
    using assms(1) by (auto simp: aarch64_relocation_type_from_raw_def dest!: match_const_SomeD)
  have "n \<notin> set a64_misfits" using n(2) assms(2) by auto
  with aarch64_arm_fits [OF arm n(1)] assms(3,4) info
  show "start (range bm) < endp (range bm)" "endp (range bm) \<le> 64"
    "endp (range bm) - start (range bm) \<le> a64_width i" "\<not> is_uleb (kind info)" by auto
qed

text \<open>
  C4. AArch64 relocations into an instruction immediate whose encoder only sets bits
  (\<open>a64_or_only\<close>: all but the \<^verbatim>\<open>movz\<close>/\<^verbatim>\<open>movn\<close> rows and the Mach-O 12-bit row), apart from the three
  misfits: a value that passes the checks is written into an instruction whose immediate field
  is still zero, \<^verbatim>\<open>read_value\<close> gets back what the encoding keeps of the selected bits of the value
  (\<open>a64_decoded\<close>), no other bit of the instruction changes, and no byte after it. When the range
  check is the signed one of the whole field (branches, calls and PC-relative addresses) and the
  value has no bits below the field, the immediate shifted back is the relocation value itself:
  nothing is lost.
\<close>

theorem aarch64_reloc_write:
  assumes "aarch64_relocation_type_from_raw elf r = Some info" and "r \<notin> elf ` set a64_misfits"
    and "size info = BitMasking bm" and "instruction bm = AArch64 i" and "a64_or_only i"
    and "verify info v = Inr ()" and "u32_from_slice out = Some x"
    and "x AND dst_mask (a64_fields i) = 0"
  shows "\<exists>out' imm x'. write_to_buffer uleb info v out = Some (Inr out')
    \<and> aarch64_read_value i out' = Some (imm, False)
    \<and> imm = a64_decoded i (xbits v (start (range bm)) (endp (range bm)))
    \<and> u32_from_slice out' = Some x' \<and> x' AND NOT (dst_mask (a64_fields i)) = x
    \<and> drop 4 out' = drop 4 out
    \<and> (allowed info = const_bit_size (endp (range bm)) Signed \<and> endp (range bm) < 64 \<and>
        endp (range bm) = start (range bm) + a64_width i \<and> i \<noteq> A64_LdrRegister \<and> i \<noteq> A64_Add \<and>
        take_bit (start (range bm)) v = 0 \<longrightarrow> push_bit (start (range bm)) imm = v)"
proof -
  let ?s = "start (range bm)" and ?e = "endp (range bm)"
  let ?f = "xbits v ?s ?e"
  note fits = aarch64_info_fits [OF assms(1-4)]
  have "take_bit (a64_width i) ?f = ?f"
    using fits by (simp add: xbits_eq take_bit_take_bit min_def)
  from aarch64_insn_roundtrip [OF assms(5) this assms(7,8), of "sint v < 0"]
  obtain out' x' where out': "aarch64_write_to_value i ?f (sint v < 0) out = Some out'"
      "aarch64_read_value i out' = Some (a64_decoded i ?f, False)"
      "u32_from_slice out' = Some x'" "x' AND NOT (dst_mask (a64_fields i)) = x" "drop 4 out' = drop 4 out"
    by auto
  have "push_bit ?s (a64_decoded i ?f) = v"
    if "allowed info = const_bit_size ?e Signed" "?e < 64" "?e = ?s + a64_width i"
      "i \<noteq> A64_LdrRegister" "i \<noteq> A64_Add" "take_bit ?s v = 0"
  proof -
    have "signed_take_bit (?e - 1) v = v"
      using const_bit_size_Signed_iff [of ?e v] assms(6) that(1,2) fits(1) by (simp add: verify_ok_iff)
    from shifted_signed_field [OF this that(6) fits(1,2)] that show ?thesis
      by (simp add: a64_decoded_def)
  qed
  with out' write_bit_masking [OF assms(6) fits(4) assms(3) fits(1,2), of uleb out] assms(4)
  show ?thesis by (auto simp: insn_write_to_value_def)
qed

lemma aarch64_lookup_arm:
  assumes inj: "inj_on elf (set (arm_names aarch64_arms))"
    and arm: "(ns, row) \<in> set aarch64_arms" and n: "n \<in> set ns"
  shows "aarch64_relocation_type_from_raw elf (elf n) =
    map_option (row_info (n \<in> {''R_AARCH64_CALL26'', ''R_AARCH64_JUMP26''})) row"
proof -
  have "{''R_AARCH64_CALL26'', ''R_AARCH64_JUMP26''} \<subseteq> set (arm_names aarch64_arms)"
    by (simp add: arm_names_def aarch64_arms_def a64_control_flow_relocs_def)
  moreover have "n \<in> set (arm_names aarch64_arms)" by (rule arm_namesI [OF arm n])
  ultimately have "elf n = elf m \<longleftrightarrow> n = m" if "m \<in> {''R_AARCH64_CALL26'', ''R_AARCH64_JUMP26''}" for m
    using inj that by (auto dest: inj_onD)
  then show ?thesis
    by (simp add: aarch64_relocation_type_from_raw_def aarch64_table.match_const_arm [OF inj arm n])
qed

lemma length_arm_names:
  "length (arm_names aarch64_arms) = 114"
  by (simp add: arm_names_def aarch64_arms_defs)

theorem aarch64_reloc_write_witness:
  "\<exists>out' imm x'. write_to_buffer (\<lambda>_. []) (row_info True (RK_PltRelative, bit_mask_aarch64 2 28 A64_JumpCall,
        None, const_bit_size 28 Signed, 4, 0)) (- 8) [0, 0, 0, 0x94] = Some (Inr out')
    \<and> aarch64_read_value A64_JumpCall out' = Some (imm, False) \<and> push_bit 2 imm = - 8"
proof -
  let ?elf = "numbering (arm_names aarch64_arms)"
  let ?row = "(RK_PltRelative, bit_mask_aarch64 2 28 A64_JumpCall, None, const_bit_size 28 Signed, 4, 0)"
  have arm: "([''R_AARCH64_CALL26''], Some ?row) \<in> set aarch64_arms"
    by (simp add: aarch64_arms_def a64_control_flow_relocs_def)
  have lookup: "aarch64_relocation_type_from_raw ?elf (?elf ''R_AARCH64_CALL26'') = Some (row_info True ?row)"
    by (subst aarch64_lookup_arm [OF _ arm]) (simp_all add: inj_on_numbering length_arm_names)
  have nomis: "?elf ''R_AARCH64_CALL26'' \<notin> ?elf ` set a64_misfits"
    by (rule numbering_notin)
       (simp_all add: length_arm_names a64_misfits_def arm_names_def aarch64_arms_defs)
  have ver: "verify (row_info True ?row) (- 8) = Inr ()"
    by (simp add: verify_def const_bit_size_def from_bit_size_def contains_def AllowedRange_new_def)
  show ?thesis
    using aarch64_reloc_write [OF lookup nomis _ _ _ ver, of "BitMask_new (AArch64 A64_JumpCall) 2 28"
        A64_JumpCall "[0, 0, 0, 0x94]" "0x94000000" "\<lambda>_. []"]
    by (simp add: bit_mask_aarch64_def BitMask_new_def a64_or_only_def u32_from_slice_def first_chunk_def
        mask_eq_exp_minus_1) blast
qed

end
