(* ===== verification/RiscV_Relocs.thy ===== *)
theory RiscV_Relocs
  imports Reloc_Table
begin

text \<open>
  \<^verbatim>\<open>relocation_type_from_raw\<close> of \<^verbatim>\<open>linker-utils/src/riscv64.rs\<close>: the RISC-V relocation table.
\<close>

definition riscv_insn_relocs :: "reloc_row match_arms" where
  "riscv_insn_relocs =
    [([''R_RISCV_NONE''],
      Some (RK_None, ByteSize 0, None, no_check, 1, 0)),
     ([''R_RISCV_32''],
      Some (RK_Absolute, ByteSize 4, None, AllowedRange_new (- (2 ^ 31)) (2 ^ 32), 1, 0)),
     ([''R_RISCV_64''],
      Some (RK_Absolute, ByteSize 8, None, no_check, 1, 0)),
     ([''R_RISCV_BRANCH''],
      Some (RK_Relative, bit_mask_riscv 0 32 RV_BType, None, AllowedRange_new (- (2 ^ 12)) (2 ^ 12 - 1), 2, 0)),
     ([''R_RISCV_JAL''],
      Some (RK_Relative, bit_mask_riscv 0 32 RV_JType, None, AllowedRange_new (- (2 ^ 20)) (2 ^ 20 - 1), 2, 0)),
     ([''R_RISCV_CALL'', ''R_RISCV_CALL_PLT''],
      Some (RK_PltRelative, bit_mask_riscv 0 64 RV_UiType, None, AllowedRange_new (- (2 ^ 31)) (2 ^ 32), 1, 0)),
     ([''R_RISCV_GOT_HI20''],
      Some (RK_GotRelative, bit_mask_riscv 0 32 RV_UType, None, AllowedRange_new (- (2 ^ 31)) (2 ^ 32), 1, 0)),
     ([''R_RISCV_TLS_GOT_HI20''],
      Some (RK_GotTpOff, bit_mask_riscv 0 32 RV_UType, None, AllowedRange_new (- (2 ^ 31)) (2 ^ 32), 1, 0)),
     ([''R_RISCV_TLS_GD_HI20''],
      Some (RK_TlsGd, bit_mask_riscv 0 32 RV_UType, None, AllowedRange_new (- (2 ^ 31)) (2 ^ 32), 1, 0)),
     ([''R_RISCV_PCREL_HI20''],
      Some (RK_Relative, bit_mask_riscv 0 32 RV_UType, None, AllowedRange_new (- (2 ^ 31)) (2 ^ 32), 1, 0)),
     ([''R_RISCV_PCREL_LO12_I''],
      Some (RK_RelativeRiscVLow12, bit_mask_riscv 0 32 RV_IType, None, AllowedRange_new (- (2 ^ 31)) (2 ^ 32), 1, 0)),
     ([''R_RISCV_PCREL_LO12_S''],
      Some (RK_RelativeRiscVLow12, bit_mask_riscv 0 32 RV_SType, None, AllowedRange_new (- (2 ^ 31)) (2 ^ 32), 1, 0)),
     ([''R_RISCV_HI20''],
      Some (RK_Absolute, bit_mask_riscv 0 32 RV_UType, None, AllowedRange_new (- (2 ^ 31)) (2 ^ 32), 1, 0)),
     ([''R_RISCV_LO12_I''],
      Some (RK_Absolute, bit_mask_riscv 0 32 RV_IType, None, AllowedRange_new (- (2 ^ 31)) (2 ^ 32), 1, 0)),
     ([''R_RISCV_LO12_S''],
      Some (RK_Absolute, bit_mask_riscv 0 32 RV_SType, None, AllowedRange_new (- (2 ^ 31)) (2 ^ 32), 1, 0)),
     ([''R_RISCV_TPREL_HI20''],
      Some (RK_TpOff, bit_mask_riscv 0 32 RV_UType, None, AllowedRange_new (- (2 ^ 31)) (2 ^ 32), 1, 0)),
     ([''R_RISCV_TPREL_LO12_I''],
      Some (RK_TpOff, bit_mask_riscv 0 32 RV_IType, None, AllowedRange_new (- (2 ^ 31)) (2 ^ 32), 1, 0)),
     ([''R_RISCV_TPREL_LO12_S''],
      Some (RK_TpOff, bit_mask_riscv 0 32 RV_SType, None, AllowedRange_new (- (2 ^ 31)) (2 ^ 32), 1, 0))]"

definition riscv_arith_relocs :: "reloc_row match_arms" where
  "riscv_arith_relocs =
    [([''R_RISCV_TPREL_ADD''],
      Some (RK_None, ByteSize 0, None, no_check, 1, 0)),
     ([''R_RISCV_ADD8''],
      Some (RK_AbsoluteAddition, ByteSize 1, None, no_check, 1, 0)),
     ([''R_RISCV_ADD16''],
      Some (RK_AbsoluteAddition, ByteSize 2, None, no_check, 1, 0)),
     ([''R_RISCV_ADD32''],
      Some (RK_AbsoluteAddition, ByteSize 4, None, no_check, 1, 0)),
     ([''R_RISCV_ADD64''],
      Some (RK_AbsoluteAddition, ByteSize 8, None, no_check, 1, 0)),
     ([''R_RISCV_SUB8''],
      Some (RK_AbsoluteSubtraction, ByteSize 1, None, no_check, 1, 0)),
     ([''R_RISCV_SUB16''],
      Some (RK_AbsoluteSubtraction, ByteSize 2, None, no_check, 1, 0)),
     ([''R_RISCV_SUB32''],
      Some (RK_AbsoluteSubtraction, ByteSize 4, None, no_check, 1, 0)),
     ([''R_RISCV_SUB64''],
      Some (RK_AbsoluteSubtraction, ByteSize 8, None, no_check, 1, 0)),
     ([''R_RISCV_GOT32_PCREL''],
      Some (RK_GotRelative, ByteSize 4, None, AllowedRange_new (- (2 ^ 31)) (2 ^ 32), 1, 0)),
     ([''R_RISCV_ALIGN''],
      Some (RK_Alignment, ByteSize 0, None, no_check, 1, 0))]"

definition riscv_misc_relocs :: "elf_consts \<Rightarrow> reloc_row match_arms" where
  "riscv_misc_relocs elf =
    [([''R_RISCV_RVC_BRANCH''],
      Some (RK_Relative, bit_mask_riscv 0 16 RV_CbType, None, AllowedRange_new (- (2 ^ 8)) (2 ^ 8 - 1), 2, 0)),
     ([''R_RISCV_RVC_JUMP''],
      Some (RK_Relative, bit_mask_riscv 0 16 RV_CjType, None, AllowedRange_new (- (2 ^ 11)) (2 ^ 11 - 1), 2, 0)),
     ([''R_RISCV_RELAX''],
      Some (RK_None, ByteSize 0, None, no_check, 1, 0)),
     ([''R_RISCV_SUB6''],
      Some (RK_AbsoluteSubtractionWord6, ByteSize 1, None, no_check, 1, 0)),
     ([''R_RISCV_SET6''],
      Some (RK_AbsoluteSetWord6, ByteSize 1, None, no_check, 1, 0)),
     ([''R_RISCV_SET8''],
      Some (RK_AbsoluteSet, ByteSize 1, None, no_check, 1, 0)),
     ([''R_RISCV_SET16''],
      Some (RK_AbsoluteSet, ByteSize 2, None, no_check, 1, 0)),
     ([''R_RISCV_SET32''],
      Some (RK_AbsoluteSet, ByteSize 4, None, no_check, 1, 0)),
     ([''R_RISCV_32_PCREL''],
      Some (RK_Relative, ByteSize 4, None, AllowedRange_new (- (2 ^ 31)) (2 ^ 32), 1, 0)),
     ([''R_RISCV_PLT32''],
      Some (RK_PltRelative, ByteSize 4, None, AllowedRange_new (- (2 ^ 31)) (2 ^ 32), 1, 0)),
     ([''R_RISCV_SET_ULEB128''],
      Some (RK_Relative, ByteSize 0, None, no_check, 1, 0)),
     ([''R_RISCV_SUB_ULEB128''],
      Some (RK_PairSubtractionULEB128 (elf ''R_RISCV_SET_ULEB128''), ByteSize 8, None, no_check, 1, 0)),
     ([''R_RISCV_TLSDESC_HI20''], None),
     ([''R_RISCV_TLSDESC_LOAD_LO12''], None),
     ([''R_RISCV_TLSDESC_ADD_LO12''], None),
     ([''R_RISCV_TLSDESC_CALL''], None)]"

definition riscv_arms :: "elf_consts \<Rightarrow> reloc_row match_arms" where
  "riscv_arms elf =
     riscv_insn_relocs
     @ riscv_arith_relocs
     @ riscv_misc_relocs elf"

lemmas riscv_arms_defs [reloc_defs] =
  riscv_arms_def
  riscv_insn_relocs_def
  riscv_arith_relocs_def
  riscv_misc_relocs_def

definition riscv_relocation_type_from_raw :: "elf_consts \<Rightarrow> u32 \<Rightarrow> relocation_kind_info option" where
  "riscv_relocation_type_from_raw elf r_type =
     map_option
       (row_info False)
       (match_const elf (riscv_arms elf) r_type)"

interpretation riscv_table: match_table "riscv_arms elf" for elf
  by unfold_locales (rule distinct_of_map [of "drop 8"], simp add: arm_names_def riscv_arms_defs)

end
