(* ===== verification/RiscV_Write.thy ===== *)
theory RiscV_Write
  imports Reloc_Write RiscV_Relocs
begin

unbundle bit_operations_syntax

text \<open>
  The RISC-V relocation table and encoders together: what \<^verbatim>\<open>write_to_buffer\<close> does for the
  relocations of \<^verbatim>\<open>linker-utils/src/riscv64.rs\<close>.
\<close>

text \<open>What every RISC-V arm that patches an instruction has in common.\<close>

fun rv_arm_ok :: "string list \<times> reloc_row option \<Rightarrow> bool" where
  "rv_arm_ok (ns, Some (k, BitMasking bm, pm, rng, al, bi)) \<longleftrightarrow>
     \<not> is_uleb k \<and> start (range bm) = 0 \<and>
     (case instruction bm of
        RiscV i \<Rightarrow>
          endp (range bm) = (if i = RV_UiType then 64 else 8 * rv_bytes i) \<and>
          (if rv_branch i
           then al = 2 \<and> rng = AllowedRange_new (- (2 ^ (rv_imm_bits i - 1))) (2 ^ (rv_imm_bits i - 1) - 1)
           else al = 1 \<and> rng = AllowedRange_new (- (2 ^ 31)) (2 ^ 32))
      | _ \<Rightarrow> False)"
| "rv_arm_ok _ \<longleftrightarrow> True"

lemma riscv_arms_ok: "list_all rv_arm_ok (riscv_arms elf)"
  by (simp add: riscv_arms_defs bit_mask_defs rv_bytes_def rv_branch_def)

lemma riscv_info_ok:
  assumes "riscv_relocation_type_from_raw elf r = Some info"
    and "size info = BitMasking bm" and "instruction bm = RiscV i"
  shows "\<not> is_uleb (kind info)" and "start (range bm) = 0"
    and "endp (range bm) = (if i = RV_UiType then 64 else 8 * rv_bytes i)"
    and "if rv_branch i
         then alignment info = 2 \<and>
           allowed info = AllowedRange_new (- (2 ^ (rv_imm_bits i - 1))) (2 ^ (rv_imm_bits i - 1) - 1)
         else alignment info = 1 \<and> allowed info = AllowedRange_new (- (2 ^ 31)) (2 ^ 32)"
proof -
  obtain ns n k sz pm rng al bi where arm: "(ns, Some (k, sz, pm, rng, al, bi)) \<in> set (riscv_arms elf)"
    and info: "kind info = k" "size info = sz" "allowed info = rng" "alignment info = al"
    using assms(1) by (auto simp: riscv_relocation_type_from_raw_def dest!: match_const_SomeD)
  from arm have "rv_arm_ok (ns, Some (k, sz, pm, rng, al, bi))"
    using riscv_arms_ok [of elf] by (simp add: list_all_iff)
  with assms(2,3) info
  show "\<not> is_uleb (kind info)" "start (range bm) = 0"
    "endp (range bm) = (if i = RV_UiType then 64 else 8 * rv_bytes i)"
    "if rv_branch i
         then alignment info = 2 \<and>
           allowed info = AllowedRange_new (- (2 ^ (rv_imm_bits i - 1))) (2 ^ (rv_imm_bits i - 1) - 1)
         else alignment info = 1 \<and> allowed info = AllowedRange_new (- (2 ^ 31)) (2 ^ 32)"
    by auto
qed

lemma riscv_write_eq:
  assumes "riscv_relocation_type_from_raw elf r = Some info"
    and "size info = BitMasking bm" and "instruction bm = RiscV i" and "verify info v = Inr ()"
  shows "write_to_buffer uleb info v out =
    map_option Inr (riscv_write_to_value i (take_bit (if i = RV_UiType then 64 else 8 * rv_bytes i) v)
       (sint v < 0) out)"
proof -
  note ok = riscv_info_ok [OF assms(1-3)]
  have "0 < endp (range bm)" "endp (range bm) \<le> 64"
    unfolding ok(3) by (simp_all add: rv_bytes_def)
  with write_bit_masking [OF assms(4) ok(1) assms(2), of uleb out] ok(2) assms(3) show ?thesis
    by (simp add: insn_write_to_value_def xbits_eq ok(3))
qed

lemma riscv_branch_value:
  assumes "riscv_relocation_type_from_raw elf r = Some info"
    and "size info = BitMasking bm" and "instruction bm = RiscV i" and "rv_branch i"
    and "verify info v = Inr ()"
  shows "even v" and "signed_take_bit (rv_imm_bits i - 1) v = v"
proof -
  let ?b = "rv_imm_bits i"
  have b: "0 < ?b" "?b < 64" using assms(4) by (auto simp: rv_branch_def)
  note ok = riscv_info_ok(4) [OF assms(1-3), simplified assms(4) if_True]
  from assms(5) ok have "2 dvd unat v"
    and "contains (const_bit_size ?b Signed) (sint v)"
    using b by (auto simp: verify_ok_iff contains_def AllowedRange_new_def const_bit_size_def from_bit_size_def)
  then show "even v" and "signed_take_bit (?b - 1) v = v"
    using const_bit_size_Signed_iff [of ?b v] b by (simp_all add: even_unat_word_iff)
qed

text \<open>
  C9. RISC-V branches and jumps, compressed ones too: a displacement that passes the checks of
  the table is encoded in any branch instruction, and \<^verbatim>\<open>read_value\<close> returns exactly this
  displacement and its sign.
\<close>

theorem riscv_branch_write:
  assumes "riscv_relocation_type_from_raw elf r = Some info"
    and "size info = BitMasking bm" and "instruction bm = RiscV i" and "rv_branch i"
    and "verify info v = Inr ()" and "rv_bytes i \<le> length out"
  shows "\<exists>out'. write_to_buffer uleb info v out = Some (Inr out')
    \<and> riscv_read_value i out' = Some (v, sint v < 0)
    \<and> drop (rv_bytes i) out' = drop (rv_bytes i) out"
proof -
  let ?b = "rv_imm_bits i"
  have b: "0 < ?b" "?b < 64" "?b \<le> 8 * rv_bytes i" "i \<noteq> RV_UiType"
    using assms(4) by (auto simp: rv_branch_def rv_bytes_def)
  from riscv_branch_value [OF assms(1-5)]
    riscv_insn_roundtrip [of i out v "8 * rv_bytes i" "sint v < 0"] riscv_write_eq [OF assms(1-3,5), of uleb out]
    assms(4,6) b
  show ?thesis by auto
qed

lemma riscv_lookup_arm:
  assumes "inj_on elf (set (arm_names (riscv_arms elf)))"
    and "(ns, row) \<in> set (riscv_arms elf)" and "n \<in> set ns"
  shows "riscv_relocation_type_from_raw elf (elf n) = map_option (row_info False) row"
  using riscv_table.match_const_arm [OF assms] by (simp add: riscv_relocation_type_from_raw_def)

text \<open>The names of an arm do not depend on the values of the constants.\<close>

lemma riscv_arm_names: "arm_names (riscv_arms elf) = arm_names (riscv_arms (\<lambda>_. 0))"
  by (simp add: arm_names_def riscv_arms_defs)

abbreviation riscv_numbering :: elf_consts where
  "riscv_numbering \<equiv> numbering (arm_names (riscv_arms (\<lambda>_. 0)))"

lemma inj_riscv_numbering: "inj_on riscv_numbering (set (arm_names (riscv_arms riscv_numbering)))"
proof -
  have "length (arm_names (riscv_arms (\<lambda>_. 0))) = 46"
    by (simp add: arm_names_def riscv_arms_defs)
  then show ?thesis
    unfolding riscv_arm_names [of riscv_numbering] by (intro inj_on_numbering) simp
qed

theorem riscv_branch_write_witness:
  "\<exists>out'. write_to_buffer (\<lambda>_. []) (row_info False (RK_Relative, bit_mask_riscv 0 32 RV_BType, None,
        AllowedRange_new (- (2 ^ 12)) (2 ^ 12 - 1), 2, 0)) (- 4096) [0x63, 0, 0, 0] = Some (Inr out')
    \<and> riscv_read_value RV_BType out' = Some (- 4096, sint (- 4096 :: u64) < 0)
    \<and> drop (rv_bytes RV_BType) out' = drop (rv_bytes RV_BType) [0x63, 0, 0, 0]"
proof -
  let ?row = "(RK_Relative, bit_mask_riscv 0 32 RV_BType, None, AllowedRange_new (- (2 ^ 12)) (2 ^ 12 - 1), 2, 0)"
  have arm: "([''R_RISCV_BRANCH''], Some ?row) \<in> set (riscv_arms riscv_numbering)"
    by (simp add: riscv_arms_def riscv_insn_relocs_def)
  have "riscv_relocation_type_from_raw riscv_numbering (riscv_numbering ''R_RISCV_BRANCH'') = Some (row_info False ?row)"
    by (subst riscv_lookup_arm [OF inj_riscv_numbering arm]) simp_all
  then show ?thesis
    by (rule riscv_branch_write [where bm = "BitMask_new (RiscV RV_BType) 0 32"])
       (simp_all add: bit_mask_riscv_def BitMask_new_def rv_branch_def verify_def contains_def
          AllowedRange_new_def rv_bytes_def)
qed

lemma riscv_verified_range:
  assumes "riscv_relocation_type_from_raw elf r = Some info"
    and "size info = BitMasking bm" and "instruction bm = RiscV i" and "\<not> rv_branch i"
    and "verify info v = Inr ()"
  shows "- (2 ^ 31) \<le> sint v" and "sint v < 2 ^ 32"
  using riscv_info_ok(4) [OF assms(1-3)] assms(4,5)
  by (simp_all add: verify_ok_iff contains_def AllowedRange_new_def)

text \<open>
  C10. \<^verbatim>\<open>R_RISCV_CALL\<close> and \<^verbatim>\<open>R_RISCV_CALL_PLT\<close>: the \<^verbatim>\<open>auipc\<close>/\<^verbatim>\<open>jalr\<close> pair that is written computes exactly
  the relocation value when it is below \<^verbatim>\<open>2 ^ 31 - 0x800\<close>. The checks of the table accept values
  up to \<^verbatim>\<open>2 ^ 32\<close>; for the rest of them, which no such pair can reach, the pair computes the value
  minus \<^verbatim>\<open>2 ^ 32\<close>.
\<close>

theorem riscv_call_write:
  assumes "riscv_relocation_type_from_raw elf r = Some info"
    and "size info = BitMasking bm" and "instruction bm = RiscV RV_UiType"
    and "verify info v = Inr ()" and "8 \<le> length out"
  shows "\<exists>out'. write_to_buffer uleb info v out = Some (Inr out')
    \<and> rv_pair_offset out' = Some (if sint v < 2 ^ 31 - 0x800 then v else v - 2 ^ 32)
    \<and> drop 8 out' = drop 8 out"
proof -
  note bounds = riscv_verified_range [OF assms(1-3) _ assms(4)]
  have "take_bit 64 v = v" using take_bit_length_eq [of v] by simp
  then show ?thesis
    using riscv_write_eq [OF assms(1-4), of uleb out] riscv_call_pair_value [OF assms(5) bounds, of "sint v < 0"]
    by (auto simp: rv_branch_def)
qed

theorem riscv_call_write_witness:
  "\<exists>out'. write_to_buffer (\<lambda>_. []) (row_info False (RK_PltRelative, bit_mask_riscv 0 64 RV_UiType, None,
        AllowedRange_new (- (2 ^ 31)) (2 ^ 32), 1, 0)) 0x80000000 [0x97, 0, 0, 0, 0xe7, 0x80, 0, 0] = Some (Inr out')
    \<and> rv_pair_offset out' = Some (- 0x80000000) \<and> drop 8 out' = drop 8 [0x97, 0, 0, 0, 0xe7, 0x80, 0, 0]"
proof -
  let ?row = "(RK_PltRelative, bit_mask_riscv 0 64 RV_UiType, None, AllowedRange_new (- (2 ^ 31)) (2 ^ 32), 1, 0)"
  have arm: "([''R_RISCV_CALL'', ''R_RISCV_CALL_PLT''], Some ?row) \<in> set (riscv_arms riscv_numbering)"
    by (simp add: riscv_arms_def riscv_insn_relocs_def)
  have "riscv_relocation_type_from_raw riscv_numbering (riscv_numbering ''R_RISCV_CALL_PLT'') = Some (row_info False ?row)"
    by (subst riscv_lookup_arm [OF inj_riscv_numbering arm]) simp_all
  then show ?thesis
    using riscv_call_write [where bm = "BitMask_new (RiscV RV_UiType) 0 64" and v = "0x80000000"
        and out = "[0x97, 0, 0, 0, 0xe7, 0x80, 0, 0]" and uleb = "\<lambda>_. []"]
    by (simp add: bit_mask_riscv_def BitMask_new_def verify_def contains_def AllowedRange_new_def)
qed

text \<open>A \<^verbatim>\<open>HI20\<close> and a \<^verbatim>\<open>LO12_I\<close> relocation for one value fill the two halves of a pair.\<close>

lemma rv_hi_lo_pair:
  assumes "- (2 ^ 31) \<le> sint v" and "sint v < 2 ^ 32" and "length hi = 4" and "length lo = 4"
  shows "\<exists>hi' lo'. riscv_write_to_value RV_UType (take_bit 32 v) n hi = Some hi'
    \<and> riscv_write_to_value RV_IType (take_bit 32 v) n lo = Some lo'
    \<and> rv_pair_offset (hi' @ lo') = Some (if sint v < 2 ^ 31 - 0x800 then v else v - 2 ^ 32)"
proof -
  obtain x :: u32 where x: "hi = to_le_bytes 4 x"
    using bytes_as_word [of 4 hi, where 'a = 32] assms(3) by auto
  obtain y :: u32 where y: "lo = to_le_bytes 4 y"
    using bytes_as_word [of 4 lo, where 'a = 32] assms(4) by auto
  have low: "(ucast (take_bit 32 w) :: u32) = ucast w" for w :: u64
    by (rule bit_word_eqI) (simp add: bit_unsigned_iff bit_take_bit_iff)
  have add: "(ucast (take_bit 32 v + 0x800) :: u32) = ucast (v + 0x800)"
    using low [of "take_bit 32 v + 0x800"] low [of "v + 0x800"] by (simp only: take_bit_add_word)
  note hi = rv_write32 [of RV_UType "take_bit 32 v" x "[]"] and lo = rv_write32 [of RV_IType "take_bit 32 v" y "[]"]
  have "rv_pair_offset
     (to_le_bytes 4 ((x AND NOT (dst_mask (rv_fields RV_UType))) OR scatter (rv_fields RV_UType) (ucast (v + 0x800)) :: u32) @
      to_le_bytes 4 ((y AND NOT (dst_mask (rv_fields RV_IType))) OR scatter (rv_fields RV_IType) (ucast v) :: u32)) =
        Some (if sint v < 2 ^ 31 - 0x800 then v else v - 2 ^ 32)"
  proof -
    obtain out where "riscv_write_to_value RV_UiType v n (to_le_bytes 4 x @ to_le_bytes 4 y @ []) = Some out"
      and "rv_pair_offset out = Some (if sint v < 2 ^ 31 - 0x800 then v else v - 2 ^ 32)"
      using riscv_call_pair_value [OF _ assms(1,2), of "to_le_bytes 4 x @ to_le_bytes 4 y @ []" n] by auto
    then show ?thesis using riscv_ui_write [of v n x y "[]"] by simp
  qed
  then show ?thesis
    using hi lo x y by (simp add: riscv_write_to_value_def rv_source_def add low del: rv_fields.simps)
qed

text \<open>
  C11. A \<^verbatim>\<open>HI20\<close> relocation and a \<^verbatim>\<open>LO12_I\<close> relocation of the same value, written into an upper-immediate
  instruction and the instruction that adds the lower part, compute exactly this value
  when it is below \<^verbatim>\<open>2 ^ 31 - 0x800\<close>; the larger values that the table accepts, up to \<^verbatim>\<open>2 ^ 32\<close>, lose
  \<^verbatim>\<open>2 ^ 32\<close>.
\<close>

theorem riscv_hi_lo_write:
  assumes "riscv_relocation_type_from_raw elf r1 = Some info1"
    and "size info1 = BitMasking bm1" and "instruction bm1 = RiscV RV_UType"
    and "riscv_relocation_type_from_raw elf r2 = Some info2"
    and "size info2 = BitMasking bm2" and "instruction bm2 = RiscV RV_IType"
    and "verify info1 v = Inr ()" and "length hi = 4" and "length lo = 4"
  shows "\<exists>hi' lo'. write_to_buffer uleb info1 v hi = Some (Inr hi')
    \<and> write_to_buffer uleb info2 v lo = Some (Inr lo')
    \<and> rv_pair_offset (hi' @ lo') = Some (if sint v < 2 ^ 31 - 0x800 then v else v - 2 ^ 32)"
proof -
  have bounds: "- (2 ^ 31) \<le> sint v" "sint v < 2 ^ 32"
    using riscv_verified_range [OF assms(1-3) _ assms(7)] by (simp_all add: rv_branch_def)
  then have "verify info2 v = Inr ()"
    using riscv_info_ok(4) [OF assms(4-6)]
    by (simp add: verify_ok_iff rv_branch_def contains_def AllowedRange_new_def)
  then show ?thesis
    using riscv_write_eq [OF assms(1-3,7), of uleb hi] riscv_write_eq [OF assms(4-6), of v uleb lo]
      rv_hi_lo_pair [OF bounds assms(8,9), of "sint v < 0"]
    by (auto simp: rv_bytes_def)
qed

theorem riscv_hi_lo_write_witness:
  "\<exists>hi' lo'. write_to_buffer (\<lambda>_. []) (row_info False (RK_Absolute, bit_mask_riscv 0 32 RV_UType, None,
        AllowedRange_new (- (2 ^ 31)) (2 ^ 32), 1, 0)) 0x12345fff [0x37, 5, 0, 0] = Some (Inr hi')
    \<and> write_to_buffer (\<lambda>_. []) (row_info False (RK_Absolute, bit_mask_riscv 0 32 RV_IType, None,
        AllowedRange_new (- (2 ^ 31)) (2 ^ 32), 1, 0)) 0x12345fff [0x13, 5, 5, 0] = Some (Inr lo')
    \<and> rv_pair_offset (hi' @ lo') = Some 0x12345fff"
proof -
  let ?row = "\<lambda>i. (RK_Absolute, bit_mask_riscv 0 32 i, None, AllowedRange_new (- (2 ^ 31)) (2 ^ 32), 1, 0)"
  have arm: "([''R_RISCV_HI20''], Some (?row RV_UType)) \<in> set (riscv_arms riscv_numbering)"
      "([''R_RISCV_LO12_I''], Some (?row RV_IType)) \<in> set (riscv_arms riscv_numbering)"
    by (simp_all add: riscv_arms_def riscv_insn_relocs_def)
  have "riscv_relocation_type_from_raw riscv_numbering (riscv_numbering ''R_RISCV_HI20'') = Some (row_info False (?row RV_UType))"
      "riscv_relocation_type_from_raw riscv_numbering (riscv_numbering ''R_RISCV_LO12_I'') = Some (row_info False (?row RV_IType))"
    by (subst riscv_lookup_arm [OF inj_riscv_numbering arm(1)], simp_all)
       (subst riscv_lookup_arm [OF inj_riscv_numbering arm(2)], simp_all)
  then show ?thesis
    using riscv_hi_lo_write [where ?bm1.0 = "BitMask_new (RiscV RV_UType) 0 32"
          and ?bm2.0 = "BitMask_new (RiscV RV_IType) 0 32" and v = "0x12345fff" and hi = "[0x37, 5, 0, 0]"
          and lo = "[0x13, 5, 5, 0]" and uleb = "\<lambda>_. []"]
    by (simp add: bit_mask_riscv_def BitMask_new_def verify_def contains_def AllowedRange_new_def)
qed

end
