(* ===== verification/LoongArch64_Relocs.thy ===== *)
theory LoongArch64_Relocs
  imports Reloc_Table
begin

text \<open>
  \<^verbatim>\<open>relocation_type_from_raw\<close> of \<^verbatim>\<open>linker-utils/src/loongarch64.rs\<close>: the LoongArch64 relocation
  table. Its rows carry a bias besides the columns of the other architectures.
\<close>

definition larch_arith_relocs :: "elf_consts \<Rightarrow> reloc_row match_arms" where
  "larch_arith_relocs elf =
    [([''R_LARCH_NONE''],
      Some (RK_None, ByteSize 0, None, no_check, 1, 0)),
     ([''R_LARCH_32''],
      Some (RK_Absolute, ByteSize 4, None, AllowedRange_new (- (2 ^ 31)) (2 ^ 32), 1, 0)),
     ([''R_LARCH_64''],
      Some (RK_Absolute, ByteSize 8, None, no_check, 1, 0)),
     ([''R_LARCH_ADD6''],
      Some (RK_AbsoluteAdditionWord6, ByteSize 1, None, no_check, 1, 0)),
     ([''R_LARCH_ADD8''],
      Some (RK_AbsoluteAddition, ByteSize 1, None, no_check, 1, 0)),
     ([''R_LARCH_ADD16''],
      Some (RK_AbsoluteAddition, ByteSize 2, None, no_check, 1, 0)),
     ([''R_LARCH_ADD24''],
      Some (RK_AbsoluteAddition, ByteSize 3, None, no_check, 1, 0)),
     ([''R_LARCH_ADD32''],
      Some (RK_AbsoluteAddition, ByteSize 4, None, no_check, 1, 0)),
     ([''R_LARCH_ADD64''],
      Some (RK_AbsoluteAddition, ByteSize 8, None, no_check, 1, 0)),
     ([''R_LARCH_SUB6''],
      Some (RK_AbsoluteSubtractionWord6, ByteSize 1, None, no_check, 1, 0)),
     ([''R_LARCH_SUB8''],
      Some (RK_AbsoluteSubtraction, ByteSize 1, None, no_check, 1, 0)),
     ([''R_LARCH_SUB16''],
      Some (RK_AbsoluteSubtraction, ByteSize 2, None, no_check, 1, 0)),
     ([''R_LARCH_SUB24''],
      Some (RK_AbsoluteSubtraction, ByteSize 3, None, no_check, 1, 0)),
     ([''R_LARCH_SUB32''],
      Some (RK_AbsoluteSubtraction, ByteSize 4, None, no_check, 1, 0)),
     ([''R_LARCH_SUB64''],
      Some (RK_AbsoluteSubtraction, ByteSize 8, None, no_check, 1, 0)),
     ([''R_LARCH_ADD_ULEB128''],
      Some (RK_Relative, ByteSize 0, None, no_check, 1, 0)),
     ([''R_LARCH_SUB_ULEB128''],
      Some (RK_PairSubtractionULEB128 (elf ''R_LARCH_ADD_ULEB128''), ByteSize 8, None, no_check, 1, 0))]"

definition larch_general_relocs :: "reloc_row match_arms" where
  "larch_general_relocs =
    [([''R_LARCH_ABS_HI20''],
      Some (RK_Absolute, bit_mask_loongarch64 12 32 LA_Shift5, None, no_check, 1, 0)),
     ([''R_LARCH_ABS_LO12''],
      Some (RK_Absolute, bit_mask_loongarch64 0 12 LA_Shift10, None, no_check, 1, 0)),
     ([''R_LARCH_ABS64_HI12''],
      Some (RK_Absolute, bit_mask_loongarch64 52 64 LA_Shift10, None, no_check, 1, 0)),
     ([''R_LARCH_ABS64_LO20''],
      Some (RK_Absolute, bit_mask_loongarch64 32 52 LA_Shift5, None, no_check, 1, 0)),
     ([''R_LARCH_PCALA_HI20''],
      Some (RK_Relative, bit_mask_loongarch64 12 32 LA_Shift5, Some (SymbolPlusAddendAndPosition PAGE_MASK_4KB), no_check, 1, SIZE_2KB)),
     ([''R_LARCH_PCALA_LO12''],
      Some (RK_AbsoluteLowPart, bit_mask_loongarch64 0 12 LA_Shift10, None, no_check, 1, 0)),
     ([''R_LARCH_PCALA64_HI12''],
      Some (RK_RelativeLoongArchHigh, bit_mask_loongarch64 52 64 LA_Shift10, None, no_check, 1, 0)),
     ([''R_LARCH_PCALA64_LO20''],
      Some (RK_RelativeLoongArchHigh, bit_mask_loongarch64 32 52 LA_Shift5, None, no_check, 1, 0)),
     ([''R_LARCH_32_PCREL''],
      Some (RK_Relative, ByteSize 4, None, const_bit_size 32 Signed, 1, 0)),
     ([''R_LARCH_PCREL20_S2''],
      Some (RK_Relative, bit_mask_loongarch64 2 22 LA_Shift5, None, const_bit_size 22 Signed, 4, 0)),
     ([''R_LARCH_64_PCREL''],
      Some (RK_Relative, ByteSize 8, None, no_check, 1, 0)),
     ([''R_LARCH_PCADD_HI20''],
      Some (RK_Relative, bit_mask_loongarch64 12 32 LA_Shift5, None, no_check, 1, SIZE_2KB))]"

definition larch_got_relocs :: "reloc_row match_arms" where
  "larch_got_relocs =
    [([''R_LARCH_GOT_PC_HI20''],
      Some (RK_GotRelative, bit_mask_loongarch64 12 32 LA_Shift5, Some (GotEntryAndPosition PAGE_MASK_4KB), no_check, 1, SIZE_2KB)),
     ([''R_LARCH_GOT_PC_LO12''],
      Some (RK_Got, bit_mask_loongarch64 0 12 LA_Shift10, None, no_check, 1, 0)),
     ([''R_LARCH_GOT64_PC_HI12''],
      Some (RK_GotRelativeLoongArch64, bit_mask_loongarch64 52 64 LA_Shift10, None, no_check, 1, 0)),
     ([''R_LARCH_GOT64_PC_LO20''],
      Some (RK_GotRelativeLoongArch64, bit_mask_loongarch64 32 52 LA_Shift5, None, no_check, 1, 0))]"

definition larch_cfg_relocs :: "reloc_row match_arms" where
  "larch_cfg_relocs =
    [([''R_LARCH_B16''],
      Some (RK_Relative, bit_mask_loongarch64 2 18 LA_Shift10, None, const_bit_size 18 Signed, 4, 0)),
     ([''R_LARCH_B21''],
      Some (RK_Relative, bit_mask_loongarch64 2 23 LA_Branch21, None, const_bit_size 23 Signed, 4, 0)),
     ([''R_LARCH_B26''],
      Some (RK_PltRelative, bit_mask_loongarch64 2 28 LA_Branch26, None, const_bit_size 28 Signed, 4, 0)),
     ([''R_LARCH_CALL36''],
      Some (RK_Relative, bit_mask_loongarch64 2 38 LA_Call36, None, const_bit_size 38 Signed, 4, 0)),
     ([''R_LARCH_CALL30''],
      Some (RK_Relative, bit_mask_loongarch64 2 19 LA_Call30, None, no_check, 1, 0))]"

definition larch_tls_relocs :: "reloc_row match_arms" where
  "larch_tls_relocs =
    [([''R_LARCH_TLS_LE_HI20''],
      Some (RK_TpOff, bit_mask_loongarch64 12 32 LA_Shift5, None, no_check, 1, 0)),
     ([''R_LARCH_TLS_LE_LO12''],
      Some (RK_TpOff, bit_mask_loongarch64 0 12 LA_Shift10, None, no_check, 1, 0)),
     ([''R_LARCH_TLS_LE64_LO20''],
      Some (RK_TpOff, bit_mask_loongarch64 32 52 LA_Shift5, None, no_check, 1, 0)),
     ([''R_LARCH_TLS_LE64_HI12''],
      Some (RK_TpOff, bit_mask_loongarch64 52 64 LA_Shift10, None, no_check, 1, 0)),
     ([''R_LARCH_TLS_LE_HI20_R''],
      Some (RK_TpOff, bit_mask_loongarch64 12 32 LA_Shift5, None, no_check, 1, SIZE_2KB)),
     ([''R_LARCH_TLS_LE_LO12_R''],
      Some (RK_TpOff, bit_mask_loongarch64 0 12 LA_Shift10, None, no_check, 1, 0)),
     ([''R_LARCH_TLS_IE_PC_HI20''],
      Some (RK_GotTpOff, bit_mask_loongarch64 12 32 LA_Shift5, Some (GotEntryAndPosition PAGE_MASK_4KB), no_check, 1, SIZE_2KB)),
     ([''R_LARCH_TLS_IE_PC_LO12''],
      Some (RK_GotTpOffGot, bit_mask_loongarch64 0 12 LA_Shift10, None, no_check, 1, 0)),
     ([''R_LARCH_TLS_IE64_PC_LO20''],
      Some (RK_GotTpOffLoongArch64, bit_mask_loongarch64 32 52 LA_Shift5, None, no_check, 1, 0)),
     ([''R_LARCH_TLS_IE64_PC_HI12''],
      Some (RK_GotTpOffLoongArch64, bit_mask_loongarch64 52 64 LA_Shift10, None, no_check, 1, 0)),
     ([''R_LARCH_TLS_IE_HI20''],
      Some (RK_GotTpOffGot, bit_mask_loongarch64 12 32 LA_Shift5, None, no_check, 1, 0)),
     ([''R_LARCH_TLS_IE_LO12''],
      Some (RK_GotTpOffGot, bit_mask_loongarch64 0 12 LA_Shift10, None, no_check, 1, 0)),
     ([''R_LARCH_TLS_IE64_HI12''],
      Some (RK_GotTpOffGot, bit_mask_loongarch64 52 64 LA_Shift10, None, no_check, 1, 0)),
     ([''R_LARCH_TLS_IE64_LO20''],
      Some (RK_GotTpOffGot, bit_mask_loongarch64 32 52 LA_Shift5, None, no_check, 1, 0)),
     ([''R_LARCH_TLS_LD_PC_HI20''],
      Some (RK_TlsGd, bit_mask_loongarch64 12 32 LA_Shift5, Some (GotEntryAndPosition PAGE_MASK_4KB), no_check, 1, SIZE_2KB)),
     ([''R_LARCH_TLS_LD_HI20''],
      Some (RK_TlsGdGot, bit_mask_loongarch64 12 32 LA_Shift5, None, no_check, 1, 0)),
     ([''R_LARCH_TLS_GD_PC_HI20''],
      Some (RK_TlsGd, bit_mask_loongarch64 12 32 LA_Shift5, Some (GotEntryAndPosition PAGE_MASK_4KB), no_check, 1, SIZE_2KB)),
     ([''R_LARCH_TLS_GD_HI20''],
      Some (RK_TlsGdGot, bit_mask_loongarch64 12 32 LA_Shift5, None, no_check, 1, 0))]"

definition larch_tlsdesc_relocs :: "reloc_row match_arms" where
  "larch_tlsdesc_relocs =
    [([''R_LARCH_TLS_DESC_PC_HI20''],
      Some (RK_TlsDesc, bit_mask_loongarch64 12 32 LA_Shift5, Some (GotEntryAndPosition PAGE_MASK_4KB), no_check, 1, SIZE_2KB)),
     ([''R_LARCH_TLS_DESC_PC_LO12''],
      Some (RK_TlsDescGot, bit_mask_loongarch64 0 12 LA_Shift10, None, no_check, 1, 0)),
     ([''R_LARCH_TLS_DESC64_PC_HI12''],
      Some (RK_TlsDescLoongArch64, bit_mask_loongarch64 52 64 LA_Shift10, None, no_check, 1, 0)),
     ([''R_LARCH_TLS_DESC64_PC_LO20''],
      Some (RK_TlsDescLoongArch64, bit_mask_loongarch64 32 52 LA_Shift5, None, no_check, 1, 0)),
     ([''R_LARCH_TLS_DESC_LD''],
      Some (RK_None, ByteSize 0, None, no_check, 1, 0)),
     ([''R_LARCH_TLS_DESC_CALL''],
      Some (RK_TlsDescCall, ByteSize 0, None, no_check, 1, 0))]"

definition larch_misc_relocs :: "reloc_row match_arms" where
  "larch_misc_relocs =
    [([''R_LARCH_TLS_DTPREL32''],
      Some (RK_DtpOff, ByteSize 4, None, no_check, 1, 0)),
     ([''R_LARCH_TLS_DTPREL64''],
      Some (RK_DtpOff, ByteSize 8, None, no_check, 1, 0)),
     ([''R_LARCH_TLS_LD_PCREL20_S2'', ''R_LARCH_TLS_GD_PCREL20_S2'', ''R_LARCH_TLS_DESC_PCREL20_S2''], None),
     ([''R_LARCH_RELAX'', ''R_LARCH_TLS_LE_ADD_R''],
      Some (RK_None, ByteSize 0, None, no_check, 1, 0)),
     ([''R_LARCH_ALIGN''],
      Some (RK_None, ByteSize 0, None, no_check, 1, 0))]"

definition larch_arms :: "elf_consts \<Rightarrow> reloc_row match_arms" where
  "larch_arms elf =
     larch_arith_relocs elf
     @ larch_general_relocs
     @ larch_got_relocs
     @ larch_cfg_relocs
     @ larch_tls_relocs
     @ larch_tlsdesc_relocs
     @ larch_misc_relocs"

lemmas larch_arms_defs [reloc_defs] =
  larch_arms_def
  larch_arith_relocs_def
  larch_general_relocs_def
  larch_got_relocs_def
  larch_cfg_relocs_def
  larch_tls_relocs_def
  larch_tlsdesc_relocs_def
  larch_misc_relocs_def

definition loongarch64_relocation_type_from_raw :: "elf_consts \<Rightarrow> u32 \<Rightarrow> relocation_kind_info option" where
  "loongarch64_relocation_type_from_raw elf r_type =
     map_option
       (row_info False)
       (match_const elf (larch_arms elf) r_type)"

interpretation larch_table: match_table "larch_arms elf" for elf
  by unfold_locales (rule distinct_of_map [of "drop 8"], simp add: arm_names_def larch_arms_defs)

end
