(* ===== verification/LoongArch64_Write.thy ===== *)
theory LoongArch64_Write
  imports Reloc_Write LoongArch64_Relocs
begin

unbundle bit_operations_syntax

text \<open>
  The LoongArch64 relocation table and encoders together: what \<^verbatim>\<open>write_to_buffer\<close> does for
  the relocations of \<^verbatim>\<open>linker-utils/src/loongarch64.rs\<close>.
\<close>

lemma loongarch64_lookup_arm:
  assumes "inj_on elf (set (arm_names (larch_arms elf)))"
    and "(ns, row) \<in> set (larch_arms elf)" and "n \<in> set ns"
  shows "loongarch64_relocation_type_from_raw elf (elf n) = map_option (row_info False) row"
  using larch_table.match_const_arm [OF assms] by (simp add: loongarch64_relocation_type_from_raw_def)

lemma larch_arm_names: "arm_names (larch_arms elf) = arm_names (larch_arms (\<lambda>_. 0))"
  by (simp add: arm_names_def larch_arms_defs)

abbreviation larch_numbering :: elf_consts where
  "larch_numbering \<equiv> numbering (arm_names (larch_arms (\<lambda>_. 0)))"

lemma inj_larch_numbering: "inj_on larch_numbering (set (arm_names (larch_arms larch_numbering)))"
proof -
  have "length (arm_names (larch_arms (\<lambda>_. 0))) < 100"
    by (simp add: arm_names_def larch_arms_defs)
  then show ?thesis
    unfolding larch_arm_names [of larch_numbering] by (intro inj_on_numbering) simp
qed

text \<open>
  A LoongArch64 arm that patches one instruction selects as many bits as the immediate of its
  format has, except for \<^verbatim>\<open>R_LARCH_B16\<close>; \<^verbatim>\<open>R_LARCH_CALL36\<close> selects bits 2 to 37.
\<close>

fun la_arm_fits :: "string list \<times> reloc_row option \<Rightarrow> bool" where
  "la_arm_fits (ns, Some (k, BitMasking bm, pm, rng, al, bi)) \<longleftrightarrow>
     (case instruction bm of
        LoongArch64 i \<Rightarrow> start (range bm) < endp (range bm) \<and> endp (range bm) \<le> 64 \<and> \<not> is_uleb k \<and>
          (la_single i \<longrightarrow> endp (range bm) = start (range bm) + la_width i) \<and>
          (i = LA_Call36 \<longrightarrow> start (range bm) = 2 \<and> endp (range bm) = 38 \<and> al = 4 \<and>
             rng = const_bit_size 38 Signed)
      | _ \<Rightarrow> False)"
| "la_arm_fits _ \<longleftrightarrow> True"

lemma loongarch64_misfit_arms:
  "map fst (filter (\<lambda>arm. \<not> la_arm_fits arm) (larch_arms elf)) = [[''R_LARCH_B16'']]"
  by (simp add: larch_arms_defs bit_mask_defs la_single_def)

lemma loongarch64_info_fits:
  assumes "loongarch64_relocation_type_from_raw elf r = Some info" and "r \<noteq> elf ''R_LARCH_B16''"
    and "size info = BitMasking bm" and "instruction bm = LoongArch64 i"
  shows "start (range bm) < endp (range bm)" and "endp (range bm) \<le> 64" and "\<not> is_uleb (kind info)"
    and "la_single i \<Longrightarrow> endp (range bm) = start (range bm) + la_width i"
    and "i = LA_Call36 \<Longrightarrow> start (range bm) = 2 \<and> endp (range bm) = 38 \<and> alignment info = 4 \<and>
           allowed info = const_bit_size 38 Signed"
proof -
  obtain ns n k sz pm rng al bi where arm: "(ns, Some (k, sz, pm, rng, al, bi)) \<in> set (larch_arms elf)"
    and n: "n \<in> set ns" "r = elf n" and info: "kind info = k" "size info = sz" "alignment info = al" "allowed info = rng"
    using assms(1) by (auto simp: loongarch64_relocation_type_from_raw_def dest!: match_const_SomeD)
  have "la_arm_fits (ns, Some (k, sz, pm, rng, al, bi))"
  proof (rule ccontr)
    assume "\<not> ?thesis"
    with arm have "ns \<in> set (map fst (filter (\<lambda>arm. \<not> la_arm_fits arm) (larch_arms elf)))" by force
    then have "ns = [''R_LARCH_B16'']" by (simp only: loongarch64_misfit_arms) simp
    with n assms(2) show False by simp
  qed
  with assms(3,4) info
  show "start (range bm) < endp (range bm)" and "endp (range bm) \<le> 64" and "\<not> is_uleb (kind info)"
    and "la_single i \<Longrightarrow> endp (range bm) = start (range bm) + la_width i"
    and "i = LA_Call36 \<Longrightarrow> start (range bm) = 2 \<and> endp (range bm) = 38 \<and> alignment info = 4 \<and>
           allowed info = const_bit_size 38 Signed"
    by auto
qed

text \<open>
  C12. Every LoongArch64 relocation into one instruction, apart from \<^verbatim>\<open>R_LARCH_B16\<close>: a value that passes
  the checks is written into any instruction, \<^verbatim>\<open>read_value\<close> gets back the selected bits, the rest
  of the instruction and of the section is kept, and for a branch whose displacement is a
  multiple of four in the signed range of the field, the immediate shifted back is the displacement.
\<close>

theorem loongarch64_reloc_write:
  assumes "loongarch64_relocation_type_from_raw elf r = Some info" and "r \<noteq> elf ''R_LARCH_B16''"
    and "size info = BitMasking bm" and "instruction bm = LoongArch64 i" and "la_single i"
    and "verify info v = Inr ()" and "u32_from_slice out = Some x"
  shows "\<exists>out' imm x'. write_to_buffer uleb info v out = Some (Inr out')
    \<and> loongarch64_read_value i out' = Some imm
    \<and> imm = la_decoded i (xbits v (start (range bm)) (endp (range bm)))
    \<and> u32_from_slice out' = Some x'
    \<and> x' AND NOT (dst_mask (la_fields i)) = x AND NOT (dst_mask (la_fields i))
    \<and> drop 4 out' = drop 4 out
    \<and> (allowed info = const_bit_size (endp (range bm)) Signed \<and> endp (range bm) < 64 \<and>
        (i = LA_Branch26 \<or> i = LA_Branch21) \<and> take_bit (start (range bm)) v = 0
        \<longrightarrow> push_bit (start (range bm)) (fst imm) = v)"
proof -
  let ?s = "start (range bm)" and ?e = "endp (range bm)"
  let ?f = "xbits v ?s ?e"
  note fits = loongarch64_info_fits [OF assms(1-4)]
  have w: "?e - ?s = la_width i" using fits(4) assms(5) by simp
  then have "take_bit (la_width i) ?f = ?f"
    using fits(1,2) by (simp add: xbits_eq)
  from loongarch64_insn_roundtrip [OF assms(5) this assms(7), of "sint v < 0"]
  obtain out' x' where out': "loongarch64_write_to_value i ?f (sint v < 0) out = Some out'"
      "loongarch64_read_value i out' = Some (la_decoded i ?f)" "u32_from_slice out' = Some x'"
      "x' AND NOT (dst_mask (la_fields i)) = x AND NOT (dst_mask (la_fields i))" "drop 4 out' = drop 4 out"
    by auto
  have "push_bit ?s (fst (la_decoded i ?f)) = v"
    if "allowed info = const_bit_size ?e Signed" "?e < 64" "i = LA_Branch26 \<or> i = LA_Branch21" "take_bit ?s v = 0"
  proof -
    have "signed_take_bit (?e - 1) v = v"
      using const_bit_size_Signed_iff [of ?e v] assms(6) that(1,2) fits(1) by (simp add: verify_ok_iff)
    from shifted_signed_field [OF this that(4) fits(1,2)] that(3) w show ?thesis
      by (auto simp: la_decoded_def)
  qed
  with out' write_bit_masking [OF assms(6) fits(3) assms(3) fits(1,2), of uleb out] assms(4)
  show ?thesis
    by (intro exI [of _ out'] exI [of _ "la_decoded i ?f"] exI [of _ x']) (auto simp: insn_write_to_value_def)
qed

theorem loongarch64_reloc_write_witness:
  "\<exists>out' imm. write_to_buffer (\<lambda>_. []) (row_info False (RK_PltRelative, bit_mask_loongarch64 2 28 LA_Branch26,
        None, const_bit_size 28 Signed, 4, 0)) (- 8) [0, 0, 0, 0x54] = Some (Inr out')
    \<and> loongarch64_read_value LA_Branch26 out' = Some imm \<and> push_bit 2 (fst imm) = - 8"
proof -
  let ?row = "(RK_PltRelative, bit_mask_loongarch64 2 28 LA_Branch26, None, const_bit_size 28 Signed, 4, 0)"
  have arm: "([''R_LARCH_B26''], Some ?row) \<in> set (larch_arms larch_numbering)"
    by (simp add: larch_arms_def larch_cfg_relocs_def)
  have lookup: "loongarch64_relocation_type_from_raw larch_numbering (larch_numbering ''R_LARCH_B26'') = Some (row_info False ?row)"
    by (subst loongarch64_lookup_arm [OF inj_larch_numbering arm]) simp_all
  have "''R_LARCH_B16'' \<in> set (arm_names (larch_arms larch_numbering))"
       "''R_LARCH_B26'' \<in> set (arm_names (larch_arms larch_numbering))"
    by (simp_all add: arm_names_def larch_arms_def larch_cfg_relocs_def)
  then have no16: "larch_numbering ''R_LARCH_B26'' \<noteq> larch_numbering ''R_LARCH_B16''"
    using inj_onD [OF inj_larch_numbering, of "''R_LARCH_B26''" "''R_LARCH_B16''"] by auto
  have ver: "verify (row_info False ?row) (- 8) = Inr ()"
    by (simp add: verify_def const_bit_size_def from_bit_size_def contains_def AllowedRange_new_def)
  show ?thesis
    using loongarch64_reloc_write [OF lookup no16 _ _ _ ver, of "BitMask_new (LoongArch64 LA_Branch26) 2 28"
        LA_Branch26 "[0, 0, 0, 0x54]" "0x54000000" "\<lambda>_. []"]
    by (simp add: bit_mask_loongarch64_def BitMask_new_def la_single_def u32_from_slice_def first_chunk_def) blast
qed

text \<open>
  C13. \<^verbatim>\<open>R_LARCH_CALL36\<close>: the \<^verbatim>\<open>pcaddu18i\<close>/\<^verbatim>\<open>jirl\<close> pair that is written computes exactly the relocation
  value when the pair can reach it. The checks of the table also accept the highest \<^verbatim>\<open>0x20000\<close> of
  the signed 38-bit range, which the rounded pair cannot reach: there it computes the value
  minus \<^verbatim>\<open>2 ^ 38\<close>, so the call goes 256 GiB below its target.
\<close>

theorem loongarch64_call36_write:
  assumes "loongarch64_relocation_type_from_raw elf r = Some info" and "r \<noteq> elf ''R_LARCH_B16''"
    and "size info = BitMasking bm" and "instruction bm = LoongArch64 LA_Call36"
    and "verify info v = Inr ()" and "8 \<le> length out"
  shows "\<exists>out'. write_to_buffer uleb info v out = Some (Inr out')
    \<and> la_call_offset out' = Some (if sint v < 2 ^ 37 - 0x20000 then v else v - 2 ^ 38)
    \<and> drop 8 out' = drop 8 out"
proof -
  note fits = loongarch64_info_fits [OF assms(1-4)]
  have "4 dvd unat v" and lo: "- (2 ^ 37) \<le> sint v" and hi: "sint v < 2 ^ 37"
    using assms(5) fits(5)
    by (auto simp: verify_ok_iff contains_def const_bit_size_def from_bit_size_def AllowedRange_new_def)
  then have "take_bit 2 (unat v) = 0" by (simp add: take_bit_eq_mod)
  then have "unat (take_bit 2 v) = 0" by (simp only: unsigned_take_bit_eq)
  then have al: "take_bit 2 v = 0" by (simp only: unat_eq_0)
  show ?thesis
    using loongarch64_call36_correct [OF assms(6) al lo hi, of "sint v < 0"]
      write_bit_masking [OF assms(5) fits(3) assms(3) fits(1,2), of uleb out] assms(4) fits(5)
    by (auto simp: insn_write_to_value_def)
qed

theorem loongarch64_call36_write_witness:
  "\<exists>out'. write_to_buffer (\<lambda>_. []) (row_info False (RK_Relative, bit_mask_loongarch64 2 38 LA_Call36,
        None, const_bit_size 38 Signed, 4, 0)) 0x1ffffe0000 [0, 0, 0, 0x1e, 0, 0, 0, 0x4c] = Some (Inr out')
    \<and> la_call_offset out' = Some (- 0x2000020000) \<and> drop 8 out' = drop 8 [0, 0, 0, 0x1e, 0, 0, 0, 0x4c]"
proof -
  let ?row = "(RK_Relative, bit_mask_loongarch64 2 38 LA_Call36, None, const_bit_size 38 Signed, 4, 0)"
  have arm: "([''R_LARCH_CALL36''], Some ?row) \<in> set (larch_arms larch_numbering)"
    by (simp add: larch_arms_def larch_cfg_relocs_def)
  have lookup: "loongarch64_relocation_type_from_raw larch_numbering (larch_numbering ''R_LARCH_CALL36'') = Some (row_info False ?row)"
    by (subst loongarch64_lookup_arm [OF inj_larch_numbering arm]) simp_all
  have "''R_LARCH_B16'' \<in> set (arm_names (larch_arms larch_numbering))"
       "''R_LARCH_CALL36'' \<in> set (arm_names (larch_arms larch_numbering))"
    by (simp_all add: arm_names_def larch_arms_def larch_cfg_relocs_def)
  then have no16: "larch_numbering ''R_LARCH_CALL36'' \<noteq> larch_numbering ''R_LARCH_B16''"
    using inj_onD [OF inj_larch_numbering, of "''R_LARCH_CALL36''" "''R_LARCH_B16''"] by auto
  show ?thesis
    using loongarch64_call36_write [OF lookup no16, of "BitMask_new (LoongArch64 LA_Call36) 2 38" "0x1ffffe0000"
        "[0, 0, 0, 0x1e, 0, 0, 0, 0x4c]" "\<lambda>_. []"]
    by (simp add: bit_mask_loongarch64_def BitMask_new_def verify_def const_bit_size_def
          from_bit_size_def contains_def AllowedRange_new_def)
qed

end
