(* ===== verification/Reloc_Safety.thy ===== *)
theory Reloc_Safety
  imports AArch64_Write RiscV_Write LoongArch64_Write
begin

unbundle bit_operations_syntax

text \<open>
  Properties of the relocation tables and of \<^verbatim>\<open>write_to_buffer\<close> that hold on all four architectures:
  writes do not panic.
\<close>

subsection \<open>No panics\<close>

lemma or_from_slice_total:
  "length vs \<le> length ds \<Longrightarrow> \<exists>out. or_from_slice ds vs = Some out \<and> length out = length ds"
  by (simp add: or_from_slice_eq)

lemma and_from_slice_total:
  "length vs \<le> length ds \<Longrightarrow> \<exists>out. and_from_slice ds vs = Some out \<and> length out = length ds"
  by (simp add: and_from_slice_eq)

lemma and_or_total:
  assumes "length ks \<le> length ds" and "length vs \<le> length ds"
  shows "\<exists>out. and_or ds ks vs = Some out \<and> length out = length ds"
proof -
  obtain d where d: "and_from_slice ds ks = Some d" "length d = length ds"
    using and_from_slice_total [OF assms(1)] by auto
  then show ?thesis using or_from_slice_total [of vs d] assms(2) by (simp add: and_or_def)
qed

lemma aarch64_write_total:
  assumes "4 \<le> length dest"
  shows "\<exists>out. aarch64_write_to_value i v n dest = Some out \<and> length out = length dest"
proof -
  have len4: "length (to_le_bytes 4 (m :: u32)) \<le> length d" if "length d = length dest" for m d
    using assms that by simp
  have and4: "\<exists>d. and_from_slice dest (to_le_bytes 4 (m :: u32)) = Some d \<and> length d = length dest" for m
    using and_from_slice_total [of "to_le_bytes 4 m" dest] assms by simp
  have or4: "\<exists>out. or_from_slice d (to_le_bytes 4 (m :: u32)) = Some out \<and> length out = length dest"
    if "length d = length dest" for m d
    using or_from_slice_total [of "to_le_bytes 4 m" d] assms that by simp
  show ?thesis
  proof (cases "a64_or_only i")
    case True
    then show ?thesis by (cases i) (simp_all add: a64_or_only_def aarch64_write_to_value_def or4)
  next
    case False
    obtain x where x: "Option.bind (slice_range 0 4 dest) u32_from_slice = Some x"
      using assms by (simp add: slice_range_def u32_from_slice_def first_chunk_def)
    from False consider "i = A64_Movnz" | "i = A64_MachOLow12" by (auto simp: a64_or_only_def)
    then show ?thesis
    proof cases
      case 1
      obtain d where "and_from_slice dest (to_le_bytes 4 (0x0060001F :: u32)) = Some d" "length d = length dest"
        using and4 by blast
      then show ?thesis by (simp add: 1 aarch64_write_to_value_def or4)
    next
      case 2
      obtain d where "and_from_slice dest (to_le_bytes 4 (NOT (push_bit 10 0xfff) :: u32)) = Some d"
          "length d = length dest"
        using and4 by blast
      then show ?thesis
        by (simp only: 2 aarch64_write_to_value_def aarch64_instruction.case x bind.bind_lunit Let_def
            option.map prod.case or4)
    qed
  qed
qed

lemma riscv_write_single_total:
  assumes "4 \<le> length dest" and "i \<noteq> RV_UiType"
  shows "\<exists>out. riscv_write_single i v dest = Some out \<and> length out = length dest"
  using assms by (cases i) (simp_all add: riscv_write_single_def Let_def and_or_total)

lemma loongarch64_write_total:
  assumes "8 \<le> length dest"
  shows "\<exists>out. loongarch64_write_to_value i v n dest = Some out \<and> length out = length dest"
  using assms by (cases i) (simp_all add: loongarch64_write_to_value_def Let_def and_or_total)

lemma riscv_write_total:
  assumes "8 \<le> length dest"
  shows "\<exists>out. riscv_write_to_value i v n dest = Some out \<and> length out = length dest"
proof (cases "i = RV_UiType")
  case True
  obtain hi where "riscv_write_single RV_UType v (take 4 dest) = Some hi" "length hi = 4"
    using riscv_write_single_total [of "take 4 dest" RV_UType v] assms by auto
  moreover obtain lo where "riscv_write_single RV_IType v (drop 4 dest) = Some lo" "length lo = length dest - 4"
    using riscv_write_single_total [of "drop 4 dest" RV_IType v] assms by (auto simp: le_diff_conv2)
  ultimately show ?thesis using assms True by (simp add: riscv_write_to_value_def)
next
  case False
  with assms riscv_write_single_total [of dest i v] show ?thesis by (simp add: riscv_write_to_value_def)
qed

lemma insn_write_total:
  "8 \<le> length dest \<Longrightarrow> \<exists>out. insn_write_to_value i v n dest = Some out \<and> length out = length dest"
  by (cases i)
     (auto simp: insn_write_to_value_def intro: aarch64_write_total riscv_write_total loongarch64_write_total)

fun size_wf :: "relocation_size \<Rightarrow> bool" where
  "size_wf (ByteSize n) \<longleftrightarrow> n \<le> 8"
| "size_wf (BitMasking bm) \<longleftrightarrow> start (range bm) < endp (range bm) \<and> endp (range bm) \<le> 64"

lemma write_to_buffer_total:
  assumes "size_wf (size info)" and "8 \<le> length out"
  shows "\<exists>res. write_to_buffer uleb info v out = Some res \<and> (\<forall>out'. res = Inr out' \<longrightarrow> length out' = length out)"
proof (cases "verify info v")
  case (Inr u)
  show ?thesis
  proof (cases "is_uleb (kind info)")
    case True
    then show ?thesis using Inr by (auto simp: write_to_buffer_def Let_def copy_from_slice_def)
  next
    case False
    show ?thesis
    proof (cases "size info")
      case (ByteSize n)
      with write_byte_size [OF Inr False ByteSize] assms show ?thesis by simp
    next
      case (BitMasking bm)
      obtain out' where "insn_write_to_value (instruction bm) (xbits v (start (range bm)) (endp (range bm)))
          (sint v < 0) out = Some out'" "length out' = length out"
        using insn_write_total [OF assms(2)] by blast
      with write_bit_masking [OF Inr False BitMasking] assms(1) BitMasking show ?thesis by simp
    qed
  qed
qed (simp add: write_to_buffer_def)

lemma table_sizes_wf:
  "list_all (\<lambda>(_, row). pred_option (\<lambda>(_, sz, _). size_wf sz) row) x86_64_arms"
  "list_all (\<lambda>(_, row). pred_option (\<lambda>(_, sz, _). size_wf sz) row) aarch64_arms"
  "list_all (\<lambda>(_, row). pred_option (\<lambda>(_, sz, _). size_wf sz) row) (riscv_arms elf)"
  "list_all (\<lambda>(_, row). pred_option (\<lambda>(_, sz, _). size_wf sz) row) (larch_arms elf)"
  by (simp_all add: x86_64_arms_defs aarch64_arms_defs riscv_arms_defs larch_arms_defs bit_mask_defs)

text \<open>
  C14. Whatever relocation type the input names, on any of the four architectures: writing any value
  to an output of at least eight bytes never panics, and a successful write keeps the
  length of the output.
\<close>

theorem relocation_write_never_panics:
  assumes "x86_64_relocation_from_raw elf r = Some info \<or> aarch64_relocation_type_from_raw elf r = Some info
      \<or> riscv_relocation_type_from_raw elf r = Some info \<or> loongarch64_relocation_type_from_raw elf r = Some info"
    and "8 \<le> length out"
  shows "\<exists>res. write_to_buffer uleb info v out = Some res \<and> (\<forall>out'. res = Inr out' \<longrightarrow> length out' = length out)"
proof -
  have "size_wf (size info)"
    using assms(1) table_sizes_wf(1,2) table_sizes_wf(3,4) [of elf]
    by (auto 0 3 simp: x86_64_relocation_from_raw_def aarch64_relocation_type_from_raw_def
        riscv_relocation_type_from_raw_def loongarch64_relocation_type_from_raw_def list_all_iff
        dest!: match_const_SomeD)
  then show ?thesis by (rule write_to_buffer_total [OF _ assms(2)])
qed

theorem relocation_write_never_panics_witness:
  "\<exists>res. write_to_buffer (\<lambda>_. [0]) (row_info False (RK_Relative, bit_mask_riscv 0 16 RV_CjType, None,
        AllowedRange_new (- (2 ^ 11)) (2 ^ 11 - 1), 2, 0)) 7 [1, 0xa0, 0, 0, 0, 0, 0, 0] = Some res
    \<and> (\<forall>out'. res = Inr out' \<longrightarrow> length out' = length [1, 0xa0, 0, 0, 0, 0, 0, 0 :: u8])"
proof -
  let ?row = "(RK_Relative, bit_mask_riscv 0 16 RV_CjType, None, AllowedRange_new (- (2 ^ 11)) (2 ^ 11 - 1), 2, 0)"
  have arm: "([''R_RISCV_RVC_JUMP''], Some ?row) \<in> set (riscv_arms riscv_numbering)"
    by (simp add: riscv_arms_def riscv_misc_relocs_def)
  have "riscv_relocation_type_from_raw riscv_numbering (riscv_numbering ''R_RISCV_RVC_JUMP'') = Some (row_info False ?row)"
    by (subst riscv_lookup_arm [OF inj_riscv_numbering arm]) simp_all
  then show ?thesis
    using relocation_write_never_panics [of riscv_numbering "riscv_numbering ''R_RISCV_RVC_JUMP''"
      "row_info False ?row" "[1, 0xa0, 0, 0, 0, 0, 0, 0]" "\<lambda>_. [0]" 7] by simp
qed

end
