(* ===== verification/Std_Search.thy ===== *)
theory Std_Search
  imports Prelude
begin

text \<open>
  The searches of the Rust standard library that the linker uses on sorted vectors:
  \<^verbatim>\<open>binary_search_by\<close>, \<^verbatim>\<open>binary_search_by_key\<close> and \<^verbatim>\<open>partition_point\<close>, written as the halving loop that
  the library runs. Their documented contract is the locale \<open>sorted_search\<close>, which the loop is shown
  to satisfy; what the clients need is derived from the contract alone.
\<close>

datatype ordering = OLess | OEqual | OGreater

definition cmp_ord :: "'a::linorder \<Rightarrow> 'a \<Rightarrow> ordering" where
  "cmp_ord a b = (if a < b then OLess else if a = b then OEqual else OGreater)"

function bs_loop :: "('a \<Rightarrow> ordering) \<Rightarrow> 'a list \<Rightarrow> nat \<Rightarrow> nat \<Rightarrow> nat" where
  "bs_loop cmp xs base sz =
     (if sz \<le> 1 then base
      else bs_loop cmp xs (if cmp (xs ! (base + sz div 2)) = OGreater then base else base + sz div 2)
             (sz - sz div 2))"
  by pat_completeness auto
termination by (relation "measure (\<lambda>(cmp, xs, base, sz). sz)") auto

declare bs_loop.simps [simp del]

text \<open>\<open>Inr i\<close> is \<^verbatim>\<open>Ok(i)\<close>, \<open>Inl i\<close> is \<^verbatim>\<open>Err(i)\<close>.\<close>

definition binary_search_by :: "('a \<Rightarrow> ordering) \<Rightarrow> 'a list \<Rightarrow> nat + nat" where
  "binary_search_by cmp xs =
     (if xs = [] then Inl 0
      else
        let base = bs_loop cmp xs 0 (length xs) in
        case cmp (xs ! base) of
          OEqual \<Rightarrow> Inr base
        | OLess \<Rightarrow> Inl (base + 1)
        | OGreater \<Rightarrow> Inl base)"

definition binary_search_by_key :: "'k::linorder \<Rightarrow> ('a \<Rightarrow> 'k) \<Rightarrow> 'a list \<Rightarrow> nat + nat" where
  "binary_search_by_key key f xs = binary_search_by (\<lambda>x. cmp_ord (f x) key) xs"

definition partition_point :: "('a \<Rightarrow> bool) \<Rightarrow> 'a list \<Rightarrow> nat" where
  "partition_point P xs =
     (case binary_search_by (\<lambda>x. if P x then OLess else OGreater) xs of Inr i \<Rightarrow> i | Inl i \<Rightarrow> i)"

subsection \<open>The loop\<close>

lemma bs_loop_one: "bs_loop cmp xs base (Suc 0) = base"
  by (subst bs_loop.simps) simp

text \<open>Once an element compares greater, so do the later ones.\<close>

definition greater_up :: "('a \<Rightarrow> ordering) \<Rightarrow> 'a list \<Rightarrow> bool" where
  "greater_up cmp xs \<longleftrightarrow>
     (\<forall>j < length xs. \<forall>i < j. cmp (xs ! i) = OGreater \<longrightarrow> cmp (xs ! j) = OGreater)"

definition bound :: "('a \<Rightarrow> ordering) \<Rightarrow> 'a list \<Rightarrow> nat" where
  "bound cmp xs = length (takeWhile (\<lambda>x. cmp x \<noteq> OGreater) xs)"

lemma bound_le: "bound cmp xs \<le> length xs"
  by (simp add: bound_def length_takeWhile_le)

lemma not_greater_iff:
  assumes up: "greater_up cmp xs" and "i < length xs"
  shows "cmp (xs ! i) \<noteq> OGreater \<longleftrightarrow> i < bound cmp xs"
proof
  assume "i < bound cmp xs"
  then show "cmp (xs ! i) \<noteq> OGreater"
    using nth_mem [of i "takeWhile (\<lambda>x. cmp x \<noteq> OGreater) xs"]
      takeWhile_nth [of i "\<lambda>x. cmp x \<noteq> OGreater" xs]
    by (auto simp: bound_def dest: set_takeWhileD)
next
  let ?b = "bound cmp xs"
  assume ng: "cmp (xs ! i) \<noteq> OGreater"
  show "i < ?b"
  proof (rule ccontr)
    assume "\<not> i < ?b"
    then have "?b \<le> i" by simp
    with assms have "?b < length xs" by simp
    then have "cmp (xs ! ?b) = OGreater"
      unfolding bound_def using nth_length_takeWhile by fastforce
    with ng assms \<open>?b \<le> i\<close> show False
      unfolding greater_up_def by (cases "?b = i") auto
  qed
qed

lemma bs_loop_bound:
  assumes "greater_up cmp xs" and "base = 0 \<or> base < bound cmp xs" and "bound cmp xs \<le> base + sz"
    and "base + sz \<le> length xs" and "0 < sz"
  shows "bs_loop cmp xs base sz = bound cmp xs - 1"
  using assms(2-)
proof (induction sz arbitrary: base rule: less_induct)
  case (less sz)
  show ?case
  proof (cases "sz \<le> 1")
    case True
    with less.prems have "sz = 1" by simp
    with less.prems show ?thesis by (auto simp: bs_loop_one)
  next
    case False
    let ?mid = "base + sz div 2"
    have half: "0 < sz div 2" "sz - sz div 2 < sz" "0 < sz - sz div 2" "?mid < length xs"
      using False less.prems(3) by auto
    show ?thesis
    proof (cases "cmp (xs ! ?mid) = OGreater")
      case True
      then have "bound cmp xs \<le> ?mid" using not_greater_iff [OF assms(1) half(4)] by simp
      moreover have "sz div 2 \<le> sz - sz div 2" by simp
      ultimately have "bs_loop cmp xs base (sz - sz div 2) = bound cmp xs - 1"
        using less.prems half by (intro less.IH) auto
      with True False show ?thesis by (simp add: bs_loop.simps [of cmp xs base sz])
    next
      case ng: False
      then have "?mid < bound cmp xs" using not_greater_iff [OF assms(1) half(4)] by simp
      then have "bs_loop cmp xs ?mid (sz - sz div 2) = bound cmp xs - 1"
        using less.prems half by (intro less.IH) auto
      with ng False show ?thesis by (simp add: bs_loop.simps [of cmp xs base sz])
    qed
  qed
qed

text \<open>The result in terms of the elements that do not compare greater.\<close>

lemma binary_search_by_eq:
  assumes "greater_up cmp xs"
  shows "binary_search_by cmp xs =
    (let b = bound cmp xs in
     if b = 0 then Inl 0 else if cmp (xs ! (b - 1)) = OEqual then Inr (b - 1) else Inl b)"
proof (cases "xs = []")
  case True
  then show ?thesis using bound_le [of cmp xs] by (simp add: binary_search_by_def)
next
  case False
  let ?b = "bound cmp xs"
  have loop: "bs_loop cmp xs 0 (length xs) = ?b - 1"
    using bound_le [of cmp xs] False by (intro bs_loop_bound [OF assms]) auto
  have "cmp (xs ! 0) = OGreater" if "?b = 0"
    using not_greater_iff [OF assms, of 0] False that by simp
  moreover have "cmp (xs ! (?b - 1)) \<noteq> OGreater" if "?b \<noteq> 0"
    using not_greater_iff [OF assms, of "?b - 1"] bound_le [of cmp xs] that by simp
  ultimately show ?thesis
    using False by (auto simp: binary_search_by_def loop Let_def split: ordering.splits)
qed

lemma partition_point_eq:
  assumes "\<And>i j. i < j \<Longrightarrow> j < length xs \<Longrightarrow> P (xs ! j) \<Longrightarrow> P (xs ! i)"
  shows "partition_point P xs = length (takeWhile P xs)"
proof -
  let ?cmp = "\<lambda>x. if P x then OLess else OGreater"
  have "greater_up ?cmp xs" using assms by (auto simp: greater_up_def)
  moreover have "(\<lambda>x. ?cmp x \<noteq> OGreater) = P" by auto
  then have "bound ?cmp xs = length (takeWhile P xs)" by (simp add: bound_def)
  ultimately show ?thesis by (auto simp: partition_point_def binary_search_by_eq Let_def)
qed

lemma key_less:
  "sorted_wrt (<) (map f xs) \<Longrightarrow> i < j \<Longrightarrow> j < length xs \<Longrightarrow> f (xs ! i) < f (xs ! j)"
  using sorted_wrt_nth_less [of "(<)" "map f xs" i j] by simp

lemma binary_search_by_key_Ok_iff:
  fixes f :: "'a \<Rightarrow> 'k::linorder"
  assumes strict: "sorted_wrt (<) (map f xs)"
  shows "binary_search_by_key k f xs = Inr i \<longleftrightarrow> i < length xs \<and> f (xs ! i) = k"
proof -
  let ?cmp = "\<lambda>x. cmp_ord (f x) k" and ?b = "bound (\<lambda>x. cmp_ord (f x) k) xs"
  have up: "greater_up ?cmp xs"
    unfolding greater_up_def
  proof (intro allI impI)
    fix i j assume "i < j" "j < length xs" "cmp_ord (f (xs ! i)) k = OGreater"
    with key_less [OF strict, of i j] show "cmp_ord (f (xs ! j)) k = OGreater"
      by (auto simp: cmp_ord_def split: if_splits)
  qed
  note eq = binary_search_by_eq [OF up] and le = bound_le [of ?cmp xs] and ng = not_greater_iff [OF up]
  have unique: "i = ?b - 1 \<and> ?b \<noteq> 0" if "i < length xs" "f (xs ! i) = k"
  proof -
    have b: "i < ?b" using ng [OF that(1)] that(2) by (simp add: cmp_ord_def)
    have "\<not> Suc i < ?b"
    proof
      assume si: "Suc i < ?b"
      then have len: "Suc i < length xs" using le by simp
      with that have "k < f (xs ! Suc i)" using key_less [OF strict, of i "Suc i"] by simp
      then have "cmp_ord (f (xs ! Suc i)) k = OGreater" by (auto simp: cmp_ord_def)
      with len show False using ng [of "Suc i"] si by simp
    qed
    with b show ?thesis by simp
  qed
  show ?thesis
  proof
    assume "binary_search_by_key k f xs = Inr i"
    then show "i < length xs \<and> f (xs ! i) = k"
      using eq le by (auto simp: binary_search_by_key_def cmp_ord_def Let_def split: if_splits)
  next
    assume i: "i < length xs \<and> f (xs ! i) = k"
    with unique have "i = ?b - 1" "?b \<noteq> 0" by auto
    with i eq show "binary_search_by_key k f xs = Inr i"
      by (simp add: binary_search_by_key_def cmp_ord_def)
  qed
qed

subsection \<open>The contract and its clients\<close>

locale sorted_search =
  fixes search :: "'k::linorder \<Rightarrow> ('a \<Rightarrow> 'k) \<Rightarrow> 'a list \<Rightarrow> nat + nat"
    and part :: "('a \<Rightarrow> bool) \<Rightarrow> 'a list \<Rightarrow> nat"
  assumes search_Ok_iff:
      "sorted_wrt (<) (map f xs) \<Longrightarrow> search k f xs = Inr i \<longleftrightarrow> i < length xs \<and> f (xs ! i) = k"
    and part_eq:
      "(\<And>i j. i < j \<Longrightarrow> j < length xs \<Longrightarrow> P (xs ! j) \<Longrightarrow> P (xs ! i)) \<Longrightarrow>
       part P xs = length (takeWhile P xs)"
begin

lemma search_cases:
  fixes f :: "'a \<Rightarrow> 'k"
  assumes "sorted_wrt (<) (map f xs)"
  obtains (Found) i where "search k f xs = Inr i" "i < length xs" "f (xs ! i) = k"
    | (Missing) p where "search k f xs = Inl p" "k \<notin> f ` set xs"
proof (cases "search k f xs")
  case (Inl p)
  then have "k \<noteq> f (xs ! i)" if "i < length xs" for i
    using search_Ok_iff [OF assms, of k i] that by auto
  then have "k \<notin> f ` set xs" by (metis imageE in_set_conv_nth)
  with Inl show ?thesis by (rule Missing)
next
  case (Inr i)
  with search_Ok_iff [OF assms, of k i] show ?thesis by (intro Found) auto
qed

lemma part_less:
  fixes f :: "'a \<Rightarrow> 'k"
  assumes "sorted_wrt (<) (map f xs)"
  shows "part (\<lambda>x. f x < k) xs = length (takeWhile (\<lambda>x. f x < k) xs)"
proof (rule part_eq)
  fix i j assume "i < j" "j < length xs" and "f (xs ! j) < k"
  with key_less [OF assms, of i j] show "f (xs ! i) < k" by simp
qed

lemma part_le:
  fixes f :: "'a \<Rightarrow> 'k"
  assumes "sorted_wrt (<) (map f xs)"
  shows "part (\<lambda>x. f x \<le> k) xs = length (takeWhile (\<lambda>x. f x \<le> k) xs)"
proof (rule part_eq)
  fix i j assume "i < j" "j < length xs" and "f (xs ! j) \<le> k"
  with key_less [OF assms, of i j] show "f (xs ! i) \<le> k" by simp
qed

text \<open>Looking up a key and inserting at the partition point keep the vector a map.\<close>

lemma insert_at_part_sorted:
  fixes f :: "'a \<Rightarrow> 'k"
  assumes "sorted_wrt (<) (map f xs)" and "f v \<notin> f ` set xs"
  defines "p \<equiv> part (\<lambda>x. f x < f v) xs"
  shows "sorted_wrt (<) (map f (take p xs @ v # drop p xs))"
proof -
  let ?t = "takeWhile (\<lambda>x. f x < f v) xs" and ?d = "dropWhile (\<lambda>x. f x < f v) xs"
  have split: "take p xs = ?t" "drop p xs = ?d"
    using part_less [OF assms(1), of "f v"]
    by (simp_all only: p_def flip: takeWhile_eq_take dropWhile_eq_drop)
  have sorted: "sorted_wrt (<) (map f ?t @ map f ?d)"
    using assms(1) by (simp flip: map_append)
  have "f v < f y" if y: "y \<in> set ?d" for y
  proof -
    obtain z zs where d: "?d = z # zs"
      using y by (cases ?d) (simp_all del: dropWhile_eq_Nil_conv)
    then have "\<not> f z < f v" using hd_dropWhile [of "\<lambda>x. f x < f v" xs] by simp
    moreover have "z \<in> set xs" using d set_dropWhileD [of z "\<lambda>x. f x < f v" xs] by simp
    then have "f z \<noteq> f v" using assms(2) by (metis image_eqI)
    ultimately have "f v < f z" by simp
    with y d sorted show ?thesis by (auto simp: sorted_wrt_append intro: less_trans)
  qed
  with sorted show ?thesis
    unfolding split by (auto simp: sorted_wrt_append dest: set_takeWhileD intro: less_trans)
qed

end

interpretation std_search: sorted_search binary_search_by_key partition_point
  by unfold_locales (fact binary_search_by_key_Ok_iff, rule partition_point_eq)

end
