(* ===== verification/Relax_Deltas.thy ===== *)
theory Relax_Deltas
  imports Std_Search
begin

text \<open>
  \<^verbatim>\<open>linker-utils/src/relaxation.rs\<close>: the byte deletions of size-reducing relaxations and the
  translation of section offsets through them. The abstract view of a section is the set of its
  deleted input offsets; the output offset of an input offset is the number of kept offsets
  before it, and the translations are shown to compute this rank and its inverse.

  A failed \<^verbatim>\<open>debug_assert!\<close> is \<open>None\<close>. Offsets are 64-bit words, so every sum and difference wraps.
\<close>

record relax_delta =
  input_offset :: u64
  cumulative_deleted :: u64
  bytes_deleted :: u32

record section_relax_deltas =
  deltas :: "relax_delta list"

text \<open>\<^verbatim>\<open>raw.windows(2).all(|w| w[0].0 < w[1].0)\<close>\<close>

fun windows_ascending :: "(u64 \<times> u32) list \<Rightarrow> bool" where
  "windows_ascending (x # y # raw) \<longleftrightarrow> fst x < fst y \<and> windows_ascending (y # raw)"
| "windows_ascending _ \<longleftrightarrow> True"

fun build_deltas :: "u64 \<Rightarrow> (u64 \<times> u32) list \<Rightarrow> relax_delta list" where
  "build_deltas running [] = []"
| "build_deltas running ((off, b) # raw) =
     (let running' = running + ucast b in
      \<lparr>input_offset = off, cumulative_deleted = running', bytes_deleted = b\<rparr> # build_deltas running' raw)"

definition SectionRelaxDeltas_new :: "(u64 \<times> u32) list \<Rightarrow> section_relax_deltas option" where
  "SectionRelaxDeltas_new raw =
     (if windows_ascending raw then Some \<lparr>deltas = build_deltas 0 raw\<rparr> else None)"

definition total_deleted :: "section_relax_deltas \<Rightarrow> u64" where
  "total_deleted s = (if deltas s = [] then 0 else cumulative_deleted (last (deltas s)))"

definition merge_additional ::
    "section_relax_deltas \<Rightarrow> (u64 \<times> u32) list \<Rightarrow> section_relax_deltas option" where
  "merge_additional s additional =
     (if additional = [] then Some s
      else
        let raw = sort_key fst (map (\<lambda>d. (input_offset d, bytes_deleted d)) (deltas s) @ additional)
        in if windows_ascending raw then SectionRelaxDeltas_new raw else None)"

definition has_delta_at :: "section_relax_deltas \<Rightarrow> u64 \<Rightarrow> bool" where
  "has_delta_at s off = (\<not> isl (binary_search_by_key off input_offset (deltas s)))"

definition delta_bytes_at :: "section_relax_deltas \<Rightarrow> u64 \<Rightarrow> u32" where
  "delta_bytes_at s off =
     (case binary_search_by_key off input_offset (deltas s) of
        Inr i \<Rightarrow> bytes_deleted (deltas s ! i)
      | Inl _ \<Rightarrow> 0)"

definition deletes_input_offset :: "section_relax_deltas \<Rightarrow> u64 \<Rightarrow> bool" where
  "deletes_input_offset s off =
     (let idx = partition_point (\<lambda>d. input_offset d \<le> off) (deltas s) in
      if idx = 0 then False
      else let d = deltas s ! (idx - 1) in off < input_offset d + ucast (bytes_deleted d))"

definition input_to_output_offset :: "section_relax_deltas \<Rightarrow> u64 \<Rightarrow> u64" where
  "input_to_output_offset s off =
     (if deltas s = [] then off
      else
        let idx = partition_point (\<lambda>d. input_offset d < off) (deltas s) in
        if idx = 0 then off else off - cumulative_deleted (deltas s ! (idx - 1)))"

definition output_to_input_offset :: "section_relax_deltas \<Rightarrow> u64 \<Rightarrow> u64" where
  "output_to_input_offset s off =
     (if deltas s = [] then off
      else
        let lo = partition_point
                   (\<lambda>d. input_offset d + ucast (bytes_deleted d) - cumulative_deleted d \<le> off) (deltas s)
        in if lo = 0 then off else off + cumulative_deleted (deltas s ! (lo - 1)))"

record relax_cursor =
  cursor_deltas :: "relax_delta list"
  index :: nat
  current_cumulative :: u64

definition cursor :: "section_relax_deltas \<Rightarrow> relax_cursor" where
  "cursor s = \<lparr>cursor_deltas = deltas s, index = 0, current_cumulative = 0\<rparr>"

function advance :: "u64 \<Rightarrow> relax_cursor \<Rightarrow> relax_cursor" where
  "advance off c =
     (if index c < length (cursor_deltas c) \<and> input_offset (cursor_deltas c ! index c) < off
      then advance off (c\<lparr>current_cumulative := cumulative_deleted (cursor_deltas c ! index c),
                          index := index c + 1\<rparr>)
      else c)"
  by pat_completeness auto
termination by (relation "measure (\<lambda>(off, c). length (cursor_deltas c) - index c)") auto

definition translate :: "relax_cursor \<Rightarrow> u64 \<Rightarrow> relax_cursor \<times> u64" where
  "translate c off = (let c' = advance off c in (c', off - current_cumulative c'))"

definition opt_input_to_output :: "section_relax_deltas option \<Rightarrow> u64 \<Rightarrow> u64" where
  "opt_input_to_output ds off =
     (case ds of Some d \<Rightarrow> input_to_output_offset d off | None \<Rightarrow> off)"

subsection \<open>The map from section indices to deltas\<close>

record relax_delta_map =
  entries :: "(nat \<times> section_relax_deltas) list"

definition RelaxDeltaMap_new :: relax_delta_map where
  "RelaxDeltaMap_new = \<lparr>entries = []\<rparr>"

definition RelaxDeltaMap_insert ::
    "nat \<Rightarrow> section_relax_deltas \<Rightarrow> relax_delta_map \<Rightarrow> relax_delta_map option" where
  "RelaxDeltaMap_insert i ds m =
     (if entries m = [] \<or> fst (last (entries m)) < i then Some (m\<lparr>entries := entries m @ [(i, ds)]\<rparr>)
      else None)"

definition RelaxDeltaMap_get :: "relax_delta_map \<Rightarrow> nat \<Rightarrow> section_relax_deltas option" where
  "RelaxDeltaMap_get m i =
     (case binary_search_by_key i fst (entries m) of
        Inr p \<Rightarrow> Some (snd (entries m ! p))
      | Inl _ \<Rightarrow> None)"

text \<open>\<^verbatim>\<open>get_mut\<close> and the mutation \<open>f\<close> of the value it lends.\<close>

definition RelaxDeltaMap_get_mut ::
    "relax_delta_map \<Rightarrow> nat \<Rightarrow> (section_relax_deltas \<Rightarrow> section_relax_deltas) \<Rightarrow> relax_delta_map option" where
  "RelaxDeltaMap_get_mut m i f =
     (case binary_search_by_key i fst (entries m) of
        Inr p \<Rightarrow> Some (m\<lparr>entries := (entries m)[p := (fst (entries m ! p), f (snd (entries m ! p)))]\<rparr>)
      | Inl _ \<Rightarrow> None)"

definition RelaxDeltaMap_insert_sorted ::
    "nat \<Rightarrow> section_relax_deltas \<Rightarrow> relax_delta_map \<Rightarrow> relax_delta_map option" where
  "RelaxDeltaMap_insert_sorted i ds m =
     (let pos = partition_point (\<lambda>e. fst e < i) (entries m) in
      if length (entries m) \<le> pos \<or> fst (entries m ! pos) \<noteq> i
      then Some (m\<lparr>entries := take pos (entries m) @ (i, ds) # drop pos (entries m)\<rparr>)
      else None)"

subsection \<open>Well-formed deltas\<close>

declare advance.simps [simp del]

abbreviation d_off :: "relax_delta \<Rightarrow> nat" where "d_off d \<equiv> unat (input_offset d)"
abbreviation d_len :: "relax_delta \<Rightarrow> nat" where "d_len d \<equiv> unat (bytes_deleted d)"
abbreviation d_cum :: "relax_delta \<Rightarrow> nat" where "d_cum d \<equiv> unat (cumulative_deleted d)"

text \<open>
  Deletions that do not overlap, from position \<open>pos\<close> on, and cumulative counts that start
  from \<open>cum\<close>.
\<close>

fun spans_ok :: "nat \<Rightarrow> (u64 \<times> u32) list \<Rightarrow> bool" where
  "spans_ok pos [] \<longleftrightarrow> True"
| "spans_ok pos ((off, b) # raw) \<longleftrightarrow>
     pos \<le> unat off \<and> 0 < unat b \<and> unat off + unat b < 2 ^ 64 \<and> spans_ok (unat off + unat b) raw"

fun wf_from :: "nat \<Rightarrow> nat \<Rightarrow> relax_delta list \<Rightarrow> bool" where
  "wf_from pos cum [] \<longleftrightarrow> True"
| "wf_from pos cum (d # ds) \<longleftrightarrow>
     pos \<le> d_off d \<and> 0 < d_len d \<and> d_off d + d_len d < 2 ^ 64 \<and> d_cum d = cum + d_len d \<and>
     wf_from (d_off d + d_len d) (d_cum d) ds"

definition deltas_wf :: "section_relax_deltas \<Rightarrow> bool" where
  "deltas_wf s \<longleftrightarrow> wf_from 0 0 (deltas s)"

definition span_set :: "(u64 \<times> u32) list \<Rightarrow> nat set" where
  "span_set raw = (\<Union>(off, b) \<in> set raw. {unat off ..< unat off + unat b})"

definition raw_of :: "section_relax_deltas \<Rightarrow> (u64 \<times> u32) list" where
  "raw_of s = map (\<lambda>d. (input_offset d, bytes_deleted d)) (deltas s)"

text \<open>The deleted input offsets.\<close>

definition deleted_in :: "relax_delta list \<Rightarrow> nat set" where
  "deleted_in ds = (\<Union>d \<in> set ds. {d_off d ..< d_off d + d_len d})"

definition deleted :: "section_relax_deltas \<Rightarrow> nat set" where
  "deleted s = deleted_in (deltas s)"

text \<open>The number of kept offsets below an offset.\<close>

definition rank :: "nat set \<Rightarrow> nat \<Rightarrow> nat" where
  "rank D x = card {y. y < x \<and> y \<notin> D}"

lemma rank_plus_card: "rank D x + card (D \<inter> {..<x}) = x"
proof -
  have "{y. y < x \<and> y \<notin> D} \<union> (D \<inter> {..<x}) = {..<x}" by auto
  moreover have "{y. y < x \<and> y \<notin> D} \<inter> (D \<inter> {..<x}) = {}" by auto
  ultimately show ?thesis
    unfolding rank_def by (metis (no_types, lifting) card_Un_disjoint card_lessThan finite_Un finite_lessThan)
qed

lemma rank_strict_mono: "x < y \<Longrightarrow> x \<notin> D \<Longrightarrow> rank D x < rank D y"
  unfolding rank_def by (rule psubset_card_mono) auto

lemma rank_inj: "x \<notin> D \<Longrightarrow> y \<notin> D \<Longrightarrow> rank D x = rank D y \<Longrightarrow> x = y"
  using rank_strict_mono [of x y D] rank_strict_mono [of y x D] by (cases x y rule: linorder_cases) auto

lemma unat_ucast_32 [simp]: "unat (ucast (b :: u32) :: u64) = unat b"
  using unsigned_less [of b, where 'a = nat] by (simp add: unsigned_ucast_eq take_bit_nat_eq_self)

subsection \<open>Construction\<close>

lemma spans_ok_windows: "spans_ok pos raw \<Longrightarrow> windows_ascending raw"
proof (induction raw arbitrary: pos rule: windows_ascending.induct)
  case (1 x y raw)
  obtain off b where x: "x = (off, b)" by (cases x)
  obtain off' b' where y: "y = (off', b')" by (cases y)
  from 1 show ?case by (auto simp: x y word_less_nat_alt)
qed auto

lemma build_deltas_wf:
  assumes "spans_ok pos raw" and "unat running = cum" and "cum \<le> pos"
  shows "wf_from pos cum (build_deltas running raw)"
  using assms
proof (induction raw arbitrary: pos cum running)
  case (Cons e raw)
  obtain off b where e: "e = (off, b)" by (cases e)
  from Cons.prems e have sum: "cum + unat b < 2 ^ 64" by simp
  then have "unat (running + ucast b) = cum + unat b"
    using Cons.prems(2) by (simp add: unat_word_ariths)
  moreover from Cons.prems e
  have "wf_from (unat off + unat b) (cum + unat b) (build_deltas (running + ucast b) raw)"
    using calculation by (intro Cons.IH) auto
  ultimately show ?case using Cons.prems e by (simp add: Let_def)
qed simp

lemma deleted_in_build: "deleted_in (build_deltas running raw) = span_set raw"
  by (induction running raw rule: build_deltas.induct) (auto simp: deleted_in_def span_set_def Let_def)

lemma new_wf:
  assumes "spans_ok 0 raw"
  shows "\<exists>s. SectionRelaxDeltas_new raw = Some s \<and> deltas_wf s \<and> deleted s = span_set raw"
  using assms build_deltas_wf [of 0 raw 0 0]
  by (simp add: SectionRelaxDeltas_new_def spans_ok_windows deltas_wf_def deleted_def deleted_in_build)

lemma deleted_raw: "deleted s = span_set (raw_of s)"
  by (auto simp: deleted_def deleted_in_def raw_of_def span_set_def)

text \<open>
  C34. Merging deletions that overlap neither each other nor the existing ones gives well-formed
  deltas again, and they delete exactly the old and the new offsets.
\<close>

theorem merge_additional_wf:
  assumes "deltas_wf s" and "spans_ok 0 (sort_key fst (raw_of s @ additional))"
  shows "\<exists>s'. merge_additional s additional = Some s' \<and> deltas_wf s' \<and>
    deleted s' = deleted s \<union> span_set additional"
proof (cases "additional = []")
  case True
  with assms(1) show ?thesis by (simp add: merge_additional_def span_set_def)
next
  case False
  have "span_set (sort_key fst (raw_of s @ additional)) = deleted s \<union> span_set additional"
    unfolding deleted_raw by (auto simp: span_set_def)
  with False new_wf [OF assms(2)] spans_ok_windows [OF assms(2)] show ?thesis
    by (simp add: merge_additional_def raw_of_def)
qed

subsection \<open>Translation\<close>

text \<open>The cumulative count that a partition point selects.\<close>

fun cum_at :: "u64 \<Rightarrow> (relax_delta \<Rightarrow> bool) \<Rightarrow> relax_delta list \<Rightarrow> u64" where
  "cum_at c P [] = c"
| "cum_at c P (d # ds) = (if P d then cum_at (cumulative_deleted d) P ds else c)"

lemma cum_at_takeWhile:
  "cum_at c P ds =
     (if takeWhile P ds = [] then c else cumulative_deleted (ds ! (length (takeWhile P ds) - 1)))"
proof (induction ds arbitrary: c)
  case (Cons d ds)
  then show ?case by (cases "takeWhile P ds = []") (auto simp: nth_Cons' split: if_splits)
qed simp

lemma wf_from_sorted: "wf_from pos cum ds \<Longrightarrow> sorted_wrt (<) (map input_offset ds) \<and> (\<forall>d \<in> set ds. pos \<le> d_off d)"
proof (induction ds arbitrary: pos cum)
  case (Cons d ds)
  then have "sorted_wrt (<) (map input_offset ds)" and ge: "\<And>e. e \<in> set ds \<Longrightarrow> d_off d + d_len d \<le> d_off e"
    and "0 < d_len d" "pos \<le> d_off d"
    by auto
  moreover from this have "input_offset d < input_offset e" "pos \<le> d_off e" if "e \<in> set ds" for e
    using ge [OF that] by (auto simp: word_less_nat_alt)
  ultimately show ?case by simp
qed simp

lemma deleted_in_Cons: "deleted_in (d # ds) = {d_off d ..< d_off d + d_len d} \<union> deleted_in ds"
  by (simp add: deleted_in_def)

lemma deleted_in_ge: "wf_from pos cum ds \<Longrightarrow> x \<in> deleted_in ds \<Longrightarrow> pos \<le> x"
  using wf_from_sorted [of pos cum ds] by (force simp: deleted_in_def)

lemma card_deleted_Cons:
  assumes "wf_from pos cum (d # ds)" and "d_off d + d_len d \<le> x"
  shows "card (deleted_in (d # ds) \<inter> {..<x}) = d_len d + card (deleted_in ds \<inter> {..<x})"
proof -
  have "deleted_in (d # ds) \<inter> {..<x} = {d_off d ..< d_off d + d_len d} \<union> (deleted_in ds \<inter> {..<x})"
    using assms(2) by (auto simp: deleted_in_Cons)
  moreover have "{d_off d ..< d_off d + d_len d} \<inter> (deleted_in ds \<inter> {..<x}) = {}"
    using assms(1) deleted_in_ge [of "d_off d + d_len d" "d_cum d" ds] by fastforce
  ultimately show ?thesis by (simp add: card_Un_disjoint)
qed

lemma card_deleted_before: "wf_from pos cum ds \<Longrightarrow> x \<le> pos \<Longrightarrow> deleted_in ds \<inter> {..<x} = {}"
  using deleted_in_ge [of pos cum ds] by fastforce

text \<open>An offset strictly inside a deletion has no output position.\<close>

definition interior :: "relax_delta list \<Rightarrow> nat \<Rightarrow> bool" where
  "interior ds x \<longleftrightarrow> (\<exists>d \<in> set ds. d_off d < x \<and> x < d_off d + d_len d)"

lemma cum_at_before:
  assumes "wf_from pos cum ds" and "unat c = cum" and "\<not> interior ds (unat x)"
  shows "unat (cum_at c (\<lambda>d. input_offset d < x) ds) = cum + card (deleted_in ds \<inter> {..<unat x})"
  using assms
proof (induction ds arbitrary: pos cum c)
  case (Cons d ds)
  show ?case
  proof (cases "input_offset d < x")
    case True
    then have le: "d_off d + d_len d \<le> unat x"
      using Cons.prems(3) by (auto simp: interior_def word_less_nat_alt)
    from Cons.prems have "unat (cum_at (cumulative_deleted d) (\<lambda>d. input_offset d < x) ds)
        = d_cum d + card (deleted_in ds \<inter> {..<unat x})"
      by (intro Cons.IH) (auto simp: interior_def)
    with True Cons.prems(1) card_deleted_Cons [OF Cons.prems(1) le] show ?thesis by simp
  next
    case False
    then have "unat x \<le> d_off d" by (simp add: word_less_nat_alt)
    moreover have "wf_from (d_off d) cum (d # ds)" using Cons.prems(1) by auto
    ultimately have "deleted_in (d # ds) \<inter> {..<unat x} = {}"
      using card_deleted_before by blast
    with False Cons.prems(2) show ?thesis by simp
  qed
qed (simp add: deleted_in_def)

lemma input_to_output_cum:
  assumes "deltas_wf s"
  shows "input_to_output_offset s x = x - cum_at 0 (\<lambda>d. input_offset d < x) (deltas s)"
  using assms std_search.part_less [of input_offset "deltas s" x] wf_from_sorted [of 0 0 "deltas s"]
  by (simp add: input_to_output_offset_def deltas_wf_def cum_at_takeWhile)

lemma input_to_output_rank:
  assumes "deltas_wf s" and "\<not> interior (deltas s) (unat x)"
  shows "unat (input_to_output_offset s x) = rank (deleted s) (unat x)"
proof -
  have c: "unat (cum_at 0 (\<lambda>d. input_offset d < x) (deltas s)) = card (deleted s \<inter> {..<unat x})"
    using cum_at_before [of 0 0 "deltas s" 0 x] assms by (simp add: deltas_wf_def deleted_def)
  have sum: "rank (deleted s) (unat x) + card (deleted s \<inter> {..<unat x}) = unat x"
    by (rule rank_plus_card)
  then have "cum_at 0 (\<lambda>d. input_offset d < x) (deltas s) \<le> x"
    using c by (simp add: word_le_nat_alt)
  then show ?thesis using c sum by (simp add: input_to_output_cum [OF assms(1)] unat_sub)
qed

text \<open>Translating back: the key of a deletion is the output position of its end.\<close>

definition out_end :: "relax_delta \<Rightarrow> u64" where
  "out_end d = input_offset d + ucast (bytes_deleted d) - cumulative_deleted d"

lemma unat_out_end:
  assumes "wf_from pos cum (d # ds)" and "cum \<le> pos"
  shows "unat (out_end d) = d_off d + d_len d - d_cum d" and "d_cum d \<le> d_off d + d_len d"
proof -
  show le: "d_cum d \<le> d_off d + d_len d" using assms by simp
  have sum: "unat (input_offset d + ucast (bytes_deleted d)) = d_off d + d_len d"
    using assms by (simp add: unat_word_ariths)
  with le have "cumulative_deleted d \<le> input_offset d + ucast (bytes_deleted d)"
    by (simp add: word_le_nat_alt)
  then show "unat (out_end d) = d_off d + d_len d - d_cum d"
    by (simp add: out_end_def unat_sub sum)
qed

lemma out_end_sorted:
  assumes "wf_from pos cum ds" and "cum \<le> pos"
  shows "sorted_wrt (\<le>) (map out_end ds) \<and> (\<forall>d \<in> set ds. pos - cum \<le> unat (out_end d))"
  using assms
proof (induction ds arbitrary: pos cum)
  case (Cons d ds)
  note e = unat_out_end [OF Cons.prems]
  from Cons.prems have "sorted_wrt (\<le>) (map out_end ds)"
      and ge: "\<And>e. e \<in> set ds \<Longrightarrow> d_off d + d_len d - d_cum d \<le> unat (out_end e)"
    using Cons.IH [of "d_off d + d_len d" "d_cum d"] by auto
  moreover have "pos - cum \<le> unat (out_end d)" using e Cons.prems by auto
  moreover from this have "out_end d \<le> out_end e" "pos - cum \<le> unat (out_end e)" if "e \<in> set ds" for e
    using ge [OF that] e(1) by (simp_all add: word_le_nat_alt)
  ultimately show ?case by simp
qed simp

lemma output_to_input_cum:
  assumes "deltas_wf s"
  shows "output_to_input_offset s y = y + cum_at 0 (\<lambda>d. out_end d \<le> y) (deltas s)"
proof -
  have sorted: "sorted_wrt (\<le>) (map out_end (deltas s))"
    using out_end_sorted [of 0 0 "deltas s"] assms by (simp add: deltas_wf_def)
  have "partition_point (\<lambda>d. out_end d \<le> y) (deltas s) = length (takeWhile (\<lambda>d. out_end d \<le> y) (deltas s))"
  proof (rule std_search.part_eq)
    fix i j assume "i < j" "j < length (deltas s)" "out_end (deltas s ! j) \<le> y"
    moreover from this have "out_end (deltas s ! i) \<le> out_end (deltas s ! j)"
      using sorted_wrt_nth_less [OF sorted, of i j] by simp
    ultimately show "out_end (deltas s ! i) \<le> y" by simp
  qed
  then show ?thesis
    by (simp add: output_to_input_offset_def cum_at_takeWhile flip: out_end_def)
qed

text \<open>The offset that the translation selects, without the bound of 64 bits.\<close>

lemma cum_at_select:
  assumes "wf_from pos cum ds" and "cum \<le> pos" and "unat c = cum" and "pos \<le> unat y + cum"
  defines "r \<equiv> unat y + unat (cum_at c (\<lambda>d. out_end d \<le> y) ds)"
  shows "r \<notin> deleted_in ds \<and> pos \<le> r \<and>
    unat (cum_at c (\<lambda>d. out_end d \<le> y) ds) = cum + card (deleted_in ds \<inter> {..<r})"
  unfolding r_def using assms(1-4)
proof (induction ds arbitrary: pos cum c)
  case (Cons d ds)
  note e = unat_out_end [OF Cons.prems(1,2)]
  show ?case
  proof (cases "out_end d \<le> y")
    case True
    let ?c = "cum_at (cumulative_deleted d) (\<lambda>d. out_end d \<le> y) ds"
    let ?r = "unat y + unat ?c"
    from True have le: "d_off d + d_len d \<le> unat y + d_cum d" using e by (simp add: word_le_nat_alt)
    have ih: "?r \<notin> deleted_in ds \<and> d_off d + d_len d \<le> ?r \<and>
        unat ?c = d_cum d + card (deleted_in ds \<inter> {..<?r})"
      using Cons.prems e le by (intro Cons.IH) auto
    then have "card (deleted_in (d # ds) \<inter> {..<?r}) = d_len d + card (deleted_in ds \<inter> {..<?r})"
      by (intro card_deleted_Cons [OF Cons.prems(1)]) simp
    with ih True Cons.prems(1) show ?thesis by (auto simp: deleted_in_Cons)
  next
    case False
    then have "unat y + cum < d_off d" using e Cons.prems(1) by (simp add: word_le_nat_alt)
    moreover have "wf_from (d_off d) cum (d # ds)" using Cons.prems(1) by auto
    ultimately have "deleted_in (d # ds) \<inter> {..<unat y + cum} = {}" "unat y + cum \<notin> deleted_in (d # ds)"
      using card_deleted_before [of "d_off d" cum "d # ds"] deleted_in_ge [of "d_off d" cum "d # ds"] by fastforce+
    with False Cons.prems(3,4) show ?thesis by simp
  qed
qed (simp add: deleted_in_def)

lemma output_to_input_select:
  fixes y :: u64
  assumes "deltas_wf s"
  defines "r \<equiv> unat y + unat (cum_at 0 (\<lambda>d. out_end d \<le> y) (deltas s))"
  shows "r \<notin> deleted s" and "rank (deleted s) r = unat y"
    and "r < 2 ^ 64 \<Longrightarrow> unat (output_to_input_offset s y) = r"
proof -
  have sel: "r \<notin> deleted s \<and> r = unat y + card (deleted s \<inter> {..<r})"
    using cum_at_select [of 0 0 "deltas s" 0 y] assms by (simp add: deltas_wf_def deleted_def)
  then show "r \<notin> deleted s" by simp
  show "rank (deleted s) r = unat y" using rank_plus_card [of "deleted s" r] sel by linarith
  show "r < 2 ^ 64 \<Longrightarrow> unat (output_to_input_offset s y) = r"
    by (simp add: output_to_input_cum [OF assms(1)] r_def unat_word_ariths)
qed

lemma deltas_sorted: "deltas_wf s \<Longrightarrow> sorted_wrt (<) (map input_offset (deltas s))"
  using wf_from_sorted [of 0 0 "deltas s"] by (simp add: deltas_wf_def)

lemma wf_from_mem: "wf_from pos cum ds \<Longrightarrow> d \<in> set ds \<Longrightarrow> 0 < d_len d \<and> d_off d + d_len d < 2 ^ 64"
  by (induction ds arbitrary: pos cum) auto

lemma delta_start_deleted: "deltas_wf s \<Longrightarrow> d \<in> set (deltas s) \<Longrightarrow> d_off d \<in> deleted s"
  using wf_from_mem [of 0 0 "deltas s" d] by (auto simp: deltas_wf_def deleted_def deleted_in_def)

lemma has_delta_at_iff: "deltas_wf s \<Longrightarrow> has_delta_at s x \<longleftrightarrow> x \<in> input_offset ` set (deltas s)"
  by (rule std_search.search_cases [OF deltas_sorted, of s x]) (auto simp: has_delta_at_def)

lemma cum_at_le_last:
  "wf_from pos cum ds \<Longrightarrow> unat c = cum \<Longrightarrow>
   unat (cum_at c P ds) \<le> (if ds = [] then cum else d_cum (last ds)) \<and>
   cum \<le> (if ds = [] then cum else d_cum (last ds))"
proof (induction ds arbitrary: pos cum c)
  case (Cons d ds)
  then have "unat (cum_at (cumulative_deleted d) P ds) \<le> (if ds = [] then d_cum d else d_cum (last ds)) \<and>
      d_cum d \<le> (if ds = [] then d_cum d else d_cum (last ds))"
    by (intro Cons.IH) auto
  with Cons.prems show ?case by auto
qed simp

lemma not_interior: "x \<notin> deleted s \<Longrightarrow> \<not> interior (deltas s) x"
  by (force simp: interior_def deleted_def deleted_in_def)

text \<open>
  C2. The output offset of an input offset is the number of kept input bytes before it, for every
  offset that is kept or starts a deletion; no subtraction wraps. So the translation is strictly
  increasing on kept offsets: it compacts the section without overlap or gap.
\<close>

theorem input_to_output_is_rank:
  assumes "deltas_wf s" and "\<not> interior (deltas s) (unat x)"
  shows "unat (input_to_output_offset s x) = rank (deleted s) (unat x)
    \<and> (\<forall>x'. x < x' \<and> \<not> interior (deltas s) (unat x') \<and> unat x \<notin> deleted s
         \<longrightarrow> input_to_output_offset s x < input_to_output_offset s x')"
  using input_to_output_rank [OF assms(1)] assms(2) rank_strict_mono [of "unat x" _ "deleted s"]
  by (auto simp: word_less_nat_alt)

text \<open>
  C1. The two translations are inverse: going from a kept input offset to the output and back
  gives the offset again.
\<close>

theorem relax_offset_roundtrip:
  assumes "deltas_wf s" and "unat x \<notin> deleted s"
  shows "output_to_input_offset s (input_to_output_offset s x) = x"
proof -
  let ?y = "input_to_output_offset s x"
  let ?r = "unat ?y + unat (cum_at 0 (\<lambda>d. out_end d \<le> ?y) (deltas s))"
  note sel = output_to_input_select [OF assms(1), of ?y]
  have "rank (deleted s) ?r = rank (deleted s) (unat x)"
    using sel(2) input_to_output_rank [OF assms(1) not_interior [OF assms(2)]] by simp
  then have "?r = unat x" using rank_inj sel(1) assms(2) by metis
  moreover have "unat x < 2 ^ 64" using unsigned_less [of x, where 'a = nat] by simp
  ultimately have "unat (output_to_input_offset s ?y) = unat x" using sel(3) by simp
  then show ?thesis by (simp add: word_unat_eq_iff)
qed

lemma output_to_input_kept_lemma:
  assumes "deltas_wf s" and "unat y + unat (total_deleted s) < 2 ^ 64"
  shows "unat (output_to_input_offset s y) \<notin> deleted s
    \<and> rank (deleted s) (unat (output_to_input_offset s y)) = unat y"
proof -
  have "unat (cum_at 0 (\<lambda>d. out_end d \<le> y) (deltas s)) \<le> unat (total_deleted s)"
    using cum_at_le_last [of 0 0 "deltas s" 0 "\<lambda>d. out_end d \<le> y"] assms(1)
    by (auto simp: deltas_wf_def total_deleted_def)
  with output_to_input_select [OF assms(1), of y] assms(2) show ?thesis by simp
qed

lemma output_to_input_no_delta:
  assumes "deltas_wf s" and "unat y + unat (total_deleted s) < 2 ^ 64"
  shows "\<not> has_delta_at s (output_to_input_offset s y)"
  using output_to_input_kept_lemma [OF assms] delta_start_deleted [OF assms(1)]
  by (auto simp: has_delta_at_iff [OF assms(1)])

text \<open>
  From the output back to the input: the result is never a deleted offset, and translating it
  forward gives the output offset again, as long as the input offset fits in 64 bits.
\<close>

lemma output_to_input_kept:
  assumes "deltas_wf s" and "unat y + unat (total_deleted s) < 2 ^ 64"
  shows "unat (output_to_input_offset s y) \<notin> deleted s
    \<and> input_to_output_offset s (output_to_input_offset s y) = y"
proof -
  have kept: "unat (output_to_input_offset s y) \<notin> deleted s"
    and rank: "rank (deleted s) (unat (output_to_input_offset s y)) = unat y"
    using output_to_input_kept_lemma [OF assms] by simp_all
  have "unat (input_to_output_offset s (output_to_input_offset s y)) = unat y"
    using input_to_output_rank [OF assms(1) not_interior [OF kept]] rank by simp
  with kept show ?thesis by (simp add: word_unat_eq_iff)
qed

subsection \<open>Queries\<close>

lemma takeWhile_last_nth:
  "takeWhile P ds \<noteq> [] \<Longrightarrow> ds ! (length (takeWhile P ds) - 1) = last (takeWhile P ds)"
  using takeWhile_nth [of "length (takeWhile P ds) - 1" P ds] by (simp add: last_conv_nth)

lemma deleted_in_last:
  assumes "wf_from pos cum ds"
  shows "unat x \<in> deleted_in ds \<longleftrightarrow>
    (let t = takeWhile (\<lambda>d. input_offset d \<le> x) ds in
     t \<noteq> [] \<and> unat x < d_off (last t) + d_len (last t))"
  using assms
proof (induction ds arbitrary: pos cum)
  case (Cons d ds)
  let ?P = "\<lambda>d. input_offset d \<le> x"
  have wf: "wf_from (d_off d + d_len d) (d_cum d) ds" using Cons.prems by auto
  show ?case
  proof (cases "?P d")
    case False
    then have "unat x < d_off d" by (simp add: word_le_nat_alt)
    then have "unat x \<notin> deleted_in (d # ds)"
      using deleted_in_ge [of "d_off d" cum "d # ds" "unat x"] Cons.prems by auto
    with False show ?thesis by simp
  next
    case True
    show ?thesis
    proof (cases "takeWhile ?P ds = []")
      case empty: True
      have "unat x \<notin> deleted_in ds" using Cons.IH [OF wf] empty by simp
      with True empty show ?thesis by (auto simp: deleted_in_Cons word_le_nat_alt)
    next
      case False
      then have "hd ds \<in> set ds" "?P (hd ds)" by (cases ds; auto split: if_splits)+
      then have "d_off d + d_len d \<le> unat x"
        using wf_from_sorted [OF wf] by (force simp: word_le_nat_alt)
      with True False Cons.IH [OF wf] show ?thesis by (auto simp: deleted_in_Cons Let_def)
    qed
  qed
qed (simp add: deleted_in_def)

text \<open>
  The point queries agree with the set of deleted offsets: \<^verbatim>\<open>deletes_input_offset\<close> is membership,
  \<^verbatim>\<open>has_delta_at\<close> holds at the starts of deletions, and \<^verbatim>\<open>delta_bytes_at\<close> is their length there
  and zero elsewhere.
\<close>

lemma relax_queries_correct:
  assumes "deltas_wf s"
  shows "(deletes_input_offset s x \<longleftrightarrow> unat x \<in> deleted s)
    \<and> (has_delta_at s x \<longleftrightarrow> (\<exists>d \<in> set (deltas s). input_offset d = x))
    \<and> (\<forall>d \<in> set (deltas s). delta_bytes_at s (input_offset d) = bytes_deleted d)
    \<and> (\<not> has_delta_at s x \<longrightarrow> delta_bytes_at s x = 0)"
proof (intro conjI ballI impI)
  let ?t = "takeWhile (\<lambda>d. input_offset d \<le> x) (deltas s)"
  have wf: "wf_from 0 0 (deltas s)" using assms by (simp add: deltas_wf_def)
  have pp: "partition_point (\<lambda>d. input_offset d \<le> x) (deltas s) = length ?t"
    by (rule std_search.part_le [OF deltas_sorted [OF assms]])
  have "x < input_offset (last ?t) + ucast (bytes_deleted (last ?t)) \<longleftrightarrow>
      unat x < d_off (last ?t) + d_len (last ?t)" if "?t \<noteq> []"
  proof -
    have "last ?t \<in> set (deltas s)" using that by (metis last_in_set set_takeWhileD)
    with wf_from_mem [OF wf] show ?thesis by (simp add: word_less_nat_alt unat_word_ariths)
  qed
  then show "deletes_input_offset s x \<longleftrightarrow> unat x \<in> deleted s"
    using deleted_in_last [OF wf, of x] takeWhile_last_nth [of "\<lambda>d. input_offset d \<le> x" "deltas s"]
    by (auto simp: deletes_input_offset_def pp deleted_def Let_def)
next
  show "has_delta_at s x \<longleftrightarrow> (\<exists>d \<in> set (deltas s). input_offset d = x)"
    by (auto simp: has_delta_at_iff [OF assms])
next
  fix d assume d: "d \<in> set (deltas s)"
  show "delta_bytes_at s (input_offset d) = bytes_deleted d"
  proof (rule std_search.search_cases [OF deltas_sorted [OF assms], of "input_offset d"])
    fix i assume i: "binary_search_by_key (input_offset d) input_offset (deltas s) = Inr i"
      "i < length (deltas s)" "input_offset (deltas s ! i) = input_offset d"
    have "distinct (map input_offset (deltas s))"
      using deltas_sorted [OF assms] strict_sorted_iff by blast
    then have "deltas s ! i = d" using i(2,3) d by (simp add: distinct_map inj_on_def)
    with i(1) show ?thesis by (simp add: delta_bytes_at_def)
  qed (use d in auto)
next
  assume "\<not> has_delta_at s x"
  then show "delta_bytes_at s x = 0"
    by (cases "binary_search_by_key x input_offset (deltas s)") (simp_all add: has_delta_at_def delta_bytes_at_def)
qed

subsection \<open>Cursors\<close>

fun run_cursor :: "relax_cursor \<Rightarrow> u64 list \<Rightarrow> u64 list" where
  "run_cursor c [] = []"
| "run_cursor c (x # xs) = (let (c', y) = translate c x in y # run_cursor c' xs)"

definition cursor_at :: "relax_delta list \<Rightarrow> nat \<Rightarrow> relax_cursor" where
  "cursor_at ds k =
     \<lparr>cursor_deltas = ds, index = k, current_cumulative = (if k = 0 then 0 else cumulative_deleted (ds ! (k - 1)))\<rparr>"

lemma advance_cursor_at:
  assumes "k \<le> length (takeWhile (\<lambda>d. input_offset d < x) ds)"
  shows "advance x (cursor_at ds k) = cursor_at ds (length (takeWhile (\<lambda>d. input_offset d < x) ds))"
  using assms
proof (induction "length (takeWhile (\<lambda>d. input_offset d < x) ds) - k" arbitrary: k)
  case 0
  let ?n = "length (takeWhile (\<lambda>d. input_offset d < x) ds)"
  from 0 have "k = ?n" by simp
  moreover have "\<not> (?n < length ds \<and> input_offset (ds ! ?n) < x)"
    using nth_length_takeWhile [of "\<lambda>d. input_offset d < x" ds] by auto
  ultimately have "\<not> (index (cursor_at ds k) < length (cursor_deltas (cursor_at ds k)) \<and>
      input_offset (cursor_deltas (cursor_at ds k) ! index (cursor_at ds k)) < x)"
    by (simp add: cursor_at_def)
  then have "advance x (cursor_at ds k) = cursor_at ds k" by (subst advance.simps) (simp only: if_False)
  with \<open>k = ?n\<close> show ?case by simp
next
  case (Suc m)
  let ?P = "\<lambda>d. input_offset d < x"
  have k: "k < length (takeWhile ?P ds)" using Suc by simp
  then have "k < length ds" using length_takeWhile_le [of ?P ds] by simp
  moreover have "?P (ds ! k)"
    using nth_mem [OF k] takeWhile_nth [OF k] by (auto dest: set_takeWhileD)
  ultimately have "advance x (cursor_at ds k) = advance x (cursor_at ds (k + 1))"
    by (subst advance.simps) (simp add: cursor_at_def)
  also have "\<dots> = cursor_at ds (length (takeWhile ?P ds))" using Suc k by (intro Suc.hyps) auto
  finally show ?case .
qed

lemma takeWhile_length_mono:
  "(\<And>d. P d \<Longrightarrow> Q d) \<Longrightarrow> length (takeWhile P ds) \<le> length (takeWhile Q ds)"
  by (induction ds) auto

lemma run_cursor_from:
  assumes "deltas_wf s" and "sorted xs" and "\<forall>x \<in> set xs. k \<le> length (takeWhile (\<lambda>d. input_offset d < x) (deltas s))"
  shows "run_cursor (cursor_at (deltas s) k) xs = map (input_to_output_offset s) xs"
  using assms(2,3)
proof (induction xs arbitrary: k)
  case (Cons x xs)
  let ?n = "length (takeWhile (\<lambda>d. input_offset d < x) (deltas s))"
  have adv: "advance x (cursor_at (deltas s) k) = cursor_at (deltas s) ?n"
    using Cons.prems by (intro advance_cursor_at) auto
  have "x - current_cumulative (cursor_at (deltas s) ?n) = input_to_output_offset s x"
    by (simp add: input_to_output_cum [OF assms(1)] cum_at_takeWhile cursor_at_def)
  moreover have "run_cursor (cursor_at (deltas s) ?n) xs = map (input_to_output_offset s) xs"
    using Cons.prems by (intro Cons.IH) (auto intro!: takeWhile_length_mono dest: less_le_trans)
  ultimately show ?case by (simp add: translate_def adv)
qed simp

text \<open>
  C33. A cursor that is asked for ascending offsets gives the same answers as the search in the
  whole table, for every sequence of queries.
\<close>

theorem relax_cursor_equivalent:
  assumes "deltas_wf s" and "sorted xs"
  shows "run_cursor (cursor s) xs = map (input_to_output_offset s) xs"
  using run_cursor_from [OF assms, of 0] by (simp add: cursor_def cursor_at_def)

subsection \<open>The map\<close>

definition map_wf :: "relax_delta_map \<Rightarrow> bool" where
  "map_wf m \<longleftrightarrow> sorted_wrt (<) (map fst (entries m))"

lemma map_wf_distinct: "map_wf m \<Longrightarrow> distinct (map fst (entries m))"
  unfolding map_wf_def using strict_sorted_iff by blast

lemma get_map_of: "map_wf m \<Longrightarrow> RelaxDeltaMap_get m = map_of (entries m)"
proof (rule ext)
  fix i
  assume wf: "map_wf m"
  show "RelaxDeltaMap_get m i = map_of (entries m) i"
  proof (rule std_search.search_cases [OF wf [unfolded map_wf_def], of i])
    fix p assume p: "binary_search_by_key i fst (entries m) = Inr p" "p < length (entries m)" "fst (entries m ! p) = i"
    have "map_of (entries m) (fst (entries m ! p)) = Some (snd (entries m ! p))"
      by (rule map_of_is_SomeI [OF map_wf_distinct [OF wf]]) (simp only: prod.collapse nth_mem [OF p(2)])
    with p show ?thesis by (simp add: RelaxDeltaMap_get_def)
  next
    fix p assume "binary_search_by_key i fst (entries m) = Inl p" "i \<notin> fst ` set (entries m)"
    then show ?thesis using map_of_eq_None_iff [of "entries m" i] by (simp add: RelaxDeltaMap_get_def)
  qed
qed

lemma insert_sorted_split:
  fixes i :: nat
  assumes wf: "map_wf m"
  defines "pos \<equiv> partition_point (\<lambda>e. fst e < i) (entries m)"
  shows "length (entries m) \<le> pos \<or> fst (entries m ! pos) \<noteq> i \<longleftrightarrow> RelaxDeltaMap_get m i = None"
proof -
  let ?t = "takeWhile (\<lambda>e. fst e < i) (entries m)"
  have pos: "pos = length ?t"
    unfolding pos_def by (rule std_search.part_less [OF wf [unfolded map_wf_def]])
  have "i \<in> fst ` set (entries m) \<longleftrightarrow> pos < length (entries m) \<and> fst (entries m ! pos) = i"
  proof
    assume "i \<in> fst ` set (entries m)"
    then obtain p where p: "p < length (entries m)" "fst (entries m ! p) = i" by (metis imageE in_set_conv_nth)
    have "pos = p"
    proof (rule linorder_cases [of pos p])
      assume lt: "pos < p"
      then have "fst (entries m ! pos) < i" using key_less [OF wf [unfolded map_wf_def] lt p(1)] p(2) by simp
      moreover have "pos < length (entries m)" using lt p by simp
      ultimately show ?thesis using nth_length_takeWhile [of "\<lambda>e. fst e < i" "entries m"] pos by simp
    next
      assume "p < pos"
      then show ?thesis
        using nth_mem [of p ?t] takeWhile_nth [of p "\<lambda>e. fst e < i" "entries m"] p pos
        by (auto dest!: set_takeWhileD)
    qed
    with p show "pos < length (entries m) \<and> fst (entries m ! pos) = i" by simp
  qed force
  then show ?thesis by (auto simp: get_map_of [OF wf] map_of_eq_None_iff)
qed

lemma map_of_insert_mid:
  "i \<notin> fst ` set a \<Longrightarrow> map_of (a @ (i, w) # b) = (map_of (a @ b))(i \<mapsto> w)"
  unfolding map_of_eq_None_iff [symmetric] by (rule ext) (auto simp: map_add_def split: option.splits)

lemma map_of_replace_mid:
  "i \<notin> fst ` set a \<Longrightarrow> map_of (a @ (i, w) # b) = (map_of (a @ (i, v) # b))(i \<mapsto> w)"
  unfolding map_of_eq_None_iff [symmetric] by (rule ext) (auto simp: map_add_def split: option.splits)

lemma insert_sorted_law:
  assumes "map_wf m"
  shows "case RelaxDeltaMap_insert_sorted i ds m of
       None \<Rightarrow> RelaxDeltaMap_get m i \<noteq> None
     | Some m' \<Rightarrow> map_wf m' \<and> RelaxDeltaMap_get m i = None \<and>
         RelaxDeltaMap_get m' = (RelaxDeltaMap_get m)(i \<mapsto> ds)"
proof (cases "RelaxDeltaMap_get m i = None")
  case True
  let ?p = "partition_point (\<lambda>e. fst e < i) (entries m)"
  let ?m = "m\<lparr>entries := take ?p (entries m) @ (i, ds) # drop ?p (entries m)\<rparr>"
  have ins: "RelaxDeltaMap_insert_sorted i ds m = Some ?m"
    using insert_sorted_split [OF assms, of i] True by (simp add: RelaxDeltaMap_insert_sorted_def Let_def)
  have fresh: "i \<notin> fst ` set (entries m)" using True assms by (simp add: get_map_of map_of_eq_None_iff)
  have wf: "map_wf ?m"
    using std_search.insert_at_part_sorted [of fst "entries m" "(i, ds)"] assms fresh by (simp add: map_wf_def)
  have "i \<notin> fst ` set (take ?p (entries m))" using fresh set_take_subset [of ?p "entries m"] by blast
  then have "map_of (entries ?m) = (map_of (entries m))(i \<mapsto> ds)"
    using map_of_insert_mid [of i "take ?p (entries m)" ds "drop ?p (entries m)"] by simp
  with ins wf True show ?thesis by (simp add: get_map_of assms)
next
  case False
  then have "RelaxDeltaMap_insert_sorted i ds m = None"
    using insert_sorted_split [OF assms, of i] by (simp add: RelaxDeltaMap_insert_sorted_def Let_def)
  with False show ?thesis by simp
qed

lemma insert_last_law:
  assumes "map_wf m" and "RelaxDeltaMap_insert i ds m = Some m'"
  shows "map_wf m' \<and> RelaxDeltaMap_get m' = (RelaxDeltaMap_get m)(i \<mapsto> ds)"
proof -
  have m': "m' = m\<lparr>entries := entries m @ [(i, ds)]\<rparr>" and last: "entries m = [] \<or> fst (last (entries m)) < i"
    using assms(2) by (auto simp: RelaxDeltaMap_insert_def split: if_splits)
  have below: "fst e < i" if e: "e \<in> set (entries m)" for e
  proof -
    obtain p where p: "p < length (entries m)" "entries m ! p = e" using e by (metis in_set_conv_nth)
    have ne: "entries m \<noteq> []" using e by auto
    have "fst e \<le> fst (entries m ! (length (entries m) - 1))"
    proof (cases "p = length (entries m) - 1")
      case False
      then have "p < length (entries m) - 1" using p by simp
      then show ?thesis
        using key_less [OF assms(1) [unfolded map_wf_def], of p "length (entries m) - 1"] p ne by force
    qed (use p in simp)
    then have "fst e \<le> fst (last (entries m))" by (simp add: last_conv_nth [OF ne])
    with last p show ?thesis by auto
  qed
  have wf: "map_wf m'" using assms(1) below by (auto simp: map_wf_def m' sorted_wrt_append)
  have "i \<notin> fst ` set (entries m)" using below by force
  then have "map_of (entries m') = (map_of (entries m))(i \<mapsto> ds)"
    using map_of_insert_mid [of i "entries m" ds "[]"] by (simp add: m')
  with wf show ?thesis by (simp add: get_map_of assms(1))
qed

lemma get_mut_law:
  assumes "map_wf m"
  shows "case RelaxDeltaMap_get_mut m i f of
         None \<Rightarrow> RelaxDeltaMap_get m i = None
       | Some m' \<Rightarrow> map_wf m' \<and>
           (\<exists>v. RelaxDeltaMap_get m i = Some v \<and> RelaxDeltaMap_get m' = (RelaxDeltaMap_get m)(i \<mapsto> f v))"
proof (rule std_search.search_cases [OF assms [unfolded map_wf_def], of i])
  fix p assume p: "binary_search_by_key i fst (entries m) = Inr p" "p < length (entries m)" "fst (entries m ! p) = i"
  let ?xs = "entries m" and ?v = "snd (entries m ! p)"
  let ?m = "m\<lparr>entries := ?xs[p := (i, f ?v)]\<rparr>"
  have "map fst (?xs[p := (i, f ?v)]) = map fst ?xs" using p(2,3) by (simp add: map_update list_update_same_conv)
  then have wf: "map_wf ?m" using assms by (simp add: map_wf_def)
  have split: "?xs = take p ?xs @ (i, ?v) # drop (Suc p) ?xs"
    using id_take_nth_drop [OF p(2)] p(3) by (metis prod.collapse)
  have "i \<notin> fst ` set (take p ?xs)"
    using map_wf_distinct [OF assms] by (subst (asm) split) auto
  then have "map_of (?xs[p := (i, f ?v)]) = (map_of ?xs)(i \<mapsto> f ?v)"
    using map_of_replace_mid [of i "take p ?xs" "f ?v" "drop (Suc p) ?xs" ?v] split p(2)
    by (simp add: upd_conv_take_nth_drop)
  then have "RelaxDeltaMap_get ?m = (RelaxDeltaMap_get m)(i \<mapsto> f ?v)" by (simp add: get_map_of wf assms)
  moreover have "RelaxDeltaMap_get m i = Some ?v" using p by (simp add: RelaxDeltaMap_get_def)
  moreover have "RelaxDeltaMap_get_mut m i f = Some ?m" using p by (simp add: RelaxDeltaMap_get_mut_def)
  ultimately show ?thesis using wf by simp
qed (simp add: RelaxDeltaMap_get_mut_def RelaxDeltaMap_get_def)

text \<open>
  C35. \<^verbatim>\<open>insert_sorted\<close> refuses an index that is present and otherwise gives a sorted map in which the
  new index is bound and every other lookup is unchanged; \<^verbatim>\<open>insert\<close> does the same at the end, and
  mutation through \<^verbatim>\<open>get_mut\<close> changes one binding.
\<close>

theorem relax_delta_map_laws:
  assumes "map_wf m"
  shows "(case RelaxDeltaMap_insert_sorted i ds m of
       None \<Rightarrow> RelaxDeltaMap_get m i \<noteq> None
     | Some m' \<Rightarrow> map_wf m' \<and> RelaxDeltaMap_get m i = None \<and>
         RelaxDeltaMap_get m' = (RelaxDeltaMap_get m)(i \<mapsto> ds))
    \<and> (\<forall>m'. RelaxDeltaMap_insert i ds m = Some m' \<longrightarrow>
         map_wf m' \<and> RelaxDeltaMap_get m' = (RelaxDeltaMap_get m)(i \<mapsto> ds))
    \<and> (case RelaxDeltaMap_get_mut m i f of
         None \<Rightarrow> RelaxDeltaMap_get m i = None
       | Some m' \<Rightarrow> map_wf m' \<and>
           (\<exists>v. RelaxDeltaMap_get m i = Some v \<and> RelaxDeltaMap_get m' = (RelaxDeltaMap_get m)(i \<mapsto> f v)))"
  using insert_sorted_law [OF assms] insert_last_law [OF assms] get_mut_law [OF assms] by blast

subsection \<open>Instances\<close>

text \<open>Two deletions, of four bytes at 4 and of two bytes at 12, as the \<^verbatim>\<open>new\<close> of the source builds them.\<close>

definition sample_deltas :: section_relax_deltas where
  "sample_deltas =
     \<lparr>deltas = [\<lparr>input_offset = 4, cumulative_deleted = 4, bytes_deleted = 4\<rparr>,
                \<lparr>input_offset = 12, cumulative_deleted = 6, bytes_deleted = 2\<rparr>]\<rparr>"

lemma sample_new: "SectionRelaxDeltas_new [(4, 4), (12, 2)] = Some sample_deltas"
  by (simp add: SectionRelaxDeltas_new_def sample_deltas_def)

lemma sample_wf [simp]: "deltas_wf sample_deltas"
  by (simp add: deltas_wf_def sample_deltas_def)

lemma sample_deleted [simp]: "deleted sample_deltas = {4..<8} \<union> {12..<14}"
  by (simp add: deleted_def deleted_in_def sample_deltas_def)

lemma sample_total [simp]: "total_deleted sample_deltas = 6"
  by (simp add: total_deleted_def sample_deltas_def)

lemma sample_interior [simp]: "interior (deltas sample_deltas) x \<longleftrightarrow> (4 < x \<and> x < 8) \<or> x = 13"
  by (auto simp: interior_def sample_deltas_def)

theorem merge_additional_wf_witness:
  "\<exists>s'. merge_additional sample_deltas [(8, 4)] = Some s' \<and> deltas_wf s' \<and>
     deleted s' = deleted sample_deltas \<union> span_set [(8, 4)]"
  by (rule merge_additional_wf) (simp_all add: raw_of_def sample_deltas_def deltas_wf_def sort_key_def insort_key_def)

theorem input_to_output_is_rank_witness:
  "unat (input_to_output_offset sample_deltas 9) = rank ({4..<8} \<union> {12..<14}) 9"
  using input_to_output_is_rank [of sample_deltas 9] by simp

theorem relax_offset_roundtrip_witness:
  "output_to_input_offset sample_deltas (input_to_output_offset sample_deltas 14) = 14"
  by (rule relax_offset_roundtrip) simp_all

lemma output_to_input_kept_witness:
  "input_to_output_offset sample_deltas (output_to_input_offset sample_deltas 4) = 4"
  using output_to_input_kept [of sample_deltas 4] by simp

lemma relax_queries_correct_witness:
  "deletes_input_offset sample_deltas 13 \<and> \<not> deletes_input_offset sample_deltas 8"
  using relax_queries_correct [of sample_deltas 13] relax_queries_correct [of sample_deltas 8] by simp

theorem relax_cursor_equivalent_witness:
  "run_cursor (cursor sample_deltas) [0, 4, 8, 8, 20] = map (input_to_output_offset sample_deltas) [0, 4, 8, 8, 20]"
  by (rule relax_cursor_equivalent) simp_all

theorem relax_delta_map_laws_witness:
  "\<exists>m'. RelaxDeltaMap_insert_sorted 3 sample_deltas \<lparr>entries = [(1, sample_deltas), (7, sample_deltas)]\<rparr> = Some m'
     \<and> map_wf m' \<and> RelaxDeltaMap_get m' 3 = Some sample_deltas"
proof -
  let ?m = "\<lparr>entries = [(1, sample_deltas), (7, sample_deltas)]\<rparr>"
  have wf: "map_wf ?m" by (simp add: map_wf_def)
  then have "RelaxDeltaMap_get ?m 3 = None" by (simp add: get_map_of)
  with relax_delta_map_laws [OF wf, of 3 sample_deltas id] show ?thesis
    by (auto split: option.splits)
qed

text \<open>
  Translating an offset strictly inside a deletion at the start of a section wraps below
  zero: the whole deletion counts as lying before the offset.
\<close>

lemma input_to_output_interior_wraps:
  "\<exists>s. SectionRelaxDeltas_new [(0, 4)] = Some s \<and> input_to_output_offset s 2 = - 2"
  by (simp add: SectionRelaxDeltas_new_def input_to_output_offset_def partition_point_def
      binary_search_by_def bs_loop_one)

end
