(* ===== verification/RiscV_Relax.thy ===== *)
theory RiscV_Relax
  imports Relax_Common Relax_Deltas RiscV_Write
begin

unbundle bit_operations_syntax

text \<open>
  RISC-V relaxation: the rewrites of \<^verbatim>\<open>linker-utils/src/riscv64.rs\<close> (\<^verbatim>\<open>RelaxationKind\<close>) and, from
  \<^verbatim>\<open>libsld/src/elf_riscv64.rs\<close>, the scan that finds bytes to delete (\<^verbatim>\<open>collect_relaxation_deltas\<close>) and
  the choice of the rewrite when relocations are applied (\<^verbatim>\<open>new_relaxation\<close>).

  The callback \<^verbatim>\<open>resolve_symbol\<close> is a parameter. A panic is \<open>None\<close>.
\<close>

subsection \<open>Rewrites\<close>

definition distance_fits_jal :: "i64 \<Rightarrow> bool" where
  "distance_fits_jal d \<longleftrightarrow> - (2 ^ 20) \<le> sint d \<and> sint d \<le> 2 ^ 20 - 1"

datatype riscv_relaxation_kind =
    RV_NoOp | RV_ReplaceWithNop | CallToJal | Hi20ToCLui | Hi20Delete | Lo12Rs1ToZero

definition riscv_apply :: "riscv_relaxation_kind \<Rightarrow> relax_state \<Rightarrow> relax_state option" where
  "riscv_apply k st =
     (case st of (bs, offset_in_section, addend) \<Rightarrow>
      let off = unat offset_in_section in
      map_option (\<lambda>b. (b, offset_in_section, addend))
        (case k of
           RV_NoOp \<Rightarrow> Some bs
         | RV_ReplaceWithNop \<Rightarrow> copy_from_slice off (off + 4) [0x01, 0, 0x01, 0] bs
         | CallToJal \<Rightarrow>
             Option.bind (Option.bind (slice_range off (length bs) bs) u32_from_slice) (\<lambda>auipc_word.
               let rd = drop_bit 7 auipc_word AND 0x1f;
                   jal_base = 0x6f OR push_bit 7 rd
               in copy_from_slice off (off + 4) (to_le_bytes 4 jal_base) bs)
         | Hi20ToCLui \<Rightarrow>
             Option.bind (get_at bs off) (\<lambda>b0.
             Option.bind (get_at bs (off + 1)) (\<lambda>b1.
               let lui_lo = (from_le_bytes [b0, b1] :: u16);
                   rd = drop_bit 7 lui_lo AND 0x1f;
                   clui_base = 0x6001 OR push_bit 7 rd
               in copy_from_slice off (off + 2) (to_le_bytes 2 clui_base) bs))
         | Hi20Delete \<Rightarrow> Some bs
         | Lo12Rs1ToZero \<Rightarrow>
             Option.bind (Option.bind (slice_range off (length bs) bs) u32_from_slice) (\<lambda>word.
               copy_from_slice off (off + 4) (to_le_bytes 4 (word AND NOT RS1_MASK)) bs)))"

fun riscv_next_modifier :: "riscv_relaxation_kind \<Rightarrow> relocation_modifier" where
  "riscv_next_modifier CallToJal = SkipNextRelocation"
| "riscv_next_modifier Hi20Delete = SkipNextRelocation"
| "riscv_next_modifier _ = Normal"

definition hi20_is_zero :: "u64 \<Rightarrow> bool" where
  "hi20_is_zero v \<longleftrightarrow> drop_bit 12 (v + 0x800) AND 0xfffff = 0"

text \<open>\<^verbatim>\<open>((hi20_signed as i8) << 2) >> 2\<close>, the second shift being arithmetic.\<close>

definition hi20_fits_clui :: "u64 \<Rightarrow> bool" where
  "hi20_fits_clui v =
     (let hi20_signed = drop_bit 12 (v + 0x800);
          as_6bit = signed_drop_bit 2 (push_bit 2 (ucast hi20_signed :: u8))
      in sint as_6bit = sint hi20_signed \<and> hi20_signed \<noteq> 0)"

definition rd_valid_for_clui :: "u32 \<Rightarrow> bool" where
  "rd_valid_for_clui rd \<longleftrightarrow> rd \<noteq> 0 \<and> rd \<noteq> 2"

definition clui_rel_info :: relocation_kind_info where
  "clui_rel_info =
     \<lparr>kind = RK_Absolute, size = bit_mask_riscv 0 32 RV_CluiType, page_mask = None,
      allowed = AllowedRange_new (- (2 ^ 31)) (2 ^ 32), alignment = 1, bias = 0, thunkable = False\<rparr>"

subsection \<open>Choosing a rewrite\<close>

definition word_at :: "bytes \<Rightarrow> nat \<Rightarrow> u32 option" where
  "word_at bs off = Option.bind (slice_range off (off + 4) bs) u32_from_slice"

definition is_jalr_deleted :: "bytes \<Rightarrow> nat \<Rightarrow> bool option" where
  "is_jalr_deleted bs off =
     (if (off + 8) mod 2 ^ 64 > length bs then Some True
      else
        Option.bind (word_at bs off) (\<lambda>auipc_word.
        Option.bind (word_at bs (off + 4)) (\<lambda>next_word.
          let auipc_rd = drop_bit 7 auipc_word AND 0x1f;
              is_jalr_with_matching_rs1 =
                next_word AND 0x7f = 0x67 \<and> drop_bit 15 next_word AND 0x1f = auipc_rd
          in Some (\<not> is_jalr_with_matching_rs1))))"

record riscv_relaxation =
  relax_kind :: riscv_relaxation_kind
  rel_info :: relocation_kind_info
  mandatory :: bool

definition rel_info_from_type :: "elf_consts \<Rightarrow> string \<Rightarrow> relocation_kind_info option" where
  "rel_info_from_type elf name = riscv_relocation_type_from_raw elf (elf name)"

text \<open>
  \<^verbatim>\<open>new_relaxation\<close>. The result is \<open>None\<close> for a panic, \<open>Some None\<close> for no relaxation. The flags are the
  values the code reads from its arguments: \<^verbatim>\<open>flags.is_interposable()\<close>,
  \<^verbatim>\<open>section_flags.contains(shf::EXECINSTR)\<close>, \<^verbatim>\<open>output_kind.is_static_executable()\<close>.
\<close>

definition riscv_new_relaxation ::
    "elf_consts \<Rightarrow> u32 \<Rightarrow> bytes \<Rightarrow> u64 \<Rightarrow> bool \<Rightarrow> bool \<Rightarrow> bool \<Rightarrow> bool \<Rightarrow> section_relax_deltas option
     \<Rightarrow> riscv_relaxation option option" where
  "riscv_new_relaxation elf relocation_kind section_bytes offset_in_section interposable execinstr
      static_exe non_zero_address relax_deltas =
     Option.bind (riscv_relocation_type_from_raw elf relocation_kind) (\<lambda>relocation.
       if \<not> execinstr then Some None
       else if (relocation_kind = elf ''R_RISCV_CALL'' \<or> relocation_kind = elf ''R_RISCV_CALL_PLT'')
               \<and> \<not> interposable then
         if non_zero_address then
           Option.bind (is_jalr_deleted section_bytes (unat offset_in_section)) (\<lambda>gone.
             if gone then
               map_option (\<lambda>info. Some \<lparr>relax_kind = CallToJal, rel_info = info, mandatory = static_exe\<rparr>)
                 (rel_info_from_type elf ''R_RISCV_JAL'')
             else
               Some (Some \<lparr>relax_kind = RV_NoOp, rel_info = relocation\<lparr>kind := RK_Relative\<rparr>,
                           mandatory = static_exe\<rparr>))
         else
           map_option (\<lambda>info. Some \<lparr>relax_kind = RV_ReplaceWithNop, rel_info = info, mandatory = static_exe\<rparr>)
             (rel_info_from_type elf ''R_RISCV_NONE'')
       else if relocation_kind = elf ''R_RISCV_HI20'' then
         (case relax_deltas of
            None \<Rightarrow> Some None
          | Some ds \<Rightarrow>
              let in_off = output_to_input_offset ds offset_in_section in
              if has_delta_at ds in_off then
                map_option (\<lambda>info. Some \<lparr>relax_kind = Hi20Delete, rel_info = info, mandatory = False\<rparr>)
                  (rel_info_from_type elf ''R_RISCV_NONE'')
              else if has_delta_at ds (in_off + 2) then
                Some (Some \<lparr>relax_kind = Hi20ToCLui, rel_info = clui_rel_info, mandatory = False\<rparr>)
              else Some None)
       else if relocation_kind = elf ''R_RISCV_LO12_I'' \<or> relocation_kind = elf ''R_RISCV_LO12_S'' then
         (case relax_deltas of
            None \<Rightarrow> Some None
          | Some ds \<Rightarrow>
              let in_off = output_to_input_offset ds offset_in_section in
              if 4 \<le> in_off \<and> delta_bytes_at ds (in_off - 4) = 4
                 \<and> (unat offset_in_section + 4) mod 2 ^ 64 \<le> length section_bytes then
                Option.bind (word_at section_bytes (unat offset_in_section)) (\<lambda>word.
                  let rd = drop_bit 7 word AND 0x1f;
                      rs1 = drop_bit 15 word AND 0x1f
                  in if rd = rs1 then
                       Some (Some \<lparr>relax_kind = Lo12Rs1ToZero, rel_info = relocation, mandatory = False\<rparr>)
                     else Some None)
              else Some None)
       else Some None)"

subsection \<open>Deleted instructions\<close>

text \<open>
  When relocations are applied to a section with well-formed deltas, the case for a deleted
  \<^verbatim>\<open>lui\<close> (\<^verbatim>\<open>Hi20Delete\<close>) is never chosen: it looks for a deletion at the input offset that the
  output offset translates back to, and such an offset is never deleted.
\<close>

lemma riscv_hi20_delete_unreachable:
  assumes "deltas_wf s" and "unat offset + unat (total_deleted s) < 2 ^ 64"
    and "riscv_new_relaxation elf r bs offset interposable execinstr static_exe non_zero (Some s) = Some (Some rx)"
  shows "relax_kind rx \<noteq> Hi20Delete"
  using assms(3) output_to_input_no_delta [OF assms(1,2)]
  by (auto simp: riscv_new_relaxation_def bind_eq_Some_conv Let_def split: if_splits)

lemma riscv_hi20_delete_unreachable_witness:
  "relax_kind \<lparr>relax_kind = RV_NoOp, rel_info = (row_info False (RK_Relative, bit_mask_riscv 0 64 RV_UiType, None,
     AllowedRange_new (- (2 ^ 31)) (2 ^ 32), 1, 0)), mandatory = True\<rparr> \<noteq> Hi20Delete"
proof (rule riscv_hi20_delete_unreachable [of sample_deltas 0 riscv_numbering "riscv_numbering ''R_RISCV_CALL''"
      "[0x97, 0, 0, 0, 0xe7, 0x80, 0, 0]" False True True True])
  have arm: "([''R_RISCV_CALL'', ''R_RISCV_CALL_PLT''],
      Some (RK_PltRelative, bit_mask_riscv 0 64 RV_UiType, None, AllowedRange_new (- (2 ^ 31)) (2 ^ 32), 1, 0))
      \<in> set (riscv_arms riscv_numbering)"
    by (simp add: riscv_arms_def riscv_insn_relocs_def)
  have "riscv_relocation_type_from_raw riscv_numbering (riscv_numbering ''R_RISCV_CALL'') =
      Some (row_info False (RK_PltRelative, bit_mask_riscv 0 64 RV_UiType, None, AllowedRange_new (- (2 ^ 31)) (2 ^ 32), 1, 0))"
    by (subst riscv_lookup_arm [OF inj_riscv_numbering arm]) simp_all
  then show "riscv_new_relaxation riscv_numbering (riscv_numbering ''R_RISCV_CALL'') [0x97, 0, 0, 0, 0xe7, 0x80, 0, 0] 0
      False True True True (Some sample_deltas) = Some (Some \<lparr>relax_kind = RV_NoOp, rel_info = (row_info False (RK_Relative, bit_mask_riscv 0 64 RV_UiType, None,
     AllowedRange_new (- (2 ^ 31)) (2 ^ 32), 1, 0)), mandatory = True\<rparr>)"
    by (simp add: riscv_new_relaxation_def is_jalr_deleted_def word_at_def slice_range_def u32_from_slice_def first_chunk_def)
qed simp_all

subsection \<open>Compressed upper immediates\<close>

lemma sint_small: "unat (y :: u64) < 2 ^ 63 \<Longrightarrow> sint y = int (unat y)"
proof -
  assume "unat y < 2 ^ 63"
  then have "int (unat y) < int (2 ^ 63)" by (simp only: of_nat_less_iff)
  then have "signed_take_bit 63 (uint y) = uint y" 
    by (intro signed_take_bit_int_eq_self order_trans [of "- (2 ^ 63)" 0 "uint y"]) simp_all
  then show ?thesis by (simp add: sint_uint)
qed

text \<open>The 6-bit immediate of \<^verbatim>\<open>c.lui\<close> as the code tests it.\<close>

lemma hi20_fits_clui_iff:
  "hi20_fits_clui v \<longleftrightarrow> 0x1000 \<le> unat (v + 0x800) \<and> unat (v + 0x800) < 0x20000"
proof -
  let ?h = "drop_bit 12 (v + 0x800)"
  have div: "unat ?h = unat (v + 0x800) div 0x1000" 
    unfolding unat_drop_bit_eq by (simp add: drop_bit_eq_div)
  have "unat (v + 0x800) < 2 ^ 64" using unsigned_less [of "v + 0x800", where 'a = nat] by simp
  then have "unat ?h < 2 ^ 63" using div by simp
  then have sh: "sint ?h = int (unat ?h)" by (rule sint_small)
  have six: "signed_drop_bit 2 (push_bit 2 (ucast ?h :: u8)) = signed_take_bit 5 (ucast ?h)"
    by (simp add: signed_drop_push)
  have "sint (signed_take_bit 5 (ucast ?h :: u8)) = signed_take_bit 5 (sint (ucast ?h :: u8))"
    by (rule bit_eqI) (auto simp: bit_sint_iff bit_signed_take_bit_iff min_def)
  moreover have "signed_take_bit 5 (sint (ucast ?h :: u8)) = signed_take_bit 5 (int (unat ?h))"
    by (rule bit_eqI) (auto simp: bit_signed_take_bit_iff bit_sint_iff bit_unsigned_iff min_def bit_uint_iff
        dest: bit_imp_le_length)
  ultimately have "sint (signed_drop_bit 2 (push_bit 2 (ucast ?h :: u8))) = signed_take_bit 5 (int (unat ?h))"
    by (simp only: six)
  then have "hi20_fits_clui v \<longleftrightarrow> signed_take_bit 5 (int (unat ?h)) = int (unat ?h) \<and> unat ?h \<noteq> 0"
    by (simp add: hi20_fits_clui_def Let_def sh unat_eq_0)
  also have "signed_take_bit 5 (int (unat ?h)) = int (unat ?h) \<longleftrightarrow> unat ?h < 32"
    unfolding signed_take_bit_int_eq_self_iff by (simp del: uint_nat of_nat_unat)
  finally show ?thesis using div by (auto simp: div_less_iff_less_mult)
qed

text \<open>What \<^verbatim>\<open>c.lui\<close> loads: the destination register and the sign-extended 6-bit immediate times 4096.\<close>

definition clui_effect :: "bytes \<Rightarrow> (u16 \<times> u64) option" where
  "clui_effect bs =
     map_option
       (\<lambda>w. (take_bit 5 (drop_bit 7 w),
             push_bit 12 (signed_take_bit 5 (ucast (gather (rv_fields RV_CluiType) w)))))
       (u16_from_bytes bs)"

lemma clui_write:
  assumes fits: "hi20_fits_clui v"
  shows "clui_effect (to_le_bytes 2 ((x AND NOT (dst_mask (rvc_fields RV_CluiType)))
      OR scatter (rvc_fields RV_CluiType) (ucast (rv_source RV_CluiType v)) :: u16) @ rest) =
    Some (take_bit 5 (drop_bit 7 x), (v + 0x800) AND NOT (mask 12))"
proof -
  let ?s = "rv_source RV_CluiType v"
  let ?w = "(x AND NOT (dst_mask (rvc_fields RV_CluiType))) OR scatter (rvc_fields RV_CluiType) (ucast ?s) :: u16"
  have src: "?s = drop_bit 12 (v + 0x800)" by (simp add: rv_source_def)
  have s32: "unat ?s < 2 ^ 5"
    using fits unfolding src unat_drop_bit_eq by (simp add: hi20_fits_clui_iff drop_bit_eq_div div_less_iff_less_mult)
  then have fit: "take_bit 5 ?s = ?s" by (simp only: take_bit_word_eq_self_iff)
  have "(ucast (gather (rvc_fields RV_CluiType) ?w) :: u64) = ?s AND src_mask (rvc_fields RV_CluiType)"
    by (simp only: rvc.gather_write) (rule ucast_and_src_mask; simp add: rvc_fields_simps)
  also have "src_mask (rvc_fields RV_CluiType) = (mask 6 :: u64)"
    by (simp add: rvc_fields_simps mask_eq_exp_minus_1)
  also have "?s AND mask 6 = ?s"
    using s32 by (simp add: take_bit_word_eq_self_iff flip: take_bit_eq_mask)
  finally have g: "(ucast (gather (rvc_fields RV_CluiType) ?w) :: u64) = ?s" .
  have "\<not> bit ?s 5" using fit by (metis bit_take_bit_iff less_irrefl)
  then have sg: "signed_take_bit 5 ?s = ?s"
    using fit by (simp add: signed_take_bit_eq_if_positive)
  have hi: "push_bit 12 (drop_bit 12 y) = y AND NOT (mask 12)" for y :: u64
    by (rule bit_word_eqI) (auto simp: bit_push_bit_iff bit_drop_bit_eq bit_and_iff bit_not_iff bit_mask_iff)
  have rd: "take_bit 5 (drop_bit 7 ?w) = take_bit 5 (drop_bit 7 x)"
  proof (rule bit_word_eqI)
    fix n
    have "(31 :: u16) = mask 5" by (simp add: mask_eq_exp_minus_1)
    then have "bit (31 :: u16) n \<longleftrightarrow> n < 5" by (simp only: bit_mask_iff) auto
    then show "bit (take_bit 5 (drop_bit 7 ?w)) n = bit (take_bit 5 (drop_bit 7 x)) n"
      by (auto simp: rvc_fields_simps bit_simps)
  qed
  show ?thesis
    by (simp only: clui_effect_def u16_from_bytes_word option.map rd flip: rvc_fields_simps)
       (simp only: g sg, simp only: src hi)
qed

text \<open>
  Relaxing \<^verbatim>\<open>lui\<close> to \<^verbatim>\<open>c.lui\<close>: whenever the code judges the value to fit, the rewritten and relocated
  two-byte instruction loads, into the register of the \<^verbatim>\<open>lui\<close>, the upper part that the original
  pair would use: the value rounded to a multiple of 4096.
\<close>

lemma riscv_clui_correct:
  assumes "hi20_fits_clui v" and "unat offset + 2 \<le> length bs"
    and "u16_from_bytes (drop (unat offset) bs) = Some lui_lo"
  shows "\<exists>bs' out. riscv_apply Hi20ToCLui (bs, offset, addend) = Some (bs', offset, addend)
    \<and> write_to_buffer uleb clui_rel_info v (drop (unat offset) bs') = Some (Inr out)
    \<and> clui_effect out = Some (take_bit 5 (drop_bit 7 lui_lo), (v + 0x800) AND NOT (mask 12))"
proof -
  let ?off = "unat offset"
  let ?base = "0x6001 OR push_bit 7 (drop_bit 7 lui_lo AND 0x1f) :: u16"
  have two: "drop ?off bs = bs ! ?off # bs ! (?off + 1) # drop (?off + 2) bs"
    using assms(2) by (simp add: Cons_nth_drop_Suc)
  then have lo: "from_le_bytes [bs ! ?off, bs ! (?off + 1)] = lui_lo"
    using assms(3) by (simp add: u16_from_bytes_def first_chunk_def)
  let ?bs = "take ?off bs @ to_le_bytes 2 ?base @ drop (?off + 2) bs"
  have ap: "riscv_apply Hi20ToCLui (bs, offset, addend) = Some (?bs, offset, addend)"
    using assms(2) lo
    by (simp add: riscv_apply_def get_at_def copy_from_slice_def Let_def del: from_le_bytes.simps)
  have r: "0x1000 \<le> unat (v + 0x800)" "unat (v + 0x800) < 0x20000"
    using assms(1) by (simp_all add: hi20_fits_clui_iff)
  have "unat ((v + 0x800) - 0x800) = unat (v + 0x800) - 0x800"
    using r(1) by (subst unat_sub) (simp_all add: word_le_nat_alt)
  then have bound: "unat v < 0x20000" using r(2) by simp
  then have "v < 0x20000" by (simp add: word_less_nat_alt)
  then have "uint v < 0x20000" by (simp add: word_less_def)
  moreover have "- (2 ^ 31) \<le> uint v" by (rule order_trans [of _ 0]) simp_all
  moreover have "sint v = uint v" using sint_small [of v] bound by simp
  ultimately have "verify clui_rel_info v = Inr ()"
    by (simp add: verify_ok_iff clui_rel_info_def contains_def AllowedRange_new_def)
  moreover have "take_bit 32 v = v" using bound by (simp add: take_bit_word_eq_self_iff)
  ultimately have "write_to_buffer uleb clui_rel_info v (drop ?off ?bs) =
      map_option Inr (riscv_write_single RV_CluiType v (to_le_bytes 2 ?base @ drop (?off + 2) bs))"
    using write_bit_masking [of clui_rel_info v "()" "BitMask_new (RiscV RV_CluiType) 0 32" uleb "drop ?off ?bs"] assms(2)
    by (simp add: clui_rel_info_def bit_mask_riscv_def BitMask_new_def insn_write_to_value_def xbits_eq
        riscv_write_to_value_def)
  moreover have "take_bit 5 (drop_bit 7 ?base) = take_bit 5 (drop_bit 7 lui_lo)"
    unfolding drop_bit_or take_bit_or and_ones
    by (simp add: drop_push_fit [where l = 5])
  ultimately show ?thesis
    using ap rv_write16 [of RV_CluiType v ?base "drop (?off + 2) bs"]
      clui_write [OF assms(1), of ?base "drop (?off + 2) bs"]
    by (auto simp del: to_le_bytes.simps)
qed

lemma riscv_clui_correct_witness:
  "\<exists>bs' out. riscv_apply Hi20ToCLui ([0x37, 0x15, 0, 0], 0, 0) = Some (bs', 0, 0)
    \<and> write_to_buffer (\<lambda>_. []) clui_rel_info 0x3000 (drop (unat (0 :: u64)) bs') = Some (Inr out)
    \<and> clui_effect out = Some (take_bit 5 (drop_bit 7 0x1537), (0x3000 + 0x800) AND NOT (mask 12))"
  by (rule riscv_clui_correct) (simp_all add: hi20_fits_clui_iff u16_from_bytes_def first_chunk_def)

text \<open>
  The test for a compressible upper immediate refuses every negative one: the shift that
  computes the upper part is logical, so no value with a negative upper part is small.
\<close>

lemma hi20_fits_clui_nonnegative:
  "hi20_fits_clui v \<longleftrightarrow> (\<exists>imm. 1 \<le> imm \<and> imm \<le> 31 \<and> unat (v + 0x800) div 0x1000 = imm)"
  unfolding hi20_fits_clui_iff by (auto simp: div_less_iff_less_mult)

subsection \<open>Calls to jumps\<close>

lemma jtype_keeps_low:
  fixes x z :: u32
  shows "take_bit 12 ((x AND NOT (dst_mask (rv_fields RV_JType))) OR scatter (rv_fields RV_JType) z) = take_bit 12 x"
proof (rule bit_word_eqI)
  fix n
  have "n < 12 \<Longrightarrow> \<not> bit (dst_mask (rv_fields RV_JType) :: u32) n"
    by (auto simp: bit_dst_mask simp del: dst_mask.simps)
  moreover have "n < 12 \<Longrightarrow> \<not> bit (scatter (rv_fields RV_JType) z) n"
    by (auto simp: bit_scatter simp del: scatter.simps)
  ultimately show "bit (take_bit 12 ((x AND NOT (dst_mask (rv_fields RV_JType))) OR scatter (rv_fields RV_JType) z)) n = bit (take_bit 12 x) n"
    using bit_imp_le_length [of x n]
    by (auto simp only: bit_take_bit_iff bit_or_iff bit_and_iff bit_not_iff possible_bit_word)
qed

text \<open>The opcode and the destination register of an instruction are within its low twelve bits.\<close>

lemma low12_opcode: "take_bit 7 x = take_bit 7 (take_bit 12 x)" for x :: u32
  by simp

lemma low12_rd: "take_bit 5 (drop_bit 7 x) = take_bit 5 (drop_bit 7 (take_bit 12 x))" for x :: u32
  by (rule bit_word_eqI) (auto simp: bit_take_bit_iff bit_drop_bit_eq)

lemma jal_base_fields:
  fixes w :: u32
  shows "take_bit 7 (0x6f OR push_bit 7 (drop_bit 7 w AND 0x1f)) = 0x6f"
    and "take_bit 5 (drop_bit 7 (0x6f OR push_bit 7 (drop_bit 7 w AND 0x1f))) = take_bit 5 (drop_bit 7 w)"
proof -
  show "take_bit 7 (0x6f OR push_bit 7 (drop_bit 7 w AND 0x1f)) = 0x6f"
    by (simp only: take_bit_or take_bit_push_bit) simp
  show "take_bit 5 (drop_bit 7 (0x6f OR push_bit 7 (drop_bit 7 w AND 0x1f))) = take_bit 5 (drop_bit 7 w)"
    unfolding drop_bit_or take_bit_or and_ones by (simp add: drop_push_fit [where l = 5])
qed

lemma riscv_call_to_jal_write:
  assumes "riscv_relocation_type_from_raw elf r = Some info" and "size info = BitMasking bm"
    and "instruction bm = RiscV RV_JType" and "verify info v = Inr ()"
    and "unat offset + 4 \<le> length bs" and "u32_from_slice (drop (unat offset) bs) = Some auipc"
  shows "\<exists>bs' out x. riscv_apply CallToJal (bs, offset, addend) = Some (bs', offset, addend)
    \<and> write_to_buffer uleb info v (drop (unat offset) bs') = Some (Inr out)
    \<and> riscv_read_value RV_JType out = Some (v, sint v < 0)
    \<and> u32_from_slice out = Some x \<and> take_bit 7 x = 0x6f
    \<and> take_bit 5 (drop_bit 7 x) = take_bit 5 (drop_bit 7 auipc)
    \<and> drop 4 out = drop (unat offset + 4) bs"
proof -
  let ?off = "unat offset"
  let ?base = "0x6f OR push_bit 7 (drop_bit 7 auipc AND 0x1f) :: u32"
  let ?rest = "drop (?off + 4) bs"
  let ?bs = "take ?off bs @ to_le_bytes 4 ?base @ ?rest"
  let ?x = "(?base AND NOT (dst_mask (rv_fields RV_JType))) OR scatter (rv_fields RV_JType) (ucast (take_bit 32 v)) :: u32"
  let ?out = "to_le_bytes 4 ?x @ ?rest"
  have ap: "riscv_apply CallToJal (bs, offset, addend) = Some (?bs, offset, addend)"
    using assms(5,6) by (simp add: riscv_apply_def copy_from_slice_def slice_range_def Let_def del: to_le_bytes.simps)
  have drop: "drop ?off ?bs = to_le_bytes 4 ?base @ ?rest" using assms(5) by simp
  have jal: "rv_branch RV_JType" "RV_JType \<noteq> RV_UiType" "rv_bytes RV_JType = 4" "rv_imm_bits RV_JType = 21"
    by (simp_all add: rv_branch_def rv_bytes_def)
  have wv: "riscv_write_to_value RV_JType (take_bit 32 v) n (to_le_bytes 4 ?base @ ?rest) = Some ?out" for n
    using rv_write32 [of RV_JType "take_bit 32 v" ?base ?rest]
    by (simp add: riscv_write_to_value_def rv_source_def del: rv_fields.simps to_le_bytes.simps dst_mask.simps)
  have e32: "8 * 4 = (32 :: nat)" by simp
  have w: "write_to_buffer uleb info v (drop ?off ?bs) = Some (Inr ?out)"
    unfolding drop riscv_write_eq [OF assms(1-4)] by (simp only: jal if_False e32 wv option.map)
  note low = jtype_keeps_low [of ?base "ucast (take_bit 32 v)"]
  have "take_bit 7 ?x = 0x6f" by (simp only: low12_opcode [of ?x] low) (simp only: jal_base_fields flip: low12_opcode)
  moreover have "take_bit 5 (drop_bit 7 ?x) = take_bit 5 (drop_bit 7 auipc)"
    by (simp only: low12_rd [of ?x] low) (simp only: jal_base_fields flip: low12_rd)
  moreover have "riscv_read_value RV_JType ?out = Some (v, sint v < 0)"
    using riscv_insn_roundtrip [of RV_JType "to_le_bytes 4 ?base @ ?rest" v 32 "sint v < 0"] wv jal
      riscv_branch_value [OF assms(1-3) jal(1) assms(4)]
    by (auto simp del: rv_fields.simps to_le_bytes.simps dst_mask.simps)
  ultimately show ?thesis using ap w by (auto simp: slice_simps)
qed

lemma utype_keeps_low:
  fixes x z :: u32
  shows "take_bit 12 ((x AND NOT (dst_mask (rv_fields RV_UType))) OR scatter (rv_fields RV_UType) z) = take_bit 12 x"
  by (rule bit_word_eqI) (auto simp: bit_simps)

lemma itype_keeps_low:
  fixes x z :: u32
  shows "take_bit 20 ((x AND NOT (dst_mask (rv_fields RV_IType))) OR scatter (rv_fields RV_IType) z) = take_bit 20 x"
  by (rule bit_word_eqI) (auto simp: bit_simps)

text \<open>
  What a call does, apart from the address it returns to: the displacement it jumps by and the
  register it links. An \<^verbatim>\<open>auipc\<close>/\<^verbatim>\<open>jalr\<close> pair jumps through the register of the \<^verbatim>\<open>auipc\<close> and links the
  one of the \<^verbatim>\<open>jalr\<close>.
\<close>

definition rv_pair_call :: "bytes \<Rightarrow> (u64 \<times> u32) option" where
  "rv_pair_call bs =
     Option.bind (u32_from_slice bs) (\<lambda>hi.
     Option.bind (u32_from_slice (drop 4 bs)) (\<lambda>lo.
       if take_bit 7 hi = 0x17 \<and> take_bit 7 lo = 0x67 \<and> take_bit 3 (drop_bit 12 lo) = 0
          \<and> take_bit 5 (drop_bit 15 lo) = take_bit 5 (drop_bit 7 hi)
       then map_option (\<lambda>d. (d, take_bit 5 (drop_bit 7 lo))) (rv_pair_offset bs)
       else None))"

definition rv_jal_call :: "bytes \<Rightarrow> (u64 \<times> u32) option" where
  "rv_jal_call bs =
     Option.bind (u32_from_slice bs) (\<lambda>w.
       if take_bit 7 w = 0x6f
       then map_option (\<lambda>(d, _). (d, take_bit 5 (drop_bit 7 w))) (riscv_read_value RV_JType bs)
       else None)"

lemma slice_of_take:
  fixes x :: u32
  shows "k + n \<le> m \<Longrightarrow> m \<le> 32 \<Longrightarrow> take_bit n (drop_bit k x) = take_bit n (drop_bit k (take_bit m x))"
  by (rule bit_word_eqI) (auto simp: bit_take_bit_iff bit_drop_bit_eq)

lemma rv_pair_call_fields:
  fixes hi lo hi' lo' :: u32
  assumes "take_bit 12 hi' = take_bit 12 hi" and "take_bit 20 lo' = take_bit 20 lo"
    and "rv_pair_call (to_le_bytes 4 hi @ to_le_bytes 4 lo @ rest) \<noteq> None"
    and "rv_pair_offset (to_le_bytes 4 hi' @ to_le_bytes 4 lo' @ rest) = Some d"
  shows "rv_pair_call (to_le_bytes 4 hi' @ to_le_bytes 4 lo' @ rest) = Some (d, take_bit 5 (drop_bit 7 lo))"
proof -
  have "take_bit 7 hi' = take_bit 7 hi" "take_bit 5 (drop_bit 7 hi') = take_bit 5 (drop_bit 7 hi)"
    using slice_of_take [of 0 7 12 hi] slice_of_take [of 0 7 12 hi']
      slice_of_take [of 7 5 12 hi] slice_of_take [of 7 5 12 hi'] assms(1) by simp_all
  moreover have "take_bit 7 lo' = take_bit 7 lo" "take_bit 5 (drop_bit 7 lo') = take_bit 5 (drop_bit 7 lo)"
      "take_bit 3 (drop_bit 12 lo') = take_bit 3 (drop_bit 12 lo)"
      "take_bit 5 (drop_bit 15 lo') = take_bit 5 (drop_bit 15 lo)"
    using slice_of_take [of 0 7 20 lo] slice_of_take [of 0 7 20 lo'] slice_of_take [of 7 5 20 lo]
      slice_of_take [of 7 5 20 lo'] slice_of_take [of 12 3 20 lo] slice_of_take [of 12 3 20 lo']
      slice_of_take [of 15 5 20 lo] slice_of_take [of 15 5 20 lo'] assms(2) by simp_all
  ultimately show ?thesis
    using assms(3,4)
    by (simp add: rv_pair_call_def u32_from_slice_word slice_simps del: to_le_bytes.simps split: if_splits)
qed

lemma riscv_call_pair_effect:
  fixes auipc jalr :: u32
  assumes "rv_pair_call (to_le_bytes 4 auipc @ to_le_bytes 4 jalr @ rest) \<noteq> None"
    and "- (2 ^ 31) \<le> sint v" and "sint v < 2 ^ 31 - 0x800"
  shows "\<exists>out. riscv_write_to_value RV_UiType v n (to_le_bytes 4 auipc @ to_le_bytes 4 jalr @ rest) = Some out
    \<and> rv_pair_call out = Some (v, take_bit 5 (drop_bit 7 jalr))"
proof -
  let ?hi = "(auipc AND NOT (dst_mask (rv_fields RV_UType))) OR scatter (rv_fields RV_UType) (ucast (v + 0x800)) :: u32"
  let ?lo = "(jalr AND NOT (dst_mask (rv_fields RV_IType))) OR scatter (rv_fields RV_IType) (ucast v) :: u32"
  let ?out = "to_le_bytes 4 ?hi @ to_le_bytes 4 ?lo @ rest"
  have w: "riscv_write_to_value RV_UiType v n (to_le_bytes 4 auipc @ to_le_bytes 4 jalr @ rest) = Some ?out"
    by (rule riscv_ui_write)
  moreover have "rv_pair_offset ?out = Some v"
    using riscv_call_pair_correct [of "to_le_bytes 4 auipc @ to_le_bytes 4 jalr @ rest" v n] assms(2,3) w
    by (auto simp del: to_le_bytes.simps rv_fields.simps)
  ultimately show ?thesis
    using rv_pair_call_fields [OF utype_keeps_low itype_keeps_low assms(1)] by blast
qed


lemma riscv_jal_lookup:
  assumes "inj_on elf (set (arm_names (riscv_arms elf)))"
  shows "rel_info_from_type elf ''R_RISCV_JAL'' = Some (row_info False
      (RK_Relative, bit_mask_riscv 0 32 RV_JType, None, AllowedRange_new (- (2 ^ 20)) (2 ^ 20 - 1), 2, 0))"
  unfolding rel_info_from_type_def
  by (subst riscv_lookup_arm [OF assms, where ns = "[''R_RISCV_JAL'']"])
     (auto simp: riscv_arms_def riscv_insn_relocs_def)

lemma riscv_call_lookup:
  assumes "inj_on elf (set (arm_names (riscv_arms elf)))"
    and "r = elf ''R_RISCV_CALL'' \<or> r = elf ''R_RISCV_CALL_PLT''"
  shows "riscv_relocation_type_from_raw elf r = Some (row_info False
      (RK_PltRelative, bit_mask_riscv 0 64 RV_UiType, None, AllowedRange_new (- (2 ^ 31)) (2 ^ 32), 1, 0))"
proof -
  let ?row = "(RK_PltRelative, bit_mask_riscv 0 64 RV_UiType, None, AllowedRange_new (- (2 ^ 31)) (2 ^ 32), 1, 0)"
  have arm: "([''R_RISCV_CALL'', ''R_RISCV_CALL_PLT''], Some ?row) \<in> set (riscv_arms elf)"
    by (simp add: riscv_arms_def riscv_insn_relocs_def)
  show ?thesis
    using assms(2) riscv_lookup_arm [OF assms(1) arm, of "''R_RISCV_CALL''"]
      riscv_lookup_arm [OF assms(1) arm, of "''R_RISCV_CALL_PLT''"] by auto
qed

lemma riscv_jal_verify:
  assumes "distance_fits_jal v" and "even v"
  shows "verify (row_info False (RK_Relative, bit_mask_riscv 0 32 RV_JType, None,
      AllowedRange_new (- (2 ^ 20)) (2 ^ 20 - 1), 2, 0)) v = Inr ()"
proof -
  have "\<not> bit v 0" using assms(2) by (simp add: bit_0)
  then have "\<not> bit (sint v) 0" by (simp only: bit_sint_iff) simp
  then have "even (sint v)" by (simp add: bit_0)
  then have "sint v \<noteq> 2 ^ 20 - 1" by auto
  moreover have "2 dvd unat v" using assms(2) by (simp add: even_unat_word_iff)
  ultimately show ?thesis
    using assms(1) by (simp add: verify_ok_iff contains_def AllowedRange_new_def distance_fits_jal_def)
qed

text \<open>
  C40. Relaxing a call. The scan has deleted the \<^verbatim>\<open>jalr\<close> after an \<^verbatim>\<open>auipc\<close> and the word that now follows
  is not taken for it. Then \<^verbatim>\<open>new_relaxation\<close> chooses the rewrite to \<^verbatim>\<open>jal\<close>, for every even displacement
  \<open>v\<close> in its range the rewrite and the write of the relocation succeed and change only the 4
  bytes of the \<^verbatim>\<open>auipc\<close>, and the \<^verbatim>\<open>jal\<close> jumps by \<open>v\<close>, as the unrelaxed pair with the same
  relocation value does. The \<^verbatim>\<open>jal\<close> links the destination register of the \<^verbatim>\<open>auipc\<close>; the pair links
  the one of the \<^verbatim>\<open>jalr\<close>. The two calls are the same exactly when the compiler used one register
  for both.
\<close>

theorem riscv_call_to_jal_correct:
  fixes auipc jalr :: u32 and before after :: bytes
  defines "short \<equiv> before @ to_le_bytes 4 auipc @ after" and "offset \<equiv> of_nat (length before)"
  assumes "inj_on elf (set (arm_names (riscv_arms elf)))"
    and "r = elf ''R_RISCV_CALL'' \<or> r = elf ''R_RISCV_CALL_PLT''"
    and "rv_pair_call (to_le_bytes 4 auipc @ to_le_bytes 4 jalr) \<noteq> None"
    and "length before < 2 ^ 64" and "is_jalr_deleted short (length before) = Some True"
    and "distance_fits_jal v" and "even v"
  shows "\<exists>rx call field near far.
      riscv_new_relaxation elf r short offset False True static_exe True ds = Some (Some rx)
    \<and> riscv_apply (relax_kind rx) (short, offset, addend) = Some (before @ field, offset, addend)
    \<and> write_to_buffer uleb (rel_info rx) v field = Some (Inr near)
    \<and> rv_jal_call near = Some (v, take_bit 5 (drop_bit 7 auipc)) \<and> drop 4 near = after
    \<and> riscv_relocation_type_from_raw elf r = Some call
    \<and> write_to_buffer uleb call v (to_le_bytes 4 auipc @ to_le_bytes 4 jalr) = Some (Inr far)
    \<and> rv_pair_call far = Some (v, take_bit 5 (drop_bit 7 jalr))"
proof -
  let ?jal = "row_info False (RK_Relative, bit_mask_riscv 0 32 RV_JType, None,
      AllowedRange_new (- (2 ^ 20)) (2 ^ 20 - 1), 2, 0)"
  let ?call = "row_info False (RK_PltRelative, bit_mask_riscv 0 64 RV_UiType, None,
      AllowedRange_new (- (2 ^ 31)) (2 ^ 32), 1, 0)"
  have off: "unat (of_nat (length before) :: u64) = length before"
    using assms(6) by (simp add: unat_of_nat take_bit_eq_mod)
  note lookup = riscv_call_lookup [OF assms(3,4)] and jal = riscv_jal_lookup [OF assms(3)]
  have rx: "riscv_new_relaxation elf r short offset False True static_exe True ds =
      Some (Some \<lparr>relax_kind = CallToJal, rel_info = ?jal, mandatory = static_exe\<rparr>)"
    using assms(4,7) off by (simp add: riscv_new_relaxation_def lookup jal offset_def)
  obtain bs' near x where near: "riscv_apply CallToJal (short, offset, addend) = Some (bs', offset, addend)"
      "write_to_buffer uleb ?jal v (drop (unat offset) bs') = Some (Inr near)"
      "riscv_read_value RV_JType near = Some (v, sint v < 0)" "u32_from_slice near = Some x"
      "take_bit 7 x = 0x6f" "take_bit 5 (drop_bit 7 x) = take_bit 5 (drop_bit 7 auipc)"
      "drop 4 near = drop (unat offset + 4) short"
    using riscv_call_to_jal_write [OF jal [unfolded rel_info_from_type_def], of "BitMask_new (RiscV RV_JType) 0 32"
        v offset short auipc addend uleb] riscv_jal_verify [OF assms(8,9)] off
    by (auto simp: bit_mask_riscv_def BitMask_new_def short_def offset_def u32_from_slice_word
        simp del: to_le_bytes.simps)
  have "take (unat offset) bs' = before"
    using near(1) off
    by (auto simp: riscv_apply_def copy_from_slice_def offset_def short_def Let_def bind_eq_Some_conv
        simp del: to_le_bytes.simps split: if_splits)
  then have bs': "bs' = before @ drop (unat offset) bs'" by (metis append_take_drop_id)
  have "verify ?call v = Inr ()" "- (2 ^ 31) \<le> sint v" "sint v < 2 ^ 31 - 0x800"
    using assms(8) by (simp_all add: verify_ok_iff contains_def AllowedRange_new_def distance_fits_jal_def)
  then obtain far where "write_to_buffer uleb ?call v (to_le_bytes 4 auipc @ to_le_bytes 4 jalr) = Some (Inr far)"
      and "rv_pair_call far = Some (v, take_bit 5 (drop_bit 7 jalr))"
    using riscv_call_pair_effect [of auipc jalr "[]" v "sint v < 0"] assms(5) take_bit_length_eq [of v]
      riscv_write_eq [OF lookup, of "BitMask_new (RiscV RV_UiType) 0 64" RV_UiType v uleb
        "to_le_bytes 4 auipc @ to_le_bytes 4 jalr"]
    by (auto simp: bit_mask_riscv_def BitMask_new_def simp del: to_le_bytes.simps)
  moreover have "rv_jal_call near = Some (v, take_bit 5 (drop_bit 7 auipc))"
    using near by (simp add: rv_jal_call_def)
  moreover have "drop 4 near = after" using near(7) off by (simp add: short_def offset_def)
  ultimately show ?thesis using rx near(1,2) bs' lookup by fastforce
qed

text \<open>\<^verbatim>\<open>auipc t1; jalr x0, t1\<close>, before a \<^verbatim>\<open>nop\<close>: the pair links nothing, the \<^verbatim>\<open>jal\<close> links \<^verbatim>\<open>t1\<close>.\<close>

theorem riscv_call_to_jal_correct_witness:
  "\<exists>rx call field near far.
      riscv_new_relaxation riscv_numbering (riscv_numbering ''R_RISCV_CALL'')
        ([] @ to_le_bytes 4 (0x317 :: u32) @ [0x13, 0, 0, 0]) (of_nat (length ([] :: bytes))) False True False True None
        = Some (Some rx)
    \<and> riscv_apply (relax_kind rx) ([] @ to_le_bytes 4 (0x317 :: u32) @ [0x13, 0, 0, 0], of_nat (length ([] :: bytes)), 0)
        = Some ([] @ field, of_nat (length ([] :: bytes)), 0)
    \<and> write_to_buffer (\<lambda>_. []) (rel_info rx) (- 2048) field = Some (Inr near)
    \<and> rv_jal_call near = Some (- 2048, take_bit 5 (drop_bit 7 0x317)) \<and> drop 4 near = [0x13, 0, 0, 0]
    \<and> riscv_relocation_type_from_raw riscv_numbering (riscv_numbering ''R_RISCV_CALL'') = Some call
    \<and> write_to_buffer (\<lambda>_. []) call (- 2048) (to_le_bytes 4 (0x317 :: u32) @ to_le_bytes 4 (0x30067 :: u32)) = Some (Inr far)
    \<and> rv_pair_call far = Some (- 2048, take_bit 5 (drop_bit 7 0x30067))"
proof (rule riscv_call_to_jal_correct [OF inj_riscv_numbering])
  show "rv_pair_call (to_le_bytes 4 (0x317 :: u32) @ to_le_bytes 4 (0x30067 :: u32)) \<noteq> None"
    using u32_from_slice_word [of "0x30067" "[]"]
    by (simp add: rv_pair_call_def rv_pair_offset_def u32_from_slice_word slice_simps del: to_le_bytes.simps)
  show "is_jalr_deleted ([] @ to_le_bytes 4 (0x317 :: u32) @ [0x13, 0, 0, 0]) (length ([] :: bytes)) = Some True"
    by (simp add: is_jalr_deleted_def word_at_def slice_range_def u32_from_slice_def first_chunk_def)
qed (simp_all add: distance_fits_jal_def)

text \<open>
  A \<^verbatim>\<open>jalr\<close> that happens to follow the deleted one and jumps through the same register is taken
  for it: here \<^verbatim>\<open>auipc ra\<close> before a \<^verbatim>\<open>ret\<close>, which the write of the pair then overwrites.
\<close>

lemma is_jalr_deleted_before_ret: "is_jalr_deleted [0x97, 0, 0, 0, 0x67, 0x80, 0, 0] 0 = Some False"
  by (simp add: is_jalr_deleted_def word_at_def slice_range_def u32_from_slice_def first_chunk_def)

end
