(* ===== verification/RiscV_Scan.thy ===== *)
theory RiscV_Scan
  imports RiscV_Relax Std_Num
begin

unbundle bit_operations_syntax

text \<open>
  \<^verbatim>\<open>collect_relaxation_deltas\<close> of \<^verbatim>\<open>libsld/src/elf_riscv64.rs\<close>: the scan of the relocations of a section
  that finds the bytes which size-reducing relaxations delete. The symbol resolution of the
  caller is the parameter \<open>resolve\<close>; a panic is \<open>None\<close>.
\<close>

subsection \<open>Finding bytes to delete\<close>

record riscv_reloc =
  raw_type :: u32
  r_offset :: u64
  r_symbol :: "nat option"
  r_addend :: i64

record relax_symbol_info =
  output_address :: u64
  is_interposable :: bool

definition unsigned_abs :: "i64 \<Rightarrow> u64" where
  "unsigned_abs d = (if sint d < 0 then - d else d)"

definition min_opt :: "u64 option \<Rightarrow> u64 \<Rightarrow> u64" where
  "min_opt m margin = (case m of None \<Rightarrow> margin | Some x \<Rightarrow> min x margin)"

text \<open>The mutable variables of the scan.\<close>

record scan_state =
  raw_deltas :: "(u64 \<times> u32) list"
  min_unrelaxed_margin :: "u64 option"
  prev_call :: "(u64 \<times> nat) option"
  prev_hi20 :: "(u64 \<times> nat \<times> i64) option"
  new_cumulative_delta :: u64

definition existing_delta :: "section_relax_deltas option \<Rightarrow> u64 \<Rightarrow> bool" where
  "existing_delta existing off = (case existing of None \<Rightarrow> False | Some d \<Rightarrow> has_delta_at d off)"

definition existing_cum :: "section_relax_deltas option \<Rightarrow> u64 \<Rightarrow> u64" where
  "existing_cum existing off =
     (case existing of
        None \<Rightarrow> 0
      | Some d \<Rightarrow>
          let idx = partition_point (\<lambda>e. input_offset e < off) (deltas d)
          in if idx = 0 then 0 else cumulative_deleted (deltas d ! (idx - 1)))"

definition delete_bytes :: "u64 \<Rightarrow> u32 \<Rightarrow> scan_state \<Rightarrow> scan_state" where
  "delete_bytes off n st =
     st\<lparr>raw_deltas := raw_deltas st @ [(off, n)],
        new_cumulative_delta := new_cumulative_delta st + ucast n\<rparr>"

definition note_margin :: "u64 \<Rightarrow> scan_state \<Rightarrow> scan_state" where
  "note_margin margin st = st\<lparr>min_unrelaxed_margin := Some (min_opt (min_unrelaxed_margin st) margin)\<rparr>"

definition clear_prev :: "scan_state \<Rightarrow> scan_state" where
  "clear_prev st = st\<lparr>prev_call := None, prev_hi20 := None\<rparr>"

text \<open>The \<^verbatim>\<open>R_RISCV_ALIGN\<close> arm.\<close>

definition scan_align ::
    "u64 \<Rightarrow> section_relax_deltas option \<Rightarrow> riscv_reloc \<Rightarrow> scan_state \<Rightarrow> scan_state option" where
  "scan_align section_output_address existing rel st =
     (let addend = r_addend rel; off = r_offset rel in
      if addend = 0 \<or> existing_delta existing off then Some (clear_prev st)
      else
        let output_offset = off - existing_cum existing off - new_cumulative_delta st;
            p = section_output_address + output_offset;
            align = next_power_of_two addend
        in map_option
             (\<lambda>desired.
                let actual = p + addend in
                clear_prev (if actual > desired then delete_bytes off (ucast (actual - desired)) st else st))
             (next_multiple_of p align))"

text \<open>The call case of the \<^verbatim>\<open>R_RISCV_RELAX\<close> arm.\<close>

definition scan_call ::
    "u64 \<Rightarrow> (nat \<Rightarrow> relax_symbol_info option) \<Rightarrow> u64 \<Rightarrow> nat \<Rightarrow> scan_state \<Rightarrow> scan_state" where
  "scan_call section_output_address resolve_symbol call_offset sym_idx st =
     (case resolve_symbol sym_idx of
        Some info \<Rightarrow>
          if is_interposable info then st
          else
            let distance = output_address info - (section_output_address + call_offset) in
            if distance_fits_jal distance then delete_bytes (call_offset + 4) 4 st
            else note_margin (unsigned_abs distance - (2 ^ 20 - 1)) st
      | None \<Rightarrow> st)"

text \<open>The \<^verbatim>\<open>HI20\<close> case of the \<^verbatim>\<open>R_RISCV_RELAX\<close> arm, for a symbol that resolved.\<close>

definition scan_hi20 :: "bytes \<Rightarrow> u64 \<Rightarrow> u64 \<Rightarrow> i64 \<Rightarrow> scan_state \<Rightarrow> scan_state option" where
  "scan_hi20 section_bytes hi20_offset address addend st =
     (let off = unat hi20_offset in
      if (off + 4) mod 2 ^ 64 \<le> length section_bytes then
        Option.bind (word_at section_bytes off) (\<lambda>lui_word.
          let rd = drop_bit 7 lui_word AND 0x1f; value = address + addend in
          Some
            (if hi20_is_zero value then delete_bytes hi20_offset 4 st
             else if rd_valid_for_clui rd then
               if hi20_fits_clui value then delete_bytes (hi20_offset + 2) 2 st
               else
                 let hi20 = drop_bit 12 (value + 0x800);
                     margin = (if sint hi20 > 31 then (hi20 - 31) * 0x1000
                               else if sint hi20 < - 32 then - 1
                               else 0x1000)
                 in note_margin margin st
             else st))
      else Some st)"

definition scan_after_hi20 ::
    "bytes \<Rightarrow> section_relax_deltas option \<Rightarrow> (nat \<Rightarrow> relax_symbol_info option)
     \<Rightarrow> riscv_reloc \<Rightarrow> scan_state \<Rightarrow> scan_state option" where
  "scan_after_hi20 section_bytes existing resolve_symbol rel st =
     (case prev_hi20 st of
        Some (hi20_offset, sym_idx, addend) \<Rightarrow>
          if r_offset rel = hi20_offset
             \<and> \<not> (existing_delta existing hi20_offset \<or> existing_delta existing (hi20_offset + 2)) then
            (case resolve_symbol sym_idx of
               Some info \<Rightarrow>
                 if is_interposable info then Some st
                 else scan_hi20 section_bytes hi20_offset (output_address info) addend st
             | None \<Rightarrow> Some st)
          else Some st
      | None \<Rightarrow> Some st)"

definition scan_step ::
    "elf_consts \<Rightarrow> u64 \<Rightarrow> bytes \<Rightarrow> section_relax_deltas option \<Rightarrow> (nat \<Rightarrow> relax_symbol_info option)
     \<Rightarrow> riscv_reloc \<Rightarrow> scan_state \<Rightarrow> scan_state option" where
  "scan_step elf section_output_address section_bytes existing resolve_symbol rel st =
     (if raw_type rel = elf ''R_RISCV_ALIGN'' then scan_align section_output_address existing rel st
      else if raw_type rel = elf ''R_RISCV_CALL'' \<or> raw_type rel = elf ''R_RISCV_CALL_PLT'' then
        Some (st\<lparr>prev_call := map_option (\<lambda>sym_idx. (r_offset rel, sym_idx)) (r_symbol rel), prev_hi20 := None\<rparr>)
      else if raw_type rel = elf ''R_RISCV_HI20'' then
        Some (st\<lparr>prev_hi20 := map_option (\<lambda>sym_idx. (r_offset rel, sym_idx, r_addend rel)) (r_symbol rel),
                prev_call := None\<rparr>)
      else if raw_type rel = elf ''R_RISCV_RELAX'' then
        map_option clear_prev
          (case prev_call st of
             Some (call_offset, sym_idx) \<Rightarrow>
               if r_offset rel = call_offset \<and> \<not> existing_delta existing (call_offset + 4)
               then Some (scan_call section_output_address resolve_symbol call_offset sym_idx st)
               else scan_after_hi20 section_bytes existing resolve_symbol rel st
           | None \<Rightarrow> scan_after_hi20 section_bytes existing resolve_symbol rel st)
      else Some (clear_prev st))"

fun scan_all ::
    "elf_consts \<Rightarrow> u64 \<Rightarrow> bytes \<Rightarrow> section_relax_deltas option \<Rightarrow> (nat \<Rightarrow> relax_symbol_info option)
     \<Rightarrow> riscv_reloc list \<Rightarrow> scan_state \<Rightarrow> scan_state option" where
  "scan_all elf addr bs existing resolve [] st = Some st"
| "scan_all elf addr bs existing resolve (rel # rels) st =
     Option.bind (scan_step elf addr bs existing resolve rel st) (scan_all elf addr bs existing resolve rels)"

definition scan_start :: scan_state where
  "scan_start = \<lparr>raw_deltas = [], min_unrelaxed_margin = None, prev_call = None, prev_hi20 = None,
                 new_cumulative_delta = 0\<rparr>"

definition collect_relaxation_deltas ::
    "elf_consts \<Rightarrow> u64 \<Rightarrow> bytes \<Rightarrow> riscv_reloc list \<Rightarrow> section_relax_deltas option
     \<Rightarrow> (nat \<Rightarrow> relax_symbol_info option) \<Rightarrow> ((u64 \<times> u32) list \<times> u64 option) option" where
  "collect_relaxation_deltas elf section_output_address section_bytes relocations existing resolve_symbol =
     map_option (\<lambda>st. (raw_deltas st, min_unrelaxed_margin st))
       (scan_all elf section_output_address section_bytes existing resolve_symbol relocations scan_start)"

subsection \<open>Alignment padding\<close>

definition scan_position :: "u64 \<Rightarrow> section_relax_deltas option \<Rightarrow> riscv_reloc \<Rightarrow> scan_state \<Rightarrow> u64" where
  "scan_position addr existing rel st =
     addr + (r_offset rel - existing_cum existing (r_offset rel) - new_cumulative_delta st)"

lemma scan_align_eq:
  fixes st :: scan_state
  assumes "r_addend rel \<noteq> 0" and "\<not> existing_delta existing (r_offset rel)"
    and "unat (r_addend rel) < 2 ^ 32" and "unat p + 2 * unat (r_addend rel) < 2 ^ 64"
    and p: "p = scan_position addr existing rel st"
  shows "\<exists>d n. unat (next_power_of_two (r_addend rel)) dvd d \<and> unat p \<le> d
    \<and> d < unat p + unat (next_power_of_two (r_addend rel))
    \<and> unat n = unat p + unat (r_addend rel) - d
    \<and> scan_align addr existing rel st =
        Some (clear_prev (if n = 0 then st else delete_bytes (r_offset rel) n st))"
proof -
  let ?a = "r_addend rel" and ?al = "next_power_of_two (r_addend rel)"
  have small: "unat ?a \<le> 2 ^ 63" using assms(3) by simp
  note b = next_power_of_two_bounds [OF assms(1) small]
  have "?al \<noteq> 0" using b(1) assms(1) by (metis le_zero_eq unat_0 unat_eq_zero)
  moreover have "unat p + unat ?al < 2 ^ 64" using b(2) assms(4) by simp
  ultimately obtain d where d: "next_multiple_of p ?al = Some d" "unat ?al dvd unat d" "unat p \<le> unat d"
      "unat d < unat p + unat ?al"
    using next_multiple_of_bounds by blast
  have act: "unat (p + ?a) = unat p + unat ?a" using assms(4) by (simp add: unat_word_ariths)
  let ?n = "if d < p + ?a then ucast (p + ?a - d) else 0 :: u32"
  have n: "unat ?n = unat p + unat ?a - unat d"
  proof (cases "d < p + ?a")
    case True
    then have sub: "unat (p + ?a - d) = unat p + unat ?a - unat d" by (simp add: unat_sub act)
    then have "unat (p + ?a - d) < 2 ^ 32" using d(3) assms(3) by simp
    then show ?thesis using True sub by (simp add: unsigned_ucast_eq take_bit_nat_eq_self)
  qed (simp add: word_less_nat_alt act)
  have "scan_align addr existing rel st =
      Some (clear_prev (if p + ?a > d then delete_bytes (r_offset rel) (ucast (p + ?a - d)) st else st))"
    using assms(1,2) d(1) p by (simp add: scan_align_def scan_position_def Let_def)
  also have "\<dots> = Some (clear_prev (if ?n = 0 then st else delete_bytes (r_offset rel) ?n st))"
  proof -
    have "d < p + ?a \<longleftrightarrow> ?n \<noteq> 0"
      using n act by (auto simp: word_less_nat_alt unat_eq_0 [symmetric] split: if_splits)
    then show ?thesis by (cases "d < p + ?a") auto
  qed
  finally show ?thesis using d n by blast
qed

text \<open>
  C36. The padding that \<^verbatim>\<open>R_RISCV_ALIGN\<close> leaves: when the no-ops of the assembler suffice to reach a
  multiple of the requested alignment, the bytes that are kept end exactly at the next such
  multiple, no more bytes are deleted than the padding has, and the deletion is recorded.
\<close>

theorem riscv_align_padding:
  fixes st :: scan_state
  assumes "r_addend rel \<noteq> 0" and "\<not> existing_delta existing (r_offset rel)"
    and "unat (r_addend rel) < 2 ^ 32" and "unat p + 2 * unat (r_addend rel) < 2 ^ 64"
    and "p = scan_position addr existing rel st"
    and "align = unat (next_power_of_two (r_addend rel))"
    and "align dvd m" and "unat p \<le> m" and "m \<le> unat p + unat (r_addend rel)"
  shows "\<exists>st' n. scan_align addr existing rel st = Some st'
    \<and> raw_deltas st' = raw_deltas st @ (if n = 0 then [] else [(r_offset rel, n)])
    \<and> new_cumulative_delta st' = new_cumulative_delta st + ucast n
    \<and> unat n \<le> unat (r_addend rel)
    \<and> align dvd unat p + (unat (r_addend rel) - unat n)
    \<and> unat (r_addend rel) - unat n < align
    \<and> (\<exists>k. align = 2 ^ k) \<and> unat (r_addend rel) \<le> align"
proof -
  obtain d n where d: "align dvd d" "unat p \<le> d" "d < unat p + align"
      and n: "unat n = unat p + unat (r_addend rel) - d"
      and sc: "scan_align addr existing rel st =
        Some (clear_prev (if n = 0 then st else delete_bytes (r_offset rel) n st))"
    using scan_align_eq [OF assms(1-5)] assms(6) by blast
  have "d \<le> m"
  proof (rule ccontr)
    assume "\<not> d \<le> m"
    then have "m + align \<le> d" using d(1) assms(7) by (metis dvd_diff_nat dvd_imp_le le_diff_conv2 less_or_eq_imp_le linorder_not_le zero_less_diff add.commute)
    with d(3) assms(8) show False by simp
  qed
  then have "unat p + (unat (r_addend rel) - unat n) = d" "unat n \<le> unat (r_addend rel)"
    "unat (r_addend rel) - unat n < align"
    using n d(2,3) assms(9) by linarith+
  moreover have "(\<exists>k. align = 2 ^ k) \<and> unat (r_addend rel) \<le> align"
    using next_power_of_two_bounds [OF assms(1)] assms(3,6) by simp
  ultimately show ?thesis
    using sc d(1)
    by (intro exI [of _ "clear_prev (if n = 0 then st else delete_bytes (r_offset rel) n st)"] exI [of _ n])
       (simp add: clear_prev_def delete_bytes_def)
qed

definition sample_align :: riscv_reloc where
  "sample_align = \<lparr>raw_type = 43, r_offset = 0, r_symbol = None, r_addend = 14\<rparr>"

theorem riscv_align_padding_witness:
  "\<exists>st' n. scan_align 0x1002 None sample_align scan_start = Some st'
    \<and> raw_deltas st' = raw_deltas scan_start @ (if n = 0 then [] else [(r_offset sample_align, n)])
    \<and> new_cumulative_delta st' = new_cumulative_delta scan_start + ucast n
    \<and> unat n \<le> unat (r_addend sample_align)
    \<and> 16 dvd unat (0x1002 :: u64) + (unat (r_addend sample_align) - unat n)
    \<and> unat (r_addend sample_align) - unat n < 16
    \<and> (\<exists>k. 16 = (2 :: nat) ^ k) \<and> unat (r_addend sample_align) \<le> 16"
proof -
  have "bit_width 13 = 4" by (simp add: bit_width_0 bit_width_pos)
  then have np: "unat (next_power_of_two 14) = 16" by (simp add: next_power_of_two_def)
  show ?thesis
    by (rule riscv_align_padding [where m = "0x1010"])
       (simp_all add: existing_delta_def existing_cum_def scan_position_def np sample_align_def scan_start_def)
qed

subsection \<open>The deletions of a scan are well formed\<close>

text \<open>
  Relocations in the order of their offsets whose instructions (eight bytes for a call, four for
  \<^verbatim>\<open>HI20\<close>, the padding for \<^verbatim>\<open>ALIGN\<close>) do not overlap, in a section that fits the address space.
\<close>

fun relocs_ok :: "elf_consts \<Rightarrow> u64 \<Rightarrow> nat \<Rightarrow> riscv_reloc list \<Rightarrow> bool" where
  "relocs_ok elf addr pos [] \<longleftrightarrow> True"
| "relocs_ok elf addr pos (rel # rels) \<longleftrightarrow>
     (if raw_type rel = elf ''R_RISCV_ALIGN'' then
        pos \<le> unat (r_offset rel) \<and> unat (r_addend rel) < 2 ^ 32 \<and>
        unat addr + unat (r_offset rel) + 2 * unat (r_addend rel) < 2 ^ 64 \<and>
        relocs_ok elf addr (unat (r_offset rel) + unat (r_addend rel)) rels
      else if raw_type rel = elf ''R_RISCV_CALL'' \<or> raw_type rel = elf ''R_RISCV_CALL_PLT'' then
        pos \<le> unat (r_offset rel) \<and> unat (r_offset rel) + 8 < 2 ^ 64 \<and>
        relocs_ok elf addr (unat (r_offset rel) + 8) rels
      else if raw_type rel = elf ''R_RISCV_HI20'' then
        pos \<le> unat (r_offset rel) \<and> unat (r_offset rel) + 4 < 2 ^ 64 \<and>
        relocs_ok elf addr (unat (r_offset rel) + 4) rels
      else relocs_ok elf addr pos rels)"

text \<open>The invariant of the scan: deletions end below the space of the instruction under consideration.\<close>

fun span_end :: "nat \<Rightarrow> (u64 \<times> u32) list \<Rightarrow> nat" where
  "span_end pos [] = pos"
| "span_end pos ((off, b) # raw) = span_end (unat off + unat b) raw"

definition span_total :: "(u64 \<times> u32) list \<Rightarrow> nat" where
  "span_total raw = sum_list (map (\<lambda>(_, b). unat b) raw)"

definition scan_inv :: "nat \<Rightarrow> scan_state \<Rightarrow> bool" where
  "scan_inv pos st \<longleftrightarrow>
     spans_ok 0 (raw_deltas st) \<and> span_end 0 (raw_deltas st) \<le> pos \<and>
     unat (new_cumulative_delta st) = span_total (raw_deltas st) \<and>
     (\<forall>off sy. prev_call st = Some (off, sy) \<longrightarrow>
        span_end 0 (raw_deltas st) \<le> unat off + 4 \<and> unat off + 8 \<le> pos \<and> unat off + 8 < 2 ^ 64) \<and>
     (\<forall>off sy a. prev_hi20 st = Some (off, sy, a) \<longrightarrow>
        span_end 0 (raw_deltas st) \<le> unat off \<and> unat off + 4 \<le> pos \<and> unat off + 4 < 2 ^ 64)"

lemma spans_ok_append:
  "spans_ok pos (raw @ [(off, b)]) \<longleftrightarrow>
     spans_ok pos raw \<and> span_end pos raw \<le> unat off \<and> 0 < unat b \<and> unat off + unat b < 2 ^ 64"
  by (induction pos raw rule: spans_ok.induct) auto

lemma span_end_append: "span_end pos (raw @ [(off, b)]) = unat off + unat b"
  by (induction pos raw rule: span_end.induct) auto

lemma span_total_le: "spans_ok pos raw \<Longrightarrow> pos + span_total raw \<le> span_end pos raw"
  by (induction pos raw rule: spans_ok.induct) (auto simp: span_total_def)

lemma delete_bytes_inv:
  assumes "scan_inv pos st" and "span_end 0 (raw_deltas st) \<le> unat off" and "0 < unat b"
    and "unat off + unat b < 2 ^ 64" and "unat off + unat b \<le> pos'"
  shows "scan_inv pos' (clear_prev (delete_bytes off b st))"
proof -
  have ok: "spans_ok 0 (raw_deltas st @ [(off, b)])"
    using assms by (simp add: scan_inv_def spans_ok_append)
  have "span_total (raw_deltas st) + unat b < 2 ^ 64"
    using span_total_le [OF ok] assms(4) by (simp add: span_end_append span_total_def)
  then have "unat (new_cumulative_delta st + ucast b) = span_total (raw_deltas st) + unat b"
    using assms(1) by (simp add: scan_inv_def unat_word_ariths)
  then show ?thesis
    using ok assms(5) by (simp add: scan_inv_def clear_prev_def delete_bytes_def span_end_append span_total_def)
qed

lemma clear_prev_inv: "scan_inv pos st \<Longrightarrow> pos \<le> pos' \<Longrightarrow> scan_inv pos' (clear_prev st)"
  by (auto simp: scan_inv_def clear_prev_def)

lemma clear_note_inv: "scan_inv pos st \<Longrightarrow> scan_inv pos (clear_prev (note_margin m st))"
  by (auto simp: scan_inv_def clear_prev_def note_margin_def)

lemma scan_call_inv:
  assumes "scan_inv pos st" and "prev_call st = Some (off, sy)"
  shows "scan_inv pos (clear_prev (scan_call addr resolve off sy st))"
proof -
  have b: "span_end 0 (raw_deltas st) \<le> unat off + 4" "unat off + 8 \<le> pos" "unat off + 8 < 2 ^ 64"
    using assms by (auto simp: scan_inv_def)
  have "unat (off + 4) = unat off + 4" using unat_add_small [of off 4] b by simp
  then have "scan_inv pos (clear_prev (delete_bytes (off + 4) 4 st))"
    using b by (intro delete_bytes_inv [OF assms(1)]) auto
  then show ?thesis
    using clear_prev_inv [OF assms(1)] clear_note_inv [OF assms(1)]
    by (simp add: scan_call_def Let_def split: option.splits)
qed

lemma scan_hi20_inv:
  assumes "scan_inv pos st" and "prev_hi20 st = Some (off, sy, a)"
    and "scan_hi20 bs off address addend st = Some st'"
  shows "scan_inv pos (clear_prev st')"
proof -
  have b: "span_end 0 (raw_deltas st) \<le> unat off" "unat off + 4 \<le> pos" "unat off + 4 < 2 ^ 64"
    using assms by (auto simp: scan_inv_def)
  have "unat (off + 2) = unat off + 2" using unat_add_small [of off 2] b by simp
  then have "scan_inv pos (clear_prev (delete_bytes (off + 2) 2 st))"
      "scan_inv pos (clear_prev (delete_bytes off 4 st))"
    using b by (intro delete_bytes_inv [OF assms(1)]; simp)+
  with assms(3) show ?thesis
    using clear_prev_inv [OF assms(1)] clear_note_inv [OF assms(1)]
    by (auto simp: scan_hi20_def Let_def bind_eq_Some_conv split: if_splits)
qed

lemma scan_align_inv:
  assumes inv: "scan_inv pos st" and pos: "pos \<le> unat (r_offset rel)" and a: "unat (r_addend rel) < 2 ^ 32"
    and fit: "unat addr + unat (r_offset rel) + 2 * unat (r_addend rel) < 2 ^ 64"
    and sc: "scan_align addr None rel st = Some st'"
  shows "scan_inv (unat (r_offset rel) + unat (r_addend rel)) st'"
proof (cases "r_addend rel = 0")
  case True
  then show ?thesis using sc clear_prev_inv [OF inv] pos by (simp add: scan_align_def)
next
  case False
  let ?p = "scan_position addr None rel st"
  have cum: "unat (new_cumulative_delta st) \<le> unat (r_offset rel)"
    using inv span_total_le [of 0 "raw_deltas st"] pos by (simp add: scan_inv_def)
  then have "unat (r_offset rel - new_cumulative_delta st) = unat (r_offset rel) - unat (new_cumulative_delta st)"
    by (simp add: unat_sub word_le_nat_alt)
  then have "unat ?p = unat addr + (unat (r_offset rel) - unat (new_cumulative_delta st))"
    using fit by (simp add: scan_position_def existing_cum_def unat_word_ariths)
  then have "unat ?p + 2 * unat (r_addend rel) < 2 ^ 64" using fit by simp
  then obtain d n where d: "unat ?p \<le> d" and n: "unat n = unat ?p + unat (r_addend rel) - d"
      and st': "st' = clear_prev (if n = 0 then st else delete_bytes (r_offset rel) n st)"
    using scan_align_eq [OF False _ a _ refl, of None addr st] sc by (auto simp: existing_delta_def)
  have "unat n \<le> unat (r_addend rel)" using n d by simp
  then have "n \<noteq> 0 \<Longrightarrow> scan_inv (unat (r_offset rel) + unat (r_addend rel)) (clear_prev (delete_bytes (r_offset rel) n st))"
    using inv pos fit by (intro delete_bytes_inv [OF inv]) (auto simp: scan_inv_def unat_gt_0)
  then show ?thesis using st' clear_prev_inv [OF inv] pos by (cases "n = 0") simp_all
qed

lemma scan_after_hi20_inv:
  assumes "scan_inv pos st" and "scan_after_hi20 bs existing resolve rel st = Some st'"
  shows "scan_inv pos (clear_prev st')"
  using assms clear_prev_inv [OF assms(1)] scan_hi20_inv [OF assms(1)]
  by (auto simp: scan_after_hi20_def split: option.splits prod.splits if_splits)

fun next_pos :: "elf_consts \<Rightarrow> nat \<Rightarrow> riscv_reloc \<Rightarrow> nat" where
  "next_pos elf pos rel =
     (if raw_type rel = elf ''R_RISCV_ALIGN'' then unat (r_offset rel) + unat (r_addend rel)
      else if raw_type rel = elf ''R_RISCV_CALL'' \<or> raw_type rel = elf ''R_RISCV_CALL_PLT'' then
        unat (r_offset rel) + 8
      else if raw_type rel = elf ''R_RISCV_HI20'' then unat (r_offset rel) + 4
      else pos)"

lemma scan_step_inv:
  assumes inv: "scan_inv pos st" and ok: "relocs_ok elf addr pos (rel # rels)"
    and step: "scan_step elf addr bs None resolve rel st = Some st'"
  shows "scan_inv (next_pos elf pos rel) st' \<and> relocs_ok elf addr (next_pos elf pos rel) rels"
proof -
  consider (align) "raw_type rel = elf ''R_RISCV_ALIGN''"
    | (call) "raw_type rel \<noteq> elf ''R_RISCV_ALIGN''" "raw_type rel = elf ''R_RISCV_CALL'' \<or> raw_type rel = elf ''R_RISCV_CALL_PLT''"
    | (hi20) "raw_type rel \<noteq> elf ''R_RISCV_ALIGN''" "\<not> (raw_type rel = elf ''R_RISCV_CALL'' \<or> raw_type rel = elf ''R_RISCV_CALL_PLT'')"
        "raw_type rel = elf ''R_RISCV_HI20''"
    | (other) "raw_type rel \<noteq> elf ''R_RISCV_ALIGN''" "\<not> (raw_type rel = elf ''R_RISCV_CALL'' \<or> raw_type rel = elf ''R_RISCV_CALL_PLT'')"
        "raw_type rel \<noteq> elf ''R_RISCV_HI20''"
    by blast
  then show ?thesis
  proof cases
    case align
    then show ?thesis using ok step scan_align_inv [OF inv, of rel addr st'] by (simp add: scan_step_def)
  next
    case call
    then show ?thesis using ok step inv by (auto simp: scan_step_def scan_inv_def)
  next
    case hi20
    then show ?thesis using ok step inv by (auto simp: scan_step_def scan_inv_def)
  next
    case other
    then have "scan_inv pos st'"
      using step clear_prev_inv [OF inv] scan_call_inv [OF inv] scan_after_hi20_inv [OF inv]
      by (auto simp: scan_step_def split: if_splits option.splits)
    with other ok show ?thesis by simp
  qed
qed

lemma scan_all_inv:
  assumes "scan_inv pos st" and "relocs_ok elf addr pos rels"
    and "scan_all elf addr bs None resolve rels st = Some st'"
  shows "\<exists>pos'. scan_inv pos' st'"
  using assms
proof (induction rels arbitrary: pos st)
  case (Cons rel rels)
  from Cons.prems(3) obtain st1 where st1: "scan_step elf addr bs None resolve rel st = Some st1"
      "scan_all elf addr bs None resolve rels st1 = Some st'"
    by (auto simp: bind_eq_Some_conv)
  with scan_step_inv [OF Cons.prems(1,2) st1(1)] Cons.IH show ?case by blast
qed auto

text \<open>
  C3. The first scan of a section whose relocations come in order and do not overlap: the deletions
  it returns can be made into a table of deltas, which is well formed, so that all offset
  translations of the section are exact.
\<close>

theorem collected_deltas_wf:
  assumes "relocs_ok elf addr 0 rels"
    and "collect_relaxation_deltas elf addr bs rels None resolve = Some (raw, margin)"
  shows "\<exists>s. SectionRelaxDeltas_new raw = Some s \<and> deltas_wf s \<and> deleted s = span_set raw"
proof -
  obtain st where st: "scan_all elf addr bs None resolve rels scan_start = Some st" "raw = raw_deltas st"
    using assms(2) by (auto simp: collect_relaxation_deltas_def)
  have "scan_inv 0 scan_start" by (simp add: scan_inv_def scan_start_def span_total_def)
  then obtain pos where "scan_inv pos st" using scan_all_inv [OF _ assms(1) st(1)] by blast
  then show ?thesis using new_wf [of raw] st(2) by (simp add: scan_inv_def)
qed

definition sample_elf :: elf_consts where
  "sample_elf n = (if n = ''R_RISCV_CALL_PLT'' then 19 else if n = ''R_RISCV_RELAX'' then 51 else 0)"

definition sample_relocs :: "riscv_reloc list" where
  "sample_relocs =
     [\<lparr>raw_type = 19, r_offset = 0, r_symbol = Some 1, r_addend = 0\<rparr>,
      \<lparr>raw_type = 51, r_offset = 0, r_symbol = None, r_addend = 0\<rparr>]"

theorem collected_deltas_wf_witness:
  "\<exists>s. SectionRelaxDeltas_new [(4, 4)] = Some s \<and> deltas_wf s \<and> deleted s = span_set [(4, 4)]"
  by (rule collected_deltas_wf [of sample_elf "0x10000" sample_relocs "replicate 8 0"
        "\<lambda>_. Some \<lparr>output_address = 0x20000, is_interposable = False\<rparr>" _ None])
     (simp_all add: sample_elf_def sample_relocs_def collect_relaxation_deltas_def scan_step_def scan_start_def
        scan_call_def existing_delta_def distance_fits_jal_def delete_bytes_def clear_prev_def)

end
