(* ===== verification/Layout.thy ===== *)
theory Layout
  imports Elf_Platform
begin

unbundle bit_operations_syntax

text \<open>
  Layout of the output file, from \<^verbatim>\<open>libsld/src/layout.rs\<close>: \<^verbatim>\<open>compute_segment_alignments\<close>,
  \<^verbatim>\<open>layout_section_parts\<close> (which gives every part of every section its file offset and its address),
  \<^verbatim>\<open>layout_sections\<close>, \<^verbatim>\<open>merge_secondary_parts\<close> and \<^verbatim>\<open>compute_total_file_size\<close>, with the lemmas on the
  placement of one part. \<^verbatim>\<open>usize\<close> has 64 bits.
\<close>

record output_record_layout =
  file_size :: u64
  mem_size :: u64
  rec_alignment :: align
  file_offset :: u64
  mem_offset :: u64

definition default_layout :: output_record_layout where
  "default_layout = \<lparr>file_size = 0, mem_size = 0, rec_alignment = MIN_ALIGN, file_offset = 0, mem_offset = 0\<rparr>"

text \<open>What the layout reads from the command line.\<close>

record layout_args =
  loadable_segment_alignment :: align
  should_output_partial_object :: bool
  stack_size_override :: "u64 option"

subsection \<open>Segment alignments\<close>

type_synonym segment_alignments = "segment_id \<rightharpoonup> align"

definition segment_alignment_step ::
    "('attr, 'def) platform \<Rightarrow> 'attr output_sections \<Rightarrow> 'def list \<Rightarrow> layout_args \<Rightarrow> u64 list \<Rightarrow> order_event
     \<Rightarrow> segment_alignments \<times> segment_id list \<Rightarrow> (segment_alignments \<times> segment_id list) option" where
  "segment_alignment_step pf os segs args sizes ev st =
     (case st of (aligns, active) \<Rightarrow>
      case ev of
        SegmentStart sid \<Rightarrow>
          do {
            load \<leftarrow> is_load_segment pf segs sid;
            Some (if load
                  then (case aligns sid of
                          None \<Rightarrow> aligns(sid \<mapsto> loadable_segment_alignment args) | Some _ \<Rightarrow> aligns,
                        active @ [sid])
                  else (aligns, active))
          }
      | SegmentEnd sid \<Rightarrow> Some (aligns, filter (\<lambda>i. i \<noteq> sid) active)
      | Section s \<Rightarrow>
          do {
            m \<leftarrow> max_alignment 0 os (part_id_range s) sizes;
            Some (\<lambda>sid. if sid \<in> set active then map_option (\<lambda>a. align_max a m) (aligns sid) else aligns sid, active)
          }
      | SetLocation _ \<Rightarrow> Some (aligns, active))"

fun fold_opt :: "('a \<Rightarrow> 's \<Rightarrow> 's option) \<Rightarrow> 'a list \<Rightarrow> 's \<Rightarrow> 's option" where
  "fold_opt f [] st = Some st"
| "fold_opt f (x # xs) st = Option.bind (f x st) (fold_opt f xs)"

definition compute_segment_alignments ::
    "('attr, 'def) platform \<Rightarrow> 'attr output_sections \<Rightarrow> 'def list \<Rightarrow> layout_args \<Rightarrow> u64 list \<Rightarrow> order_event list
     \<Rightarrow> segment_alignments option" where
  "compute_segment_alignments pf os segs args sizes evs =
     map_option fst (fold_opt (segment_alignment_step pf os segs args sizes) evs (Map.empty, []))"

subsection \<open>Parts\<close>

record layout_state =
  cur_file :: u64
  cur_mem :: u64
  nonalloc_mem_offsets :: "u64 list"
  reloc_alloc_mem_offsets :: "u64 list"
  pending_location :: "u64 option"
  records_out :: "output_record_layout list"

text \<open>
  The loop body of \<^verbatim>\<open>layout_section_parts\<close> for one part of a section. \<open>place_mem\<close> is its choice of the
  address: allocated parts take the memory cursor, those of a partial object and parts that are
  not allocated take a cursor of their section.
\<close>

definition place_mem ::
    "bool \<Rightarrow> bool \<Rightarrow> section_id \<Rightarrow> align \<Rightarrow> u64 \<Rightarrow> layout_state \<Rightarrow> (u64 \<times> layout_state) option" where
  "place_mem alloc partial part_section al sz st =
     (if alloc then
        if partial then
          do {
            prev \<leftarrow> get_at (reloc_alloc_mem_offsets st) (unat part_section);
            let part_mem_offset = align_up al prev;
            offsets \<leftarrow> set_at (unat part_section) (part_mem_offset + sz) (reloc_alloc_mem_offsets st);
            Some (part_mem_offset, st\<lparr>reloc_alloc_mem_offsets := offsets\<rparr>)
          }
        else
          let mem = align_up al (cur_mem st) in Some (mem, st\<lparr>cur_mem := mem + sz\<rparr>)
      else
        do {
          prev \<leftarrow> get_at (nonalloc_mem_offsets st) (unat part_section);
          offsets \<leftarrow> set_at (unat part_section) (prev + sz) (nonalloc_mem_offsets st);
          Some (align_up al prev, st\<lparr>nonalloc_mem_offsets := offsets\<rparr>)
        })"

definition place_part ::
    "('attr, 'def) platform \<Rightarrow> 'attr output_sections \<Rightarrow> layout_args \<Rightarrow> u64 list \<Rightarrow> section_id \<Rightarrow> align \<Rightarrow> nat
     \<Rightarrow> layout_state \<Rightarrow> layout_state option" where
  "place_part pf os args sizes section_id max_align offset st =
     do {
       let part_id = part_offset (base_part_id section_id) offset;
       part_size \<leftarrow> part_get part_id sizes;
       part_align \<leftarrow> part_alignment os part_id;
       let al = align_min part_align max_align;
       target \<leftarrow> primary_output_section os section_id;
       target_info \<leftarrow> output_info os target;
       let alloc = attr_is_alloc pf (section_attributes target_info);
       let sz = (if section_id = RELRO_PADDING
                   then align_up (loadable_segment_alignment args) (cur_mem st) - cur_mem st
                   else part_size);
       let file = align_up_usize al (cur_file st);
       let data_size = (if alloc \<and> \<not> has_data_in_file pf (section_attributes target_info) then 0 else sz);
       (mem, st1) \<leftarrow>
         place_mem alloc (should_output_partial_object args) (output_section_id part_id) al sz st;
       recs \<leftarrow> set_at (unat part_id)
                \<lparr>file_size = data_size, mem_size = sz, rec_alignment = al, file_offset = file, mem_offset = mem\<rparr>
                (records_out st);
       Some (st1\<lparr>cur_file := file + data_size, records_out := recs\<rparr>)
     }"

definition place_section ::
    "('attr, 'def) platform \<Rightarrow> 'attr output_sections \<Rightarrow> layout_args \<Rightarrow> u64 list \<Rightarrow> section_id
     \<Rightarrow> layout_state \<Rightarrow> layout_state option" where
  "place_section pf os args sizes section_id st =
     (if pending_location st \<noteq> None then None
      else
        do {
          info \<leftarrow> output_info os section_id;
          max_align \<leftarrow> max_alignment 0 os (part_id_range section_id) sizes;
          let st1 = (case location info of Some l \<Rightarrow> st\<lparr>cur_mem := l\<rparr> | None \<Rightarrow> st);
          parts \<leftarrow> part_slice (part_id_range section_id) (records_out st1);
          fold_opt (place_part pf os args sizes section_id max_align) [0..<length parts] st1
        })"

definition start_segment ::
    "('attr, 'def) platform \<Rightarrow> 'def list \<Rightarrow> layout_args \<Rightarrow> segment_alignments \<Rightarrow> segment_id
     \<Rightarrow> layout_state \<Rightarrow> layout_state option" where
  "start_segment pf segs args aligns sid st =
     do {
       d \<leftarrow> segment_def segs sid;
       if def_is_loadable pf d then
         let al = (case aligns sid of Some a \<Rightarrow> a | None \<Rightarrow> loadable_segment_alignment args) in
         case pending_location st of
           Some l \<Rightarrow>
             Some (st\<lparr>pending_location := None, cur_mem := l, cur_file := align_modulo al l (cur_file st)\<rparr>)
         | None \<Rightarrow>
             let (f, m) = align_load_segment_start pf d al (cur_file st, cur_mem st)
             in Some (st\<lparr>cur_file := f, cur_mem := m\<rparr>)
       else Some st
     }"

fun layout_step ::
    "('attr, 'def) platform \<Rightarrow> 'attr output_sections \<Rightarrow> 'def list \<Rightarrow> layout_args \<Rightarrow> u64 list \<Rightarrow> segment_alignments
     \<Rightarrow> order_event \<Rightarrow> layout_state \<Rightarrow> layout_state option" where
  "layout_step pf os segs args sizes aligns (SetLocation l) st = Some (st\<lparr>pending_location := Some l\<rparr>)"
| "layout_step pf os segs args sizes aligns (SegmentStart sid) st = start_segment pf segs args aligns sid st"
| "layout_step pf os segs args sizes aligns (SegmentEnd _) st = Some st"
| "layout_step pf os segs args sizes aligns (Section s) st = place_section pf os args sizes s st"

definition layout_start :: "'attr output_sections \<Rightarrow> layout_state" where
  "layout_start os =
     \<lparr>cur_file = 0, cur_mem = base_address os, nonalloc_mem_offsets = replicate (num_sections os) 0,
      reloc_alloc_mem_offsets = replicate (num_sections os) 0, pending_location = None,
      records_out = replicate (sections_num_parts os) default_layout\<rparr>"

definition layout_section_parts ::
    "('attr, 'def) platform \<Rightarrow> 'attr output_sections \<Rightarrow> 'def list \<Rightarrow> layout_args \<Rightarrow> u64 list \<Rightarrow> order_event list
     \<Rightarrow> output_record_layout list option" where
  "layout_section_parts pf os segs args sizes evs =
     do {
       aligns \<leftarrow> compute_segment_alignments pf os segs args sizes evs;
       map_option records_out
         (fold_opt (layout_step pf os segs args sizes aligns) evs (layout_start os))
     }"

subsection \<open>Sections\<close>

definition merge_layout :: "output_record_layout \<Rightarrow> output_record_layout \<Rightarrow> output_record_layout option" where
  "merge_layout self other =
     (if mem_offset other \<ge> mem_offset self \<and> file_offset other \<ge> file_offset self
      then Some (self\<lparr>mem_size := mem_size self + mem_size other, file_size := file_size self + file_size other,
                      rec_alignment := (if mem_size other > 0 then align_max (rec_alignment self) (rec_alignment other)
                                        else rec_alignment self)\<rparr>)
      else None)"

fun section_bounds :: "output_record_layout list \<Rightarrow> u64 \<times> u64 \<times> u64 \<times> u64 \<times> align \<Rightarrow> u64 \<times> u64 \<times> u64 \<times> u64 \<times> align" where
  "section_bounds [] acc = acc"
| "section_bounds (p # ps) (fo, mo, fe, me, al) =
     section_bounds ps
       (min fo (file_offset p), min mo (mem_offset p), max fe (file_offset p + file_size p),
        max me (mem_offset p + mem_size p), if mem_size p > 0 then align_max al (rec_alignment p) else al)"

definition section_layout :: "align \<Rightarrow> output_record_layout list \<Rightarrow> output_record_layout" where
  "section_layout min_align parts =
     (case section_bounds parts (- 1, - 1, 0, 0, min_align) of
        (fo, mo, fe, me, al) \<Rightarrow>
          \<lparr>file_size = fe - fo, mem_size = me - mo, rec_alignment = al, file_offset = fo, mem_offset = mo\<rparr>)"

definition layout_sections :: "'attr output_sections \<Rightarrow> output_record_layout list \<Rightarrow> output_record_layout list option" where
  "layout_sections os parts =
     Option.bind
       (merge_parts (\<lambda>s ps. map_option (\<lambda>info. section_layout (min_alignment info) ps) (output_info os s)) parts)
       those"

fun merge_secondary_loop ::
    "nat \<Rightarrow> 'attr section_output_info list \<Rightarrow> output_record_layout list \<Rightarrow> output_record_layout list option" where
  "merge_secondary_loop i [] layouts = Some layouts"
| "merge_secondary_loop i (info # infos) layouts =
     do {
       layouts' \<leftarrow>
         (case info_kind info of
            Primary _ \<Rightarrow> Some layouts
          | Secondary primary \<Rightarrow>
              do {
                sec \<leftarrow> get_at layouts i;
                l1 \<leftarrow> set_at i default_layout layouts;
                pri \<leftarrow> get_at l1 (unat primary);
                merged \<leftarrow> merge_layout pri sec;
                set_at (unat primary) merged l1
              });
       merge_secondary_loop (Suc i) infos layouts'
     }"

definition merge_secondary_parts ::
    "'attr output_sections \<Rightarrow> output_record_layout list \<Rightarrow> output_record_layout list option" where
  "merge_secondary_parts os layouts = merge_secondary_loop 0 (section_infos os) layouts"

definition compute_total_file_size :: "output_record_layout list \<Rightarrow> u64" where
  "compute_total_file_size layouts = fold (\<lambda>s acc. max acc (file_offset s + file_size s)) layouts 0"

definition starting_memory_offsets :: "output_record_layout list \<Rightarrow> u64 list" where
  "starting_memory_offsets layouts = map mem_offset layouts"

subsection \<open>Extents in a row\<close>

text \<open>
  \<open>chained\<close>: the records at the given indices have aligned offsets and follow one another without
  overlap between two bounds. It is used for file extents and for memory extents.
\<close>

fun chained ::
    "('r \<Rightarrow> u64) \<Rightarrow> ('r \<Rightarrow> u64) \<Rightarrow> ('r \<Rightarrow> align) \<Rightarrow> 'r list \<Rightarrow> nat list \<Rightarrow> nat \<Rightarrow> nat \<Rightarrow> bool" where
  "chained off len al recs [] lo hi \<longleftrightarrow> lo \<le> hi"
| "chained off len al recs (p # ps) lo hi \<longleftrightarrow>
     p < length recs \<and> lo \<le> unat (off (recs ! p)) \<and> unat (off (recs ! p)) mod align_nat (al (recs ! p)) = 0
     \<and> chained off len al recs ps (unat (off (recs ! p)) + unat (len (recs ! p))) hi"

lemma chained_mono: "chained off len al recs ps lo hi \<Longrightarrow> hi \<le> hi' \<Longrightarrow> chained off len al recs ps lo hi'"
  by (induction ps arbitrary: lo) auto

lemma chained_le: "chained off len al recs ps lo hi \<Longrightarrow> lo \<le> hi"
  by (induction ps arbitrary: lo) fastforce+

lemma chained_update:
  "p \<notin> set ps \<Longrightarrow> chained off len al (recs[p := r]) ps lo hi \<longleftrightarrow> chained off len al recs ps lo hi"
  by (induction ps arbitrary: lo) auto

lemma chained_snoc:
  "chained off len al recs (ps @ [p]) lo hi \<longleftrightarrow>
     p < length recs \<and> unat (off (recs ! p)) mod align_nat (al (recs ! p)) = 0
     \<and> chained off len al recs ps lo (unat (off (recs ! p)))
     \<and> unat (off (recs ! p)) + unat (len (recs ! p)) \<le> hi"
  by (induction ps arbitrary: lo) auto

text \<open>Placing one more record after the last one.\<close>

lemma chained_place:
  assumes "chained off len al recs ps lo (unat cur)" and "p \<notin> set ps" and "p < length recs"
    and "unat cur \<le> unat (off r)" and "unat (off r) mod align_nat (al r) = 0"
    and "unat (off r) + unat (len r) \<le> unat cur'"
  shows "chained off len al (recs[p := r]) (ps @ [p]) lo (unat cur')"
  using assms chained_mono [OF assms(1,4)] by (simp add: chained_snoc chained_update)

lemma chained_sorted:
  assumes "chained off len al recs ps lo hi"
  shows "sorted_wrt (\<lambda>p q. unat (off (recs ! p)) + unat (len (recs ! p)) \<le> unat (off (recs ! q))) ps"
    and "\<forall>p \<in> set ps. p < length recs \<and> unat (off (recs ! p)) mod align_nat (al (recs ! p)) = 0
           \<and> lo \<le> unat (off (recs ! p))"
  using assms
proof (induction ps arbitrary: lo)
  case (Cons p ps)
  {
    case 1
    then show ?case using Cons.IH [of "unat (off (recs ! p)) + unat (len (recs ! p))"] by auto
  next
    case 2
    then show ?case using Cons.IH(2) [of "unat (off (recs ! p)) + unat (len (recs ! p))"] by fastforce
  }
qed simp_all

subsection \<open>Alignments of parts\<close>

lemma align_min_ok: "align_ok a \<Longrightarrow> align_ok b \<Longrightarrow> align_ok (align_min a b)"
  by (simp add: align_min_def)

lemma align_max_ok: "align_ok a \<Longrightarrow> align_ok b \<Longrightarrow> align_ok (align_max a b)"
  by (simp add: align_max_def)

lemma MIN_ALIGN_ok [simp]: "align_ok MIN_ALIGN"
  by (simp add: align_ok_def MIN_ALIGN_def)

definition infos_ok :: "'attr output_sections \<Rightarrow> bool" where
  "infos_ok os \<longleftrightarrow> (\<forall>info \<in> set (section_infos os). align_ok (min_alignment info))"

lemma section_min_alignment_ok:
  "infos_ok os \<Longrightarrow> section_min_alignment os s = Some a \<Longrightarrow> align_ok a"
  by (auto simp: infos_ok_def section_min_alignment_def output_info_def get_at_def split: if_splits)

lemma part_alignment_ok:
  assumes "infos_ok os" and "part_alignment os p = Some a"
  shows "align_ok a"
proof (cases "p < NUM_SINGLE_PART_SECTIONS")
  case True
  then show ?thesis using assms section_min_alignment_ok by (auto simp: part_alignment_def)
next
  case False
  then have "is_regular p" by (simp add: is_regular_def)
  then show ?thesis using assms(2) by (metis regular_part_alignment option.inject)
qed

lemma max_alignment_ok:
  assumes "infos_ok os" and "max_alignment d os rng m = Some a"
  shows "align_ok a"
  using assms part_alignment_ok [OF assms(1)] section_min_alignment_ok [OF assms(1)]
  by (auto simp: max_alignment_def Let_def bind_eq_Some_conv intro!: align_max_ok split: if_splits)

subsection \<open>One part\<close>

lemma align_up_grows:
  assumes "align_ok a" and "unat v + 2 ^ 16 \<le> 2 ^ 64"
  shows "unat v \<le> unat (align_up a v)" and "unat (align_up a v) < unat v + 2 ^ 16"
    and "unat (align_up a v) mod align_nat a = 0"
proof -
  have le: "align_nat a \<le> 2 ^ 16" by (rule align_nat_le [OF assms(1)])
  then have "unat v + align_nat a \<le> 2 ^ 64" using assms(2) by linarith
  note up = unat_align_up [OF assms(1) this]
  show "unat v \<le> unat (align_up a v)" "unat (align_up a v) < unat v + 2 ^ 16"
    "unat (align_up a v) mod align_nat a = 0"
    using up round_up_bounds [of "align_nat a" "unat v"] le by simp_all
qed

lemma align_up_usize_eq: "align_up_usize a v = align_up a v"
  by (simp add: align_up_usize_def align_up_def)

text \<open>The padding of \<^verbatim>\<open>RELRO_PADDING\<close> is less than a page, wherever the memory cursor is.\<close>

lemma align_up_gap:
  assumes "align_ok a"
  shows "unat (align_up a v - v) < 2 ^ 16"
proof -
  have m: "unat (align_value a) = align_nat a" "align_nat a \<le> 2 ^ 16" "0 < align_nat a"
    using unat_align_value [OF assms] align_nat_le [OF assms] by simp_all
  show ?thesis
  proof (cases "v mod align_value a = 0")
    case True
    then show ?thesis by (simp add: align_up_def next_multiple_of_def)
  next
    case False
    then have "0 < unat (v mod align_value a)" by (simp add: unat_gt_0)
    moreover have "v mod align_value a \<le> align_value a"
      using m by (simp add: word_le_nat_alt unat_mod_distrib)
    ultimately have "unat (align_value a - v mod align_value a) < align_nat a"
      using m by (simp add: unat_sub)
    then show ?thesis using False m by (simp add: align_up_def next_multiple_of_def)
  qed
qed

text \<open>Space that a part takes at most: its size and padding for two alignments.\<close>

definition part_cost :: "u64 list \<Rightarrow> nat \<Rightarrow> nat" where
  "part_cost sizes p = (case get_at sizes p of Some v \<Rightarrow> unat v | None \<Rightarrow> 0) + 2 ^ 17"

text \<open>
  What \<open>place_part\<close> does, in one equation for all branches: \<open>alloc\<close> and \<open>data\<close> are the attributes of the
  primary section.
\<close>

definition part_alloc :: "('attr, 'def) platform \<Rightarrow> 'attr output_sections \<Rightarrow> section_id \<Rightarrow> bool" where
  "part_alloc pf os s =
     (case Option.bind (primary_output_section os s) (output_info os) of
        Some info \<Rightarrow> attr_is_alloc pf (section_attributes info) | None \<Rightarrow> False)"

definition part_has_data :: "('attr, 'def) platform \<Rightarrow> 'attr output_sections \<Rightarrow> section_id \<Rightarrow> bool" where
  "part_has_data pf os s =
     (case Option.bind (primary_output_section os s) (output_info os) of
        Some info \<Rightarrow> has_data_in_file pf (section_attributes info) | None \<Rightarrow> False)"

lemma place_part_SomeE:
  assumes "place_part pf os args sizes s ma k st = Some st'"
  defines "p \<equiv> unat (part_offset (base_part_id s) k)"
  obtains r a v where "p < length (records_out st)" and "records_out st' = (records_out st)[p := r]"
    and "get_at sizes p = Some v" and "part_alignment os (part_offset (base_part_id s) k) = Some a"
    and "rec_alignment r = align_min a ma"
    and "file_offset r = align_up (align_min a ma) (cur_file st)"
    and "mem_size r = (if s = RELRO_PADDING
                       then align_up (loadable_segment_alignment args) (cur_mem st) - cur_mem st else v)"
    and "file_size r = (if part_alloc pf os s \<and> \<not> part_has_data pf os s then 0 else mem_size r)"
    and "cur_file st' = file_offset r + file_size r"
    and "part_alloc pf os s \<Longrightarrow> \<not> should_output_partial_object args \<Longrightarrow>
      mem_offset r = align_up (align_min a ma) (cur_mem st) \<and> cur_mem st' = mem_offset r + mem_size r"
    and "\<not> (part_alloc pf os s \<and> \<not> should_output_partial_object args) \<Longrightarrow> cur_mem st' = cur_mem st"
    and "pending_location st' = pending_location st"
proof -
  obtain v a t info where g: "get_at sizes p = Some v" "part_alignment os (part_offset (base_part_id s) k) = Some a"
      "primary_output_section os s = Some t" "output_info os t = Some info"
    using assms(1) unfolding place_part_def Let_def part_get_def p_def bind_eq_Some_conv by blast
  have f: "part_alloc pf os s = attr_is_alloc pf (section_attributes info)"
      "part_has_data pf os s = has_data_in_file pf (section_attributes info)"
    by (simp_all add: part_alloc_def part_has_data_def g)
  define sz where "sz = (if s = RELRO_PADDING
    then align_up (loadable_segment_alignment args) (cur_mem st) - cur_mem st else v)"
  define fo where "fo = align_up (align_min a ma) (cur_file st)"
  define fsz where "fsz = (if part_alloc pf os s \<and> \<not> part_has_data pf os s then 0 else sz)"
  have eq: "place_part pf os args sizes s ma k st =
      Option.bind (place_mem (part_alloc pf os s) (should_output_partial_object args)
          (output_section_id (part_offset (base_part_id s) k)) (align_min a ma) sz st)
       (\<lambda>(mem, st1). Option.bind
          (set_at p \<lparr>file_size = fsz, mem_size = sz, rec_alignment = align_min a ma, file_offset = fo, mem_offset = mem\<rparr> (records_out st))
          (\<lambda>recs. Some (st1\<lparr>cur_file := fo + fsz, records_out := recs\<rparr>)))"
    using g unfolding place_part_def Let_def part_get_def p_def sz_def fo_def fsz_def f by (simp add: align_up_usize_eq)
  obtain mem st1 where m: "place_mem (part_alloc pf os s) (should_output_partial_object args)
          (output_section_id (part_offset (base_part_id s) k)) (align_min a ma) sz st = Some (mem, st1)"
    and p: "p < length (records_out st)"
    and st': "st' = st1\<lparr>cur_file := fo + fsz, records_out := (records_out st)
         [p := \<lparr>file_size = fsz, mem_size = sz, rec_alignment = align_min a ma, file_offset = fo, mem_offset = mem\<rparr>]\<rparr>"
    using assms(1) unfolding eq by (auto simp: bind_eq_Some_conv set_at_def split: if_splits)
  have "pending_location st1 = pending_location st"
    and "if part_alloc pf os s \<and> \<not> should_output_partial_object args
         then mem = align_up (align_min a ma) (cur_mem st) \<and> cur_mem st1 = mem + sz else cur_mem st1 = cur_mem st"
    using m by (auto simp: place_mem_def Let_def bind_eq_Some_conv split: if_splits)
  then show ?thesis
    using g(1,2) p
    by (intro that [of "\<lparr>file_size = fsz, mem_size = sz, rec_alignment = align_min a ma, file_offset = fo, mem_offset = mem\<rparr>" v a])
       (simp_all add: st' sz_def [symmetric], auto simp: sz_def fo_def fsz_def)
qed

lemma place_part_file:
  assumes "place_part pf os args sizes s ma k st = Some st'"
    and "infos_ok os" and "align_ok ma" and "align_ok (loadable_segment_alignment args)"
  defines "p \<equiv> unat (part_offset (base_part_id s) k)"
  assumes "unat (cur_file st) + part_cost sizes p \<le> 2 ^ 64" and "p \<notin> set ps"
    and "chained file_offset file_size rec_alignment (records_out st) ps 0 (unat (cur_file st))"
  shows "chained file_offset file_size rec_alignment (records_out st') (ps @ [p]) 0 (unat (cur_file st'))"
    and "unat (cur_file st') \<le> unat (cur_file st) + part_cost sizes p"
proof -
  obtain r a v where p: "p < length (records_out st)" "records_out st' = (records_out st)[p := r]"
    and v: "get_at sizes p = Some v" and a: "part_alignment os (part_offset (base_part_id s) k) = Some a"
    and r: "rec_alignment r = align_min a ma" "file_offset r = align_up (align_min a ma) (cur_file st)"
      "mem_size r = (if s = RELRO_PADDING
                     then align_up (loadable_segment_alignment args) (cur_mem st) - cur_mem st else v)"
      "file_size r = (if part_alloc pf os s \<and> \<not> part_has_data pf os s then 0 else mem_size r)"
    and cur: "cur_file st' = file_offset r + file_size r"
    using place_part_SomeE [OF assms(1)] unfolding p_def by metis
  have ok: "align_ok (align_min a ma)" using assms(2,3) a part_alignment_ok by (metis align_min_ok)
  have size: "unat (mem_size r) \<le> unat v + 2 ^ 16"
    using r(3) align_up_gap [OF assms(4), of "cur_mem st"] by simp
  have fs: "unat (file_size r) \<le> unat v + 2 ^ 16" using r(4) size by simp
  have bound: "unat (cur_file st) + unat v + 2 ^ 17 \<le> 2 ^ 64" using assms(6) v by (simp add: part_cost_def)
  then have "unat (cur_file st) + 2 ^ 16 \<le> 2 ^ 64" by simp
  note up = align_up_grows [OF ok this, folded r(2)]
  have nowrap: "unat (file_offset r) + unat (file_size r) < 2 ^ 64" using up(2) fs bound by simp
  have cur': "unat (cur_file st') = unat (file_offset r) + unat (file_size r)"
    unfolding cur using nowrap by (subst unat_add_lem [THEN iffD1]) simp_all
  show "chained file_offset file_size rec_alignment (records_out st') (ps @ [p]) 0 (unat (cur_file st'))"
    unfolding p(2) using assms(7,8) p(1) up(1,3) r(1) cur' by (intro chained_place) simp_all
  show "unat (cur_file st') \<le> unat (cur_file st) + part_cost sizes p"
    using cur' up(2) fs v by (simp add: part_cost_def)
qed

lemma place_part_mem:
  assumes "place_part pf os args sizes s ma k st = Some st'"
    and "infos_ok os" and "align_ok ma" and "align_ok (loadable_segment_alignment args)"
    and "\<not> should_output_partial_object args"
  defines "p \<equiv> unat (part_offset (base_part_id s) k)"
  assumes "unat (cur_mem st) + part_cost sizes p \<le> 2 ^ 64" and "p \<notin> set ps"
    and "chained mem_offset mem_size rec_alignment (records_out st) ps lo (unat (cur_mem st))"
  shows "chained mem_offset mem_size rec_alignment (records_out st')
      (if part_alloc pf os s then ps @ [p] else ps) lo (unat (cur_mem st'))"
    and "unat (cur_mem st') \<le> unat (cur_mem st) + part_cost sizes p"
proof -
  obtain r a v where p: "p < length (records_out st)" "records_out st' = (records_out st)[p := r]"
    and v: "get_at sizes p = Some v" and a: "part_alignment os (part_offset (base_part_id s) k) = Some a"
    and r: "rec_alignment r = align_min a ma"
      "mem_size r = (if s = RELRO_PADDING
                     then align_up (loadable_segment_alignment args) (cur_mem st) - cur_mem st else v)"
    and al: "part_alloc pf os s \<Longrightarrow> mem_offset r = align_up (align_min a ma) (cur_mem st) \<and> cur_mem st' = mem_offset r + mem_size r"
    and na: "\<not> part_alloc pf os s \<Longrightarrow> cur_mem st' = cur_mem st"
    using place_part_SomeE [OF assms(1)] assms(5) unfolding p_def by metis
  have ok: "align_ok (align_min a ma)" using assms(2,3) a part_alignment_ok by (metis align_min_ok)
  have size: "unat (mem_size r) \<le> unat v + 2 ^ 16"
    using r(2) align_up_gap [OF assms(4), of "cur_mem st"] by simp
  have bound: "unat (cur_mem st) + unat v + 2 ^ 17 \<le> 2 ^ 64" using assms(7) v by (simp add: part_cost_def)
  have "chained mem_offset mem_size rec_alignment (records_out st')
      (if part_alloc pf os s then ps @ [p] else ps) lo (unat (cur_mem st'))
    \<and> unat (cur_mem st') \<le> unat (cur_mem st) + part_cost sizes p"
  proof (cases "part_alloc pf os s")
    case False
    then show ?thesis using na assms(8,9) p(2) by (simp add: chained_update)
  next
    case True
    have "unat (cur_mem st) + 2 ^ 16 \<le> 2 ^ 64" using bound by simp
    note up = align_up_grows [OF ok this, folded al [OF True, THEN conjunct1]]
    have "unat (mem_offset r) + unat (mem_size r) < 2 ^ 64" using up(2) size bound by simp
    then have cur': "unat (cur_mem st') = unat (mem_offset r) + unat (mem_size r)"
      unfolding al [OF True, THEN conjunct2] by (subst unat_add_lem [THEN iffD1]) simp_all
    have "chained mem_offset mem_size rec_alignment (records_out st') (ps @ [p]) lo (unat (cur_mem st'))"
      unfolding p(2) using assms(8,9) p(1) up(1,3) r(1) cur' by (intro chained_place) simp_all
    then show ?thesis using True cur' up(2) size v by (simp add: part_cost_def)
  qed
  then show "chained mem_offset mem_size rec_alignment (records_out st')
      (if part_alloc pf os s then ps @ [p] else ps) lo (unat (cur_mem st'))"
    and "unat (cur_mem st') \<le> unat (cur_mem st) + part_cost sizes p" by simp_all
qed

end
