(* ===== verification/Layout_Disjoint.thy ===== *)
theory Layout_Disjoint
  imports Layout
begin

text \<open>
  The file extents and the memory extents that \<^verbatim>\<open>layout_section_parts\<close> (\<^verbatim>\<open>libsld/src/layout.rs\<close>) assigns
  do not overlap: invariants of the loop over the output order, with the platform's
  \<^verbatim>\<open>align_load_segment_start\<close> as an interface.
\<close>

subsection \<open>One section\<close>

lemma fold_opt_append: "fold_opt f (xs @ ys) st = Option.bind (fold_opt f xs st) (fold_opt f ys)"
  by (induction xs arbitrary: st) (simp_all, metis bind_assoc)

definition section_parts :: "section_id \<Rightarrow> nat list" where
  "section_parts s = [unat (base_part_id s)..<unat (base_part_id s) + num_parts s]"

definition section_cost :: "u64 list \<Rightarrow> section_id \<Rightarrow> nat" where
  "section_cost sizes s = sum_list (map (part_cost sizes) (section_parts s))"

lemma place_parts_file:
  assumes "fold_opt (place_part pf os args sizes s ma) [0..<n] st = Some st'"
    and "infos_ok os" and "align_ok ma" and "align_ok (loadable_segment_alignment args)"
    and "section_fits s" and "n \<le> num_parts s"
  defines "b \<equiv> unat (base_part_id s)"
  assumes "unat (cur_file st) + sum_list (map (part_cost sizes) [b..<b + n]) \<le> 2 ^ 64"
    and "set ps \<inter> {b..<b + n} = {}"
    and "chained file_offset file_size rec_alignment (records_out st) ps 0 (unat (cur_file st))"
  shows "chained file_offset file_size rec_alignment (records_out st') (ps @ [b..<b + n]) 0 (unat (cur_file st'))
    \<and> unat (cur_file st') \<le> unat (cur_file st) + sum_list (map (part_cost sizes) [b..<b + n])"
  using assms(1,6,8-)
proof (induction n arbitrary: st')
  case (Suc n)
  obtain st1 where st1: "fold_opt (place_part pf os args sizes s ma) [0..<n] st = Some st1"
    and st': "place_part pf os args sizes s ma n st1 = Some st'"
    using Suc.prems(1) by (auto simp: fold_opt_append bind_eq_Some_conv)
  have off: "unat (part_offset (base_part_id s) n) = b + n"
    unfolding b_def using unat_part_offset [OF assms(5)] Suc.prems(2) by simp
  let ?c = "sum_list (map (part_cost sizes) [b..<b + n])"
  have ih: "chained file_offset file_size rec_alignment (records_out st1) (ps @ [b..<b + n]) 0 (unat (cur_file st1))
      \<and> unat (cur_file st1) \<le> unat (cur_file st) + ?c"
    using Suc.prems st1 by (intro Suc.IH) auto
  have "unat (cur_file st1) + part_cost sizes (b + n) \<le> 2 ^ 64"
    using ih Suc.prems(3) by simp
  moreover have "b + n \<notin> set (ps @ [b..<b + n])" using Suc.prems(4) by auto
  ultimately show ?case
    using place_part_file [OF st' assms(2-4), of "ps @ [b..<b + n]"] ih
    by (auto simp: off)
qed (simp add: assms)

lemma place_parts_mem:
  assumes "fold_opt (place_part pf os args sizes s ma) [0..<n] st = Some st'"
    and "infos_ok os" and "align_ok ma" and "align_ok (loadable_segment_alignment args)"
    and "section_fits s" and "n \<le> num_parts s" and "\<not> should_output_partial_object args"
  defines "b \<equiv> unat (base_part_id s)"
  assumes "unat (cur_mem st) + sum_list (map (part_cost sizes) [b..<b + n]) \<le> 2 ^ 64"
    and "set ps \<inter> {b..<b + n} = {}"
    and "chained mem_offset mem_size rec_alignment (records_out st) ps lo (unat (cur_mem st))"
  shows "chained mem_offset mem_size rec_alignment (records_out st')
      (if part_alloc pf os s then ps @ [b..<b + n] else ps) lo (unat (cur_mem st'))
    \<and> unat (cur_mem st') \<le> unat (cur_mem st) + sum_list (map (part_cost sizes) [b..<b + n])"
  using assms(1,6,9-)
proof (induction n arbitrary: st')
  case (Suc n)
  obtain st1 where st1: "fold_opt (place_part pf os args sizes s ma) [0..<n] st = Some st1"
    and st': "place_part pf os args sizes s ma n st1 = Some st'"
    using Suc.prems(1) by (auto simp: fold_opt_append bind_eq_Some_conv)
  have off: "unat (part_offset (base_part_id s) n) = b + n"
    unfolding b_def using unat_part_offset [OF assms(5)] Suc.prems(2) by simp
  let ?ps = "if part_alloc pf os s then ps @ [b..<b + n] else ps"
  have ih: "chained mem_offset mem_size rec_alignment (records_out st1) ?ps lo (unat (cur_mem st1))
      \<and> unat (cur_mem st1) \<le> unat (cur_mem st) + sum_list (map (part_cost sizes) [b..<b + n])"
    using Suc.prems st1 by (intro Suc.IH) auto
  have "unat (cur_mem st1) + part_cost sizes (b + n) \<le> 2 ^ 64"
    using ih Suc.prems(3) by simp
  moreover have "b + n \<notin> set ?ps" using Suc.prems(4) by auto
  ultimately show ?case
    using place_part_mem [OF st' assms(2-4,7), of ?ps lo] ih
    by (auto simp: off split: if_splits)
qed (simp add: assms)

text \<open>The slice of records that the loop runs over has one record for every part.\<close>

lemma place_section_SomeE:
  assumes "place_section pf os args sizes s st = Some st'" and "section_fits s" and "infos_ok os"
  obtains info ma where "output_info os s = Some info" and "align_ok ma"
    and "max_alignment 0 os (part_id_range s) sizes = Some ma"
    and "pending_location st = None"
    and "fold_opt (place_part pf os args sizes s ma) [0..<num_parts s]
           (case location info of Some l \<Rightarrow> st\<lparr>cur_mem := l\<rparr> | None \<Rightarrow> st) = Some st'"
proof -
  obtain info ma parts where i: "output_info os s = Some info"
      "max_alignment 0 os (part_id_range s) sizes = Some ma" "pending_location st = None"
    and parts: "part_slice (part_id_range s) (records_out (case location info of Some l \<Rightarrow> st\<lparr>cur_mem := l\<rparr> | None \<Rightarrow> st)) = Some parts"
    and f: "fold_opt (place_part pf os args sizes s ma) [0..<length parts]
           (case location info of Some l \<Rightarrow> st\<lparr>cur_mem := l\<rparr> | None \<Rightarrow> st) = Some st'"
    using assms(1) by (auto simp: place_section_def Let_def bind_eq_Some_conv split: if_splits)
  have "length parts = num_parts s"
    using parts unat_part_offset [OF assms(2) order.refl]
    by (auto simp: part_slice_def part_id_range_def Let_def slice_range_def split: if_splits)
  with f i show ?thesis using max_alignment_ok [OF assms(3) i(2)] by (intro that) simp_all
qed


subsection \<open>The whole layout\<close>

text \<open>The parts in the order in which they are placed, those of allocated sections, and the space they take.\<close>

fun event_parts :: "order_event \<Rightarrow> nat list" where
  "event_parts (Section s) = section_parts s"
| "event_parts _ = []"

definition placed :: "order_event list \<Rightarrow> nat list" where
  "placed evs = concat (map event_parts evs)"

fun event_alloc_parts :: "('attr, 'def) platform \<Rightarrow> 'attr output_sections \<Rightarrow> order_event \<Rightarrow> nat list" where
  "event_alloc_parts pf os (Section s) = (if part_alloc pf os s then section_parts s else [])"
| "event_alloc_parts pf os _ = []"

definition placed_alloc :: "('attr, 'def) platform \<Rightarrow> 'attr output_sections \<Rightarrow> order_event list \<Rightarrow> nat list" where
  "placed_alloc pf os evs = concat (map (event_alloc_parts pf os) evs)"

fun event_cost :: "u64 list \<Rightarrow> order_event \<Rightarrow> nat" where
  "event_cost sizes (Section s) = section_cost sizes s"
| "event_cost sizes (SegmentStart _) = 2 ^ 17"
| "event_cost sizes _ = 0"

definition layout_cost :: "u64 list \<Rightarrow> order_event list \<Rightarrow> nat" where
  "layout_cost sizes evs = sum_list (map (event_cost sizes) evs)"

text \<open>
  What the layout expects of its input: supported alignments, 32-bit part ids, and no section
  twice in the order.
\<close>

definition layout_input_ok :: "'attr output_sections \<Rightarrow> layout_args \<Rightarrow> order_event list \<Rightarrow> bool" where
  "layout_input_ok os args evs \<longleftrightarrow>
     infos_ok os \<and> align_ok (loadable_segment_alignment args)
     \<and> (\<forall>s. Section s \<in> set evs \<longrightarrow> section_fits s) \<and> distinct (placed evs)"

lemma compute_segment_alignments_ok:
  assumes "compute_segment_alignments pf os segs args sizes evs = Some aligns"
    and "infos_ok os" and "align_ok (loadable_segment_alignment args)"
  shows "aligns sid = Some a \<Longrightarrow> align_ok a"
proof -
  have step: "\<forall>i b. al' i = Some b \<longrightarrow> align_ok b"
    if "segment_alignment_step pf os segs args sizes ev (al, act) = Some (al', act')"
      and "\<forall>i b. al i = Some b \<longrightarrow> align_ok b" for ev al act al' act'
    using that assms(3)
    by (cases ev) (auto simp: segment_alignment_step_def bind_eq_Some_conv split: if_splits option.splits
        intro!: align_max_ok dest: max_alignment_ok [OF assms(2)])
  have "\<forall>i b. fst st' i = Some b \<longrightarrow> align_ok b"
    if "fold_opt (segment_alignment_step pf os segs args sizes) evs st = Some st'"
      and "\<forall>i b. fst st i = Some b \<longrightarrow> align_ok b" for st st'
    using that
  proof (induction evs arbitrary: st)
    case (Cons ev evs)
    then obtain st1 where "segment_alignment_step pf os segs args sizes ev st = Some st1"
      and "fold_opt (segment_alignment_step pf os segs args sizes) evs st1 = Some st'"
      by (auto simp: bind_eq_Some_conv)
    then show ?case using Cons.IH [of st1] Cons.prems(2) step by (metis prod.collapse)
  qed simp
  then show "aligns sid = Some a \<Longrightarrow> align_ok a"
    using assms(1) by (auto simp: compute_segment_alignments_def)
qed

text \<open>Events that place nothing at a fixed address.\<close>

fun unlocated :: "'attr output_sections \<Rightarrow> order_event \<Rightarrow> bool" where
  "unlocated os (SetLocation _) = False"
| "unlocated os (Section s) = (case output_info os s of Some info \<Rightarrow> location info = None | None \<Rightarrow> True)"
| "unlocated os _ = True"

lemma place_parts_pending:
  "fold_opt (place_part pf os args sizes s ma) ks st = Some st' \<Longrightarrow> pending_location st' = pending_location st"
proof (induction ks arbitrary: st)
  case (Cons k ks)
  then obtain st1 where "place_part pf os args sizes s ma k st = Some st1"
    and "fold_opt (place_part pf os args sizes s ma) ks st1 = Some st'"
    by (auto simp: bind_eq_Some_conv)
  then show ?case using Cons.IH place_part_SomeE by metis
qed simp

text \<open>
  The contract of \<^verbatim>\<open>align_load_segment_start\<close>: offsets are not lowered and grow by less than two
  alignments. The layout relies on nothing else of a platform.
\<close>

locale load_start =
  fixes start :: "'def \<Rightarrow> align \<Rightarrow> u64 \<times> u64 \<Rightarrow> u64 \<times> u64"
  assumes file_grows: "align_ok a \<Longrightarrow> unat f + 2 ^ 17 \<le> 2 ^ 64 \<Longrightarrow>
      unat f \<le> unat (fst (start d a (f, m))) \<and> unat (fst (start d a (f, m))) \<le> unat f + 2 ^ 17"
    and mem_grows: "align_ok a \<Longrightarrow> unat m + 2 ^ 17 \<le> 2 ^ 64 \<Longrightarrow>
      unat m \<le> unat (snd (start d a (f, m))) \<and> unat (snd (start d a (f, m))) \<le> unat m + 2 ^ 17"

lemma align_modulo_grows:
  assumes "align_ok a" and "unat v + 2 ^ 17 \<le> 2 ^ 64"
  shows "unat v \<le> unat (align_modulo a r v) \<and> unat (align_modulo a r v) \<le> unat v + 2 ^ 17"
proof -
  have le: "align_nat a \<le> 2 ^ 16" by (rule align_nat_le [OF assms(1)])
  then have "unat v + 2 * align_nat a \<le> 2 ^ 64" using assms(2) by simp
  note eq = unat_align_modulo(1) [OF assms(1) this, of r]
  have "unat r mod align_nat a < align_nat a" by simp
  then have "unat r mod align_nat a < 2 ^ 16" using le by (rule less_le_trans)
  then show ?thesis using eq align_up_grows [OF assms(1), of v] assms(2) by simp
qed

lemma start_segment_SomeE:
  assumes "start_segment pf segs args aligns sid st = Some st'"
    and "\<And>sid a. aligns sid = Some a \<Longrightarrow> align_ok a" and "align_ok (loadable_segment_alignment args)"
  obtains (Other) "st' = st"
  | (Located) a l where "align_ok a" "pending_location st = Some l"
      "st' = st\<lparr>pending_location := None, cur_mem := l, cur_file := align_modulo a l (cur_file st)\<rparr>"
  | (Aligned) a d where "align_ok a" "pending_location st = None"
      "st' = st\<lparr>cur_file := fst (align_load_segment_start pf d a (cur_file st, cur_mem st)),
               cur_mem := snd (align_load_segment_start pf d a (cur_file st, cur_mem st))\<rparr>"
proof -
  define a where "a = (case aligns sid of Some a \<Rightarrow> a | None \<Rightarrow> loadable_segment_alignment args)"
  have "align_ok a" unfolding a_def using assms(2,3) by (auto split: option.splits)
  then show ?thesis
    using assms(1) Other Located [of a] Aligned [of a]
    unfolding start_segment_def a_def [symmetric]
    by (auto simp: Let_def bind_eq_Some_conv split_beta split: if_splits option.splits)
qed

context load_start
begin

lemma layout_step_file:
  assumes start: "align_load_segment_start pf = start"
    and step: "layout_step pf os segs args sizes aligns ev st = Some st'"
    and aligns: "\<And>sid a. aligns sid = Some a \<Longrightarrow> align_ok a"
    and ok: "infos_ok os" "align_ok (loadable_segment_alignment args)" "\<And>s. ev = Section s \<Longrightarrow> section_fits s"
    and bound: "unat (cur_file st) + event_cost sizes ev \<le> 2 ^ 64" and new: "set ps \<inter> set (event_parts ev) = {}"
    and ch: "chained file_offset file_size rec_alignment (records_out st) ps 0 (unat (cur_file st))"
  shows "chained file_offset file_size rec_alignment (records_out st') (ps @ event_parts ev) 0 (unat (cur_file st'))
    \<and> unat (cur_file st') \<le> unat (cur_file st) + event_cost sizes ev"
proof (cases ev)
  case (SegmentStart sid)
  have b: "unat (cur_file st) + 2 ^ 17 \<le> 2 ^ 64" using bound SegmentStart by simp
  have "start_segment pf segs args aligns sid st = Some st'" using step SegmentStart by simp
  then have "unat (cur_file st) \<le> unat (cur_file st') \<and> unat (cur_file st') \<le> unat (cur_file st) + 2 ^ 17
      \<and> records_out st' = records_out st"
    using aligns ok(2)
    by (rule start_segment_SomeE) (use file_grows [OF _ b] align_modulo_grows [OF _ b] in \<open>simp_all add: start\<close>)
  then show ?thesis using SegmentStart ch chained_mono by auto
next
  case (Section s)
  then have "place_section pf os args sizes s st = Some st'" using step by simp
  then obtain info ma where "output_info os s = Some info" and ma: "align_ok ma"
    and "max_alignment 0 os (part_id_range s) sizes = Some ma" and "pending_location st = None"
    and f: "fold_opt (place_part pf os args sizes s ma) [0..<num_parts s]
           (case location info of Some l \<Rightarrow> st\<lparr>cur_mem := l\<rparr> | None \<Rightarrow> st) = Some st'"
    by (rule place_section_SomeE [OF _ ok(3) [OF Section] ok(1)])
  have "set ps \<inter> {unat (base_part_id s)..<unat (base_part_id s) + num_parts s} = {}"
    using new Section by (simp add: section_parts_def)
  then show ?thesis
    using place_parts_file [OF f ok(1) ma ok(2) ok(3) [OF Section] order.refl, of ps] bound ch Section
    by (cases "location info") (simp_all add: section_cost_def section_parts_def)
qed (use step ch in auto)

lemma layout_run_file:
  assumes start: "align_load_segment_start pf = start"
    and run: "fold_opt (layout_step pf os segs args sizes aligns) evs st = Some st'"
    and aligns: "\<And>sid a. aligns sid = Some a \<Longrightarrow> align_ok a"
    and ok: "infos_ok os" "align_ok (loadable_segment_alignment args)" "\<And>s. Section s \<in> set evs \<Longrightarrow> section_fits s"
    and bound: "unat (cur_file st) + layout_cost sizes evs \<le> 2 ^ 64" and new: "distinct (ps @ placed evs)"
    and ch: "chained file_offset file_size rec_alignment (records_out st) ps 0 (unat (cur_file st))"
  shows "chained file_offset file_size rec_alignment (records_out st') (ps @ placed evs) 0 (unat (cur_file st'))"
  using run ok(3) bound new ch
proof (induction evs arbitrary: st ps)
  case (Cons ev evs)
  obtain st1 where st1: "layout_step pf os segs args sizes aligns ev st = Some st1"
    and run: "fold_opt (layout_step pf os segs args sizes aligns) evs st1 = Some st'"
    using Cons.prems(1) by (auto simp: bind_eq_Some_conv)
  have pl: "placed (ev # evs) = event_parts ev @ placed evs" by (simp add: placed_def)
  have cost: "layout_cost sizes (ev # evs) = event_cost sizes ev + layout_cost sizes evs" by (simp add: layout_cost_def)
  have s1: "chained file_offset file_size rec_alignment (records_out st1) (ps @ event_parts ev) 0 (unat (cur_file st1))
      \<and> unat (cur_file st1) \<le> unat (cur_file st) + event_cost sizes ev"
    using Cons.prems cost pl by (intro layout_step_file [OF start st1 aligns ok(1,2)]) auto
  have "chained file_offset file_size rec_alignment (records_out st') ((ps @ event_parts ev) @ placed evs) 0 (unat (cur_file st'))"
    using Cons.prems cost pl s1 by (intro Cons.IH [OF run]) auto
  then show ?case by (simp add: pl)
qed (simp add: placed_def)

lemma layout_file_extents:
  assumes "align_load_segment_start pf = start"
    and "layout_section_parts pf os segs args sizes evs = Some recs"
    and "layout_input_ok os args evs" and "layout_cost sizes evs \<le> 2 ^ 64"
  obtains hi where "chained file_offset file_size rec_alignment recs (placed evs) 0 hi"
proof -
  obtain aligns st' where al: "compute_segment_alignments pf os segs args sizes evs = Some aligns"
    and run: "fold_opt (layout_step pf os segs args sizes aligns) evs (layout_start os) = Some st'"
    and recs: "recs = records_out st'"
    using assms(2) by (auto simp: layout_section_parts_def bind_eq_Some_conv)
  have ok: "infos_ok os" "align_ok (loadable_segment_alignment args)" "\<And>s. Section s \<in> set evs \<Longrightarrow> section_fits s"
      "distinct (placed evs)"
    using assms(3) by (auto simp: layout_input_ok_def)
  have "chained file_offset file_size rec_alignment (records_out st') ([] @ placed evs) 0 (unat (cur_file st'))"
    using assms(4) ok
    by (intro layout_run_file [OF assms(1) run compute_segment_alignments_ok [OF al ok(1,2)] ok(1,2)])
       (simp_all add: layout_start_def)
  then show ?thesis using that recs by simp
qed

lemma layout_step_mem:
  assumes start: "align_load_segment_start pf = start"
    and step: "layout_step pf os segs args sizes aligns ev st = Some st'"
    and aligns: "\<And>sid a. aligns sid = Some a \<Longrightarrow> align_ok a"
    and ok: "infos_ok os" "align_ok (loadable_segment_alignment args)" "\<And>s. ev = Section s \<Longrightarrow> section_fits s"
    and free: "unlocated os ev" "pending_location st = None" "\<not> should_output_partial_object args"
    and bound: "unat (cur_mem st) + event_cost sizes ev \<le> 2 ^ 64" and new: "set ps \<inter> set (event_parts ev) = {}"
    and ch: "chained mem_offset mem_size rec_alignment (records_out st) ps lo (unat (cur_mem st))"
  shows "chained mem_offset mem_size rec_alignment (records_out st') (ps @ event_alloc_parts pf os ev) lo (unat (cur_mem st'))
    \<and> unat (cur_mem st') \<le> unat (cur_mem st) + event_cost sizes ev \<and> pending_location st' = None"
proof (cases ev)
  case (SegmentStart sid)
  have b: "unat (cur_mem st) + 2 ^ 17 \<le> 2 ^ 64" using bound SegmentStart by simp
  have "start_segment pf segs args aligns sid st = Some st'" using step SegmentStart by simp
  then have "unat (cur_mem st) \<le> unat (cur_mem st') \<and> unat (cur_mem st') \<le> unat (cur_mem st) + 2 ^ 17
      \<and> records_out st' = records_out st \<and> pending_location st' = None"
    using aligns ok(2)
    by (rule start_segment_SomeE) (use free(2) mem_grows [OF _ b] in \<open>simp_all add: start\<close>)
  then show ?thesis using SegmentStart ch chained_mono by auto
next
  case (Section s)
  then have "place_section pf os args sizes s st = Some st'" using step by simp
  then obtain info ma where info: "output_info os s = Some info" and ma: "align_ok ma"
    and "max_alignment 0 os (part_id_range s) sizes = Some ma" and "pending_location st = None"
    and f: "fold_opt (place_part pf os args sizes s ma) [0..<num_parts s]
           (case location info of Some l \<Rightarrow> st\<lparr>cur_mem := l\<rparr> | None \<Rightarrow> st) = Some st'"
    by (rule place_section_SomeE [OF _ ok(3) [OF Section] ok(1)])
  have "location info = None" using free(1) info Section by simp
  then have f: "fold_opt (place_part pf os args sizes s ma) [0..<num_parts s] st = Some st'" using f by simp
  have "set ps \<inter> {unat (base_part_id s)..<unat (base_part_id s) + num_parts s} = {}"
    using new Section by (simp add: section_parts_def)
  then show ?thesis
    using place_parts_mem [OF f ok(1) ma ok(2) ok(3) [OF Section] order.refl free(3), of ps lo] bound ch Section
      place_parts_pending [OF f] free(2)
    by (simp add: section_cost_def section_parts_def split: if_splits)
qed (use step ch free in auto)

lemma layout_run_mem:
  assumes start: "align_load_segment_start pf = start"
    and run: "fold_opt (layout_step pf os segs args sizes aligns) evs st = Some st'"
    and aligns: "\<And>sid a. aligns sid = Some a \<Longrightarrow> align_ok a"
    and ok: "infos_ok os" "align_ok (loadable_segment_alignment args)" "\<And>s. Section s \<in> set evs \<Longrightarrow> section_fits s"
    and free: "list_all (unlocated os) evs" "pending_location st = None" "\<not> should_output_partial_object args"
    and bound: "unat (cur_mem st) + layout_cost sizes evs \<le> 2 ^ 64"
    and new: "distinct (placed evs)" "set ps \<inter> set (placed evs) = {}"
    and ch: "chained mem_offset mem_size rec_alignment (records_out st) ps lo (unat (cur_mem st))"
  shows "chained mem_offset mem_size rec_alignment (records_out st') (ps @ placed_alloc pf os evs) lo (unat (cur_mem st'))"
  using run ok(3) free(1,2) bound new ch
proof (induction evs arbitrary: st ps)
  case (Cons ev evs)
  obtain st1 where st1: "layout_step pf os segs args sizes aligns ev st = Some st1"
    and run: "fold_opt (layout_step pf os segs args sizes aligns) evs st1 = Some st'"
    using Cons.prems(1) by (auto simp: bind_eq_Some_conv)
  have pl: "placed (ev # evs) = event_parts ev @ placed evs" by (simp add: placed_def)
  have pa: "placed_alloc pf os (ev # evs) = event_alloc_parts pf os ev @ placed_alloc pf os evs" by (simp add: placed_alloc_def)
  have sub: "set (event_alloc_parts pf os ev) \<subseteq> set (event_parts ev)" by (cases ev) auto
  have cost: "layout_cost sizes (ev # evs) = event_cost sizes ev + layout_cost sizes evs" by (simp add: layout_cost_def)
  have s1: "chained mem_offset mem_size rec_alignment (records_out st1) (ps @ event_alloc_parts pf os ev) lo (unat (cur_mem st1))
      \<and> unat (cur_mem st1) \<le> unat (cur_mem st) + event_cost sizes ev \<and> pending_location st1 = None"
    using Cons.prems cost pl by (intro layout_step_mem [OF start st1 aligns ok(1,2)]) (auto simp: free(3))
  have "chained mem_offset mem_size rec_alignment (records_out st')
      ((ps @ event_alloc_parts pf os ev) @ placed_alloc pf os evs) lo (unat (cur_mem st'))"
    using Cons.prems cost pl s1 sub by (intro Cons.IH [OF run]) auto
  then show ?case by (simp add: pa)
qed (simp add: placed_alloc_def)

lemma layout_mem_extents:
  assumes "align_load_segment_start pf = start"
    and "layout_section_parts pf os segs args sizes evs = Some recs"
    and "layout_input_ok os args evs" and "unat (base_address os) + layout_cost sizes evs \<le> 2 ^ 64"
    and "list_all (unlocated os) evs" and "\<not> should_output_partial_object args"
  obtains hi where "chained mem_offset mem_size rec_alignment recs (placed_alloc pf os evs) (unat (base_address os)) hi"
proof -
  obtain aligns st' where al: "compute_segment_alignments pf os segs args sizes evs = Some aligns"
    and run: "fold_opt (layout_step pf os segs args sizes aligns) evs (layout_start os) = Some st'"
    and recs: "recs = records_out st'"
    using assms(2) by (auto simp: layout_section_parts_def bind_eq_Some_conv)
  have ok: "infos_ok os" "align_ok (loadable_segment_alignment args)" "\<And>s. Section s \<in> set evs \<Longrightarrow> section_fits s"
      "distinct (placed evs)"
    using assms(3) by (auto simp: layout_input_ok_def)
  have "chained mem_offset mem_size rec_alignment (records_out st') ([] @ placed_alloc pf os evs)
      (unat (base_address os)) (unat (cur_mem st'))"
    using assms(4-6) ok
    by (intro layout_run_mem [OF assms(1) run compute_segment_alignments_ok [OF al ok(1,2)] ok(1,2)])
       (simp_all add: layout_start_def)
  then show ?thesis using that recs by simp
qed

end

interpretation elf_load: load_start "align_load_segment_start (elf_platform elf size_of)" for elf size_of
  using align_modulo_grows
  by unfold_locales (auto simp: elf_platform_def elf_align_load_segment_start_def)

text \<open>
  C21. File layout: for every ELF link whose sections appear once in the output order and fit in the
  64-bit offset space, the file extents of all parts follow one another in the output order without
  overlap, and every part starts at a multiple of its alignment.
\<close>

theorem layout_file_disjoint:
  assumes "layout_section_parts (elf_platform elf size_of) os segs args sizes evs = Some recs"
    and "layout_input_ok os args evs" and "layout_cost sizes evs \<le> 2 ^ 64"
  shows "sorted_wrt (\<lambda>p q. unat (file_offset (recs ! p)) + unat (file_size (recs ! p)) \<le> unat (file_offset (recs ! q))) (placed evs)
    \<and> (\<forall>p \<in> set (placed evs). unat (file_offset (recs ! p)) mod align_nat (rec_alignment (recs ! p)) = 0)"
proof -
  obtain hi where "chained file_offset file_size rec_alignment recs (placed evs) 0 hi"
    by (rule elf_load.layout_file_extents [OF refl assms])
  from chained_sorted [OF this] show ?thesis by blast
qed

text \<open>
  C22. Memory layout: without fixed addresses, the addresses of all allocated parts of an ELF output
  follow one another in the output order, from the base address upwards, without overlap, and every
  part starts at a multiple of its alignment.
\<close>

theorem layout_memory_disjoint:
  assumes "layout_section_parts (elf_platform elf size_of) os segs args sizes evs = Some recs"
    and "layout_input_ok os args evs" and "unat (base_address os) + layout_cost sizes evs \<le> 2 ^ 64"
    and "list_all (unlocated os) evs" and "\<not> should_output_partial_object args"
  defines "ps \<equiv> placed_alloc (elf_platform elf size_of) os evs"
  shows "sorted_wrt (\<lambda>p q. unat (mem_offset (recs ! p)) + unat (mem_size (recs ! p)) \<le> unat (mem_offset (recs ! q))) ps
    \<and> (\<forall>p \<in> set ps. unat (mem_offset (recs ! p)) mod align_nat (rec_alignment (recs ! p)) = 0
         \<and> base_address os \<le> mem_offset (recs ! p))"
proof -
  obtain hi where ch: "chained mem_offset mem_size rec_alignment recs ps (unat (base_address os)) hi"
    unfolding ps_def by (rule elf_load.layout_mem_extents [OF refl assms(1-5)])
  show ?thesis using chained_sorted [OF ch] unfolding word_le_nat_alt by blast
qed

text \<open>A read-only segment with two sections, at a base address that is not page aligned.\<close>

definition sample_info :: "u8 \<Rightarrow> elf_attributes section_output_info" where
  "sample_info e = \<lparr>info_kind = Primary [], section_attributes = \<lparr>attr_flags = 2, attr_ty = 1, attr_entsize = 0\<rparr>,
     min_alignment = \<lparr>exponent = e\<rparr>, location = None, secondary_order = None\<rparr>"

definition sample_os :: "elf_attributes output_sections" where
  "sample_os = \<lparr>section_infos = [sample_info 0, sample_info 3, sample_info 5], base_address = 0x400100,
     custom_by_name = Map.empty, output_section_indexes = [], init_fini_by_priority = Map.empty\<rparr>"

definition sample_sizes :: "u64 list" where
  "sample_sizes = (replicate 47 0)[1 := 64, 2 := 56]"

definition sample_args :: layout_args where
  "sample_args = \<lparr>loadable_segment_alignment = \<lparr>exponent = 12\<rparr>, should_output_partial_object = False, stack_size_override = None\<rparr>"

definition sample_segs :: "elf_segment_def list" where
  "sample_segs = [\<lparr>segment_type = 1, segment_flags = 4\<rparr>]"

definition sample_recs :: "output_record_layout list" where
  "sample_recs = (replicate 47 default_layout)
     [1 := \<lparr>file_size = 64, mem_size = 64, rec_alignment = \<lparr>exponent = 3\<rparr>, file_offset = 0, mem_offset = 0x401000\<rparr>,
      2 := \<lparr>file_size = 56, mem_size = 56, rec_alignment = \<lparr>exponent = 5\<rparr>, file_offset = 64, mem_offset = 0x401040\<rparr>]"

abbreviation sample_events :: "order_event list" where
  "sample_events \<equiv> [] @ SegmentStart 0 # [Section 1, Section 2] @ [SegmentEnd 0]"

lemma sample_layout:
  "layout_section_parts (elf_platform sample_elf (\<lambda>_. 8)) sample_os sample_segs sample_args sample_sizes sample_events
   = Some sample_recs"
  by code_simp

lemma sample_input_ok: "layout_input_ok sample_os sample_args sample_events"
  by (auto simp: layout_input_ok_def infos_ok_def sample_os_def sample_info_def sample_args_def align_ok_def MAX_ALIGN_def
      MAX_ALIGNMENT_EXPONENT_def section_fits_def placed_def section_parts_def base_part_id_def num_parts_def
      NUM_SINGLE_PART_SECTIONS_def)

lemma sample_cost: "unat (base_address sample_os) + layout_cost sample_sizes sample_events \<le> 2 ^ 64"
  by (simp add: sample_os_def layout_cost_def section_cost_def section_parts_def base_part_id_def num_parts_def
      NUM_SINGLE_PART_SECTIONS_def part_cost_def get_at_def sample_sizes_def)

lemma sample_unlocated: "list_all (unlocated sample_os) sample_events" "\<not> should_output_partial_object sample_args"
  by code_simp+

lemma sample_placed: "placed sample_events = [1, 2]" "placed [Section 1, Section 2] = [1, 2]"
    "placed_alloc (elf_platform sample_elf (\<lambda>_. 8)) sample_os sample_events = [1, 2]"
  by code_simp+

theorem layout_file_disjoint_witness:
  "file_offset (sample_recs ! 1) + file_size (sample_recs ! 1) = 64
   \<and> sorted_wrt (\<lambda>p q. unat (file_offset (sample_recs ! p)) + unat (file_size (sample_recs ! p))
        \<le> unat (file_offset (sample_recs ! q))) [1, 2]"
  using layout_file_disjoint [OF sample_layout sample_input_ok] sample_cost
  unfolding sample_placed by (simp add: sample_recs_def)

theorem layout_memory_disjoint_witness:
  "mem_offset (sample_recs ! 2) = 0x401040
   \<and> sorted_wrt (\<lambda>p q. unat (mem_offset (sample_recs ! p)) + unat (mem_size (sample_recs ! p))
        \<le> unat (mem_offset (sample_recs ! q))) [1, 2]"
  using layout_memory_disjoint [OF sample_layout sample_input_ok sample_cost sample_unlocated]
  unfolding sample_placed by (simp add: sample_recs_def)

end
