(* ===== verification/Layout_Congruent.thy ===== *)
theory Layout_Congruent
  imports Layout_Disjoint
begin

text \<open>
  The file offsets and the addresses that \<^verbatim>\<open>layout_section_parts\<close> assigns inside a load segment are
  congruent modulo the page size.
\<close>

subsection \<open>File offsets and addresses of a load segment\<close>

lemma round_up_cong:
  assumes "m dvd A" and "0 < m" and "f mod A = g mod A"
  shows "round_up m f mod A = round_up m g mod A"
proof -
  have "f mod m = g mod m" using assms(1,3) by (metis mod_mod_cancel)
  then show ?thesis using assms(3) by (auto simp: round_up_def intro: mod_add_cong)
qed

lemma align_nat_dvd: "exponent a \<le> exponent b \<Longrightarrow> align_nat a dvd align_nat b"
  by (simp add: le_imp_power_dvd word_le_nat_alt)

text \<open>Two cursors with the same residue keep it when both are aligned and advanced by one part with file data.\<close>

lemma place_part_congruent:
  assumes "place_part pf os args sizes s ma k st = Some st'"
    and "infos_ok os" and "align_ok ma" and "align_ok (loadable_segment_alignment args)"
    and "part_alloc pf os s" and "part_has_data pf os s" and "\<not> should_output_partial_object args"
    and "exponent ma \<le> exponent A"
  defines "p \<equiv> unat (part_offset (base_part_id s) k)"
  assumes "unat (cur_file st) + part_cost sizes p \<le> 2 ^ 64" and "unat (cur_mem st) + part_cost sizes p \<le> 2 ^ 64"
    and "unat (cur_file st) mod align_nat A = unat (cur_mem st) mod align_nat A"
  shows "unat (cur_file st') mod align_nat A = unat (cur_mem st') mod align_nat A"
    and "unat (file_offset (records_out st' ! p)) mod align_nat A = unat (mem_offset (records_out st' ! p)) mod align_nat A"
proof -
  obtain r a v where p: "p < length (records_out st)" "records_out st' = (records_out st)[p := r]"
    and v: "get_at sizes p = Some v" and a: "part_alignment os (part_offset (base_part_id s) k) = Some a"
    and r: "file_offset r = align_up (align_min a ma) (cur_file st)"
      "mem_size r = (if s = RELRO_PADDING
                     then align_up (loadable_segment_alignment args) (cur_mem st) - cur_mem st else v)"
      "file_size r = mem_size r" "cur_file st' = file_offset r + file_size r"
      "mem_offset r = align_up (align_min a ma) (cur_mem st)" "cur_mem st' = mem_offset r + mem_size r"
    using place_part_SomeE [OF assms(1)] assms(5-7) unfolding p_def by (metis (no_types, lifting))
  let ?al = "align_min a ma"
  have ok: "align_ok ?al" using assms(2,3) a part_alignment_ok by (metis align_min_ok)
  have "exponent ?al \<le> exponent A" using assms(8) by (auto simp: align_min_def)
  then have dvd: "align_nat ?al dvd align_nat A" by (rule align_nat_dvd)
  have m16: "align_nat ?al \<le> 2 ^ 16" by (rule align_nat_le [OF ok])
  have b: "unat (cur_file st) + unat v + 2 ^ 17 \<le> 2 ^ 64" "unat (cur_mem st) + unat v + 2 ^ 17 \<le> 2 ^ 64"
    using assms(10,11) v by (simp_all add: part_cost_def)
  have "unat (cur_file st) + align_nat ?al \<le> 2 ^ 64" "unat (cur_mem st) + align_nat ?al \<le> 2 ^ 64"
    using b m16 by simp_all
  note up = this [THEN unat_align_up [OF ok], folded r(1,5)]
  have cong: "unat (file_offset r) mod align_nat A = unat (mem_offset r) mod align_nat A"
    unfolding up by (rule round_up_cong [OF dvd _ assms(12)]) simp
  then show "unat (file_offset (records_out st' ! p)) mod align_nat A = unat (mem_offset (records_out st' ! p)) mod align_nat A"
    using p by simp
  have sz: "unat (mem_size r) \<le> unat v + 2 ^ 16"
    using r(2) align_up_gap [OF assms(4), of "cur_mem st"] by simp
  have g: "unat (file_offset r) < unat (cur_file st) + 2 ^ 16" "unat (mem_offset r) < unat (cur_mem st) + 2 ^ 16"
    using align_up_grows(2) [OF ok, of "cur_file st"] align_up_grows(2) [OF ok, of "cur_mem st"] b r(1,5) by simp_all
  have "unat (file_offset r) + unat (mem_size r) < 2 ^ LENGTH(64)" "unat (mem_offset r) + unat (mem_size r) < 2 ^ LENGTH(64)"
    using g sz b by simp_all
  note no_wrap = this [THEN unat_add_lem [THEN iffD1]]
  show "unat (cur_file st') mod align_nat A = unat (cur_mem st') mod align_nat A"
    unfolding r(4,6,3) no_wrap by (rule mod_add_cong [OF cong refl])
qed

text \<open>A part that is not placed any more keeps its record.\<close>

lemma place_part_keeps:
  assumes "place_part pf os args sizes s ma k st = Some st'" and "q \<noteq> unat (part_offset (base_part_id s) k)"
  shows "records_out st' ! q = records_out st ! q"
  using place_part_SomeE [OF assms(1)] assms(2) by (metis nth_list_update_neq)

lemma place_parts_keep:
  assumes "fold_opt (place_part pf os args sizes s ma) [0..<n] st = Some st'"
    and "section_fits s" and "n \<le> num_parts s" and "q \<notin> {unat (base_part_id s)..<unat (base_part_id s) + n}"
  shows "records_out st' ! q = records_out st ! q"
  using assms(1,3,4)
proof (induction n arbitrary: st')
  case (Suc n)
  obtain st1 where st1: "fold_opt (place_part pf os args sizes s ma) [0..<n] st = Some st1"
    and st': "place_part pf os args sizes s ma n st1 = Some st'"
    using Suc.prems(1) by (auto simp: fold_opt_append bind_eq_Some_conv)
  have "unat (part_offset (base_part_id s) n) = unat (base_part_id s) + n"
    using unat_part_offset [OF assms(2)] Suc.prems(2) by simp
  then have "records_out st' ! q = records_out st1 ! q"
    using place_part_keeps [OF st'] Suc.prems(3) by auto
  then show ?case using Suc.IH [OF st1] Suc.prems by auto
qed simp

lemma layout_run_keeps:
  assumes "fold_opt (layout_step pf os segs args sizes aligns) evs st = Some st'"
    and "\<And>sid a. aligns sid = Some a \<Longrightarrow> align_ok a" and "infos_ok os" and "align_ok (loadable_segment_alignment args)"
    and "\<And>s. Section s \<in> set evs \<Longrightarrow> section_fits s" and "q \<notin> set (placed evs)"
  shows "records_out st' ! q = records_out st ! q"
  using assms(1,5,6)
proof (induction evs arbitrary: st)
  case (Cons ev evs)
  obtain st1 where st1: "layout_step pf os segs args sizes aligns ev st = Some st1"
    and run: "fold_opt (layout_step pf os segs args sizes aligns) evs st1 = Some st'"
    using Cons.prems(1) by (auto simp: bind_eq_Some_conv)
  have "records_out st1 ! q = records_out st ! q"
  proof (cases ev)
    case (SegmentStart sid)
    then have "start_segment pf segs args aligns sid st = Some st1" using st1 by simp
    then show ?thesis using assms(2,4) by (rule start_segment_SomeE) simp_all
  next
    case (Section s)
    then have ps: "place_section pf os args sizes s st = Some st1" and fits: "section_fits s"
      using st1 Cons.prems(2) by simp_all
    obtain info ma where "output_info os s = Some info" and "align_ok ma"
      and "max_alignment 0 os (part_id_range s) sizes = Some ma" and "pending_location st = None"
      and f: "fold_opt (place_part pf os args sizes s ma) [0..<num_parts s]
             (case location info of Some l \<Rightarrow> st\<lparr>cur_mem := l\<rparr> | None \<Rightarrow> st) = Some st1"
      by (rule place_section_SomeE [OF ps fits assms(3)])
    have "q \<notin> {unat (base_part_id s)..<unat (base_part_id s) + num_parts s}"
      using Cons.prems(3) Section by (simp add: placed_def section_parts_def)
    then show ?thesis using place_parts_keep [OF f fits order.refl] by (cases "location info") simp_all
  qed (use st1 in auto)
  then show ?case using Cons.IH [OF run] Cons.prems by (simp add: placed_def)
qed simp

definition congruent_at :: "align \<Rightarrow> output_record_layout \<Rightarrow> bool" where
  "congruent_at A r \<longleftrightarrow> unat (file_offset r) mod align_nat A = unat (mem_offset r) mod align_nat A"

definition congruent_state :: "align \<Rightarrow> layout_state \<Rightarrow> bool" where
  "congruent_state A st \<longleftrightarrow> unat (cur_file st) mod align_nat A = unat (cur_mem st) mod align_nat A"

lemma place_parts_congruent:
  assumes "fold_opt (place_part pf os args sizes s ma) [0..<n] st = Some st'"
    and ok: "infos_ok os" "align_ok ma" "align_ok (loadable_segment_alignment args)"
    and fits: "section_fits s" and "n \<le> num_parts s"
    and part: "part_alloc pf os s" "part_has_data pf os s" "\<not> should_output_partial_object args"
    and A: "exponent ma \<le> exponent A"
  defines "b \<equiv> unat (base_part_id s)"
  assumes "unat (cur_file st) + sum_list (map (part_cost sizes) [b..<b + n]) \<le> 2 ^ 64"
    and "unat (cur_mem st) + sum_list (map (part_cost sizes) [b..<b + n]) \<le> 2 ^ 64"
    and "congruent_state A st"
  shows "congruent_state A st' \<and> (\<forall>p \<in> {b..<b + n}. congruent_at A (records_out st' ! p))"
  using assms(1,6,12-)
proof (induction n arbitrary: st')
  case (Suc n)
  obtain st1 where st1: "fold_opt (place_part pf os args sizes s ma) [0..<n] st = Some st1"
    and st': "place_part pf os args sizes s ma n st1 = Some st'"
    using Suc.prems(1) by (auto simp: fold_opt_append bind_eq_Some_conv)
  have off: "unat (part_offset (base_part_id s) n) = b + n"
    unfolding b_def using unat_part_offset [OF fits] Suc.prems(2) by simp
  let ?c = "sum_list (map (part_cost sizes) [b..<b + n])"
  have n: "n \<le> num_parts s" using Suc.prems(2) by simp
  have le: "unat (cur_file st) + ?c \<le> 2 ^ 64" "unat (cur_mem st) + ?c \<le> 2 ^ 64" using Suc.prems(3,4) by simp_all
  have ih: "congruent_state A st1 \<and> (\<forall>p \<in> {b..<b + n}. congruent_at A (records_out st1 ! p))"
    by (rule Suc.IH [OF st1 n le Suc.prems(5)])
  have "unat (cur_file st1) \<le> unat (cur_file st) + ?c"
    using place_parts_file [OF st1 ok fits n, of "[]"] le(1) by (simp add: b_def)
  moreover have "unat (cur_mem st1) \<le> unat (cur_mem st) + ?c"
    using place_parts_mem [OF st1 ok fits n part(3), of "[]" 0] le(2) part(1) by (simp add: b_def)
  ultimately have b1: "unat (cur_file st1) + part_cost sizes (b + n) \<le> 2 ^ 64"
      "unat (cur_mem st1) + part_cost sizes (b + n) \<le> 2 ^ 64"
    using Suc.prems(3,4) by simp_all
  note step = place_part_congruent [OF st' ok part A, unfolded off, OF b1 ih [THEN conjunct1, unfolded congruent_state_def]]
  have "congruent_at A (records_out st' ! p)" if "p \<in> {b..<b + Suc n}" for p
  proof (cases "p = b + n")
    case True
    then show ?thesis using step(2) by (simp add: congruent_at_def)
  next
    case False
    then show ?thesis using that ih place_part_keeps [OF st', of p] off by auto
  qed
  then show ?case using step(1) by (auto simp: congruent_state_def)
qed simp

text \<open>Events inside a load segment, before its first section without file data.\<close>

fun inside_load ::
    "('attr, 'def) platform \<Rightarrow> 'attr output_sections \<Rightarrow> 'def list \<Rightarrow> segment_id \<Rightarrow> order_event \<Rightarrow> bool" where
  "inside_load pf os segs sid (Section s) \<longleftrightarrow> part_alloc pf os s \<and> part_has_data pf os s"
| "inside_load pf os segs sid (SegmentStart i) \<longleftrightarrow> is_load_segment pf segs i = Some False"
| "inside_load pf os segs sid (SegmentEnd i) \<longleftrightarrow> i \<noteq> sid"
| "inside_load pf os segs sid (SetLocation _) \<longleftrightarrow> False"

lemma layout_mid_congruent:
  assumes run: "fold_opt (layout_step pf os segs args sizes aligns) mid st = Some st'"
    and aligns: "\<And>sid a. aligns sid = Some a \<Longrightarrow> align_ok a"
    and ok: "infos_ok os" "align_ok (loadable_segment_alignment args)" "\<And>s. Section s \<in> set mid \<Longrightarrow> section_fits s"
    and free: "list_all (unlocated os) mid" "\<not> should_output_partial_object args"
    and inside: "list_all (inside_load pf os segs sid) mid"
    and A: "\<And>s m. Section s \<in> set mid \<Longrightarrow> max_alignment 0 os (part_id_range s) sizes = Some m \<Longrightarrow> exponent m \<le> exponent A"
    and bound: "unat (cur_file st) + layout_cost sizes mid \<le> 2 ^ 64" "unat (cur_mem st) + layout_cost sizes mid \<le> 2 ^ 64"
    and new: "distinct (placed mid)" and start: "congruent_state A st"
  shows "\<forall>p \<in> set (placed mid). congruent_at A (records_out st' ! p)"
  using run ok(3) free(1) inside A bound new start
proof (induction mid arbitrary: st)
  case (Cons ev evs)
  obtain st1 where st1: "layout_step pf os segs args sizes aligns ev st = Some st1"
    and run: "fold_opt (layout_step pf os segs args sizes aligns) evs st1 = Some st'"
    using Cons.prems(1) by (auto simp: bind_eq_Some_conv)
  have pl: "placed (ev # evs) = event_parts ev @ placed evs" by (simp add: placed_def)
  have cost: "layout_cost sizes (ev # evs) = event_cost sizes ev + layout_cost sizes evs" by (simp add: layout_cost_def)
  have step: "congruent_state A st1 \<and> (\<forall>p \<in> set (event_parts ev). congruent_at A (records_out st1 ! p))
      \<and> unat (cur_file st1) \<le> unat (cur_file st) + event_cost sizes ev \<and> unat (cur_mem st1) \<le> unat (cur_mem st) + event_cost sizes ev"
  proof (cases ev)
    case (SegmentStart i)
    then have "st1 = st" using st1 Cons.prems(4) by (auto simp: start_segment_def is_load_segment_def bind_eq_Some_conv)
    then show ?thesis using Cons.prems(9) SegmentStart by simp
  next
    case (Section s)
    then have ps: "place_section pf os args sizes s st = Some st1" and fits: "section_fits s"
      and part: "part_alloc pf os s" "part_has_data pf os s"
      using st1 Cons.prems(2,4) by simp_all
    obtain info ma where info: "output_info os s = Some info" and ma: "align_ok ma"
      and max: "max_alignment 0 os (part_id_range s) sizes = Some ma" and "pending_location st = None"
      and f: "fold_opt (place_part pf os args sizes s ma) [0..<num_parts s]
             (case location info of Some l \<Rightarrow> st\<lparr>cur_mem := l\<rparr> | None \<Rightarrow> st) = Some st1"
      by (rule place_section_SomeE [OF ps fits ok(1)])
    have "location info = None" using Cons.prems(3) info Section by simp
    then have f: "fold_opt (place_part pf os args sizes s ma) [0..<num_parts s] st = Some st1" using f by simp
    have le: "exponent ma \<le> exponent A" using Cons.prems(5) [OF _ max] Section by simp
    have b: "unat (cur_file st) + section_cost sizes s \<le> 2 ^ 64" "unat (cur_mem st) + section_cost sizes s \<le> 2 ^ 64"
      using Cons.prems(6,7) cost Section by simp_all
    note b = b [unfolded section_cost_def section_parts_def]
    note okm = ok(1) ma ok(2)
    show ?thesis
      using place_parts_congruent [OF f okm fits order.refl part free(2) le b Cons.prems(9)]
        place_parts_file [OF f okm fits order.refl, of "[]"] place_parts_mem [OF f okm fits order.refl free(2), of "[]" 0] b part(1)
      by (simp add: Section section_cost_def section_parts_def)
  qed (use st1 Cons.prems in auto)
  have b1: "unat (cur_file st1) + layout_cost sizes evs \<le> 2 ^ 64" "unat (cur_mem st1) + layout_cost sizes evs \<le> 2 ^ 64"
    using step Cons.prems(6,7) cost by linarith+
  have ih: "\<forall>p \<in> set (placed evs). congruent_at A (records_out st' ! p)"
    using step Cons.prems pl by (intro Cons.IH [OF run _ _ _ _ b1]) auto
  have "records_out st' ! p = records_out st1 ! p" if "p \<in> set (event_parts ev)" for p
  proof -
    have "p \<notin> set (placed evs)" using that Cons.prems(8) pl by auto
    then show ?thesis using Cons.prems(2) by (intro layout_run_keeps [OF run aligns ok(1,2)]) auto
  qed
  then show ?case using ih step by (auto simp: pl)
qed (simp add: placed_def)

lemma mod_eq_dvd: "(x :: nat) mod a = y mod a \<Longrightarrow> d dvd a \<Longrightarrow> x mod d = y mod d"
  by (metis mod_mod_cancel)

text \<open>The alignment of a load segment covers every section between its start and its end.\<close>

lemma align_max_exponent: "exponent a \<le> exponent (align_max a b)" "exponent b \<le> exponent (align_max a b)"
  by (auto simp: align_max_def)

lemma segment_alignment_step_grows:
  assumes "segment_alignment_step pf os segs args sizes ev (al, act) = Some (al', act')" and "al sid = Some a"
  shows "\<exists>b. al' sid = Some b \<and> exponent a \<le> exponent b"
  using assms align_max_exponent
  by (cases ev) (auto simp: segment_alignment_step_def bind_eq_Some_conv split: if_splits option.splits)

lemma segment_alignments_grow:
  assumes "fold_opt (segment_alignment_step pf os segs args sizes) evs (al, act) = Some (al', act')" and "al sid = Some a"
  shows "\<exists>b. al' sid = Some b \<and> exponent a \<le> exponent b"
  using assms
proof (induction evs arbitrary: al act a)
  case (Cons ev evs)
  obtain al1 act1 where st1: "segment_alignment_step pf os segs args sizes ev (al, act) = Some (al1, act1)"
    and run: "fold_opt (segment_alignment_step pf os segs args sizes) evs (al1, act1) = Some (al', act')"
    using Cons.prems(1) by (auto simp: bind_eq_Some_conv)
  obtain b where b: "al1 sid = Some b" "exponent a \<le> exponent b"
    using segment_alignment_step_grows [OF st1 Cons.prems(2)] by blast
  from Cons.IH [OF run b(1)] b(2) show ?case using order.trans by blast
qed simp

lemma segment_alignments_cover:
  assumes "fold_opt (segment_alignment_step pf os segs args sizes) (mid @ post) (al, act) = Some (al', act')"
    and "al sid = Some a" and "sid \<in> set act" and "SegmentEnd sid \<notin> set mid" and "Section s \<in> set mid"
    and "max_alignment 0 os (part_id_range s) sizes = Some m"
  shows "\<exists>b. al' sid = Some b \<and> exponent m \<le> exponent b"
  using assms
proof (induction mid arbitrary: al act a)
  case (Cons ev mid)
  obtain al1 act1 where st1: "segment_alignment_step pf os segs args sizes ev (al, act) = Some (al1, act1)"
    and run: "fold_opt (segment_alignment_step pf os segs args sizes) (mid @ post) (al1, act1) = Some (al', act')"
    using Cons.prems(1) by (auto simp: bind_eq_Some_conv)
  obtain b where b: "al1 sid = Some b"
    using segment_alignment_step_grows [OF st1 Cons.prems(2)] by blast
  have act: "sid \<in> set act1"
    using st1 Cons.prems(3,4) by (cases ev) (auto simp: segment_alignment_step_def bind_eq_Some_conv split: if_splits)
  show ?case
  proof (cases "ev = Section s")
    case True
    then have "al1 sid = Some (align_max a m)"
      using st1 Cons.prems(2,3,6) by (auto simp: segment_alignment_step_def)
    from segment_alignments_grow [OF run this] show ?thesis using align_max_exponent(2) order.trans by blast
  next
    case False
    then show ?thesis using Cons.IH [OF run b act] Cons.prems by simp
  qed
qed simp

lemma load_segment_alignment_run:
  assumes "compute_segment_alignments pf os segs args sizes (pre @ SegmentStart sid # mid @ post) = Some aligns"
    and "is_load_segment pf segs sid = Some True"
  obtains al act act' a where "fold_opt (segment_alignment_step pf os segs args sizes) (mid @ post) (al, act) = Some (aligns, act')"
    and "sid \<in> set act" and "al sid = Some a"
proof -
  obtain al0 act0 act' where run: "fold_opt (segment_alignment_step pf os segs args sizes) (SegmentStart sid # mid @ post) (al0, act0)
      = Some (aligns, act')"
    using assms(1) by (auto simp: compute_segment_alignments_def fold_opt_append [of _ pre] bind_eq_Some_conv simp del: fold_opt.simps)
  obtain al act where st1: "segment_alignment_step pf os segs args sizes (SegmentStart sid) (al0, act0) = Some (al, act)"
    and run1: "fold_opt (segment_alignment_step pf os segs args sizes) (mid @ post) (al, act) = Some (aligns, act')"
    using run by (auto simp: bind_eq_Some_conv)
  have "sid \<in> set act" and "\<exists>a. al sid = Some a"
    using st1 assms(2) by (auto simp: segment_alignment_step_def split: option.splits)
  then show ?thesis using that [OF run1] by blast
qed

lemma load_segment_started:
  assumes "compute_segment_alignments pf os segs args sizes (pre @ SegmentStart sid # mid @ post) = Some aligns"
    and "is_load_segment pf segs sid = Some True"
  shows "\<exists>A. aligns sid = Some A"
  using load_segment_alignment_run [OF assms] segment_alignments_grow by metis

lemma load_segment_alignment:
  assumes "compute_segment_alignments pf os segs args sizes (pre @ SegmentStart sid # mid @ post) = Some aligns"
    and "is_load_segment pf segs sid = Some True" and "SegmentEnd sid \<notin> set mid" and "aligns sid = Some A"
  shows "Section s \<in> set mid \<Longrightarrow> max_alignment 0 os (part_id_range s) sizes = Some m \<Longrightarrow> exponent m \<le> exponent A"
proof -
  obtain al act act' a where "fold_opt (segment_alignment_step pf os segs args sizes) (mid @ post) (al, act) = Some (aligns, act')"
    and "sid \<in> set act" and "al sid = Some a"
    by (rule load_segment_alignment_run [OF assms(1,2)])
  then show "Section s \<in> set mid \<Longrightarrow> max_alignment 0 os (part_id_range s) sizes = Some m \<Longrightarrow> exponent m \<le> exponent A"
    using segment_alignments_cover assms(3,4) by fastforce
qed

lemma load_segment_alignment_base:
  assumes "compute_segment_alignments pf os segs args sizes evs = Some aligns" and "aligns sid = Some A"
  shows "exponent (loadable_segment_alignment args) \<le> exponent A"
proof -
  have "exponent (loadable_segment_alignment args) \<le> exponent A"
    if "fold_opt (segment_alignment_step pf os segs args sizes) evs (al, act) = Some (aligns, act')"
      and "\<forall>i a. al i = Some a \<longrightarrow> exponent (loadable_segment_alignment args) \<le> exponent a" for al act act'
    using that assms(2)
  proof (induction evs arbitrary: al act)
    case (Cons ev evs)
    obtain al1 act1 where st1: "segment_alignment_step pf os segs args sizes ev (al, act) = Some (al1, act1)"
      and run: "fold_opt (segment_alignment_step pf os segs args sizes) evs (al1, act1) = Some (aligns, act')"
      using Cons.prems(1) by (auto simp: bind_eq_Some_conv)
    have "\<forall>i a. al1 i = Some a \<longrightarrow> exponent (loadable_segment_alignment args) \<le> exponent a"
      using st1 Cons.prems(2) order.trans [OF _ align_max_exponent(1)]
      by (cases ev) (auto simp: segment_alignment_step_def bind_eq_Some_conv split: if_splits option.splits)
    then show ?case using Cons.IH [OF run] Cons.prems(3) by blast
  qed simp
  then show ?thesis using assms(1) by (auto simp: compute_segment_alignments_def)
qed

text \<open>The start of an ELF load segment makes the memory cursor congruent to the file cursor.\<close>

lemma elf_start_congruent:
  assumes "start_segment (elf_platform elf size_of) segs args aligns sid st = Some st'"
    and "is_load_segment (elf_platform elf size_of) segs sid = Some True" and "aligns sid = Some A" and "align_ok A"
    and "pending_location st = None" and "unat (cur_mem st) + 2 ^ 17 \<le> 2 ^ 64"
  shows "congruent_state A st'"
proof -
  have st': "cur_file st' = cur_file st" "cur_mem st' = align_modulo A (cur_file st) (cur_mem st)"
    using assms(1-3,5)
    by (auto simp: start_segment_def is_load_segment_def elf_platform_def elf_align_load_segment_start_def)
  have "align_nat A \<le> 2 ^ 16" by (rule align_nat_le [OF assms(4)])
  then have b: "unat (cur_mem st) + 2 * align_nat A \<le> 2 ^ 64" "unat (cur_mem st) + align_nat A \<le> 2 ^ 64"
    using assms(6) by simp_all
  have "unat (align_up A (cur_mem st)) mod align_nat A = 0" by (rule align_up_mod [OF assms(4) b(2)])
  then show ?thesis
    unfolding congruent_state_def st' unat_align_modulo(1) [OF assms(4) b(1)]
    by (metis add.left_neutral mod_add_left_eq mod_mod_trivial)
qed

text \<open>Growth of both cursors over a run without fixed addresses.\<close>

context load_start
begin

lemma layout_run_growth:
  assumes start: "align_load_segment_start pf = start"
    and run: "fold_opt (layout_step pf os segs args sizes aligns) evs st = Some st'"
    and aligns: "\<And>sid a. aligns sid = Some a \<Longrightarrow> align_ok a"
    and ok: "infos_ok os" "align_ok (loadable_segment_alignment args)" "\<And>s. Section s \<in> set evs \<Longrightarrow> section_fits s"
    and free: "list_all (unlocated os) evs" "pending_location st = None" "\<not> should_output_partial_object args"
    and bound: "unat (cur_file st) + layout_cost sizes evs \<le> 2 ^ 64" "unat (cur_mem st) + layout_cost sizes evs \<le> 2 ^ 64"
  shows "unat (cur_file st') \<le> unat (cur_file st) + layout_cost sizes evs
    \<and> unat (cur_mem st') \<le> unat (cur_mem st) + layout_cost sizes evs \<and> pending_location st' = None"
  using run ok(3) free(1,2) bound
proof (induction evs arbitrary: st)
  case (Cons ev evs)
  obtain st1 where st1: "layout_step pf os segs args sizes aligns ev st = Some st1"
    and run: "fold_opt (layout_step pf os segs args sizes aligns) evs st1 = Some st'"
    using Cons.prems(1) by (auto simp: bind_eq_Some_conv)
  have cost: "layout_cost sizes (ev # evs) = event_cost sizes ev + layout_cost sizes evs" by (simp add: layout_cost_def)
  have f: "unat (cur_file st1) \<le> unat (cur_file st) + event_cost sizes ev"
    using Cons.prems cost layout_step_file [OF start st1 aligns ok(1,2), where ps = "[]"] by simp
  have m: "unat (cur_mem st1) \<le> unat (cur_mem st) + event_cost sizes ev \<and> pending_location st1 = None"
    using Cons.prems cost layout_step_mem [OF start st1 aligns ok(1,2), where ps = "[]" and lo = 0] free(3) by simp
  have "unat (cur_file st') \<le> unat (cur_file st1) + layout_cost sizes evs
      \<and> unat (cur_mem st') \<le> unat (cur_mem st1) + layout_cost sizes evs \<and> pending_location st' = None"
    using Cons.prems cost f m by (intro Cons.IH [OF run]) auto
  then show ?case using f m cost by simp
qed (simp add: layout_cost_def)

end

text \<open>
  C23. Load segments of an ELF output can be mapped: up to the first section without file data, every part
  placed between the start and the end of a load segment has a file offset and an address that are
  congruent modulo the page size (the loadable segment alignment), as the program loader demands.
\<close>

theorem layout_load_congruent:
  assumes "layout_section_parts (elf_platform elf size_of) os segs args sizes (pre @ SegmentStart sid # mid @ post) = Some recs"
    and "layout_input_ok os args (pre @ SegmentStart sid # mid @ post)"
    and "unat (base_address os) + layout_cost sizes (pre @ SegmentStart sid # mid @ post) \<le> 2 ^ 64"
    and "list_all (unlocated os) (pre @ SegmentStart sid # mid @ post)" and "\<not> should_output_partial_object args"
    and "is_load_segment (elf_platform elf size_of) segs sid = Some True"
    and "list_all (inside_load (elf_platform elf size_of) os segs sid) mid"
  shows "\<forall>p \<in> set (placed mid).
    unat (file_offset (recs ! p)) mod align_nat (loadable_segment_alignment args)
    = unat (mem_offset (recs ! p)) mod align_nat (loadable_segment_alignment args)"
proof -
  let ?pf = "elf_platform elf size_of" and ?evs = "pre @ SegmentStart sid # mid @ post"
  obtain aligns st' where al: "compute_segment_alignments ?pf os segs args sizes ?evs = Some aligns"
    and run: "fold_opt (layout_step ?pf os segs args sizes aligns) ?evs (layout_start os) = Some st'"
    and recs: "recs = records_out st'"
    using assms(1) by (auto simp: layout_section_parts_def bind_eq_Some_conv simp del: fold_opt.simps)
  have ok: "infos_ok os" "align_ok (loadable_segment_alignment args)" "\<And>s. Section s \<in> set ?evs \<Longrightarrow> section_fits s"
    and dist: "distinct (placed ?evs)"
    using assms(2) by (auto simp: layout_input_ok_def)
  note aok = compute_segment_alignments_ok [OF al ok(1,2)]
  obtain st1 st2 st3 where r1: "fold_opt (layout_step ?pf os segs args sizes aligns) pre (layout_start os) = Some st1"
    and r2: "start_segment ?pf segs args aligns sid st1 = Some st2"
    and r3: "fold_opt (layout_step ?pf os segs args sizes aligns) mid st2 = Some st3"
    and r4: "fold_opt (layout_step ?pf os segs args sizes aligns) post st3 = Some st'"
    using run by (auto simp: fold_opt_append bind_eq_Some_conv)
  obtain A where A: "aligns sid = Some A" using load_segment_started [OF al assms(6)] by blast
  have cost: "layout_cost sizes ?evs = layout_cost sizes pre + (2 ^ 17 + (layout_cost sizes mid + layout_cost sizes post))"
    by (simp add: layout_cost_def)
  have pl: "placed ?evs = placed pre @ placed mid @ placed post" by (simp add: placed_def)
  have start: "cur_file (layout_start os) = 0" "cur_mem (layout_start os) = base_address os" "pending_location (layout_start os) = None"
    by (simp_all add: layout_start_def)
  have g1: "unat (cur_file st1) \<le> unat (cur_file (layout_start os)) + layout_cost sizes pre
      \<and> unat (cur_mem st1) \<le> unat (cur_mem (layout_start os)) + layout_cost sizes pre \<and> pending_location st1 = None"
    using assms(3-5) cost start ok(3) by (intro elf_load.layout_run_growth [OF refl r1 aok ok(1,2)]) auto
  then have b1: "unat (cur_file st1) + (2 ^ 17 + (layout_cost sizes mid + layout_cost sizes post)) \<le> 2 ^ 64"
      "unat (cur_mem st1) + (2 ^ 17 + (layout_cost sizes mid + layout_cost sizes post)) \<le> 2 ^ 64" "pending_location st1 = None"
    using assms(3) cost start by simp_all
  have "layout_step ?pf os segs args sizes aligns (SegmentStart sid) st1 = Some st2" using r2 by simp
  then have g2: "unat (cur_file st2) \<le> unat (cur_file st1) + 2 ^ 17" "unat (cur_mem st2) \<le> unat (cur_mem st1) + 2 ^ 17"
    using elf_load.layout_step_file [OF refl _ aok ok(1,2), where ps = "[]" and ev = "SegmentStart sid"]
      elf_load.layout_step_mem [OF refl _ aok ok(1,2), where ps = "[]" and lo = 0 and ev = "SegmentStart sid"] b1 assms(5)
    by simp_all
  have "unat (cur_mem st1) + 2 ^ 17 \<le> 2 ^ 64" using b1(2) by simp
  note c2 = elf_start_congruent [OF r2 assms(6) A aok [OF A] b1(3) this]
  have out: "SegmentEnd sid \<notin> set mid" using assms(7) by (auto simp: list_all_iff)
  have fits: "section_fits s" if "Section s \<in> set mid" for s using ok(3) that by simp
  have free: "list_all (unlocated os) mid" and new: "distinct (placed mid)" using assms(4) dist pl by simp_all
  have b2: "unat (cur_file st2) + layout_cost sizes mid \<le> 2 ^ 64" "unat (cur_mem st2) + layout_cost sizes mid \<le> 2 ^ 64"
    using g2 b1(1,2) by linarith+
  note mid = layout_mid_congruent [OF r3 aok ok(1,2) fits free assms(5,7) load_segment_alignment [OF al assms(6) out A] b2 new c2]
  show ?thesis
  proof
    fix p assume p: "p \<in> set (placed mid)"
    then have "p \<notin> set (placed post)" using dist pl by auto
    then have "recs ! p = records_out st3 ! p"
      unfolding recs using ok(3) by (intro layout_run_keeps [OF r4 aok ok(1,2)]) auto
    then have "congruent_at A (recs ! p)" using mid p by simp
    moreover have "align_nat (loadable_segment_alignment args) dvd align_nat A"
      by (rule align_nat_dvd [OF load_segment_alignment_base [OF al A]])
    ultimately show "unat (file_offset (recs ! p)) mod align_nat (loadable_segment_alignment args)
        = unat (mem_offset (recs ! p)) mod align_nat (loadable_segment_alignment args)"
      unfolding congruent_at_def by (rule mod_eq_dvd)
  qed
qed

lemma sample_segment:
  "is_load_segment (elf_platform sample_elf (\<lambda>_. 8)) sample_segs 0 = Some True"
  "list_all (inside_load (elf_platform sample_elf (\<lambda>_. 8)) sample_os sample_segs 0) [Section 1, Section 2]"
  by code_simp+

theorem layout_load_congruent_witness:
  "unat (file_offset (sample_recs ! 2)) mod 2 ^ 12 = unat (mem_offset (sample_recs ! 2)) mod 2 ^ 12"
  using layout_load_congruent [OF sample_layout sample_input_ok sample_cost sample_unlocated sample_segment]
  unfolding sample_placed by (simp add: sample_args_def)

end
