(* ===== verification/Segment_Layout.thy ===== *)
theory Segment_Layout
  imports Layout_Congruent "HOL-Library.Product_Lexorder"
begin

text \<open>
  Layout of the program segments, from \<^verbatim>\<open>libsld/src/layout.rs\<close> (\<^verbatim>\<open>compute_segment_layout\<close>) with the ELF
  parts it calls, \<^verbatim>\<open>validate_section\<close> of \<^verbatim>\<open>libsld/src/elf.rs\<close> and \<^verbatim>\<open>order_key\<close> of
  \<^verbatim>\<open>libsld/src/program_segments.rs\<close>. A failed assertion and an index out of range are \<open>None\<close>; the errors
  that the function returns are values.
\<close>

record segment_record =
  rec_segment_id :: segment_id
  file_start :: u64
  file_end :: u64
  mem_start :: u64
  mem_end :: u64
  seg_alignment :: align

record segment_layout =
  layout_id :: segment_id
  layout_sizes :: output_record_layout

record segment_layouts =
  segments_out :: "segment_layout list"
  tls_layout :: "output_record_layout option"

datatype segment_error =
    EndWithoutStart
  | ExpectedZeroAddress section_id
  | AllocNotInSegment section_id
  | MissingMemoryOffset section_id
  | MissingAllocFlag section_id

text \<open>\<^verbatim>\<open>Elf::validate_section\<close>: sections of a segment are allocated and have an address, with two exceptions.\<close>

definition validate_section ::
    "elf_consts \<Rightarrow> elf_attributes section_output_info \<Rightarrow> elf_attributes \<Rightarrow> output_record_layout \<Rightarrow> section_id \<Rightarrow> section_id
     \<Rightarrow> segment_error + unit" where
  "validate_section elf info target_attributes sl target section_id =
     (if attr_ty (section_attributes info) \<in> {elf ''SHT_NOTE'', elf ''SHT_RISCV_ATTRIBUTES''} then Inr ()
      else if \<not> (mem_offset sl \<noteq> 0 \<or> target = FILE_HEADER) then Inl (MissingMemoryOffset section_id)
      else if \<not> elf_is_alloc elf target_attributes then Inl (MissingAllocFlag section_id)
      else Inr ())"

definition start_record :: "bool \<Rightarrow> layout_args \<Rightarrow> segment_id \<Rightarrow> segment_record" where
  "start_record stack args sid =
     (if stack
      then \<lparr>rec_segment_id = sid, file_start = 0, file_end = 0, mem_start = 0,
            mem_end = (case stack_size_override args of None \<Rightarrow> 0 | Some n \<Rightarrow> n), seg_alignment = MIN_ALIGN\<rparr>
      else \<lparr>rec_segment_id = sid, file_start = - 1, file_end = 0, mem_start = - 1, mem_end = 0,
            seg_alignment = MIN_ALIGN\<rparr>)"

definition cover :: "output_record_layout \<Rightarrow> segment_record \<Rightarrow> segment_record" where
  "cover sl r =
     r\<lparr>file_start := min (file_start r) (file_offset sl), mem_start := min (mem_start r) (mem_offset sl),
       file_end := max (file_end r) (file_offset sl + file_size sl),
       mem_end := max (mem_end r) (mem_offset sl + mem_size sl),
       seg_alignment := align_max (seg_alignment r) (rec_alignment sl)\<rparr>"

text \<open>Sections without content that get no section header are skipped.\<close>

definition skipped :: "elf_attributes output_sections \<Rightarrow> output_record_layout \<Rightarrow> section_id \<Rightarrow> bool option" where
  "skipped os sl target =
     (if file_size sl = 0 \<and> mem_size sl = 0
      then map_option (\<lambda>i. i = None) (get_at (output_section_indexes os) (unat target))
      else Some False)"

type_synonym segment_state = "segment_record list \<times> segment_record option list"

definition segment_section ::
    "elf_consts \<Rightarrow> elf_attributes output_sections \<Rightarrow> output_record_layout list \<Rightarrow> section_id \<Rightarrow> segment_state
     \<Rightarrow> (segment_error + segment_state) option" where
  "segment_section elf os layouts s st =
     (case st of (complete, active) \<Rightarrow>
      do {
        sl \<leftarrow> get_at layouts (unat s);
        target \<leftarrow> primary_output_section os s;
        skip \<leftarrow> skipped os sl target;
        if skip then Some (Inr st)
        else do {
          target_info \<leftarrow> output_info os target;
          info \<leftarrow> output_info os s;
          if list_all (\<lambda>r. r = None) active then
            Some (if mem_offset sl \<noteq> 0 then Inl (ExpectedZeroAddress s)
                  else if elf_is_alloc elf (section_attributes target_info) then Inl (AllocNotInSegment s)
                  else Inr st)
          else
            Some (case validate_section elf info (section_attributes target_info) sl target s of
                    Inl e \<Rightarrow> Inl e
                  | Inr _ \<Rightarrow> Inr (complete, map (map_option (cover sl)) active))
        }
      })"

fun segment_step ::
    "elf_consts \<Rightarrow> elf_attributes output_sections \<Rightarrow> elf_segment_def list \<Rightarrow> layout_args \<Rightarrow> output_record_layout list
     \<Rightarrow> order_event \<Rightarrow> segment_state \<Rightarrow> (segment_error + segment_state) option" where
  "segment_step elf os segs args layouts (SegmentStart sid) (complete, active) =
     do {
       d \<leftarrow> segment_def segs sid;
       active' \<leftarrow> set_at (unat sid) (Some (start_record (seg_is_stack elf d) args sid)) active;
       Some (Inr (complete, active'))
     }"
| "segment_step elf os segs args layouts (SegmentEnd sid) (complete, active) =
     do {
       a \<leftarrow> get_at active (unat sid);
       active' \<leftarrow> set_at (unat sid) None active;
       Some (case a of None \<Rightarrow> Inl EndWithoutStart | Some r \<Rightarrow> Inr (complete @ [r], active'))
     }"
| "segment_step elf os segs args layouts (Section s) st = segment_section elf os layouts s st"
| "segment_step elf os segs args layouts (SetLocation _) st = Some (Inr st)"

fun segment_run ::
    "elf_consts \<Rightarrow> elf_attributes output_sections \<Rightarrow> elf_segment_def list \<Rightarrow> layout_args \<Rightarrow> output_record_layout list
     \<Rightarrow> order_event list \<Rightarrow> segment_state \<Rightarrow> (segment_error + segment_state) option" where
  "segment_run elf os segs args layouts [] st = Some (Inr st)"
| "segment_run elf os segs args layouts (ev # evs) st =
     (case segment_step elf os segs args layouts ev st of
        None \<Rightarrow> None
      | Some (Inl e) \<Rightarrow> Some (Inl e)
      | Some (Inr st') \<Rightarrow> segment_run elf os segs args layouts evs st')"

definition finish_segment :: "segment_record \<Rightarrow> segment_id \<Rightarrow> segment_layout" where
  "finish_segment r sid =
     \<lparr>layout_id = sid,
      layout_sizes = \<lparr>file_size = file_end r - file_start r, mem_size = mem_end r - mem_start r,
                      rec_alignment = seg_alignment r, file_offset = file_start r, mem_offset = mem_start r\<rparr>\<rparr>"

definition segment_order_key :: "elf_consts \<Rightarrow> elf_segment_def list \<Rightarrow> segment_layout \<Rightarrow> nat \<times> u64" where
  "segment_order_key elf segs l =
     (case segment_def segs (layout_id l) of
        Some d \<Rightarrow> (seg_order_key elf d, mem_offset (layout_sizes l)) | None \<Rightarrow> (0, 0))"

definition segment_tls :: "elf_consts \<Rightarrow> elf_segment_def list \<Rightarrow> segment_layout list \<Rightarrow> output_record_layout option" where
  "segment_tls elf segs ls =
     fold (\<lambda>l acc. case segment_def segs (layout_id l) of
                     Some d \<Rightarrow> if seg_is_tls elf d then Some (layout_sizes l) else acc | None \<Rightarrow> acc) ls None"

definition compute_segment_layout ::
    "elf_consts \<Rightarrow> output_record_layout list \<Rightarrow> elf_attributes output_sections \<Rightarrow> order_event list \<Rightarrow> elf_segment_def list
     \<Rightarrow> segment_id list \<Rightarrow> layout_args \<Rightarrow> (segment_error + segment_layouts) option" where
  "compute_segment_layout elf layouts os evs segs active_segment_ids args =
     (if should_output_partial_object args then Some (Inr \<lparr>segments_out = [], tls_layout = None\<rparr>)
      else
        case segment_run elf os segs args layouts evs ([], replicate (length segs) None) of
          None \<Rightarrow> None
        | Some (Inl e) \<Rightarrow> Some (Inl e)
        | Some (Inr (complete, _)) \<Rightarrow>
            let complete = sort_key rec_segment_id complete in
            if length complete \<noteq> length segs then None
            else do {
              ls \<leftarrow> those (map (\<lambda>sid. map_option (\<lambda>r. finish_segment r sid) (get_at complete (unat sid))) active_segment_ids);
              if list_all (\<lambda>sid. unat sid < length segs) active_segment_ids
              then Some (Inr \<lparr>segments_out = sort_key (segment_order_key elf segs) ls, tls_layout = segment_tls elf segs ls\<rparr>)
              else None
            })"

subsection \<open>Extents of segments\<close>

text \<open>
  The specification: the record of a segment is its start record extended by the sections between its
  start and its end.
\<close>

fun cover_event :: "elf_attributes output_sections \<Rightarrow> output_record_layout list \<Rightarrow> order_event \<Rightarrow> segment_record \<Rightarrow> segment_record" where
  "cover_event os layouts (Section s) r =
     (case Option.bind (primary_output_section os s) (skipped os (layouts ! unat s)) of
        Some False \<Rightarrow> cover (layouts ! unat s) r | _ \<Rightarrow> r)"
| "cover_event os layouts _ r = r"

definition segment_extent ::
    "elf_consts \<Rightarrow> elf_attributes output_sections \<Rightarrow> elf_segment_def list \<Rightarrow> layout_args \<Rightarrow> output_record_layout list
     \<Rightarrow> segment_id \<Rightarrow> order_event list \<Rightarrow> segment_record" where
  "segment_extent elf os segs args layouts sid mid =
     fold (cover_event os layouts) mid (start_record (seg_is_stack elf (segs ! unat sid)) args sid)"

lemma cover_event_id [simp]: "rec_segment_id (cover_event os layouts ev r) = rec_segment_id r"
  by (cases ev) (auto simp: cover_def split: option.splits bool.splits)

lemma segment_extent_id [simp]: "rec_segment_id (segment_extent elf os segs args layouts sid mid) = sid"
proof -
  have "rec_segment_id (fold (cover_event os layouts) mid r) = rec_segment_id r" for r
    by (induction mid arbitrary: r) simp_all
  then show ?thesis by (simp add: segment_extent_def start_record_def)
qed

lemma segment_extent_snoc:
  "segment_extent elf os segs args layouts sid (mid @ [ev]) =
     cover_event os layouts ev (segment_extent elf os segs args layouts sid mid)"
  by (simp add: segment_extent_def)

text \<open>
  The invariant of the loop after the events \<open>h\<close>, with the bracket reader in the state \<open>(n, opened)\<close>:
  open segments have an active record, ended ones a complete record, and both are the extents.
\<close>

definition segments_track ::
    "elf_consts \<Rightarrow> elf_attributes output_sections \<Rightarrow> elf_segment_def list \<Rightarrow> layout_args \<Rightarrow> output_record_layout list
     \<Rightarrow> order_event list \<Rightarrow> nat \<times> segment_id set \<Rightarrow> segment_state \<Rightarrow> bool" where
  "segments_track elf os segs args layouts h b st \<longleftrightarrow>
     (case b of (n, opened) \<Rightarrow> case st of (complete, active) \<Rightarrow>
      n \<le> length segs \<and> length active = length segs \<and> (\<forall>sid \<in> opened. unat sid < n)
      \<and> (\<forall>sid. unat sid < length segs \<longrightarrow>
           (if sid \<in> opened
            then \<exists>pre mid. h = pre @ SegmentStart sid # mid \<and> SegmentEnd sid \<notin> set mid
                   \<and> active ! unat sid = Some (segment_extent elf os segs args layouts sid mid)
            else active ! unat sid = None))
      \<and> distinct (map rec_segment_id complete)
      \<and> set (map rec_segment_id complete) = {sid. unat sid < n} - opened
      \<and> (\<forall>r \<in> set complete. \<exists>pre mid post.
           h = pre @ SegmentStart (rec_segment_id r) # mid @ SegmentEnd (rec_segment_id r) # post
           \<and> SegmentEnd (rec_segment_id r) \<notin> set mid
           \<and> r = segment_extent elf os segs args layouts (rec_segment_id r) mid))"

lemma append_snoc_history:
  "(\<exists>pre mid post. h = pre @ a # mid @ b # post \<and> P mid) \<Longrightarrow> \<exists>pre mid post. h @ [ev] = pre @ a # mid @ b # post \<and> P mid"
  by (metis append.assoc append_Cons)

lemma complete_history:
  assumes "\<forall>r \<in> set complete. \<exists>pre mid post.
           h = pre @ SegmentStart (rec_segment_id r) # mid @ SegmentEnd (rec_segment_id r) # post
           \<and> SegmentEnd (rec_segment_id r) \<notin> set mid \<and> r = X (rec_segment_id r) mid"
  shows "\<forall>r \<in> set complete. \<exists>pre mid post.
           h @ [ev] = pre @ SegmentStart (rec_segment_id r) # mid @ SegmentEnd (rec_segment_id r) # post
           \<and> SegmentEnd (rec_segment_id r) \<notin> set mid \<and> r = X (rec_segment_id r) mid"
  using assms append_snoc_history by fast

text \<open>The effect of a section on the active records is \<open>cover_event\<close> on each of them.\<close>

lemma segment_section_cover:
  assumes "segment_section elf os layouts s (complete, active) = Some (Inr st')"
  shows "\<exists>active'. st' = (complete, active') \<and> length active' = length active
    \<and> (\<forall>i < length active. active' ! i = map_option (cover_event os layouts (Section s)) (active ! i))"
proof -
  obtain sl target skip where g: "get_at layouts (unat s) = Some sl" "primary_output_section os s = Some target"
      "skipped os sl target = Some skip"
    using assms by (auto simp: segment_section_def bind_eq_Some_conv simp del: split_paired_Ex)
  have res: "if skip then st' = (complete, active)
      else st' = (complete, map (map_option (cover sl)) active) \<or> st' = (complete, active) \<and> list_all (\<lambda>r. r = None) active"
  proof (cases skip)
    case False
    then obtain ti info where "output_info os target = Some ti" and "output_info os s = Some info"
      using assms g by (auto simp: segment_section_def bind_eq_Some_conv)
    then show ?thesis
      using assms g False by (auto simp: segment_section_def split: if_splits sum.splits)
  qed (use assms g in \<open>simp add: segment_section_def\<close>)
  have sl: "layouts ! unat s = sl" using g(1) by (auto simp: get_at_def split: if_splits)
  have ce: "cover_event os layouts (Section s) = (if skip then (\<lambda>r. r) else cover sl)"
    by (rule ext) (simp add: sl g(2,3) split: bool.splits)
  show ?thesis
  proof (cases "skip \<or> list_all (\<lambda>r. r = None) active \<and> st' = (complete, active)")
    case True
    then have "st' = (complete, active)" using res by auto
    then show ?thesis using True by (intro exI [of _ active]) (auto simp: ce list_all_length option.map_ident)
  next
    case False
    then have "st' = (complete, map (map_option (cover sl)) active)" using res by (auto split: if_splits)
    then show ?thesis using False by (intro exI [of _ "map (map_option (cover sl)) active"]) (auto simp: ce)
  qed
qed

lemma segments_trackD:
  assumes "segments_track elf os segs args layouts h (n, opened) (complete, active)"
  shows "n \<le> length segs" "length active = length segs" "\<And>sid. sid \<in> opened \<Longrightarrow> unat sid < n"
    "\<And>sid. unat sid < length segs \<Longrightarrow> sid \<in> opened \<Longrightarrow>
       \<exists>pre mid. h = pre @ SegmentStart sid # mid \<and> SegmentEnd sid \<notin> set mid
         \<and> active ! unat sid = Some (segment_extent elf os segs args layouts sid mid)"
    "\<And>sid. unat sid < length segs \<Longrightarrow> sid \<notin> opened \<Longrightarrow> active ! unat sid = None"
    "distinct (map rec_segment_id complete)"
    "set (map rec_segment_id complete) = {sid. unat sid < n} - opened"
    "\<forall>r \<in> set complete. \<exists>pre mid post.
       h = pre @ SegmentStart (rec_segment_id r) # mid @ SegmentEnd (rec_segment_id r) # post
       \<and> SegmentEnd (rec_segment_id r) \<notin> set mid \<and> r = segment_extent elf os segs args layouts (rec_segment_id r) mid"
  using assms unfolding segments_track_def prod.case by meson+

lemma segments_trackI:
  assumes "n \<le> length segs" "length active = length segs" "\<And>sid. sid \<in> opened \<Longrightarrow> unat sid < n"
    "\<And>sid. unat sid < length segs \<Longrightarrow> sid \<in> opened \<Longrightarrow>
       \<exists>pre mid. h = pre @ SegmentStart sid # mid \<and> SegmentEnd sid \<notin> set mid
         \<and> active ! unat sid = Some (segment_extent elf os segs args layouts sid mid)"
    "\<And>sid. unat sid < length segs \<Longrightarrow> sid \<notin> opened \<Longrightarrow> active ! unat sid = None"
    "distinct (map rec_segment_id complete)"
    "set (map rec_segment_id complete) = {sid. unat sid < n} - opened"
    "\<forall>r \<in> set complete. \<exists>pre mid post.
       h = pre @ SegmentStart (rec_segment_id r) # mid @ SegmentEnd (rec_segment_id r) # post
       \<and> SegmentEnd (rec_segment_id r) \<notin> set mid \<and> r = segment_extent elf os segs args layouts (rec_segment_id r) mid"
  shows "segments_track elf os segs args layouts h (n, opened) (complete, active)"
  unfolding segments_track_def prod.case using assms by simp

text \<open>An open segment stays open over an event that is not its end; its record is extended by the event.\<close>

lemma open_history:
  assumes "\<exists>pre mid. h = pre @ SegmentStart sid # mid \<and> SegmentEnd sid \<notin> set mid
         \<and> a = Some (segment_extent elf os segs args layouts sid mid)"
    and "ev \<noteq> SegmentEnd sid" and "a' = map_option (cover_event os layouts ev) a"
  shows "\<exists>pre mid. h @ [ev] = pre @ SegmentStart sid # mid \<and> SegmentEnd sid \<notin> set mid
         \<and> a' = Some (segment_extent elf os segs args layouts sid mid)"
proof -
  obtain pre mid where "h = pre @ SegmentStart sid # mid" "SegmentEnd sid \<notin> set mid"
      "a = Some (segment_extent elf os segs args layouts sid mid)"
    using assms(1) by blast
  then show ?thesis
    using assms(2,3) by (intro exI [of _ pre] exI [of _ "mid @ [ev]"]) (simp add: segment_extent_snoc)
qed

lemma nth_update_unat: "i \<noteq> sid \<Longrightarrow> xs[unat (sid :: segment_id) := v] ! unat i = xs ! unat i"
  by (simp add: word_unat_eq_iff)

lemma track_start:
  assumes tr: "segments_track elf os segs args layouts h (n, opened) (complete, active)"
    and b: "unat sid = n"
    and st: "segment_step elf os segs args layouts (SegmentStart sid) (complete, active) = Some (Inr st')"
  shows "segments_track elf os segs args layouts (h @ [SegmentStart sid]) (Suc n, insert sid opened) st'"
proof -
  note D = segments_trackD [OF tr]
  obtain d where d: "segment_def segs sid = Some d" and lt: "unat sid < length segs"
    and st': "st' = (complete, active[unat sid := Some (start_record (seg_is_stack elf d) args sid)])"
    using st D(2) by (auto simp: bind_eq_Some_conv set_at_def split: if_splits)
  have "segs ! unat sid = d" using d by (auto simp: segment_def_def get_at_def split: if_splits)
  then have ext: "Some (start_record (seg_is_stack elf d) args sid) = Some (segment_extent elf os segs args layouts sid [])"
    by (simp add: segment_extent_def)
  have ins: "{i. unat i < Suc n} - insert sid opened = {i. unat i < n} - opened"
    using b D(3) by (auto simp: less_Suc_eq word_unat_eq_iff)
  show ?thesis
    unfolding st'
  proof (rule segments_trackI, goal_cases)
    case (4 i)
    show ?case
    proof (cases "i = sid")
      case True
      then show ?thesis using lt D(2) ext by (intro exI [of _ h] exI [of _ "[]"]) simp
    next
      case False
      then show ?thesis using 4 D(4) [of i]
        by (intro open_history [of h i "active ! unat i"]) (auto simp: nth_update_unat)
    qed
  next
    case 8
    then show ?case by (rule complete_history [OF D(8)])
  qed (use lt b D ins in \<open>auto simp: less_Suc_eq nth_update_unat\<close>)
qed

lemma track_end:
  assumes tr: "segments_track elf os segs args layouts h (n, opened) (complete, active)"
    and b: "sid \<in> opened"
    and st: "segment_step elf os segs args layouts (SegmentEnd sid) (complete, active) = Some (Inr st')"
  shows "segments_track elf os segs args layouts (h @ [SegmentEnd sid]) (n, opened - {sid}) st'"
proof -
  note D = segments_trackD [OF tr]
  have lt: "unat sid < length segs" using D(1,3) b by fastforce
  obtain pre mid where h: "h = pre @ SegmentStart sid # mid" "SegmentEnd sid \<notin> set mid"
    and a: "active ! unat sid = Some (segment_extent elf os segs args layouts sid mid)"
    using D(4) [OF lt b] by blast
  let ?r = "segment_extent elf os segs args layouts sid mid"
  have st': "st' = (complete @ [?r], active[unat sid := None])"
    using st a lt D(2) by (auto simp: get_at_def set_at_def)
  have new: "sid \<notin> set (map rec_segment_id complete)" using D(7) b by simp
  show ?thesis
    unfolding st'
  proof (rule segments_trackI, goal_cases)
    case (4 i)
    then show ?case using D(4) [of i]
      by (intro open_history [of h i "active ! unat i"]) (auto simp: nth_update_unat)
  next
    case (5 i)
    then show ?case using D(5) [of i] lt D(2) by (cases "i = sid") (auto simp: nth_update_unat)
  next
    case 7
    then show ?case using D(3,7) b by auto
  next
    case 8
    have "\<exists>pre' mid' post'. h @ [SegmentEnd sid] = pre' @ SegmentStart sid # mid' @ SegmentEnd sid # post'
       \<and> SegmentEnd sid \<notin> set mid' \<and> ?r = segment_extent elf os segs args layouts sid mid'"
      using h by (intro exI [of _ pre] exI [of _ mid] exI [of _ "[]"]) simp
    then show ?case using complete_history [OF D(8)] by simp
  qed (use D new in auto)
qed

lemma track_other:
  assumes tr: "segments_track elf os segs args layouts h (n, opened) (complete, active)"
    and ev: "\<And>sid. ev \<noteq> SegmentEnd sid"
    and act: "length active' = length active"
      "\<And>i. i < length active \<Longrightarrow> active' ! i = map_option (cover_event os layouts ev) (active ! i)"
  shows "segments_track elf os segs args layouts (h @ [ev]) (n, opened) (complete, active')"
proof -
  note D = segments_trackD [OF tr]
  show ?thesis
  proof (rule segments_trackI, goal_cases)
    case (4 i)
    then show ?case using D(4) [of i] D(2) act ev by (intro open_history [of h i "active ! unat i"]) auto
  next
    case 8
    then show ?case by (rule complete_history [OF D(8)])
  qed (use D act in auto)
qed

lemma track_step:
  assumes "segments_track elf os segs args layouts h b st" and "bracket_step ev b = Some b'"
    and "segment_step elf os segs args layouts ev st = Some (Inr st')"
  shows "segments_track elf os segs args layouts (h @ [ev]) b' st'"
proof -
  obtain n opened complete active where [simp]: "b = (n, opened)" "st = (complete, active)" by fastforce
  show ?thesis
  proof (cases ev)
    case (SegmentStart sid)
    then show ?thesis using assms track_start [of elf os segs args layouts h n opened complete active sid st']
      by (auto simp del: segment_step.simps split: if_splits)
  next
    case (SegmentEnd sid)
    then show ?thesis using assms track_end [of elf os segs args layouts h n opened complete active sid st']
      by (auto simp del: segment_step.simps split: if_splits)
  next
    case (Section s)
    then have "segment_section elf os layouts s (complete, active) = Some (Inr st')" using assms(3) by simp
    from segment_section_cover [OF this] obtain active' where "st' = (complete, active')" "length active' = length active"
      "\<forall>i < length active. active' ! i = map_option (cover_event os layouts (Section s)) (active ! i)"
      by blast
    then show ?thesis using assms(1,2) Section by (auto intro!: track_other simp del: cover_event.simps)
  next
    case (SetLocation l)
    have id: "cover_event os layouts (SetLocation l) = (\<lambda>r. r)" by (rule ext) simp
    show ?thesis using assms SetLocation
      by (auto intro!: track_other simp: id option.map_ident simp del: cover_event.simps)
  qed
qed

lemma segment_section_error:
  assumes "segment_section elf os layouts s st = Some (Inl e)"
  shows "e \<noteq> EndWithoutStart"
proof -
  have "validate_section elf i a sl t s' \<noteq> Inl EndWithoutStart" for i a sl t s'
    by (simp add: validate_section_def)
  then show ?thesis
    using assms by (cases st) (auto simp: segment_section_def split: Option.bind_splits if_splits sum.splits)
qed

lemma step_not_end_without_start:
  assumes "segments_track elf os segs args layouts h b st" and "bracket_step ev b = Some b'"
    and "segment_step elf os segs args layouts ev st = Some (Inl e)"
  shows "e \<noteq> EndWithoutStart"
proof -
  obtain n opened complete active where [simp]: "b = (n, opened)" "st = (complete, active)" by fastforce
  note D = segments_trackD [OF assms(1) [simplified]]
  show ?thesis
  proof (cases ev)
    case (SegmentEnd sid)
    then have "sid \<in> opened" using assms(2) by (auto split: if_splits)
    then have "active ! unat sid \<noteq> None" using D(1) D(3) [of sid] D(4) [of sid] by fastforce
    then show ?thesis using assms(3) SegmentEnd by (auto simp: bind_eq_Some_conv get_at_def split: option.splits if_splits)
  next
    case (Section s)
    then show ?thesis using assms(3) segment_section_error by simp
  qed (use assms(3) in \<open>auto simp: bind_eq_Some_conv\<close>)
qed

lemma track_run:
  assumes "segment_run elf os segs args layouts evs st = Some res" and "brackets evs b = Some b'"
    and "segments_track elf os segs args layouts h b st"
  shows "case res of Inl e \<Rightarrow> e \<noteq> EndWithoutStart | Inr st' \<Rightarrow> segments_track elf os segs args layouts (h @ evs) b' st'"
  using assms
proof (induction evs arbitrary: st b h)
  case (Cons ev evs)
  obtain b1 where b1: "bracket_step ev b = Some b1" and br: "brackets evs b1 = Some b'"
    using Cons.prems(2) by (auto simp: bind_eq_Some_conv)
  obtain r where r: "segment_step elf os segs args layouts ev st = Some r" using Cons.prems(1) by (auto split: option.splits)
  show ?case
  proof (cases r)
    case (Inl e)
    then show ?thesis using step_not_end_without_start [OF Cons.prems(3) b1] Cons.prems(1) r by auto
  next
    case (Inr st1)
    have "segments_track elf os segs args layouts (h @ [ev]) b1 st1"
      using track_step [OF Cons.prems(3) b1] r Inr by simp
    then show ?thesis using Cons.IH [of st1 b1 "h @ [ev]", unfolded append_assoc append_Cons append_Nil] Cons.prems(1) r Inr br by simp
  qed
qed (auto simp: append_Nil2)

lemma track_initial:
  "segments_track elf os segs args layouts [] (0, {}) ([], replicate (length segs) None)"
  by (rule segments_trackI) simp_all

text \<open>Sorting the complete records by id puts the record of every segment at its id.\<close>

lemma sorted_records:
  assumes "distinct (map rec_segment_id complete)" and "set (map rec_segment_id complete) = {sid :: segment_id. unat sid < n}"
    and "n \<le> 256"
  shows "length complete = n"
    and "unat sid < n \<Longrightarrow> rec_segment_id (sort_key rec_segment_id complete ! unat sid) = sid"
proof -
  have ids: "map unat (map rec_segment_id (sort_key rec_segment_id complete)) = [0..<n]"
  proof (rule sorted_distinct_set_unique)
    show "sorted (map unat (map rec_segment_id (sort_key rec_segment_id complete)))"
      using sorted_sort_key [of rec_segment_id complete]
      by (auto simp: sorted_map word_le_nat_alt elim: sorted_wrt_mono_rel [rotated])
    have "distinct (map rec_segment_id (sort_key rec_segment_id complete))"
      using assms(1) by (simp add: distinct_map)
    then show "distinct (map unat (map rec_segment_id (sort_key rec_segment_id complete)))"
      by (simp add: distinct_map inj_on_def word_unat_eq_iff)
    have "set (map unat (map rec_segment_id (sort_key rec_segment_id complete))) = unat ` {sid :: segment_id. unat sid < n}"
      using assms(2) by (simp add: image_image flip: assms(2))
    also have "\<dots> = {..<n}"
    proof (intro set_eqI iffI)
      fix i assume "i \<in> {..<n}"
      then have "unat (of_nat i :: segment_id) = i" "i < n" using assms(3) by (simp_all add: unat_of_nat)
      then show "i \<in> unat ` {sid :: segment_id. unat sid < n}" by (metis (mono_tags, lifting) imageI mem_Collect_eq)
    qed auto
    finally show "set (map unat (map rec_segment_id (sort_key rec_segment_id complete))) = set [0..<n]"
      by (simp add: atLeast0LessThan)
  qed simp_all
  then have len: "length (sort_key rec_segment_id complete) = n" using length_map length_upt by (metis diff_zero)
  then show "length complete = n" by simp
  show "rec_segment_id (sort_key rec_segment_id complete ! unat sid) = sid" if "unat sid < n"
  proof -
    have "map unat (map rec_segment_id (sort_key rec_segment_id complete)) ! unat sid = unat sid"
      unfolding ids using that by simp
    then show ?thesis using that len by (simp add: word_unat_eq_iff)
  qed
qed

lemma brackets_bound:
  "brackets evs (n, opened) = Some (m, opened') \<Longrightarrow> n \<le> 256 \<Longrightarrow> m \<le> 256"
proof (induction evs arbitrary: n opened)
  case (Cons ev evs)
  then obtain n1 o1 where "bracket_step ev (n, opened) = Some (n1, o1)" and "brackets evs (n1, o1) = Some (m, opened')"
    by (auto simp: bind_eq_Some_conv)
  moreover have "n1 \<le> 256"
  proof (cases ev)
    case (SegmentStart i)
    have "unat i < 2 ^ LENGTH(8)" by (rule unsigned_less)
    then show ?thesis using calculation(1) SegmentStart by (simp split: if_splits)
  qed (use calculation(1) Cons.prems(2) in \<open>simp_all split: if_splits\<close>)
  ultimately show ?case using Cons.IH by blast
qed simp

lemma those_member:
  assumes "those (map f xs) = Some ys" and "y \<in> set ys" shows "\<exists>x \<in> set xs. f x = Some y"
  using assms by (induction xs arbitrary: ys) (auto split: option.splits)

text \<open>The layout of a successful run is made of the extents.\<close>

lemma segment_layout_extents:
  assumes "compute_segment_layout elf layouts os evs segs ids args = Some (Inr sl)"
    and "\<not> should_output_partial_object args" and "brackets evs (0, {}) = Some (length segs, {})"
    and "l \<in> set (segments_out sl)"
  obtains pre mid post where
    "evs = pre @ SegmentStart (layout_id l) # mid @ SegmentEnd (layout_id l) # post" "SegmentEnd (layout_id l) \<notin> set mid"
    "l = finish_segment (segment_extent elf os segs args layouts (layout_id l) mid) (layout_id l)"
    "layout_id l \<in> set ids"
proof -
  obtain complete active where run: "segment_run elf os segs args layouts evs ([], replicate (length segs) None) = Some (Inr (complete, active))"
    using assms(1,2) by (auto simp: compute_segment_layout_def split: option.splits sum.splits)
  let ?c = "sort_key rec_segment_id complete"
  obtain ls where those: "those (map (\<lambda>sid. map_option (\<lambda>r. finish_segment r sid) (get_at ?c (unat sid))) ids) = Some ls"
    and out: "set (segments_out sl) = set ls"
    using assms(1,2) run by (auto simp: compute_segment_layout_def Let_def bind_eq_Some_conv split: if_splits)
  note D = segments_trackD [OF track_run [OF run assms(3) track_initial, simplified]]
  note sorted = sorted_records [OF D(6) D(7) [simplified Diff_empty] brackets_bound [OF assms(3) zero_le]]
  obtain sid r where sid: "sid \<in> set ids" and r: "get_at ?c (unat sid) = Some r" and l: "l = finish_segment r sid"
    using those_member [OF those] assms(4) out by auto blast
  have lt: "unat sid < length segs" "r = ?c ! unat sid" using r sorted(1) by (auto simp: get_at_def split: if_splits)
  then have id: "rec_segment_id r = sid" "layout_id l = sid" using sorted(2) l by (simp_all add: finish_segment_def)
  have "r \<in> set complete" using lt sorted(1) nth_mem [of "unat sid" ?c] by simp
  then obtain pre mid post where "evs = pre @ SegmentStart sid # mid @ SegmentEnd sid # post" "SegmentEnd sid \<notin> set mid"
      "r = segment_extent elf os segs args layouts sid mid"
    using D(8) id(1) by fastforce
  then show ?thesis using that l id(2) sid by simp
qed


text \<open>Every section of a segment that is not skipped lies within the extent.\<close>

definition no_wrap :: "output_record_layout \<Rightarrow> bool" where
  "no_wrap sl \<longleftrightarrow>
     unat (file_offset sl) + unat (file_size sl) < 2 ^ 64 \<and> unat (mem_offset sl) + unat (mem_size sl) < 2 ^ 64"

definition within :: "output_record_layout \<Rightarrow> segment_record \<Rightarrow> bool" where
  "within sl r \<longleftrightarrow>
     file_start r \<le> file_offset sl \<and> file_offset sl + file_size sl \<le> file_end r
     \<and> mem_start r \<le> mem_offset sl \<and> mem_offset sl + mem_size sl \<le> mem_end r
     \<and> exponent (rec_alignment sl) \<le> exponent (seg_alignment r)"

lemma within_cover: "within sl (cover sl r)" "within sl r \<Longrightarrow> within sl (cover sl' r)"
  using align_max_exponent by (auto simp: within_def cover_def min_le_iff_disj le_max_iff_disj intro: order.trans)

lemma within_cover_event: "within sl r \<Longrightarrow> within sl (cover_event os layouts ev r)"
  by (cases ev) (auto intro: within_cover split: option.splits bool.splits)

definition covers_section ::
    "elf_attributes output_sections \<Rightarrow> output_record_layout list \<Rightarrow> section_id \<Rightarrow> bool" where
  "covers_section os layouts s \<longleftrightarrow>
     Option.bind (primary_output_section os s) (skipped os (layouts ! unat s)) = Some False"

lemma within_extent:
  assumes "Section s \<in> set mid" and "covers_section os layouts s"
  shows "within (layouts ! unat s) (segment_extent elf os segs args layouts sid mid)"
proof -
  have keep: "within sl r \<Longrightarrow> within sl (fold (cover_event os layouts) xs r)" for sl xs r
    by (induction xs arbitrary: r) (simp_all add: within_cover_event)
  have "within (layouts ! unat s) (fold (cover_event os layouts) mid r)" for r
    using assms(1)
  proof (induction mid arbitrary: r)
    case (Cons ev mid)
    show ?case
    proof (cases "ev = Section s")
      case True
      then show ?thesis using keep [OF within_cover(1)] assms(2) by (simp add: covers_section_def)
    qed (use Cons in auto)
  qed simp
  then show ?thesis by (simp add: segment_extent_def)
qed

lemma unat_within:
  fixes sid :: segment_id
  assumes "within sl r" and "no_wrap sl"
  defines "l \<equiv> layout_sizes (finish_segment r sid)"
  shows "unat (file_offset l) \<le> unat (file_offset sl)
      \<and> unat (file_offset sl) + unat (file_size sl) \<le> unat (file_offset l) + unat (file_size l)
      \<and> unat (mem_offset l) \<le> unat (mem_offset sl)
      \<and> unat (mem_offset sl) + unat (mem_size sl) \<le> unat (mem_offset l) + unat (mem_size l)"
proof -
  have nw: "unat (file_offset sl + file_size sl) = unat (file_offset sl) + unat (file_size sl)"
    "unat (mem_offset sl + mem_size sl) = unat (mem_offset sl) + unat (mem_size sl)"
    using assms(2) by (auto simp: no_wrap_def intro!: unat_add_lem [THEN iffD1])
  have le: "unat (file_start r) \<le> unat (file_offset sl)" "unat (file_offset sl) + unat (file_size sl) \<le> unat (file_end r)"
    "unat (mem_start r) \<le> unat (mem_offset sl)" "unat (mem_offset sl) + unat (mem_size sl) \<le> unat (mem_end r)"
    using assms(1) nw by (simp_all add: within_def word_le_nat_alt)
  then have "unat (file_end r - file_start r) = unat (file_end r) - unat (file_start r)"
    "unat (mem_end r - mem_start r) = unat (mem_end r) - unat (mem_start r)"
    by (simp_all add: unat_sub word_le_nat_alt)
  then show ?thesis using le by (simp add: l_def finish_segment_def)
qed

text \<open>
  C25. Program headers cover their sections: with an output order made by the order builder, every
  program segment that \<^verbatim>\<open>compute_segment_layout\<close> returns is one of the requested segments, and its file and
  memory extents contain every section, other than the skipped ones, that the order has between the
  start and the end of the segment.
\<close>

theorem segment_layout_covers:
  assumes "add_sections (elf_platform elf size_of) os secondary knd ss (order_builder_new (elf_platform elf size_of)) = Some b"
    and "order_build (elf_platform elf size_of) knd b = Some (evs, segs)"
    and "compute_segment_layout elf layouts os evs segs ids args = Some (Inr sl)"
    and "\<not> should_output_partial_object args" and "l \<in> set (segments_out sl)"
  shows "layout_id l \<in> set ids \<and> (\<exists>pre mid post.
    evs = pre @ SegmentStart (layout_id l) # mid @ SegmentEnd (layout_id l) # post
    \<and> SegmentEnd (layout_id l) \<notin> set mid
    \<and> (\<forall>s. Section s \<in> set mid \<and> covers_section os layouts s \<and> no_wrap (layouts ! unat s) \<longrightarrow>
         unat (file_offset (layout_sizes l)) \<le> unat (file_offset (layouts ! unat s))
         \<and> unat (file_offset (layouts ! unat s)) + unat (file_size (layouts ! unat s))
             \<le> unat (file_offset (layout_sizes l)) + unat (file_size (layout_sizes l))
         \<and> unat (mem_offset (layout_sizes l)) \<le> unat (mem_offset (layouts ! unat s))
         \<and> unat (mem_offset (layouts ! unat s)) + unat (mem_size (layouts ! unat s))
             \<le> unat (mem_offset (layout_sizes l)) + unat (mem_size (layout_sizes l))))"
proof -
  note br = builder_brackets [OF assms(1,2)]
  obtain pre mid post where evs: "evs = pre @ SegmentStart (layout_id l) # mid @ SegmentEnd (layout_id l) # post"
    and out: "SegmentEnd (layout_id l) \<notin> set mid"
    and l: "l = finish_segment (segment_extent elf os segs args layouts (layout_id l) mid) (layout_id l)"
    and ids: "layout_id l \<in> set ids"
    by (rule segment_layout_extents [OF assms(3,4) br assms(5)])
  let ?r = "segment_extent elf os segs args layouts (layout_id l) mid"
  have sizes: "layout_sizes l = layout_sizes (finish_segment ?r (layout_id l))"
    using arg_cong [where f = layout_sizes, OF l] .
  note in_extent = unat_within [where r = "?r" and sid = "layout_id l", folded sizes, OF within_extent]
  show ?thesis
    using ids evs out in_extent by (intro conjI exI [of _ pre] exI [of _ mid] exI [of _ post]) blast+
qed

subsection \<open>No panic\<close>

text \<open>The tables that the loop indexes cover every section of the order.\<close>

definition segment_input_ok ::
    "elf_attributes output_sections \<Rightarrow> output_record_layout list \<Rightarrow> order_event list \<Rightarrow> bool" where
  "segment_input_ok os layouts evs \<longleftrightarrow>
     list_all (\<lambda>ev. case ev of
         Section s \<Rightarrow> unat s < length layouts \<and> unat s < length (section_infos os)
           \<and> (case primary_output_section os s of
                Some t \<Rightarrow> unat t < length (section_infos os) \<and> unat t < length (output_section_indexes os) | None \<Rightarrow> True)
       | _ \<Rightarrow> True) evs"

lemma segment_section_total:
  assumes "unat s < length layouts" and "unat s < length (section_infos os)"
    and "\<And>t. primary_output_section os s = Some t \<Longrightarrow>
      unat t < length (section_infos os) \<and> unat t < length (output_section_indexes os)"
  shows "segment_section elf os layouts s st \<noteq> None"
proof -
  obtain complete active where [simp]: "st = (complete, active)" by fastforce
  have "primary_output_section os s \<noteq> None"
    using assms(2) by (simp add: primary_output_section_def merge_target_def output_info_def get_at_def)
  then obtain t where t: "primary_output_section os s = Some t" by blast
  obtain sl where sl: "get_at layouts (unat s) = Some sl" using assms(1) by (simp add: get_at_def)
  obtain skip where "skipped os sl t = Some skip"
    using assms(3) [OF t] by (cases "file_size sl = 0 \<and> mem_size sl = 0") (auto simp: skipped_def get_at_def)
  moreover obtain i ti where "output_info os s = Some i" "output_info os t = Some ti"
    using assms(2) assms(3) [OF t] by (simp add: output_info_def get_at_def)
  ultimately show ?thesis using t sl by (simp add: segment_section_def)
qed

lemma segment_step_total:
  assumes "segments_track elf os segs args layouts h b st" and "bracket_step ev b = Some (n', opened')"
    and "n' \<le> length segs" and "segment_input_ok os layouts [ev]"
  shows "segment_step elf os segs args layouts ev st \<noteq> None"
proof -
  obtain n opened complete active where [simp]: "b = (n, opened)" "st = (complete, active)" by fastforce
  note D = segments_trackD [OF assms(1) [simplified]]
  show ?thesis
  proof (cases ev)
    case (SegmentStart sid)
    then show ?thesis using assms(2,3) D(2) by (auto simp: segment_def_def get_at_def set_at_def split: if_splits)
  next
    case (SegmentEnd sid)
    then have "unat sid < length active" using assms(2,3) D(1,2) D(3) [of sid] by (auto split: if_splits)
    then show ?thesis using SegmentEnd by (simp add: get_at_def set_at_def)
  next
    case (Section s)
    have "segment_section elf os layouts s st \<noteq> None"
      by (rule segment_section_total) (use assms(4) Section in \<open>auto simp: segment_input_ok_def split: option.splits\<close>)
    then show ?thesis using Section by simp
  qed simp
qed

lemma brackets_mono: "brackets evs (n, opened) = Some (m, opened') \<Longrightarrow> n \<le> m"
proof (induction evs arbitrary: n opened)
  case (Cons ev evs)
  then obtain n1 o1 where s: "bracket_step ev (n, opened) = Some (n1, o1)" and r: "brackets evs (n1, o1) = Some (m, opened')"
    by (auto simp: bind_eq_Some_conv)
  have "n \<le> n1" using s by (cases ev) (auto split: if_splits)
  then show ?case using Cons.IH [OF r] by simp
qed simp

lemma segment_run_total:
  assumes "brackets evs b = Some (length segs, opened')" and "segments_track elf os segs args layouts h b st"
    and "segment_input_ok os layouts evs"
  shows "segment_run elf os segs args layouts evs st \<noteq> None"
  using assms
proof (induction evs arbitrary: st b h)
  case (Cons ev evs)
  obtain b1 where b1: "bracket_step ev b = Some b1" and br: "brackets evs b1 = Some (length segs, opened')"
    using Cons.prems(1) by (auto simp: bind_eq_Some_conv)
  obtain n1 o1 where [simp]: "b1 = (n1, o1)" by fastforce
  have "n1 \<le> length segs" using brackets_mono br by simp
  then have "segment_step elf os segs args layouts ev st \<noteq> None"
    using segment_step_total [OF Cons.prems(2)] b1 Cons.prems(3) by (simp add: segment_input_ok_def)
  then obtain r where r: "segment_step elf os segs args layouts ev st = Some r" by blast
  show ?case
  proof (cases r)
    case (Inr st1)
    then have "segments_track elf os segs args layouts (h @ [ev]) b1 st1"
      using track_step [OF Cons.prems(2) b1] r by simp
    then show ?thesis using Cons.IH [OF br] Cons.prems(3) r Inr by (simp add: segment_input_ok_def)
  qed (use r in simp)
qed simp

lemma those_total: "(\<And>x. x \<in> set xs \<Longrightarrow> f x \<noteq> None) \<Longrightarrow> those (map f xs) \<noteq> None"
  by (induction xs) (auto split: option.splits)

text \<open>
  C26. Segment layout cannot fail on the order: with an output order made by the order builder and tables
  that cover its sections, \<^verbatim>\<open>compute_segment_layout\<close> returns, its assertion on the number of segments
  holds, and it never reports a segment end without a start.
\<close>

theorem segment_layout_total:
  assumes "add_sections (elf_platform elf size_of) os secondary knd ss (order_builder_new (elf_platform elf size_of)) = Some b"
    and "order_build (elf_platform elf size_of) knd b = Some (evs, segs)"
    and "segment_input_ok os layouts evs" and "list_all (\<lambda>sid. unat sid < length segs) ids"
  shows "\<exists>res. compute_segment_layout elf layouts os evs segs ids args = Some res \<and> res \<noteq> Inl EndWithoutStart"
proof -
  note br = builder_brackets [OF assms(1,2)]
  obtain res where run: "segment_run elf os segs args layouts evs ([], replicate (length segs) None) = Some res"
    using segment_run_total [OF br track_initial assms(3)] by blast
  show ?thesis
  proof (cases res)
    case (Inl e)
    then show ?thesis using track_run [OF run br track_initial] run by (simp add: compute_segment_layout_def)
  next
    case (Inr st)
    obtain complete active where [simp]: "st = (complete, active)" by fastforce
    note D = segments_trackD [OF track_run [OF run br track_initial, simplified Inr, simplified]]
    have len: "length complete = length segs"
      by (rule sorted_records [OF D(6) D(7) [simplified Diff_empty] brackets_bound [OF br zero_le]])
    have "those (map (\<lambda>sid. map_option (\<lambda>r. finish_segment r sid) (get_at (sort_key rec_segment_id complete) (unat sid))) ids) \<noteq> None"
      using assms(4) len by (intro those_total) (auto simp: list_all_iff get_at_def)
    then show ?thesis
      using run Inr len assms(4) by (auto simp: compute_segment_layout_def Let_def)
  qed
qed

text \<open>The two sections of the sample layout in a shared object; the order has a load segment and a program header segment.\<close>

definition sample_object :: "elf_attributes output_sections" where
  "sample_object = sample_os\<lparr>output_section_indexes := [None, Some 0, Some 1]\<rparr>"

definition sample_order :: "order_event list" where
  "sample_order = [SegmentStart 0, Section 1, SegmentStart 1, Section 2, SegmentEnd 1, SegmentEnd 0, SegmentStart 2, SegmentEnd 2]"

definition sample_segments :: "elf_segment_def list" where
  "sample_segments = [\<lparr>segment_type = 1, segment_flags = 4\<rparr>, \<lparr>segment_type = 6, segment_flags = 4\<rparr>,
     \<lparr>segment_type = 0x6474e551, segment_flags = 6\<rparr>]"

definition sample_builder :: "elf_segment_def order_builder" where
  "sample_builder = \<lparr>events = take 4 sample_order, segments = take 2 sample_segments,
     active_segment_kinds = [Some 1, None, None, None, Some 0, None, None, None, None, None, None, None, None]\<rparr>"

lemma sample_object_order:
  "add_sections (elf_platform sample_elf (\<lambda>_. 8)) sample_object [[], [], []] SharedObject [1, 2]
     (order_builder_new (elf_platform sample_elf (\<lambda>_. 8))) = Some sample_builder"
  by code_simp

lemma sample_object_build:
  "order_build (elf_platform sample_elf (\<lambda>_. 8)) SharedObject sample_builder = Some (sample_order, sample_segments)"
  by code_simp

definition sample_segment_layout :: segment_layout where
  "sample_segment_layout = \<lparr>layout_id = 0,
     layout_sizes = \<lparr>file_size = 120, mem_size = 120, rec_alignment = \<lparr>exponent = 5\<rparr>, file_offset = 0, mem_offset = 0x401000\<rparr>\<rparr>"

lemma sample_segment_layouts:
  "compute_segment_layout sample_elf sample_recs sample_object sample_order sample_segments [0] sample_args =
   Some (Inr \<lparr>segments_out = [sample_segment_layout], tls_layout = None\<rparr>)"
  by code_simp

theorem segment_layout_covers_witness:
  "layout_id sample_segment_layout \<in> set [0]
   \<and> (\<exists>pre mid post. sample_order = pre @ SegmentStart 0 # mid @ SegmentEnd 0 # post)"
  using segment_layout_covers [OF sample_object_order sample_object_build sample_segment_layouts, of sample_segment_layout]
  by (auto simp: sample_args_def sample_segment_layout_def)

lemma sample_segment_input: "segment_input_ok sample_object sample_recs sample_order"
  by code_simp

theorem segment_layout_total_witness:
  "\<exists>res. compute_segment_layout sample_elf sample_recs sample_object sample_order sample_segments [0, 1] sample_args = Some res
     \<and> res \<noteq> Inl EndWithoutStart"
  by (rule segment_layout_total [OF sample_object_order sample_object_build sample_segment_input])
    (simp add: sample_segments_def)

end
