(* ===== verification/SFrame.thy ===== *)
theory SFrame
  imports Std_Search "HOL-Library.Monad_Syntax" "HOL-Library.Multiset"
begin

unbundle bit_operations_syntax

text \<open>
  Sorting of the merged \<^verbatim>\<open>.sframe\<close> section, from \<^verbatim>\<open>libsld/src/sframe.rs\<close>: the header, the collection of the
  function entries of every input section, and the rewritten section. Positions are natural numbers:
  a position that passed a slice bounds check is below \<open>2 ^ 63\<close>, and the sums of such a position with
  the 8-bit and 32-bit header fields do not reach \<open>2 ^ 64\<close>; for the same reason the two
  \<^verbatim>\<open>checked_\<close> operations on the header sizes always succeed. \<^verbatim>\<open>i128\<close> is \<open>int\<close>.
\<close>

definition SFRAME_MAGIC :: u16 where "SFRAME_MAGIC = 0xdee2"
definition SFRAME_VERSION_2 :: u8 where "SFRAME_VERSION_2 = 2"
definition FLAG_FDE_SORTED :: u8 where "FLAG_FDE_SORTED = 1"
definition FLAG_FRAME_POINTER :: u8 where "FLAG_FRAME_POINTER = 2"
definition FLAG_FUNC_START_PCREL :: u8 where "FLAG_FUNC_START_PCREL = 4"
definition FLAG_AARCH64_PAUTH :: u8 where "FLAG_AARCH64_PAUTH = 8"
definition HEADER_SIZE :: nat where "HEADER_SIZE = 0x1c"
definition FDE_SIZE :: nat where "FDE_SIZE = 20"

definition VERSION_FIELD :: nat where "VERSION_FIELD = 2"
definition FLAGS_FIELD :: nat where "FLAGS_FIELD = 3"
definition ABI_ARCH_FIELD :: nat where "ABI_ARCH_FIELD = 4"
definition CFA_FIXED_FP_OFFSET_FIELD :: nat where "CFA_FIXED_FP_OFFSET_FIELD = 5"
definition CFA_FIXED_RA_OFFSET_FIELD :: nat where "CFA_FIXED_RA_OFFSET_FIELD = 6"
definition AUX_LENGTH_FIELD :: nat where "AUX_LENGTH_FIELD = 7"
definition NUM_FDES_FIELD :: nat where "NUM_FDES_FIELD = 8"
definition NUM_FRES_FIELD :: nat where "NUM_FRES_FIELD = 0xc"
definition FRE_LEN_FIELD :: nat where "FRE_LEN_FIELD = 0x10"
definition FDE_START_OFFSET_FIELD :: nat where "FDE_START_OFFSET_FIELD = 0x14"
definition FRE_START_OFFSET_FIELD :: nat where "FRE_START_OFFSET_FIELD = 0x18"

lemmas sframe_consts = SFRAME_MAGIC_def SFRAME_VERSION_2_def FLAG_FDE_SORTED_def FLAG_FRAME_POINTER_def
  FLAG_FUNC_START_PCREL_def FLAG_AARCH64_PAUTH_def HEADER_SIZE_def FDE_SIZE_def VERSION_FIELD_def FLAGS_FIELD_def
  ABI_ARCH_FIELD_def CFA_FIXED_FP_OFFSET_FIELD_def CFA_FIXED_RA_OFFSET_FIELD_def AUX_LENGTH_FIELD_def NUM_FDES_FIELD_def
  NUM_FRES_FIELD_def FRE_LEN_FIELD_def FDE_START_OFFSET_FIELD_def FRE_START_OFFSET_FIELD_def

record sframe_entry =
  entry_bytes :: bytes
  func_addr :: int
  fre_bytes :: bytes

datatype sframe_error =
    UnsupportedVersion u8
  | BadMagicBytes u16
  | FdeArrayTruncated
  | InvalidFreStart
  | FreOffsetNotFound
  | FreOffsetOutOfBounds
  | FreDataTruncated
  | MergedSectionTooLarge
  | FunctionOutOfRange

record sframe_header =
  sf_magic :: u16
  sf_version :: u8
  sf_flags :: u8
  sf_abi_arch :: u8
  sf_cfa_fixed_fp_offset :: u8
  sf_cfa_fixed_ra_offset :: u8
  sf_aux_len :: u8
  sf_num_fdes :: u32
  sf_num_fres :: u32
  sf_fre_len :: u32
  sf_fde_start_offset :: u32
  sf_fre_start_offset :: u32

definition sf_read_u16 :: "bytes \<Rightarrow> nat \<Rightarrow> u16 option" where
  "sf_read_u16 data off = map_option from_le_bytes (slice_range off (off + 2) data)"

definition sf_read_u32 :: "bytes \<Rightarrow> nat \<Rightarrow> u32 option" where
  "sf_read_u32 data off = map_option from_le_bytes (slice_range off (off + 4) data)"

text \<open>\<^verbatim>\<open>i32\<close> in two's complement, read with \<open>sint\<close>.\<close>

definition sf_read_i32 :: "bytes \<Rightarrow> nat \<Rightarrow> u32 option" where
  "sf_read_i32 data off = map_option from_le_bytes (slice_range off (off + 4) data)"

definition sf_write_i32 :: "nat \<Rightarrow> u32 \<Rightarrow> bytes \<Rightarrow> bytes option" where
  "sf_write_i32 off v data = copy_from_slice off (off + 4) (to_le_bytes 4 v) data"

definition header_parse :: "bytes \<Rightarrow> (sframe_error + sframe_header) option" where
  "header_parse data =
     do {
       magic \<leftarrow> sf_read_u16 data 0;
       if magic \<noteq> SFRAME_MAGIC then Some (Inl (BadMagicBytes magic))
       else do {
         version \<leftarrow> get_at data VERSION_FIELD;
         if version \<noteq> SFRAME_VERSION_2 then Some (Inl (UnsupportedVersion version))
         else do {
           flags \<leftarrow> get_at data FLAGS_FIELD;
           abi_arch \<leftarrow> get_at data ABI_ARCH_FIELD;
           fp \<leftarrow> get_at data CFA_FIXED_FP_OFFSET_FIELD;
           ra \<leftarrow> get_at data CFA_FIXED_RA_OFFSET_FIELD;
           aux \<leftarrow> get_at data AUX_LENGTH_FIELD;
           fdes \<leftarrow> sf_read_u32 data NUM_FDES_FIELD;
           fres \<leftarrow> sf_read_u32 data NUM_FRES_FIELD;
           frelen \<leftarrow> sf_read_u32 data FRE_LEN_FIELD;
           fdestart \<leftarrow> sf_read_u32 data FDE_START_OFFSET_FIELD;
           frestart \<leftarrow> sf_read_u32 data FRE_START_OFFSET_FIELD;
           Some (Inr \<lparr>sf_magic = magic, sf_version = version, sf_flags = flags, sf_abi_arch = abi_arch,
                      sf_cfa_fixed_fp_offset = fp, sf_cfa_fixed_ra_offset = ra, sf_aux_len = aux,
                      sf_num_fdes = fdes, sf_num_fres = fres, sf_fre_len = frelen,
                      sf_fde_start_offset = fdestart, sf_fre_start_offset = frestart\<rparr>)
         }
       }
     }"

definition header_write :: "sframe_header \<Rightarrow> bytes \<Rightarrow> bytes option" where
  "header_write h data =
     do {
       d \<leftarrow> copy_from_slice 0 2 (to_le_bytes 2 (sf_magic h)) data;
       d \<leftarrow> set_at VERSION_FIELD (sf_version h) d;
       d \<leftarrow> set_at FLAGS_FIELD (sf_flags h) d;
       d \<leftarrow> set_at ABI_ARCH_FIELD (sf_abi_arch h) d;
       d \<leftarrow> set_at CFA_FIXED_FP_OFFSET_FIELD (sf_cfa_fixed_fp_offset h) d;
       d \<leftarrow> set_at CFA_FIXED_RA_OFFSET_FIELD (sf_cfa_fixed_ra_offset h) d;
       d \<leftarrow> set_at AUX_LENGTH_FIELD (sf_aux_len h) d;
       d \<leftarrow> copy_from_slice NUM_FDES_FIELD (NUM_FDES_FIELD + 4) (to_le_bytes 4 (sf_num_fdes h)) d;
       d \<leftarrow> copy_from_slice NUM_FRES_FIELD (NUM_FRES_FIELD + 4) (to_le_bytes 4 (sf_num_fres h)) d;
       d \<leftarrow> copy_from_slice FRE_LEN_FIELD (FRE_LEN_FIELD + 4) (to_le_bytes 4 (sf_fre_len h)) d;
       d \<leftarrow> copy_from_slice FDE_START_OFFSET_FIELD (FDE_START_OFFSET_FIELD + 4) (to_le_bytes 4 (sf_fde_start_offset h)) d;
       copy_from_slice FRE_START_OFFSET_FIELD (FRE_START_OFFSET_FIELD + 4) (to_le_bytes 4 (sf_fre_start_offset h)) d
     }"

subsection \<open>Collecting the entries\<close>

record sframe_state =
  st_entries :: "sframe_entry list"
  output_flags :: u8
  output_abi_arch :: u8
  output_cfa_fixed_fp_offset :: u8
  output_cfa_fixed_ra_offset :: u8
  output_aux_len :: u8
  total_num_fres :: nat
  first_section :: bool

definition sframe_start :: sframe_state where
  "sframe_start =
     \<lparr>st_entries = [], output_flags = 0, output_abi_arch = 0, output_cfa_fixed_fp_offset = 0,
      output_cfa_fixed_ra_offset = 0, output_aux_len = 0, total_num_fres = 0, first_section = True\<rparr>"

text \<open>The \<^verbatim>\<open>if first_section\<close> block: output flags come from the first header and are combined with the others.\<close>

definition note_header :: "sframe_header \<Rightarrow> sframe_state \<Rightarrow> sframe_state" where
  "note_header h st =
     (if first_section st then
        st\<lparr>output_flags := sf_flags h, output_abi_arch := sf_abi_arch h,
           output_cfa_fixed_fp_offset := sf_cfa_fixed_fp_offset h, output_cfa_fixed_ra_offset := sf_cfa_fixed_ra_offset h,
           output_aux_len := sf_aux_len h, first_section := False\<rparr>
      else
        let st1 = (if sf_flags h AND FLAG_FRAME_POINTER = 0
                   then st\<lparr>output_flags := output_flags st AND NOT FLAG_FRAME_POINTER\<rparr> else st)
        in if sf_flags h AND FLAG_AARCH64_PAUTH \<noteq> 0
           then st1\<lparr>output_flags := output_flags st1 OR FLAG_AARCH64_PAUTH\<rparr> else st1)"

fun read_fre_offsets :: "bytes \<Rightarrow> nat \<Rightarrow> nat list \<Rightarrow> u32 list option" where
  "read_fre_offsets section fde_start [] = Some []"
| "read_fre_offsets section fde_start (i # is) =
     do {
       v \<leftarrow> sf_read_u32 section (fde_start + i * FDE_SIZE + 8);
       vs \<leftarrow> read_fre_offsets section fde_start is;
       Some (v # vs)
     }"

text \<open>One iteration of the second loop over the entries of a section; \<open>section_end\<close> is \<^verbatim>\<open>offset + len\<close>.\<close>

definition read_entry ::
    "bytes \<Rightarrow> int \<Rightarrow> bool \<Rightarrow> nat \<Rightarrow> nat \<Rightarrow> nat \<Rightarrow> u32 list \<Rightarrow> nat \<Rightarrow> (sframe_error + sframe_entry) option" where
  "read_entry section section_base pc_rel fde_start fre_start section_end fre_offsets index =
     do {
       let offset_in_section = fde_start + index * FDE_SIZE;
       bytes \<leftarrow> slice_range offset_in_section (offset_in_section + FDE_SIZE) section;
       start_value \<leftarrow> map_option sint (sf_read_i32 bytes 0);
       let addr = (if pc_rel then section_base + int offset_in_section + start_value else section_base + start_value);
       curr \<leftarrow> sf_read_u32 bytes 8;
       case binary_search_by_key curr (\<lambda>x. x) fre_offsets of
         Inl _ \<Rightarrow> Some (Inl FreOffsetNotFound)
       | Inr idx \<Rightarrow>
           (case get_at fre_offsets (idx + 1) of
              None \<Rightarrow> Some (Inl FreOffsetOutOfBounds)
            | Some next_fre_offset \<Rightarrow>
                let curr_fre_len = unat (next_fre_offset - curr);
                    curr_fre_abs_start = fre_start + unat curr
                in if curr_fre_abs_start + curr_fre_len > section_end then Some (Inl FreDataTruncated)
                   else map_option (\<lambda>f. Inr \<lparr>entry_bytes = bytes, func_addr = addr, fre_bytes = f\<rparr>)
                          (slice_range curr_fre_abs_start (curr_fre_abs_start + curr_fre_len) section))
     }"

fun read_entries ::
    "(nat \<Rightarrow> (sframe_error + sframe_entry) option) \<Rightarrow> nat list \<Rightarrow> (sframe_error + sframe_entry list) option" where
  "read_entries f [] = Some (Inr [])"
| "read_entries f (i # is) =
     Option.bind (f i) (\<lambda>r.
       case r of
         Inl e \<Rightarrow> Some (Inl e)
       | Inr x \<Rightarrow> map_option (\<lambda>rs. case rs of Inl e \<Rightarrow> Inl e | Inr xs \<Rightarrow> Inr (x # xs)) (read_entries f is))"

text \<open>
  The loop body for one input section. \<^verbatim>\<open>range.end - range.start\<close> wraps for a reversed range;
  \<^verbatim>\<open>offset + len\<close> is \<^verbatim>\<open>range.end\<close> either way.
\<close>

definition range_len :: "nat \<times> nat \<Rightarrow> nat" where
  "range_len r = (if fst r \<le> snd r then snd r - fst r else 2 ^ 64 + snd r - fst r)"

definition sframe_range :: "bytes \<Rightarrow> int \<Rightarrow> nat \<times> nat \<Rightarrow> sframe_state \<Rightarrow> (sframe_error + sframe_state) option" where
  "sframe_range section section_base rng st =
     (if range_len rng < HEADER_SIZE then Some (Inr st)
      else do {
        let offset = fst rng;
        data \<leftarrow> slice_range offset (offset + HEADER_SIZE) section;
        parsed \<leftarrow> header_parse data;
        case parsed of
          Inl e \<Rightarrow> Some (Inl e)
        | Inr h \<Rightarrow>
            (let pc_rel = (sf_flags h AND FLAG_FUNC_START_PCREL \<noteq> 0);
                 st1 = note_header h st;
                 st2 = st1\<lparr>total_num_fres := total_num_fres st1 + unat (sf_num_fres h)\<rparr>;
                 header_end_offset = HEADER_SIZE + unat (sf_aux_len h);
                 fde_start = offset + header_end_offset + unat (sf_fde_start_offset h);
                 fre_start = offset + header_end_offset + unat (sf_fre_start_offset h);
                 num_fdes = unat (sf_num_fdes h);
                 section_end = snd rng
             in if fde_start + FDE_SIZE * num_fdes > section_end then Some (Inl FdeArrayTruncated)
                else do {
                  offsets \<leftarrow> read_fre_offsets section fde_start [0..<num_fdes];
                  if section_end < fre_start then Some (Inl InvalidFreStart)
                  else do {
                    let fre_offsets = remdups_adj (sort (offsets @ [of_nat (section_end - fre_start)]));
                    rs \<leftarrow> read_entries
                           (read_entry section section_base pc_rel fde_start fre_start section_end fre_offsets)
                           [0..<num_fdes];
                    Some (map_sum id (\<lambda>es. st2\<lparr>st_entries := st_entries st2 @ es\<rparr>) rs)
                  }
                })
      })"

fun collect_entries ::
    "bytes \<Rightarrow> int \<Rightarrow> (nat \<times> nat) list \<Rightarrow> sframe_state \<Rightarrow> (sframe_error + sframe_state) option" where
  "collect_entries section section_base [] st = Some (Inr st)"
| "collect_entries section section_base (rng # rngs) st =
     Option.bind (sframe_range section section_base rng st) (\<lambda>r.
       case r of Inl e \<Rightarrow> Some (Inl e) | Inr st' \<Rightarrow> collect_entries section section_base rngs st')"

subsection \<open>Writing the sorted section\<close>

definition output_header :: "sframe_state \<Rightarrow> nat \<Rightarrow> nat \<Rightarrow> sframe_header" where
  "output_header st num_fdes total_fre_size =
     \<lparr>sf_magic = SFRAME_MAGIC, sf_version = SFRAME_VERSION_2, sf_flags = output_flags st OR FLAG_FDE_SORTED,
      sf_abi_arch = output_abi_arch st, sf_cfa_fixed_fp_offset = output_cfa_fixed_fp_offset st,
      sf_cfa_fixed_ra_offset = output_cfa_fixed_ra_offset st, sf_aux_len = output_aux_len st,
      sf_num_fdes = of_nat num_fdes, sf_num_fres = of_nat (total_num_fres st), sf_fre_len = of_nat total_fre_size,
      sf_fde_start_offset = 0, sf_fre_start_offset = of_nat (num_fdes * FDE_SIZE)\<rparr>"

definition fde_update :: "bool \<Rightarrow> int \<Rightarrow> nat \<Rightarrow> nat \<Rightarrow> sframe_entry \<Rightarrow> (sframe_error + bytes) option" where
  "fde_update pc_rel section_base fde_pos fre_rel_offset e =
     (let new_value = (if pc_rel then func_addr e - (section_base + int fde_pos) else func_addr e - section_base)
      in if new_value < - (2 ^ 31) \<or> 2 ^ 31 \<le> new_value then Some (Inl FunctionOutOfRange)
         else do {
           b1 \<leftarrow> sf_write_i32 0 (of_int new_value) (entry_bytes e);
           b2 \<leftarrow> copy_from_slice 8 12 (to_le_bytes 4 (of_nat fre_rel_offset :: u32)) b1;
           Some (Inr b2)
         })"

fun write_entries ::
    "bool \<Rightarrow> int \<Rightarrow> nat \<Rightarrow> nat \<Rightarrow> nat \<Rightarrow> nat \<Rightarrow> sframe_entry list \<Rightarrow> bytes \<Rightarrow> (sframe_error + bytes) option" where
  "write_entries pc_rel section_base fde_start_idx fre_start_idx index fre_rel_offset [] section = Some (Inr section)"
| "write_entries pc_rel section_base fde_start_idx fre_start_idx index fre_rel_offset (e # es) section =
     do {
       let fde_pos = fde_start_idx + index * FDE_SIZE;
       u \<leftarrow> fde_update pc_rel section_base fde_pos fre_rel_offset e;
       case u of
         Inl err \<Rightarrow> Some (Inl err)
       | Inr fde_bytes \<Rightarrow>
           do {
             s1 \<leftarrow> copy_from_slice fde_pos (fde_pos + FDE_SIZE) fde_bytes section;
             let fre_len = length (fre_bytes e);
             let fre_pos = fre_start_idx + fre_rel_offset;
             s2 \<leftarrow> copy_from_slice fre_pos (fre_pos + fre_len) (fre_bytes e) s1;
             write_entries pc_rel section_base fde_start_idx fre_start_idx (Suc index) (fre_rel_offset + fre_len) es s2
           }
     }"

definition write_sorted ::
    "bytes \<Rightarrow> int \<Rightarrow> sframe_state \<Rightarrow> sframe_entry list \<Rightarrow> (sframe_error + (bytes \<times> u8 option)) option" where
  "write_sorted section section_base st entries =
     do {
       let num_fdes = length entries;
       let header_end_offset = HEADER_SIZE + unat (output_aux_len st);
       let fde_size = num_fdes * FDE_SIZE;
       let total_fre_size = sum_list (map (\<lambda>e. length (fre_bytes e)) entries);
       let total_size = header_end_offset + fde_size + total_fre_size;
       if total_size > length section then Some (Inl MergedSectionTooLarge)
       else do {
         let header = output_header st num_fdes total_fre_size;
         head \<leftarrow> slice_range 0 HEADER_SIZE section;
         head' \<leftarrow> header_write header head;
         s1 \<leftarrow> copy_from_slice 0 HEADER_SIZE head' section;
         w \<leftarrow> write_entries (sf_flags header AND FLAG_FUNC_START_PCREL \<noteq> 0) section_base header_end_offset
               (header_end_offset + fde_size) 0 0 entries s1;
         case w of
           Inl e \<Rightarrow> Some (Inl e)
         | Inr s2 \<Rightarrow> Some (Inr (take total_size s2 @ replicate (length s2 - total_size) 0, None))
       }
     }"

text \<open>
  The result is the section, with the version number of the warning that disables sorting. When an
  error is returned the link fails and the section is not used.
\<close>

definition sort_sframe_section ::
    "bytes \<Rightarrow> u64 \<Rightarrow> (nat \<times> nat) list \<Rightarrow> (sframe_error + (bytes \<times> u8 option)) option" where
  "sort_sframe_section section section_base_address section_ranges =
     (if section = [] then Some (Inr (section, None))
      else do {
        let section_base = uint section_base_address;
        r \<leftarrow> collect_entries section section_base section_ranges sframe_start;
        case r of
          Inl (UnsupportedVersion v) \<Rightarrow> Some (Inr (section, Some v))
        | Inl e \<Rightarrow> Some (Inl e)
        | Inr st \<Rightarrow>
            if st_entries st = [] then Some (Inr (section, None))
            else write_sorted section section_base st (sort_key func_addr (st_entries st))
      })"

subsection \<open>The header\<close>

definition header_bytes :: "sframe_header \<Rightarrow> bytes" where
  "header_bytes h =
     to_le_bytes 2 (sf_magic h)
     @ [sf_version h, sf_flags h, sf_abi_arch h, sf_cfa_fixed_fp_offset h, sf_cfa_fixed_ra_offset h, sf_aux_len h]
     @ to_le_bytes 4 (sf_num_fdes h) @ to_le_bytes 4 (sf_num_fres h) @ to_le_bytes 4 (sf_fre_len h)
     @ to_le_bytes 4 (sf_fde_start_offset h) @ to_le_bytes 4 (sf_fre_start_offset h)"

lemma copy_append:
  assumes "length B = length S" and "a = length A" and "b = length A + length S"
  shows "copy_from_slice a b S (A @ B @ C) = Some (A @ S @ C)"
  using assms by (simp add: copy_from_slice_def)

lemma slice_append:
  assumes "a = length A" and "b = length A + length S"
  shows "slice_range a b (A @ S @ C) = Some S"
  using assms by (simp add: slice_range_def)

lemma set_append: "n = length A \<Longrightarrow> set_at n v (A @ x # C) = Some (A @ v # C)"
  by (simp add: set_at_def)

lemma get_append: "n = length A \<Longrightarrow> get_at (A @ x # C) n = Some x"
  by (simp add: get_at_def)

lemma split_at: "n \<le> length xs \<Longrightarrow> \<exists>ys zs. xs = ys @ zs \<and> length ys = n \<and> length zs = length xs - n"
  by (metis append_take_drop_id length_drop length_take min.absorb2)

lemma header_write_eq:
  assumes "length data = HEADER_SIZE"
  shows "header_write h data = Some (header_bytes h)"
proof -
  have "length data = 28" using assms by (simp add: sframe_consts)
  then obtain p d1 where d1: "data = p @ d1" "length p = 2" "length d1 = 26" using split_at [of 2 data] by auto
  then obtain v1 v2 v3 v4 v5 v6 d2 where d2: "d1 = v1 # v2 # v3 # v4 # v5 # v6 # d2" "length d2 = 20"
    by (auto simp: length_Suc_conv numeral_eq_Suc)
  obtain q1 d3 where d3: "d2 = q1 @ d3" "length q1 = 4" "length d3 = 16" using split_at [of 4 d2] d2 by auto
  obtain q2 d4 where d4: "d3 = q2 @ d4" "length q2 = 4" "length d4 = 12" using split_at [of 4 d3] d3 by auto
  obtain q3 d5 where d5: "d4 = q3 @ d5" "length q3 = 4" "length d5 = 8" using split_at [of 4 d4] d4 by auto
  obtain q4 q5 where d6: "d5 = q4 @ q5" "length q4 = 4" "length q5 = 4" using split_at [of 4 d5] d5 by auto
  show ?thesis
    unfolding d1 d2(1) d3(1) d4(1) d5(1) d6(1)
    using d1(2) d3(2) d4(2) d5(2) d6(2,3)
    by (simp add: header_write_def header_bytes_def copy_from_slice_def set_at_def sframe_consts list_update_append)
qed

lemma length_header_bytes [simp]: "length (header_bytes h) = 28"
  by (simp add: header_bytes_def)

text \<open>A written header is read back.\<close>

lemma header_roundtrip:
  assumes "sf_magic h = SFRAME_MAGIC" and "sf_version h = SFRAME_VERSION_2"
  shows "header_parse (header_bytes h) = Some (Inr h)"
proof -
  have u16: "sf_read_u16 (header_bytes h) 0 = Some (sf_magic h)"
    unfolding sf_read_u16_def header_bytes_def
    by (subst slice_append [of _ "[]", simplified]) (simp_all add: from_le_bytes_to_le_bytes)
  have b: "get_at (header_bytes h) 2 = Some (sf_version h)" "get_at (header_bytes h) 3 = Some (sf_flags h)"
      "get_at (header_bytes h) 4 = Some (sf_abi_arch h)" "get_at (header_bytes h) 5 = Some (sf_cfa_fixed_fp_offset h)"
      "get_at (header_bytes h) 6 = Some (sf_cfa_fixed_ra_offset h)" "get_at (header_bytes h) 7 = Some (sf_aux_len h)"
    by (simp_all add: header_bytes_def get_at_def nth_append)
  have r: "sf_read_u32 (A @ to_le_bytes 4 x @ C) n = Some x" if "n = length A" for A C x n
    unfolding sf_read_u32_def using that
    by (subst slice_append [of _ A]) (simp_all add: from_le_bytes_to_le_bytes)
  have w: "sf_read_u32 (header_bytes h) 8 = Some (sf_num_fdes h)" "sf_read_u32 (header_bytes h) 12 = Some (sf_num_fres h)"
      "sf_read_u32 (header_bytes h) 16 = Some (sf_fre_len h)" "sf_read_u32 (header_bytes h) 20 = Some (sf_fde_start_offset h)"
      "sf_read_u32 (header_bytes h) 24 = Some (sf_fre_start_offset h)"
    unfolding header_bytes_def
    using r [of 8 "to_le_bytes 2 (sf_magic h) @ [sf_version h, sf_flags h, sf_abi_arch h, sf_cfa_fixed_fp_offset h, sf_cfa_fixed_ra_offset h, sf_aux_len h]"]
      r [of 12 "to_le_bytes 2 (sf_magic h) @ [sf_version h, sf_flags h, sf_abi_arch h, sf_cfa_fixed_fp_offset h, sf_cfa_fixed_ra_offset h, sf_aux_len h] @ to_le_bytes 4 (sf_num_fdes h)"]
      r [of 16 "to_le_bytes 2 (sf_magic h) @ [sf_version h, sf_flags h, sf_abi_arch h, sf_cfa_fixed_fp_offset h, sf_cfa_fixed_ra_offset h, sf_aux_len h] @ to_le_bytes 4 (sf_num_fdes h) @ to_le_bytes 4 (sf_num_fres h)"]
      r [of 20 "to_le_bytes 2 (sf_magic h) @ [sf_version h, sf_flags h, sf_abi_arch h, sf_cfa_fixed_fp_offset h, sf_cfa_fixed_ra_offset h, sf_aux_len h] @ to_le_bytes 4 (sf_num_fdes h) @ to_le_bytes 4 (sf_num_fres h) @ to_le_bytes 4 (sf_fre_len h)"]
      r [of 24 "to_le_bytes 2 (sf_magic h) @ [sf_version h, sf_flags h, sf_abi_arch h, sf_cfa_fixed_fp_offset h, sf_cfa_fixed_ra_offset h, sf_aux_len h] @ to_le_bytes 4 (sf_num_fdes h) @ to_le_bytes 4 (sf_num_fres h) @ to_le_bytes 4 (sf_fre_len h) @ to_le_bytes 4 (sf_fde_start_offset h)" "sf_fre_start_offset h" "[]"]
    by (simp_all only: append_assoc append_Nil2) simp_all
  show ?thesis using assms by (simp add: header_parse_def u16 b w sframe_consts)
qed

subsection \<open>Written entries\<close>

definition fde_bytes_of :: "u32 \<Rightarrow> u32 \<Rightarrow> bytes \<Rightarrow> bytes" where
  "fde_bytes_of start fre_off b = to_le_bytes 4 start @ take 4 (drop 4 b) @ to_le_bytes 4 fre_off @ drop 12 b"

lemma fde_update_eq:
  assumes "length (entry_bytes e) = FDE_SIZE"
  defines "v pc base pos \<equiv> (if pc then func_addr e - (base + int pos) else func_addr e - base)"
  shows "fde_update pc base pos off e =
    Some (if v pc base pos < - (2 ^ 31) \<or> 2 ^ 31 \<le> v pc base pos then Inl FunctionOutOfRange
          else Inr (fde_bytes_of (of_int (v pc base pos)) (of_nat off) (entry_bytes e)))"
proof -
  have "length (entry_bytes e) = 20" using assms(1) by (simp add: sframe_consts)
  then obtain p d1 where d1: "entry_bytes e = p @ d1" "length p = 4" "length d1 = 16" using split_at [of 4 "entry_bytes e"] by auto
  obtain q d2 where d2: "d1 = q @ d2" "length q = 4" "length d2 = 12" using split_at [of 4 d1] d1 by auto
  obtain r t where d3: "d2 = r @ t" "length r = 4" "length t = 8" using split_at [of 4 d2] d2 by auto
  show ?thesis
    using d1(2) d2(2) d3(2,3)
    by (simp add: fde_update_def Let_def v_def sf_write_i32_def copy_from_slice_def fde_bytes_of_def d1(1) d2(1) d3(1))
qed

text \<open>The start field of an entry, and the offset of its frame rows among those of all entries.\<close>

definition start_field :: "bool \<Rightarrow> int \<Rightarrow> nat \<Rightarrow> sframe_entry \<Rightarrow> int" where
  "start_field pc base pos e = (if pc then func_addr e - (base + int pos) else func_addr e - base)"

abbreviation fres_before :: "sframe_entry list \<Rightarrow> nat \<Rightarrow> nat" where
  "fres_before es i \<equiv> sum_list (map (\<lambda>e. length (fre_bytes e)) (take i es))"

abbreviation fres_total :: "sframe_entry list \<Rightarrow> nat" where
  "fres_total es \<equiv> sum_list (map (\<lambda>e. length (fre_bytes e)) es)"

lemma write_entries_eq:
  assumes "write_entries pc base F0 R0 index off es (A @ F @ D @ E) = Some (Inr out)"
    and "\<forall>e \<in> set es. length (entry_bytes e) = FDE_SIZE"
    and "length A = F0 + index * FDE_SIZE" and "length F = length es * FDE_SIZE"
    and "R0 + off = length A + length F + length D" and "fres_total es \<le> length E"
  shows "\<exists>fs. out = A @ concat fs @ D @ concat (map fre_bytes es) @ drop (fres_total es) E \<and> length fs = length es
    \<and> (\<forall>i < length es. - (2 ^ 31) \<le> start_field pc base (F0 + (index + i) * FDE_SIZE) (es ! i)
         \<and> start_field pc base (F0 + (index + i) * FDE_SIZE) (es ! i) < 2 ^ 31
         \<and> fs ! i = fde_bytes_of (of_int (start_field pc base (F0 + (index + i) * FDE_SIZE) (es ! i)))
                     (of_nat (off + fres_before es i)) (entry_bytes (es ! i)))"
  using assms
proof (induction es arbitrary: index off A F D E)
  case Nil
  then show ?case by (intro exI [of _ "[]"]) simp
next
  case (Cons e es)
  let ?v = "start_field pc base (F0 + index * FDE_SIZE) e"
  let ?f = "fde_bytes_of (of_int ?v) (of_nat off) (entry_bytes e)"
  have len: "length (entry_bytes e) = FDE_SIZE" using Cons.prems(2) by simp
  then have lf: "length ?f = FDE_SIZE" by (simp add: fde_bytes_of_def FDE_SIZE_def)
  obtain F1 F2 where F: "F = F1 @ F2" "length F1 = FDE_SIZE" "length F2 = length es * FDE_SIZE"
    using split_at [of FDE_SIZE F] Cons.prems(4) by auto
  have le: "length (fre_bytes e) + fres_total es \<le> length E" using Cons.prems(6) by simp
  obtain E1 E2 where E: "E = E1 @ E2" "length E1 = length (fre_bytes e)" "length E2 = length E - length (fre_bytes e)"
    using split_at [OF add_leD1 [OF le]] by blast
  have E2: "fres_total es \<le> length E2" using le unfolding E(3) by linarith
  have pos: "F0 + index * FDE_SIZE = length A" using Cons.prems(3) by simp
  have u: "fde_update pc base (F0 + index * FDE_SIZE) off e = Some (Inr ?f)" and rng: "- (2 ^ 31) \<le> ?v \<and> ?v < 2 ^ 31"
    using Cons.prems(1) fde_update_eq [OF len, of pc base "F0 + index * FDE_SIZE" off]
    by (auto simp: start_field_def Let_def split: if_splits)
  have c1: "copy_from_slice (F0 + index * FDE_SIZE) (F0 + index * FDE_SIZE + FDE_SIZE) ?f (A @ F @ D @ E) = Some (A @ ?f @ F2 @ D @ E)"
    unfolding F(1) append_assoc by (rule copy_append) (use F lf pos in simp_all)
  have r: "R0 + off = length (A @ ?f @ F2 @ D)" using Cons.prems(5) F lf by simp
  have "copy_from_slice (R0 + off) (R0 + off + length (fre_bytes e)) (fre_bytes e) ((A @ ?f @ F2 @ D) @ E1 @ E2)
      = Some ((A @ ?f @ F2 @ D) @ fre_bytes e @ E2)"
    by (rule copy_append) (use E(2) r in simp_all)
  then have c2: "copy_from_slice (R0 + off) (R0 + off + length (fre_bytes e)) (fre_bytes e) (A @ ?f @ F2 @ D @ E)
      = Some (A @ ?f @ F2 @ D @ fre_bytes e @ E2)"
    using E(1) by simp
  have run: "write_entries pc base F0 R0 (Suc index) (off + length (fre_bytes e)) es ((A @ ?f) @ F2 @ (D @ fre_bytes e) @ E2) = Some (Inr out)"
    using Cons.prems(1) by (simp add: Let_def u c1 c2)
  have l: "\<forall>e \<in> set es. length (entry_bytes e) = FDE_SIZE" "length (A @ ?f) = F0 + Suc index * FDE_SIZE"
      "R0 + (off + length (fre_bytes e)) = length (A @ ?f) + length F2 + length (D @ fre_bytes e)"
    using Cons.prems(2,3) lf r by simp_all
  obtain fs where out: "out = (A @ ?f) @ concat fs @ (D @ fre_bytes e) @ concat (map fre_bytes es) @ drop (fres_total es) E2"
    and fs: "length fs = length es"
    and each: "\<And>i. i < length es \<Longrightarrow> - (2 ^ 31) \<le> start_field pc base (F0 + (Suc index + i) * FDE_SIZE) (es ! i)
         \<and> start_field pc base (F0 + (Suc index + i) * FDE_SIZE) (es ! i) < 2 ^ 31
         \<and> fs ! i = fde_bytes_of (of_int (start_field pc base (F0 + (Suc index + i) * FDE_SIZE) (es ! i)))
                     (of_nat (off + length (fre_bytes e) + fres_before es i)) (entry_bytes (es ! i))"
    using Cons.IH [OF run l(1,2) F(3) l(3) E2] by blast
  have "out = A @ concat (?f # fs) @ D @ concat (map fre_bytes (e # es)) @ drop (fres_total (e # es)) E"
    unfolding out E(1) using E(2) by simp
  moreover have "- (2 ^ 31) \<le> start_field pc base (F0 + (index + i) * FDE_SIZE) ((e # es) ! i)
         \<and> start_field pc base (F0 + (index + i) * FDE_SIZE) ((e # es) ! i) < 2 ^ 31
         \<and> (?f # fs) ! i = fde_bytes_of (of_int (start_field pc base (F0 + (index + i) * FDE_SIZE) ((e # es) ! i)))
                     (of_nat (off + fres_before (e # es) i)) (entry_bytes ((e # es) ! i))" if "i < length (e # es)" for i
    using that rng each [of "i - 1"] by (cases i) (simp_all add: algebra_simps)
  ultimately show ?case using fs by (intro exI [of _ "?f # fs"]) auto
qed

text \<open>Every collected entry has the size of an FDE.\<close>

lemma read_entry_bytes:
  assumes "read_entry section base pc fde fre sec_end offs i = Some (Inr e)"
  shows "length (entry_bytes e) = FDE_SIZE"
  using assms
  by (auto simp: read_entry_def Let_def slice_range_def
      split: Option.bind_split_asm if_split_asm sum.split_asm option.split_asm)

lemma read_entries_all:
  assumes "read_entries f is = Some (Inr es)" and "\<And>i e. f i = Some (Inr e) \<Longrightarrow> P e"
  shows "\<forall>e \<in> set es. P e"
  using assms(1)
proof (induction "is" arbitrary: es)
  case (Cons i "is")
  then obtain x where x: "f i = Some (Inr x)"
    and "map_option (\<lambda>rs. case rs of Inl e \<Rightarrow> Inl e | Inr xs \<Rightarrow> Inr (x # xs)) (read_entries f is) = Some (Inr es)"
    by (auto split: Option.bind_split_asm sum.split_asm)
  then obtain xs where "read_entries f is = Some (Inr xs)" "es = x # xs"
    by (cases "read_entries f is") (auto split: sum.split_asm)
  note this x
  then show ?case using Cons.IH assms(2) by auto
qed simp

lemma sframe_range_bytes:
  assumes "sframe_range section base rng st = Some (Inr st')"
    and "\<forall>e \<in> set (st_entries st). length (entry_bytes e) = FDE_SIZE"
  shows "\<forall>e \<in> set (st_entries st'). length (entry_bytes e) = FDE_SIZE"
proof (cases "range_len rng < HEADER_SIZE")
  case True
  then show ?thesis using assms by (simp add: sframe_range_def)
next
  case False
  have note_entries: "st_entries (note_header h st) = st_entries st" for h
    by (simp add: note_header_def Let_def)
  obtain f "is" es where "read_entries f is = Some (Inr es)" and f: "\<And>i e. f i = Some (Inr e) \<Longrightarrow> length (entry_bytes e) = FDE_SIZE"
    and "st_entries st' = st_entries st @ es"
    using assms(1) False read_entry_bytes note_entries
    by (fastforce simp: sframe_range_def Let_def map_sum_def split: Option.bind_split_asm if_split_asm sum.split_asm)
  moreover have "\<forall>e \<in> set es. length (entry_bytes e) = FDE_SIZE"
    using read_entries_all [of f "is" es "\<lambda>e. length (entry_bytes e) = FDE_SIZE"] calculation by blast
  ultimately show ?thesis using assms(2) by auto
qed

lemma collect_entries_bytes:
  assumes "collect_entries section base rngs st = Some (Inr st')"
    and "\<forall>e \<in> set (st_entries st). length (entry_bytes e) = FDE_SIZE"
  shows "\<forall>e \<in> set (st_entries st'). length (entry_bytes e) = FDE_SIZE"
  using assms
proof (induction rngs arbitrary: st)
  case (Cons rng rngs)
  then obtain st1 where "sframe_range section base rng st = Some (Inr st1)" and "collect_entries section base rngs st1 = Some (Inr st')"
    by (auto split: Option.bind_split_asm sum.split_asm)
  then show ?case using Cons.IH sframe_range_bytes Cons.prems(2) by blast
qed simp

subsection \<open>The sorted section\<close>

text \<open>
  A reader of sorted sections, after the SFrame format: the address of function \<open>i\<close>, the fields of its
  entry that do not depend on positions, and the data from its first frame row on.
\<close>

definition sframe_function :: "bytes \<Rightarrow> int \<Rightarrow> sframe_header \<Rightarrow> nat \<Rightarrow> (int \<times> bytes \<times> bytes) option" where
  "sframe_function data base h i =
     do {
       let head = HEADER_SIZE + unat (sf_aux_len h);
       let pos = head + unat (sf_fde_start_offset h) + i * FDE_SIZE;
       fde \<leftarrow> slice_range pos (pos + FDE_SIZE) data;
       v \<leftarrow> map_option sint (sf_read_i32 fde 0);
       off \<leftarrow> sf_read_u32 fde 8;
       Some (if sf_flags h AND FLAG_FUNC_START_PCREL \<noteq> 0 then base + int pos + v else base + v,
             take 4 (drop 4 fde) @ drop 12 fde,
             drop (head + unat (sf_fre_start_offset h) + unat off) data)
     }"

lemma sint_of_int_32: "- (2 ^ 31) \<le> v \<Longrightarrow> v < 2 ^ 31 \<Longrightarrow> sint (of_int v :: u32) = v"
  by (simp add: signed_of_int signed_take_bit_int_eq_self)

lemma fde_bytes_read:
  assumes "length b = FDE_SIZE"
  shows "sf_read_i32 (fde_bytes_of v off b) 0 = Some v" "sf_read_u32 (fde_bytes_of v off b) 8 = Some off"
    "take 4 (drop 4 (fde_bytes_of v off b)) @ drop 12 (fde_bytes_of v off b) = take 4 (drop 4 b) @ drop 12 b"
    "length (fde_bytes_of v off b) = FDE_SIZE"
proof -
  have l: "length b = 20" using assms by (simp add: FDE_SIZE_def)
  then show "sf_read_i32 (fde_bytes_of v off b) 0 = Some v" "sf_read_u32 (fde_bytes_of v off b) 8 = Some off"
    by (simp_all add: sf_read_i32_def sf_read_u32_def fde_bytes_of_def slice_range_def from_le_bytes_to_le_bytes)
  show "take 4 (drop 4 (fde_bytes_of v off b)) @ drop 12 (fde_bytes_of v off b) = take 4 (drop 4 b) @ drop 12 b"
    using l by (simp add: fde_bytes_of_def)
  show "length (fde_bytes_of v off b) = FDE_SIZE" using l by (simp add: fde_bytes_of_def FDE_SIZE_def)
qed

lemma sorted_flag: "(x OR 1) AND 1 \<noteq> (0 :: u8)"
  by (simp add: bit.conj_disj_distrib2)

lemma concat_nth_split:
  assumes "i < length xss"
  shows "concat xss = concat (take i xss) @ (xss ! i) @ concat (drop (Suc i) xss)"
  by (metis assms append_take_drop_id concat.simps(2) concat_append Cons_nth_drop_Suc)

lemma length_concat_const: "(\<And>x. x \<in> set xss \<Longrightarrow> length x = n) \<Longrightarrow> length (concat xss) = length xss * n"
  by (induction xss) simp_all

text \<open>What a successful run writes.\<close>

lemma write_sorted_form:
  assumes "write_sorted section base st es = Some (Inr (out, None))"
    and b: "\<forall>e \<in> set es. length (entry_bytes e) = FDE_SIZE"
  defines "h \<equiv> output_header st (length es) (fres_total es)"
  defines "head \<equiv> HEADER_SIZE + unat (output_aux_len st)"
  defines "pc \<equiv> sf_flags h AND FLAG_FUNC_START_PCREL \<noteq> 0"
  shows "\<exists>aux fs. out = header_bytes h @ aux @ concat fs @ concat (map fre_bytes es)
        @ replicate (length section - (head + length es * FDE_SIZE + fres_total es)) 0
    \<and> length out = length section
    \<and> length aux = unat (output_aux_len st) \<and> length fs = length es \<and> head + length es * FDE_SIZE + fres_total es \<le> length section
    \<and> (\<forall>i < length es. - (2 ^ 31) \<le> start_field pc base (head + i * FDE_SIZE) (es ! i)
         \<and> start_field pc base (head + i * FDE_SIZE) (es ! i) < 2 ^ 31
         \<and> fs ! i = fde_bytes_of (of_int (start_field pc base (head + i * FDE_SIZE) (es ! i)))
                     (of_nat (fres_before es i)) (entry_bytes (es ! i)))"
proof -
  let ?total = "head + length es * FDE_SIZE + fres_total es"
  have ne: "?total \<le> length section"
    and run: "Option.bind (slice_range 0 HEADER_SIZE section) (\<lambda>hd. Option.bind (header_write h hd) (\<lambda>hd'.
       Option.bind (copy_from_slice 0 HEADER_SIZE hd' section) (\<lambda>s1.
       Option.bind (write_entries pc base head (head + length es * FDE_SIZE) 0 0 es s1) (\<lambda>w.
       case w of Inl e \<Rightarrow> Some (Inl e) | Inr s2 \<Rightarrow> Some (Inr (take ?total s2 @ replicate (length s2 - ?total) 0, None :: u8 option))))))
      = Some (Inr (out, None))"
    using assms(1) unfolding write_sorted_def h_def head_def pc_def Let_def by (auto split: if_split_asm)
  have hs: "HEADER_SIZE = 28" by (simp add: HEADER_SIZE_def)
  have l28: "28 \<le> length section" using ne by (simp add: head_def hs)
  have hw: "header_write h (take 28 section) = Some (header_bytes h)"
    using l28 by (intro header_write_eq) (simp add: hs)
  have cp: "copy_from_slice 0 28 (header_bytes h) section = Some (header_bytes h @ drop 28 section)"
    using l28 by (simp add: copy_from_slice_def)
  let ?A = "header_bytes h @ take (unat (output_aux_len st)) (drop 28 section)"
  let ?F = "take (length es * FDE_SIZE) (drop head section)" and ?E = "drop (head + length es * FDE_SIZE) section"
  have s1: "header_bytes h @ drop 28 section = ?A @ ?F @ [] @ ?E"
  proof -
    have "xs = take m xs @ take k (drop m xs) @ drop k (drop m xs)" for m k and xs :: bytes
      by (simp del: drop_drop)
    from this [of "drop 28 section" "unat (output_aux_len st)" "length es * FDE_SIZE"]
    show ?thesis by (simp add: head_def hs drop_drop add.commute add.left_commute del: append_take_drop_id)
  qed
  have lens: "length ?A = head + 0 * FDE_SIZE" "length ?F = length es * FDE_SIZE"
      "head + length es * FDE_SIZE + 0 = length ?A + length ?F + length ([] :: bytes)" "fres_total es \<le> length ?E"
    using ne by (simp_all add: head_def hs)
  obtain s2 where w: "write_entries pc base head (head + length es * FDE_SIZE) 0 0 es (?A @ ?F @ [] @ ?E) = Some (Inr s2)"
    and out: "out = take ?total s2 @ replicate (length s2 - ?total) 0"
    using run l28 by (simp add: slice_range_def hs hw cp s1 del: append_assoc append_Nil split: Option.bind_split_asm sum.split_asm)
  obtain fs where s2: "s2 = ?A @ concat fs @ [] @ concat (map fre_bytes es) @ drop (fres_total es) ?E" and fs: "length fs = length es"
    and each: "\<forall>i < length es. - (2 ^ 31) \<le> start_field pc base (head + (0 + i) * FDE_SIZE) (es ! i)
         \<and> start_field pc base (head + (0 + i) * FDE_SIZE) (es ! i) < 2 ^ 31
         \<and> fs ! i = fde_bytes_of (of_int (start_field pc base (head + (0 + i) * FDE_SIZE) (es ! i)))
                     (of_nat (0 + fres_before es i)) (entry_bytes (es ! i))"
    using write_entries_eq [OF w b lens] by blast
  have lf: "length (concat fs) = length es * FDE_SIZE"
  proof -
    have "length x = FDE_SIZE" if "x \<in> set fs" for x
    proof -
      obtain i where i: "i < length es" "x = fs ! i" using \<open>x \<in> set fs\<close> fs by (auto simp: in_set_conv_nth)
      then have "length (entry_bytes (es ! i)) = FDE_SIZE" using b nth_mem by blast
      then show ?thesis using each i fde_bytes_read(4) by simp
    qed
    then show ?thesis using length_concat_const [of fs FDE_SIZE] fs by simp
  qed
  have lr: "length (concat (map fre_bytes es)) = fres_total es" by (simp add: length_concat comp_def)
  have la: "length ?A = head" using lens(1) by simp
  have ls: "length s2 = length section"
    unfolding s2 using lf lr la ne by simp
  have tot: "length (?A @ concat fs @ concat (map fre_bytes es)) = ?total"
    using la lf lr by (simp only: length_append add.assoc)
  have "take (length X) (X @ Y) = X" for X Y :: bytes by simp
  from this [of "?A @ concat fs @ concat (map fre_bytes es)" "drop (fres_total es) ?E", unfolded tot]
  have "take ?total s2 = ?A @ concat fs @ concat (map fre_bytes es)"
    unfolding s2 by (simp only: append_assoc append_Nil)
  then have "out = header_bytes h @ take (unat (output_aux_len st)) (drop 28 section) @ concat fs @ concat (map fre_bytes es)
        @ replicate (length section - ?total) 0"
    using out ls by simp
  moreover have "length out = length section"
    unfolding out using ls ne by simp
  moreover have "length (take (unat (output_aux_len st)) (drop 28 section)) = unat (output_aux_len st)"
    using ne by (simp add: head_def hs)
  ultimately show ?thesis using fs ne each
    by (intro exI [of _ "take (unat (output_aux_len st)) (drop 28 section)"] exI [of _ fs]) simp
qed


lemma nth_of_concat:
  assumes "i < length fs" and "\<And>f. f \<in> set fs \<Longrightarrow> length f = n" and "length A = p"
  shows "slice_range (p + i * n) (p + i * n + n) (A @ concat fs @ B) = Some (fs ! i)"
proof -
  have "length (concat (take i fs)) = i * n"
    using length_concat_const [of "take i fs" n] assms(1,2) by (auto dest: in_set_takeD)
  moreover have "length (fs ! i) = n" using assms(1,2) nth_mem by blast
  ultimately have "slice_range (p + i * n) (p + i * n + n) ((A @ concat (take i fs)) @ fs ! i @ concat (drop (Suc i) fs) @ B) = Some (fs ! i)"
    by (intro slice_append) (simp_all add: assms(3))
  then show ?thesis using concat_nth_split [OF assms(1)] by simp
qed

lemma drop_of_concat:
  assumes "i < length fs" and "length A = p"
  shows "drop (p + sum_list (map length (take i fs))) (A @ concat fs @ B) = (fs ! i) @ concat (drop (Suc i) fs) @ B"
proof -
  have "length (concat (take i fs)) = sum_list (map length (take i fs))" by (simp add: length_concat)
  then show ?thesis using concat_nth_split [OF assms(1)] assms(2) by simp
qed

text \<open>One function of a section of that form is read back.\<close>

lemma read_back:
  assumes out: "out = header_bytes h @ aux @ concat fs @ concat (map fre_bytes es) @ pad"
    and aux: "length aux = unat (sf_aux_len h)" and fs: "length fs = length es" and i: "i < length es"
    and lf: "\<And>f. f \<in> set fs \<Longrightarrow> length f = FDE_SIZE" and eb: "length (entry_bytes (es ! i)) = FDE_SIZE"
    and h: "unat (sf_fde_start_offset h) = 0" "unat (sf_fre_start_offset h) = length es * FDE_SIZE"
    and each: "- (2 ^ 31) \<le> start_field (sf_flags h AND FLAG_FUNC_START_PCREL \<noteq> 0) base (HEADER_SIZE + unat (sf_aux_len h) + i * FDE_SIZE) (es ! i)
         \<and> start_field (sf_flags h AND FLAG_FUNC_START_PCREL \<noteq> 0) base (HEADER_SIZE + unat (sf_aux_len h) + i * FDE_SIZE) (es ! i) < 2 ^ 31
         \<and> fs ! i = fde_bytes_of (of_int (start_field (sf_flags h AND FLAG_FUNC_START_PCREL \<noteq> 0) base (HEADER_SIZE + unat (sf_aux_len h) + i * FDE_SIZE) (es ! i)))
                     (of_nat (fres_before es i)) (entry_bytes (es ! i))"
    and fits: "fres_total es < 2 ^ 32"
  shows "\<exists>rest. sframe_function out base h i =
    Some (func_addr (es ! i), take 4 (drop 4 (entry_bytes (es ! i))) @ drop 12 (entry_bytes (es ! i)), fre_bytes (es ! i) @ rest)"
proof -
  let ?pc = "sf_flags h AND FLAG_FUNC_START_PCREL \<noteq> 0" and ?head = "HEADER_SIZE + unat (sf_aux_len h)"
  let ?v = "start_field ?pc base (?head + i * FDE_SIZE) (es ! i)"
  have head: "length (header_bytes h @ aux) = ?head" using aux by (simp add: HEADER_SIZE_def)
  have sl: "slice_range (?head + i * FDE_SIZE) (?head + i * FDE_SIZE + FDE_SIZE) ((header_bytes h @ aux) @ concat fs @ concat (map fre_bytes es) @ pad)
      = Some (fs ! i)"
    using i fs lf head by (intro nth_of_concat) simp_all
  have "fres_before es i \<le> fres_total es"
    by (metis append_take_drop_id le_add1 map_append sum_list_append)
  then have off: "unat (of_nat (fres_before es i) :: u32) = fres_before es i"
    using fits by (simp add: unat_of_nat take_bit_nat_eq_self)
  have "length (concat fs) = length es * FDE_SIZE" using length_concat_const [of fs FDE_SIZE] lf fs by simp
  then have "drop (?head + length es * FDE_SIZE + sum_list (map length (take i (map fre_bytes es))))
       (((header_bytes h @ aux) @ concat fs) @ concat (map fre_bytes es) @ pad)
      = (map fre_bytes es ! i) @ concat (drop (Suc i) (map fre_bytes es)) @ pad"
    using i head by (intro drop_of_concat) simp_all
  then have dr: "\<exists>rest. drop (?head + length es * FDE_SIZE + fres_before es i) out = fre_bytes (es ! i) @ rest"
    using i by (simp add: out take_map comp_def)
  have v: "sint (of_int ?v :: u32) = ?v" using each by (intro sint_of_int_32) simp_all
  have addr: "(if ?pc then base + int (?head + i * FDE_SIZE) + ?v else base + ?v) = func_addr (es ! i)"
    by (simp add: start_field_def)
  show ?thesis
    using dr sl each fde_bytes_read(1-3) [OF eb] v addr off
    by (auto simp: sframe_function_def Let_def h out)
qed

lemma collect_entries_empty:
  "collect_entries [] base rngs st = Some (Inr st') \<Longrightarrow> st_entries st' = st_entries st"
proof (induction rngs arbitrary: st)
  case (Cons rng rngs)
  then show ?case
    by (auto simp: sframe_range_def slice_range_def HEADER_SIZE_def split: if_split_asm Option.bind_split_asm sum.split_asm)
qed simp

text \<open>
  C38. Sorting \<^verbatim>\<open>.sframe\<close>: when the section is rewritten, it keeps its length and gets a header that says it is
  sorted; read back through that header, its functions are those of the input sections in ascending
  order of address, each with its address, its other fields and its frame rows.
\<close>

theorem sframe_sort_correct:
  assumes "sort_sframe_section section base ranges = Some (Inr (out, None))"
    and "collect_entries section (uint base) ranges sframe_start = Some (Inr st)" and "st_entries st \<noteq> []"
    and "length section < 2 ^ 32"
  shows "\<exists>h es. length out = length section
    \<and> header_parse (take HEADER_SIZE out) = Some (Inr h) \<and> sf_flags h AND FLAG_FDE_SORTED \<noteq> 0
    \<and> mset es = mset (st_entries st) \<and> sorted (map func_addr es) \<and> unat (sf_num_fdes h) = length es
    \<and> (\<forall>i \<in> {..<length es}. \<exists>rest. sframe_function out (uint base) h i =
           Some (func_addr (es ! i), take 4 (drop 4 (entry_bytes (es ! i))) @ drop 12 (entry_bytes (es ! i)), fre_bytes (es ! i) @ rest))"
proof -
  define es where "es = sort_key func_addr (st_entries st)"
  define h where "h = output_header st (length es) (fres_total es)"
  define head where "head = HEADER_SIZE + unat (output_aux_len st)"
  let ?pc = "sf_flags h AND FLAG_FUNC_START_PCREL \<noteq> 0"
  have w: "write_sorted section (uint base) st es = Some (Inr (out, None))"
    using assms(1-3) collect_entries_empty [of "uint base" ranges sframe_start st]
    by (auto simp: sort_sframe_section_def sframe_start_def Let_def es_def split: if_split_asm)
  have b: "\<forall>e \<in> set es. length (entry_bytes e) = FDE_SIZE"
    using collect_entries_bytes [OF assms(2)] by (simp add: es_def sframe_start_def)
  obtain aux fs where out: "out = header_bytes h @ aux @ concat fs @ concat (map fre_bytes es)
        @ replicate (length section - (head + length es * FDE_SIZE + fres_total es)) 0"
    and len: "length out = length section" and aux: "length aux = unat (output_aux_len st)" and fs: "length fs = length es"
    and total: "head + length es * FDE_SIZE + fres_total es \<le> length section"
    and each: "\<And>i. i < length es \<Longrightarrow> - (2 ^ 31) \<le> start_field ?pc (uint base) (head + i * FDE_SIZE) (es ! i)
         \<and> start_field ?pc (uint base) (head + i * FDE_SIZE) (es ! i) < 2 ^ 31
         \<and> fs ! i = fde_bytes_of (of_int (start_field ?pc (uint base) (head + i * FDE_SIZE) (es ! i)))
                     (of_nat (fres_before es i)) (entry_bytes (es ! i))"
    using write_sorted_form [OF w b] unfolding h_def [symmetric] head_def [symmetric] by blast
  have hs: "HEADER_SIZE = 28" "FDE_SIZE = 20" by (simp_all add: HEADER_SIZE_def FDE_SIZE_def)
  have "unat (of_nat n :: u32) = n" if "n \<le> length section" for n
    using that assms(4) by (simp add: unat_of_nat take_bit_nat_eq_self)
  then have u32: "unat (of_nat (length es) :: u32) = length es" "unat (of_nat (length es * FDE_SIZE) :: u32) = length es * FDE_SIZE"
    using total by (simp_all add: hs del: of_nat_mult)
  have h: "sf_magic h = SFRAME_MAGIC" "sf_version h = SFRAME_VERSION_2" "sf_aux_len h = output_aux_len st"
      "unat (sf_fde_start_offset h) = 0" "unat (sf_num_fdes h) = length es" "unat (sf_fre_start_offset h) = length es * FDE_SIZE"
    "sf_flags h AND FLAG_FDE_SORTED \<noteq> 0"
    using u32 by (simp_all add: h_def output_header_def FLAG_FDE_SORTED_def sorted_flag del: of_nat_mult)
  have fits: "fres_total es < 2 ^ 32" using total assms(4) by simp
  have eb: "length (entry_bytes (es ! i)) = FDE_SIZE" if "i < length es" for i using b that nth_mem by blast
  have lf: "length f = FDE_SIZE" if "f \<in> set fs" for f
  proof -
    obtain i where i: "i < length es" "f = fs ! i" using \<open>f \<in> set fs\<close> fs by (auto simp: in_set_conv_nth)
    then show ?thesis using each [OF i(1)] fde_bytes_read(4) [OF eb [OF i(1)]] by simp
  qed
  have read: "\<exists>rest. sframe_function out (uint base) h i =
           Some (func_addr (es ! i), take 4 (drop 4 (entry_bytes (es ! i))) @ drop 12 (entry_bytes (es ! i)), fre_bytes (es ! i) @ rest)"
    if i: "i < length es" for i
    by (rule read_back [OF out, folded h(3)]) (use i aux fs lf h(3,4,6) each [OF i] eb [OF i] fits in \<open>simp_all add: head_def\<close>)
  have "header_parse (take HEADER_SIZE out) = Some (Inr h)"
    using header_roundtrip [OF h(1,2)] by (simp add: out hs)
  then show ?thesis
    using len h(5,7) read by (intro exI [of _ h] exI [of _ es]) (simp add: es_def)
qed


text \<open>A section with two functions in descending order, relative to their entries.\<close>

definition sample_sframe :: bytes where
  "sample_sframe =
     [0xe2, 0xde, 2, 4, 3, 0, 0xf8, 0, 2, 0, 0, 0, 2, 0, 0, 0, 4, 0, 0, 0, 0, 0, 0, 0, 40, 0, 0, 0]
     @ [0, 3, 0, 0, 16, 0, 0, 0, 0, 0, 0, 0, 1, 0, 0, 0, 0, 0, 0, 0]
     @ [16, 0, 0, 0, 32, 0, 0, 0, 2, 0, 0, 0, 1, 0, 0, 0, 0, 0, 0, 0]
     @ [0xa1, 0xa2, 0xb1, 0xb2]"

definition sample_sorted :: bytes where
  "sample_sorted =
     [0xe2, 0xde, 2, 5, 3, 0, 0xf8, 0, 2, 0, 0, 0, 2, 0, 0, 0, 4, 0, 0, 0, 0, 0, 0, 0, 40, 0, 0, 0]
     @ [36, 0, 0, 0, 32, 0, 0, 0, 0, 0, 0, 0, 1, 0, 0, 0, 0, 0, 0, 0]
     @ [0xec, 2, 0, 0, 16, 0, 0, 0, 2, 0, 0, 0, 1, 0, 0, 0, 0, 0, 0, 0]
     @ [0xb1, 0xb2, 0xa1, 0xa2]"

lemma sample_sort: "sort_sframe_section sample_sframe 0x1000 [(0, 72)] = Some (Inr (sample_sorted, None))"
  by code_simp

definition sample_state :: sframe_state where
  "sample_state =
     \<lparr>st_entries =
        [\<lparr>entry_bytes = [0, 3, 0, 0, 16, 0, 0, 0, 0, 0, 0, 0, 1, 0, 0, 0, 0, 0, 0, 0], func_addr = 4892, fre_bytes = [0xa1, 0xa2]\<rparr>,
         \<lparr>entry_bytes = [16, 0, 0, 0, 32, 0, 0, 0, 2, 0, 0, 0, 1, 0, 0, 0, 0, 0, 0, 0], func_addr = 4160, fre_bytes = [0xb1, 0xb2]\<rparr>],
      output_flags = 4, output_abi_arch = 3, output_cfa_fixed_fp_offset = 0, output_cfa_fixed_ra_offset = 0xf8,
      output_aux_len = 0, total_num_fres = 2, first_section = False\<rparr>"

lemma sample_collect: "collect_entries sample_sframe (uint (0x1000 :: u64)) [(0, 72)] sframe_start = Some (Inr sample_state)"
  by code_simp

theorem sframe_sort_correct_witness:
  "\<exists>h es. header_parse (take HEADER_SIZE sample_sorted) = Some (Inr h) \<and> mset es = mset (st_entries sample_state)
     \<and> sorted (map func_addr es) \<and> unat (sf_num_fdes h) = length es"
proof -
  have "st_entries sample_state \<noteq> []" "length sample_sframe < 2 ^ 32"
    by (simp_all add: sample_state_def sample_sframe_def)
  from sframe_sort_correct [OF sample_sort sample_collect this] show ?thesis by blast
qed

end
