(* ===== verification/Thunk_Assign.thy ===== *)
theory Thunk_Assign
  imports Std_Num
begin

text \<open>
  \<^verbatim>\<open>assign_thunk_blocks\<close> of \<^verbatim>\<open>libsld/src/thunks.rs\<close>: which block of thunks each object uses, and which object holds it.
  The state machine is in \<^emph>\<open>previous\<close> mode without a pending block, and in \<^emph>\<open>next\<close> mode with one. The calls of the callback
  are a list; the last call for an object counts. The proofs describe a finished prefix of the objects by the predicate \<open>complete\<close>.
\<close>

subsection \<open>The state machine\<close>

definition THUNK_BLOCK_FIRST :: u32 where "THUNK_BLOCK_FIRST = 0"

record 'f thunk_state =
  num_blocks :: nat
  prev_block_id :: u32
  prev_block_pos :: u64
  pending_next :: "(u32 \<times> 'f \<times> u64) option"
  thunk_calls :: "('f \<times> u32 \<times> bool) list"

fun assign_thunk_step :: "u64 \<Rightarrow> 'f \<times> u64 \<times> u64 \<Rightarrow> 'f thunk_state \<Rightarrow> 'f thunk_state" where
  "assign_thunk_step max_branch_range (file_id, start, end) st =
     (case pending_next st of
        Some (next_id, first_file_id, first_object_start) \<Rightarrow>
          if max_branch_range \<le> end - first_object_start then
            st\<lparr>thunk_calls := thunk_calls st @ [(first_file_id, next_id, False), (file_id, next_id, True)],
               prev_block_id := next_id, prev_block_pos := end, pending_next := None\<rparr>
          else st\<lparr>thunk_calls := thunk_calls st @ [(file_id, next_id, False)]\<rparr>
      | None \<Rightarrow>
          if max_branch_range \<le> end - prev_block_pos st then
            st\<lparr>num_blocks := num_blocks st + 1, pending_next := Some (of_nat (num_blocks st), file_id, start)\<rparr>
          else st\<lparr>thunk_calls := thunk_calls st @ [(file_id, prev_block_id st, False)]\<rparr>)"

text \<open>The number of blocks and the calls.\<close>

definition assign_thunk_blocks :: "u64 \<Rightarrow> ('f \<times> u64 \<times> u64) list \<Rightarrow> nat \<times> ('f \<times> u32 \<times> bool) list" where
  "assign_thunk_blocks max_branch_range objects =
     (case objects of
        [] \<Rightarrow> (0, [])
      | (first_file_id, _, first_end) # rest \<Rightarrow>
          let st = fold (assign_thunk_step max_branch_range) rest
            \<lparr>num_blocks = 1, prev_block_id = THUNK_BLOCK_FIRST, prev_block_pos = first_end, pending_next = None,
             thunk_calls = [(first_file_id, THUNK_BLOCK_FIRST, True)]\<rparr>
          in (num_blocks st, thunk_calls st @ (case pending_next st of None \<Rightarrow> [] | Some (next_id, first, _) \<Rightarrow> [(first, next_id, True)])))"

text \<open>What the calls leave: the block of an object, and whether it owns it.\<close>

definition assigned :: "('f \<times> u32 \<times> bool) list \<Rightarrow> 'f \<rightharpoonup> u32 \<times> bool" where
  "assigned calls = fold (\<lambda>(f, b, own) a. a(f \<mapsto> (b, own))) calls Map.empty"

lemma assigned_append [simp]:
  "assigned [] = Map.empty" "assigned (calls @ [(f, b, own)]) = (assigned calls)(f \<mapsto> (b, own))"
  "assigned (calls @ [(f, b, own), (f', b', own')]) = (assigned calls)(f \<mapsto> (b, own), f' \<mapsto> (b', own'))"
  "assigned [(f, b, own)] = [f \<mapsto> (b, own)]"
  by (simp_all add: assigned_def)

subsection \<open>Finished prefixes\<close>

text \<open>Object \<open>i\<close> uses the block at the end of object \<open>j\<close>.\<close>

definition in_thunk_range :: "u64 \<Rightarrow> ('f \<times> u64 \<times> u64) list \<Rightarrow> nat \<Rightarrow> nat \<Rightarrow> bool" where
  "in_thunk_range m xs i j \<longleftrightarrow> (if j \<le> i then i = j \<or> snd (snd (xs ! i)) - snd (snd (xs ! j)) < m
     else i = j - 1 \<or> snd (snd (xs ! (j - 1))) - fst (snd (xs ! i)) < m)"

definition complete :: "u64 \<Rightarrow> ('f \<times> u64 \<times> u64) list \<Rightarrow> nat \<Rightarrow> nat \<Rightarrow> ('f \<rightharpoonup> u32 \<times> bool) \<Rightarrow> bool" where
  "complete m xs k n a \<longleftrightarrow>
     (\<forall>i < k. \<exists>b own. a (fst (xs ! i)) = Some (b, own) \<and> unat b < n)
     \<and> (\<forall>b < n. \<exists>!j. j < k \<and> a (fst (xs ! j)) = Some (of_nat b, True))
     \<and> (\<forall>i < k. \<forall>j < k. \<forall>b own. a (fst (xs ! i)) = Some (b, own) \<longrightarrow> a (fst (xs ! j)) = Some (b, True) \<longrightarrow> in_thunk_range m xs i j)"

lemma complete_cong: "complete m xs k n a \<Longrightarrow> (\<And>i. i < k \<Longrightarrow> a' (fst (xs ! i)) = a (fst (xs ! i))) \<Longrightarrow> complete m xs k n a'"
  unfolding complete_def by (simp cong: conj_cong)

lemma complete_owner:
  assumes "complete m xs k n a" and "b < n"
  shows "\<exists>j < k. a (fst (xs ! j)) = Some (of_nat b, True) \<and> (\<forall>i < k. a (fst (xs ! i)) = Some (of_nat b, True) \<longrightarrow> j = i)"
proof -
  have "\<exists>!j. j < k \<and> a (fst (xs ! j)) = Some (of_nat b, True)" using assms by (simp add: complete_def)
  then obtain j where j: "j < k \<and> a (fst (xs ! j)) = Some (of_nat b, True)"
      "\<forall>i. i < k \<and> a (fst (xs ! i)) = Some (of_nat b, True) \<longrightarrow> i = j" by (elim ex1E)
  show ?thesis
  proof (intro exI [of _ j] conjI allI impI)
    fix i assume "i < k" "a (fst (xs ! i)) = Some (of_nat b, True)"
    then show "j = i" using j(2) by (metis (no_types))
  qed (rule j(1) [THEN conjunct1], rule j(1) [THEN conjunct2])
qed

text \<open>One more object that uses a finished block.\<close>

lemma complete_extend:
  assumes c: "complete m xs k n a" and w: "w < k" "a (fst (xs ! w)) = Some (b, True)" "unat b < n"
    and r: "snd (snd (xs ! k)) - snd (snd (xs ! w)) < m" and fresh: "\<And>i. i < k \<Longrightarrow> fst (xs ! i) \<noteq> fst (xs ! k)"
  shows "complete m xs (Suc k) n (a(fst (xs ! k) \<mapsto> (b, False)))"
proof -
  let ?a = "a(fst (xs ! k) \<mapsto> (b, False))"
  have old: "?a (fst (xs ! i)) = a (fst (xs ! i))" if "i < k" for i using fresh [OF that] by simp
  have unique: "j = w" if "j < k" "a (fst (xs ! j)) = Some (b, True)" for j
  proof -
    have "\<exists>!j. j < k \<and> a (fst (xs ! j)) = Some (of_nat (unat b), True)" using c w(3) unfolding complete_def by blast
    then show ?thesis using w that by auto
  qed
  have "\<exists>b own. ?a (fst (xs ! i)) = Some (b, own) \<and> unat b < n" if "i < Suc k" for i
    using c w(3) that old unfolding complete_def by (cases "i = k") auto
  moreover have "\<exists>!j. j < Suc k \<and> ?a (fst (xs ! j)) = Some (of_nat b', True)" if bn: "b' < n" for b'
  proof -
    obtain j where "j < k \<and> a (fst (xs ! j)) = Some (of_nat b', True) \<and> (\<forall>i < k. a (fst (xs ! i)) = Some (of_nat b', True) \<longrightarrow> j = i)"
      using complete_owner [OF c bn] by (elim exE)
    then have j: "j < k" "a (fst (xs ! j)) = Some (of_nat b', True)" "\<forall>i < k. a (fst (xs ! i)) = Some (of_nat b', True) \<longrightarrow> j = i" by simp_all
    have ij: "i = j" if "i < Suc k \<and> ?a (fst (xs ! i)) = Some (of_nat b', True)" for i
      using that j(3) old [of i] by (cases "i = k") (auto simp: less_Suc_eq)
    have "j < Suc k \<and> ?a (fst (xs ! j)) = Some (of_nat b', True)" using j(1,2) old [of j] by simp
    then show ?thesis by (rule ex1I) (rule ij)
  qed
  moreover have "in_thunk_range m xs i j" if "i < Suc k" "j < Suc k" "?a (fst (xs ! i)) = Some (b', own)" "?a (fst (xs ! j)) = Some (b', True)" for i j b' own
  proof (cases "i = k")
    case True
    then show ?thesis using that r unique [of j] old [of j] w(1) by (auto simp: less_Suc_eq in_thunk_range_def)
  next
    case False
    then have "i < k" using that(1) by simp
    moreover have "j < k" using that(2,4) by (cases "j = k") (auto simp: less_Suc_eq)
    ultimately show ?thesis using that(3,4) c old [of i] old [of j] unfolding complete_def by metis
  qed
  ultimately show ?thesis unfolding complete_def by blast
qed

text \<open>A new block, used by the objects from \<open>p\<close> to before \<open>q\<close> and owned by one of them.\<close>

lemma complete_new_block:
  assumes c: "complete m xs p n a" and n: "n < 2 ^ 32" and w: "p \<le> w" "w < q"
    and new: "\<And>i. p \<le> i \<Longrightarrow> i < q \<Longrightarrow> a' (fst (xs ! i)) = Some (of_nat n, i = w)"
    and old: "\<And>i. i < p \<Longrightarrow> a' (fst (xs ! i)) = a (fst (xs ! i))"
    and r: "\<And>i. p \<le> i \<Longrightarrow> i < q \<Longrightarrow> in_thunk_range m xs i w"
  shows "complete m xs q (Suc n) a'"
proof -
  have id: "unat (of_nat n :: u32) = n" using n by (simp add: unat_of_nat take_bit_nat_eq_self)
  have small: "unat b < n \<and> b \<noteq> of_nat n" if "a' (fst (xs ! i)) = Some (b, own)" "i < p" for i b own
  proof -
    have "unat b < n" using c that old [OF that(2)] unfolding complete_def by fastforce
    then show ?thesis using id by auto
  qed
  have "\<exists>b own. a' (fst (xs ! i)) = Some (b, own) \<and> unat b < Suc n" if "i < q" for i
    using c new [of i] old [of i] that id unfolding complete_def by (cases "i < p") (auto intro: less_SucI)
  moreover have "\<exists>!j. j < q \<and> a' (fst (xs ! j)) = Some (of_nat b', True)" if b': "b' < Suc n" for b'
  proof (cases "b' = n")
    case True
    have ij: "j = w" if "j < q \<and> a' (fst (xs ! j)) = Some (of_nat b', True)" for j
      using small [of j "of_nat b'" True] new [of j] that True by (cases "j < p") simp_all
    have "w < q \<and> a' (fst (xs ! w)) = Some (of_nat b', True)" using new [of w] w True by simp
    then show ?thesis by (rule ex1I) (rule ij)
  next
    case False
    then have "b' < n" using b' by simp
    obtain j where "j < p \<and> a (fst (xs ! j)) = Some (of_nat b', True) \<and> (\<forall>i < p. a (fst (xs ! i)) = Some (of_nat b', True) \<longrightarrow> j = i)"
      using complete_owner [OF c \<open>b' < n\<close>] by (elim exE)
    then have j: "j < p" "a (fst (xs ! j)) = Some (of_nat b', True)" "\<forall>i < p. a (fst (xs ! i)) = Some (of_nat b', True) \<longrightarrow> j = i" by simp_all
    have "(of_nat b' :: u32) \<noteq> of_nat n"
      using small [of j "of_nat b'" True] j(1,2) old [of j] by auto
    then have ij: "i = j" if "i < q \<and> a' (fst (xs ! i)) = Some (of_nat b', True)" for i
      using j(3) old [of i] new [of i] that by (cases "i < p") auto
    have "j < q \<and> a' (fst (xs ! j)) = Some (of_nat b', True)" using j(1,2) old [of j] w by simp
    then show ?thesis by (rule ex1I) (rule ij)
  qed
  moreover have "in_thunk_range m xs i j" if "i < q" "j < q" "a' (fst (xs ! i)) = Some (b', own)" "a' (fst (xs ! j)) = Some (b', True)" for i j b' own
  proof (cases "j < p")
    case True
    then have "i < p" using small [OF that(4)] new [of i] that by (cases "i < p") auto
    then show ?thesis using True that c old unfolding complete_def by auto
  next
    case False
    then have "j = w" "b' = of_nat n" using new [of j] that by auto
    moreover have "\<not> i < p" using small [OF that(3)] \<open>b' = of_nat n\<close> by auto
    ultimately show ?thesis using r [of i] that by auto
  qed
  ultimately show ?thesis unfolding complete_def by blast
qed

subsection \<open>The invariant of the state machine\<close>

text \<open>Objects in order of increasing address.\<close>

definition ascending :: "('f \<times> u64 \<times> u64) list \<Rightarrow> bool" where
  "ascending xs \<longleftrightarrow> (\<forall>i < length xs. fst (snd (xs ! i)) \<le> snd (snd (xs ! i)))
     \<and> (\<forall>j < length xs. \<forall>i < j. snd (snd (xs ! i)) \<le> fst (snd (xs ! j)))"

lemma ascending_le:
  assumes "ascending xs" "i \<le> j" "j < length xs"
  shows "fst (snd (xs ! i)) \<le> fst (snd (xs ! j))" "snd (snd (xs ! i)) \<le> snd (snd (xs ! j))" "fst (snd (xs ! i)) \<le> snd (snd (xs ! j))"
proof -
  have "snd (snd (xs ! i)) \<le> fst (snd (xs ! j))" if "i < j" using assms that by (simp add: ascending_def)
  moreover have "fst (snd (xs ! i)) \<le> snd (snd (xs ! i))" "fst (snd (xs ! j)) \<le> snd (snd (xs ! j))" using assms by (simp_all add: ascending_def)
  ultimately show "fst (snd (xs ! i)) \<le> fst (snd (xs ! j))" "snd (snd (xs ! i)) \<le> snd (snd (xs ! j))" "fst (snd (xs ! i)) \<le> snd (snd (xs ! j))"
    using assms(2) by (cases "i = j"; force)+
qed

lemma diff_antimono: "a \<le> b \<Longrightarrow> b \<le> c \<Longrightarrow> c - b \<le> c - (a :: u64)"
  by (simp add: word_le_nat_alt unat_sub)

definition thunk_inv :: "u64 \<Rightarrow> ('f \<times> u64 \<times> u64) list \<Rightarrow> nat \<Rightarrow> 'f thunk_state \<Rightarrow> bool" where
  "thunk_inv m xs k st \<longleftrightarrow> num_blocks st \<le> k \<and>
     (case pending_next st of
        None \<Rightarrow> complete m xs k (num_blocks st) (assigned (thunk_calls st)) \<and> unat (prev_block_id st) < num_blocks st
          \<and> (\<exists>w < k. assigned (thunk_calls st) (fst (xs ! w)) = Some (prev_block_id st, True) \<and> snd (snd (xs ! w)) = prev_block_pos st)
      | Some (next_id, f, s) \<Rightarrow> 0 < num_blocks st \<and> next_id = of_nat (num_blocks st - 1) \<and>
          (\<exists>p < k. f = fst (xs ! p) \<and> s = fst (snd (xs ! p)) \<and> complete m xs p (num_blocks st - 1) (assigned (thunk_calls st))
            \<and> (\<forall>i. p < i \<longrightarrow> i < k \<longrightarrow> assigned (thunk_calls st) (fst (xs ! i)) = Some (next_id, False) \<and> snd (snd (xs ! i)) - s < m)))"

lemma thunk_step_inv:
  assumes inv: "thunk_inv m xs k st" and k: "k < length xs" and d: "distinct (map fst xs)" and asc: "ascending xs" and len: "length xs < 2 ^ 32"
  shows "thunk_inv m xs (Suc k) (assign_thunk_step m (xs ! k) st)"
proof -
  obtain f s e where xk: "xs ! k = (f, s, e)" using prod_cases3 by blast
  have fresh: "fst (xs ! i) \<noteq> f" if "i < k" for i
    using d k that xk nth_eq_iff_index_eq [OF d, of i k] by auto
  have num: "num_blocks st \<le> k" using inv by (simp add: thunk_inv_def)
  show ?thesis
  proof (cases "pending_next st")
    case None
    then have c: "complete m xs k (num_blocks st) (assigned (thunk_calls st))" "unat (prev_block_id st) < num_blocks st"
      using inv by (simp_all add: thunk_inv_def)
    obtain w where w: "w < k" "assigned (thunk_calls st) (fst (xs ! w)) = Some (prev_block_id st, True)" "snd (snd (xs ! w)) = prev_block_pos st"
      using inv None by (auto simp: thunk_inv_def)
    show ?thesis
    proof (cases "m \<le> e - prev_block_pos st")
      case True
      then show ?thesis using None c num xk by (auto simp: thunk_inv_def intro!: exI [of _ k])
    next
      case False
      have "complete m xs (Suc k) (num_blocks st) ((assigned (thunk_calls st))(fst (xs ! k) \<mapsto> (prev_block_id st, False)))"
        by (rule complete_extend [OF c(1) w(1,2) c(2)]) (use False w(3) fresh xk in auto)
      moreover have "w < Suc k" "((assigned (thunk_calls st))(f \<mapsto> (prev_block_id st, False))) (fst (xs ! w)) = Some (prev_block_id st, True)"
        using w fresh [OF w(1)] by simp_all
      ultimately show ?thesis using None False c(2) num xk w(3) by (auto simp: thunk_inv_def intro!: exI [of _ w] split: if_splits)
    qed
  next
    case (Some pn)
    then obtain next_id first fs where pn: "pending_next st = Some (next_id, first, fs)" by (cases pn) auto
    then obtain p where n: "0 < num_blocks st" "next_id = of_nat (num_blocks st - 1)"
      and p: "p < k" "first = fst (xs ! p)" "fs = fst (snd (xs ! p))" "complete m xs p (num_blocks st - 1) (assigned (thunk_calls st))"
      and grp: "\<And>i. p < i \<Longrightarrow> i < k \<Longrightarrow> assigned (thunk_calls st) (fst (xs ! i)) = Some (next_id, False) \<and> snd (snd (xs ! i)) - fs < m"
      using inv by (auto simp: thunk_inv_def)
    show ?thesis
    proof (cases "m \<le> e - fs")
      case True
      let ?a = "(assigned (thunk_calls st))(first \<mapsto> (next_id, False), f \<mapsto> (next_id, True))"
      have other: "fst (xs ! i) \<noteq> first" if "i \<noteq> p" "i \<le> k" for i
        using that p(1,2) k nth_eq_iff_index_eq [OF d, of i p] by auto
      have "complete m xs (Suc k) (Suc (num_blocks st - 1)) ?a"
      proof (rule complete_new_block [OF p(4), where w = k])
        show "?a (fst (xs ! i)) = Some (of_nat (num_blocks st - 1), i = k)" if "p \<le> i" "i < Suc k" for i
          using that grp [of i] fresh [of i] other [of i] xk p(1,2) n(2) by (cases "i = k"; cases "i = p") auto
        show "?a (fst (xs ! i)) = assigned (thunk_calls st) (fst (xs ! i))" if "i < p" for i
          using that fresh [of i] other [of i] p(1) by simp
        show "in_thunk_range m xs i k" if "p \<le> i" "i < Suc k" for i
        proof (cases "i < k - 1")
          case True
          have "snd (snd (xs ! (k - 1))) - fst (snd (xs ! i)) \<le> snd (snd (xs ! (k - 1))) - fs"
            unfolding p(3) by (rule diff_antimono) (use ascending_le [OF asc] True that k in auto)
          also have "\<dots> < m" using grp [of "k - 1"] True that by auto
          finally show ?thesis using that by (simp add: in_thunk_range_def)
        qed (use that in \<open>auto simp: in_thunk_range_def\<close>)
      qed (use num k len p(1) in auto)
      then have "complete m xs (Suc k) (num_blocks st) ?a" using n(1) by simp
      moreover have "unat next_id < num_blocks st"
        using n num k len unat_of_nat [of "num_blocks st - 1", where 'a = 32] by (simp add: take_bit_nat_eq_self)
      moreover have "snd (snd (xs ! k)) = e" "fst (xs ! k) = f" using xk by simp_all
      moreover have "assign_thunk_step m (xs ! k) st = st\<lparr>thunk_calls := thunk_calls st @ [(first, next_id, False), (f, next_id, True)],
          prev_block_id := next_id, prev_block_pos := e, pending_next := None\<rparr>"
        unfolding xk using pn True by simp
      ultimately show ?thesis using num by (auto simp: thunk_inv_def intro!: exI [of _ k])
    next
      case False
      let ?a = "(assigned (thunk_calls st))(f \<mapsto> (next_id, False))"
      have "complete m xs p (num_blocks st - 1) ?a"
        by (rule complete_cong [OF p(4)]) (use fresh p(1) in auto)
      moreover have "\<forall>i. p < i \<longrightarrow> i < Suc k \<longrightarrow> ?a (fst (xs ! i)) = Some (next_id, False) \<and> snd (snd (xs ! i)) - fs < m"
      proof (intro allI impI)
        fix i assume "p < i" "i < Suc k"
        then show "?a (fst (xs ! i)) = Some (next_id, False) \<and> snd (snd (xs ! i)) - fs < m"
          using grp [of i] False xk fresh [of i] by (cases "i = k") auto
      qed
      ultimately have group: "\<exists>p < Suc k. first = fst (xs ! p) \<and> fs = fst (snd (xs ! p)) \<and> complete m xs p (num_blocks st - 1) ?a
          \<and> (\<forall>i. p < i \<longrightarrow> i < Suc k \<longrightarrow> ?a (fst (xs ! i)) = Some (next_id, False) \<and> snd (snd (xs ! i)) - fs < m)"
        using p(1-3) less_Suc_eq by blast
      have "assign_thunk_step m (xs ! k) st = st\<lparr>thunk_calls := thunk_calls st @ [(f, next_id, False)]\<rparr>"
        unfolding xk using pn False by simp
      then show ?thesis using group num pn n by (simp only: thunk_inv_def thunk_state.simps option.case prod.case assigned_append simp_thms) simp
    qed
  qed
qed

lemma thunk_fold_inv:
  assumes "thunk_inv m xs k st" and "k \<le> n" "n \<le> length xs" and d: "distinct (map fst xs)" and asc: "ascending xs" and len: "length xs < 2 ^ 32"
  shows "thunk_inv m xs n (fold (assign_thunk_step m) (take (n - k) (drop k xs)) st)"
  using assms(1-3)
proof (induction "n - k" arbitrary: k st)
  case (Suc l)
  then have k: "k < length xs" "n - k = Suc (n - Suc k)" by linarith+
  then have "take (n - k) (drop k xs) = xs ! k # take (n - Suc k) (drop (Suc k) xs)"
    by (simp add: Cons_nth_drop_Suc [symmetric])
  then show ?case
    using Suc.hyps(1) [of "Suc k" "assign_thunk_step m (xs ! k) st"] thunk_step_inv [OF Suc.prems(1) k(1) d asc len] Suc.hyps(2) Suc.prems by simp
qed simp

lemma assign_thunk_blocks_complete:
  assumes "assign_thunk_blocks m xs = (n, calls)" and d: "distinct (map fst xs)" and asc: "ascending xs" and len: "length xs < 2 ^ 32"
  shows "complete m xs (length xs) n (assigned calls) \<and> n \<le> length xs \<and> (xs \<noteq> [] \<longrightarrow> 0 < n)"
proof (cases xs)
  case Nil
  then show ?thesis using assms(1) by (auto simp: assign_thunk_blocks_def complete_def)
next
  case (Cons x rest)
  obtain f s e where x: "x = (f, s, e)" using prod_cases3 by blast
  let ?st0 = "\<lparr>num_blocks = 1, prev_block_id = THUNK_BLOCK_FIRST, prev_block_pos = e, pending_next = None, thunk_calls = [(f, THUNK_BLOCK_FIRST, True)]\<rparr>"
  have "complete m xs (Suc 0) 1 [f \<mapsto> (THUNK_BLOCK_FIRST, True)]"
    unfolding complete_def
  proof (intro conjI allI impI)
    fix b :: nat assume "b < 1"
    then show "\<exists>!j. j < Suc 0 \<and> [f \<mapsto> (THUNK_BLOCK_FIRST, True)] (fst (xs ! j)) = Some (of_nat b, True)"
      by (intro ex1I [of _ 0]) (simp_all add: Cons x THUNK_BLOCK_FIRST_def)
  qed (auto simp: Cons x THUNK_BLOCK_FIRST_def in_thunk_range_def)
  then have "thunk_inv m xs (Suc 0) ?st0"
    by (simp add: thunk_inv_def Cons x THUNK_BLOCK_FIRST_def)
  from thunk_fold_inv [OF this _ _ d asc len, of "length xs"]
  have inv: "thunk_inv m xs (length xs) (fold (assign_thunk_step m) rest ?st0)" by (simp add: Cons)
  define st where "st = fold (assign_thunk_step m) rest ?st0"
  have res: "n = num_blocks st" "calls = thunk_calls st @ (case pending_next st of None \<Rightarrow> [] | Some (next_id, first, _) \<Rightarrow> [(first, next_id, True)])"
    using assms(1) by (simp_all add: assign_thunk_blocks_def Cons x Let_def st_def)
  have num: "num_blocks st \<le> length xs" using inv by (simp add: thunk_inv_def st_def)
  show ?thesis
  proof (cases "pending_next st")
    case None
    then show ?thesis using inv res num by (auto simp: thunk_inv_def st_def)
  next
    case (Some pn)
    then obtain next_id first fs where pn: "pending_next st = Some (next_id, first, fs)" by (cases pn) auto
    then obtain p where np: "0 < num_blocks st" "next_id = of_nat (num_blocks st - 1)"
      and p: "p < length xs" "first = fst (xs ! p)" "fs = fst (snd (xs ! p))" "complete m xs p (num_blocks st - 1) (assigned (thunk_calls st))"
      and grp: "\<And>i. p < i \<Longrightarrow> i < length xs \<Longrightarrow> assigned (thunk_calls st) (fst (xs ! i)) = Some (next_id, False) \<and> snd (snd (xs ! i)) - fs < m"
      using inv by (auto simp: thunk_inv_def st_def)
    have other: "fst (xs ! i) \<noteq> first" if "i \<noteq> p" "i < length xs" for i
      using that p(1,2) nth_eq_iff_index_eq [OF d, of i p] by auto
    have "complete m xs (length xs) (Suc (num_blocks st - 1)) ((assigned (thunk_calls st))(first \<mapsto> (next_id, True)))"
    proof (rule complete_new_block [OF p(4), where w = p])
      show "((assigned (thunk_calls st))(first \<mapsto> (next_id, True))) (fst (xs ! i)) = Some (of_nat (num_blocks st - 1), i = p)" if "p \<le> i" "i < length xs" for i
        using that grp [of i] other [of i] p(2) np(2) by (cases "i = p") auto
      show "((assigned (thunk_calls st))(first \<mapsto> (next_id, True))) (fst (xs ! i)) = assigned (thunk_calls st) (fst (xs ! i))" if "i < p" for i
        using that other [of i] p(1) by simp
      show "in_thunk_range m xs i p" if "p \<le> i" "i < length xs" for i
      proof (cases "i = p")
        case False
        have "snd (snd (xs ! i)) - snd (snd (xs ! p)) \<le> snd (snd (xs ! i)) - fs"
          unfolding p(3) by (rule diff_antimono) (use ascending_le [OF asc] that p(1) in auto)
        also have "\<dots> < m" using grp [of i] False that by simp
        finally show ?thesis using that by (simp add: in_thunk_range_def)
      qed (simp add: in_thunk_range_def)
    qed (use num len p(1) np(1) in auto)
    then show ?thesis using res pn np(1) num by simp
  qed
qed

end
