(* ===== verification/Thunks.thy ===== *)
theory Thunks
  imports Thunk_Assign Value_Flags Elf_Platform
begin

unbundle bit_operations_syntax

text \<open>
  Range-extension thunks: \<^verbatim>\<open>libsld/src/thunks.rs\<close>, with the parts of \<^verbatim>\<open>libsld/src/layout.rs\<close> that give thunks their
  space and addresses and \<^verbatim>\<open>maybe_get_thunk_for_relocation\<close> of \<^verbatim>\<open>libsld/src/elf_writer.rs\<close>. The files of all groups are
  one list in the order of the groups, each with its \<^verbatim>\<open>FileId\<close> (group and index), by which the code indexes the nested vectors.
  A hash set of symbols is a list without duplicates: \<^verbatim>\<open>ThunkBlockBuilder::build\<close> sorts it.
\<close>

type_synonym file_id = "nat \<times> nat"
type_synonym symbol_id = u32

record thunk_object =
  post_gc_primary_bytes :: u64
  object_symbols :: "symbol_id list"
  loaded_parts :: "part_id list"
  thunk_block_id :: u32
  owns_thunk_block :: bool
  extra_thunk_block_ids :: "u32 list"

datatype layout_file = LayoutObject thunk_object | LayoutOther

type_synonym group_states = "(file_id \<times> layout_file) list"
type_synonym primary_ranges = "(file_id \<times> (u64 \<times> u64) option) list"

record thunk_builder =
  block_part :: part_id
  block_objects :: "file_id list"
  block_symbols :: "symbol_id list"

text \<open>What the decisions read: the symbol database, the flags of the symbols, and offset and size of each part in a layout without thunks.\<close>

record thunk_env =
  branch_range :: u64
  primary_part :: part_id
  definition_of :: "symbol_id \<Rightarrow> symbol_id"
  symbol_flags :: "symbol_id \<Rightarrow> value_flags"
  part_of_symbol :: "symbol_id \<Rightarrow> part_id"
  file_of_symbol :: "symbol_id \<Rightarrow> file_id"
  part_extent :: "part_id \<Rightarrow> u64 \<times> u64"

definition MAXIMUM_THUNK_BYTES_PER_BLOCK :: u64 where "MAXIMUM_THUNK_BYTES_PER_BLOCK = 2 * 1024 * 1024"
definition MIN_BRANCH_RANGE :: u64 where "MIN_BRANCH_RANGE = 128 * 1024 * 1024"

text \<open>The branch range of the builder, if thunks may be needed.\<close>

definition thunk_builder_range :: "u64 \<Rightarrow> bool \<Rightarrow> u64 list \<Rightarrow> u64 option" where
  "thunk_builder_range min_branch_range force_conservative_thunks executable_bytes =
     (if sum_list executable_bytes < min_branch_range \<and> \<not> force_conservative_thunks then None
      else Some (min_branch_range - MAXIMUM_THUNK_BYTES_PER_BLOCK))"

subsection \<open>Ranges of the objects\<close>

fun collect_primary_ranges :: "group_states \<Rightarrow> u64 \<Rightarrow> primary_ranges" where
  "collect_primary_ranges [] offset = []"
| "collect_primary_ranges ((fid, LayoutObject obj) # files) offset =
     (fid, Some (offset, offset + post_gc_primary_bytes obj)) # collect_primary_ranges files (offset + post_gc_primary_bytes obj)"
| "collect_primary_ranges ((fid, LayoutOther) # files) offset = (fid, None) # collect_primary_ranges files offset"

text \<open>\<^verbatim>\<open>primary_ranges[group][file]\<close>; a file that is not there, which the code would panic on, has no range.\<close>

definition range_of_file :: "primary_ranges \<Rightarrow> file_id \<Rightarrow> (u64 \<times> u64) option" where
  "range_of_file ranges fid = (case map_of ranges fid of None \<Rightarrow> None | Some r \<Rightarrow> r)"

definition post_gc_bounds :: "group_states \<Rightarrow> primary_ranges \<Rightarrow> (file_id \<times> u64 \<times> u64) list" where
  "post_gc_bounds files ranges = List.map_filter (\<lambda>(fid, file).
     case file of
       LayoutOther \<Rightarrow> None
     | LayoutObject obj \<Rightarrow>
         (case range_of_file ranges fid of
            None \<Rightarrow> None
          | Some (s, e) \<Rightarrow> if s < e then Some (fid, s, e) else None)) files"

subsection \<open>Blocks\<close>

definition update_object :: "file_id \<Rightarrow> (thunk_object \<Rightarrow> thunk_object) \<Rightarrow> group_states \<Rightarrow> group_states" where
  "update_object fid f files = map (\<lambda>(fid', file).
     (fid', case file of LayoutObject obj \<Rightarrow> LayoutObject (if fid' = fid then f obj else obj) | LayoutOther \<Rightarrow> LayoutOther)) files"

definition apply_thunk_call :: "file_id \<times> u32 \<times> bool \<Rightarrow> group_states \<Rightarrow> group_states" where
  "apply_thunk_call call files = (case call of (fid, bid, is_owner) \<Rightarrow>
     update_object fid (\<lambda>obj. obj\<lparr>thunk_block_id := bid, owns_thunk_block := is_owner\<rparr>) files)"

definition primary_objects_of_block :: "group_states \<Rightarrow> nat \<Rightarrow> file_id list" where
  "primary_objects_of_block files b = List.map_filter (\<lambda>(fid, file).
     case file of
       LayoutObject obj \<Rightarrow> if 0 < post_gc_primary_bytes obj \<and> unat (thunk_block_id obj) = b then Some fid else None
     | LayoutOther \<Rightarrow> None) files"

definition assign_thunk_blocks_to_groups ::
    "group_states \<Rightarrow> primary_ranges \<Rightarrow> u64 \<Rightarrow> part_id \<Rightarrow> group_states \<times> thunk_builder list" where
  "assign_thunk_blocks_to_groups files ranges max_branch_range primary =
     (let (n, cs) = assign_thunk_blocks max_branch_range (post_gc_bounds files ranges);
          files = fold apply_thunk_call cs files
      in (files, map (\<lambda>b. \<lparr>block_part = primary, block_objects = primary_objects_of_block files b, block_symbols = []\<rparr>) [0..<max n 1]))"

subsection \<open>Which symbols need a thunk\<close>

definition part_extent_range :: "thunk_env \<Rightarrow> part_id \<Rightarrow> (u64 \<times> u64) option" where
  "part_extent_range env p = (let (offset, sz) = part_extent env p in if 0 < sz then Some (offset, offset + sz) else None)"

definition primary_range_for_symbol :: "thunk_env \<Rightarrow> primary_ranges \<Rightarrow> symbol_id \<Rightarrow> (u64 \<times> u64) option" where
  "primary_range_for_symbol env ranges definition_id =
     (let flags = symbol_flags env definition_id in
      if vf_contains flags IFUNC \<or> vf_contains flags DYNAMIC_VALUE \<or> part_of_symbol env definition_id \<noteq> primary_part env then None
      else range_of_file ranges (file_of_symbol env definition_id))"

definition target_range_for_symbol :: "thunk_env \<Rightarrow> primary_ranges \<Rightarrow> symbol_id \<Rightarrow> (u64 \<times> u64) option" where
  "target_range_for_symbol env ranges definition_id =
     (let flags = symbol_flags env definition_id in
      if needs_plt flags \<or> is_ifunc flags then part_extent_range env PLT_GOT
      else if vf_contains flags DYNAMIC_VALUE then None
      else let p = part_of_symbol env definition_id in
        if p = primary_part env then primary_range_for_symbol env ranges definition_id else part_extent_range env p)"

definition saturating_sub :: "u64 \<Rightarrow> u64 \<Rightarrow> u64" where
  "saturating_sub a b = (if a < b then 0 else a - b)"

definition range_span :: "u64 \<times> u64 \<Rightarrow> u64 \<times> u64 \<Rightarrow> u64" where
  "range_span src def = saturating_sub (max (snd src) (snd def)) (min (fst src) (fst def))"

definition provably_in_range :: "thunk_env \<Rightarrow> primary_ranges \<Rightarrow> u64 \<times> u64 \<Rightarrow> symbol_id \<Rightarrow> bool" where
  "provably_in_range env ranges src definition_id =
     (case target_range_for_symbol env ranges definition_id of
        None \<Rightarrow> False
      | Some def \<Rightarrow> range_span src def < branch_range env)"

definition object_thunk_symbols :: "thunk_env \<Rightarrow> primary_ranges \<Rightarrow> group_states \<Rightarrow> file_id \<Rightarrow> symbol_id list" where
  "object_thunk_symbols env ranges files fid =
     (case map_of files fid of
        Some (LayoutObject obj) \<Rightarrow>
          (case range_of_file ranges fid of
             None \<Rightarrow> []
           | Some src \<Rightarrow>
               filter (\<lambda>d. \<not> provably_in_range env ranges src d)
                 (map (definition_of env) (filter (\<lambda>s. vf_contains (symbol_flags env s) HAS_RANGE_LIMITED_REL) (object_symbols obj))))
      | _ \<Rightarrow> [])"

definition process_primary_part_refs ::
    "thunk_env \<Rightarrow> primary_ranges \<Rightarrow> group_states \<Rightarrow> thunk_builder list \<Rightarrow> thunk_builder list" where
  "process_primary_part_refs env ranges files blocks = map (\<lambda>block.
     block\<lparr>block_symbols := block_symbols block
       @ remdups (concat (map (object_thunk_symbols env ranges files) (block_objects block)))\<rparr>) blocks"

definition part_needs_thunk :: "thunk_env \<Rightarrow> primary_ranges \<Rightarrow> part_id \<Rightarrow> symbol_id \<Rightarrow> bool" where
  "part_needs_thunk env ranges source_part definition_id =
     (case part_extent_range env source_part of
        None \<Rightarrow> False
      | Some src \<Rightarrow>
          (case target_range_for_symbol env ranges definition_id of
             None \<Rightarrow> True
           | Some def \<Rightarrow> branch_range env \<le> range_span src def))"

text \<open>The first object with a loaded section in the part.\<close>

definition assign_extra_thunk_block_owner :: "group_states \<Rightarrow> part_id \<Rightarrow> u32 \<Rightarrow> (group_states \<times> file_id) option" where
  "assign_extra_thunk_block_owner files p block_id =
     (case find (\<lambda>(fid, file). case file of LayoutObject obj \<Rightarrow> p \<in> set (loaded_parts obj) | LayoutOther \<Rightarrow> False) files of
        None \<Rightarrow> None
      | Some (fid, _) \<Rightarrow> Some (update_object fid (\<lambda>obj. obj\<lparr>extra_thunk_block_ids := extra_thunk_block_ids obj @ [block_id]\<rparr>) files, fid))"

fun add_part_blocks :: "(part_id \<times> symbol_id list) list \<Rightarrow> group_states \<times> thunk_builder list \<Rightarrow> group_states \<times> thunk_builder list" where
  "add_part_blocks [] (files, blocks) = (files, blocks)"
| "add_part_blocks ((p, symbols) # rest) (files, blocks) =
     (case assign_extra_thunk_block_owner files p (of_nat (length blocks)) of
        None \<Rightarrow> add_part_blocks rest (files, blocks)
      | Some (files, owner) \<Rightarrow>
          add_part_blocks rest (files, blocks @ [\<lparr>block_part = p, block_objects = [owner], block_symbols = symbols\<rparr>]))"

text \<open>The argument \<open>refs\<close> is the queue of references from other parts.\<close>

definition process_non_primary_part_refs ::
    "thunk_env \<Rightarrow> primary_ranges \<Rightarrow> (part_id \<times> symbol_id) list \<Rightarrow> group_states \<times> thunk_builder list \<Rightarrow> group_states \<times> thunk_builder list" where
  "process_non_primary_part_refs env ranges refs st =
     (let needed = filter (\<lambda>(p, d). part_needs_thunk env ranges p d) (map (\<lambda>(p, s). (p, definition_of env s)) refs)
      in add_part_blocks (map (\<lambda>p. (p, remdups (map snd (filter (\<lambda>(q, d). q = p) needed)))) (sort (remdups (map fst needed)))) st)"

definition build_thunk_block :: "thunk_builder \<Rightarrow> thunk_builder" where
  "build_thunk_block block = block\<lparr>block_symbols := remdups_adj (sort (block_symbols block))\<rparr>"

definition build_thunk_layout ::
    "thunk_env \<Rightarrow> (part_id \<times> symbol_id) list \<Rightarrow> group_states \<Rightarrow> group_states \<times> thunk_builder list" where
  "build_thunk_layout env refs files =
     (let ranges = collect_primary_ranges files (fst (part_extent env (primary_part env)));
          (files, blocks) = assign_thunk_blocks_to_groups files ranges (branch_range env) (primary_part env);
          blocks = process_primary_part_refs env ranges files blocks;
          (files, blocks) = process_non_primary_part_refs env ranges refs (files, blocks)
      in (files, map build_thunk_block blocks))"

subsection \<open>Finding a thunk\<close>

definition block_id_for_source_part :: "thunk_object \<Rightarrow> part_id list \<Rightarrow> part_id \<Rightarrow> part_id \<Rightarrow> u32" where
  "block_id_for_source_part obj block_parts source_part primary =
     (if source_part = primary then thunk_block_id obj
      else case find (\<lambda>b. unat b < length block_parts \<and> block_parts ! unat b = source_part) (extra_thunk_block_ids obj) of
        Some b \<Rightarrow> b
      | None \<Rightarrow>
          (case find (\<lambda>i. block_parts ! i = source_part) [0..<length block_parts] of
             Some i \<Rightarrow> of_nat i
           | None \<Rightarrow> THUNK_BLOCK_FIRST))"

text \<open>The size of a block, and the addresses of its thunks from an offset in its part, with the offset after the block.\<close>

definition thunk_block_size :: "align \<Rightarrow> u64 \<Rightarrow> thunk_builder \<Rightarrow> u64" where
  "thunk_block_size al thunk_size block = align_up al (of_nat (length (block_symbols block)) * thunk_size)"

fun thunk_address_loop :: "u64 \<Rightarrow> symbol_id list \<Rightarrow> u64 \<Rightarrow> (symbol_id \<times> u64) list \<times> u64" where
  "thunk_address_loop thunk_size [] addr = ([], addr)"
| "thunk_address_loop thunk_size (s # symbols) addr =
     (let (rest, addr') = thunk_address_loop thunk_size symbols (addr + thunk_size) in ((s, addr) # rest, addr'))"

definition assign_thunk_block_addresses :: "align \<Rightarrow> u64 \<Rightarrow> thunk_builder \<Rightarrow> u64 \<Rightarrow> (symbol_id \<times> u64) list \<times> u64" where
  "assign_thunk_block_addresses al thunk_size block start_address =
     (if block_symbols block = [] then ([], start_address)
      else let (addresses, addr) = thunk_address_loop thunk_size (block_symbols block) start_address
        in (addresses, start_address + align_up al (addr - start_address)))"

record page_mask_value =
  mask_symbol_plus_addend :: u64
  mask_got_entry :: u64
  mask_place :: u64
  mask_got :: u64

definition page_mask_default :: page_mask_value where
  "page_mask_default = \<lparr>mask_symbol_plus_addend = - 1, mask_got_entry = - 1, mask_place = - 1, mask_got = - 1\<rparr>"

fun get_page_mask :: "page_mask option \<Rightarrow> page_mask_value" where
  "get_page_mask None = page_mask_default"
| "get_page_mask (Some (SymbolPlusAddendAndPosition m)) = page_mask_default\<lparr>mask_symbol_plus_addend := NOT m, mask_place := NOT m\<rparr>"
| "get_page_mask (Some (GotEntryAndPosition m)) = page_mask_default\<lparr>mask_got_entry := NOT m, mask_place := NOT m\<rparr>"
| "get_page_mask (Some (GotBase m)) = page_mask_default\<lparr>mask_got := NOT m\<rparr>"
| "get_page_mask (Some (PM_Position m)) = page_mask_default\<lparr>mask_place := NOT m\<rparr>"

datatype thunk_error = ThunkNotAllocated | ThunkMissing

text \<open>\<open>addresses\<close> has the thunk addresses of each block; \<open>primary\<close> is absent when the architecture has no thunks.\<close>

definition maybe_get_thunk_for_relocation ::
    "part_id option \<Rightarrow> thunk_object \<Rightarrow> part_id list \<Rightarrow> (symbol_id \<times> u64) list list \<Rightarrow> part_id \<Rightarrow> relocation_kind_info
      \<Rightarrow> symbol_id \<Rightarrow> u64 \<Rightarrow> u64 \<Rightarrow> thunk_error + u64 option" where
  "maybe_get_thunk_for_relocation primary obj block_parts addresses source_part rel_info canonical_id place value =
     (case primary of
        None \<Rightarrow> Inr None
      | Some primary \<Rightarrow>
          if \<not> thunkable rel_info then Inr None
          else if contains (allowed rel_info) (sint value) then Inr None
          else
            let thunk_id = unat (block_id_for_source_part obj block_parts source_part primary) in
            case (if thunk_id < length addresses then map_of (addresses ! thunk_id) canonical_id else None) of
              None \<Rightarrow> Inl ThunkMissing
            | Some thunk_address \<Rightarrow>
                if thunk_address = 0 then Inl ThunkNotAllocated
                else let m = get_page_mask (page_mask rel_info)
                  in Inr (Some (((thunk_address + bias rel_info) AND mask_symbol_plus_addend m) - (place AND mask_place m))))"

end
