(* ===== verification/Thunk_Layout.thy ===== *)
theory Thunk_Layout
  imports Thunks
begin

unbundle bit_operations_syntax

text \<open>Thunk blocks are in reach of the objects that use them, and hold a thunk for every branch that may need one.\<close>

subsection \<open>Positions of the objects\<close>

lemma fst_collect_primary_ranges: "map fst (collect_primary_ranges files offset) = map fst files"
  by (induction files offset rule: collect_primary_ranges.induct) simp_all

definition object_bytes :: "layout_file \<Rightarrow> u64" where
  "object_bytes fl = (case fl of LayoutObject obj \<Rightarrow> post_gc_primary_bytes obj | LayoutOther \<Rightarrow> 0)"

text \<open>The non-empty objects, with their ranges.\<close>

fun placed :: "group_states \<Rightarrow> u64 \<Rightarrow> (file_id \<times> u64 \<times> u64) list" where
  "placed [] offset = []"
| "placed ((fid, fl) # files) offset =
     (if 0 < object_bytes fl then [(fid, offset, offset + object_bytes fl)] else []) @ placed files (offset + object_bytes fl)"

definition total_bytes :: "group_states \<Rightarrow> nat" where
  "total_bytes files = (\<Sum>(fid, fl)\<leftarrow>files. unat (object_bytes fl))"

lemma total_bytes_simps [simp]: "total_bytes [] = 0" "total_bytes ((fid, fl) # files) = unat (object_bytes fl) + total_bytes files"
  by (simp_all add: total_bytes_def)

lemma range_of_file_Cons: "range_of_file ((fid, r) # ranges) fid' = (if fid' = fid then r else range_of_file ranges fid')"
  by (simp add: range_of_file_def)

lemma offset_add:
  assumes "unat (offset :: u64) + (unat n + k) < 2 ^ 64"
  shows "unat (offset + n) = unat offset + unat n" and "unat (offset + n) + k < 2 ^ 64" and "0 < n \<Longrightarrow> offset < offset + n"
proof -
  show u: "unat (offset + n) = unat offset + unat n" using assms by (simp add: unat_word_ariths)
  show "unat (offset + n) + k < 2 ^ 64" using assms u by simp
  assume "0 < n"
  then have "0 < unat n" by (simp add: word_less_nat_alt)
  then show "offset < offset + n" unfolding word_less_nat_alt u by simp
qed

lemma range_of_file_placed:
  assumes "distinct (map fst files)" and "unat offset + total_bytes files < 2 ^ 64" and "(fid, LayoutObject obj) \<in> set files"
  shows "\<exists>s. range_of_file (collect_primary_ranges files offset) fid = Some (s, s + post_gc_primary_bytes obj)
    \<and> (0 < post_gc_primary_bytes obj \<longrightarrow> (fid, s, s + post_gc_primary_bytes obj) \<in> set (placed files offset))"
  using assms
proof (induction files arbitrary: offset)
  case (Cons f files)
  obtain fid' fl where f: "f = (fid', fl)" by fastforce
  show ?case
  proof (cases "f = (fid, LayoutObject obj)")
    case True
    then show ?thesis by (auto simp: range_of_file_Cons object_bytes_def)
  next
    case False
    then have m: "(fid, LayoutObject obj) \<in> set files" "fid \<noteq> fid'" using Cons.prems f by (auto simp: image_iff)
    have "unat (offset + object_bytes fl) + total_bytes files < 2 ^ 64"
      using offset_add(2) [of offset "object_bytes fl" "total_bytes files"] Cons.prems(2) f by simp
    from Cons.IH [OF _ this m(1)] Cons.prems(1) show ?thesis
      using m(2) by (cases fl) (auto simp: f range_of_file_Cons object_bytes_def)
  qed
qed simp

lemma post_gc_bounds_Cons:
  "post_gc_bounds ((fid, fl) # files) r =
     (case (fl, range_of_file r fid) of (LayoutObject obj, Some (s, e)) \<Rightarrow> if s < e then [(fid, s, e)] else [] | _ \<Rightarrow> []) @ post_gc_bounds files r"
  by (simp add: post_gc_bounds_def List.map_filter_simps split: layout_file.split option.split)

lemma post_gc_bounds_cong:
  "(\<And>fid fl. (fid, fl) \<in> set files \<Longrightarrow> range_of_file r fid = range_of_file r' fid) \<Longrightarrow> post_gc_bounds files r = post_gc_bounds files r'"
proof (induction files)
  case (Cons f files)
  obtain fid fl where f: "f = (fid, fl)" by fastforce
  then have "range_of_file r fid = range_of_file r' fid" using Cons.prems [of fid fl] by simp
  moreover have "post_gc_bounds files r = post_gc_bounds files r'"
  proof (rule Cons.IH)
    fix a b assume "(a, b) \<in> set files"
    then show "range_of_file r a = range_of_file r' a" using Cons.prems [of a b] by simp
  qed
  ultimately show ?case unfolding f post_gc_bounds_Cons by simp
qed (simp add: post_gc_bounds_def List.map_filter_simps)

lemma post_gc_bounds_placed:
  assumes "distinct (map fst files)" and "unat offset + total_bytes files < 2 ^ 64"
  shows "post_gc_bounds files (collect_primary_ranges files offset) = placed files offset"
  using assms
proof (induction files arbitrary: offset)
  case Nil
  show ?case by (simp add: post_gc_bounds_def List.map_filter_simps)
next
  case (Cons f files)
  obtain fid fl where f: "f = (fid, fl)" by fastforce
  let ?o = "offset + object_bytes fl"
  have IH: "post_gc_bounds files (collect_primary_ranges files ?o) = placed files ?o"
    using Cons f offset_add(2) [of offset "object_bytes fl" "total_bytes files"] by simp
  have fresh: "fid \<notin> fst ` set files" using Cons.prems f by simp
  have r: "collect_primary_ranges (f # files) offset = (fid, case fl of LayoutObject obj \<Rightarrow> Some (offset, offset + post_gc_primary_bytes obj) | LayoutOther \<Rightarrow> None)
      # collect_primary_ranges files ?o" by (cases fl) (simp_all add: f object_bytes_def)
  have "post_gc_bounds files (collect_primary_ranges (f # files) offset) = post_gc_bounds files (collect_primary_ranges files ?o)"
    unfolding r by (rule post_gc_bounds_cong) (use fresh in \<open>force simp: range_of_file_Cons\<close>)
  moreover have "offset < offset + object_bytes fl \<longleftrightarrow> 0 < object_bytes fl"
    using offset_add(3) [of offset "object_bytes fl" "total_bytes files"] Cons.prems(2) f by (cases "object_bytes fl = 0") (auto simp: word_greater_zero_iff)
  ultimately show ?case
    using IH post_gc_bounds_Cons [of fid fl files "collect_primary_ranges (f # files) offset"] unfolding f [symmetric]
    by (cases fl) (auto simp: r f range_of_file_Cons object_bytes_def)
qed

lemma placed_bounds:
  assumes "unat offset + total_bytes files < 2 ^ 64" and "(fid, s, e) \<in> set (placed files offset)"
  shows "offset \<le> s \<and> s < e"
  using assms
proof (induction files arbitrary: offset)
  case (Cons f files)
  obtain fid' fl where f: "f = (fid', fl)" by fastforce
  note add = offset_add [of offset "object_bytes fl" "total_bytes files"]
  have t: "unat offset + (unat (object_bytes fl) + total_bytes files) < 2 ^ 64" using Cons.prems(1) f by simp
  have "offset \<le> offset + object_bytes fl" using add(1) [OF t] by (simp add: word_le_nat_alt)
  then show ?case
    using Cons.IH [OF add(2) [OF t]] Cons.prems(2) add(3) [OF t] by (auto simp: f split: if_splits)
qed simp

text \<open>They are in order, and each starts where the one before it ends.\<close>

lemma placed_ascending:
  assumes "unat offset + total_bytes files < 2 ^ 64"
  shows "ascending (placed files offset) \<and> (\<forall>j. Suc j < length (placed files offset) \<longrightarrow> fst (snd (placed files offset ! Suc j)) = snd (snd (placed files offset ! j)))
    \<and> (placed files offset \<noteq> [] \<longrightarrow> fst (snd (hd (placed files offset))) = offset)"
  using assms
proof (induction files arbitrary: offset)
  case Nil
  show ?case by (simp add: ascending_def)
next
  case (Cons f files)
  obtain fid fl where f: "f = (fid, fl)" by fastforce
  have t: "unat offset + (unat (object_bytes fl) + total_bytes files) < 2 ^ 64" using Cons.prems(1) f by simp
  note add = offset_add [OF t]
  let ?o = "offset + object_bytes fl" and ?ys = "placed files (offset + object_bytes fl)"
  have IH: "ascending ?ys" "\<forall>j. Suc j < length ?ys \<longrightarrow> fst (snd (?ys ! Suc j)) = snd (snd (?ys ! j))" "?ys \<noteq> [] \<longrightarrow> fst (snd (hd ?ys)) = ?o"
    using Cons.IH [OF add(2)] by simp_all
  show ?case
  proof (cases "0 < object_bytes fl")
    case True
    have later: "?o \<le> fst (snd (?ys ! j))" if "j < length ?ys" for j
      using placed_bounds [OF add(2), of "fst (?ys ! j)" "fst (snd (?ys ! j))" "snd (snd (?ys ! j))"] that by simp
    have "ascending ((fid, offset, ?o) # ?ys)"
      using IH(1) later add(3) [OF True] unfolding ascending_def by (auto simp: nth_Cons less_Suc_eq_0_disj split: nat.splits)
    moreover have "\<forall>j. Suc j < length ((fid, offset, ?o) # ?ys) \<longrightarrow> fst (snd (((fid, offset, ?o) # ?ys) ! Suc j)) = snd (snd (((fid, offset, ?o) # ?ys) ! j))"
      using IH(2,3) by (auto simp: nth_Cons hd_conv_nth split: nat.splits)
    ultimately show ?thesis using True by (simp add: f)
  next
    case False
    then have "object_bytes fl = 0" using word_greater_zero_iff by blast
    then show ?thesis using IH by (simp add: f)
  qed
qed

lemma placed_distinct:
  assumes "distinct (map fst files)"
  shows "distinct (map fst (placed files offset)) \<and> fst ` set (placed files offset) \<subseteq> fst ` set files"
  using assms
proof (induction files arbitrary: offset)
  case (Cons f files)
  then have "distinct (map fst (placed files (offset + object_bytes (snd f)))) \<and> fst ` set (placed files (offset + object_bytes (snd f))) \<subseteq> fst ` set files"
    by simp
  then show ?case using Cons.prems by (cases f) auto
qed simp

subsection \<open>The assignment in the objects\<close>

definition with_assignment :: "(file_id \<rightharpoonup> u32 \<times> bool) \<Rightarrow> group_states \<Rightarrow> group_states" where
  "with_assignment a files = map (\<lambda>(fid, fl). (fid, case fl of
     LayoutObject obj \<Rightarrow> LayoutObject (case a fid of None \<Rightarrow> obj | Some (b, own) \<Rightarrow> obj\<lparr>thunk_block_id := b, owns_thunk_block := own\<rparr>)
   | LayoutOther \<Rightarrow> LayoutOther)) files"

lemma fold_apply_thunk_call: "fold apply_thunk_call cs files = with_assignment (assigned cs) files"
proof (induction cs rule: rev_induct)
  case Nil
  show ?case by (auto simp: with_assignment_def intro!: map_idI [symmetric] split: layout_file.split)
next
  case (snoc c cs)
  obtain f b own where "c = (f, b, own)" using prod_cases3 by blast
  then show ?case
    using snoc by (auto simp: with_assignment_def apply_thunk_call_def update_object_def split: layout_file.split option.split)
qed

text \<open>Files that differ only in the extra blocks.\<close>

definition without_extra :: "group_states \<Rightarrow> group_states" where
  "without_extra files = map (\<lambda>(fid, fl). (fid, case fl of
     LayoutObject obj \<Rightarrow> LayoutObject (obj\<lparr>extra_thunk_block_ids := []\<rparr>) | LayoutOther \<Rightarrow> LayoutOther)) files"

definition same_but_extra :: "group_states \<Rightarrow> group_states \<Rightarrow> bool" where
  "same_but_extra files files' \<longleftrightarrow> without_extra files = without_extra files'"

lemma same_but_extra_refl: "same_but_extra files files"
  by (simp add: same_but_extra_def)

lemma same_but_extra_trans: "same_but_extra f g \<Longrightarrow> same_but_extra g h \<Longrightarrow> same_but_extra f h"
  by (simp add: same_but_extra_def)

lemma same_but_extra_update:
  "same_but_extra files (update_object fid (\<lambda>obj. obj\<lparr>extra_thunk_block_ids := extra_thunk_block_ids obj @ bs\<rparr>) files)"
  by (auto simp: same_but_extra_def without_extra_def update_object_def split: prod.split layout_file.split)

lemma add_part_blocks_keeps:
  "add_part_blocks parts (files, blocks) = (files', blocks') \<Longrightarrow> same_but_extra files files' \<and> (\<exists>more. blocks' = blocks @ more)"
proof (induction parts arbitrary: files blocks)
  case (Cons p parts)
  obtain q syms where p: "p = (q, syms)" by fastforce
  show ?case
  proof (cases "assign_extra_thunk_block_owner files q (of_nat (length blocks))")
    case None
    then show ?thesis using Cons by (simp add: p)
  next
    case (Some fo)
    then obtain f2 owner where fo: "assign_extra_thunk_block_owner files q (of_nat (length blocks)) = Some (f2, owner)" by (cases fo) auto
    then have "same_but_extra files f2" using same_but_extra_update by (auto simp: assign_extra_thunk_block_owner_def split: option.splits prod.splits)
    moreover have "add_part_blocks parts (f2, blocks @ [\<lparr>block_part = q, block_objects = [owner], block_symbols = syms\<rparr>]) = (files', blocks')"
      using Cons.prems fo by (simp add: p)
    from Cons.IH [OF this] have "same_but_extra f2 files'" "\<exists>more. blocks' = blocks @ more" by auto
    ultimately show ?thesis using same_but_extra_trans by blast
  qed
qed (simp add: same_but_extra_refl)

lemma same_but_extra_in:
  assumes "same_but_extra files files'" and "(fid, LayoutObject obj') \<in> set files'"
  shows "\<exists>obj. (fid, LayoutObject obj) \<in> set files \<and> obj\<lparr>extra_thunk_block_ids := []\<rparr> = obj'\<lparr>extra_thunk_block_ids := []\<rparr>"
proof -
  have "(fid, LayoutObject (obj'\<lparr>extra_thunk_block_ids := []\<rparr>)) \<in> set (without_extra files')"
    using assms(2) by (force simp: without_extra_def)
  then have "(fid, LayoutObject (obj'\<lparr>extra_thunk_block_ids := []\<rparr>)) \<in> set (without_extra files)"
    using assms(1) by (simp only: same_but_extra_def)
  then obtain fl where "(fid, fl) \<in> set files" "LayoutObject (obj'\<lparr>extra_thunk_block_ids := []\<rparr>) = (case fl of
     LayoutObject obj \<Rightarrow> LayoutObject (obj\<lparr>extra_thunk_block_ids := []\<rparr>) | LayoutOther \<Rightarrow> LayoutOther)"
    by (auto simp: without_extra_def)
  then show ?thesis by (cases fl) auto
qed

subsection \<open>Every object is near its block\<close>

lemma word_dist:
  assumes "(x :: u64) \<le> y" shows "unat (y - x) = unat y - unat x" and "unat x \<le> unat y"
  using assms by (simp_all add: unat_sub word_le_nat_alt)

text \<open>How far the block at the end of object \<open>j\<close> is from a place in object \<open>i\<close>.\<close>

lemma near_block:
  assumes asc: "ascending xs" and contig: "\<forall>j. Suc j < length xs \<longrightarrow> fst (snd (xs ! Suc j)) = snd (snd (xs ! j))"
    and ij: "i < length xs" "j < length xs" "in_thunk_range m xs i j" and small: "\<forall>k < length xs. snd (snd (xs ! k)) - fst (snd (xs ! k)) < m"
    and place: "fst (snd (xs ! i)) \<le> place" "place \<le> snd (snd (xs ! i))"
  shows "if snd (snd (xs ! j)) \<le> place then place - snd (snd (xs ! j)) < m
    else unat (snd (snd (xs ! j))) - unat place < unat m + unat (snd (snd (xs ! j)) - fst (snd (xs ! j)))"
proof -
  let ?s = "\<lambda>k. fst (snd (xs ! k))" and ?e = "\<lambda>k. snd (snd (xs ! k))"
  have se: "?s k \<le> ?e k" "?e k - ?s k < m" if "k < length xs" for k
    using asc that small by (simp_all add: ascending_def)
  note se' = word_dist [OF se(1) [OF ij(1)]] word_dist [OF se(1) [OF ij(2)]]
  consider (same) "i = j" | (after) "j < i" | (before) "i < j" by linarith
  then show ?thesis
  proof cases
    case same
    have "unat (?e i) - unat place \<le> unat (?e i - ?s i)" using place se' by (simp add: word_le_nat_alt)
    moreover have "unat (?e i - ?s i) < unat m" using se(2) [OF ij(1)] by (simp add: word_less_nat_alt)
    moreover have "place - ?e i < m" if "?e i \<le> place"
    proof -
      have "place = ?e i" using that place(2) by simp
      then show ?thesis using se(2) [OF ij(1)] word_greater_zero_iff [of m] by (metis diff_self word_gt_0 word_not_simps(1))
    qed
    ultimately show ?thesis using same by simp
  next
    case after
    then have "?e j \<le> ?s i" using asc ij(1) by (simp add: ascending_def)
    then have le: "?e j \<le> place" using place(1) by simp
    have "?e i - ?e j < m" using ij(3) after by (simp add: in_thunk_range_def)
    moreover have "place - ?e j \<le> ?e i - ?e j" using le place(2) word_dist [of "?e j" place] word_dist [of "?e j" "?e i"] by (simp add: word_le_nat_alt diff_le_mono)
    ultimately show ?thesis using le by simp
  next
    case before
    then obtain k where k: "j = Suc k" "i \<le> k" by (cases j) auto
    have "?s j = ?e k" using contig ij(2) k(1) by simp
    have le: "place \<le> ?e k" using place(2) ascending_le(2) [OF asc k(2)] ij(2) k(1) by simp
    have "?e k - ?s i < m" using ij(3) before k se(2) [OF ij(1)] by (auto simp: in_thunk_range_def)
    moreover have "?s i \<le> ?e k" using le place(1) by simp
    ultimately have "unat (?e k) - unat (?s i) < unat m" using word_dist [of "?s i" "?e k"] by (simp add: word_less_nat_alt)
    then have d: "unat (?e k) - unat place < unat m" using word_dist(2) [OF place(1)] by linarith
    have "unat (?e j) - unat place < unat m + unat (?e j - ?s j)"
      using d se' \<open>?s j = ?e k\<close> word_dist(2) [OF le] by simp
    moreover have "place - ?e j < m" if "?e j \<le> place"
    proof -
      have "place = ?e j" using that le se(1) [OF ij(2)] \<open>?s j = ?e k\<close> by simp
      then show ?thesis using se(2) [OF ij(1)] by (metis diff_self word_gt_0 word_not_simps(1))
    qed
    ultimately show ?thesis by simp
  qed
qed

subsection \<open>The layout\<close>

lemma placed_entry:
  assumes "unat offset + total_bytes files < 2 ^ 64" and "(fid, s, e) \<in> set (placed files offset)"
  shows "\<exists>obj. (fid, LayoutObject obj) \<in> set files \<and> e = s + post_gc_primary_bytes obj \<and> 0 < post_gc_primary_bytes obj"
  using assms
proof (induction files arbitrary: offset)
  case (Cons f files)
  obtain fid' fl where f: "f = (fid', fl)" by fastforce
  have t: "unat offset + (unat (object_bytes fl) + total_bytes files) < 2 ^ 64" using Cons.prems(1) f by simp
  show ?case
  proof (cases "(fid, s, e) \<in> set (placed files (offset + object_bytes fl))")
    case True
    from Cons.IH [OF offset_add(2) [OF t] True] show ?thesis by auto
  next
    case False
    then have "0 < object_bytes fl" "(fid, s, e) = (fid', offset, offset + object_bytes fl)" using Cons.prems(2) by (auto simp: f split: if_splits)
    then show ?thesis by (cases fl) (auto simp: f object_bytes_def)
  qed
qed simp

lemma length_placed: "length (placed files offset) \<le> length files"
proof (induction files arbitrary: offset)
  case (Cons f files)
  then show ?case using Cons.IH [of "offset + object_bytes (snd f)"] by (cases f) (auto intro: le_SucI)
qed simp

text \<open>The steps of the layout, with the ranges as positions and the assignment as a map.\<close>

lemma build_thunk_layout_unfold:
  assumes "build_thunk_layout env refs files = (files', blocks)" and d: "distinct (map fst files)"
    and fit: "unat (fst (part_extent env (primary_part env))) + total_bytes files < 2 ^ 64"
  defines "offset \<equiv> fst (part_extent env (primary_part env))"
  defines "ranges \<equiv> collect_primary_ranges files offset"
  defines "res \<equiv> assign_thunk_blocks (branch_range env) (placed files offset)"
  defines "assigned_files \<equiv> with_assignment (assigned (snd res)) files"
  defines "first_blocks \<equiv> map (\<lambda>b. \<lparr>block_part = primary_part env, block_objects = primary_objects_of_block assigned_files b, block_symbols = []\<rparr>) [0..<max (fst res) 1]"
  shows "same_but_extra assigned_files files'"
    and "\<exists>more. blocks = map build_thunk_block (process_primary_part_refs env ranges assigned_files first_blocks @ more)"
proof -
  have "post_gc_bounds files ranges = placed files offset"
    unfolding ranges_def offset_def by (rule post_gc_bounds_placed [OF d fit])
  then have groups: "assign_thunk_blocks_to_groups files ranges (branch_range env) (primary_part env) = (assigned_files, first_blocks)"
    by (simp add: assign_thunk_blocks_to_groups_def fold_apply_thunk_call Let_def assigned_files_def first_blocks_def res_def split: prod.split)
  obtain fs bs where np: "process_non_primary_part_refs env ranges refs (assigned_files, process_primary_part_refs env ranges assigned_files first_blocks) = (fs, bs)"
    by fastforce
  have "files' = fs" "blocks = map build_thunk_block bs"
    using assms(1) by (simp_all add: build_thunk_layout_def Let_def groups np flip: offset_def ranges_def)
  moreover have "same_but_extra assigned_files fs \<and> (\<exists>more. bs = process_primary_part_refs env ranges assigned_files first_blocks @ more)"
    using np unfolding process_non_primary_part_refs_def Let_def by (rule add_part_blocks_keeps)
  ultimately show "same_but_extra assigned_files files'"
    and "\<exists>more. blocks = map build_thunk_block (process_primary_part_refs env ranges assigned_files first_blocks @ more)" by auto
qed

lemma build_thunk_layout_objects:
  assumes "build_thunk_layout env refs files = (files', blocks)" and d: "distinct (map fst files)"
    and fit: "unat (fst (part_extent env (primary_part env))) + total_bytes files < 2 ^ 64"
    and "(fid, LayoutObject obj') \<in> set files'"
  defines "xs \<equiv> placed files (fst (part_extent env (primary_part env)))"
  shows "\<exists>obj. (fid, LayoutObject obj) \<in> set files \<and> post_gc_primary_bytes obj' = post_gc_primary_bytes obj \<and> object_symbols obj' = object_symbols obj
    \<and> (\<forall>b own. assigned (snd (assign_thunk_blocks (branch_range env) xs)) fid = Some (b, own) \<longrightarrow> thunk_block_id obj' = b \<and> owns_thunk_block obj' = own)"
proof -
  let ?cs = "snd (assign_thunk_blocks (branch_range env) xs)"
  have "same_but_extra (with_assignment (assigned ?cs) files) files'"
    using build_thunk_layout_unfold(1) [OF assms(1) d fit] by (simp add: xs_def)
  from same_but_extra_in [OF this assms(4)] obtain o1 where o1: "(fid, LayoutObject o1) \<in> set (with_assignment (assigned ?cs) files)"
      "o1\<lparr>extra_thunk_block_ids := []\<rparr> = obj'\<lparr>extra_thunk_block_ids := []\<rparr>" by blast
  have eqs: "post_gc_primary_bytes o1 = post_gc_primary_bytes obj'" "object_symbols o1 = object_symbols obj'"
      "thunk_block_id o1 = thunk_block_id obj'" "owns_thunk_block o1 = owns_thunk_block obj'"
    using arg_cong [OF o1(2), of post_gc_primary_bytes] arg_cong [OF o1(2), of object_symbols]
      arg_cong [OF o1(2), of thunk_block_id] arg_cong [OF o1(2), of owns_thunk_block] by simp_all
  obtain fl where fl: "(fid, fl) \<in> set files" "LayoutObject o1 = (case fl of
       LayoutObject obj \<Rightarrow> LayoutObject (case assigned ?cs fid of None \<Rightarrow> obj | Some (b, own) \<Rightarrow> obj\<lparr>thunk_block_id := b, owns_thunk_block := own\<rparr>)
     | LayoutOther \<Rightarrow> LayoutOther)" using o1(1) by (auto simp: with_assignment_def)
  then obtain obj where "fl = LayoutObject obj" by (cases fl) auto
  then show ?thesis using fl eqs by (intro exI [of _ obj]) (auto split: option.splits)
qed

lemma layout_complete:
  assumes "distinct (map fst files)" and "unat (fst (part_extent env (primary_part env))) + total_bytes files < 2 ^ 64" and "length files < 2 ^ 32"
  defines "xs \<equiv> placed files (fst (part_extent env (primary_part env)))"
  shows "complete (branch_range env) xs (length xs) (fst (assign_thunk_blocks (branch_range env) xs)) (assigned (snd (assign_thunk_blocks (branch_range env) xs)))"
    and "ascending xs" and "distinct (map fst xs)" and "\<forall>j. Suc j < length xs \<longrightarrow> fst (snd (xs ! Suc j)) = snd (snd (xs ! j))"
    and "fst (assign_thunk_blocks (branch_range env) xs) \<le> length xs" and "length xs < 2 ^ 32"
    and "xs \<noteq> [] \<longrightarrow> 0 < fst (assign_thunk_blocks (branch_range env) xs)"
proof -
  show a: "ascending xs" "\<forall>j. Suc j < length xs \<longrightarrow> fst (snd (xs ! Suc j)) = snd (snd (xs ! j))"
    using placed_ascending [OF assms(2)] by (simp_all add: xs_def)
  show d: "distinct (map fst xs)" using placed_distinct [OF assms(1)] by (simp add: xs_def)
  show len: "length xs < 2 ^ 32" using length_placed [of files "fst (part_extent env (primary_part env))"] assms(3) unfolding xs_def by linarith
  show "complete (branch_range env) xs (length xs) (fst (assign_thunk_blocks (branch_range env) xs)) (assigned (snd (assign_thunk_blocks (branch_range env) xs)))"
    "fst (assign_thunk_blocks (branch_range env) xs) \<le> length xs" "xs \<noteq> [] \<longrightarrow> 0 < fst (assign_thunk_blocks (branch_range env) xs)"
    using assign_thunk_blocks_complete [OF _ d a(1) len, of "branch_range env" "fst (assign_thunk_blocks (branch_range env) xs)" "snd (assign_thunk_blocks (branch_range env) xs)"] by simp_all
qed

text \<open>An object of the result with code in the primary part, and an entry of the list of ranges: one for the other.\<close>

lemma layout_entry:
  assumes "build_thunk_layout env refs files = (files', blocks)" and d: "distinct (map fst files)"
    and fit: "unat (fst (part_extent env (primary_part env))) + total_bytes files < 2 ^ 64"
    and ob: "(f, LayoutObject ob) \<in> set files'" "0 < post_gc_primary_bytes ob"
  defines "offset \<equiv> fst (part_extent env (primary_part env))"
  assumes rng: "range_of_file (collect_primary_ranges files offset) f = Some (fs, fe)"
  shows "\<exists>k < length (placed files offset). placed files offset ! k = (f, fs, fe) \<and> fe = fs + post_gc_primary_bytes ob
    \<and> (\<exists>o1. (f, LayoutObject o1) \<in> set files \<and> post_gc_primary_bytes o1 = post_gc_primary_bytes ob)
    \<and> (\<forall>b own. assigned (snd (assign_thunk_blocks (branch_range env) (placed files offset))) f = Some (b, own)
        \<longrightarrow> thunk_block_id ob = b \<and> owns_thunk_block ob = own)"
proof -
  obtain o1 where o1: "(f, LayoutObject o1) \<in> set files" "post_gc_primary_bytes ob = post_gc_primary_bytes o1"
      "\<forall>b own. assigned (snd (assign_thunk_blocks (branch_range env) (placed files offset))) f = Some (b, own)
        \<longrightarrow> thunk_block_id ob = b \<and> owns_thunk_block ob = own"
    using build_thunk_layout_objects [OF assms(1) d fit ob(1)] by (auto simp: offset_def)
  then have "(f, fs, fs + post_gc_primary_bytes o1) \<in> set (placed files offset)" "fe = fs + post_gc_primary_bytes o1"
    using range_of_file_placed [OF d fit o1(1)] ob(2) rng by (auto simp: offset_def)
  then show ?thesis using o1 by (fastforce simp: in_set_conv_nth)
qed

lemma in_with_assignment:
  assumes "(f, LayoutObject obj) \<in> set files"
  shows "\<exists>obj'. (f, LayoutObject obj') \<in> set (with_assignment a files) \<and> post_gc_primary_bytes obj' = post_gc_primary_bytes obj"
  by (rule exI [of _ "case a f of None \<Rightarrow> obj | Some (b, own) \<Rightarrow> obj\<lparr>thunk_block_id := b, owns_thunk_block := own\<rparr>"])
     (use assms in \<open>auto simp: with_assignment_def split: option.split intro!: rev_image_eqI [OF assms]\<close>)

lemma layout_there:
  assumes "build_thunk_layout env refs files = (files', blocks)" and d: "distinct (map fst files)"
    and fit: "unat (fst (part_extent env (primary_part env))) + total_bytes files < 2 ^ 64"
  defines "offset \<equiv> fst (part_extent env (primary_part env))"
  assumes entry: "(f, fs, fe) \<in> set (placed files offset)"
  shows "\<exists>ob. (f, LayoutObject ob) \<in> set files' \<and> 0 < post_gc_primary_bytes ob
    \<and> range_of_file (collect_primary_ranges files offset) f = Some (fs, fe)"
proof -
  from placed_entry [OF fit [folded offset_def] entry] obtain o1 where
    o1: "(f, LayoutObject o1) \<in> set files" "fe = fs + post_gc_primary_bytes o1" "0 < post_gc_primary_bytes o1" by blast
  obtain s' where s': "range_of_file (collect_primary_ranges files offset) f = Some (s', s' + post_gc_primary_bytes o1)"
      "(f, s', s' + post_gc_primary_bytes o1) \<in> set (placed files offset)"
    using range_of_file_placed [OF d fit o1(1)] o1(3) by (auto simp: offset_def)
  have "distinct (map fst (placed files offset))" using placed_distinct [OF d] by simp
  from eq_key_imp_eq_value [OF this entry s'(2)] have rng: "s' = fs" by simp
  let ?a = "assigned (snd (assign_thunk_blocks (branch_range env) (placed files offset)))"
  have "same_but_extra files' (with_assignment ?a files)"
    using build_thunk_layout_unfold(1) [OF assms(1) d fit] by (simp add: same_but_extra_def offset_def)
  moreover obtain o2 where "(f, LayoutObject o2) \<in> set (with_assignment ?a files)" "post_gc_primary_bytes o2 = post_gc_primary_bytes o1"
    using in_with_assignment [OF o1(1)] by blast
  ultimately obtain o3 where o3: "(f, LayoutObject o3) \<in> set files'"
      "o3\<lparr>extra_thunk_block_ids := []\<rparr> = o2\<lparr>extra_thunk_block_ids := []\<rparr>" "post_gc_primary_bytes o2 = post_gc_primary_bytes o1"
    using same_but_extra_in by blast
  have "post_gc_primary_bytes o3 = post_gc_primary_bytes o1" using arg_cong [OF o3(2), of post_gc_primary_bytes] o3(3) by simp
  then show ?thesis using o3(1) o1(2,3) s'(1) rng by auto
qed

text \<open>The block of such an object is a block of the primary part, and the object of one entry owns it.\<close>

lemma layout_block:
  assumes "build_thunk_layout env refs files = (files', blocks)" and d: "distinct (map fst files)"
    and fit: "unat (fst (part_extent env (primary_part env))) + total_bytes files < 2 ^ 64" and len: "length files < 2 ^ 32"
    and ob: "(f, LayoutObject ob) \<in> set files'" "0 < post_gc_primary_bytes ob"
  defines "offset \<equiv> fst (part_extent env (primary_part env))"
  defines "xs \<equiv> placed files offset"
  defines "n \<equiv> fst (assign_thunk_blocks (branch_range env) xs)"
    and "a \<equiv> assigned (snd (assign_thunk_blocks (branch_range env) xs))"
  assumes rng: "range_of_file (collect_primary_ranges files offset) f = Some (fs, fe)"
  obtains k own where "k < length xs" and "xs ! k = (f, fs, fe)" and "fe = fs + post_gc_primary_bytes ob"
    and "a f = Some (thunk_block_id ob, own)" and "owns_thunk_block ob = own" and "unat (thunk_block_id ob) < n"
proof -
  obtain k where k: "k < length xs" "xs ! k = (f, fs, fe)" "fe = fs + post_gc_primary_bytes ob"
      "\<forall>b own. a f = Some (b, own) \<longrightarrow> thunk_block_id ob = b \<and> owns_thunk_block ob = own"
    using layout_entry [OF assms(1) d fit ob rng [unfolded offset_def]] by (auto simp: xs_def a_def offset_def)
  have "\<exists>b own. a (fst (xs ! k)) = Some (b, own) \<and> unat b < n"
    using layout_complete(1) [OF d fit len] k(1) unfolding complete_def xs_def a_def n_def offset_def by blast
  then obtain b own where "a f = Some (b, own)" "unat b < n" using k(2) by auto
  then show thesis using that k by auto
qed

text \<open>
  C19. Thunk blocks are within reach, for a layout whose primary part does not wrap and whose objects
  are each smaller than the branch range. For each object with code in the primary part there is
  exactly one object with code there that owns the object's block. The block is placed at the end
  of the owner's code, and this address is less than the branch range before every place of the
  object's code, or, if it is after the place, less than the branch range and the size of the
  owner's code after it.
\<close>

theorem thunk_block_in_reach:
  assumes "build_thunk_layout env refs files = (files', blocks)" and d: "distinct (map fst files)"
    and fit: "unat (fst (part_extent env (primary_part env))) + total_bytes files < 2 ^ 64" and len: "length files < 2 ^ 32"
    and small: "\<forall>(fid, fl) \<in> set files. object_bytes fl < branch_range env"
    and obj: "(fid, LayoutObject obj) \<in> set files'" "0 < post_gc_primary_bytes obj"
    and range: "range_of_file (collect_primary_ranges files (fst (part_extent env (primary_part env)))) fid = Some (s, e)"
    and place: "s \<le> place" "place \<le> e"
  shows "\<exists>!owner. \<exists>oobj os oe. (owner, LayoutObject oobj) \<in> set files' \<and> 0 < post_gc_primary_bytes oobj
    \<and> thunk_block_id oobj = thunk_block_id obj \<and> owns_thunk_block oobj
    \<and> range_of_file (collect_primary_ranges files (fst (part_extent env (primary_part env)))) owner = Some (os, oe)
    \<and> (if oe \<le> place then place - oe < branch_range env
       else unat oe - unat place < unat (branch_range env) + unat (post_gc_primary_bytes oobj))"
proof -
  let ?offset = "fst (part_extent env (primary_part env))"
  let ?xs = "placed files ?offset"
  let ?a = "assigned (snd (assign_thunk_blocks (branch_range env) ?xs))"
  note lc = layout_complete [OF d fit len] and block = layout_block [OF assms(1) d fit len]
  obtain i own where i: "i < length ?xs" "?xs ! i = (fid, s, e)" "e = s + post_gc_primary_bytes obj"
      "?a fid = Some (thunk_block_id obj, own)" "unat (thunk_block_id obj) < fst (assign_thunk_blocks (branch_range env) ?xs)"
    using block [OF obj range] by metis
  obtain j where j: "j < length ?xs" "?a (fst (?xs ! j)) = Some (thunk_block_id obj, True)"
      "\<forall>k < length ?xs. ?a (fst (?xs ! k)) = Some (thunk_block_id obj, True) \<longrightarrow> j = k"
    using complete_owner [OF lc(1) i(5)] by auto
  obtain f fs fe where xj: "?xs ! j = (f, fs, fe)" using prod_cases3 by blast
  have "\<forall>b own. ?a (fst (?xs ! i)) = Some (b, own) \<longrightarrow> ?a (fst (?xs ! j)) = Some (b, True) \<longrightarrow> in_thunk_range (branch_range env) ?xs i j"
    using lc(1) i(1) j(1) by (simp add: complete_def)
  then have rng: "in_thunk_range (branch_range env) ?xs i j" using i(2,4) j(2) by simp
  have sizes: "\<forall>k < length ?xs. snd (snd (?xs ! k)) - fst (snd (?xs ! k)) < branch_range env"
  proof (intro allI impI)
    fix k assume "k < length ?xs"
    then have "(fst (?xs ! k), fst (snd (?xs ! k)), snd (snd (?xs ! k))) \<in> set ?xs" by simp
    from placed_entry [OF fit this] small show "snd (snd (?xs ! k)) - fst (snd (?xs ! k)) < branch_range env"
      by (auto simp: object_bytes_def)
  qed
  have near: "if fe \<le> place then place - fe < branch_range env
    else unat fe - unat place < unat (branch_range env) + unat (fe - fs)"
    using near_block [OF lc(2,4) i(1) j(1) rng sizes, of place] place unfolding i(2) xj fst_conv snd_conv by blast
  have "(f, fs, fe) \<in> set ?xs" using j(1) xj by (metis nth_mem)
  from layout_there [OF assms(1) d fit this] obtain oj where
    oj: "(f, LayoutObject oj) \<in> set files'" "0 < post_gc_primary_bytes oj"
      "range_of_file (collect_primary_ranges files ?offset) f = Some (fs, fe)" by blast
  obtain own' where oj': "fe = fs + post_gc_primary_bytes oj" "?a f = Some (thunk_block_id oj, own')" "owns_thunk_block oj = own'"
    using block [OF oj] by metis
  then have same: "thunk_block_id oj = thunk_block_id obj" "owns_thunk_block oj" "fe - fs = post_gc_primary_bytes oj"
    using j(2) xj by simp_all
  show ?thesis
  proof (rule ex1I [of _ f])
    show "\<exists>oobj os oe. (f, LayoutObject oobj) \<in> set files' \<and> 0 < post_gc_primary_bytes oobj
      \<and> thunk_block_id oobj = thunk_block_id obj \<and> owns_thunk_block oobj
      \<and> range_of_file (collect_primary_ranges files ?offset) f = Some (os, oe)
      \<and> (if oe \<le> place then place - oe < branch_range env
         else unat oe - unat place < unat (branch_range env) + unat (post_gc_primary_bytes oobj))"
      by (rule exI [of _ oj], rule exI [of _ fs], rule exI [of _ fe], intro conjI) (use oj same near [unfolded same(3)] in simp_all)
  next
    fix owner
    assume "\<exists>oobj os oe. (owner, LayoutObject oobj) \<in> set files' \<and> 0 < post_gc_primary_bytes oobj
      \<and> thunk_block_id oobj = thunk_block_id obj \<and> owns_thunk_block oobj
      \<and> range_of_file (collect_primary_ranges files ?offset) owner = Some (os, oe)
      \<and> (if oe \<le> place then place - oe < branch_range env
         else unat oe - unat place < unat (branch_range env) + unat (post_gc_primary_bytes oobj))"
    then obtain oobj os oe where ow: "(owner, LayoutObject oobj) \<in> set files'" "0 < post_gc_primary_bytes oobj"
        "range_of_file (collect_primary_ranges files ?offset) owner = Some (os, oe)"
        "thunk_block_id oobj = thunk_block_id obj" "owns_thunk_block oobj" by blast
    from block [OF ow(1-3)] obtain k where "k < length ?xs" "?xs ! k = (owner, os, oe)" "?a owner = Some (thunk_block_id oobj, True)"
      using ow(5) by metis
    then show "owner = f" using j(3) ow(4) xj by auto
  qed
qed


subsection \<open>Symbols of a block\<close>

definition word_distance :: "u64 \<Rightarrow> u64 \<Rightarrow> u64" where
  "word_distance a b = (if a \<le> b then b - a else a - b)"

lemma range_span_bounds:
  assumes "fst src \<le> place" "place \<le> snd src" and "fst def \<le> target" "target \<le> snd def"
    and "range_span src def < m"
  shows "word_distance place target < m"
proof -
  have "word_distance place target \<le> range_span src def"
    using assms(1-4) unfolding word_distance_def range_span_def saturating_sub_def word_le_nat_alt word_less_nat_alt
    by (auto simp: unat_sub_if_size word_size max_def min_def word_le_nat_alt)
  then show ?thesis using assms(5) by (rule order.strict_trans1)
qed

lemma provably_in_range_distance:
  assumes "provably_in_range env ranges (s, e) d"
  shows "\<exists>t0 t1. target_range_for_symbol env ranges d = Some (t0, t1)
    \<and> (\<forall>place target. s \<le> place \<and> place \<le> e \<and> t0 \<le> target \<and> target \<le> t1 \<longrightarrow> word_distance place target < branch_range env)"
proof -
  obtain t0 t1 where t: "target_range_for_symbol env ranges d = Some (t0, t1)" "range_span (s, e) (t0, t1) < branch_range env"
    using assms by (auto simp: provably_in_range_def split: option.splits)
  then show ?thesis using range_span_bounds [of "(s, e)" _ "(t0, t1)"] by auto
qed

lemma map_fst_with_assignment: "map fst (with_assignment a files) = map fst files"
  by (induction files) (auto simp: with_assignment_def)

lemma object_thunk_symbols_complete:
  assumes "distinct (map fst files)" and "(fid, LayoutObject obj) \<in> set files" and "range_of_file ranges fid = Some (s, e)"
    and "sid \<in> set (object_symbols obj)" and "vf_contains (symbol_flags env sid) HAS_RANGE_LIMITED_REL"
    and "\<not> provably_in_range env ranges (s, e) (definition_of env sid)"
  shows "definition_of env sid \<in> set (object_thunk_symbols env ranges files fid)"
  using assms map_of_is_SomeI [OF assms(1,2)] by (auto simp: object_thunk_symbols_def)

text \<open>The block with an object's number, after the references of the primary part were processed.\<close>

lemma build_thunk_layout_block:
  assumes "build_thunk_layout env refs files = (files', blocks)" and d: "distinct (map fst files)"
    and fit: "unat (fst (part_extent env (primary_part env))) + total_bytes files < 2 ^ 64"
  defines "offset \<equiv> fst (part_extent env (primary_part env))"
  defines "ranges \<equiv> collect_primary_ranges files offset"
  defines "res \<equiv> assign_thunk_blocks (branch_range env) (placed files offset)"
  defines "assigned_files \<equiv> with_assignment (assigned (snd res)) files"
  assumes b: "b < fst res"
  defines "objects \<equiv> primary_objects_of_block assigned_files b"
  shows "b < length blocks" and "block_part (blocks ! b) = primary_part env" and "block_objects (blocks ! b) = objects"
    and "set (block_symbols (blocks ! b)) = (\<Union>f \<in> set objects. set (object_thunk_symbols env ranges assigned_files f))"
    and "sorted (block_symbols (blocks ! b))" and "distinct (block_symbols (blocks ! b))"
proof -
  obtain more where more: "blocks = map build_thunk_block (process_primary_part_refs env ranges assigned_files
      (map (\<lambda>b. \<lparr>block_part = primary_part env, block_objects = primary_objects_of_block assigned_files b, block_symbols = []\<rparr>)
        [0..<max (fst res) 1]) @ more)"
    using build_thunk_layout_unfold(2) [OF assms(1) d fit] unfolding assigned_files_def res_def ranges_def offset_def by blast
  then have "b < length blocks" and blk: "blocks ! b = build_thunk_block \<lparr>block_part = primary_part env, block_objects = objects,
      block_symbols = remdups (concat (map (object_thunk_symbols env ranges assigned_files) objects))\<rparr>"
    using b by (simp_all add: process_primary_part_refs_def nth_append objects_def del: upt_Suc)
  then show "b < length blocks" "block_part (blocks ! b) = primary_part env" "block_objects (blocks ! b) = objects"
    "set (block_symbols (blocks ! b)) = (\<Union>f \<in> set objects. set (object_thunk_symbols env ranges assigned_files f))"
    "sorted (block_symbols (blocks ! b))" "distinct (block_symbols (blocks ! b))"
    by (simp_all add: build_thunk_block_def remdups_adj_distinct)
qed

lemma thunk_block_symbols:
  assumes "build_thunk_layout env refs files = (files', blocks)" and d: "distinct (map fst files)"
    and fit: "unat (fst (part_extent env (primary_part env))) + total_bytes files < 2 ^ 64" and len: "length files < 2 ^ 32"
    and obj: "(fid, LayoutObject obj) \<in> set files'" "0 < post_gc_primary_bytes obj"
    and range: "range_of_file (collect_primary_ranges files (fst (part_extent env (primary_part env)))) fid = Some (s, e)"
    and "sid \<in> set (object_symbols obj)" and "vf_contains (symbol_flags env sid) HAS_RANGE_LIMITED_REL"
  shows "unat (thunk_block_id obj) < length blocks"
    and "block_part (blocks ! unat (thunk_block_id obj)) = primary_part env"
    and "fid \<in> set (block_objects (blocks ! unat (thunk_block_id obj)))"
    and "sorted (block_symbols (blocks ! unat (thunk_block_id obj)))"
    and "distinct (block_symbols (blocks ! unat (thunk_block_id obj)))"
    and "\<not> provably_in_range env (collect_primary_ranges files (fst (part_extent env (primary_part env)))) (s, e) (definition_of env sid)
      \<Longrightarrow> definition_of env sid \<in> set (block_symbols (blocks ! unat (thunk_block_id obj)))"
proof -
  let ?offset = "fst (part_extent env (primary_part env))"
  let ?ranges = "collect_primary_ranges files ?offset"
  let ?res = "assign_thunk_blocks (branch_range env) (placed files ?offset)"
  let ?files = "with_assignment (assigned (snd ?res)) files"
  let ?b = "unat (thunk_block_id obj)"
  have b: "?b < fst ?res" using layout_block [OF assms(1) d fit len obj range] by metis
  note block = build_thunk_layout_block [OF assms(1) d fit b]
  have "same_but_extra ?files files'" by (rule build_thunk_layout_unfold(1) [OF assms(1) d fit])
  from same_but_extra_in [OF this obj(1)] obtain o1 where o1: "(fid, LayoutObject o1) \<in> set ?files"
      "o1\<lparr>extra_thunk_block_ids := []\<rparr> = obj\<lparr>extra_thunk_block_ids := []\<rparr>" by blast
  have eqs: "post_gc_primary_bytes o1 = post_gc_primary_bytes obj" "object_symbols o1 = object_symbols obj"
      "thunk_block_id o1 = thunk_block_id obj"
    using arg_cong [OF o1(2), of post_gc_primary_bytes] arg_cong [OF o1(2), of object_symbols]
      arg_cong [OF o1(2), of thunk_block_id] by simp_all
  have mem: "fid \<in> set (primary_objects_of_block ?files ?b)"
    using o1(1) eqs obj(2) by (force simp: primary_objects_of_block_def List.map_filter_def)
  then show "fid \<in> set (block_objects (blocks ! ?b))" using block(3) by simp
  show "?b < length blocks" "block_part (blocks ! ?b) = primary_part env" "sorted (block_symbols (blocks ! ?b))"
    "distinct (block_symbols (blocks ! ?b))" by (rule block)+
  assume "\<not> provably_in_range env ?ranges (s, e) (definition_of env sid)"
  from object_thunk_symbols_complete [OF _ o1(1) range _ assms(9) this] assms(8) eqs(2) d mem block(4)
  show "definition_of env sid \<in> set (block_symbols (blocks ! ?b))"
    by (auto simp: map_fst_with_assignment)
qed

text \<open>
  C18. Every branch that may be out of reach has a thunk. For each object with code in the primary part
  and each of its symbols with a range-limited reference: the object's block exists, is a block of
  the primary part and lists the object; its symbols are in ascending order without duplicates;
  and it has a thunk for the definition of the symbol, unless the range that the code computes for
  the definition is so close that every address in it is less than the branch range from every
  place of the object's code.
\<close>

theorem thunk_available:
  assumes "build_thunk_layout env refs files = (files', blocks)" and d: "distinct (map fst files)"
    and fit: "unat (fst (part_extent env (primary_part env))) + total_bytes files < 2 ^ 64" and len: "length files < 2 ^ 32"
    and obj: "(fid, LayoutObject obj) \<in> set files'" "0 < post_gc_primary_bytes obj"
    and range: "range_of_file (collect_primary_ranges files (fst (part_extent env (primary_part env)))) fid = Some (s, e)"
    and "sid \<in> set (object_symbols obj)" and "vf_contains (symbol_flags env sid) HAS_RANGE_LIMITED_REL"
  shows "unat (thunk_block_id obj) < length blocks
    \<and> block_part (blocks ! unat (thunk_block_id obj)) = primary_part env
    \<and> fid \<in> set (block_objects (blocks ! unat (thunk_block_id obj)))
    \<and> sorted (block_symbols (blocks ! unat (thunk_block_id obj)))
    \<and> distinct (block_symbols (blocks ! unat (thunk_block_id obj)))
    \<and> (definition_of env sid \<in> set (block_symbols (blocks ! unat (thunk_block_id obj)))
       \<or> (\<exists>t0 t1. target_range_for_symbol env (collect_primary_ranges files (fst (part_extent env (primary_part env))))
             (definition_of env sid) = Some (t0, t1)
           \<and> (\<forall>place target. s \<le> place \<and> place \<le> e \<and> t0 \<le> target \<and> target \<le> t1 \<longrightarrow> word_distance place target < branch_range env)))"
proof -
  note block = thunk_block_symbols [OF assms]
  show ?thesis
    using block(6) provably_in_range_distance [of env "collect_primary_ranges files (fst (part_extent env (primary_part env)))" s e
        "definition_of env sid"]
    by (intro conjI block(1-5)) blast
qed

subsection \<open>A small layout\<close>

definition sample_thunk_env :: thunk_env where
  "sample_thunk_env = \<lparr>branch_range = 100, primary_part = 40, definition_of = id,
     symbol_flags = (\<lambda>s. if s = 7 then HAS_RANGE_LIMITED_REL else 0), part_of_symbol = (\<lambda>_. 40), file_of_symbol = (\<lambda>_. (0, 2)),
     part_extent = (\<lambda>p. if p = 40 then (1000, 170) else (0, 0))\<rparr>"

definition sample_thunk_files :: group_states where
  "sample_thunk_files = map (\<lambda>(i, n). ((0, i), LayoutObject \<lparr>post_gc_primary_bytes = n, object_symbols = [7], loaded_parts = [40],
      thunk_block_id = 0, owns_thunk_block = False, extra_thunk_block_ids = []\<rparr>)) [(0, 50), (1, 60), (2, 60)]"

definition sample_thunk_object :: "symbol_id \<Rightarrow> u64 \<Rightarrow> bool \<Rightarrow> thunk_object" where
  "sample_thunk_object b n own = \<lparr>post_gc_primary_bytes = n, object_symbols = [7], loaded_parts = [40],
     thunk_block_id = b, owns_thunk_block = own, extra_thunk_block_ids = []\<rparr>"

definition sample_thunk_result :: group_states where
  "sample_thunk_result = [((0, 0), LayoutObject (sample_thunk_object 0 50 True)),
     ((0, 1), LayoutObject (sample_thunk_object 0 60 False)), ((0, 2), LayoutObject (sample_thunk_object 1 60 True))]"

definition sample_thunk_blocks :: "thunk_builder list" where
  "sample_thunk_blocks = [\<lparr>block_part = 40, block_objects = [(0, 0), (0, 1)], block_symbols = [7]\<rparr>,
     \<lparr>block_part = 40, block_objects = [(0, 2)], block_symbols = []\<rparr>]"

lemma sample_thunk_layout:
  "build_thunk_layout sample_thunk_env [] sample_thunk_files = (sample_thunk_result, sample_thunk_blocks)"
  by code_simp

lemma sample_thunk_facts:
  "distinct (map fst sample_thunk_files)"
  "unat (fst (part_extent sample_thunk_env (primary_part sample_thunk_env))) + total_bytes sample_thunk_files < 2 ^ 64"
  "length sample_thunk_files < 2 ^ 32"
  "\<forall>(fid, fl) \<in> set sample_thunk_files. object_bytes fl < branch_range sample_thunk_env"
  "range_of_file (collect_primary_ranges sample_thunk_files (fst (part_extent sample_thunk_env (primary_part sample_thunk_env)))) (0, 1)
     = Some (1050, 1110)"
  by (simp_all add: sample_thunk_files_def sample_thunk_env_def object_bytes_def range_of_file_def)

theorem thunk_block_in_reach_witness:
  "\<exists>!owner. \<exists>oobj os oe. (owner, LayoutObject oobj) \<in> set sample_thunk_result \<and> 0 < post_gc_primary_bytes oobj
    \<and> thunk_block_id oobj = thunk_block_id (sample_thunk_object 0 60 False) \<and> owns_thunk_block oobj
    \<and> range_of_file (collect_primary_ranges sample_thunk_files (fst (part_extent sample_thunk_env (primary_part sample_thunk_env)))) owner = Some (os, oe)
    \<and> (if oe \<le> 1100 then 1100 - oe < branch_range sample_thunk_env
       else unat oe - unat (1100 :: u64) < unat (branch_range sample_thunk_env) + unat (post_gc_primary_bytes oobj))"
  by (rule thunk_block_in_reach [OF sample_thunk_layout sample_thunk_facts(1-4) _ _ sample_thunk_facts(5)])
     (simp_all add: sample_thunk_result_def sample_thunk_object_def)

theorem thunk_available_witness:
  "definition_of sample_thunk_env 7 \<in> set (block_symbols (sample_thunk_blocks ! unat (thunk_block_id (sample_thunk_object 0 60 False))))"
  using thunk_available [OF sample_thunk_layout sample_thunk_facts(1-3) _ _ sample_thunk_facts(5), of "sample_thunk_object 0 60 False" 7]
  by (simp add: sample_thunk_result_def sample_thunk_object_def sample_thunk_env_def sample_thunk_blocks_def vf_contains_def)

subsection \<open>Using a thunk\<close>

lemma thunk_address_loop_nth:
  assumes "distinct symbols" and "i < length symbols"
  shows "map_of (fst (thunk_address_loop thunk_size symbols addr)) (symbols ! i) = Some (addr + of_nat i * thunk_size)"
  using assms
proof (induction symbols arbitrary: addr i)
  case (Cons s symbols)
  then show ?case by (cases i) (auto simp: split_beta algebra_simps)
qed simp

lemma assign_thunk_block_addresses_nth:
  assumes "distinct (block_symbols block)" and "i < length (block_symbols block)"
  shows "map_of (fst (assign_thunk_block_addresses al thunk_size block addr)) (block_symbols block ! i) = Some (addr + of_nat i * thunk_size)"
proof -
  have "block_symbols block \<noteq> []" using assms(2) by auto
  then show ?thesis
    using thunk_address_loop_nth [OF assms] by (simp add: assign_thunk_block_addresses_def split_beta)
qed

lemma thunk_start_nonzero:
  fixes a n :: u64
  assumes "0 < a" and "unat a + k * unat n < 2 ^ 64" and "i < k"
  shows "a + of_nat i * n \<noteq> 0"
proof -
  have le: "i * unat n \<le> k * unat n" using assms(3) by simp
  have "0 < unat a" using assms(1) by (simp add: word_less_nat_alt)
  have "unat a + i * unat n < 2 ^ 64" using le assms(2) by linarith
  then have "unat (a + of_nat (i * unat n)) = unat a + i * unat n"
    by (simp add: unat_word_ariths unat_of_nat take_bit_eq_mod del: of_nat_mult)
  then have "unat (a + of_nat i * n) \<noteq> 0" using \<open>0 < unat a\<close> by (simp add: word_of_nat_eq_iff)
  then show ?thesis by auto
qed

text \<open>
  C20. An out-of-range branch is sent to its thunk. The blocks of a layout got their addresses, none of
  them past the end of the address space or at zero. When a thunkable relocation without page mask
  in the primary code of an object refers to one of the object's range-limited symbols, the
  definition is not provably in range and the relocation value is out of the allowed range, then
  the relocation finds a thunk: it gets the displacement from its place to the thunk that the
  object's block has for the definition, at the symbol's index in the block.
\<close>

theorem thunk_relocation_redirected:
  assumes "build_thunk_layout env refs files = (files', blocks)" and d: "distinct (map fst files)"
    and fit: "unat (fst (part_extent env (primary_part env))) + total_bytes files < 2 ^ 64" and len: "length files < 2 ^ 32"
    and obj: "(fid, LayoutObject obj) \<in> set files'" "0 < post_gc_primary_bytes obj"
    and range: "range_of_file (collect_primary_ranges files (fst (part_extent env (primary_part env)))) fid = Some (s, e)"
    and flagged: "sid \<in> set (object_symbols obj)" "vf_contains (symbol_flags env sid) HAS_RANGE_LIMITED_REL"
    and far: "\<not> provably_in_range env (collect_primary_ranges files (fst (part_extent env (primary_part env)))) (s, e) (definition_of env sid)"
    and starts: "length starts = length blocks"
      "\<forall>b < length blocks. 0 < starts ! b \<and> unat (starts ! b) + length (block_symbols (blocks ! b)) * unat thunk_size < 2 ^ 64"
    and rel: "thunkable info" "page_mask info = None" "bias info = 0" "\<not> contains (allowed info) (sint value)"
  shows "\<exists>i < length (block_symbols (blocks ! unat (thunk_block_id obj))).
    block_symbols (blocks ! unat (thunk_block_id obj)) ! i = definition_of env sid
    \<and> maybe_get_thunk_for_relocation (Some (primary_part env)) obj (map block_part blocks)
        (map (\<lambda>(block, start_address). fst (assign_thunk_block_addresses al thunk_size block start_address)) (zip blocks starts))
        (primary_part env) info (definition_of env sid) place value
      = Inr (Some (starts ! unat (thunk_block_id obj) + of_nat i * thunk_size - place))"
proof -
  let ?b = "unat (thunk_block_id obj)"
  let ?addresses = "map (\<lambda>(block, start_address). fst (assign_thunk_block_addresses al thunk_size block start_address)) (zip blocks starts)"
  note block = thunk_block_symbols [OF assms(1) d fit len obj range flagged]
  obtain i where i: "i < length (block_symbols (blocks ! ?b))" "block_symbols (blocks ! ?b) ! i = definition_of env sid"
    using block(6) [OF far] by (auto simp: in_set_conv_nth)
  have found: "map_of (?addresses ! ?b) (definition_of env sid) = Some (starts ! ?b + of_nat i * thunk_size)"
    using assign_thunk_block_addresses_nth [OF block(5) i(1), of al thunk_size "starts ! ?b"] i(2) block(1) starts(1)
    by (simp add: nth_zip)
  have "starts ! ?b + of_nat i * thunk_size \<noteq> 0"
    using starts(2) block(1) i(1) by (intro thunk_start_nonzero) auto
  then have "maybe_get_thunk_for_relocation (Some (primary_part env)) obj (map block_part blocks) ?addresses (primary_part env) info
      (definition_of env sid) place value = Inr (Some (starts ! ?b + of_nat i * thunk_size - place))"
    using rel found block(1) starts(1)
    by (simp add: maybe_get_thunk_for_relocation_def block_id_for_source_part_def page_mask_default_def Let_def)
  then show ?thesis using i by blast
qed

theorem thunk_relocation_redirected_witness:
  "maybe_get_thunk_for_relocation (Some 40) (sample_thunk_object 0 60 False) (map block_part sample_thunk_blocks)
     (map (\<lambda>(block, start_address). fst (assign_thunk_block_addresses MIN_ALIGN 12 block start_address)) (zip sample_thunk_blocks [1050, 1170])) 40
     (row_info True (RK_PltRelative, bit_mask_aarch64 2 28 A64_JumpCall, None, const_bit_size 28 Signed, 4, 0)) 7 1060 0x10000000
   = Inr (Some (- 10))"
proof -
  have far: "\<not> provably_in_range sample_thunk_env (collect_primary_ranges sample_thunk_files
      (fst (part_extent sample_thunk_env (primary_part sample_thunk_env)))) (1050, 1110) (definition_of sample_thunk_env 7)"
    by code_simp
  have starts: "\<forall>b < length sample_thunk_blocks. 0 < [1050, 1170 :: u64] ! b
      \<and> unat ([1050, 1170 :: u64] ! b) + length (block_symbols (sample_thunk_blocks ! b)) * unat (12 :: u64) < 2 ^ 64"
    by (auto simp: sample_thunk_blocks_def nth_Cons split: nat.split)
  have obj: "((0, 1), LayoutObject (sample_thunk_object 0 60 False)) \<in> set sample_thunk_result"
    by (simp add: sample_thunk_result_def)
  show ?thesis
    using thunk_relocation_redirected [OF sample_thunk_layout sample_thunk_facts(1-3) obj _ sample_thunk_facts(5) _ _ far _ starts,
        of "row_info True (RK_PltRelative, bit_mask_aarch64 2 28 A64_JumpCall, None, const_bit_size 28 Signed, 4, 0)" "0x10000000" MIN_ALIGN 1060]
    by (simp add: sample_thunk_object_def sample_thunk_env_def sample_thunk_blocks_def vf_contains_def
        const_bit_size_def from_bit_size_def contains_def AllowedRange_new_def)
qed

end
