(* ===== verification/Patch_Output.thy ===== *)
theory Patch_Output
  imports Reloc_Write Build_Id_Update "HOL-Library.Multiset"
begin

unbundle bit_operations_syntax

text \<open>
  Patching the output file in place, the last part of \<^verbatim>\<open>patch_changed_inputs\<close> in
  \<^verbatim>\<open>libsld/src/incremental.rs\<close>: the check that the patched ranges do not overlap, the loop that writes
  the patches, the update of the build id and the ranges that are flushed. How the patches are found
  in changed object files is not modelled: they are an argument. The messages of the code are
  constructors.
\<close>

datatype patch_reason =
    RangeOutOfBounds
  | RangeOverflow
  | RangesOverlap
  | DataDoesNotFit
  | PreserveRangeOutOfBounds
  | AdjustmentRangeOutOfBounds
  | AdjustmentOverflowed
  | UnsupportedFieldSize
  | DeferredSizeChanged
  | DeferredNotInstruction
  | DeferredNotValidated write_error
  | DeferredEncodingChanged
  | DeferredNotEncoded write_error
  | BuildIdNotFast
  | MissingBuildIdState
  | UnreadableBuildIdState

record deferred_relocation_patch =
  rel_info :: relocation_kind_info
  previous_written_value :: u64
  written_value :: u64

record patch_adjustment =
  adjustment_range :: "nat \<times> nat"
  addend_delta :: i64

record section_patch =
  output_offset :: u64
  patch_size :: u64
  data :: bytes
  deferred_relocation :: "deferred_relocation_patch option"
  preserve_ranges :: "(nat \<times> nat) list"
  adjustments :: "patch_adjustment list"

subsection \<open>The check\<close>

definition patch_range :: "section_patch \<Rightarrow> nat \<times> nat" where
  "patch_range p = (unat (output_offset p), unat (output_offset p) + unat (patch_size p))"

fun ranges_overlap :: "nat \<Rightarrow> (nat \<times> nat) list \<Rightarrow> bool" where
  "ranges_overlap previous_end [] = False"
| "ranges_overlap previous_end ((s, e) # rs) =
     (if s < e \<and> s < previous_end then True else ranges_overlap (max previous_end e) rs)"

definition patch_output_range_rejection_reason :: "section_patch list \<Rightarrow> patch_reason option" where
  "patch_output_range_rejection_reason patches =
     (if list_ex (\<lambda>p. 2 ^ 64 \<le> uint (output_offset p) + uint (patch_size p)) patches then Some RangeOverflow
      else if ranges_overlap 0 (sort_key fst (map patch_range patches)) then Some RangesOverlap
      else None)"

subsection \<open>One patch\<close>

text \<open>Whether an integer is in the range of \<^verbatim>\<open>i32\<close> or \<^verbatim>\<open>i64\<close>.\<close>

definition fits_signed :: "nat \<Rightarrow> int \<Rightarrow> bool" where
  "fits_signed n v \<longleftrightarrow> - (2 ^ (n - 1)) \<le> v \<and> v < 2 ^ (n - 1)"

definition apply_addend_delta :: "bytes \<Rightarrow> i64 \<Rightarrow> patch_reason + bytes" where
  "apply_addend_delta d delta =
     (if length d = 4 then
        let adjusted = sint (from_le_bytes d :: u32) + sint delta
        in if fits_signed 64 adjusted \<and> fits_signed 32 adjusted then Inr (to_le_bytes 4 (of_int adjusted :: u32))
           else Inl AdjustmentOverflowed
      else if length d = 8 then
        let adjusted = sint (from_le_bytes d :: u64) + sint delta
        in if fits_signed 64 adjusted then Inr (to_le_bytes 8 (of_int adjusted :: u64)) else Inl AdjustmentOverflowed
      else Inl UnsupportedFieldSize)"

definition materialize_deferred_relocation_patch ::
    "(u64 \<Rightarrow> bytes) \<Rightarrow> bytes \<Rightarrow> bytes \<Rightarrow> deferred_relocation_patch \<Rightarrow> (patch_reason + bytes) option" where
  "materialize_deferred_relocation_patch uleb d previous_output def =
     (if length d \<noteq> length previous_output then Some (Inl DeferredSizeChanged)
      else case size (rel_info def) of
        ByteSize _ \<Rightarrow> Some (Inl DeferredNotInstruction)
      | BitMasking m \<Rightarrow>
          if write_windows_size (instruction m) \<noteq> length d then Some (Inl DeferredSizeChanged)
          else do {
            replayed \<leftarrow> write_to_buffer uleb (rel_info def) (previous_written_value def) previous_output;
            case replayed of
              Inl e \<Rightarrow> Some (Inl (DeferredNotValidated e))
            | Inr replayed_previous_output \<Rightarrow>
                if replayed_previous_output \<noteq> previous_output then Some (Inl DeferredEncodingChanged)
                else map_option (map_sum DeferredNotEncoded (\<lambda>x. x))
                       (write_to_buffer uleb (rel_info def) (written_value def) previous_output)
          })"

fun preserve :: "(nat \<times> nat) list \<Rightarrow> bytes \<Rightarrow> bytes \<Rightarrow> patch_reason + bytes" where
  "preserve [] output_range d = Inr d"
| "preserve ((a, b) # rs) output_range d =
     (case (slice_range a b d, slice_range a b output_range) of
        (Some _, Some previous) \<Rightarrow> preserve rs output_range (take a d @ previous @ drop b d)
      | _ \<Rightarrow> Inl PreserveRangeOutOfBounds)"

fun adjust :: "patch_adjustment list \<Rightarrow> bytes \<Rightarrow> patch_reason + bytes" where
  "adjust [] d = Inr d"
| "adjust (adj # adjs) d =
     (let a = fst (adjustment_range adj); b = snd (adjustment_range adj) in
      case slice_range a b d of
        None \<Rightarrow> Inl AdjustmentRangeOutOfBounds
      | Some field \<Rightarrow>
          (case apply_addend_delta field (addend_delta adj) of
             Inl e \<Rightarrow> Inl e
           | Inr v \<Rightarrow> adjust adjs (take a d @ v @ drop b d)))"

text \<open>The new content of the output range of a patch, from its old content.\<close>

definition patched_bytes :: "(u64 \<Rightarrow> bytes) \<Rightarrow> bytes \<Rightarrow> section_patch \<Rightarrow> (patch_reason + bytes) option" where
  "patched_bytes uleb output_range p =
     (if length output_range < length (data p) then Some (Inl DataDoesNotFit)
      else do {
        m \<leftarrow> (case deferred_relocation p of
                 None \<Rightarrow> Some (Inr (data p))
               | Some def \<Rightarrow> materialize_deferred_relocation_patch uleb (data p) output_range def);
        case m of
          Inl e \<Rightarrow> Some (Inl e)
        | Inr d \<Rightarrow>
            (case preserve (preserve_ranges p) output_range d of
               Inl e \<Rightarrow> Some (Inl e)
             | Inr d \<Rightarrow>
                 (case adjust (adjustments p) d of
                    Inl e \<Rightarrow> Some (Inl e)
                  | Inr d \<Rightarrow>
                      if length output_range < length d then None
                      else Some (Inr (d @ replicate (length output_range - length d) 0))))
      })"

fun apply_patches ::
    "(u64 \<Rightarrow> bytes) \<Rightarrow> bytes \<Rightarrow> section_patch list \<Rightarrow> (patch_reason + bytes \<times> (nat \<times> nat) list) option" where
  "apply_patches uleb output [] = Some (Inr (output, []))"
| "apply_patches uleb output (p # ps) =
     (let (a, b) = patch_range p in
      case slice_range a b output of
        None \<Rightarrow> Some (Inl RangeOutOfBounds)
      | Some output_range \<Rightarrow>
          do {
            n \<leftarrow> patched_bytes uleb output_range p;
            case n of
              Inl e \<Rightarrow> Some (Inl e)
            | Inr new \<Rightarrow>
                do {
                  output' \<leftarrow> copy_from_slice a b new output;
                  r \<leftarrow> apply_patches uleb output' ps;
                  Some (map_sum (\<lambda>e. e) (\<lambda>(out, ranges). (out, (a, b) # ranges)) r)
                }
          })"

subsection \<open>Flushing\<close>

text \<open>\<open>merged\<close> is the vector in reverse: its head is the last element.\<close>

fun merge_ranges :: "(nat \<times> nat) list \<Rightarrow> (nat \<times> nat) list \<Rightarrow> (nat \<times> nat) list" where
  "merge_ranges merged [] = rev merged"
| "merge_ranges [] (r # rs) = merge_ranges [r] rs"
| "merge_ranges (previous # merged) (r # rs) =
     (if fst r \<le> snd previous then merge_ranges ((fst previous, max (snd previous) (snd r)) # merged) rs
      else merge_ranges (r # previous # merged) rs)"

definition flush_output_ranges :: "(nat \<times> nat) list \<Rightarrow> (nat \<times> nat) list" where
  "flush_output_ranges ranges = merge_ranges [] (sort_key fst (filter (\<lambda>r. fst r < snd r) ranges))"

subsection \<open>The whole update\<close>

datatype patch_result =
    Unsupported patch_reason
  | StartedUnsupported patch_reason
  | BuildIdFailed build_id_error
  | Patched bytes "build_id_hash_state option" "bytes list option" "(nat \<times> nat) list"

text \<open>
  From the check on: \<open>note_range\<close> is the place of the build id note that the crate \<^verbatim>\<open>object\<close> finds in
  the old output, \<open>fast\<close> is \<^verbatim>\<open>args.has_incremental_fast_build_id()\<close>, \<open>file\<close> the stored tree. \<open>Patched\<close>
  has the new output, the new state and tree, and the ranges that are flushed to the file.
\<close>

definition patch_output ::
    "(string \<Rightarrow> u32) \<Rightarrow> (u64 \<Rightarrow> bytes) \<Rightarrow> blake3 \<Rightarrow> bool \<Rightarrow> (nat \<times> nat) option \<Rightarrow> build_id_hash_state option \<Rightarrow> bytes option
     \<Rightarrow> section_patch list \<Rightarrow> bytes \<Rightarrow> patch_result option" where
  "patch_output elf uleb b3 fast note_range previous_hashes file patches output =
     (case patch_output_range_rejection_reason patches of
        Some reason \<Rightarrow> Some (Unsupported reason)
      | None \<Rightarrow>
          if note_range \<noteq> None \<and> \<not> fast then Some (Unsupported BuildIdNotFast)
          else
            (let read = (case note_range of
                 None \<Rightarrow> Inr None
               | Some rng \<Rightarrow>
                   (case previous_hashes of
                      None \<Rightarrow> Inl MissingBuildIdState
                    | Some st \<Rightarrow>
                        (case read_build_id_hash_tree b3 st file of
                           Inl _ \<Rightarrow> Inl UnreadableBuildIdState
                         | Inr tree \<Rightarrow> Inr (Some (rng, st, tree)))))
             in case read of
                  Inl reason \<Rightarrow> Some (Unsupported reason)
                | Inr hashes \<Rightarrow>
                    do {
                      r \<leftarrow> apply_patches uleb output patches;
                      case r of
                        Inl reason \<Rightarrow> Some (StartedUnsupported reason)
                      | Inr (output, patched_ranges) \<Rightarrow>
                          (case hashes of
                             None \<Rightarrow> Some (Patched output None None (flush_output_ranges patched_ranges))
                           | Some (rng, st, tree) \<Rightarrow>
                               do {
                                 w \<leftarrow> write_fast_build_id_from_state elf b3 output rng st tree patched_ranges;
                                 Some (case w of
                                   Inl e \<Rightarrow> BuildIdFailed e
                                 | Inr (output, st, tree) \<Rightarrow>
                                     Patched output (Some st) (Some tree) (flush_output_ranges (patched_ranges @ [rng])))
                               })
                    }))"

subsection \<open>Disjoint ranges\<close>

definition disjoint_ranges :: "nat \<times> nat \<Rightarrow> nat \<times> nat \<Rightarrow> bool" where
  "disjoint_ranges r q \<longleftrightarrow> {fst r..<snd r} \<inter> {fst q..<snd q} = {}"

lemma disjoint_rangesD: "disjoint_ranges (a, b) q \<Longrightarrow> a \<le> i \<Longrightarrow> i < b \<Longrightarrow> \<not> (fst q \<le> i \<and> i < snd q)"
  unfolding disjoint_ranges_def disjoint_iff by auto

lemma ranges_overlap_disjoint:
  "\<not> ranges_overlap prev rs \<Longrightarrow> sorted (map fst rs) \<Longrightarrow>
    (\<forall>r \<in> set rs. fst r < snd r \<longrightarrow> prev \<le> fst r) \<and> sorted_wrt disjoint_ranges rs"
proof (induction prev rs rule: ranges_overlap.induct)
  case (2 prev s e rs)
  have rest: "\<forall>r \<in> set rs. fst r < snd r \<longrightarrow> max prev e \<le> fst r" "sorted_wrt disjoint_ranges rs"
    using 2 by (auto split: if_split_asm)
  moreover have "s < e \<longrightarrow> prev \<le> s" using 2(2) by (auto split: if_split_asm)
  moreover have "disjoint_ranges (s, e) r" if "r \<in> set rs" for r
    using rest(1) that by (auto simp: disjoint_ranges_def)
  ultimately show ?case by auto
qed simp

lemma sorted_wrt_mset:
  assumes "\<And>x y. R x y \<Longrightarrow> R y x" and "mset xs = mset ys" and "sorted_wrt R xs"
  shows "sorted_wrt R ys"
  using assms(2,3)
proof (induction xs arbitrary: ys)
  case (Cons x xs)
  have "x \<in> set ys" using Cons.prems(1) by (metis list.set_intros(1) set_mset_mset)
  then obtain as bs where ys: "ys = as @ x # bs" by (meson split_list)
  then have m: "mset xs = mset (as @ bs)" using Cons.prems(1) by simp
  then have "set xs = set (as @ bs)" by (metis set_mset_mset)
  moreover have "sorted_wrt R (as @ bs)" using Cons.IH [OF m] Cons.prems(2) by simp
  ultimately show ?case using Cons.prems(2) assms(1) by (auto simp: ys sorted_wrt_append)
qed simp

lemma accepted_disjoint:
  assumes "patch_output_range_rejection_reason patches = None"
  shows "sorted_wrt disjoint_ranges (map patch_range patches)"
proof -
  let ?rs = "map patch_range patches"
  have "\<not> ranges_overlap 0 (sort_key fst ?rs)"
    using assms by (auto simp: patch_output_range_rejection_reason_def split: if_split_asm)
  then have "sorted_wrt disjoint_ranges (sort_key fst ?rs)"
    using ranges_overlap_disjoint by (metis sorted_sort_key)
  then show ?thesis
    using sorted_wrt_mset [of disjoint_ranges "sort_key fst ?rs" ?rs] by (auto simp: disjoint_ranges_def)
qed

subsection \<open>Writing the patches\<close>

lemma slice_range_cong:
  assumes "length xs = length ys" and "\<And>i. a \<le> i \<Longrightarrow> i < b \<Longrightarrow> i < length xs \<Longrightarrow> xs ! i = ys ! i"
  shows "slice_range a b xs = slice_range a b ys"
  using assms by (auto simp: slice_range_def intro!: nth_equalityI)

lemma slice_copied:
  "copy_from_slice a b new xs = Some ys \<Longrightarrow> slice_range a b ys = Some new"
  by (auto simp: copy_from_slice_def slice_range_def split: if_split_asm)

text \<open>The bytes outside all patched ranges.\<close>

definition unpatched :: "(nat \<times> nat) list \<Rightarrow> nat \<Rightarrow> bool" where
  "unpatched ranges p \<longleftrightarrow> (\<forall>r \<in> set ranges. p \<notin> {fst r..<snd r})"

lemma apply_patches_correct:
  assumes "apply_patches uleb xs ps = Some (Inr (out, rngs))" and "sorted_wrt disjoint_ranges (map patch_range ps)"
  shows "rngs = map patch_range ps \<and> length out = length xs
    \<and> (\<forall>i < length xs. unpatched rngs i \<longrightarrow> out ! i = xs ! i)
    \<and> (\<forall>p \<in> set ps. \<exists>old new. slice_range (fst (patch_range p)) (snd (patch_range p)) xs = Some old
         \<and> patched_bytes uleb old p = Some (Inr new) \<and> slice_range (fst (patch_range p)) (snd (patch_range p)) out = Some new)"
  using assms
proof (induction ps arbitrary: xs rngs)
  case Nil
  then show ?case by simp
next
  case (Cons p ps)
  obtain a b where ab: "patch_range p = (a, b)" by (cases "patch_range p")
  obtain old new xs' rngs' where old: "slice_range a b xs = Some old" and new: "patched_bytes uleb old p = Some (Inr new)"
    and cp: "copy_from_slice a b new xs = Some xs'" and run: "apply_patches uleb xs' ps = Some (Inr (out, rngs'))"
    and rngs: "rngs = (a, b) # rngs'"
    using Cons.prems(1) ab
    by (auto simp: map_sum_def split: option.split_asm Option.bind_split_asm sum.split_asm)
  have disj: "\<forall>q \<in> set ps. disjoint_ranges (a, b) (patch_range q)" and rest: "sorted_wrt disjoint_ranges (map patch_range ps)"
    using Cons.prems(2) ab by auto
  note IH = Cons.IH [OF run rest] and len = length_copy_from_slice [OF cp] and nth = nth_copy_from_slice [OF cp]
  have "unpatched rngs' i" if "a \<le> i" "i < b" for i
    using IH disj that disjoint_rangesD [of a b _ i] by (simp add: unpatched_def)
  then have "slice_range a b out = slice_range a b xs'"
    using IH by (intro slice_range_cong) auto
  then have "slice_range a b out = Some new" using slice_copied [OF cp] by simp
  moreover have "slice_range (fst (patch_range q)) (snd (patch_range q)) xs' = slice_range (fst (patch_range q)) (snd (patch_range q)) xs"
    if "q \<in> set ps" for q
    using disj that nth len disjoint_rangesD [of a b "patch_range q"] by (intro slice_range_cong) (simp, metis)
  moreover have "out ! i = xs ! i" if "i < length xs" "unpatched rngs i" for i
    using IH that nth len by (auto simp: rngs unpatched_def)
  ultimately show ?case using IH old new len ab by (auto simp: rngs)
qed

subsection \<open>Flushed ranges\<close>

lemma merge_ranges_covers:
  assumes "sorted (map fst rs)" and "\<forall>r \<in> set merged. \<forall>q \<in> set rs. fst r \<le> fst q"
    and "\<forall>r \<in> set (merged @ rs). fst r < snd r"
  shows "(\<Union>r \<in> set (merge_ranges merged rs). {fst r..<snd r}) = (\<Union>r \<in> set (merged @ rs). {fst r..<snd r})"
  using assms
proof (induction merged rs rule: merge_ranges.induct)
  case (3 previous merged r rs)
  show ?case
  proof (cases "fst r \<le> snd previous")
    case True
    let ?m = "(fst previous, max (snd previous) (snd r))"
    have "{fst ?m..<snd ?m} = {fst previous..<snd previous} \<union> {fst r..<snd r}" using True 3(4) by auto
    moreover have "(\<Union>r \<in> set (merge_ranges (?m # merged) rs). {fst r..<snd r}) = (\<Union>r \<in> set ((?m # merged) @ rs). {fst r..<snd r})"
      using 3 True by (intro "3.IH"(1)) (auto simp: less_max_iff_disj)
    ultimately show ?thesis using True by auto
  next
    case False
    have "(\<Union>q \<in> set (merge_ranges (r # previous # merged) rs). {fst q..<snd q}) = (\<Union>q \<in> set ((r # previous # merged) @ rs). {fst q..<snd q})"
      using 3 False by (intro "3.IH"(2)) auto
    then show ?thesis using False by auto
  qed
qed auto

lemma flush_covers:
  "(\<Union>r \<in> set (flush_output_ranges ranges). {fst r..<snd r}) = (\<Union>r \<in> set ranges. {fst r..<snd r})"
proof -
  have "(\<Union>r \<in> set (flush_output_ranges ranges). {fst r..<snd r}) = (\<Union>r \<in> {r \<in> set ranges. fst r < snd r}. {fst r..<snd r})"
    unfolding flush_output_ranges_def by (subst merge_ranges_covers) auto
  also have "\<dots> = (\<Union>r \<in> set ranges. {fst r..<snd r})" by auto
  finally show ?thesis .
qed

lemma unpatched_change:
  assumes "apply_patches uleb output ps = Some (Inr (mid, rs))" and "sorted_wrt disjoint_ranges (map patch_range ps)"
  shows "\<forall>p \<in> {..<length mid}. output ! p \<noteq> mid ! p \<longrightarrow> p \<in> {a..<b} \<or> (\<exists>(a, b) \<in> set rs. a \<le> p \<and> p < b)"
  using apply_patches_correct [OF assms] by (fastforce simp: unpatched_def)

lemma patched_ranges_valid:
  assumes "apply_patches uleb output ps = Some (Inr (mid, rs))" and "sorted_wrt disjoint_ranges (map patch_range ps)"
  shows "\<forall>(a, b) \<in> set rs. a \<le> b \<and> b \<le> length mid"
proof -
  have "fst r \<le> snd r \<and> snd r \<le> length mid" if r: "r \<in> set rs" for r
  proof -
    have "set rs = patch_range ` set ps" using apply_patches_correct [OF assms] by (metis set_map)
    then obtain p where "p \<in> set ps" "r = patch_range p" using r by auto
    then obtain old where "slice_range (fst r) (snd r) output = Some old" using apply_patches_correct [OF assms] by blast
    then show ?thesis using apply_patches_correct [OF assms] by (simp add: slice_range_def split: if_split_asm)
  qed
  then show ?thesis by fastforce
qed

text \<open>
  C27. Patching in place: when the patches are accepted and written to an output without build id,
  each patched range holds exactly what its patch computes from the old bytes of that range, whatever
  the order of the patches; every other byte stays, and the bytes flushed to the file are those of the
  patched ranges.
\<close>

theorem patch_output_exact:
  assumes "patch_output elf uleb b3 fast None st file ps output = Some (Patched out st' tree' flushed)"
  shows "length out = length output
    \<and> (\<forall>i \<in> {..<length output}. unpatched (map patch_range ps) i \<longrightarrow> out ! i = output ! i)
    \<and> (\<forall>p \<in> set ps. \<exists>old new. slice_range (fst (patch_range p)) (snd (patch_range p)) output = Some old
         \<and> patched_bytes uleb old p = Some (Inr new) \<and> slice_range (fst (patch_range p)) (snd (patch_range p)) out = Some new)
    \<and> (\<Union>r \<in> set flushed. {fst r..<snd r}) = (\<Union>p \<in> set ps. {fst (patch_range p)..<snd (patch_range p)})"
proof -
  obtain rs where acc: "patch_output_range_rejection_reason ps = None"
    and rs: "apply_patches uleb output ps = Some (Inr (out, rs))" "flushed = flush_output_ranges rs"
    using assms by (auto simp: patch_output_def split: option.split_asm Option.bind_split_asm sum.split_asm)
  note c = apply_patches_correct [OF rs(1) accepted_disjoint [OF acc]]
  then show ?thesis using rs(2) flush_covers [of rs] by auto
qed

text \<open>
  C28. Patching in place and the build id: when the stored tree is the one of the old output, the
  patched output has the build id, the state and the tree that a full link of the same bytes would
  give, the note holds that build id, and all other bytes are the patched ones.
\<close>

theorem patch_output_build_id:
  assumes ok: "blake3_ok b3" and len: "a + (16 + out_len b3) = b" "b \<le> length output"
    and old: "compute_fast_build_id_and_prepare_state b3 (Some (a, b)) False output = Some (Inr (Some (old_id, st, tree)))"
    and fl: "file = write_build_id_hash_tree (Some tree)"
    and acc: "patch_output_range_rejection_reason ps = None" and run: "apply_patches uleb output ps = Some (Inr (mid, rs))"
  shows "\<exists>out build_id st' tree'. patch_output elf uleb b3 True (Some (a, b)) (Some st) file ps output
      = Some (Patched out (Some st') (Some tree') (flush_output_ranges (rs @ [(a, b)])))
    \<and> compute_fast_build_id_and_prepare_state b3 (Some (a, b)) False out = Some (Inr (Some (build_id, st', tree')))
    \<and> slice_range a b out = Some (build_id_note elf b3 build_id)
    \<and> (\<forall>i \<in> {..<length out}. i \<notin> {a..<b} \<longrightarrow> out ! i = mid ! i)"
proof -
  have rd: "read_build_id_hash_tree b3 st file = Inr tree"
    using build_id_store_roundtrip [OF ok old] len fl by simp
  have told: "build_id_hash_tree b3 output (a, b) = Some (Some tree)" "output_len st = length output" "nodes st = length tree"
    using old
    by (auto simp: compute_fast_build_id_and_prepare_state_def Let_def map_sum_def
        split: sum.split_asm Option.bind_split_asm option.split_asm)
  note disj = accepted_disjoint [OF acc]
  have mid: "length output = length mid" using apply_patches_correct [OF run disj] by simp
  obtain out z st' tree' where w: "write_fast_build_id_from_state elf b3 mid (a, b) st tree rs = Some (Inr (out, st', tree'))"
    and z: "fill_zero a b mid = Some z" "fill_zero a b out = Some z"
    and res: "slice_range a b out = Some (build_id_note elf b3 (hash_all b3 z))"
      "compute_fast_build_id_and_prepare_state b3 (Some (a, b)) False out = Some (Inr (Some (hash_all b3 z, st', tree')))"
    using incremental_build_id_correct [OF ok len(1) _ told(1) mid told(2,3) patched_ranges_valid [OF run disj] unpatched_change [OF run disj]]
    len(2) mid by (metis (no_types, lifting))
  have "out ! i = mid ! i" if "i < length out" "i \<notin> {a..<b}" for i
    using fill_zero_nth(4) [OF z(1), of i] fill_zero_nth(4) [OF z(2), of i] fill_zero_nth(1) [OF z(1)] fill_zero_nth(1) [OF z(2)] that by auto
  then show ?thesis using w res by (auto simp: patch_output_def acc rd run)
qed

subsection \<open>Examples\<close>

text \<open>Two patches: shorter data with padding, and a four-byte field that is kept and adjusted by one.\<close>

definition sample_patches :: "section_patch list" where
  "sample_patches =
     [\<lparr>output_offset = 30, patch_size = 4, data = [0, 0, 0, 0], deferred_relocation = None, preserve_ranges = [(0, 4)],
       adjustments = [\<lparr>adjustment_range = (0, 4), addend_delta = 1\<rparr>]\<rparr>,
      \<lparr>output_offset = 4, patch_size = 4, data = [9, 8], deferred_relocation = None, preserve_ranges = [], adjustments = []\<rparr>]"

definition sample_patched :: bytes where
  "sample_patched = replicate 4 1 @ [9, 8, 0, 0] @ replicate 2 1 @ replicate 17 0 @ replicate 3 2 @ [3, 2, 2, 2] @ replicate 53 2"

lemma sample_run:
  "patch_output (\<lambda>_. 3) (\<lambda>_. []) sum_b3 True None None None sample_patches sample_output
     = Some (Patched sample_patched None None [(4, 8), (30, 34)])"
  by code_simp

theorem patch_output_exact_witness:
  "length sample_patched = length sample_output
    \<and> (\<Union>r \<in> set [(4, 8), (30, 34)]. {fst r..<snd r}) = (\<Union>p \<in> set sample_patches. {fst (patch_range p)..<snd (patch_range p)})"
  using patch_output_exact [OF sample_run] by blast

theorem patch_output_build_id_witness:
  "\<exists>out build_id st' tree'.
     patch_output (\<lambda>_. 3) (\<lambda>_. []) sum_b3 True (Some (10, 27)) (Some \<lparr>output_len = 87, nodes = 2, tree_hash = Some []\<rparr>)
         (write_build_id_hash_tree (Some [[84], [46]])) sample_patches sample_output
       = Some (Patched out (Some st') (Some tree') (flush_output_ranges [(30, 34), (4, 8), (10, 27)]))
    \<and> compute_fast_build_id_and_prepare_state sum_b3 (Some (10, 27)) False out = Some (Inr (Some (build_id, st', tree')))"
proof -
  have "compute_fast_build_id_and_prepare_state sum_b3 (Some (10, 27)) False sample_output
      = Some (Inr (Some ([130], \<lparr>output_len = 87, nodes = 2, tree_hash = Some []\<rparr>, [[84], [46]])))"
    by code_simp
  moreover have "patch_output_range_rejection_reason sample_patches = None" by code_simp
  moreover have "apply_patches (\<lambda>_. []) sample_output sample_patches = Some (Inr (sample_patched, [(30, 34), (4, 8)]))"
    by code_simp
  moreover have "10 + (16 + out_len sum_b3) = 27" "27 \<le> length sample_output" by (simp_all add: sum_b3_def sample_output_def)
  ultimately show ?thesis
    using patch_output_build_id [OF sum_b3_ok, of 10 27 sample_output "[130]" _ _ _ sample_patches "\<lambda>_. []" sample_patched "[(30, 34), (4, 8)]" "\<lambda>_. 3", OF _ _ _ refl]
    by (simp only: append.simps) blast
qed

end
