(* ===== verification/State_Dir.thy ===== *)
theory State_Dir
  imports State_Index "HOL-Library.List_Lexorder" "HOL-Library.Char_ord" "HOL-Library.Product_Lexorder" "HOL-Library.Option_ord" "HOL-Library.Multiset"
begin

text \<open>
  The state directory of an incremental link, from \<^verbatim>\<open>libsld/src/incremental.rs\<close>: the index, the metadata
  update and the sidecar files. The records of each input are one compressed block of the sidecar, and the
  locations in the index say which blocks an input needs. The crate \<^verbatim>\<open>zstd\<close> and the hash of a byte
  string are parameters. A text is its bytes. Error texts are without the path of the file.
\<close>

record zstd =
  zstd_encode :: "string \<Rightarrow> string res"
  zstd_decode :: "string \<Rightarrow> string res"

subsection \<open>Order of records\<close>

text \<open>The derived \<^verbatim>\<open>Ord\<close>: the fields in order, texts by bytes, an absent value first.\<close>

definition section_key :: "section_record \<Rightarrow> string \<times> string \<times> u32 \<times> u64 \<times> u64" where
  "section_key s = (sr_input_file s, sr_input s, sr_section_index s, sr_output_offset s, sr_size s)"

definition target_key :: "relocation_target_record \<Rightarrow> string \<times> string \<times> u32 \<times> u64" where
  "target_key t = (rt_input_file t, rt_input t, rt_section_index t, rt_section_offset t)"

definition relocation_key ::
    "relocation_record \<Rightarrow> u32 \<times> u64 option \<times> u64 \<times> string option \<times> (string \<times> string \<times> u32 \<times> u64) option
       \<times> string \<times> string \<times> u32 \<times> u64 \<times> u64 \<times> u64 \<times> u32 \<times> int" where
  "relocation_key r =
     (rr_target_symbol_id r, rr_written_value r, rr_target_value r, rr_target_name r, map_option target_key (rr_target r),
      rr_input_file r, rr_input r, rr_section_index r, rr_relocation_offset r, rr_output_offset r, rr_size r, rr_kind r, sint (rr_addend r))"

definition fde_key :: "fde_record \<Rightarrow> string \<times> string \<times> u32 \<times> u32 \<times> u64 \<times> u64 \<times> u64" where
  "fde_key f = (fr_input_file f, fr_input f, fr_section_index f, fr_eh_frame_section_index f, fr_input_offset f, fr_output_offset f, fr_size f)"

definition dynamic_relocation_key ::
    "dynamic_relocation_record \<Rightarrow> string \<times> string \<times> u32 \<times> u64 \<times> u64 \<times> u64 \<times> u64 option \<times> u64 option" where
  "dynamic_relocation_key d =
     (dr_input_file d, dr_input d, dr_section_index d, dr_relocation_offset d, dr_output_offset d, dr_size d,
      dr_output_r_offset d, dr_output_r_info d)"

definition location_key :: "patch_record_location \<Rightarrow> string \<times> u64 \<times> u64 \<times> string" where
  "location_key l = (pl_input_file l, pl_offset l, pl_len l, pl_hash l)"

text \<open>\<^verbatim>\<open>sort\<close> and \<^verbatim>\<open>dedup\<close>.\<close>

definition sort_dedup :: "('a \<Rightarrow> 'k::linorder) \<Rightarrow> 'a list \<Rightarrow> 'a list" where
  "sort_dedup k xs = remdups_adj (sort_key k xs)"

definition sorted_records :: "compact_records \<Rightarrow> compact_records" where
  "sorted_records cr =
     \<lparr>cr_sections = sort_dedup section_key (cr_sections cr), cr_relocations = sort_dedup relocation_key (cr_relocations cr),
      cr_fdes = sort_dedup fde_key (cr_fdes cr), cr_dynamic_relocations = sort_dedup dynamic_relocation_key (cr_dynamic_relocations cr)\<rparr>"

subsection \<open>Writing the blocks\<close>

definition record_owners :: "compact_records \<Rightarrow> string list" where
  "record_owners cr =
     remdups_adj (sort (map sr_input_file (cr_sections cr) @ map rr_input_file (cr_relocations cr)
       @ map fr_input_file (cr_fdes cr) @ map dr_input_file (cr_dynamic_relocations cr)))"

definition relocation_aliases :: "relocation_record list \<Rightarrow> (string \<times> string) list" where
  "relocation_aliases rs =
     concat (map (\<lambda>r. case rr_target r of
                        None \<Rightarrow> []
                      | Some t \<Rightarrow> if rt_input_file t \<noteq> rr_input_file r then [(rt_input_file t, rr_input_file r)] else []) rs)"

text \<open>The records of one input, sorted.\<close>

definition owner_records :: "compact_records \<Rightarrow> string \<Rightarrow> compact_records" where
  "owner_records cr f =
     \<lparr>cr_sections = sort_key section_key (filter (\<lambda>s. sr_input_file s = f) (cr_sections cr)),
      cr_relocations = sort_key relocation_key (filter (\<lambda>r. rr_input_file r = f) (cr_relocations cr)),
      cr_fdes = sort_key fde_key (filter (\<lambda>x. fr_input_file x = f) (cr_fdes cr)),
      cr_dynamic_relocations = sort_key dynamic_relocation_key (filter (\<lambda>d. dr_input_file d = f) (cr_dynamic_relocations cr))\<rparr>"

text \<open>\<open>None\<close> is a panic of the writer, a key without a number.\<close>

fun compress_blocks :: "zstd \<Rightarrow> compact_records \<Rightarrow> string list \<Rightarrow> (string \<times> string) list res option" where
  "compress_blocks zs cr [] = Some (Inr [])"
| "compress_blocks zs cr (f # fs) =
     do {
       text_block \<leftarrow> write_rendered_records (owner_records cr f);
       rest \<leftarrow> compress_blocks zs cr fs;
       Some (res_bind (zstd_encode zs text_block) (\<lambda>block. res_bind rest (\<lambda>blocks. Inr ((f, block) # blocks))))
     }"

fun place_blocks :: "(string \<Rightarrow> string) \<Rightarrow> u64 \<Rightarrow> (string \<times> string) list \<Rightarrow> patch_record_location list" where
  "place_blocks hash off [] = []"
| "place_blocks hash off ((f, block) # blocks) =
     \<lparr>pl_input_file = f, pl_offset = off, pl_len = of_nat (length block), pl_hash = hash block\<rparr>
     # place_blocks hash (off + of_nat (length block)) blocks"

definition alias_locations :: "patch_record_location list \<Rightarrow> (string \<times> string) list \<Rightarrow> patch_record_location list" where
  "alias_locations locs aliases =
     concat (map (\<lambda>(target, owner). case find (\<lambda>l. pl_input_file l = owner) locs of
                                      None \<Rightarrow> []
                                    | Some l \<Rightarrow> [l\<lparr>pl_input_file := target\<rparr>]) aliases)"

definition write_indexed_records ::
    "zstd \<Rightarrow> (string \<Rightarrow> string) \<Rightarrow> compact_records \<Rightarrow> (string \<times> string \<times> patch_record_location list) res option" where
  "write_indexed_records zs hash cr =
     map_option (\<lambda>blocks. res_bind blocks (\<lambda>blocks.
         let owned = place_blocks hash 0 blocks;
             aliases = remdups_adj (sort (relocation_aliases (cr_relocations cr)));
             contents = concat (map snd blocks)
         in Inr (COMPRESSED_SECTIONS_FILE_PREFIX @ hash contents, contents,
                 sort_dedup location_key (owned @ alias_locations owned aliases))))
       (compress_blocks zs cr (record_owners cr))"

subsection \<open>Reading the blocks\<close>

definition append_records :: "compact_records \<Rightarrow> compact_records \<Rightarrow> compact_records" where
  "append_records a b =
     \<lparr>cr_sections = cr_sections a @ cr_sections b, cr_relocations = cr_relocations a @ cr_relocations b,
      cr_fdes = cr_fdes a @ cr_fdes b, cr_dynamic_relocations = cr_dynamic_relocations a @ cr_dynamic_relocations b\<rparr>"

text \<open>One block of a sidecar file.\<close>

definition read_block :: "zstd \<Rightarrow> (string \<Rightarrow> string) \<Rightarrow> string \<Rightarrow> string \<Rightarrow> patch_record_location \<Rightarrow> compact_records res" where
  "read_block zs hash file_name contents l =
     (if 2 ^ 64 \<le> unat (pl_offset l) + unat (pl_len l) then Inl ''Incremental patch record range overflowed''
      else if length contents < unat (pl_offset l) + unat (pl_len l) then Inl ''Incremental patch record range is outside the file''
      else
        let bytes = take (unat (pl_len l)) (drop (unat (pl_offset l)) contents) in
        if hash bytes \<noteq> pl_hash l then Inl ''Incremental patch records do not match their content hash''
        else
          res_bind (if starts_with COMPRESSED_SECTIONS_FILE_PREFIX file_name then zstd_decode zs bytes else Inr bytes) (\<lambda>bytes.
          if \<not> utf8_valid bytes then Inl ''Invalid UTF-8 in incremental patch record sidecar''
          else parse_compact_records_block (rust_lines bytes)))"

fun read_blocks ::
    "zstd \<Rightarrow> (string \<Rightarrow> string) \<Rightarrow> string \<Rightarrow> string \<Rightarrow> compact_records \<Rightarrow> patch_record_location list \<Rightarrow> compact_records res" where
  "read_blocks zs hash file_name contents acc [] = Inr acc"
| "read_blocks zs hash file_name contents acc (l # ls) =
     res_bind (read_block zs hash file_name contents l) (\<lambda>block.
     read_blocks zs hash file_name contents (append_records acc block) ls)"

definition read_indexed_records_at_locations ::
    "zstd \<Rightarrow> (string \<Rightarrow> string) \<Rightarrow> (string \<rightharpoonup> string) \<Rightarrow> string \<Rightarrow> patch_record_location list \<Rightarrow> compact_records res" where
  "read_indexed_records_at_locations zs hash files file_name locs =
     res_bind (validate_sections_file_name file_name) (\<lambda>_.
     res_bind (context_msg ''Failed to read incremental sections'' (files file_name)) (\<lambda>contents.
     res_bind (read_blocks zs hash file_name contents no_records locs) (\<lambda>records. Inr (sorted_records records))))"

text \<open>\<^verbatim>\<open>dedup_by\<close> with equal keys: the first of a run stays.\<close>

fun dedup_key :: "('a \<Rightarrow> 'k) \<Rightarrow> 'a list \<Rightarrow> 'a list" where
  "dedup_key k (x # y # zs) = (if k x = k y then dedup_key k (x # zs) else x # dedup_key k (y # zs))"
| "dedup_key k xs = xs"

definition block_key :: "patch_record_location \<Rightarrow> u64 \<times> u64 \<times> string" where
  "block_key l = (pl_offset l, pl_len l, pl_hash l)"

definition read_all_indexed_records ::
    "zstd \<Rightarrow> (string \<Rightarrow> string) \<Rightarrow> (string \<rightharpoonup> string) \<Rightarrow> persisted_state \<Rightarrow> compact_records res" where
  "read_all_indexed_records zs hash files st =
     (case ps_patch_records_file st of
        None \<Rightarrow> Inr no_records
      | Some f \<Rightarrow>
          read_indexed_records_at_locations zs hash files f (dedup_key block_key (sort_key block_key (ps_patch_record_locations st))))"

definition retain_records :: "string set \<Rightarrow> compact_records \<Rightarrow> compact_records" where
  "retain_records input_files cr =
     \<lparr>cr_sections = filter (\<lambda>s. sr_input_file s \<in> input_files) (cr_sections cr),
      cr_relocations = filter (\<lambda>r. rr_input_file r \<in> input_files
          \<or> (case rr_target r of None \<Rightarrow> False | Some t \<Rightarrow> rt_input_file t \<in> input_files)) (cr_relocations cr),
      cr_fdes = filter (\<lambda>f. fr_input_file f \<in> input_files) (cr_fdes cr),
      cr_dynamic_relocations = filter (\<lambda>d. dr_input_file d \<in> input_files) (cr_dynamic_relocations cr)\<rparr>"

definition read_indexed_patch_records ::
    "zstd \<Rightarrow> (string \<Rightarrow> string) \<Rightarrow> (string \<rightharpoonup> string) \<Rightarrow> persisted_state \<Rightarrow> string \<Rightarrow> string set \<Rightarrow> compact_records option res" where
  "read_indexed_patch_records zs hash files st patch_records_file input_files =
     (let canonical_index = (ps_sections_file st = Some patch_records_file) in
      if ps_patch_record_locations st = [] then Inr (if canonical_index then Some no_records else None)
      else
        let locs = filter (\<lambda>l. pl_input_file l \<in> input_files) (ps_patch_record_locations st) in
        if \<not> canonical_index \<and> \<not> input_files \<subseteq> pl_input_file ` set locs then Inr None
        else
          res_bind (read_indexed_records_at_locations zs hash files patch_records_file (dedup_key block_key (sort_key block_key locs))) (\<lambda>records.
          Inr (Some (retain_records input_files records))))"

subsection \<open>The state directory\<close>

text \<open>The index and the update are texts, a sidecar file is a byte string.\<close>

record state_dir =
  sd_index :: "string option"
  sd_update :: "string option"
  sd_sidecars :: "string \<rightharpoonup> string"

definition PUBLISHING_SECTIONS_FILE :: string where "PUBLISHING_SECTIONS_FILE = ''sections-publishing''"

definition section_sidecar_file_name :: "(string \<Rightarrow> string) \<Rightarrow> string \<Rightarrow> string" where
  "section_sidecar_file_name hash contents = SECTIONS_FILE_PREFIX @ hash contents"

definition compressed_section_sidecar_file_name :: "(string \<Rightarrow> string) \<Rightarrow> string \<Rightarrow> string" where
  "compressed_section_sidecar_file_name hash contents = COMPRESSED_SECTIONS_FILE_PREFIX @ hash contents"

definition read_sections_sidecar :: "zstd \<Rightarrow> (string \<Rightarrow> string) \<Rightarrow> (string \<rightharpoonup> string) \<Rightarrow> string \<Rightarrow> string res" where
  "read_sections_sidecar zs hash files file_name =
     res_bind (validate_sections_file_name file_name) (\<lambda>_.
     if starts_with COMPRESSED_SECTIONS_FILE_PREFIX file_name then
       res_bind (context_msg ''Failed to read compressed incremental sections'' (files file_name)) (\<lambda>bytes.
       if file_name \<noteq> compressed_section_sidecar_file_name hash bytes
       then Inl ''Incremental sections do not match their content hash''
       else
         res_bind (zstd_decode zs bytes) (\<lambda>contents.
         if utf8_valid contents then Inr contents else Inl ''Invalid UTF-8 in compressed incremental sections''))
     else
       res_bind (context_msg ''Failed to read incremental sections'' (files file_name)) (\<lambda>contents.
       if \<not> utf8_valid contents then Inl ''Failed to read incremental sections''
       else if starts_with SECTIONS_FILE_PREFIX file_name \<and> file_name \<noteq> section_sidecar_file_name hash contents
       then Inl ''Incremental sections do not match their content hash''
       else Inr contents))"

definition write_index_with_sections_files ::
    "hex_codec \<Rightarrow> persisted_state \<Rightarrow> string \<Rightarrow> string option \<Rightarrow> patch_record_location list \<Rightarrow> string option \<Rightarrow> state_dir \<Rightarrow> state_dir" where
  "write_index_with_sections_files hex st sections_file patch_records_file locs raw dir =
     dir\<lparr>sd_index := Some (render_index hex st sections_file patch_records_file locs raw), sd_update := None\<rparr>"

definition write_state ::
    "hex_codec \<Rightarrow> zstd \<Rightarrow> (string \<Rightarrow> string) \<Rightarrow> persisted_state \<Rightarrow> state_dir \<Rightarrow> state_dir res option" where
  "write_state hex zs hash st dir =
     map_option (\<lambda>r. res_bind r (\<lambda>(name, contents, locs).
         Inr (write_index_with_sections_files hex st name (Some name) locs None
                (dir\<lparr>sd_sidecars := (sd_sidecars dir)(name \<mapsto> contents)\<rparr>))))
       (write_indexed_records zs hash (ps_records st))"

definition write_publishing_index :: "hex_codec \<Rightarrow> persisted_state \<Rightarrow> state_dir \<Rightarrow> state_dir" where
  "write_publishing_index hex st = write_index_with_sections_files hex st PUBLISHING_SECTIONS_FILE None [] None"

definition write_index :: "hex_codec \<Rightarrow> persisted_state \<Rightarrow> state_dir \<Rightarrow> state_dir" where
  "write_index hex st =
     write_index_with_sections_files hex st (case ps_sections_file st of None \<Rightarrow> SECTIONS_FILE | Some f \<Rightarrow> f)
       (ps_patch_records_file st) (ps_patch_record_locations st) (ps_raw_patch_record_locations st)"

definition write_metadata_update ::
    "hex_codec \<Rightarrow> zstd \<Rightarrow> (string \<Rightarrow> string) \<Rightarrow> persisted_state \<Rightarrow> state_dir \<Rightarrow> state_dir res option" where
  "write_metadata_update hex zs hash st dir =
     (if ps_sections_file st \<noteq> None then Some (Inr (write_index hex st dir)) else write_state hex zs hash st dir)"

definition write_metadata_update_for_inputs ::
    "hex_codec \<Rightarrow> zstd \<Rightarrow> (string \<Rightarrow> string) \<Rightarrow> persisted_state \<Rightarrow> nat list \<Rightarrow> state_dir \<Rightarrow> state_dir res option" where
  "write_metadata_update_for_inputs hex zs hash st input_indices dir =
     (if ps_sections_file st = None then write_state hex zs hash st dir
      else map_option (\<lambda>contents. Inr (dir\<lparr>sd_update := Some contents\<rparr>)) (render_metadata_update hex st input_indices))"

definition read_impl ::
    "hex_codec \<Rightarrow> zstd \<Rightarrow> (string \<Rightarrow> string) \<Rightarrow> bool \<Rightarrow> patch_section_read_mode \<Rightarrow> bool \<Rightarrow> state_dir \<Rightarrow> persisted_state option res" where
  "read_impl hex zs hash load_sections mode parse_locations dir =
     (case sd_index dir of
        None \<Rightarrow> Inr None
      | Some contents \<Rightarrow>
          res_bind (parse_with_section_loader hex mode parse_locations
                      (\<lambda>file. if load_sections then res_bind (read_sections_sidecar zs hash (sd_sidecars dir) file) (\<lambda>c. Inr (Some c))
                              else Inr None) contents) (\<lambda>st.
          res_bind (if load_sections \<and> ps_sections_file st = ps_patch_records_file st \<and> ps_patch_records_file st \<noteq> None
                    then res_bind (read_all_indexed_records zs hash (sd_sidecars dir) st) (\<lambda>records. Inr (st\<lparr>ps_records := records\<rparr>))
                    else Inr st) (\<lambda>st.
          res_bind (apply_metadata_update hex mode (sd_update dir) st) (\<lambda>st. Inr (Some st)))))"

definition read_state :: "hex_codec \<Rightarrow> zstd \<Rightarrow> (string \<Rightarrow> string) \<Rightarrow> state_dir \<Rightarrow> persisted_state option res" where
  "read_state hex zs hash = read_impl hex zs hash True Parse True"

definition read_metadata :: "hex_codec \<Rightarrow> zstd \<Rightarrow> (string \<Rightarrow> string) \<Rightarrow> state_dir \<Rightarrow> persisted_state option res" where
  "read_metadata hex zs hash = read_impl hex zs hash False PreserveRaw False"

definition materialize_patch_record_locations :: "persisted_state \<Rightarrow> persisted_state res" where
  "materialize_patch_record_locations st =
     (case ps_raw_patch_record_locations st of
        None \<Rightarrow> Inr st
      | Some raw \<Rightarrow>
          res_bind (parse_patch_record_location_table True (rust_lines raw)) (\<lambda>((locations, deferred), ls).
          if deferred \<noteq> None \<or> ls \<noteq> [] then Inl ''Unexpected trailing incremental patch record location data''
          else Inr (st\<lparr>ps_patch_record_locations := locations, ps_raw_patch_record_locations := None\<rparr>)))"

definition read_records_for_input_files ::
    "zstd \<Rightarrow> (string \<Rightarrow> string) \<Rightarrow> (string \<rightharpoonup> string) \<Rightarrow> string list \<Rightarrow> persisted_state \<Rightarrow> persisted_state res" where
  "read_records_for_input_files zs hash files input_files st =
     res_bind (materialize_patch_record_locations st) (\<lambda>st.
     let with_records = (\<lambda>records. st\<lparr>ps_records := records\<rparr>);
         filtered_sidecar = (case ps_sections_file st of
             None \<Rightarrow> Inr st
           | Some f \<Rightarrow>
               res_bind (read_sections_sidecar zs hash files f) (\<lambda>contents.
               res_bind (parse_compact_records_block_for_input_files input_files (rust_lines contents)) (\<lambda>records.
               Inr (with_records records)))) in
     case ps_patch_records_file st of
       None \<Rightarrow> filtered_sidecar
     | Some patch_records_file \<Rightarrow>
         res_bind (read_indexed_patch_records zs hash files st patch_records_file (set input_files)) (\<lambda>indexed.
         case indexed of
           Some records \<Rightarrow> Inr (with_records records)
         | None \<Rightarrow>
             if ps_sections_file st = Some patch_records_file then Inr (with_records no_records)
             else if ps_patch_record_locations st = [] then
               res_bind (read_sections_sidecar zs hash files patch_records_file) (\<lambda>contents.
               res_bind (parse_compact_records_block_for_input_files input_files (rust_lines contents)) (\<lambda>records.
               if \<forall>f \<in> set input_files. \<exists>s \<in> set (cr_sections records). sr_input_file s = f then Inr (with_records records)
               else filtered_sidecar))
             else filtered_sidecar))"

subsection \<open>Patch sections of some inputs\<close>

text \<open>The set of wanted indices is threaded: what is left of it still has to be read.\<close>

fun patch_metadata_updates ::
    "hex_codec \<Rightarrow> nat \<Rightarrow> nat set \<Rightarrow> file_state list \<Rightarrow> string list \<Rightarrow> (nat set \<times> file_state list \<times> string list) res" where
  "patch_metadata_updates hex 0 input_indices inputs ls = Inr (input_indices, inputs, ls)"
| "patch_metadata_updates hex (Suc n) input_indices inputs ls =
     (let (line, ls) = next_line ls in
      res_bind (parse_prefixed_line line ''input'') (\<lambda>rest.
      res_bind (context_msg ''Malformed incremental metadata update input'' (split_once TAB rest)) (\<lambda>(index, input_line).
      res_bind (context_msg ''Invalid incremental metadata update input index'' (parse_usize index)) (\<lambda>index.
      if index \<in> input_indices then
        if length inputs \<le> index then Inl ''Incremental metadata update input index out of bounds''
        else
          res_bind (parse_input_line hex PreserveRaw (''input'' @ TAB # input_line)) (\<lambda>input.
          patch_metadata_updates hex n (input_indices - {index}) (inputs[index := (inputs ! index)\<lparr>fst_patch := fst_patch input\<rparr>]) ls)
      else patch_metadata_updates hex n input_indices inputs ls))))"

definition read_patch_metadata_from_update ::
    "hex_codec \<Rightarrow> string option \<Rightarrow> nat set \<Rightarrow> persisted_state \<Rightarrow> (nat set \<times> persisted_state) res" where
  "read_patch_metadata_from_update hex contents input_indices st =
     (case contents of
        None \<Rightarrow> Inr (input_indices, st)
      | Some contents \<Rightarrow>
          (let (version, ls) = next_line (rust_lines contents) in
           res_bind (context_msg ''Missing incremental metadata update header'' version) (\<lambda>version.
           if version \<noteq> METADATA_UPDATE_VERSION then Inl (''Unsupported incremental metadata update version `'' @ version @ ''`'')
           else
             let (line, ls) = next_line ls in
             res_bind (parse_link_start_line line) (\<lambda>_.
             let (line, ls) = next_line ls in
             res_bind (parse_content_line line ''output'') (\<lambda>_.
             let (line, ls) = next_line ls in
             res_bind (parse_build_id_hash_line line) (\<lambda>_.
             let (line, ls) = next_line ls in
             res_bind (parse_prefixed_line line ''inputs'') (\<lambda>rest.
             res_bind (context_msg ''Invalid incremental metadata update input count'' (parse_usize rest)) (\<lambda>n.
             res_bind (patch_metadata_updates hex n input_indices (ps_input_files st) ls) (\<lambda>(input_indices, inputs, ls).
             if ls \<noteq> [] then Inl ''Unexpected trailing incremental metadata update data''
             else Inr (input_indices, st\<lparr>ps_input_files := inputs\<rparr>))))))))))"

text \<open>The loop over the inputs of the index: \<open>n\<close> are left, the next one is \<open>index\<close>.\<close>

fun patch_metadata_inputs ::
    "hex_codec \<Rightarrow> nat \<Rightarrow> nat \<Rightarrow> nat set \<Rightarrow> file_state list \<Rightarrow> string list \<Rightarrow> (nat set \<times> file_state list) res" where
  "patch_metadata_inputs hex 0 index input_indices inputs ls = Inr (input_indices, inputs)"
| "patch_metadata_inputs hex (Suc n) index input_indices inputs [] = Inl ''Missing incremental input record''"
| "patch_metadata_inputs hex (Suc n) index input_indices inputs (line # ls) =
     res_bind
       (if index \<in> input_indices then
          if length inputs \<le> index then Inl ''Incremental input index out of bounds''
          else res_bind (parse_input_line hex PreserveRaw line) (\<lambda>input.
            Inr (input_indices - {index}, inputs[index := (inputs ! index)\<lparr>fst_patch := fst_patch input\<rparr>]))
        else Inr (input_indices, inputs)) (\<lambda>(input_indices, inputs).
     if input_indices = {} then Inr (input_indices, inputs)
     else patch_metadata_inputs hex n (index + 1) input_indices inputs ls)"

fun read_patch_metadata_lines ::
    "hex_codec \<Rightarrow> string list \<Rightarrow> nat set \<Rightarrow> persisted_state \<Rightarrow> (nat set \<times> persisted_state) res" where
  "read_patch_metadata_lines hex [] input_indices st = Inl ''Missing incremental input count''"
| "read_patch_metadata_lines hex (line # ls) input_indices st =
     (if starts_with (''inputs'' @ [TAB]) line then
        res_bind (parse_prefixed_line (Some line) ''inputs'') (\<lambda>rest.
        res_bind (context_msg ''Invalid incremental input count'' (parse_usize rest)) (\<lambda>n.
        res_bind (patch_metadata_inputs hex n 0 input_indices (ps_input_files st) ls) (\<lambda>(input_indices, inputs).
        Inr (input_indices, st\<lparr>ps_input_files := inputs\<rparr>))))
      else read_patch_metadata_lines hex ls input_indices st)"

definition read_patch_metadata_from_index ::
    "hex_codec \<Rightarrow> string option \<Rightarrow> nat set \<Rightarrow> persisted_state \<Rightarrow> (nat set \<times> persisted_state) res" where
  "read_patch_metadata_from_index hex contents input_indices st =
     res_bind (context_msg ''Failed to read incremental state'' contents) (\<lambda>contents.
     read_patch_metadata_lines hex (rust_lines contents) input_indices st)"

definition read_patch_metadata_for_input_indices ::
    "hex_codec \<Rightarrow> state_dir \<Rightarrow> nat set \<Rightarrow> persisted_state \<Rightarrow> persisted_state res" where
  "read_patch_metadata_for_input_indices hex dir input_indices st =
     (if input_indices = {} then Inr st
      else
        res_bind (read_patch_metadata_from_update hex (sd_update dir) input_indices st) (\<lambda>(remaining, st).
        if remaining = {} then Inr st
        else res_bind (read_patch_metadata_from_index hex (sd_index dir) remaining st) (\<lambda>(_, st). Inr st)))"

end
