(* ===== verification/State_Index_Roundtrip.thy ===== *)
theory State_Index_Roundtrip
  imports State_Index
begin

text \<open>
  The index and the metadata update are read back: every part of the index first, then the header with the
  inputs, and the whole index in its two forms.
\<close>

subsection \<open>Parts of the index are read back\<close>

lemma field_identity [simp]: "field_text (identity_render i)"
  by (auto simp: identity_render_def field_text_def show_word_def show_sword_def show_nat_no show_int_no)

lemma field_optional_identity [simp]: "field_text (render_optional_identity i)"
  by (simp add: render_optional_identity_def split: option.split)

lemma split_identity:
  "split_on CHR '':'' (identity_render i) = [show_word (fi_len i), show_word (fi_dev i), show_word (fi_ino i), show_sword (fi_modified_sec i),
     show_sword (fi_modified_nsec i), show_sword (fi_changed_sec i), show_sword (fi_changed_nsec i)]"
  unfolding identity_render_def by (intro split_on_join) (auto simp: show_word_def show_sword_def show_nat_no show_int_no)

lemma identity_present: "identity_render i \<noteq> ABSENT_FIELD"
proof
  assume "identity_render i = ABSENT_FIELD"
  then show False using split_identity [of i] by (simp add: ABSENT_FIELD_def)
qed

lemma identity_parse_render [simp]: "identity_parse (render_optional_identity i) = Inr i"
  using identity_present
  by (cases i) (simp_all add: render_optional_identity_def identity_parse_def split_identity ABSENT_FIELD_def [symmetric])

lemma next_line_simps [simp]: "next_line (l # ls) = (Some l, ls)" "next_line [] = (None, [])"
  by (simp_all add: next_line_def)

lemma next_identity_render [simp]: "next_identity (render_optional_identity i # ps) = Inr (i, ps)"
  by (simp add: next_identity_def)

lemma keyword_text:
  "field_text ''output''" "field_text ''args''" "field_text ''link-options''" "field_text ''input-order''" "field_text ''sld-version''"
  "field_text ''link-start''" "field_text ''build-id-hash''" "field_text ''inputs''" "field_text ''input''" "field_text ''sections-file''"
  "field_text ''indexed-sections-file''" "field_text ''patch-records-file''" "field_text ''patch-records''" "field_text ''patch-record''"
  by (simp_all add: field_text_def)

lemma output_line_parse:
  assumes "field_text (fc_hash c)"
  shows "parse_content_line (Some (output_line c)) ''output'' = Inr c"
proof -
  have "split_on TAB (tsv [show_word (fc_len c), fc_hash c, render_optional_identity (fc_identity c)])
      = [show_word (fc_len c), fc_hash c, render_optional_identity (fc_identity c)]"
    using assms by (intro split_tsv) auto
  then show ?thesis unfolding output_line_def parse_content_line_def
    by (simp add: prefixed_tsv keyword_text del: join_with.simps)
qed

lemma identity_line_parse: "parse_link_start_line (Some (identity_line i)) = Inr i"
proof -
  have "parse_prefixed_line (Some (identity_line i)) ''link-start'' = Inr (tsv [render_optional_identity i])"
    unfolding identity_line_def by (intro prefixed_tsv) (simp_all add: keyword_text)
  then show ?thesis by (simp add: parse_link_start_line_def)
qed

lemma next_optional_text_Cons:
  "next_optional_text (p # ps) = (if p = ABSENT_FIELD then None else Some p, ps)"
  by (simp add: next_optional_text_def optional_text_def)

lemma build_id_line_parse:
  assumes "build_id_wf b"
  shows "parse_build_id_hash_line (Some (build_id_line b)) = Inr b"
proof (cases b)
  case None
  have "parse_prefixed_line (Some (tsv [''build-id-hash'', ABSENT_FIELD])) ''build-id-hash'' = Inr (tsv [ABSENT_FIELD])"
    by (intro prefixed_tsv) (simp_all add: keyword_text)
  then show ?thesis using None by (simp add: build_id_line_def parse_build_id_hash_line_def)
next
  case (Some st)
  define fs where "fs = [show_nat (output_len st), show_nat (nodes st), (case tree_hash st of None \<Rightarrow> ABSENT_FIELD | Some h \<Rightarrow> h)]"
  have wf: "output_len st < 2 ^ 64" "0 < nodes st" "nodes st < 2 ^ 64" "optional_ok (tree_hash st)" using assms Some by (simp_all add: build_id_wf_def)
  have ft: "\<And>x. x \<in> set fs \<Longrightarrow> field_text x" using wf(4) by (auto simp: fs_def optional_ok_def split: option.splits)
  have split: "split_on TAB (tsv fs) = fs" using ft by (intro split_tsv) (simp_all add: fs_def)
  have "tsv fs \<noteq> ABSENT_FIELD"
  proof
    assume "tsv fs = ABSENT_FIELD"
    then show False using split by (simp add: ABSENT_FIELD_def fs_def)
  qed
  moreover have "parse_prefixed_line (Some (tsv [''build-id-hash'', tsv fs])) ''build-id-hash'' = Inr (tsv [tsv fs])"
    by (intro prefixed_tsv) (simp_all add: keyword_text)
  moreover have "next_optional_text [case tree_hash st of None \<Rightarrow> ABSENT_FIELD | Some h \<Rightarrow> h] = (tree_hash st, [])"
    using wf(4) by (simp add: next_optional_text_Cons optional_ok_def split: option.splits)
  ultimately show ?thesis using wf(1-3) split unfolding Some build_id_line_def
    by (simp add: parse_build_id_hash_line_def render_build_id_hash_state_def fs_def [symmetric]) (simp add: fs_def)
qed

subsection \<open>Patch sections\<close>

lemma part_number [simp]: "part_text (show_word w)"
  by (simp add: part_text_def show_word_def show_nat_no)

lemma part_absent [simp]: "part_text ABSENT_FIELD"
  by (simp add: part_text_def ABSENT_FIELD_def field_text_def)

lemma hex_text: "hex_ok hex \<Longrightarrow> part_text (hex_encode hex s) \<and> hex_encode hex s \<noteq> ABSENT_FIELD \<and> hex_decode hex (hex_encode hex s) = Some s"
proof -
  assume "hex_ok hex"
  then have h: "set (hex_encode hex s) \<subseteq> set ''0123456789abcdef''" "hex_decode hex (hex_encode hex s) = Some s" by (simp_all add: hex_ok_def)
  have "c \<notin> set (hex_encode hex s)" if "c \<notin> set ''0123456789abcdef''" for c using h(1) that by blast
  note no = this [of TAB] this [of LF] this [of CR] this [of "CHR '':''"] this [of "CHR '',''"] this [of "CHR ''-''"]
  moreover have "CHR ''-'' \<in> set ABSENT_FIELD" by (simp add: ABSENT_FIELD_def)
  ultimately have "hex_encode hex s \<noteq> ABSENT_FIELD" by auto
  then show ?thesis using h(2) no by (simp add: part_text_def field_text_def)
qed

definition patch_section_parts :: "hex_codec \<Rightarrow> file_patch_section_state \<Rightarrow> string list" where
  "patch_section_parts hex s =
     [fs_input s, show_word (fs_section_index s), show_word (fs_input_size s), show_word (fs_output_offset s), show_word (fs_output_size s),
      (case fs_section_name s of None \<Rightarrow> ABSENT_FIELD | Some name \<Rightarrow> hex_encode hex name),
      (case fs_data_hash s of None \<Rightarrow> ABSENT_FIELD | Some h \<Rightarrow> h)]"

lemma patch_section_parts_text:
  "hex_ok hex \<Longrightarrow> patch_section_wf s \<Longrightarrow> x \<in> set (patch_section_parts hex s) \<Longrightarrow> part_text x"
  using hex_text [of hex] by (auto simp: patch_section_parts_def patch_section_wf_def split: option.splits)

lemma split_patch_section:
  assumes "hex_ok hex" and "patch_section_wf s"
  shows "split_on CHR '':'' (render_patch_section hex s) = patch_section_parts hex s"
proof -
  have "render_patch_section hex s = join_with CHR '':'' (patch_section_parts hex s)"
    unfolding render_patch_section_def patch_section_parts_def ..
  moreover have "\<And>x. x \<in> set (patch_section_parts hex s) \<Longrightarrow> CHR '':'' \<notin> set x"
    using patch_section_parts_text [OF assms] by (simp add: part_text_def)
  moreover have "patch_section_parts hex s \<noteq> []" by (simp add: patch_section_parts_def)
  ultimately show ?thesis using split_on_join [of "patch_section_parts hex s" "CHR '':''"] by simp
qed

lemma no_comma:
  assumes "hex_ok hex" and "patch_section_wf s"
  shows "CHR '','' \<notin> set (render_patch_section hex s)" "field_text (render_patch_section hex s)"
proof -
  have r: "render_patch_section hex s = join_with CHR '':'' (patch_section_parts hex s)"
    unfolding render_patch_section_def patch_section_parts_def ..
  show "CHR '','' \<notin> set (render_patch_section hex s)" "field_text (render_patch_section hex s)"
    using patch_section_parts_text [OF assms] unfolding r field_text_def
    by (auto intro!: not_in_join simp: part_text_def field_text_def del: notI)
qed

lemma parse_patch_section_render:
  assumes "hex_ok hex" and "patch_section_wf s" and "parts = take 5 (drop 1 (patch_section_parts hex s))"
  shows "parse_patch_section hex (fs_input s) parts (fs_data_hash s) = Inr s"
proof (cases "fs_section_name s")
  case None
  then show ?thesis using assms(3) by (simp add: parse_patch_section_def patch_section_parts_def get_at_def)
next
  case (Some name)
  then have "utf8_valid name" using assms(2) by (simp add: patch_section_wf_def)
  then show ?thesis using Some assms(3) hex_text [OF assms(1), of name]
    by (simp add: parse_patch_section_def patch_section_parts_def get_at_def)
qed

lemma parse_patch_section_list_render:
  assumes "hex_ok hex" and "list_all patch_section_wf ss"
  shows "parse_patch_section_list hex d parsed (map (render_patch_section hex) ss) = Inr (parsed @ ss)"
  using assms(2)
proof (induction ss arbitrary: parsed)
  case (Cons s ss)
  then have wf: "patch_section_wf s" by simp
  define parts where "parts = patch_section_parts hex s"
  have parts: "split_on CHR '':'' (render_patch_section hex s) = parts" "length parts = 7" "parts ! 0 = fs_input s"
      "length (take 5 (drop 1 parts)) = 5" "(if parts ! 6 \<noteq> ABSENT_FIELD then Some (parts ! 6) else None) = fs_data_hash s"
    using split_patch_section [OF assms(1) wf] wf
    by (auto simp: parts_def patch_section_parts_def patch_section_wf_def split: option.splits)
  have "parse_patch_section hex (fs_input s) (take 5 (drop 1 parts)) (fs_data_hash s) = Inr s"
    by (rule parse_patch_section_render [OF assms(1) wf]) (simp add: parts_def)
  then show ?case using parts Cons by (simp add: Let_def)
qed simp

lemma render_patch_section_not_empty: "hex_ok hex \<Longrightarrow> patch_section_wf s \<Longrightarrow> render_patch_section hex s \<noteq> []"
  using split_patch_section [of hex s] by (auto simp: patch_section_parts_def)

lemma join_not_empty: "x \<in> set xs \<Longrightarrow> x \<noteq> [] \<Longrightarrow> join_with c xs \<noteq> []"
  by (induction c xs rule: join_with.induct) auto

lemma parse_patch_sections_render:
  assumes "hex_ok hex" and "list_all patch_section_wf ss"
  shows "parse_patch_sections hex d (join_with CHR '','' (map (render_patch_section hex) ss)) = Inr ss"
proof (cases ss)
  case (Cons s ss')
  have wf: "patch_section_wf s" using assms(2) Cons by simp
  let ?xs = "map (render_patch_section hex) ss"
  have "join_with CHR '','' ?xs \<noteq> []"
    using join_not_empty [of "render_patch_section hex s" ?xs] render_patch_section_not_empty [OF assms(1) wf] Cons by simp
  moreover have "split_on CHR '','' (join_with CHR '','' ?xs) = ?xs"
    using no_comma(1) [OF assms(1)] assms(2) Cons by (intro split_on_join) (auto simp: list_all_iff)
  ultimately show ?thesis using parse_patch_section_list_render [OF assms, of d "[]"]
    by (simp add: parse_patch_sections_def)
qed (simp add: parse_patch_sections_def)

subsection \<open>Inputs\<close>

definition input_parts :: "hex_codec \<Rightarrow> file_state \<Rightarrow> string list" where
  "input_parts hex input =
     [fst_path input, show_word (fc_len (fst_content input)), fc_hash (fst_content input),
       render_optional_identity (fc_identity (fst_content input)),
       (case fst_patch input of None \<Rightarrow> ABSENT_FIELD | Some patch \<Rightarrow> fp_fingerprint patch),
       (case fst_patch input of None \<Rightarrow> ABSENT_FIELD | Some patch \<Rightarrow> render_patch_sections hex patch),
       render_optional_identity (fst_snapshot_identity input)]"

lemma render_input_parts: "render_input_line_rest hex input = tsv (input_parts hex input)"
  unfolding render_input_line_rest_def input_parts_def ..

lemma field_join: "(\<And>x. x \<in> set xs \<Longrightarrow> field_text x) \<Longrightarrow> field_text (join_with CHR '','' xs)"
  by (simp add: field_text_def not_in_join)

text \<open>The stored form of the patch sections is a field, is not the absent field, and is read back.\<close>

lemma patch_sections_stored:
  assumes hex: "hex_ok hex" and wf: "patch_wf mode p"
  shows "field_text (render_patch_sections hex p) \<and> render_patch_sections hex p \<noteq> ABSENT_FIELD
    \<and> (case mode of
         Parse \<Rightarrow> parse_patch_sections hex d (render_patch_sections hex p) = Inr (fp_sections p)
       | PreserveRaw \<Rightarrow> fp_raw_sections p = Some (render_patch_sections hex p))"
proof (cases mode)
  case Parse
  then have p: "fp_raw_sections p = None" "list_all patch_section_wf (fp_sections p)" using wf by (simp_all add: patch_wf_def)
  let ?xs = "map (render_patch_section hex) (fp_sections p)"
  have r: "render_patch_sections hex p = join_with CHR '','' ?xs"
    using p(1) by (simp add: render_patch_sections_def split: list.splits)
  have f: "field_text (join_with CHR '','' ?xs)"
    using no_comma(2) [OF hex] p(2) by (intro field_join) (auto simp: list_all_iff)
  have stored: "parse_patch_sections hex d (join_with CHR '','' ?xs) = Inr (fp_sections p)" for d
    by (rule parse_patch_sections_render [OF hex p(2)])
  have "join_with CHR '','' ?xs \<noteq> ABSENT_FIELD"
  proof
    assume a: "join_with CHR '','' ?xs = ABSENT_FIELD"
    have "parse_patch_sections hex d ABSENT_FIELD = Inr []" by (simp add: parse_patch_sections_def ABSENT_FIELD_def Let_def)
    then have "fp_sections p = []" using stored [of d] a by simp
    then show False using a by (simp add: ABSENT_FIELD_def)
  qed
  then show ?thesis using Parse r f stored by simp
next
  case PreserveRaw
  then obtain raw where "fp_sections p = []" "fp_raw_sections p = Some raw" "field_text raw" "raw \<noteq> ABSENT_FIELD"
    using wf by (auto simp: patch_wf_def)
  then show ?thesis using PreserveRaw by (simp add: render_patch_sections_def)
qed

lemma input_parts_text:
  assumes "hex_ok hex" and "file_state_wf mode f"
  shows "x \<in> set (input_parts hex f) \<Longrightarrow> field_text x"
  using assms patch_sections_stored [OF assms(1), of mode]
  by (auto simp: input_parts_def file_state_wf_def patch_wf_def split: option.splits)

lemma input_line_parse:
  assumes hex: "hex_ok hex" and wf: "file_state_wf mode f"
  shows "parse_input_line hex mode (tsv [''input'', render_input_line_rest hex f]) = Inr f"
proof -
  have "split_on TAB (render_input_line_rest hex f) = input_parts hex f"
    unfolding render_input_parts using input_parts_text [OF assms] by (intro split_tsv) (simp_all add: input_parts_def)
  moreover have "parse_prefixed_line (Some (tsv [''input'', render_input_line_rest hex f])) ''input'' = Inr (tsv [render_input_line_rest hex f])"
    by (intro prefixed_tsv) (simp_all add: keyword_text)
  ultimately show ?thesis
  proof (cases "fst_patch f")
    case (Some p)
    then have p: "patch_wf mode p" using wf by (simp add: file_state_wf_def)
    have "fp_fingerprint p \<noteq> ABSENT_FIELD" using p by (simp add: patch_wf_def)
    moreover have "mode = Parse \<Longrightarrow> fp_raw_sections p = None" "mode = PreserveRaw \<Longrightarrow> fp_sections p = []" using p by (simp_all add: patch_wf_def)
    ultimately show ?thesis
      using \<open>split_on TAB _ = _\<close> \<open>parse_prefixed_line _ _ = _\<close> Some patch_sections_stored [OF hex p, of "fst_path f"]
      by (cases mode) (simp_all add: parse_input_line_def input_parts_def next_optional_text_Cons)
  qed (simp add: parse_input_line_def input_parts_def next_optional_text_Cons)
qed

lemma parse_inputs_append:
  assumes "hex_ok hex" and "list_all (file_state_wf mode) fs" and "length fs < 2 ^ 64"
  shows "parse_inputs hex mode (tsv [''inputs'', show_nat (length fs)] # map (\<lambda>f. tsv [''input'', render_input_line_rest hex f]) fs @ rest)
    = Inr (fs, rest)"
  unfolding parse_inputs_def
  using parse_group_append(1) [of fs take_all "map (\<lambda>f. tsv [''input'', render_input_line_rest hex f]) fs" "\<lambda>_. True" "parse_input_line hex mode"
      "''inputs''" "''Invalid incremental input count''" "''Missing incremental input record''" rest] assms keyword_text
    input_line_parse [OF assms(1)]
  by (simp add: list_all_length del: join_with.simps)

subsection \<open>Locations\<close>

lemma location_line_parse:
  assumes "location_wf l"
  shows "parse_patch_record_location_line (Some (location_line l)) = Inr l"
proof -
  let ?fs = "[pl_input_file l, show_word (pl_offset l), show_word (pl_len l), pl_hash l]"
  have "split_on TAB (tsv ?fs) = ?fs" using assms by (intro split_tsv) (auto simp: location_wf_def)
  moreover have "parse_prefixed_line (Some (location_line l)) ''patch-record'' = Inr (tsv ?fs)"
    unfolding location_line_def by (intro prefixed_tsv) (simp_all add: keyword_text)
  ultimately show ?thesis by (simp add: parse_patch_record_location_line_def del: join_with.simps)
qed

lemma parse_locations_append:
  "list_all location_wf locs \<Longrightarrow> parse_locations_loop (length locs) (map location_line locs @ rest) = Inr (locs, rest)"
  by (induction locs) (simp_all add: location_line_parse)

lemma parse_location_table_append:
  assumes "list_all location_wf locs" and "length locs < 2 ^ 64"
  shows "parse_patch_record_location_table True (tsv [''patch-records'', show_nat (length locs)] # map location_line locs @ rest)
    = Inr ((locs, None), rest)"
proof -
  have "parse_prefixed_line (Some (tsv [''patch-records'', show_nat (length locs)])) ''patch-records'' = Inr (show_nat (length locs))"
    using prefixed_tsv [of "''patch-records''" "[show_nat (length locs)]"] by (simp add: keyword_text del: join_with.simps(3))
  then show ?thesis using assms parse_locations_append [OF assms(1), of rest]
    by (simp add: parse_patch_record_location_table_def Let_def del: join_with.simps)
qed

subsection \<open>The index\<close>

lemma state_version_newest: "STATE_VERSION = state_version 32"
  by code_simp

lemma version_known: "STATE_VERSION \<in> set (map state_version [1..<33])" "STATE_VERSION \<in> set (map state_version [5..<33])"
  "STATE_VERSION \<in> set (map state_version [30..<33])"
  unfolding state_version_newest by auto

lemma keyword_line: "field_text p \<Longrightarrow> parse_prefixed_line (Some (tsv [p, v])) p = Inr v"
  using prefixed_tsv [of p "[v]"] by (simp del: join_with.simps(3))

lemma keyword_prefix: "starts_with (p @ [TAB]) (tsv [p, v])"
  using starts_with_tsv [of "[v]" p] by simp

lemma optional_prefixed_hit: "field_text p \<Longrightarrow> optional_prefixed_line p (tsv [p, v] # ls) = Inr (Some v, ls)"
  by (simp add: optional_prefixed_line_def keyword_line keyword_prefix del: join_with.simps)

lemma optional_parsed_hit: "f (Some l) = Inr v \<Longrightarrow> starts_with (p @ [TAB]) l \<Longrightarrow> optional_parsed_line p f (l # ls) = Inr (v, ls)"
  by (simp add: optional_parsed_line_def)

lemma index_prefixes: "starts_with (''link-start'' @ [TAB]) (identity_line i)" "starts_with (''build-id-hash'' @ [TAB]) (build_id_line b)"
  unfolding identity_line_def build_id_line_def by (rule keyword_prefix)+

text \<open>What is stored of a state whose sections and patch records are in \<open>sp\<close>.\<close>

definition with_sections :: "persisted_state \<Rightarrow> sections_part \<Rightarrow> persisted_state" where
  "with_sections st sp =
     st\<lparr>ps_records := sp_records sp, ps_sections_file := sp_sections_file sp, ps_patch_records_file := sp_patch_records_file sp,
        ps_patch_record_locations := sp_locations sp, ps_raw_patch_record_locations := sp_raw sp\<rparr>"

lemma link_start_hit: "optional_parsed_line ''link-start'' parse_link_start_line (identity_line i # ls) = Inr (i, ls)"
  using identity_line_parse index_prefixes(1) by (rule optional_parsed_hit)

lemma build_id_hit: "build_id_wf b \<Longrightarrow> optional_parsed_line ''build-id-hash'' parse_build_id_hash_line (build_id_line b # ls) = Inr (b, ls)"
  using build_id_line_parse index_prefixes(2) by (intro optional_parsed_hit) auto

lemma header_parse:
  assumes hex: "hex_ok hex" and wf: "state_wf mode st"
    and ls: "rust_lines contents = header_and_inputs hex st @ tail"
  shows "parse_with_section_loader hex mode parse_locations loader contents =
    res_bind (parse_sections_part loader parse_locations STATE_VERSION tail) (\<lambda>(sp, ls).
      if ls \<noteq> [] then Inl ''Unexpected trailing incremental state data'' else Inr (with_sections st sp))"
proof -
  obtain lo io sv where opt: "ps_link_options_hash st = Some lo" "ps_input_order_hash st = Some io" "ps_sld_version st = Some sv"
    using wf by (auto simp: state_wf_def required_line_text_def split: option.splits)
  have out: "parse_content_line (Some (output_line (ps_output st))) ''output'' = Inr (ps_output st)"
    and bid: "build_id_wf (ps_build_id_hashes st)"
    and inputs: "parse_inputs hex mode (tsv [''inputs'', show_nat (length (ps_input_files st))]
        # map (\<lambda>f. tsv [''input'', render_input_line_rest hex f]) (ps_input_files st) @ tail) = Inr (ps_input_files st, tail)"
    using wf output_line_parse parse_inputs_append [OF hex] by (simp_all add: state_wf_def)
  have lines: "rust_lines contents = STATE_VERSION # tsv [''args'', ps_args_hash st] # tsv [''link-options'', lo] # tsv [''input-order'', io]
      # tsv [''sld-version'', sv] # identity_line (ps_link_start st) # output_line (ps_output st) # build_id_line (ps_build_id_hashes st)
      # tsv [''inputs'', show_nat (length (ps_input_files st))]
      # map (\<lambda>f. tsv [''input'', render_input_line_rest hex f]) (ps_input_files st) @ tail"
    unfolding ls header_and_inputs_def opt by (simp add: optional_line_def del: join_with.simps)
  have stored: "with_sections st sp = \<lparr>ps_args_hash = ps_args_hash st, ps_link_options_hash = Some lo, ps_input_order_hash = Some io,
      ps_sld_version = Some sv, ps_link_start = ps_link_start st, ps_output = ps_output st, ps_build_id_hashes = ps_build_id_hashes st,
      ps_input_files = ps_input_files st, ps_records = sp_records sp, ps_sections_file = sp_sections_file sp,
      ps_patch_records_file = sp_patch_records_file sp, ps_patch_record_locations = sp_locations sp,
      ps_raw_patch_record_locations = sp_raw sp\<rparr>" for sp
    using opt by (cases st) (simp add: with_sections_def)
  show ?thesis
    unfolding parse_with_section_loader_def lines stored using version_known(1)
    by (simp add: opt keyword_line keyword_text optional_prefixed_hit link_start_hit
        build_id_hit [OF bid] out inputs require_newest_def del: join_with.simps set_map set_upt)
qed

lemma line_tsv: "\<forall>x \<in> set xs. line_text x \<Longrightarrow> line_text (tsv xs)"
  by (simp add: line_text_def not_in_join)

lemma field_line: "field_text x \<Longrightarrow> line_text x"
  by (simp add: field_text_def line_text_def)

lemma content_lines_text:
  "line_text (identity_line i)" "field_text (fc_hash c) \<Longrightarrow> line_text (output_line c)" "build_id_wf b \<Longrightarrow> line_text (build_id_line b)"
proof -
  show "line_text (identity_line i)" "field_text (fc_hash c) \<Longrightarrow> line_text (output_line c)"
    unfolding identity_line_def output_line_def by (auto simp: field_line keyword_text intro!: line_tsv simp del: join_with.simps)
  show "build_id_wf b \<Longrightarrow> line_text (build_id_line b)"
    unfolding build_id_line_def render_build_id_hash_state_def
    by (auto simp: field_line keyword_text build_id_wf_def optional_ok_def intro!: line_tsv simp del: join_with.simps split: option.splits)
qed

lemma header_lines_text:
  assumes hex: "hex_ok hex" and wf: "state_wf mode st"
  shows "l \<in> set (header_and_inputs hex st) \<Longrightarrow> line_text l"
proof -
  have opt: "line_text l" if "l \<in> set (optional_line p x)" "field_text p" "required_line_text x" for p x l
    using that line_tsv [of "[p, the x]"]
    by (auto simp: optional_line_def required_line_text_def field_line simp del: join_with.simps split: option.splits)
  have inputs: "line_text (tsv [''input'', render_input_line_rest hex f])" if "f \<in> set (ps_input_files st)" for f
    using wf that input_parts_text [OF hex, of mode f] unfolding render_input_parts
    by (intro line_tsv) (auto simp: state_wf_def list_all_iff field_line keyword_text intro!: line_tsv)
  have "line_text STATE_VERSION" by (simp add: STATE_VERSION_def line_text_def)
  moreover have "line_text (tsv [''args'', ps_args_hash st])" "line_text (tsv [''inputs'', show_nat (length (ps_input_files st))])"
    using wf by (auto simp: field_line keyword_text state_wf_def intro!: line_tsv simp del: join_with.simps)
  moreover have "line_text (output_line (ps_output st))" "line_text (build_id_line (ps_build_id_hashes st))"
    using wf content_lines_text by (simp_all add: state_wf_def)
  ultimately show "l \<in> set (header_and_inputs hex st) \<Longrightarrow> line_text l"
    using opt [of l "''link-options''"] opt [of l "''input-order''"] opt [of l "''sld-version''"] inputs content_lines_text(1) wf keyword_text
    unfolding header_and_inputs_def by (auto simp: state_wf_def simp del: join_with.simps)
qed

lemma rust_lines_header:
  assumes "hex_ok hex" and "state_wf mode st" and "\<forall>l \<in> set tail. line_text l"
  shows "rust_lines (render_header_and_inputs hex st @ write_lines tail) = header_and_inputs hex st @ tail"
  unfolding render_header_and_inputs_def write_lines_simps(3) [symmetric]
  using header_lines_text [OF assms(1,2)] assms(3) by (intro rust_lines_write_lines) (auto simp: line_text_def)


lemma index_read_indexed:
  assumes hex: "hex_ok hex" and wf: "state_wf mode st" and f: "validate_sections_file_name f = Inr ()" "line_text f"
    and locs: "list_all location_wf locs" "length locs < 2 ^ 64"
  shows "parse_with_section_loader hex mode True loader (render_index hex st f (Some f) locs None)
      = Inr (st\<lparr>ps_records := no_records, ps_sections_file := Some f, ps_patch_records_file := Some f,
                ps_patch_record_locations := locs, ps_raw_patch_record_locations := None\<rparr>)"
proof -
  have loc: "line_text (location_line l)" if "l \<in> set locs" for l
    using that locs(1) unfolding location_line_def
    by (intro line_tsv) (auto simp: location_wf_def list_all_iff field_line keyword_text)
  let ?tail = "tsv [''indexed-sections-file'', f] # tsv [''patch-records'', show_nat (length locs)] # map location_line locs"
  have r: "render_index hex st f (Some f) locs None = render_header_and_inputs hex st @ write_lines ?tail"
    by (simp add: render_index_def render_patch_record_location_table_def write_lines_simps del: join_with.simps)
  have lines: "rust_lines (render_index hex st f (Some f) locs None) = header_and_inputs hex st @ ?tail"
    unfolding r using f(2) loc
    by (intro rust_lines_header [OF hex wf]) (auto intro!: line_tsv simp: field_line keyword_text simp del: join_with.simps)
  have "parse_sections_part loader True STATE_VERSION (?tail @ [])
      = Inr (\<lparr>sp_records = no_records, sp_sections_file = Some f, sp_patch_records_file = Some f, sp_locations = locs, sp_raw = None\<rparr>, [])"
    unfolding parse_sections_part_def parse_sections_v5_def
    using version_known f(1) parse_location_table_append [OF locs, of "[]"] keyword_prefix [of "''indexed-sections-file''" f]
    by (simp add: keyword_line keyword_text del: join_with.simps set_map set_upt)
  then show ?thesis unfolding header_parse [OF hex wf lines] by (simp add: with_sections_def del: join_with.simps)
qed

lemma index_read_sections:
  assumes hex: "hex_ok hex" and wf: "state_wf mode st" and f: "validate_sections_file_name f = Inr ()" "line_text f"
    and cr: "records_wf cr" "write_rendered_records cr = Some records" "loader f = Inr (Some records)"
  shows "parse_with_section_loader hex mode parse_locations loader (render_index hex st f None locs raw)
      = Inr (st\<lparr>ps_records := cr, ps_sections_file := Some f, ps_patch_records_file := None,
                ps_patch_record_locations := [], ps_raw_patch_record_locations := None\<rparr>)"
proof -
  have r: "render_index hex st f None locs raw = render_header_and_inputs hex st @ write_lines [tsv [''sections-file'', f]]"
    by (simp add: render_index_def del: join_with.simps)
  have lines: "rust_lines (render_index hex st f None locs raw) = header_and_inputs hex st @ [tsv [''sections-file'', f]]"
    unfolding r using f(2) by (intro rust_lines_header [OF hex wf]) (auto intro!: line_tsv simp: field_line keyword_text simp del: join_with.simps)
  have no: "\<not> starts_with (''indexed-sections-file'' @ [TAB]) (tsv [''sections-file'', f])" by simp
  have "parse_sections_part loader parse_locations STATE_VERSION [tsv [''sections-file'', f]]
      = Inr (\<lparr>sp_records = cr, sp_sections_file = Some f, sp_patch_records_file = None, sp_locations = [], sp_raw = None\<rparr>, [])"
    unfolding parse_sections_part_def parse_sections_v5_def
    using version_known f(1) no cr(3) keyword_prefix [of "''sections-file''" f] records_parsed [OF cr(1,2)]
    by (simp add: keyword_line keyword_text optional_prefixed_line_def del: join_with.simps set_map set_upt)
  then show ?thesis unfolding header_parse [OF hex wf lines] by (simp add: with_sections_def del: join_with.simps)
qed

text \<open>
  An index is read back as it was written: with patch records, the whole state but the records, which
  stay in the sections file; without, the records of the sections file are loaded with it.
\<close>

lemma index_roundtrip:
  assumes "hex_ok hex" and "state_wf mode st" and "validate_sections_file_name f = Inr ()" and "line_text f"
    and "list_all location_wf locs" and "length locs < 2 ^ 64"
    and "records_wf cr" and "write_rendered_records cr = Some records" and "loader f = Inr (Some records)"
  shows "parse_with_section_loader hex mode True loader (render_index hex st f (Some f) locs None)
      = Inr (st\<lparr>ps_records := no_records, ps_sections_file := Some f, ps_patch_records_file := Some f,
                ps_patch_record_locations := locs, ps_raw_patch_record_locations := None\<rparr>)
    \<and> parse_with_section_loader hex mode parse_locations loader (render_index hex st f None locs' raw)
      = Inr (st\<lparr>ps_records := cr, ps_sections_file := Some f, ps_patch_records_file := None,
                ps_patch_record_locations := [], ps_raw_patch_record_locations := None\<rparr>)"
  using index_read_indexed [OF assms(1-6)] index_read_sections [of hex mode st f cr records loader] assms by blast

subsection \<open>The metadata update\<close>

lemma apply_input_updates_append:
  assumes "hex_ok hex" and "list_all (file_state_wf mode) (map ((!) fs) ks)"
    and "\<forall>i \<in> set ks. i < length inputs" and "length inputs < 2 ^ 64"
  shows "apply_input_updates hex mode (length ks) inputs
           (map (\<lambda>i. tsv [''input'', show_nat i, render_input_line_rest hex (fs ! i)]) ks @ rest)
         = Inr (fold (\<lambda>i xs. xs[i := fs ! i]) ks inputs, rest)"
  using assms(2-4)
proof (induction ks arbitrary: inputs)
  case (Cons i ks)
  let ?r = "render_input_line_rest hex (fs ! i)"
  have "parse_prefixed_line (Some (tsv [''input'', show_nat i, ?r])) ''input'' = Inr (show_nat i @ TAB # ?r)"
    using prefixed_tsv [of "''input''" "[show_nat i, ?r]"] by (simp add: keyword_text del: join_with.simps(3)) simp
  moreover have "split_once TAB (show_nat i @ TAB # ?r) = Some (show_nat i, ?r)" by (simp add: split_once_append show_nat_no)
  moreover have "parse_input_line hex mode (''input'' @ TAB # ?r) = Inr (fs ! i)"
    using input_line_parse [OF assms(1), of mode "fs ! i"] Cons.prems(1) by simp
  moreover have "parse_usize (show_nat i) = Some i" using Cons.prems(2,3) by (intro parse_usize_show) auto
  ultimately show ?case using Cons by (simp del: join_with.simps)
qed simp

lemma fold_updates_nth:
  "\<forall>i \<in> set ks. i < length xs \<Longrightarrow> length (fold (\<lambda>i xs. xs[i := ys ! i]) ks xs) = length xs
    \<and> (\<forall>j < length xs. fold (\<lambda>i xs. xs[i := ys ! i]) ks xs ! j = (if j \<in> set ks then ys ! j else xs ! j))"
  by (induction ks arbitrary: xs) auto

lemma distinct_dedup: "sorted (xs :: 'a::linorder list) \<Longrightarrow> distinct (remdups_adj xs)"
  by (induction xs rule: remdups_adj.induct) auto

definition updated_inputs :: "nat list \<Rightarrow> file_state list \<Rightarrow> file_state list \<Rightarrow> file_state list" where
  "updated_inputs indices old new = map (\<lambda>i. if i \<in> set indices then new ! i else old ! i) [0..<length old]"

lemma fold_updated_inputs:
  assumes "\<forall>i \<in> set ks. i < length xs"
  shows "fold (\<lambda>i xs. xs[i := ys ! i]) ks xs = updated_inputs ks xs ys"
  using fold_updates_nth [OF assms, of ys] by (intro nth_equalityI) (simp_all add: updated_inputs_def)

text \<open>What an update stores of a state.\<close>

definition update_wf :: "patch_section_read_mode \<Rightarrow> persisted_state \<Rightarrow> nat list \<Rightarrow> bool" where
  "update_wf mode st indices \<longleftrightarrow> field_text (fc_hash (ps_output st)) \<and> build_id_wf (ps_build_id_hashes st)
     \<and> (\<forall>i \<in> set indices. i < length (ps_input_files st) \<and> file_state_wf mode (ps_input_files st ! i))
     \<and> length (ps_input_files st) < 2 ^ 64"

lemma metadata_lines_text:
  assumes "hex_ok hex" and "update_wf mode st ks"
    and "l \<in> set ([METADATA_UPDATE_VERSION, identity_line (ps_link_start st), output_line (ps_output st), build_id_line (ps_build_id_hashes st),
            tsv [''inputs'', show_nat n]] @ map (\<lambda>i. tsv [''input'', show_nat i, render_input_line_rest hex (ps_input_files st ! i)]) ks)"
  shows "line_text l"
proof -
  have "line_text (tsv [''input'', show_nat i, render_input_line_rest hex (ps_input_files st ! i)])" if "i \<in> set ks" for i
    using assms(2) that input_parts_text [OF assms(1), of mode "ps_input_files st ! i"] unfolding render_input_parts
    by (intro line_tsv) (auto simp: update_wf_def field_line keyword_text intro!: line_tsv)
  moreover have "line_text (identity_line (ps_link_start st))" "line_text (output_line (ps_output st))" "line_text (build_id_line (ps_build_id_hashes st))"
    using content_lines_text assms(2) by (simp_all add: update_wf_def)
  moreover have "line_text METADATA_UPDATE_VERSION" "line_text (tsv [''inputs'', show_nat n])"
    using line_tsv [of "[''inputs'', show_nat n]"] by (simp_all add: METADATA_UPDATE_VERSION_def line_text_def keyword_text field_line show_nat_no)
  ultimately show ?thesis using assms(3) by (auto simp del: join_with.simps)
qed

lemma distinct_bounded: "distinct js \<Longrightarrow> set js \<subseteq> {..<n} \<Longrightarrow> length js \<le> n"
  using card_mono [of "{..<n}" "set js"] by (simp add: distinct_card)

text \<open>
  The update of \<open>st'\<close> for some inputs, applied to \<open>st\<close>: the link start, the output and the build id of \<open>st'\<close>,
  and its inputs at the indices.
\<close>

lemma metadata_update_applied:
  assumes hex: "hex_ok hex" and wf: "update_wf mode st' ks" and len: "length (ps_input_files st) = length (ps_input_files st')"
  shows "\<exists>contents. render_metadata_update hex st' ks = Some contents
    \<and> apply_metadata_update hex mode (Some contents) st
        = Inr (st\<lparr>ps_link_start := ps_link_start st', ps_output := ps_output st', ps_build_id_hashes := ps_build_id_hashes st',
                   ps_input_files := updated_inputs ks (ps_input_files st) (ps_input_files st')\<rparr>)"
proof -
  define js where "js = remdups_adj (sort ks)"
  have js: "set js = set ks" "distinct js" by (simp_all add: js_def distinct_dedup)
  have bound: "\<forall>i \<in> set ks. i < length (ps_input_files st')" and jswf: "update_wf mode st' js" using wf js by (auto simp: update_wf_def)
  let ?line = "\<lambda>i. tsv [''input'', show_nat i, render_input_line_rest hex (ps_input_files st' ! i)]"
  let ?ls = "[METADATA_UPDATE_VERSION, identity_line (ps_link_start st'), output_line (ps_output st'), build_id_line (ps_build_id_hashes st'),
            tsv [''inputs'', show_nat (length js)]] @ map ?line js"
  have those: "those (map (\<lambda>i. map_option (\<lambda>input. tsv [''input'', show_nat i, render_input_line_rest hex input])
      (get_at (ps_input_files st') i)) xs) = Some (map ?line xs)" if "set xs \<subseteq> set ks" for xs
    using that bound by (induction xs) (auto simp: get_at_def simp del: join_with.simps)
  then have r: "render_metadata_update hex st' ks = Some (write_lines ?ls)"
    using js(1) by (simp add: render_metadata_update_def js_def [symmetric] Let_def del: join_with.simps)
  have lines: "rust_lines (write_lines ?ls) = ?ls"
    using metadata_lines_text [OF hex jswf, of _ "length js"] by (intro rust_lines_write_lines) (auto simp: line_text_def simp del: join_with.simps)
  have out: "parse_content_line (Some (output_line (ps_output st'))) ''output'' = Inr (ps_output st')"
    and bid: "parse_build_id_hash_line (Some (build_id_line (ps_build_id_hashes st'))) = Inr (ps_build_id_hashes st')"
    and n: "length (ps_input_files st) < 2 ^ 64" and wfs: "list_all (file_state_wf mode) (map ((!) (ps_input_files st')) js)"
    using wf len output_line_parse build_id_line_parse js by (auto simp: update_wf_def list_all_iff)
  have "length js \<le> length (ps_input_files st')" using bound js by (intro distinct_bounded) auto
  then have "parse_usize (show_nat (length js)) = Some (length js)" using n len by (intro parse_usize_show) simp
  moreover have "apply_input_updates hex mode (length js) (ps_input_files st) (map ?line js) = Inr (updated_inputs js (ps_input_files st) (ps_input_files st'), [])"
    using apply_input_updates_append [OF hex wfs _ n, of "[]"] fold_updated_inputs [of js "ps_input_files st"] bound js(1) len by simp
  moreover have "updated_inputs js = updated_inputs ks" using js(1) by (intro ext) (simp add: updated_inputs_def)
  ultimately have "apply_metadata_update hex mode (Some (write_lines ?ls)) st
        = Inr (st\<lparr>ps_link_start := ps_link_start st', ps_output := ps_output st', ps_build_id_hashes := ps_build_id_hashes st',
                   ps_input_files := updated_inputs ks (ps_input_files st) (ps_input_files st')\<rparr>)"
    unfolding apply_metadata_update_def option.case Let_def lines
    by (simp add: identity_line_parse out bid keyword_line keyword_text del: join_with.simps)
  then show ?thesis using r by blast
qed

subsection \<open>An example\<close>

text \<open>The documented codec.\<close>

definition hex_digit :: "nat \<Rightarrow> char" where
  "hex_digit n = ''0123456789abcdef'' ! n"

definition hex_value :: "char \<Rightarrow> nat option" where
  "hex_value c = (let n = of_char c in if 48 \<le> n \<and> n < 58 then Some (n - 48) else if 97 \<le> n \<and> n < 103 then Some (n - 87) else None)"

fun hex_bytes :: "string \<Rightarrow> string option" where
  "hex_bytes [] = Some []"
| "hex_bytes [a] = None"
| "hex_bytes (a # b # s) =
     (case (hex_value a, hex_value b) of
        (Some x, Some y) \<Rightarrow> map_option (\<lambda>r. char_of (16 * x + y) # r) (hex_bytes s)
      | _ \<Rightarrow> None)"

definition sample_hex :: hex_codec where
  "sample_hex = \<lparr>hex_encode = \<lambda>s. concat (map (\<lambda>c. let n = of_char c in [hex_digit (n div 16), hex_digit (n mod 16)]) s), hex_decode = hex_bytes\<rparr>"

lemma hex_value_digit: "n < 16 \<Longrightarrow> hex_value (hex_digit n) = Some n \<and> hex_digit n \<in> set ''0123456789abcdef''"
proof -
  have "\<forall>n \<in> set [0..<16]. hex_value (hex_digit n) = Some n \<and> hex_digit n \<in> set ''0123456789abcdef''" by code_simp
  then show "n < 16 \<Longrightarrow> ?thesis" by simp
qed

lemma sample_hex_ok: "hex_ok sample_hex"
proof -
  have "hex_bytes (hex_encode sample_hex s) = Some s \<and> set (hex_encode sample_hex s) \<subseteq> set ''0123456789abcdef''" for s
  proof (induction s)
    case (Cons c s)
    let ?n = "of_char c :: nat"
    have "?n div 16 < 16" using nat_of_char_less_256 [of c] by (simp add: less_mult_imp_div_less)
    moreover have "?n mod 16 < 16" by simp
    ultimately show ?case using Cons hex_value_digit [of "?n div 16"] hex_value_digit [of "?n mod 16"]
      by (simp add: sample_hex_def Let_def)
  qed (simp add: sample_hex_def)
  then show ?thesis by (simp add: hex_ok_def) (simp add: sample_hex_def)
qed

definition sample_identity :: file_identity where
  "sample_identity = \<lparr>fi_len = 10, fi_dev = 1, fi_ino = 2, fi_modified_sec = 1700000000, fi_modified_nsec = 5, fi_changed_sec = - 1, fi_changed_nsec = 0\<rparr>"

definition sample_file :: "string \<Rightarrow> string \<Rightarrow> file_state" where
  "sample_file path hash =
     \<lparr>fst_path = path, fst_content = \<lparr>fc_len = 10, fc_hash = hash, fc_identity = Some sample_identity\<rparr>, fst_snapshot_identity = None,
      fst_patch = Some \<lparr>fp_fingerprint = ''0f'', fp_sections = [\<lparr>fs_input = path, fs_section_index = 3, fs_section_name = Some ''.text'',
        fs_input_size = 16, fs_output_offset = 4096, fs_output_size = 16, fs_data_hash = None\<rparr>], fp_raw_sections = None\<rparr>\<rparr>"

definition sample_state :: persisted_state where
  "sample_state =
     \<lparr>ps_args_hash = ''aa'', ps_link_options_hash = Some ''bb'', ps_input_order_hash = Some ''cc'', ps_sld_version = Some ''0.1'',
      ps_link_start = Some sample_identity, ps_output = \<lparr>fc_len = 8192, fc_hash = [], fc_identity = None\<rparr>,
      ps_build_id_hashes = Some \<lparr>output_len = 8192, nodes = 7, tree_hash = Some ''dd''\<rparr>,
      ps_input_files = [sample_file ''61'' ''a0'', sample_file ''62'' ''b0''], ps_records = sample_records, ps_sections_file = None,
      ps_patch_records_file = None, ps_patch_record_locations = [], ps_raw_patch_record_locations = None\<rparr>"

lemma sample_text: "utf8_valid ''.text''"
  by code_simp

lemma sample_file_wf:
  "path \<in> {''61'', ''62''} \<Longrightarrow> hash \<in> {''a0'', ''b0'', ''a1'', ''b1''} \<Longrightarrow> file_state_wf Parse (sample_file path hash)"
  using sample_text
  by (auto simp: file_state_wf_def sample_file_def field_text_def patch_wf_def ABSENT_FIELD_def patch_section_wf_def part_text_def)

lemma sample_state_wf: "state_wf Parse sample_state"
  using sample_file_wf by (simp add: state_wf_def sample_state_def line_text_def required_line_text_def field_text_def build_id_wf_def optional_ok_def ABSENT_FIELD_def)

lemma index_roundtrip_witness:
  "\<exists>records. parse_with_section_loader sample_hex Parse True (\<lambda>_. Inr (Some records))
       (render_index sample_hex sample_state ''sections-1'' None [] None) = Inr (sample_state\<lparr>ps_sections_file := Some ''sections-1''\<rparr>)"
proof -
  obtain records where r: "write_rendered_records sample_records = Some records"
    using write_rendered_total [OF sample_records_wf] by blast
  have "validate_sections_file_name ''sections-1'' = Inr ()" "line_text ''sections-1''"
    by (simp_all add: validate_sections_file_name_def SECTIONS_FILE_def SECTIONS_FILE_PREFIX_def line_text_def)
  from index_roundtrip [OF sample_hex_ok sample_state_wf this, of "[]" sample_records records "\<lambda>_. Inr (Some records)" True "[]" None]
  show ?thesis using r sample_records_wf by (auto simp: sample_state_def)
qed

end
