(* ===== verification/State_Dir_Roundtrip.thy ===== *)
theory State_Dir_Roundtrip
  imports State_Dir State_Index_Roundtrip
begin

text \<open>
  The state directory gives back what is stored in it: the blocks of the records, the records of some inputs,
  the whole state, and the state after metadata updates.
\<close>

subsection \<open>Texts are UTF-8\<close>

lemma utf8_step_append: "utf8_step a \<noteq> 0 \<Longrightarrow> utf8_step (a @ b) = utf8_step a \<and> utf8_step a \<le> length a"
proof -
  have "a = [] \<or> (\<exists>p. a = [p]) \<or> (\<exists>p q. a = [p, q]) \<or> (\<exists>p q r. a = [p, q, r]) \<or> (\<exists>p q r s t. a = p # q # r # s # t)"
    by (cases a; cases "tl a"; cases "tl (tl a)"; cases "tl (tl (tl a))") auto
  then show "utf8_step a \<noteq> 0 \<Longrightarrow> ?thesis"
    by (elim disjE exE; hypsubst; simp only: append.simps utf8_step_def list.case split: if_split_asm; simp)
qed

lemma utf8_append: "utf8_valid a \<Longrightarrow> utf8_valid b \<Longrightarrow> utf8_valid (a @ b)"
proof (induction a rule: utf8_valid.induct)
  case (1 a)
  show ?case
  proof (cases "a = []")
    case False
    then have s: "utf8_step a \<noteq> 0" "utf8_valid (drop (utf8_step a) a)" using 1(2) by (subst (asm) utf8_valid.simps, simp split: if_splits)+
    then have "utf8_valid (drop (utf8_step a) a @ b)" using 1(1) [OF False s(1)] 1(3) by simp
    then show ?thesis using s False utf8_step_append [OF s(1), of b] by (subst utf8_valid.simps) simp
  qed (use 1 in simp)
qed

lemma utf8_empty [simp]: "utf8_valid []"
  by (simp add: utf8_valid.simps)

lemma utf8_ascii: "of_char c < (128 :: nat) \<Longrightarrow> utf8_valid [c]"
  by (subst utf8_valid.simps) (simp add: utf8_step_def byte_in_def)

lemma utf8_all_ascii: "\<forall>c \<in> set s. of_char c < (128 :: nat) \<Longrightarrow> utf8_valid s"
proof (induction s)
  case (Cons c s)
  then show ?case using utf8_append [of "[c]" s] utf8_ascii [of c] by simp
qed simp

lemma utf8_join: "(\<And>x. x \<in> set xs \<Longrightarrow> utf8_valid x) \<Longrightarrow> of_char c < (128 :: nat) \<Longrightarrow> utf8_valid (join_with c xs)"
proof (induction c xs rule: join_with.induct)
  case (3 c x y xs)
  then show ?case using utf8_append [of x "[c] @ join_with c (y # xs)"] utf8_append [of "[c]" "join_with c (y # xs)"] utf8_ascii [of c] by simp
qed simp_all

lemma utf8_lines: "(\<And>x. x \<in> set ls \<Longrightarrow> utf8_valid x) \<Longrightarrow> utf8_valid (write_lines ls)"
proof (induction ls)
  case (Cons l ls)
  then have "utf8_valid l" "utf8_valid (write_lines ls)" by simp_all
  then show ?case using utf8_append [of l "[LF] @ write_lines ls"] utf8_append [of "[LF]" "write_lines ls"] utf8_ascii [of LF]
    by (simp add: write_lines_simps)
qed (simp add: write_lines_simps)

lemma utf8_show_nat [simp]: "utf8_valid (show_nat n)"
  by (rule utf8_all_ascii) (auto dest!: show_nat_chars simp: of_char_digit)

lemma utf8_numbers [simp]: "utf8_valid (show_word w)" "utf8_valid (show_sword (v :: 64 word))" "utf8_valid ABSENT_FIELD"
proof -
  have "utf8_valid (CHR ''-'' # show_nat n)" for n using utf8_append [of "''-''" "show_nat n"] utf8_ascii [of "CHR ''-''"] by simp
  then show "utf8_valid (show_word w)" "utf8_valid (show_sword v)" "utf8_valid ABSENT_FIELD"
    using utf8_ascii [of "CHR ''-''"] by (simp_all add: show_word_def show_sword_def show_int_def ABSENT_FIELD_def)
qed

lemma utf8_optional [simp]: "(\<And>y. utf8_valid (f y)) \<Longrightarrow> utf8_valid (optional_record_field f x)"
  by (simp add: optional_record_field_def split: option.split)

text \<open>The texts of records.\<close>

definition records_text :: "compact_records \<Rightarrow> bool" where
  "records_text cr \<longleftrightarrow>
     (\<forall>(a, b) \<in> set (input_keys cr). utf8_valid a \<and> utf8_valid b)
     \<and> (\<forall>r \<in> set (cr_relocations cr). case rr_target_name r of None \<Rightarrow> True | Some n \<Rightarrow> utf8_valid n)"

lemma keyword_utf8: "utf8_valid ''section''" "utf8_valid ''reloc2''" "utf8_valid ''fde''" "utf8_valid ''dynrel''" "utf8_valid ''sections''"
  "utf8_valid ''relocs''" "utf8_valid ''fdes''" "utf8_valid ''dynrels''" "utf8_valid ''section-inputs''" "utf8_valid ''section-input''"
  by (rule utf8_all_ascii, simp)+

lemma utf8_tsv: "\<forall>x \<in> set xs. utf8_valid x \<Longrightarrow> utf8_valid (tsv xs)"
  by (rule utf8_join) simp_all

lemma record_lines_utf8:
  "section_line ids s = Some l \<Longrightarrow> utf8_valid l"
  "fde_line ids f = Some l \<Longrightarrow> utf8_valid l"
  "dynamic_relocation_line ids d = Some l \<Longrightarrow> utf8_valid l"
  "(case rr_target_name r of None \<Rightarrow> True | Some n \<Rightarrow> utf8_valid n) \<Longrightarrow> relocation_line ids r = Some l \<Longrightarrow> utf8_valid l"
proof -
  show "section_line ids s = Some l \<Longrightarrow> utf8_valid l"
    unfolding section_line_def using keyword_utf8 by (auto simp: utf8_tsv simp del: join_with.simps split: Option.bind_split_asm)
  show "fde_line ids f = Some l \<Longrightarrow> utf8_valid l"
    unfolding fde_line_def using keyword_utf8 by (auto simp: utf8_tsv simp del: join_with.simps split: Option.bind_split_asm)
  show "dynamic_relocation_line ids d = Some l \<Longrightarrow> utf8_valid l"
    unfolding dynamic_relocation_line_def using keyword_utf8
    by (auto simp: utf8_tsv simp del: join_with.simps split: Option.bind_split_asm option.splits)
  show "(case rr_target_name r of None \<Rightarrow> True | Some n \<Rightarrow> utf8_valid n) \<Longrightarrow> relocation_line ids r = Some l \<Longrightarrow> utf8_valid l"
    unfolding relocation_line_def using keyword_utf8
    by (auto intro!: utf8_tsv simp del: join_with.simps split: Option.bind_split_asm option.splits)
qed

lemma those_source: "those (map f xs) = Some ys \<Longrightarrow> y \<in> set ys \<Longrightarrow> \<exists>x \<in> set xs. f x = Some y"
  using those_map_Some [of f xs ys] by (metis in_set_conv_nth nth_mem)

lemma collected_keys:
  assumes "collect_section_inputs cr = (inputs, ids)"
  shows "set inputs \<subseteq> set (input_keys cr)"
proof -
  have "inputs_wf ([], Map.empty)" by (simp add: inputs_wf_def)
  from fold_add_section_input [OF this, of "input_keys cr", folded collect_section_inputs_fold, unfolded assms] show ?thesis by auto
qed

lemma rendered_utf8:
  assumes wf: "records_wf cr" and t: "records_text cr" and ct: "write_rendered_records cr = Some contents"
  shows "utf8_valid contents"
proof -
  obtain inputs ids where c: "collect_section_inputs cr = (inputs, ids)" by (cases "collect_section_inputs cr")
  obtain ss rs fs ds where lines: "those (map (section_line ids) (cr_sections cr)) = Some ss"
      "those (map (relocation_line ids) (cr_relocations cr)) = Some rs" "those (map (fde_line ids) (cr_fdes cr)) = Some fs"
      "those (map (dynamic_relocation_line ids) (cr_dynamic_relocations cr)) = Some ds"
    and contents: "contents = write_lines
         (tsv [''section-inputs'', show_nat (length inputs)] # map (\<lambda>(a, b). tsv [''section-input'', a, b]) inputs
          @ tsv [''sections'', show_nat (length ss)] # ss @ tsv [''relocs'', show_nat (length rs)] # rs
          @ tsv [''fdes'', show_nat (length fs)] # fs @ tsv [''dynrels'', show_nat (length ds)] # ds)"
    using ct by (auto simp: write_rendered_records_def c simp del: join_with.simps split: Option.bind_split_asm)
  have "utf8_valid l" if "l \<in> set ss \<union> set rs \<union> set fs \<union> set ds" for l
    using that lines [THEN those_source, of l] record_lines_utf8(1-3) [of ids _ l] record_lines_utf8(4) [of _ ids l] t
    by (fastforce simp: records_text_def)
  moreover have "utf8_valid a \<and> utf8_valid b" if "(a, b) \<in> set inputs" for a b
    using collected_keys [OF c] that t by (auto simp: records_text_def)
  ultimately show ?thesis unfolding contents using keyword_utf8
    by (intro utf8_lines) (auto intro!: utf8_tsv simp del: join_with.simps)
qed

subsection \<open>Sorted without duplicates\<close>

lemma set_sort_dedup [simp]: "set (sort_dedup k xs) = set xs"
  by (simp add: sort_dedup_def)

lemma sort_dedup_strict: "inj k \<Longrightarrow> sorted (map k (sort_dedup k xs)) \<and> distinct (map k (sort_dedup k xs))"
proof -
  assume k: "inj k"
  have "map k (sort_dedup k xs) = remdups_adj (map k (sort_key k xs))" using k by (simp add: sort_dedup_def remdups_adj_map_injective)
  moreover have "sorted (map k (sort_key k xs))" by simp
  ultimately show ?thesis by (simp add: distinct_dedup sorted_remdups_adj)
qed

lemma sort_dedup_unique:
  assumes k: "inj k" and s: "sorted (map k ys)" "distinct (map k ys)" and "set ys = set xs"
  shows "sort_dedup k xs = ys"
proof -
  have "map k (sort_dedup k xs) = map k ys"
    using sort_dedup_strict [OF k, of xs] assms by (intro sorted_distinct_set_unique) simp_all
  then show ?thesis using k by (simp add: inj_map_eq_map)
qed

lemma sort_dedup_cong: "inj k \<Longrightarrow> set xs = set ys \<Longrightarrow> sort_dedup k xs = sort_dedup k ys"
  using sort_dedup_strict [of k ys] by (intro sort_dedup_unique) simp_all

lemma filter_sort_dedup:
  assumes "inj k" shows "filter P (sort_dedup k xs) = sort_dedup k (filter P xs)"
  using sort_dedup_strict [OF assms, of xs] by (intro sort_dedup_unique [symmetric] assms sorted_filter distinct_map_filter) simp_all

lemma keys_inj: "inj section_key" "inj relocation_key" "inj fde_key" "inj dynamic_relocation_key" "inj location_key"
proof -
  have t: "inj target_key" by (auto simp: inj_def target_key_def intro!: relocation_target_record.equality)
  show "inj section_key" by (auto simp: inj_def section_key_def intro!: section_record.equality)
  show "inj relocation_key"
    using option.inj_map [OF t] by (auto simp: inj_def relocation_key_def intro!: relocation_record.equality signed_word_eqI)
  show "inj fde_key" by (auto simp: inj_def fde_key_def intro!: fde_record.equality)
  show "inj dynamic_relocation_key" by (auto simp: inj_def dynamic_relocation_key_def intro!: dynamic_relocation_record.equality)
  show "inj location_key" by (auto simp: inj_def location_key_def intro!: patch_record_location.equality)
qed

text \<open>Sorted records depend on the sets of records only.\<close>

definition record_sets_eq :: "compact_records \<Rightarrow> compact_records \<Rightarrow> bool" where
  "record_sets_eq a b \<longleftrightarrow>
     set (cr_sections a) = set (cr_sections b) \<and> set (cr_relocations a) = set (cr_relocations b)
     \<and> set (cr_fdes a) = set (cr_fdes b) \<and> set (cr_dynamic_relocations a) = set (cr_dynamic_relocations b)"

lemma sorted_records_cong: "record_sets_eq a b \<Longrightarrow> sorted_records a = sorted_records b"
  by (auto simp: record_sets_eq_def sorted_records_def intro!: sort_dedup_cong keys_inj)

lemma retain_sorted: "retain_records F (sorted_records a) = sorted_records (retain_records F a)"
  using keys_inj by (simp add: retain_records_def sorted_records_def filter_sort_dedup)

subsection \<open>The blocks of the owners\<close>

lemma set_record_owners:
  "set (record_owners cr) = sr_input_file ` set (cr_sections cr) \<union> rr_input_file ` set (cr_relocations cr)
     \<union> fr_input_file ` set (cr_fdes cr) \<union> dr_input_file ` set (cr_dynamic_relocations cr)"
  by (auto simp: record_owners_def)

lemma distinct_record_owners: "distinct (record_owners cr)"
  by (simp add: record_owners_def distinct_dedup)

lemma owner_records_wf:
  assumes "records_wf cr"
  shows "records_wf (owner_records cr f)"
proof -
  let ?o = "owner_records cr f"
  have "length (concat (map relocation_keys (sort_key relocation_key (filter P rs)))) \<le> length (concat (map relocation_keys rs))" for P rs
  proof -
    have "length (concat (map relocation_keys (sort_key relocation_key (filter P rs)))) = sum_list (map (length \<circ> relocation_keys) (sort_key relocation_key (filter P rs)))"
      by (simp add: length_concat comp_def)
    also have "\<dots> = sum_list (map (length \<circ> relocation_keys) (filter P rs))"
      by (simp add: mset_map flip: sum_mset_sum_list)
    also have "\<dots> \<le> sum_list (map (length \<circ> relocation_keys) rs)" by (induction rs) auto
    finally show ?thesis by (simp add: length_concat comp_def)
  qed
  then have "length (input_keys ?o) \<le> length (input_keys cr)"
    by (simp add: input_keys_def owner_records_def) (intro add_mono; simp)
  moreover have "set (input_keys ?o) \<subseteq> set (input_keys cr)" by (auto simp: input_keys_def owner_records_def)
  moreover have "length (input_keys cr) < 2 ^ 64" using assms by (simp add: records_wf_def)
  ultimately have "length (input_keys ?o) < 2 ^ 64" "\<forall>(a, b) \<in> set (input_keys ?o). field_text a \<and> field_text b"
    using assms by (auto simp: records_wf_def)
  then show ?thesis using assms by (simp add: records_wf_def) (simp add: owner_records_def)
qed

lemma owner_records_text: "records_text cr \<Longrightarrow> records_text (owner_records cr f)"
  by (auto simp: records_text_def input_keys_def owner_records_def)

definition zstd_ok :: "zstd \<Rightarrow> bool" where
  "zstd_ok zs \<longleftrightarrow> (\<forall>s. \<exists>b. zstd_encode zs s = Inr b \<and> zstd_decode zs b = Inr s)"

text \<open>The block of an owner gives its records.\<close>

definition block_of :: "zstd \<Rightarrow> compact_records \<Rightarrow> string \<Rightarrow> string \<Rightarrow> bool" where
  "block_of zs cr f block \<longleftrightarrow>
     (\<exists>c. zstd_decode zs block = Inr c \<and> utf8_valid c \<and> parse_compact_records_block (rust_lines c) = Inr (owner_records cr f))"

lemma compress_blocks_total:
  assumes wf: "records_wf cr" "records_text cr" and zs: "zstd_ok zs"
  shows "\<exists>blocks. compress_blocks zs cr fs = Some (Inr blocks) \<and> map fst blocks = fs \<and> (\<forall>(f, b) \<in> set blocks. block_of zs cr f b)"
proof (induction fs)
  case (Cons f fs)
  obtain c where c: "write_rendered_records (owner_records cr f) = Some c"
    using write_rendered_total [OF owner_records_wf [OF wf(1)]] by blast
  obtain b where b: "zstd_encode zs c = Inr b" "zstd_decode zs b = Inr c" using zs by (auto simp: zstd_ok_def)
  have "block_of zs cr f b"
    using records_parsed [OF owner_records_wf [OF wf(1)] c] rendered_utf8 [OF owner_records_wf [OF wf(1)] owner_records_text [OF wf(2)] c] b(2)
    by (auto simp: block_of_def)
  then show ?case using Cons c b(1) by auto
qed simp

lemma place_blocks_read:
  assumes "unat off + length (concat (map snd blocks)) < 2 ^ 64" and "l \<in> set (place_blocks hash off blocks)"
  shows "\<exists>b pre post. (pl_input_file l, b) \<in> set blocks \<and> concat (map snd blocks) = pre @ b @ post
    \<and> unat (pl_offset l) = unat off + length pre \<and> unat (pl_len l) = length b \<and> pl_hash l = hash b"
  using assms
proof (induction hash off blocks rule: place_blocks.induct)
  case (2 hash off f block blocks)
  have len: "unat (of_nat (length block) :: u64) = length block" using 2(2) by (simp add: unsigned_of_nat take_bit_nat_eq_self)
  consider "l = \<lparr>pl_input_file = f, pl_offset = off, pl_len = of_nat (length block), pl_hash = hash block\<rparr>"
    | "l \<in> set (place_blocks hash (off + of_nat (length block)) blocks)" using 2(3) by auto
  then show ?case
  proof cases
    case 1
    then show ?thesis using len by (intro exI [of _ block] exI [of _ "[]"] exI [of _ "concat (map snd blocks)"]) simp
  next
    case l: 2
    have off: "unat (off + of_nat (length block)) = unat off + length block"
      using 2(2) len by (subst unat_add_lem [THEN iffD1]) simp_all
    obtain b pre post where "(pl_input_file l, b) \<in> set blocks" "concat (map snd blocks) = pre @ b @ post"
        "unat (pl_offset l) = unat (off + of_nat (length block)) + length pre" "unat (pl_len l) = length b" "pl_hash l = hash b"
      using 2(1) [OF _ l] 2(2) off by auto
    then show ?thesis using off by (intro exI [of _ b] exI [of _ "block @ pre"] exI [of _ post]) simp
  qed
qed simp

lemma place_blocks_files: "map pl_input_file (place_blocks hash off blocks) = map fst blocks"
  by (induction hash off blocks rule: place_blocks.induct) simp_all

subsection \<open>Reading locations\<close>

lemma dedup_key_set: "set (dedup_key k xs) \<subseteq> set xs \<and> k ` set (dedup_key k xs) = k ` set xs"
  by (induction k xs rule: dedup_key.induct) auto

lemma read_block_cong: "block_key l = block_key o' \<Longrightarrow> read_block zs hash name contents l = read_block zs hash name contents o'"
  by (simp add: read_block_def block_key_def)

definition records_subset :: "compact_records \<Rightarrow> compact_records \<Rightarrow> bool" where
  "records_subset a b \<longleftrightarrow>
     set (cr_sections a) \<subseteq> set (cr_sections b) \<and> set (cr_relocations a) \<subseteq> set (cr_relocations b)
     \<and> set (cr_fdes a) \<subseteq> set (cr_fdes b) \<and> set (cr_dynamic_relocations a) \<subseteq> set (cr_dynamic_relocations b)"

lemma records_subset_trans: "records_subset a b \<Longrightarrow> records_subset b c \<Longrightarrow> records_subset a c"
  by (auto simp: records_subset_def)

lemma records_subset_append: "records_subset a (append_records a b)" "records_subset b (append_records a b)"
  "records_subset a c \<Longrightarrow> records_subset b c \<Longrightarrow> records_subset (append_records a b) c"
  by (simp_all add: records_subset_def append_records_def)

lemma read_blocks_all:
  assumes "\<forall>l \<in> set ls. \<exists>B. read_block zs hash name contents l = Inr B \<and> records_subset B cr" and "records_subset acc cr"
  shows "\<exists>R. read_blocks zs hash name contents acc ls = Inr R \<and> records_subset R cr \<and> records_subset acc R
    \<and> (\<forall>l \<in> set ls. \<forall>B. read_block zs hash name contents l = Inr B \<longrightarrow> records_subset B R)"
  using assms
proof (induction ls arbitrary: acc)
  case Nil
  then show ?case by (simp add: records_subset_def)
next
  case (Cons l ls)
  obtain B where B: "read_block zs hash name contents l = Inr B" "records_subset B cr" using Cons.prems(1) by auto
  obtain R where R: "read_blocks zs hash name contents (append_records acc B) ls = Inr R" "records_subset R cr" "records_subset (append_records acc B) R"
      "\<forall>l \<in> set ls. \<forall>B. read_block zs hash name contents l = Inr B \<longrightarrow> records_subset B R"
    using Cons.IH [of "append_records acc B"] Cons.prems records_subset_append(3) [OF Cons.prems(2) B(2)] by auto
  have "records_subset acc R" "records_subset B R" using R(3) records_subset_append(1,2) records_subset_trans by blast+
  then show ?case using B R by (intro exI [of _ R]) auto
qed

lemma owner_records_subset: "records_subset (owner_records cr f) cr"
  by (auto simp: records_subset_def owner_records_def)

text \<open>A location of a written block gives the records of its owner.\<close>

lemma read_owned_block:
  assumes len: "length (concat (map snd blocks)) < 2 ^ 64" and blk: "\<forall>(f, b) \<in> set blocks. block_of zs cr f b"
    and name: "starts_with COMPRESSED_SECTIONS_FILE_PREFIX name" and l: "l \<in> set (place_blocks hash 0 blocks)"
  shows "read_block zs hash name (concat (map snd blocks)) l = Inr (owner_records cr (pl_input_file l))"
proof -
  obtain b pre post where b: "(pl_input_file l, b) \<in> set blocks" "concat (map snd blocks) = pre @ b @ post"
      "unat (pl_offset l) = length pre" "unat (pl_len l) = length b" "pl_hash l = hash b"
    using place_blocks_read [OF _ l] len by auto
  obtain c where "zstd_decode zs b = Inr c" "utf8_valid c" "parse_compact_records_block (rust_lines c) = Inr (owner_records cr (pl_input_file l))"
    using blk b(1) by (auto simp: block_of_def)
  moreover have "\<not> 2 ^ 64 \<le> length pre + length b" "length (pre @ b @ post) \<ge> length pre + length b" using len b(2) by auto
  ultimately show ?thesis using name b(3-5) unfolding b(2) by (simp add: read_block_def)
qed

lemma alias_locations_owned:
  "l \<in> set (alias_locations owned aliases) \<Longrightarrow> \<exists>o' \<in> set owned. block_key l = block_key o'"
proof -
  assume "l \<in> set (alias_locations owned aliases)"
  then have "\<exists>f o' t. find (\<lambda>l. pl_input_file l = f) owned = Some o' \<and> l = o'\<lparr>pl_input_file := t\<rparr>"
    by (auto simp: alias_locations_def split: option.splits) metis
  then obtain f o' t where "find (\<lambda>l. pl_input_file l = f) owned = Some o'" "l = o'\<lparr>pl_input_file := t\<rparr>" by blast
  then have "o' \<in> set owned" "block_key l = block_key o'" by (auto simp: find_Some_iff block_key_def)
  then show ?thesis by blast
qed

lemma alias_locations_complete:
  assumes "(t, f) \<in> set aliases" and "o' \<in> set owned" and "pl_input_file o' = f" and "distinct (map pl_input_file owned)"
  shows "\<exists>l \<in> set (alias_locations owned aliases). pl_input_file l = t \<and> block_key l = block_key o'"
proof -
  have "\<exists>l. find (\<lambda>l. pl_input_file l = f) owned = Some l" using assms(2,3) by (simp add: find_None_iff flip: not_None_eq) blast
  then obtain l where l: "find (\<lambda>l. pl_input_file l = f) owned = Some l" by blast
  then have "l \<in> set owned" "pl_input_file l = f" by (auto simp: find_Some_iff)
  then have "l = o'" using assms(2-4) by (metis distinct_map inj_onD)
  then have "o'\<lparr>pl_input_file := t\<rparr> \<in> set (alias_locations owned aliases)"
    using assms(1) l by (force simp: alias_locations_def)
  then show ?thesis by (intro bexI [of _ "o'\<lparr>pl_input_file := t\<rparr>"]) (simp_all add: block_key_def)
qed

text \<open>
  Reading some of the locations gives records of the link only, and all records of every owner one of the
  locations is for.
\<close>

lemma read_locations:
  assumes len: "length (concat (map snd blocks)) < 2 ^ 64" and blk: "\<forall>(f, b) \<in> set blocks. block_of zs cr f b"
    and name: "starts_with COMPRESSED_SECTIONS_FILE_PREFIX name"
    and locs: "\<forall>l \<in> set locs. \<exists>o' \<in> set (place_blocks hash 0 blocks). block_key l = block_key o'"
  shows "\<exists>R. read_blocks zs hash name (concat (map snd blocks)) no_records (dedup_key block_key (sort_key block_key locs)) = Inr R
    \<and> records_subset R cr
    \<and> (\<forall>l \<in> set locs. \<forall>o' \<in> set (place_blocks hash 0 blocks). block_key l = block_key o' \<longrightarrow> records_subset (owner_records cr (pl_input_file o')) R)"
proof -
  let ?ls = "dedup_key block_key (sort_key block_key locs)"
  let ?read = "read_block zs hash name (concat (map snd blocks))"
  have ls: "set ?ls \<subseteq> set locs" "block_key ` set ?ls = block_key ` set locs" using dedup_key_set [of block_key "sort_key block_key locs"] by simp_all
  have at: "?read l = Inr (owner_records cr (pl_input_file o'))" if "o' \<in> set (place_blocks hash 0 blocks)" "block_key l = block_key o'" for l o'
    using read_block_cong [OF that(2)] read_owned_block [OF len blk name that(1)] by simp
  have "\<forall>l \<in> set ?ls. \<exists>B. ?read l = Inr B \<and> records_subset B cr"
    proof
    fix l assume "l \<in> set ?ls"
    then obtain o' where "o' \<in> set (place_blocks hash 0 blocks)" "block_key l = block_key o'" using ls(1) locs by blast
    then show "\<exists>B. ?read l = Inr B \<and> records_subset B cr" using at owner_records_subset by blast
  qed
  moreover have "records_subset no_records cr" by (simp add: records_subset_def no_records_def)
  ultimately obtain R where R: "read_blocks zs hash name (concat (map snd blocks)) no_records ?ls = Inr R" "records_subset R cr"
      "\<forall>l \<in> set ?ls. \<forall>B. ?read l = Inr B \<longrightarrow> records_subset B R"
    using read_blocks_all [of ?ls zs hash name "concat (map snd blocks)" cr no_records] by blast
  have "records_subset (owner_records cr (pl_input_file o')) R"
    if "l \<in> set locs" "o' \<in> set (place_blocks hash 0 blocks)" "block_key l = block_key o'" for l o'
  proof -
    have "block_key l \<in> block_key ` set ?ls" using ls(2) that(1) by blast
    then obtain l' where l': "l' \<in> set ?ls" "block_key l' = block_key l" by auto
    then show ?thesis using R(3) at [of o' l'] that by simp
  qed
  then show ?thesis using R(1,2) by blast
qed

subsection \<open>What is read\<close>

text \<open>What \<open>write_indexed_records\<close> stores, with the laws of its parameters.\<close>

definition stored_as ::
    "zstd \<Rightarrow> (string \<Rightarrow> string) \<Rightarrow> compact_records \<Rightarrow> (string \<times> string) list \<Rightarrow> string \<Rightarrow> string \<Rightarrow> patch_record_location list \<Rightarrow> bool" where
  "stored_as zs hash cr blocks name contents locs \<longleftrightarrow>
     contents = concat (map snd blocks) \<and> name = COMPRESSED_SECTIONS_FILE_PREFIX @ hash contents
     \<and> map fst blocks = record_owners cr \<and> (\<forall>(f, b) \<in> set blocks. block_of zs cr f b)
     \<and> set locs = set (place_blocks hash 0 blocks)
         \<union> set (alias_locations (place_blocks hash 0 blocks) (remdups_adj (sort (relocation_aliases (cr_relocations cr)))))"

lemma written_form:
  assumes wf: "records_wf cr" "records_text cr" and zs: "zstd_ok zs"
    and w: "write_indexed_records zs hash cr = Some (Inr (name, contents, locs))"
  shows "\<exists>blocks. stored_as zs hash cr blocks name contents locs"
proof -
  obtain blocks where b: "compress_blocks zs cr (record_owners cr) = Some (Inr blocks)" "map fst blocks = record_owners cr"
      "\<forall>(f, b) \<in> set blocks. block_of zs cr f b"
    using compress_blocks_total [OF wf zs] by blast
  then have "stored_as zs hash cr blocks name contents locs"
    using w unfolding write_indexed_records_def b(1) by (auto simp: Let_def stored_as_def)
  then show ?thesis by blast
qed

lemma owner_of:
  "s \<in> set (cr_sections cr) \<Longrightarrow> s \<in> set (cr_sections (owner_records cr (sr_input_file s))) \<and> sr_input_file s \<in> set (record_owners cr)"
  "r \<in> set (cr_relocations cr) \<Longrightarrow> r \<in> set (cr_relocations (owner_records cr (rr_input_file r))) \<and> rr_input_file r \<in> set (record_owners cr)"
  "f \<in> set (cr_fdes cr) \<Longrightarrow> f \<in> set (cr_fdes (owner_records cr (fr_input_file f))) \<and> fr_input_file f \<in> set (record_owners cr)"
  "d \<in> set (cr_dynamic_relocations cr) \<Longrightarrow> d \<in> set (cr_dynamic_relocations (owner_records cr (dr_input_file d))) \<and> dr_input_file d \<in> set (record_owners cr)"
  unfolding set_record_owners by (auto simp: owner_records_def)

lemma stored_owner:
  assumes "stored_as zs hash cr blocks name contents locs" and "f \<in> set (record_owners cr)"
  shows "\<exists>o' \<in> set (place_blocks hash 0 blocks). o' \<in> set locs \<and> pl_input_file o' = f"
proof -
  have "f \<in> set (map pl_input_file (place_blocks hash 0 blocks))"
    using assms place_blocks_files [of hash 0 blocks] by (simp add: stored_as_def)
  then show ?thesis using assms(1) by (auto simp: stored_as_def)
qed

text \<open>For the target of a relocation from another input there is a location of the block of that input.\<close>

lemma stored_alias:
  assumes st: "stored_as zs hash cr blocks name contents locs" and r: "r \<in> set (cr_relocations cr)" "rr_target r = Some t"
    and other: "rt_input_file t \<noteq> rr_input_file r"
  shows "\<exists>l \<in> set locs. \<exists>o' \<in> set (place_blocks hash 0 blocks).
    pl_input_file l = rt_input_file t \<and> pl_input_file o' = rr_input_file r \<and> block_key l = block_key o'"
proof -
  have "(rt_input_file t, rr_input_file r) \<in> set (relocation_aliases (cr_relocations cr))"
    using r other by (force simp: relocation_aliases_def)
  then have "(rt_input_file t, rr_input_file r) \<in> set (remdups_adj (sort (relocation_aliases (cr_relocations cr))))" by simp
  moreover have "distinct (map pl_input_file (place_blocks hash 0 blocks))"
    using st distinct_record_owners [of cr] place_blocks_files [of hash 0 blocks] by (simp add: stored_as_def)
  moreover obtain o' where o': "o' \<in> set (place_blocks hash 0 blocks)" "pl_input_file o' = rr_input_file r"
    using stored_owner [OF st] owner_of(2) [OF r(1)] by blast
  ultimately obtain l where
      "l \<in> set (alias_locations (place_blocks hash 0 blocks) (remdups_adj (sort (relocation_aliases (cr_relocations cr)))))"
      "pl_input_file l = rt_input_file t" "block_key l = block_key o'"
    using alias_locations_complete [of "rt_input_file t" "rr_input_file r" _ o' "place_blocks hash 0 blocks"] by blast
  then show ?thesis using st o' by (auto simp: stored_as_def)
qed

lemma stored_read:
  assumes st: "stored_as zs hash cr blocks name contents locs" and len: "length contents < 2 ^ 64" and sub: "set ls \<subseteq> set locs"
  shows "\<exists>R. read_blocks zs hash name contents no_records (dedup_key block_key (sort_key block_key ls)) = Inr R
    \<and> records_subset R cr
    \<and> (\<forall>l \<in> set ls. \<forall>o' \<in> set (place_blocks hash 0 blocks). block_key l = block_key o' \<longrightarrow> records_subset (owner_records cr (pl_input_file o')) R)"
proof -
  have "\<forall>l \<in> set ls. \<exists>o' \<in> set (place_blocks hash 0 blocks). block_key l = block_key o'"
    using st sub alias_locations_owned unfolding stored_as_def by blast
  then show ?thesis using read_locations [of blocks zs cr name ls hash] st len by (simp add: stored_as_def)
qed

lemma stored_read_all:
  assumes st: "stored_as zs hash cr blocks name contents locs" and len: "length contents < 2 ^ 64"
  shows "\<exists>R. read_blocks zs hash name contents no_records (dedup_key block_key (sort_key block_key locs)) = Inr R \<and> record_sets_eq R cr"
proof -
  obtain R where R: "read_blocks zs hash name contents no_records (dedup_key block_key (sort_key block_key locs)) = Inr R" "records_subset R cr"
      "\<forall>l \<in> set locs. \<forall>o' \<in> set (place_blocks hash 0 blocks). block_key l = block_key o' \<longrightarrow> records_subset (owner_records cr (pl_input_file o')) R"
    using stored_read [OF st len subset_refl] by blast
  have "records_subset (owner_records cr f) R" if f: "f \<in> set (record_owners cr)" for f
    using stored_owner [OF st f] R(3) by blast
  then have "record_sets_eq R cr"
    using R(2) owner_of [of _ cr] unfolding record_sets_eq_def records_subset_def by blast
  then show ?thesis using R(1) by blast
qed

lemma stored_read_some:
  assumes st: "stored_as zs hash cr blocks name contents locs" and len: "length contents < 2 ^ 64"
  shows "\<exists>R. read_blocks zs hash name contents no_records
        (dedup_key block_key (sort_key block_key (filter (\<lambda>l. pl_input_file l \<in> F) locs))) = Inr R
      \<and> record_sets_eq (retain_records F R) (retain_records F cr)"
proof -
  let ?ls = "filter (\<lambda>l. pl_input_file l \<in> F) locs"
  obtain R where R: "read_blocks zs hash name contents no_records (dedup_key block_key (sort_key block_key ?ls)) = Inr R" "records_subset R cr"
      "\<forall>l \<in> set ?ls. \<forall>o' \<in> set (place_blocks hash 0 blocks). block_key l = block_key o' \<longrightarrow> records_subset (owner_records cr (pl_input_file o')) R"
    using stored_read [OF st len, of ?ls] by auto
  have own: "records_subset (owner_records cr f) R" if f: "f \<in> set (record_owners cr)" "f \<in> F" for f
    using stored_owner [OF st f(1)] R(3) f(2) by auto
  have target: "records_subset (owner_records cr (rr_input_file r)) R"
    if r: "r \<in> set (cr_relocations cr)" "rr_target r = Some t" "rt_input_file t \<in> F" for r t
  proof (cases "rt_input_file t = rr_input_file r")
    case True
    then show ?thesis using own [of "rr_input_file r"] owner_of(2) [OF r(1)] r(3) by simp
  next
    case False
    then show ?thesis using stored_alias [OF st r(1,2)] R(3) r(3) by fastforce
  qed
  have sub: "set (cr_sections R) \<subseteq> set (cr_sections cr)" "set (cr_relocations R) \<subseteq> set (cr_relocations cr)"
      "set (cr_fdes R) \<subseteq> set (cr_fdes cr)" "set (cr_dynamic_relocations R) \<subseteq> set (cr_dynamic_relocations cr)"
    using R(2) by (simp_all add: records_subset_def)
  have "s \<in> set (cr_sections R)" if "s \<in> set (cr_sections cr)" "sr_input_file s \<in> F" for s
    using own [of "sr_input_file s"] owner_of(1) [OF that(1)] that(2) unfolding records_subset_def by blast
  moreover have "f \<in> set (cr_fdes R)" if "f \<in> set (cr_fdes cr)" "fr_input_file f \<in> F" for f
    using own [of "fr_input_file f"] owner_of(3) [OF that(1)] that(2) unfolding records_subset_def by blast
  moreover have "d \<in> set (cr_dynamic_relocations R)" if "d \<in> set (cr_dynamic_relocations cr)" "dr_input_file d \<in> F" for d
    using own [of "dr_input_file d"] owner_of(4) [OF that(1)] that(2) unfolding records_subset_def by blast
  moreover have "r \<in> set (cr_relocations R)"
    if "r \<in> set (cr_relocations cr)" "rr_input_file r \<in> F \<or> (\<exists>t. rr_target r = Some t \<and> rt_input_file t \<in> F)" for r
    using own [of "rr_input_file r"] target [OF that(1)] owner_of(2) [OF that(1)] that(2) unfolding records_subset_def by blast
  ultimately have "record_sets_eq (retain_records F R) (retain_records F cr)"
    using sub unfolding record_sets_eq_def retain_records_def by (auto split: option.splits)
  then show ?thesis using R(1) by blast
qed

lemma stored_no_locations:
  assumes "stored_as zs hash cr blocks name contents []"
  shows "cr_sections cr = [] \<and> cr_relocations cr = [] \<and> cr_fdes cr = [] \<and> cr_dynamic_relocations cr = []"
proof -
  have "set (record_owners cr) = {}" using stored_owner [OF assms] by (intro equals0I) auto
  then show ?thesis unfolding set_record_owners by simp
qed

text \<open>A hash is printed in hexadecimal digits.\<close>

definition hash_ok :: "(string \<Rightarrow> string) \<Rightarrow> bool" where
  "hash_ok hash \<longleftrightarrow> (\<forall>s. set (hash s) \<subseteq> set ''0123456789abcdef'')"

lemma hash_text: "hash_ok hash \<Longrightarrow> field_text (hash s) \<and> CHR ''/'' \<notin> set (hash s) \<and> CHR 0x5C \<notin> set (hash s)"
proof -
  assume "hash_ok hash"
  then have "c \<notin> set (hash s)" if "c \<notin> set ''0123456789abcdef''" for c using that unfolding hash_ok_def by blast
  from this [of TAB] this [of LF] this [of CR] this [of "CHR ''/''"] this [of "CHR 0x5C"] show ?thesis by (simp add: field_text_def)
qed

lemma stored_name:
  assumes "stored_as zs hash cr blocks name contents locs" and "hash_ok hash"
  shows "validate_sections_file_name name = Inr () \<and> line_text name"
proof -
  have n: "name = COMPRESSED_SECTIONS_FILE_PREFIX @ hash contents" using assms(1) by (simp add: stored_as_def)
  then have "starts_with COMPRESSED_SECTIONS_FILE_PREFIX name" by simp
  moreover have "CHR ''/'' \<notin> set name" "CHR 0x5C \<notin> set name" "line_text name"
    unfolding n using hash_text [OF assms(2), of contents] by (simp_all add: COMPRESSED_SECTIONS_FILE_PREFIX_def line_text_def field_text_def)
  ultimately show ?thesis by (simp add: validate_sections_file_name_def)
qed

text \<open>
  C6. A link that needs the records of some inputs reads exactly these, although only the blocks listed for
  the inputs are read: also the relocations of other inputs that point into them, and no others. All the
  records are read as they were written, sorted and without duplicates.
\<close>

theorem indexed_records_correct:
  assumes wf: "records_wf cr" "records_text cr" and zs: "zstd_ok zs" and hash: "hash_ok hash"
    and w: "write_indexed_records zs hash cr = Some (Inr (name, contents, locs))" and len: "length contents < 2 ^ 64"
    and files: "files name = Some contents"
    and st: "ps_sections_file st = Some name" "ps_patch_records_file st = Some name" "ps_patch_record_locations st = locs"
  shows "read_all_indexed_records zs hash files st = Inr (sorted_records cr)
    \<and> read_indexed_patch_records zs hash files st name F = Inr (Some (retain_records F (sorted_records cr)))"
proof -
  obtain blocks where b: "stored_as zs hash cr blocks name contents locs" using written_form [OF wf zs w] by blast
  have name: "validate_sections_file_name name = Inr ()" using stored_name [OF b hash] by simp
  have "read_all_indexed_records zs hash files st = Inr (sorted_records cr)"
    using stored_read_all [OF b len] st name files
    by (auto simp: read_all_indexed_records_def read_indexed_records_at_locations_def intro: sorted_records_cong)
  moreover have "read_indexed_patch_records zs hash files st name F = Inr (Some (retain_records F (sorted_records cr)))"
  proof (cases "locs = []")
    case True
    then show ?thesis using stored_no_locations b st
      by (simp add: read_indexed_patch_records_def retain_records_def sorted_records_def sort_dedup_def no_records_def)
  next
    case False
    then show ?thesis using stored_read_some [OF b len, of F] st name files
      by (auto simp: read_indexed_patch_records_def read_indexed_records_at_locations_def retain_sorted intro: sorted_records_cong)
  qed
  ultimately show ?thesis by blast
qed

subsection \<open>The state is read back\<close>

lemma alias_locations_length: "length (alias_locations owned aliases) \<le> length aliases"
  by (induction aliases) (auto simp: alias_locations_def split: option.splits)

lemma relocation_aliases_length: "length (relocation_aliases rs) + length rs \<le> length (concat (map relocation_keys rs))"
  by (induction rs) (auto simp: relocation_aliases_def relocation_keys_def split: option.splits)

lemma place_blocks_hash: "l \<in> set (place_blocks hash off blocks) \<Longrightarrow> \<exists>b. pl_hash l = hash b"
  by (induction hash off blocks rule: place_blocks.induct) auto

lemma stored_locations:
  assumes wf: "records_wf cr" "records_text cr" and zs: "zstd_ok zs" and hash: "hash_ok hash"
    and w: "write_indexed_records zs hash cr = Some (Inr (name, contents, locs))"
  shows "list_all location_wf locs" "length locs < 2 ^ 64"
proof -
  let ?al = "remdups_adj (sort (relocation_aliases (cr_relocations cr)))"
  obtain blocks where b: "compress_blocks zs cr (record_owners cr) = Some (Inr blocks)" "map fst blocks = record_owners cr"
      "\<forall>(f, b) \<in> set blocks. block_of zs cr f b"
    using compress_blocks_total [OF wf zs] by blast
  let ?owned = "place_blocks hash 0 blocks"
  have locs: "locs = sort_dedup location_key (?owned @ alias_locations ?owned ?al)"
    using w unfolding write_indexed_records_def b(1) by (simp add: Let_def)
  have files: "map pl_input_file ?owned = record_owners cr" using b(2) place_blocks_files [of hash 0 blocks] by simp
  have n: "length ?owned = length (record_owners cr)" using arg_cong [OF files, of length] by simp
  have "length locs \<le> length (?owned @ alias_locations ?owned ?al)"
    unfolding locs sort_dedup_def using remdups_adj_length [of "sort_key location_key (?owned @ alias_locations ?owned ?al)"] by simp
  also have "\<dots> \<le> length (record_owners cr) + length (relocation_aliases (cr_relocations cr))"
    using alias_locations_length [of ?owned ?al] remdups_adj_length [of "sort (relocation_aliases (cr_relocations cr))"] n by simp
  also have "\<dots> \<le> length (input_keys cr)"
    using remdups_adj_length [of "sort (map sr_input_file (cr_sections cr) @ map rr_input_file (cr_relocations cr)
        @ map fr_input_file (cr_fdes cr) @ map dr_input_file (cr_dynamic_relocations cr))"]
      relocation_aliases_length [of "cr_relocations cr"]
    by (simp add: record_owners_def input_keys_def)
  finally show "length locs < 2 ^ 64" using wf(1) by (simp add: records_wf_def)
  have key: "field_text a" if "(a, b) \<in> set (input_keys cr)" for a b using that wf(1) by (auto simp: records_wf_def)
  have "field_text f" if "f \<in> set (record_owners cr)" for f
    using that keys_present(1-4) [of _ cr] key unfolding set_record_owners by blast
  moreover have "field_text t" if "(t, f) \<in> set (relocation_aliases (cr_relocations cr))" for t f
  proof -
    have "\<exists>r x. r \<in> set (cr_relocations cr) \<and> rr_target r = Some x \<and> t = rt_input_file x"
      using that by (force simp: relocation_aliases_def split: option.splits if_splits)
    then show ?thesis using keys_present(5) key by blast
  qed
  moreover have "field_text (pl_hash l)" if "l \<in> set ?owned" for l
    using place_blocks_hash [OF that] hash_text [OF hash] by auto
  ultimately show "list_all location_wf locs"
    unfolding locs list_all_iff set_sort_dedup
    by (auto simp: location_wf_def alias_locations_def find_Some_iff2 files [symmetric] split: option.splits)
qed

text \<open>A state as it is read back.\<close>

definition stored_state :: "persisted_state \<Rightarrow> string \<Rightarrow> patch_record_location list \<Rightarrow> persisted_state" where
  "stored_state st name locs =
     st\<lparr>ps_records := sorted_records (ps_records st), ps_sections_file := Some name, ps_patch_records_file := Some name,
        ps_patch_record_locations := locs, ps_raw_patch_record_locations := None\<rparr>"

definition updated_state :: "persisted_state \<Rightarrow> nat list \<Rightarrow> persisted_state \<Rightarrow> persisted_state" where
  "updated_state st indices new =
     st\<lparr>ps_link_start := ps_link_start new, ps_output := ps_output new, ps_build_id_hashes := ps_build_id_hashes new,
        ps_input_files := updated_inputs indices (ps_input_files st) (ps_input_files new)\<rparr>"

definition storable :: "hex_codec \<Rightarrow> zstd \<Rightarrow> (string \<Rightarrow> string) \<Rightarrow> persisted_state \<Rightarrow> bool" where
  "storable hex zs hash st \<longleftrightarrow>
     hex_ok hex \<and> zstd_ok zs \<and> hash_ok hash \<and> state_wf Parse st \<and> records_wf (ps_records st) \<and> records_text (ps_records st)"

text \<open>A directory that holds the full state and some update.\<close>

lemma read_stored:
  assumes ok: "storable hex zs hash st"
    and w: "write_indexed_records zs hash (ps_records st) = Some (Inr (name, contents, locs))" and len: "length contents < 2 ^ 64"
    and dir: "sd_index dir = Some (render_index hex st name (Some name) locs None)" "sd_sidecars dir name = Some contents"
  shows "read_state hex zs hash dir
    = res_bind (apply_metadata_update hex Parse (sd_update dir) (stored_state st name locs)) (\<lambda>st. Inr (Some st))"
proof -
  have ok': "hex_ok hex" "zstd_ok zs" "hash_ok hash" "state_wf Parse st" "records_wf (ps_records st)" "records_text (ps_records st)"
    using ok by (simp_all add: storable_def)
  obtain blocks where b: "stored_as zs hash (ps_records st) blocks name contents locs" using written_form [OF ok'(5,6,2) w] by blast
  note name = stored_name [OF b ok'(3)]
  let ?st = "st\<lparr>ps_records := no_records, ps_sections_file := Some name, ps_patch_records_file := Some name,
        ps_patch_record_locations := locs, ps_raw_patch_record_locations := None\<rparr>"
  have "parse_with_section_loader hex Parse True loader (render_index hex st name (Some name) locs None) = Inr ?st" for loader
    using index_read_indexed [OF ok'(1,4)] name stored_locations [OF ok'(5,6,2,3) w] by blast
  moreover have "read_all_indexed_records zs hash (sd_sidecars dir) ?st = Inr (sorted_records (ps_records st))"
    using stored_read_all [OF b len] name dir(2)
    by (auto simp: read_all_indexed_records_def read_indexed_records_at_locations_def intro: sorted_records_cong)
  moreover have "?st\<lparr>ps_records := sorted_records (ps_records st)\<rparr> = stored_state st name locs" by (simp add: stored_state_def)
  ultimately show ?thesis using dir(1) by (simp add: read_state_def read_impl_def del: persisted_state.update_convs)
qed

text \<open>
  C7. A state that is stored is read back, with its records sorted; and after a metadata update of some inputs,
  the state is read with these inputs, the output and the build id of the update.
\<close>

theorem state_store_roundtrip:
  assumes ok: "storable hex zs hash st"
    and w: "write_indexed_records zs hash (ps_records st) = Some (Inr (name, contents, locs))" and len: "length contents < 2 ^ 64"
    and new: "update_wf Parse new indices" "length (ps_input_files new) = length (ps_input_files st)" "ps_sections_file new \<noteq> None"
  shows "\<exists>dir1 dir2. write_state hex zs hash st dir = Some (Inr dir1)
    \<and> read_state hex zs hash dir1 = Inr (Some (stored_state st name locs))
    \<and> write_metadata_update_for_inputs hex zs hash new indices dir1 = Some (Inr dir2)
    \<and> read_state hex zs hash dir2 = Inr (Some (updated_state (stored_state st name locs) indices new))"
proof -
  let ?dir1 = "write_index_with_sections_files hex st name (Some name) locs None (dir\<lparr>sd_sidecars := (sd_sidecars dir)(name \<mapsto> contents)\<rparr>)"
  have w1: "write_state hex zs hash st dir = Some (Inr ?dir1)" using w by (simp add: write_state_def)
  have hex: "hex_ok hex" using ok by (simp add: storable_def)
  have "length (ps_input_files (stored_state st name locs)) = length (ps_input_files new)" using new(2) by (simp add: stored_state_def)
  from metadata_update_applied [OF hex new(1) this] obtain update where u: "render_metadata_update hex new indices = Some update"
      "apply_metadata_update hex Parse (Some update) (stored_state st name locs) = Inr (updated_state (stored_state st name locs) indices new)"
    by (auto simp: updated_state_def)
  have read: "read_state hex zs hash (?dir1\<lparr>sd_update := upd\<rparr>)
      = res_bind (apply_metadata_update hex Parse upd (stored_state st name locs)) (\<lambda>st. Inr (Some st))" for upd
    using read_stored [OF ok w len, of "?dir1\<lparr>sd_update := upd\<rparr>"] by (simp add: write_index_with_sections_files_def)
  have "read_state hex zs hash ?dir1 = Inr (Some (stored_state st name locs))"
    using read [of None] by (simp add: write_index_with_sections_files_def apply_metadata_update_def)
  then show ?thesis using w1 u read [of "Some update"] new(3) by (auto simp: write_metadata_update_for_inputs_def)
qed

text \<open>
  C29. A second metadata update replaces the first: an input that only the first update has is read as it was
  before both.
\<close>

theorem second_update_drops_first:
  assumes ok: "storable hex zs hash st"
    and w: "write_indexed_records zs hash (ps_records st) = Some (Inr (name, contents, locs))" and len: "length contents < 2 ^ 64"
    and st1: "update_wf Parse st1 indices1" "ps_sections_file st1 \<noteq> None"
    and st2: "update_wf Parse st2 indices2" "ps_sections_file st2 \<noteq> None" "length (ps_input_files st2) = length (ps_input_files st)"
    and dir: "write_state hex zs hash st dir = Some (Inr dir0)" "write_metadata_update_for_inputs hex zs hash st1 indices1 dir0 = Some (Inr dir1)"
      "write_metadata_update_for_inputs hex zs hash st2 indices2 dir1 = Some (Inr dir2)"
    and i: "i \<in> set indices1" "i \<notin> set indices2" "i < length (ps_input_files st)"
  shows "\<exists>s. read_state hex zs hash dir2 = Inr (Some s) \<and> ps_input_files s ! i = ps_input_files st ! i"
proof -
  obtain dir0' dir2' where d: "write_state hex zs hash st dir = Some (Inr dir0')"
      "write_metadata_update_for_inputs hex zs hash st2 indices2 dir0' = Some (Inr dir2')"
      "read_state hex zs hash dir2' = Inr (Some (updated_state (stored_state st name locs) indices2 st2))"
    using state_store_roundtrip [OF ok w len st2(1,3,2)] by blast
  then have "dir2 = dir2'" using dir st1(2) st2(2) by (auto simp: write_metadata_update_for_inputs_def)
  then show ?thesis using d(3) i by (simp add: updated_state_def updated_inputs_def stored_state_def)
qed

subsection \<open>Examples\<close>

definition sample_zstd :: zstd where
  "sample_zstd = \<lparr>zstd_encode = Inr, zstd_decode = Inr\<rparr>"

definition sample_hash :: "string \<Rightarrow> string" where
  "sample_hash s = ''ab''"

definition sample_dir :: state_dir where
  "sample_dir = \<lparr>sd_index = None, sd_update = None, sd_sidecars = Map.empty\<rparr>"

text \<open>The only records of the second input are those of the first that point into it.\<close>

definition small_records :: compact_records where
  "small_records =
     \<lparr>cr_sections = [\<lparr>sr_input_file = ''61'', sr_input = ''61'', sr_section_index = 3, sr_output_offset = 4, sr_size = 1\<rparr>],
      cr_relocations = [\<lparr>rr_target_symbol_id = 7, rr_written_value = None, rr_target_value = 4, rr_target_name = None,
        rr_target = Some \<lparr>rt_input_file = ''62'', rt_input = ''62'', rt_section_index = 1, rt_section_offset = 8\<rparr>,
        rr_input_file = ''61'', rr_input = ''61'', rr_section_index = 3, rr_relocation_offset = 4, rr_output_offset = 5,
        rr_size = 4, rr_kind = 2, rr_addend = 0\<rparr>],
      cr_fdes = [], cr_dynamic_relocations = []\<rparr>"

definition small_state :: persisted_state where
  "small_state = sample_state\<lparr>ps_records := small_records\<rparr>"

text \<open>The second input changes, then the first.\<close>

definition sample_update1 :: persisted_state where
  "sample_update1 = sample_state\<lparr>ps_sections_file := Some ''sections'', ps_input_files := [sample_file ''61'' ''a0'', sample_file ''62'' ''b1'']\<rparr>"

definition sample_update2 :: persisted_state where
  "sample_update2 = sample_update1\<lparr>ps_input_files := [sample_file ''61'' ''a1'', sample_file ''62'' ''b1'']\<rparr>"

lemma sample_storable: "storable sample_hex sample_zstd sample_hash small_state"
proof -
  have "utf8_valid ''61''" "utf8_valid ''62''" by code_simp+
  then have "records_text small_records" by (simp add: records_text_def small_records_def input_keys_def relocation_keys_def)
  moreover have "records_wf small_records"
    by (simp add: records_wf_def small_records_def input_keys_def relocation_keys_def field_text_def relocation_wf_def ABSENT_FIELD_def)
  ultimately show ?thesis using sample_hex_ok sample_state_wf
    by (simp add: storable_def zstd_ok_def sample_zstd_def hash_ok_def sample_hash_def small_state_def state_wf_def)
qed

lemma sample_written:
  "\<exists>name contents locs. write_indexed_records sample_zstd sample_hash small_records = Some (Inr (name, contents, locs))
    \<and> length contents < 2 ^ 64"
proof -
  have o: "record_owners small_records = [''61'']" "owner_records small_records ''61'' = small_records"
    by (simp_all add: record_owners_def owner_records_def small_records_def)
  have "case write_rendered_records small_records of Some c \<Rightarrow> length c < 1000 | _ \<Rightarrow> False" by code_simp
  then obtain c where c: "write_rendered_records small_records = Some c" "length c < 1000" by (auto split: option.splits)
  then have "compress_blocks sample_zstd small_records (record_owners small_records) = Some (Inr [(''61'', c)])"
    unfolding o(1) by (simp add: o(2) sample_zstd_def)
  then show ?thesis using c(2) by (simp add: write_indexed_records_def Let_def)
qed

lemma sample_updates_wf: "update_wf Parse sample_update1 [1]" "update_wf Parse sample_update2 [0]"
  using sample_file_wf sample_state_wf
  by (simp_all add: update_wf_def sample_update1_def sample_update2_def state_wf_def)

theorem indexed_records_correct_witness:
  "\<exists>files st. read_indexed_patch_records sample_zstd sample_hash files st (the (ps_sections_file st)) {''62''}
     = Inr (Some (small_records\<lparr>cr_sections := []\<rparr>))"
proof -
  obtain name contents locs where w: "write_indexed_records sample_zstd sample_hash small_records = Some (Inr (name, contents, locs))"
      "length contents < 2 ^ 64"
    using sample_written by blast
  have ok: "records_wf small_records" "records_text small_records" "zstd_ok sample_zstd" "hash_ok sample_hash"
    using sample_storable by (simp_all add: storable_def small_state_def)
  define st where "st = small_state\<lparr>ps_sections_file := Some name, ps_patch_records_file := Some name, ps_patch_record_locations := locs\<rparr>"
  have "retain_records {''62''} (sorted_records small_records) = small_records\<lparr>cr_sections := []\<rparr>"
    by (simp add: retain_records_def sorted_records_def small_records_def sort_dedup_def)
  with indexed_records_correct [OF ok w, of "[name \<mapsto> contents]" st "{''62''}"]
  have "read_indexed_patch_records sample_zstd sample_hash [name \<mapsto> contents] st name {''62''}
     = Inr (Some (small_records\<lparr>cr_sections := []\<rparr>))" by (simp add: st_def)
  moreover have "the (ps_sections_file st) = name" by (simp add: st_def)
  ultimately show ?thesis by metis
qed

theorem state_store_roundtrip_witness:
  "\<exists>dir1 dir2 s. write_state sample_hex sample_zstd sample_hash small_state sample_dir = Some (Inr dir1)
    \<and> write_metadata_update_for_inputs sample_hex sample_zstd sample_hash sample_update1 [1] dir1 = Some (Inr dir2)
    \<and> read_state sample_hex sample_zstd sample_hash dir2 = Inr (Some s)
    \<and> ps_input_files s = ps_input_files sample_update1"
proof -
  obtain name contents locs where w: "write_indexed_records sample_zstd sample_hash (ps_records small_state) = Some (Inr (name, contents, locs))"
      "length contents < 2 ^ 64" using sample_written by (auto simp: small_state_def)
  have "length (ps_input_files sample_update1) = length (ps_input_files small_state)" "ps_sections_file sample_update1 \<noteq> None"
    by (simp_all add: sample_update1_def sample_state_def small_state_def)
  note r = state_store_roundtrip [OF sample_storable w sample_updates_wf(1) this, of sample_dir]
  have "ps_input_files (updated_state (stored_state small_state name locs) [1] sample_update1) = ps_input_files sample_update1"
    by (simp add: updated_state_def stored_state_def updated_inputs_def sample_update1_def sample_state_def small_state_def)
  then show ?thesis using r by metis
qed

theorem second_update_drops_first_witness:
  "\<exists>dir0 dir1 dir2 s. write_state sample_hex sample_zstd sample_hash small_state sample_dir = Some (Inr dir0)
    \<and> write_metadata_update_for_inputs sample_hex sample_zstd sample_hash sample_update1 [1] dir0 = Some (Inr dir1)
    \<and> write_metadata_update_for_inputs sample_hex sample_zstd sample_hash sample_update2 [0] dir1 = Some (Inr dir2)
    \<and> read_state sample_hex sample_zstd sample_hash dir2 = Inr (Some s)
    \<and> ps_input_files sample_update2 ! 1 = sample_file ''62'' ''b1'' \<and> ps_input_files s ! 1 = sample_file ''62'' ''b0''"
proof -
  obtain name contents locs where w: "write_indexed_records sample_zstd sample_hash (ps_records small_state) = Some (Inr (name, contents, locs))"
      "length contents < 2 ^ 64" using sample_written by (auto simp: small_state_def)
  have len: "length (ps_input_files sample_update2) = length (ps_input_files small_state)" "length (ps_input_files small_state) = 2"
      "ps_sections_file sample_update1 \<noteq> None" "ps_sections_file sample_update2 \<noteq> None"
      "length (ps_input_files sample_update1) = length (ps_input_files small_state)"
    by (simp_all add: sample_update1_def sample_update2_def sample_update1_def sample_state_def small_state_def)
  obtain dir0 dir1 where d: "write_state sample_hex sample_zstd sample_hash small_state sample_dir = Some (Inr dir0)"
      "write_metadata_update_for_inputs sample_hex sample_zstd sample_hash sample_update1 [1] dir0 = Some (Inr dir1)"
    using state_store_roundtrip [OF sample_storable w sample_updates_wf(1) len(5,3), of sample_dir] by blast
  have hex: "hex_ok sample_hex" using sample_storable by (simp add: storable_def)
  obtain dir2 where d2: "write_metadata_update_for_inputs sample_hex sample_zstd sample_hash sample_update2 [0] dir1 = Some (Inr dir2)"
    using metadata_update_applied [OF hex sample_updates_wf(2), of small_state] len(1,4) by (auto simp: write_metadata_update_for_inputs_def)
  have "\<exists>s. read_state sample_hex sample_zstd sample_hash dir2 = Inr (Some s) \<and> ps_input_files s ! 1 = ps_input_files small_state ! 1"
    using second_update_drops_first [OF sample_storable w sample_updates_wf(1) len(3) sample_updates_wf(2) len(4,1) d d2, of 1] len(2) by simp
  then show ?thesis using d d2 by (auto simp: sample_update2_def sample_update1_def sample_state_def small_state_def)
qed

end
