(* ===== verification/Spec2Isabelle.thy ===== *)
theory Spec2Isabelle
  imports Sysv_Hash Resolution_Agree Reloc_Safety RiscV_Scan Segment_Layout SFrame Thunk_Layout Patch_Output State_Dir_Roundtrip
begin

text \<open>
  Verification of \<^verbatim>\<open>sld\<close>, an ELF linker written in Rust (crates \<^verbatim>\<open>libsld\<close> and \<^verbatim>\<open>linker-utils\<close>).

  The program. A link reads object files, resolves symbols, decides which sections reach the output,
  shrinks code where the architecture allows it (relaxation), gives every output section a place in the
  file and in memory (layout), and then copies the sections and applies their relocations: each
  relocation writes a value into the bits of an instruction or of a data word. The development
  models the parts that decide where things go and which bits are written: relocation tables and
  instruction encodings, relaxation, output order, layout of parts, sections and segments, GOT and PLT
  entries, range-extension thunks, symbol hash tables, and the state that incremental links keep.

  Conventions. Integers keep their width (\<^verbatim>\<open>u64\<close> is \<open>64 word\<close>); the operators of a release build wrap. A
  panic, a failed assertion (a failed \<^verbatim>\<open>debug_assert!\<close> too) and an index out of range are \<open>None\<close>. An
  error that the code returns is a value \<open>Inl e\<close> of a sum type. Code outside the repository is a
  parameter: the ELF constants of the crate \<^verbatim>\<open>object\<close> are \<open>elf :: string \<Rightarrow> u32\<close>, the sizes of
  its record types \<open>size_of\<close>, its symbol hashes \<open>gnu_hash\<close> and \<open>elf_hash\<close>, the LEB128 encoder of the crate \<^verbatim>\<open>leb128\<close> is \<open>uleb\<close>, the hash of the crate \<^verbatim>\<open>blake3\<close>
  is \<open>b3\<close> with the laws \<open>blake3_ok\<close>, the crates \<^verbatim>\<open>hex\<close> and \<^verbatim>\<open>zstd\<close> are \<open>hex\<close> and \<open>zs\<close> with \<open>hex_ok\<close> and \<open>zstd_ok\<close>. Loops
  are total functions, so no fuel is needed; the two recursions over subtrees of the build id and the two
  lookups in hash tables, whose loops in the code may not end, are partial functions that are proved to return. Text is its UTF-8 bytes.

  Theories, with the files they model under \<^verbatim>\<open>src/\<close>.

  \<^item> \<open>Prelude\<close>: word abbreviations, list access with bounds, byte views of words, and the
    lemma collections that the other theories share. \<open>Bit_Fields\<close>: scattering a value over the bit fields
    of an instruction, with the locale \<open>field_layout\<close> for encoders whose fields do not overlap.
  \<^item> \<open>Bit_Misc\<close> and \<open>Utils\<close>: \<^verbatim>\<open>linker-utils/src/bit_misc.rs\<close>, \<^verbatim>\<open>linker-utils/src/utils.rs\<close>.
  \<^item> \<open>Elf_Types\<close>, \<open>Reloc_Write\<close>: the relocation data model of \<^verbatim>\<open>linker-utils/src/elf.rs\<close>, its range checks
    (\<^verbatim>\<open>RelocationKindInfo::verify\<close>) and the write (\<^verbatim>\<open>write_to_buffer\<close>).
  \<^item> \<open>AArch64_Insn\<close>, \<open>RiscV_Insn\<close>, \<open>LoongArch64_Insn\<close>: encoders and decoders of \<^verbatim>\<open>linker-utils/src/aarch64.rs\<close>,
    \<^verbatim>\<open>riscv64.rs\<close>, \<^verbatim>\<open>loongarch64.rs\<close>; \<open>Reloc_Table\<close> with \<open>AArch64_Relocs\<close>, \<open>RiscV_Relocs\<close> and
    \<open>LoongArch64_Relocs\<close>: their relocation tables, with the locale \<open>match_table\<close> for a match over constants.
    \<open>AArch64_Write\<close>, \<open>RiscV_Write\<close>, \<open>LoongArch64_Write\<close> and \<open>Reloc_Safety\<close> put table, check and encoder together.
  \<^item> \<open>Relax_Common\<close>, \<open>X86_64\<close>: the rewrites and the table of \<^verbatim>\<open>linker-utils/src/x86_64.rs\<close>.
  \<^item> \<open>Std_Search\<close>: \<^verbatim>\<open>binary_search_by\<close> and \<^verbatim>\<open>partition_point\<close> of the standard library, with the locale
    \<open>sorted_search\<close>; \<open>Relax_Deltas\<close>: \<^verbatim>\<open>linker-utils/src/relaxation.rs\<close>.
  \<^item> \<open>RiscV_Relax\<close>, \<open>RiscV_Scan\<close>: \<^verbatim>\<open>RelaxationKind\<close> of \<^verbatim>\<open>linker-utils/src/riscv64.rs\<close>, and \<^verbatim>\<open>new_relaxation\<close> and
    \<^verbatim>\<open>collect_relaxation_deltas\<close> of \<^verbatim>\<open>libsld/src/elf_riscv64.rs\<close>.
  \<^item> \<open>Alignment\<close>, \<open>Output_Sections\<close>, \<open>Output_Order\<close>: \<^verbatim>\<open>libsld/src/alignment.rs\<close>, \<^verbatim>\<open>output_kind.rs\<close>, \<^verbatim>\<open>part_id.rs\<close>,
    \<^verbatim>\<open>output_section_id.rs\<close>, \<^verbatim>\<open>output_section_map.rs\<close>, \<^verbatim>\<open>output_section_part_map.rs\<close>, \<^verbatim>\<open>program_segments.rs\<close>. The
    trait \<^verbatim>\<open>Platform\<close> is the record \<open>platform\<close>; \<open>Elf_Platform\<close> is its ELF instance from \<^verbatim>\<open>libsld/src/elf.rs\<close>.
  \<^item> \<open>Layout\<close>, \<open>Layout_Disjoint\<close>, \<open>Layout_Congruent\<close>, \<open>Segment_Layout\<close>: the placement functions of
    \<^verbatim>\<open>libsld/src/layout.rs\<close>. The locale \<open>load_start\<close> states what the layout needs of a platform's
    \<^verbatim>\<open>align_load_segment_start\<close>; it is interpreted on the ELF function.
  \<^item> \<open>SFrame\<close>: the sorting of the merged \<^verbatim>\<open>.sframe\<close> section, \<^verbatim>\<open>libsld/src/sframe.rs\<close>.
  \<^item> \<open>Value_Flags\<close>: the flags of a symbol, \<^verbatim>\<open>libsld/src/value_flags.rs\<close>; the atomic updates are a step relation
    on one word and the calls of the threads.
  \<^item> \<open>Plt_Entries\<close>: dynamic relocation types (\<^verbatim>\<open>linker-utils/src/elf.rs\<close>), the PLT entry of each architecture and
    the AArch64 thunk (\<^verbatim>\<open>elf_x86_64.rs\<close>, \<^verbatim>\<open>elf_aarch64.rs\<close>, \<^verbatim>\<open>elf_riscv64.rs\<close>, \<^verbatim>\<open>elf_loongarch64.rs\<close>), with the locale
    \<open>plt_writer\<close>, interpreted for each architecture. \<open>Resolution_Passes\<close>: \<^verbatim>\<open>allocate_resolution\<close> and \<^verbatim>\<open>create_resolution\<close> of
    \<^verbatim>\<open>libsld/src/elf.rs\<close>; \<open>Table_Writer\<close>: \<^verbatim>\<open>process_resolution\<close> of \<^verbatim>\<open>libsld/src/elf_writer.rs\<close>; \<open>Resolution_Sizes\<close>,
    \<open>Resolution_Writes\<close>, \<open>Resolution_Agree\<close>: the three passes over the symbols of a group.
  \<^item> \<open>Std_Num\<close>: number functions of the standard library. \<open>Symbol_Hash\<close> with \<open>Gnu_Hash\<close> and \<open>Sysv_Hash\<close>: the hash tables of
    \<^verbatim>\<open>libsld/src/elf.rs\<close> and \<^verbatim>\<open>elf_writer.rs\<close>, and their readers in \<^verbatim>\<open>linker-diff/src/gnu_hash.rs\<close> and \<^verbatim>\<open>sysv_hash.rs\<close>.
  \<^item> \<open>Thunk_Assign\<close>, \<open>Thunks\<close>, \<open>Thunk_Layout\<close>: \<^verbatim>\<open>libsld/src/thunks.rs\<close>, with the sizes and addresses of thunks from
    \<^verbatim>\<open>layout.rs\<close> and \<^verbatim>\<open>maybe_get_thunk_for_relocation\<close> of \<^verbatim>\<open>elf_writer.rs\<close>. The files of all groups are one list.

  \<^item> Incremental linking, \<^verbatim>\<open>libsld/src/incremental.rs\<close>. \<open>Build_Id_Tree\<close>, \<open>Build_Id_Update\<close>: the build id as a hash
    tree over the output, its update for patched ranges (\<^verbatim>\<open>update_build_id_hash_tree\<close>) and its file.
    \<open>Patch_Output\<close>: the part of \<^verbatim>\<open>patch_changed_inputs\<close> that checks and writes patches. \<open>Rust_Text\<close>: splitting,
    lines and numbers of the standard library. \<open>State_Records\<close> with \<open>State_Roundtrip\<close>, \<open>State_Index\<close> with
    \<open>State_Index_Roundtrip\<close>: the text formats of the records, the index and the metadata update.
    \<open>State_Dir\<close> with \<open>State_Dir_Roundtrip\<close>: the state directory as a record of its files, with the compressed
    blocks of records and the locations that say which inputs need which block.

  What is proved.

  \<^item> Relocations. A write that is not refused stores the value exactly: reading the field gives it back and
    no other bit changes (AArch64, RISC-V, LoongArch64), pairs of instructions compute it together,
    and an x86-64 write never truncates. No write panics. Pairs of RISC-V and LoongArch64
    instructions wrap for the highest values that the tables accept; the theorems say where.
  \<^item> Relaxation. The deletions found by the scan are well formed; offsets translate to the output as the
    rank among kept bytes, the translation is inverted by \<^verbatim>\<open>output_to_input_offset\<close>, and cursor,
    merge, queries and the per-section map agree with that specification. Alignment padding is exact. The
    rewritten RISC-V calls jump where the pair did, with the link register of the \<^verbatim>\<open>auipc\<close>, and the x86-64
    immediate forms keep their register.
  \<^item> Order and layout. The output order is well bracketed for every platform. File extents and addresses
    of parts do not overlap and are aligned; inside a load segment file offset and address agree modulo
    the page size; a program header covers the sections of its segment; the segment
    layout never fails on an order of the builder. Part ids are in bijection with sections and
    alignments. Every allocated section has exactly one load segment unless it is writable and executable.

  \<^item> Output sections. A rewritten \<^verbatim>\<open>.sframe\<close> section keeps its length and, read through its new header,
    lists the functions of all inputs in ascending order, each with its own frame rows.

  \<^item> Symbols. Loading a symbol is requested once under every interleaving, and the atomic updates finish. Sizing, address assignment and
    writing agree for the GOT, the PLT and the dynamic relocations, every entry lies at its symbol's address,
    and PLT entries and AArch64 thunks, decoded instruction by instruction, reach the GOT entry or the target. The
    hash tables find every definition and nothing else.
  \<^item> Thunks. Every branch that may be out of reach has a thunk in the block of its object, an out-of-range
    relocation gets its displacement, and the block is near the object, up to the size of the block's owner.

  \<^item> Incremental links. The build id that an incremental link writes is the one a full computation over the
    new output gives, also when the link is not incremental; the tree of a patched output is updated
    exactly. Patches change their ranges and nothing else. What is stored is read back: records, index,
    hash tree, the whole directory, and the state after a metadata update. Reading only the blocks
    listed for some inputs finds all their records, also relocations of other inputs into them. A second
    metadata update replaces the first (\<^verbatim>\<open>second_update_drops_first\<close>), which the code does not mean to do.

  Not modelled. Reading of object files, archives and scripts (crates \<^verbatim>\<open>object\<close> and \<^verbatim>\<open>winnow\<close>), symbol
  resolution and the graph traversal of the layout (concurrent, over shared tables), the choice of
  relaxations on x86-64, AArch64 and LoongArch64, the writers of symbol tables, headers and section contents, the
  comparison of object files and the decisions of incremental linking, Mach-O and WebAssembly, the command line,
  files, processes and diagnostics, and the test tools \<^verbatim>\<open>linker-layout\<close>, \<^verbatim>\<open>linker-trace\<close> and \<^verbatim>\<open>linker-diff\<close>, except its
  checks of the hash tables.
\<close>

end
